(* ===== verification/Wolframe_Prelude.thy ===== *)
theory Wolframe_Prelude
  imports Main "HOL-Library.Word"
begin

text \<open>
  Shared vocabulary of the development: the C++ error values and the result type every
  fallible operation returns, the variant value type of \<^verbatim>\<open>include/types/variant.hpp\<close>,
  character classification as the \<^verbatim>\<open>C\<close> locale has it, decimal printing, and the list
  lemmas the components share. The collections \<open>result_simps\<close> and \<open>wolframe_defs\<close> are
  filled by the component theories.
\<close>

named_theorems result_simps \<open>equations that unfold the result combinators\<close>
named_theorems wolframe_defs \<open>defining equations of small accessors, unfolded together\<close>

section \<open>Errors and results\<close>

text \<open>
  The code raises \<^verbatim>\<open>std::runtime_error\<close>, \<^verbatim>\<open>std::logic_error\<close> and
  \<^verbatim>\<open>std::bad_alloc\<close>; \<open>BadCast\<close> is \<^verbatim>\<open>boost::bad_lexical_cast\<close>, and \<open>StdException\<close>
  an object of the base class \<^verbatim>\<open>std::exception\<close> itself. A path that the C++ standard leaves undefined (a null pointer
  dereference, a division by zero, an access out of the bounds of a C array) is an
  \<open>Undefined\<close> value with the reason, never a normal result.
\<close>

datatype cpp_error =
    RuntimeError string
  | LogicError string
  | BadAlloc
  | BadCast
  | StdException
  | Undefined string

type_synonym 'a result = "cpp_error + 'a"

definition rbind :: "'a result \<Rightarrow> ('a \<Rightarrow> 'b result) \<Rightarrow> 'b result" where
  "rbind r f = (case r of Inl e \<Rightarrow> Inl e | Inr x \<Rightarrow> f x)"

lemma rbind_Inl [simp, result_simps]: "rbind (Inl e) f = Inl e"
  by (simp add: rbind_def)

lemma rbind_Inr [simp, result_simps]: "rbind (Inr x) f = f x"
  by (simp add: rbind_def)

lemma rbind_eq_Inr_iff: "rbind r f = Inr y \<longleftrightarrow> (\<exists>x. r = Inr x \<and> f x = Inr y)"
  by (cases r) auto

lemma rbind_eq_Inl_iff:
  "rbind r f = Inl e \<longleftrightarrow> r = Inl e \<or> (\<exists>x. r = Inr x \<and> f x = Inl e)"
  by (cases r) auto

lemma rbind_cong: "(\<And>x. r = Inr x \<Longrightarrow> f x = g x) \<Longrightarrow> rbind r f = rbind r g"
  by (cases r) auto

lemma rbind_assoc: "rbind (rbind r f) g = rbind r (\<lambda>x. rbind (f x) g)"
  by (cases r) auto

text \<open>
  Code with a loop that may not end gives \<open>None\<close> when it does not.
\<close>

type_synonym 'a run = "'a result option"

definition run_bind :: "'a run \<Rightarrow> ('a \<Rightarrow> 'b run) \<Rightarrow> 'b run" where
  "run_bind r f = Option.bind r (\<lambda>x. case x of Inl e \<Rightarrow> Some (Inl e) | Inr y \<Rightarrow> f y)"

lemma run_bind_simps [simp, result_simps]:
  "run_bind None f = None" "run_bind (Some (Inl e)) f = Some (Inl e)" "run_bind (Some (Inr x)) f = f x"
  by (simp_all add: run_bind_def)

lemma run_bind_mono [partial_function_mono]:
  assumes "monotone (fun_ord option_ord) option_ord r"
    and "\<And>y. monotone (fun_ord option_ord) option_ord (\<lambda>f. g y f)"
  shows "monotone (fun_ord option_ord) option_ord (\<lambda>f. run_bind (r f) (\<lambda>y. g y f))"
  unfolding run_bind_def
  apply (rule bind_mono [OF assms(1)])
  subgoal for x using assms(2) by (cases x) (simp_all add: option.const_mono)
  done

text \<open>
  \<open>at_or e xs i\<close> is \<^verbatim>\<open>xs.at(i)\<close> guarded by the check \<^verbatim>\<open>if (i >= xs.size()) throw e\<close>
  that the code writes before each table access.
\<close>

definition at_or :: "cpp_error \<Rightarrow> 'a list \<Rightarrow> nat \<Rightarrow> 'a result" where
  "at_or e xs i = (if i < length xs then Inr (xs ! i) else Inl e)"

lemma at_or_Inr_iff [simp]: "at_or e xs i = Inr x \<longleftrightarrow> i < length xs \<and> xs ! i = x"
  by (auto simp: at_or_def)

lemma at_or_Inl_iff [simp]: "at_or e xs i = Inl e' \<longleftrightarrow> length xs \<le> i \<and> e' = e"
  by (auto simp: at_or_def)

lemma at_or_less [simp]: "i < length xs \<Longrightarrow> at_or e xs i = Inr (xs ! i)"
  by (simp add: at_or_def)

section \<open>Variant values\<close>

text \<open>
  \<^verbatim>\<open>types::Variant\<close>: a type tag and its datum. Pointers to custom objects are their
  addresses, doubles their 64 bit patterns, the big number its sign, scale and digits.
\<close>

datatype variant =
    V_Null
  | V_Custom "64 word"
  | V_Timestamp "64 word"
  | V_BigNumber bool int "nat list"
  | V_Double "64 word"
  | V_Int "64 word"
  | V_UInt "64 word"
  | V_Bool bool
  | V_String string

definition variant_defined :: "variant \<Rightarrow> bool" where
  "variant_defined v = (v \<noteq> V_Null)"

section \<open>Characters\<close>

abbreviation char_code :: "char \<Rightarrow> nat" where
  "char_code c \<equiv> of_char c"

abbreviation CR :: char where "CR \<equiv> CHR 0x0D"
abbreviation LF :: char where "LF \<equiv> CHR 0x0A"
abbreviation DOT :: char where "DOT \<equiv> CHR ''.''"

definition to_upper :: "char \<Rightarrow> char" where
  "to_upper c = (if 97 \<le> char_code c \<and> char_code c \<le> 122 then char_of (char_code c - 32) else c)"

definition to_lower :: "char \<Rightarrow> char" where
  "to_lower c = (if 65 \<le> char_code c \<and> char_code c \<le> 90 then char_of (char_code c + 32) else c)"

definition is_digit :: "char \<Rightarrow> bool" where
  "is_digit c = (48 \<le> char_code c \<and> char_code c \<le> 57)"

definition digit_val :: "char \<Rightarrow> nat" where
  "digit_val c = char_code c - 48"

definition digit_char :: "nat \<Rightarrow> char" where
  "digit_char d = char_of (d + 48)"

lemma digit_char_code [simp]: "d < 10 \<Longrightarrow> char_code (digit_char d) = d + 48"
  by (simp add: digit_char_def)

lemma digit_val_digit_char [simp]: "d < 10 \<Longrightarrow> digit_val (digit_char d) = d"
  by (simp add: digit_val_def)

lemma is_digit_digit_char [simp]: "d < 10 \<Longrightarrow> is_digit (digit_char d)"
  by (simp add: is_digit_def)

lemma digit_val_less: "is_digit c \<Longrightarrow> digit_val c < 10"
  by (auto simp: is_digit_def digit_val_def)

lemma digit_char_digit_val: "is_digit c \<Longrightarrow> digit_char (digit_val c) = c"
  by (auto simp: is_digit_def digit_val_def digit_char_def)

section \<open>Decimal printing\<close>

text \<open>What \<^verbatim>\<open>operator<<\<close> of an output stream prints for an unsigned integer.\<close>

fun decimal_digits :: "nat \<Rightarrow> nat list" where
  "decimal_digits n = (if n < 10 then [n] else decimal_digits (n div 10) @ [n mod 10])"

declare decimal_digits.simps [simp del]

definition print_unsigned :: "nat \<Rightarrow> string" where
  "print_unsigned n = map digit_char (decimal_digits n)"

definition digits_value :: "nat list \<Rightarrow> nat" where
  "digits_value ds = foldl (\<lambda>acc d. 10 * acc + d) 0 ds"

lemma digits_value_Nil [simp]: "digits_value [] = 0"
  by (simp add: digits_value_def)

lemma digits_value_snoc [simp]: "digits_value (ds @ [d]) = 10 * digits_value ds + d"
  by (simp add: digits_value_def)

lemma decimal_digits_less: "d \<in> set (decimal_digits n) \<Longrightarrow> d < 10"
  by (induction n rule: decimal_digits.induct)
     (subst (asm) (2) decimal_digits.simps, auto split: if_splits)

lemma digits_value_decimal_digits [simp]: "digits_value (decimal_digits n) = n"
proof (induction n rule: decimal_digits.induct)
  case (1 n)
  show ?case
  proof (cases "n < 10")
    case True
    then show ?thesis by (simp add: decimal_digits.simps [of n] digits_value_def)
  next
    case False
    with 1 have "digits_value (decimal_digits (n div 10)) = n div 10" by simp
    with False show ?thesis by (simp add: decimal_digits.simps [of n])
  qed
qed

lemma dropWhile_Cons_length: "dropWhile P cs = c # r \<Longrightarrow> length r < length cs"
  using length_dropWhile_le [of P cs] by (metis Suc_le_eq length_Cons)

end
