(* ===== verification/Instruction_Set.thy ===== *)
theory Instruction_Set
  imports Wolframe_Prelude
begin

text \<open>
  The instruction set of the transaction virtual machine,
  \<^verbatim>\<open>include/database/vm/instructionSet.hpp\<close>, and the program code array built from it,
  \<^verbatim>\<open>include/database/vm/programCode.hpp\<close>. An instruction is a 32 bit word: 6 bits of
  operation code, 2 bits of condition code, 20 bits of argument index. The lemmas show
  that building and taking apart an instruction are inverse, which arguments the builder
  refuses, and where the name tables do not fit their enumerations.
\<close>

unbundle bit_operations_syntax

section \<open>Enumerations\<close>

text \<open>
  A C++ enumeration also holds the values of its bit range that no enumerator names:
  52 to 63 for \<^verbatim>\<open>OpCode\<close> and 3 for \<^verbatim>\<open>CondCode\<close>. They are the constructors
  \<open>Op_unnamed\<close> and \<open>Co_unnamed\<close>; the decoders produce them by their casts.
\<close>

datatype opcode =
    Op_EXIT
  | Op_RETURN
  | Op_GOTO
  | Op_OUTPUT_CONST
  | Op_OUTPUT_PATH
  | Op_OUTPUT_LOOPCNT
  | Op_OUTPUT_SEL_IDX
  | Op_OUTPUT_SEL_NAM
  | Op_OUTPUT_ITR_IDX
  | Op_OUTPUT_ITR_NAM
  | Op_OUTPUT_ITR_COLUMN
  | Op_OUTPUT_OPEN_ARRAY
  | Op_OUTPUT_OPEN_ELEM
  | Op_OUTPUT_OPEN
  | Op_OUTPUT_CLOSE_ARRAY
  | Op_OUTPUT_CLOSE_ELEM
  | Op_OUTPUT_CLOSE
  | Op_OUTPUT_ADD_SINK
  | Op_KEEP_RESULT
  | Op_SELECT_PARAMETER
  | Op_SELECT_LAST_RESULT
  | Op_SELECT_KEPT_RESULT
  | Op_OPEN_ITER_LAST_RESULT
  | Op_OPEN_ITER_KEPT_RESULT
  | Op_OPEN_ITER_PATH
  | Op_OPEN_ITER_TUPLESET
  | Op_NEXT
  | Op_SUB_FRAME_OPEN
  | Op_SUB_ARG_CONST
  | Op_SUB_ARG_PATH
  | Op_SUB_ARG_LOOPCNT
  | Op_SUB_ARG_SEL_IDX
  | Op_SUB_ARG_SEL_NAM
  | Op_SUB_ARG_ITR_IDX
  | Op_SUB_ARG_ITR_NAM
  | Op_SUB_FRAME_CLOSE
  | Op_SCOPE_OPEN
  | Op_SCOPE_CLOSE
  | Op_DBSTM_START
  | Op_DBSTM_BIND_CONST
  | Op_DBSTM_BIND_PATH
  | Op_DBSTM_BIND_LOOPCNT
  | Op_DBSTM_BIND_SEL_IDX
  | Op_DBSTM_BIND_SEL_NAM
  | Op_DBSTM_BIND_ITR_IDX
  | Op_DBSTM_BIND_ITR_NAM
  | Op_DBSTM_HINT
  | Op_DBSTM_EXEC
  | Op_RESULT_SET_INIT
  | Op_RESULT_CONSTRAINT_UNIQUE
  | Op_RESULT_CONSTRAINT_NONEMPTY
  | Op_NOP
  | Op_unnamed nat

datatype condcode = Co_ALWAYS | Co_IF_COND | Co_NOT_IF_COND | Co_unnamed

datatype argument_type =
    At_None
  | At_Address
  | At_Path
  | At_Constant
  | At_ColumnName
  | At_TagName
  | At_ResultName
  | At_Statement
  | At_Hint
  | At_SubroutineSignature
  | At_TupleSet
  | At_SelectedColumnIdx
  | At_IteratorColumnIdx

definition opcodes :: "opcode list" where
  "opcodes =
    [Op_EXIT, Op_RETURN, Op_GOTO, Op_OUTPUT_CONST, Op_OUTPUT_PATH, Op_OUTPUT_LOOPCNT,
     Op_OUTPUT_SEL_IDX, Op_OUTPUT_SEL_NAM, Op_OUTPUT_ITR_IDX, Op_OUTPUT_ITR_NAM,
     Op_OUTPUT_ITR_COLUMN, Op_OUTPUT_OPEN_ARRAY, Op_OUTPUT_OPEN_ELEM, Op_OUTPUT_OPEN,
     Op_OUTPUT_CLOSE_ARRAY, Op_OUTPUT_CLOSE_ELEM, Op_OUTPUT_CLOSE, Op_OUTPUT_ADD_SINK,
     Op_KEEP_RESULT, Op_SELECT_PARAMETER, Op_SELECT_LAST_RESULT, Op_SELECT_KEPT_RESULT,
     Op_OPEN_ITER_LAST_RESULT, Op_OPEN_ITER_KEPT_RESULT, Op_OPEN_ITER_PATH,
     Op_OPEN_ITER_TUPLESET, Op_NEXT, Op_SUB_FRAME_OPEN, Op_SUB_ARG_CONST, Op_SUB_ARG_PATH,
     Op_SUB_ARG_LOOPCNT, Op_SUB_ARG_SEL_IDX, Op_SUB_ARG_SEL_NAM, Op_SUB_ARG_ITR_IDX,
     Op_SUB_ARG_ITR_NAM, Op_SUB_FRAME_CLOSE, Op_SCOPE_OPEN, Op_SCOPE_CLOSE, Op_DBSTM_START,
     Op_DBSTM_BIND_CONST, Op_DBSTM_BIND_PATH, Op_DBSTM_BIND_LOOPCNT, Op_DBSTM_BIND_SEL_IDX,
     Op_DBSTM_BIND_SEL_NAM, Op_DBSTM_BIND_ITR_IDX, Op_DBSTM_BIND_ITR_NAM, Op_DBSTM_HINT,
     Op_DBSTM_EXEC, Op_RESULT_SET_INIT, Op_RESULT_CONSTRAINT_UNIQUE,
     Op_RESULT_CONSTRAINT_NONEMPTY, Op_NOP]"

definition opcode_of_value :: "nat \<Rightarrow> opcode" where
  "opcode_of_value n = (if n < length opcodes then opcodes ! n else Op_unnamed n)"

fun opcode_value :: "opcode \<Rightarrow> nat" where
  "opcode_value Op_EXIT = 0"
| "opcode_value Op_RETURN = 1"
| "opcode_value Op_GOTO = 2"
| "opcode_value Op_OUTPUT_CONST = 3"
| "opcode_value Op_OUTPUT_PATH = 4"
| "opcode_value Op_OUTPUT_LOOPCNT = 5"
| "opcode_value Op_OUTPUT_SEL_IDX = 6"
| "opcode_value Op_OUTPUT_SEL_NAM = 7"
| "opcode_value Op_OUTPUT_ITR_IDX = 8"
| "opcode_value Op_OUTPUT_ITR_NAM = 9"
| "opcode_value Op_OUTPUT_ITR_COLUMN = 10"
| "opcode_value Op_OUTPUT_OPEN_ARRAY = 11"
| "opcode_value Op_OUTPUT_OPEN_ELEM = 12"
| "opcode_value Op_OUTPUT_OPEN = 13"
| "opcode_value Op_OUTPUT_CLOSE_ARRAY = 14"
| "opcode_value Op_OUTPUT_CLOSE_ELEM = 15"
| "opcode_value Op_OUTPUT_CLOSE = 16"
| "opcode_value Op_OUTPUT_ADD_SINK = 17"
| "opcode_value Op_KEEP_RESULT = 18"
| "opcode_value Op_SELECT_PARAMETER = 19"
| "opcode_value Op_SELECT_LAST_RESULT = 20"
| "opcode_value Op_SELECT_KEPT_RESULT = 21"
| "opcode_value Op_OPEN_ITER_LAST_RESULT = 22"
| "opcode_value Op_OPEN_ITER_KEPT_RESULT = 23"
| "opcode_value Op_OPEN_ITER_PATH = 24"
| "opcode_value Op_OPEN_ITER_TUPLESET = 25"
| "opcode_value Op_NEXT = 26"
| "opcode_value Op_SUB_FRAME_OPEN = 27"
| "opcode_value Op_SUB_ARG_CONST = 28"
| "opcode_value Op_SUB_ARG_PATH = 29"
| "opcode_value Op_SUB_ARG_LOOPCNT = 30"
| "opcode_value Op_SUB_ARG_SEL_IDX = 31"
| "opcode_value Op_SUB_ARG_SEL_NAM = 32"
| "opcode_value Op_SUB_ARG_ITR_IDX = 33"
| "opcode_value Op_SUB_ARG_ITR_NAM = 34"
| "opcode_value Op_SUB_FRAME_CLOSE = 35"
| "opcode_value Op_SCOPE_OPEN = 36"
| "opcode_value Op_SCOPE_CLOSE = 37"
| "opcode_value Op_DBSTM_START = 38"
| "opcode_value Op_DBSTM_BIND_CONST = 39"
| "opcode_value Op_DBSTM_BIND_PATH = 40"
| "opcode_value Op_DBSTM_BIND_LOOPCNT = 41"
| "opcode_value Op_DBSTM_BIND_SEL_IDX = 42"
| "opcode_value Op_DBSTM_BIND_SEL_NAM = 43"
| "opcode_value Op_DBSTM_BIND_ITR_IDX = 44"
| "opcode_value Op_DBSTM_BIND_ITR_NAM = 45"
| "opcode_value Op_DBSTM_HINT = 46"
| "opcode_value Op_DBSTM_EXEC = 47"
| "opcode_value Op_RESULT_SET_INIT = 48"
| "opcode_value Op_RESULT_CONSTRAINT_UNIQUE = 49"
| "opcode_value Op_RESULT_CONSTRAINT_NONEMPTY = 50"
| "opcode_value Op_NOP = 51"
| "opcode_value (Op_unnamed n) = n"

fun condcode_value :: "condcode \<Rightarrow> nat" where
  "condcode_value Co_ALWAYS = 0"
| "condcode_value Co_IF_COND = 1"
| "condcode_value Co_NOT_IF_COND = 2"
| "condcode_value Co_unnamed = 3"

definition condcode_of_value :: "nat \<Rightarrow> condcode" where
  "condcode_of_value n =
    (if n = 0 then Co_ALWAYS else if n = 1 then Co_IF_COND
     else if n = 2 then Co_NOT_IF_COND else Co_unnamed)"

section \<open>Name tables\<close>

text \<open>A C array read; past its end the read is undefined.\<close>

definition array_read :: "'a list \<Rightarrow> nat \<Rightarrow> 'a result" where
  "array_read xs i = at_or (Undefined ''array bound read'') xs i"

definition opCodeName_table :: "string list" where
  "opCodeName_table =
    [''EXIT'', ''RETURN'', ''GOTO'', ''OUTPUT_CONST'', ''OUTPUT_PATH'', ''OUTPUT_LOOPCNT'',
     ''OUTPUT_SEL_IDX'', ''OUTPUT_SEL_NAM'', ''OUTPUT_ITR_IDX'', ''OUTPUT_ITR_NAM'',
     ''OUTPUT_ITR_COLUMN'', ''OUTPUT_OPEN_ARRAY'', ''OUTPUT_OPEN_ELEM'', ''OUTPUT_OPEN'',
     ''OUTPUT_CLOSE_ARRAY'', ''OUTPUT_CLOSE_ELEM'', ''OUTPUT_CLOSE'', ''OUTPUT_ADD_SINK'',
     ''KEEP_RESULT'', ''SELECT_PARAMETER'', ''SELECT_LAST_RESULT'', ''SELECT_KEPT_RESULT'',
     ''OPEN_ITER_LAST_RESULT'', ''OPEN_ITER_KEPT_RESULT'', ''OPEN_ITER_PATH'',
     ''OPEN_ITER_TUPLESET'', ''NEXT'', ''SUB_FRAME_OPEN'', ''SUB_ARG_CONST'', ''SUB_ARG_PATH'',
     ''SUB_ARG_LOOPCNT'', ''SUB_ARG_SEL_IDX'', ''SUB_ARG_SEL_NAM'', ''SUB_ARG_ITR_IDX'',
     ''SUB_ARG_ITR_NAM'', ''SUB_FRAME_CLOSE'', ''SCOPE_OPEN'', ''SCOPE_CLOSE'',
     ''DBSTM_START'', ''DBSTM_BIND_CONST'', ''DBSTM_BIND_PATH'', ''DBSTM_BIND_LOOPCNT'',
     ''DBSTM_BIND_SEL_IDX'', ''DBSTM_BIND_SEL_NAM'', ''DBSTM_BIND_ITR_IDX'',
     ''DBSTM_BIND_ITR_NAM'', ''DBSTM_HINT'', ''DBSTM_EXEC'', ''RESULT_SET_INIT'',
     ''RESULT_CONSTRAINT_UNIQUE'', ''RESULT_CONSTRAINT_NONEMPTY'', ''NOP'']"

definition opCodeName :: "opcode \<Rightarrow> string result" where
  "opCodeName i = array_read opCodeName_table (opcode_value i)"

fun argument_type_value :: "argument_type \<Rightarrow> nat" where
  "argument_type_value At_None = 0"
| "argument_type_value At_Address = 1"
| "argument_type_value At_Path = 2"
| "argument_type_value At_Constant = 3"
| "argument_type_value At_ColumnName = 4"
| "argument_type_value At_TagName = 5"
| "argument_type_value At_ResultName = 6"
| "argument_type_value At_Statement = 7"
| "argument_type_value At_Hint = 8"
| "argument_type_value At_SubroutineSignature = 9"
| "argument_type_value At_TupleSet = 10"
| "argument_type_value At_SelectedColumnIdx = 11"
| "argument_type_value At_IteratorColumnIdx = 12"

definition argumentTypeName_table :: "string list" where
  "argumentTypeName_table =
    ['''', ''Address'', ''Path'', ''Constant'', ''ColumnName'', ''TagName'', ''ResultName'',
     ''Statement'', ''SubroutineSignature'', ''TupleSet'', ''SelectedColumnIdx'',
     ''IteratorColumnIdx'']"

definition argumentTypeName :: "argument_type \<Rightarrow> string result" where
  "argumentTypeName i = array_read argumentTypeName_table (argument_type_value i)"

definition argumentType_table :: "argument_type list" where
  "argumentType_table =
    [At_None, At_None, At_Address, At_Constant, At_Path, At_None, At_SelectedColumnIdx,
     At_ColumnName, At_IteratorColumnIdx, At_ColumnName, At_None, At_TagName, At_None,
     At_TagName, At_None, At_None, At_None, At_None, At_ResultName, At_None, At_None,
     At_ResultName, At_None, At_ResultName, At_Path, At_TupleSet, At_None,
     At_SubroutineSignature, At_Constant, At_Path, At_None, At_SelectedColumnIdx,
     At_ColumnName, At_IteratorColumnIdx, At_ColumnName, At_None, At_None, At_None,
     At_Statement, At_Constant, At_Path, At_None, At_SelectedColumnIdx, At_ColumnName,
     At_IteratorColumnIdx, At_ColumnName, At_Hint, At_None, At_None, At_None, At_None, At_None]"

definition argumentType :: "opcode \<Rightarrow> argument_type result" where
  "argumentType i = array_read argumentType_table (opcode_value i)"

definition condCodeName :: "condcode \<Rightarrow> string result" where
  "condCodeName i = array_read ['''', ''IF_COND'', ''NOT_IF_COND''] (condcode_value i)"

section \<open>Building and taking apart instructions\<close>

definition BitCnt_OpCode :: nat where [wolframe_defs]: "BitCnt_OpCode = 6"
definition Shift_OpCode :: nat where [wolframe_defs]: "Shift_OpCode = 26"
definition BitCnt_CondCode :: nat where [wolframe_defs]: "BitCnt_CondCode = 2"
definition Shift_CondCode :: nat where [wolframe_defs]: "Shift_CondCode = 24"
definition BitCnt_ArgumentIndex :: nat where [wolframe_defs]: "BitCnt_ArgumentIndex = 20"
definition Shift_ArgumentIndex :: nat where [wolframe_defs]: "Shift_ArgumentIndex = 0"

definition Max_OpCode :: nat where [wolframe_defs]: "Max_OpCode = 2 ^ BitCnt_OpCode - 1"
definition Max_CondCode :: nat where [wolframe_defs]: "Max_CondCode = 2 ^ BitCnt_CondCode - 1"
definition Max_ArgumentIndex :: nat where [wolframe_defs]:
  "Max_ArgumentIndex = 2 ^ BitCnt_ArgumentIndex - 1"

definition Mask_OpCode :: "32 word" where
  "Mask_OpCode = push_bit Shift_OpCode (mask BitCnt_OpCode)"
definition Mask_CondCode :: "32 word" where
  "Mask_CondCode = push_bit Shift_CondCode (mask BitCnt_CondCode)"
definition Mask_ArgumentIndex :: "32 word" where
  "Mask_ArgumentIndex = push_bit Shift_ArgumentIndex (mask BitCnt_ArgumentIndex)"

definition instruction :: "condcode \<Rightarrow> opcode \<Rightarrow> 32 word \<Rightarrow> 32 word result" where
  "instruction cond opc arg =
    (if condcode_value cond > Max_CondCode
     then Inl (RuntimeError ''VM instruction condition code out of range'')
     else if opcode_value opc > Max_OpCode
     then Inl (RuntimeError ''VM instruction opcode out of range'')
     else if unat arg > Max_ArgumentIndex
     then Inl (RuntimeError ''VM instruction parameter reference out of range'')
     else Inr (push_bit Shift_CondCode (of_nat (condcode_value cond))
               OR push_bit Shift_OpCode (of_nat (opcode_value opc))
               OR push_bit Shift_ArgumentIndex arg))"

definition condCode :: "32 word \<Rightarrow> condcode" where
  "condCode instr = condcode_of_value (unat (drop_bit Shift_CondCode (instr AND Mask_CondCode)))"

definition opCode :: "32 word \<Rightarrow> opcode" where
  "opCode instr = opcode_of_value (unat (drop_bit Shift_OpCode (instr AND Mask_OpCode)))"

definition argumentIndex :: "32 word \<Rightarrow> nat" where
  "argumentIndex instr = unat (drop_bit Shift_ArgumentIndex (instr AND Mask_ArgumentIndex))"

lemmas instruction_layout =
  BitCnt_OpCode_def Shift_OpCode_def BitCnt_CondCode_def Shift_CondCode_def
  BitCnt_ArgumentIndex_def Shift_ArgumentIndex_def Max_OpCode_def Max_CondCode_def
  Max_ArgumentIndex_def Mask_OpCode_def Mask_CondCode_def Mask_ArgumentIndex_def

definition printed_argument :: "32 word \<Rightarrow> argument_type \<Rightarrow> string result" where
  "printed_argument instr at =
    (if at = At_None then Inr []
     else rbind (argumentTypeName at)
       (\<lambda>n. Inr (n @ '' '' @ print_unsigned (argumentIndex instr))))"

definition instructionstr :: "32 word \<Rightarrow> string result" where
  "instructionstr instr =
    (let cc = condCode instr; oc = opCode instr in
     rbind (argumentType oc) (\<lambda>at.
     rbind (condCodeName cc) (\<lambda>ccn.
     rbind (opCodeName oc) (\<lambda>ocn.
     rbind (printed_argument instr at) (\<lambda>arg.
       Inr (ccn @ '' '' @ ocn @ '' '' @ arg))))))"

fun printProgramRaw_from :: "nat \<Rightarrow> 32 word list \<Rightarrow> string result" where
  "printProgramRaw_from adr [] = Inr []"
| "printProgramRaw_from adr (instr # prg) =
    rbind (instructionstr instr) (\<lambda>line.
    rbind (printProgramRaw_from (Suc adr) prg) (\<lambda>rest.
      Inr (''['' @ print_unsigned adr @ ''] '' @ line @ [LF] @ rest)))"

definition printProgramRaw :: "32 word list \<Rightarrow> string result" where
  "printProgramRaw prg = printProgramRaw_from 0 prg"

section \<open>Program code\<close>

type_synonym program_code = "32 word list"

definition program_code_add :: "program_code \<Rightarrow> 32 word \<Rightarrow> program_code result" where
  "program_code_add code instr =
    (let ar = code @ [instr] in
     if length ar \<ge> Max_ArgumentIndex
     then Inl (RuntimeError ''program code size out of range'') else Inr ar)"

definition program_code_emit ::
  "condcode \<Rightarrow> opcode \<Rightarrow> nat \<Rightarrow> program_code \<Rightarrow> program_code result" where
  "program_code_emit cond opc arg code =
    rbind (instruction cond opc (of_nat arg)) (program_code_add code)"

definition program_code_append :: "program_code \<Rightarrow> program_code \<Rightarrow> program_code" where
  "program_code_append code prg = code @ prg"

definition program_code_set :: "program_code \<Rightarrow> nat \<Rightarrow> 32 word \<Rightarrow> program_code result" where
  "program_code_set code adr instr =
    (if adr \<ge> length code then Inl (RuntimeError ''address out of bounds'')
     else Inr (code[adr := instr]))"

definition program_code_get :: "program_code \<Rightarrow> nat \<Rightarrow> 32 word result" where
  "program_code_get code ip =
    (if ip \<ge> length code then instruction Co_ALWAYS Op_EXIT 0 else Inr (code ! ip))"

section \<open>Enumeration values\<close>

lemma length_opcodes [simp]: "length opcodes = 52"
  by (simp add: opcodes_def)

lemma opcode_of_value_value:
  "(\<And>n. opc = Op_unnamed n \<Longrightarrow> 52 \<le> n) \<Longrightarrow> opcode_of_value (opcode_value opc) = opc"
  by (cases opc) (simp_all add: opcode_of_value_def, simp_all add: opcodes_def)

lemma condcode_of_value_value [simp]: "condcode_of_value (condcode_value cc) = cc"
  by (cases cc) (simp_all add: condcode_of_value_def)

lemma condcode_value_less: "condcode_value cc < 4"
  by (cases cc) simp_all

section \<open>Bit fields\<close>

lemma word_field_bits:
  fixes w :: "32 word"
  assumes "unat w < 2 ^ k" and "bit w n"
  shows "n < k"
proof (rule ccontr)
  assume "\<not> n < k"
  then have "\<not> bit (take_bit k w) n" by (simp add: bit_take_bit_iff)
  moreover have "take_bit k w = w"
    using assms(1) by (simp add: word_unat_eq_iff unsigned_take_bit_eq take_bit_nat_eq_self)
  ultimately show False using assms(2) by simp
qed

lemma instruction_fields:
  fixes c opw a :: "32 word"
  assumes "unat c < 2 ^ 2" and "unat opw < 2 ^ 6" and "unat a < 2 ^ 20"
  defines "w \<equiv> push_bit 24 c OR push_bit 26 opw OR push_bit 0 a"
  shows "drop_bit 24 (w AND push_bit 24 (mask 2)) = c"
    and "drop_bit 26 (w AND push_bit 26 (mask 6)) = opw"
    and "drop_bit 0 (w AND push_bit 0 (mask 20)) = a"
proof -
  note bits = word_field_bits [OF assms(1)] word_field_bits [OF assms(2)]
    word_field_bits [OF assms(3)]
  show "drop_bit 24 (w AND push_bit 24 (mask 2)) = c"
    by (rule bit_eqI) (force simp: w_def bit_simps possible_bit_word dest: bits)
  show "drop_bit 26 (w AND push_bit 26 (mask 6)) = opw"
    by (rule bit_eqI) (force simp: w_def bit_simps possible_bit_word dest: bits)
  show "drop_bit 0 (w AND push_bit 0 (mask 20)) = a"
    by (rule bit_eqI) (force simp: w_def bit_simps possible_bit_word dest: bits)
qed

lemma unat_of_nat_32: "n < 2 ^ 32 \<Longrightarrow> unat (of_nat n :: 32 word) = n"
  by (simp add: unat_of_nat take_bit_nat_eq_self)

lemma opcode_value_named: "opc \<in> set opcodes \<Longrightarrow> opcode_value opc < 52"
  by (auto simp: opcodes_def)

lemma opcode_of_value_named: "opc \<in> set opcodes \<Longrightarrow> opcode_of_value (opcode_value opc) = opc"
  by (rule opcode_of_value_value) (auto simp: opcodes_def)

lemma instruction_decoded:
  assumes "opcode_value opc < 64" and "opcode_of_value (opcode_value opc) = opc"
    and "unat arg \<le> Max_ArgumentIndex"
  obtains w where "instruction cc opc arg = Inr w"
    and "condCode w = cc" and "opCode w = opc" and "argumentIndex w = unat arg"
proof -
  let ?c = "of_nat (condcode_value cc) :: 32 word"
  let ?o = "of_nat (opcode_value opc) :: 32 word"
  have c: "unat ?c = condcode_value cc"
    using condcode_value_less [of cc] by (intro unat_of_nat_32) simp
  have o': "unat ?o = opcode_value opc"
    using assms(1) by (intro unat_of_nat_32) simp
  have "unat ?c < 2 ^ 2" "unat ?o < 2 ^ 6" "unat arg < 2 ^ 20"
    using assms condcode_value_less [of cc] by (simp_all add: c o' instruction_layout)
  note fields = instruction_fields [OF this]
  show ?thesis
  proof (rule that)
    show "instruction cc opc arg = Inr (push_bit 24 ?c OR push_bit 26 ?o OR push_bit 0 arg)"
      using assms condcode_value_less [of cc]
      by (simp add: instruction_def instruction_layout)
  qed (simp_all only: condCode_def opCode_def argumentIndex_def instruction_layout fields
        c o' condcode_of_value_value assms(2))
qed

section \<open>Program code lemmas\<close>

lemma EXIT_instruction: "instruction Co_ALWAYS Op_EXIT 0 = Inr 0"
  by (simp add: instruction_def instruction_layout)

lemma EXIT_decoded [simp]: "condCode 0 = Co_ALWAYS" "opCode 0 = Op_EXIT"
  by (simp_all add: condCode_def opCode_def condcode_of_value_def opcode_of_value_def opcodes_def)

lemma program_code_get_Inr:
  "program_code_get code ip = Inr (if ip < length code then code ! ip else 0)"
  by (simp add: program_code_get_def EXIT_instruction)

lemma program_code_emit_Inr:
  assumes "program_code_emit cond opc arg code = Inr code'"
  shows "\<exists>w. instruction cond opc (of_nat arg) = Inr w \<and> code' = code @ [w]
    \<and> length code' < Max_ArgumentIndex"
  using assms by (auto simp: program_code_emit_def program_code_add_def rbind_eq_Inr_iff Let_def
      split: if_splits)

lemma program_code_set_Inr:
  "program_code_set code adr w = Inr code' \<longleftrightarrow> adr < length code \<and> code' = code[adr := w]"
  by (auto simp: program_code_set_def)

section \<open>Properties\<close>

text \<open>C40: an instruction built by \<^verbatim>\<open>InstructionSet::instruction\<close> from any condition code, any
  enumerated operation code and an argument of at most 20 bits is taken apart again by
  \<^verbatim>\<open>condCode\<close>, \<^verbatim>\<open>opCode\<close> and \<^verbatim>\<open>argumentIndex\<close> into exactly these parts; an argument
  that needs more than 20 bits is refused with an exception.\<close>
theorem instruction_roundtrip:
  assumes "opc \<in> set opcodes"
  shows "if unat arg \<le> Max_ArgumentIndex
    then \<exists>w. instruction cc opc arg = Inr w \<and> condCode w = cc \<and> opCode w = opc
      \<and> argumentIndex w = unat arg
    else instruction cc opc arg
      = Inl (RuntimeError ''VM instruction parameter reference out of range'')"
proof (cases "unat arg \<le> Max_ArgumentIndex")
  case True
  have "opcode_value opc < 64" using opcode_value_named [OF assms] by simp
  then show ?thesis
    using instruction_decoded [OF _ opcode_of_value_named [OF assms] True, of cc] True by metis
next
  case False
  then show ?thesis
    using opcode_value_named [OF assms] condcode_value_less [of cc]
    by (simp add: instruction_def Max_OpCode_def Max_CondCode_def BitCnt_OpCode_def
        BitCnt_CondCode_def)
qed

theorem instruction_roundtrip_witness:
  "Op_GOTO \<in> set opcodes \<and>
   (\<exists>w. instruction Co_IF_COND Op_GOTO 5 = Inr w \<and> condCode w = Co_IF_COND
      \<and> opCode w = Op_GOTO \<and> argumentIndex w = 5)"
proof -
  have h: "Op_GOTO \<in> set opcodes" by (simp add: opcodes_def)
  show ?thesis
    using h instruction_roundtrip [OF h, of 5 Co_IF_COND] by (simp add: instruction_layout)
qed

lemma argumentTypeName_misaligned:
  "argumentTypeName At_Hint = Inr ''SubroutineSignature''"
  "argumentTypeName At_SubroutineSignature = Inr ''TupleSet''"
  "argumentTypeName At_TupleSet = Inr ''SelectedColumnIdx''"
  "argumentTypeName At_SelectedColumnIdx = Inr ''IteratorColumnIdx''"
  "argumentTypeName At_IteratorColumnIdx = Inl (Undefined ''array bound read'')"
  by (simp_all add: argumentTypeName_def argumentTypeName_table_def array_read_def at_or_def)

lemma condCodeName_cases:
  "(\<exists>n. condCodeName cc = Inr n) \<or> condCodeName cc = Inl (Undefined ''array bound read'')"
  by (cases cc) (simp_all add: condCodeName_def array_read_def at_or_def)

text \<open>The table of argument type names lacks the entry of \<^verbatim>\<open>At_Hint\<close>, so every later type
  prints the name of its successor and the last one is read past the end of the array:
  printing any \<^verbatim>\<open>OUTPUT_ITR_IDX\<close>, \<^verbatim>\<open>SUB_ARG_ITR_IDX\<close> or \<^verbatim>\<open>DBSTM_BIND_ITR_IDX\<close>
  instruction with \<^verbatim>\<open>instructionstr\<close> is an undefined read.\<close>
theorem instructionstr_iterator_undefined:
  assumes "opCode w \<in> {Op_OUTPUT_ITR_IDX, Op_SUB_ARG_ITR_IDX, Op_DBSTM_BIND_ITR_IDX}"
  shows "instructionstr w = Inl (Undefined ''array bound read'')"
proof -
  have "argumentType (opCode w) = Inr At_IteratorColumnIdx"
    using assms by (auto simp: argumentType_def argumentType_table_def array_read_def)
  moreover obtain n where "opCodeName (opCode w) = Inr n"
    using assms by (auto simp: opCodeName_def opCodeName_table_def array_read_def)
  ultimately show ?thesis
    using condCodeName_cases [of "condCode w"]
    by (auto simp: instructionstr_def printed_argument_def argumentTypeName_misaligned)
qed

theorem instructionstr_iterator_undefined_witness:
  "opCode 0x20000001 = Op_OUTPUT_ITR_IDX
   \<and> instructionstr 0x20000001 = Inl (Undefined ''array bound read'')"
proof -
  have h: "opCode 0x20000001 = Op_OUTPUT_ITR_IDX"
    by (simp add: opCode_def instruction_layout opcode_of_value_def opcodes_def mask_numeral)
  show ?thesis
    using h instructionstr_iterator_undefined [of "0x20000001"] by simp
qed

end
