(* ===== verification/Value_Tuple_Set.thy ===== *)
theory Value_Tuple_Set
  imports Wolframe_Prelude
begin

text \<open>
  The data the transaction virtual machine works on: sets of value tuples
  (\<^verbatim>\<open>include/database/vm/valueTupleSet.hpp\<close>), the parameter frame of a subroutine call
  (\<^verbatim>\<open>include/database/vm/subroutineFrame.hpp\<close>) and the output with its sinks
  (\<^verbatim>\<open>include/database/vm/output.hpp\<close>). A tuple set keeps all its values in one flat array;
  the lemmas relate it to the list of its rows and show that the iterator visits these rows
  in order. The interface the virtual machine relies on is the locale \<open>row_container\<close>.
\<close>

section \<open>Tuple sets\<close>

record value_tuple_set =
  vts_colnames :: "string list"
  vts_ar :: "variant list"

definition vts_new :: "string list \<Rightarrow> value_tuple_set" where
  "vts_new colnames = \<lparr>vts_colnames = colnames, vts_ar = []\<rparr>"

definition vts_nofColumns :: "value_tuple_set \<Rightarrow> nat" where
  "vts_nofColumns s = length (vts_colnames s)"

definition vts_columnName :: "value_tuple_set \<Rightarrow> nat \<Rightarrow> string result" where
  "vts_columnName s i =
    (if i = 0 \<or> i > length (vts_colnames s)
     then Inl (RuntimeError ''column index out of range'')
     else Inr (vts_colnames s ! (i - 1)))"

text \<open>\<^verbatim>\<open>boost::algorithm::iequals\<close> in the \<^verbatim>\<open>C\<close> locale.\<close>

definition iequals :: "string \<Rightarrow> string \<Rightarrow> bool" where
  "iequals a b = (map to_upper a = map to_upper b)"

fun columnIndex_from :: "nat \<Rightarrow> string \<Rightarrow> string list \<Rightarrow> nat result" where
  "columnIndex_from ii name [] = Inl (RuntimeError ''unknown value set column name'')"
| "columnIndex_from ii name (c # cs) =
    (if iequals name c then Inr (ii + 1) else columnIndex_from (Suc ii) name cs)"

definition vts_columnIndex :: "value_tuple_set \<Rightarrow> string \<Rightarrow> nat result" where
  "vts_columnIndex s name = columnIndex_from 0 name (vts_colnames s)"

definition vts_push :: "variant list \<Rightarrow> value_tuple_set \<Rightarrow> value_tuple_set result" where
  "vts_push c s =
    (if length c \<noteq> length (vts_colnames s)
     then Inl (RuntimeError ''pushed result with non matching number of columns'')
     else Inr (s\<lparr>vts_ar := vts_ar s @ c\<rparr>))"

definition vts_size :: "value_tuple_set \<Rightarrow> nat result" where
  "vts_size s =
    (if vts_colnames s = [] then Inl (Undefined ''division by zero'')
     else Inr (length (vts_ar s) div length (vts_colnames s)))"

definition vts_empty :: "value_tuple_set \<Rightarrow> bool" where
  "vts_empty s = (vts_ar s = [])"

definition checkConstraintNonEmpty :: "value_tuple_set \<Rightarrow> unit result" where
  "checkConstraintNonEmpty s =
    rbind (vts_size s) (\<lambda>n.
      if n = 0 then Inl (RuntimeError ''constraint 'set non empty' failed'') else Inr ())"

definition checkConstraintUnique :: "value_tuple_set \<Rightarrow> unit result" where
  "checkConstraintUnique s =
    rbind (vts_size s) (\<lambda>n.
      if n > 1 then Inl (RuntimeError ''constraint 'set unique' failed'') else Inr ())"

definition vts_append :: "value_tuple_set \<Rightarrow> value_tuple_set \<Rightarrow> value_tuple_set result" where
  "vts_append s ts =
    (if length (vts_colnames ts) \<noteq> length (vts_colnames s)
     then Inl (RuntimeError ''joining incompatible lists'')
     else Inr (s\<lparr>vts_ar := vts_ar s @ vts_ar ts\<rparr>))"

text \<open>The iterator is the index of the first value of the current tuple in the flat array.\<close>

definition iter_begin :: "value_tuple_set \<Rightarrow> nat" where
  "iter_begin s = 0"

definition iter_end :: "value_tuple_set \<Rightarrow> nat" where
  "iter_end s = length (vts_ar s)"

definition iter_next :: "value_tuple_set \<Rightarrow> nat \<Rightarrow> nat" where
  "iter_next s idx = idx + length (vts_colnames s)"

definition iter_column :: "value_tuple_set \<Rightarrow> nat \<Rightarrow> nat \<Rightarrow> variant result" where
  "iter_column s idx i =
    (if i = 0 \<or> i > length (vts_colnames s) \<or> idx + i - 1 \<ge> length (vts_ar s)
     then Inl (RuntimeError ''value tuple set column index out of range'')
     else Inr (vts_ar s ! (idx + i - 1)))"

section \<open>Subroutine frames\<close>

record subroutine_frame =
  sf_paramnames :: "string list"
  sf_paramvalues :: "variant list"

definition sf_clear :: "subroutine_frame \<Rightarrow> subroutine_frame" where
  "sf_clear f = \<lparr>sf_paramnames = [], sf_paramvalues = []\<rparr>"

definition sf_init :: "string list \<Rightarrow> subroutine_frame \<Rightarrow> subroutine_frame" where
  "sf_init names f = (sf_clear f)\<lparr>sf_paramnames := names\<rparr>"

definition sf_push :: "variant \<Rightarrow> subroutine_frame \<Rightarrow> subroutine_frame result" where
  "sf_push v f =
    (if length (sf_paramvalues f) \<ge> length (sf_paramnames f)
     then Inl (RuntimeError ''too many parameters passed to subroutine'')
     else Inr (f\<lparr>sf_paramvalues := sf_paramvalues f @ [v]\<rparr>))"

definition sf_getParameters :: "subroutine_frame \<Rightarrow> value_tuple_set result" where
  "sf_getParameters f =
    (if length (sf_paramvalues f) < length (sf_paramnames f)
     then Inl (RuntimeError ''too few parameters passed to subroutine'')
     else vts_push (sf_paramvalues f) (vts_new (sf_paramnames f)))"

fun sf_push_all :: "variant list \<Rightarrow> subroutine_frame \<Rightarrow> subroutine_frame result" where
  "sf_push_all [] f = Inr f"
| "sf_push_all (v # vs) f = rbind (sf_push v f) (sf_push_all vs)"

section \<open>Output\<close>

datatype output_op =
    Out_Open | Out_OpenArray | Out_OpenArrayElement
  | Out_Close | Out_CloseArray | Out_CloseArrayElement | Out_Value

record output_element =
  oe_op :: output_op
  oe_arg :: variant

definition out_element :: "output_op \<Rightarrow> variant \<Rightarrow> output_element" where
  "out_element opr arg = \<lparr>oe_op = opr, oe_arg = arg\<rparr>"

definition out_element0 :: "output_op \<Rightarrow> output_element" where
  "out_element0 opr = out_element opr V_Null"

type_synonym vm_output = "output_element list list"

definition output_addOutputSink :: "vm_output \<Rightarrow> vm_output" where
  "output_addOutputSink ar = ar @ [[]]"

definition output_new :: vm_output where
  "output_new = output_addOutputSink []"

definition output_add :: "output_element \<Rightarrow> vm_output \<Rightarrow> vm_output result" where
  "output_add e ar =
    (if ar = [] then Inl (Undefined ''back() of an empty vector'')
     else Inr (butlast ar @ [last ar @ [e]]))"

definition output_addValue :: "variant \<Rightarrow> vm_output \<Rightarrow> vm_output result" where
  "output_addValue v ar = output_add (out_element Out_Value v) ar"

definition output_elements :: "vm_output \<Rightarrow> nat \<Rightarrow> output_element list result" where
  "output_elements ar i = at_or (RuntimeError ''array bound access'') ar i"

section \<open>Rows\<close>

fun chunks :: "nat \<Rightarrow> 'a list \<Rightarrow> 'a list list" where
  "chunks 0 xs = []"
| "chunks n [] = []"
| "chunks n xs = take n xs # chunks n (drop n xs)"

definition vts_rows :: "value_tuple_set \<Rightarrow> variant list list" where
  "vts_rows s = chunks (length (vts_colnames s)) (vts_ar s)"

definition vts_wf :: "value_tuple_set \<Rightarrow> bool" where
  "vts_wf s = (if vts_colnames s = [] then vts_ar s = []
     else length (vts_ar s) mod length (vts_colnames s) = 0)"

lemma chunks_Nil [simp]: "chunks n [] = []"
  by (cases n) simp_all

lemma chunks_unfold: "0 < n \<Longrightarrow> xs \<noteq> [] \<Longrightarrow> chunks n xs = take n xs # chunks n (drop n xs)"
  by (cases n; cases xs) simp_all

declare chunks.simps [simp del]

lemma chunks_zero [simp]: "chunks 0 xs = []"
  by (rule chunks.simps(1))

lemma chunks_induct [consumes 1, case_names Nil step]:
  assumes "length xs mod n = 0"
    and "P []"
    and "\<And>xs ys. length xs = n \<Longrightarrow> 0 < n \<Longrightarrow> length ys mod n = 0 \<Longrightarrow> P ys \<Longrightarrow> P (xs @ ys)"
    and "0 < n"
  shows "P xs"
  using assms(1)
proof (induction xs rule: length_induct)
  case (1 xs)
  show ?case
  proof (cases "xs = []")
    case True
    with assms(2) show ?thesis by simp
  next
    case False
    then have n: "n \<le> length xs"
      using 1(2) assms(4) by (metis length_0_conv mod_less not_le)
    then have "length (drop n xs) mod n = 0"
      using 1(2) by (simp add: le_mod_geq)
    moreover from this have "P (drop n xs)"
      using 1(1) n assms(4) False by simp
    ultimately have "P (take n xs @ drop n xs)"
      using n assms(4) by (intro assms(3)) simp_all
    then show ?thesis by simp
  qed
qed

lemma chunks_block [simp]:
  "0 < n \<Longrightarrow> length xs = n \<Longrightarrow> chunks n (xs @ ys) = xs # chunks n ys"
  by (subst chunks_unfold) auto

lemma chunks_append:
  "0 < n \<Longrightarrow> length xs mod n = 0 \<Longrightarrow> chunks n (xs @ ys) = chunks n xs @ chunks n ys"
  by (erule chunks_induct [of xs n]) simp_all

lemma length_chunks: "0 < n \<Longrightarrow> length xs mod n = 0 \<Longrightarrow> length (chunks n xs) = length xs div n"
  by (erule chunks_induct [of xs n]) (simp_all add: div_add_self1)

lemma concat_chunks: "0 < n \<Longrightarrow> length xs mod n = 0 \<Longrightarrow> concat (chunks n xs) = xs"
  by (erule chunks_induct [of xs n]) simp_all

lemma nth_chunks:
  assumes "0 < n" and "length xs mod n = 0" and "k < length xs div n" and "i < n"
  shows "chunks n xs ! k ! i = xs ! (k * n + i)"
  using assms(2,3)
proof (induction arbitrary: k rule: chunks_induct)
  case (step xs ys)
  then show ?case using assms(4) by (cases k) (simp_all add: nth_append div_add_self1)
qed (use assms in simp_all)

lemma chunks_row_length:
  "0 < n \<Longrightarrow> length xs mod n = 0 \<Longrightarrow> \<forall>r \<in> set (chunks n xs). length r = n"
  by (erule chunks_induct [of xs n]) auto

section \<open>The interface: rows reached by a cursor\<close>

text \<open>
  What a client of a tuple set relies on: the set is a list of rows of equal width, a cursor
  position belongs to each row and to the end, advancing goes from one to the next and reading
  a column at a row's position gives that row's value.
\<close>

locale row_container =
  fixes rows :: "'s \<Rightarrow> 'v list list"
    and ncols :: "'s \<Rightarrow> nat"
    and wf :: "'s \<Rightarrow> bool"
    and first :: "'s \<Rightarrow> 'p"
    and past :: "'s \<Rightarrow> 'p"
    and advance :: "'s \<Rightarrow> 'p \<Rightarrow> 'p"
    and col :: "'s \<Rightarrow> 'p \<Rightarrow> nat \<Rightarrow> 'v result"
    and pos :: "'s \<Rightarrow> nat \<Rightarrow> 'p"
  assumes first_pos: "wf s \<Longrightarrow> first s = pos s 0"
    and past_pos: "wf s \<Longrightarrow> past s = pos s (length (rows s))"
    and advance_pos: "wf s \<Longrightarrow> advance s (pos s k) = pos s (Suc k)"
    and pos_inject: "wf s \<Longrightarrow> rows s \<noteq> [] \<Longrightarrow> pos s j = pos s k \<longleftrightarrow> j = k"
    and col_pos: "wf s \<Longrightarrow> k < length (rows s) \<Longrightarrow> 1 \<le> i \<Longrightarrow> i \<le> ncols s \<Longrightarrow>
      col s (pos s k) i = Inr (rows s ! k ! (i - 1))"
    and row_length: "wf s \<Longrightarrow> r \<in> set (rows s) \<Longrightarrow> length r = ncols s"
begin

lemma first_is_past: "wf s \<Longrightarrow> first s = past s \<longleftrightarrow> rows s = []"
  by (cases "rows s = []") (auto simp: first_pos past_pos pos_inject)

lemma row_not_past: "wf s \<Longrightarrow> k < length (rows s) \<Longrightarrow> pos s k \<noteq> past s"
  by (cases "rows s = []") (auto simp: past_pos pos_inject)

lemma advance_is_past:
  "wf s \<Longrightarrow> k < length (rows s) \<Longrightarrow> advance s (pos s k) = past s \<longleftrightarrow> Suc k = length (rows s)"
  by (cases "rows s = []") (auto simp: past_pos advance_pos pos_inject)

lemma read_row:
  assumes "wf s" and "k < length (rows s)"
  shows "map (col s (pos s k)) [1..<Suc (ncols s)] = map Inr (rows s ! k)"
proof (rule nth_equalityI)
  have len: "length (rows s ! k) = ncols s"
    using assms by (simp add: row_length)
  then show "length (map (col s (pos s k)) [1..<Suc (ncols s)]) = length (map Inr (rows s ! k))"
    by simp
  fix i assume "i < length (map (col s (pos s k)) [1..<Suc (ncols s)])"
  then show "map (col s (pos s k)) [1..<Suc (ncols s)] ! i = map Inr (rows s ! k) ! i"
    using assms len by (simp del: upt_Suc add: col_pos)
qed

end

definition vts_pos :: "value_tuple_set \<Rightarrow> nat \<Rightarrow> nat" where
  "vts_pos s k = k * length (vts_colnames s)"

lemma vts_rows_zero [simp]: "vts_colnames s = [] \<Longrightarrow> vts_rows s = []"
  by (simp add: vts_rows_def)

lemma length_vts_rows:
  "vts_wf s \<Longrightarrow> length (vts_rows s) * length (vts_colnames s) = length (vts_ar s)"
  by (cases "vts_colnames s = []")
     (auto simp: vts_wf_def vts_rows_def length_chunks)

lemma vts_row_value:
  assumes "vts_wf s" and "k < length (vts_rows s)" and "i < length (vts_colnames s)"
  shows "vts_rows s ! k ! i = vts_ar s ! (k * length (vts_colnames s) + i)"
    and "k * length (vts_colnames s) + i < length (vts_ar s)"
proof -
  let ?n = "length (vts_colnames s)"
  have n: "0 < ?n" "length (vts_ar s) mod ?n = 0"
    using assms by (auto simp: vts_wf_def split: if_splits)
  then have k: "k < length (vts_ar s) div ?n"
    using assms(2) by (simp add: vts_rows_def length_chunks)
  then show "vts_rows s ! k ! i = vts_ar s ! (k * ?n + i)"
    using n assms(3) by (simp add: vts_rows_def nth_chunks)
  have "k * ?n + i < Suc k * ?n" using assms(3) by simp
  also have "\<dots> \<le> (length (vts_ar s) div ?n) * ?n"
    using k by (intro mult_right_mono) simp_all
  also have "\<dots> \<le> length (vts_ar s)" by simp
  finally show "k * ?n + i < length (vts_ar s)" .
qed

lemma vts_row_length:
  assumes "vts_wf s" and "r \<in> set (vts_rows s)"
  shows "length r = length (vts_colnames s)"
proof (cases "vts_colnames s = []")
  case False
  then have "\<forall>r \<in> set (vts_rows s). length r = length (vts_colnames s)"
    unfolding vts_rows_def using assms(1) by (intro chunks_row_length) (simp_all add: vts_wf_def)
  with assms(2) show ?thesis by blast
qed (use assms in simp)

interpretation vts: row_container vts_rows vts_nofColumns vts_wf iter_begin iter_end iter_next
  iter_column vts_pos
proof unfold_locales
  fix s :: value_tuple_set and j k i :: nat and r
  assume wf: "vts_wf s"
  show "iter_begin s = vts_pos s 0"
    by (simp add: iter_begin_def vts_pos_def)
  show "iter_end s = vts_pos s (length (vts_rows s))"
    by (simp add: iter_end_def vts_pos_def length_vts_rows [OF wf])
  show "iter_next s (vts_pos s k) = vts_pos s (Suc k)"
    by (simp add: iter_next_def vts_pos_def)
  show "vts_pos s j = vts_pos s k \<longleftrightarrow> j = k" if "vts_rows s \<noteq> []"
    using that by (cases "vts_colnames s = []") (auto simp: vts_pos_def)
  show "length r = vts_nofColumns s" if "r \<in> set (vts_rows s)"
    using vts_row_length [OF wf that] by (simp add: vts_nofColumns_def)
  show "iter_column s (vts_pos s k) i = Inr (vts_rows s ! k ! (i - 1))"
    if "k < length (vts_rows s)" "1 \<le> i" "i \<le> vts_nofColumns s"
  proof -
    have "i - 1 < length (vts_colnames s)" using that by (simp add: vts_nofColumns_def)
    with that show ?thesis
      using vts_row_value [OF wf that(1), of "i - 1"]
      by (simp add: iter_column_def vts_pos_def vts_nofColumns_def)
  qed
qed

lemma vts_size_rows:
  "vts_wf s \<Longrightarrow> vts_colnames s \<noteq> [] \<Longrightarrow> vts_size s = Inr (length (vts_rows s))"
  by (simp add: vts_size_def vts_rows_def length_chunks vts_wf_def)

lemma vts_new_rows [simp]: "vts_rows (vts_new cs) = []" "vts_wf (vts_new cs)"
  by (simp_all add: vts_rows_def vts_new_def vts_wf_def)

section \<open>Properties\<close>

text \<open>Pushing a tuple of the right width on a well-formed tuple set appends exactly this
  tuple as its last row and keeps the set well-formed; appending a set of the same width
  appends its rows in order; a tuple or a set of another width is refused.\<close>
theorem vts_push_append_rows:
  assumes "vts_wf s" and "vts_wf t" and "vts_colnames s \<noteq> []"
  shows "(case vts_push c s of
      Inr s' \<Rightarrow> length c = vts_nofColumns s \<and> vts_wf s' \<and> vts_rows s' = vts_rows s @ [c]
        \<and> vts_size s' = Inr (Suc (length (vts_rows s)))
    | Inl e \<Rightarrow> length c \<noteq> vts_nofColumns s) \<and>
    (case vts_append s t of
      Inr s' \<Rightarrow> vts_nofColumns t = vts_nofColumns s \<and> vts_wf s'
        \<and> vts_rows s' = vts_rows s @ vts_rows t
    | Inl e \<Rightarrow> vts_nofColumns t \<noteq> vts_nofColumns s)"
proof -
  let ?n = "length (vts_colnames s)"
  have n: "0 < ?n" and m: "length (vts_ar s) mod ?n = 0"
    using assms by (simp_all add: vts_wf_def)
  have wf: "vts_wf (s\<lparr>vts_ar := vts_ar s @ xs\<rparr>)" if "length xs mod ?n = 0" for xs
    using assms(1,3) that by (simp add: vts_wf_def mod_eq_0_iff_dvd)
  have rows: "vts_rows (s\<lparr>vts_ar := vts_ar s @ xs\<rparr>) = vts_rows s @ chunks ?n xs" for xs
    using n m by (simp add: vts_rows_def chunks_append)
  have one: "chunks ?n c = [c]" if "length c = ?n"
    using chunks_block [OF n that, of "[]"] by simp
  have t: "length (vts_ar t) mod ?n = 0" if "length (vts_colnames t) = ?n"
    using assms(2) that n by (auto simp: vts_wf_def split: if_splits)
  show ?thesis
    using wf rows one t n vts_size_rows [OF wf [of c]]
    by (auto simp: vts_push_def vts_append_def vts_nofColumns_def vts_rows_def)
qed

theorem vts_push_append_rows_witness:
  "vts_wf \<lparr>vts_colnames = [''id''], vts_ar = [V_Bool True]\<rparr> \<and>
   vts_push [V_Null] \<lparr>vts_colnames = [''id''], vts_ar = [V_Bool True]\<rparr>
     = Inr \<lparr>vts_colnames = [''id''], vts_ar = [V_Bool True, V_Null]\<rparr> \<and>
   vts_rows \<lparr>vts_colnames = [''id''], vts_ar = [V_Bool True, V_Null]\<rparr> = [[V_Bool True], [V_Null]]"
  using vts_push_append_rows [of "\<lparr>vts_colnames = [''id''], vts_ar = [V_Bool True]\<rparr>"
      "\<lparr>vts_colnames = [''id''], vts_ar = []\<rparr>" "[V_Null]"]
  by (simp add: vts_wf_def vts_push_def vts_append_def vts_nofColumns_def vts_rows_def chunks_unfold)

lemma columnIndex_from_spec:
  "columnIndex_from k name cs =
    (case List.find (\<lambda>i. iequals name (cs ! i)) [0..<length cs] of
       Some i \<Rightarrow> Inr (k + i + 1)
     | None \<Rightarrow> Inl (RuntimeError ''unknown value set column name''))"
proof (induction cs arbitrary: k)
  case (Cons c cs)
  have "[0..<length (c # cs)] = 0 # map Suc [0..<length cs]"
    by (simp add: map_Suc_upt upt_conv_Cons del: upt_Suc)
  moreover have "List.find (\<lambda>i. iequals name ((c # cs) ! i)) (map Suc xs)
      = map_option Suc (List.find (\<lambda>i. iequals name (cs ! i)) xs)" for xs
    by (induction xs) auto
  ultimately show ?case
    using Cons by (auto split: option.splits simp del: upt_Suc)
qed simp

text \<open>A column addressed by name is found case insensitively at the first matching column,
  counted from 1, and an exception says that there is none otherwise.\<close>
theorem vts_columnIndex_first_match:
  "(case vts_columnIndex s name of
      Inr i \<Rightarrow> 1 \<le> i \<and> i \<le> vts_nofColumns s
        \<and> (\<exists>c. vts_columnName s i = Inr c \<and> iequals name c)
        \<and> {j. j < i - 1 \<and> iequals name (vts_colnames s ! j)} = {}
    | Inl e \<Rightarrow> e = RuntimeError ''unknown value set column name''
        \<and> {c \<in> set (vts_colnames s). iequals name c} = {})"
  by (auto simp: vts_columnIndex_def columnIndex_from_spec vts_nofColumns_def vts_columnName_def
      find_Some_iff find_None_iff in_set_conv_nth split: option.splits)

lemma sf_push_all_spec:
  "sf_push_all vs f =
    (if length (sf_paramvalues f) + length vs \<le> length (sf_paramnames f) \<or> vs = []
     then Inr (f\<lparr>sf_paramvalues := sf_paramvalues f @ vs\<rparr>)
     else Inl (RuntimeError ''too many parameters passed to subroutine''))"
  by (induction vs arbitrary: f) (auto simp: sf_push_def)

text \<open>A subroutine call passes its arguments by position: initialising the frame with the
  parameter names of a signature, pushing the argument values and taking the parameters gives
  the one-row tuple set of the names and exactly these values when their number fits, and an
  exception about too many or too few parameters otherwise.\<close>
theorem subroutine_frame_parameters:
  "rbind (sf_push_all vs (sf_init names f)) sf_getParameters =
    (if length vs > length names
     then Inl (RuntimeError ''too many parameters passed to subroutine'')
     else if length vs < length names
     then Inl (RuntimeError ''too few parameters passed to subroutine'')
     else Inr \<lparr>vts_colnames = names, vts_ar = vs\<rparr>)"
  by (auto simp: sf_push_all_spec sf_init_def sf_clear_def sf_getParameters_def vts_push_def
      vts_new_def)

end
