(* ===== verification/Program_Instance.thy ===== *)
theory Program_Instance
  imports Instruction_Set Value_Tuple_Set
begin

text \<open>
  The transaction virtual machine, \<^verbatim>\<open>src/libwolframe_database/vm/programInstance.cpp\<close> with
  \<^verbatim>\<open>include/database/vm/programInstance.hpp\<close> and \<^verbatim>\<open>programImage.hpp\<close>: its state, the
  functions that fetch instruction arguments, and the instruction loop \<^verbatim>\<open>execute\<close>, one
  definition per group of cases of its switch.

  Shared pointers to tuple sets (\<^verbatim>\<open>ValueTupleSetR\<close>) are addresses of the store \<open>m_heap\<close>, \<open>None\<close>
  being the null pointer, because results are appended in place while other frames and kept
  results hold the same pointer. The execution stack has its top at the head of the list.
  Instruction addresses and argument indices are natural numbers: \<open>ip_bound\<close> shows that they
  stay far below the 32 bits of the code. The database is a parameter, the record \<open>exec_ops\<close>
  of the operations of \<^verbatim>\<open>TransactionExecStatemachine\<close>; its state is threaded through. The
  trace callback has no effect on the state and is left out.
\<close>

section \<open>State\<close>

type_synonym vts_ref = "nat option"

record error_hint =
  eh_errorclass :: string
  eh_message :: string

record program_image =
  code :: program_code
  constants :: "variant list"
  colnames :: "string list"
  tagnames :: "string list"
  resultnames :: "string list"
  statements :: "string list"
  errorhints :: "error_hint list list"
  signatures :: "string list list"
  tuplesets :: "vts_ref list"

record database_error =
  de_dbname :: string
  de_errorclass :: string
  de_errorcode :: nat
  de_errormsg :: string
  de_errordetail :: string
  de_errorhint :: string
  de_ip :: nat

definition database_error0 :: database_error where
  "database_error0 = \<lparr>de_dbname = [], de_errorclass = [], de_errorcode = 0, de_errormsg = [],
     de_errordetail = [], de_errorhint = [], de_ip = 0\<rparr>"

definition databaseError :: "string \<Rightarrow> nat \<Rightarrow> string \<Rightarrow> database_error" where
  "databaseError ec cod msg =
    database_error0\<lparr>de_errorclass := ec, de_errorcode := cod, de_errormsg := msg\<rparr>"

record result_flags =
  is_first :: bool
  unique :: bool
  nonempty :: bool

definition result_flags_init :: "bool \<Rightarrow> bool \<Rightarrow> result_flags" where
  "result_flags_init u n = \<lparr>is_first = True, unique = u, nonempty = n\<rparr>"

text \<open>\<open>it_ref = None\<close> is the static empty set of a default constructed iterator.\<close>

record vts_iter =
  it_idx :: nat
  it_ref :: "nat option"

record stack_element =
  m_return_ip :: nat
  m_bindidx :: nat
  m_hintidx :: nat
  m_parameter :: vts_ref
  m_lastResult :: vts_ref
  m_resultFlags :: result_flags
  m_resultMap :: "nat \<rightharpoonup> vts_ref"
  m_selectedSet :: vts_ref
  m_valueSet :: vts_ref
  m_valueIter :: vts_iter
  m_valueEnd :: vts_iter

definition stack_element_new :: "nat \<Rightarrow> vts_ref \<Rightarrow> stack_element" where
  "stack_element_new return_ip parameter =
    \<lparr>m_return_ip = return_ip, m_bindidx = 0, m_hintidx = 0, m_parameter = parameter,
     m_lastResult = None, m_resultFlags = result_flags_init False False,
     m_resultMap = Map.empty, m_selectedSet = None, m_valueSet = None,
     m_valueIter = \<lparr>it_idx = 0, it_ref = None\<rparr>, m_valueEnd = \<lparr>it_idx = 0, it_ref = None\<rparr>\<rparr>"

record 'db program_instance =
  m_program :: program_image
  m_db_stm :: "'db option"
  m_ip :: nat
  m_subroutine_frame :: subroutine_frame
  m_cond :: bool
  m_stack :: "stack_element list"
  m_output :: vm_output
  m_lastError :: database_error
  m_heap :: "value_tuple_set list"

text \<open>
  The database operations the machine calls. Each returns its value or exception and the new
  state of the database; \<^verbatim>\<open>databaseID\<close> is a \<^verbatim>\<open>const\<close> method.
\<close>

record 'db exec_ops =
  db_databaseID :: "'db \<Rightarrow> string"
  db_start :: "string \<Rightarrow> 'db \<Rightarrow> bool result \<times> 'db"
  db_bind :: "nat \<Rightarrow> variant \<Rightarrow> 'db \<Rightarrow> bool result \<times> 'db"
  db_execute :: "'db \<Rightarrow> bool result \<times> 'db"
  db_nofColumns :: "'db \<Rightarrow> nat result \<times> 'db"
  db_columnName :: "nat \<Rightarrow> 'db \<Rightarrow> string option result \<times> 'db"
  db_get :: "nat \<Rightarrow> 'db \<Rightarrow> variant result \<times> 'db"
  db_next :: "'db \<Rightarrow> bool result \<times> 'db"
  db_hasResult :: "'db \<Rightarrow> bool result \<times> 'db"
  db_getLastError :: "'db \<Rightarrow> database_error option result \<times> 'db"

text \<open>
  One turn of the loop continues with a new state, returns from \<^verbatim>\<open>execute\<close> or leaves it by an
  exception. The state of an exception is the one the caller can still read
  (\<^verbatim>\<open>instance.ip()\<close> and the database).
\<close>

datatype 'db vm_result =
    Next "'db program_instance"
  | Done bool "'db program_instance"
  | Raise cpp_error "'db program_instance"

definition vm_get :: "'a result \<Rightarrow> 'db program_instance \<Rightarrow> ('a \<Rightarrow> 'db vm_result) \<Rightarrow> 'db vm_result" where
  "vm_get r p k = (case r of Inl e \<Rightarrow> Raise e p | Inr x \<Rightarrow> k x)"

definition vm_bind :: "'db vm_result \<Rightarrow> ('db program_instance \<Rightarrow> 'db vm_result) \<Rightarrow> 'db vm_result" where
  "vm_bind r k = (case r of Next p \<Rightarrow> k p | Done b p \<Rightarrow> Done b p | Raise e p \<Rightarrow> Raise e p)"

definition vm_db ::
  "('db \<Rightarrow> 'a result \<times> 'db) \<Rightarrow> 'db program_instance \<Rightarrow>
   ('a \<Rightarrow> 'db program_instance \<Rightarrow> 'db vm_result) \<Rightarrow> 'db vm_result" where
  "vm_db f p k =
    (case m_db_stm p of
       None \<Rightarrow> Raise (Undefined ''null pointer'') p
     | Some db \<Rightarrow> (case f db of (r, db') \<Rightarrow>
         let p' = p\<lparr>m_db_stm := Some db'\<rparr> in vm_get r p' (\<lambda>x. k x p')))"

definition vm_top :: "'db program_instance \<Rightarrow> stack_element result" where
  "vm_top p =
    (case m_stack p of [] \<Rightarrow> Inl (Undefined ''back() of an empty stack'') | t # _ \<Rightarrow> Inr t)"

definition set_top :: "stack_element \<Rightarrow> 'db program_instance \<Rightarrow> 'db program_instance" where
  "set_top t p = p\<lparr>m_stack := t # tl (m_stack p)\<rparr>"

definition next_ip :: "'db program_instance \<Rightarrow> 'db program_instance" where
  "next_ip p = p\<lparr>m_ip := m_ip p + 1\<rparr>"

definition vm_deref :: "'db program_instance \<Rightarrow> vts_ref \<Rightarrow> value_tuple_set result" where
  "vm_deref p r =
    (case r of None \<Rightarrow> Inl (Undefined ''null pointer'')
     | Some a \<Rightarrow> at_or (Undefined ''dangling pointer'') (m_heap p) a)"

definition iter_target :: "'db program_instance \<Rightarrow> vts_iter \<Rightarrow> value_tuple_set result" where
  "iter_target p it =
    (case it_ref it of None \<Rightarrow> Inr (vts_new []) | Some a \<Rightarrow> vm_deref p (Some a))"

section \<open>Arguments of instructions\<close>

definition keptResult :: "nat \<Rightarrow> 'db program_instance \<Rightarrow> vts_ref result" where
  "keptResult idx p =
    rbind (vm_top p) (\<lambda>frm. case m_resultMap frm idx of
       None \<Rightarrow> Inl (RuntimeError ''referencing named result not defined'')
     | Some r \<Rightarrow> Inr r)"

definition tupleSet :: "nat \<Rightarrow> 'db program_instance \<Rightarrow> vts_ref result" where
  "tupleSet argidx p =
    at_or (RuntimeError ''tuple set reference out of bounds'') (tuplesets (m_program p)) argidx"

definition constArgument :: "nat \<Rightarrow> 'db program_instance \<Rightarrow> variant result" where
  "constArgument argidx p =
    at_or (RuntimeError ''constant index out of bounds'') (constants (m_program p)) argidx"

definition statementArgument :: "nat \<Rightarrow> 'db program_instance \<Rightarrow> string result" where
  "statementArgument argidx p =
    at_or (RuntimeError ''string index out of bounds'') (statements (m_program p)) argidx"

definition tagnameArgument :: "nat \<Rightarrow> 'db program_instance \<Rightarrow> string result" where
  "tagnameArgument argidx p =
    (if argidx > length (tagnames (m_program p))
     then Inl (RuntimeError ''tag name index out of bounds'')
     else if argidx = 0 then Inl (RuntimeError ''tag name index referencing NULL'')
     else Inr (tagnames (m_program p) ! (argidx - 1)))"

definition columnIndex :: "vts_ref \<Rightarrow> nat \<Rightarrow> 'db program_instance \<Rightarrow> nat result" where
  "columnIndex valueset argidx p =
    (if valueset = None
     then Inl (RuntimeError ''illegal instruction: no value set selected for name access'')
     else if argidx = 0 then Inl (RuntimeError ''referencing column index NULL'')
     else if argidx > length (colnames (m_program p))
     then Inl (RuntimeError ''referencing column index out of bounds'')
     else rbind (vm_deref p valueset)
       (\<lambda>s. vts_columnIndex s (colnames (m_program p) ! (argidx - 1))))"

definition selectedArgument :: "nat \<Rightarrow> 'db program_instance \<Rightarrow> variant result" where
  "selectedArgument argidx p =
    rbind (vm_top p) (\<lambda>frm. rbind (vm_deref p (m_selectedSet frm)) (\<lambda>s.
      if vts_empty s then Inr V_Null else iter_column s (iter_begin s) argidx))"

definition iteratorArgument :: "nat \<Rightarrow> 'db program_instance \<Rightarrow> variant result" where
  "iteratorArgument argidx p =
    rbind (vm_top p) (\<lambda>frm.
      if m_valueIter frm = m_valueEnd frm
      then Inl (RuntimeError ''iterator element access out of bounds'')
      else rbind (iter_target p (m_valueIter frm))
        (\<lambda>s. iter_column s (it_idx (m_valueIter frm)) argidx))"

definition loopcntArgument :: "'db program_instance \<Rightarrow> variant result" where
  "loopcntArgument p =
    rbind (vm_top p) (\<lambda>frm.
      if m_valueSet frm = None
      then Inl (RuntimeError ''referencing loop count (Variable '#') outside a FOREACH context'')
      else Inr (V_UInt (of_nat (it_idx (m_valueIter frm) + 1))))"

section \<open>Iterators, output and results\<close>

definition initValueIteraror :: "vts_ref \<Rightarrow> 'db program_instance \<Rightarrow> 'db vm_result" where
  "initValueIteraror valueset p =
    vm_get (vm_top p) p (\<lambda>frm.
      case valueset of
        None \<Rightarrow> Raise (RuntimeError ''opening iterator on undefined set'') p
      | Some a \<Rightarrow> vm_get (vm_deref p valueset) p (\<lambda>s.
          let bg = \<lparr>it_idx = iter_begin s, it_ref = Some a\<rparr>;
              ed = \<lparr>it_idx = iter_end s, it_ref = Some a\<rparr>
          in Next ((set_top (frm\<lparr>m_valueSet := valueset, m_valueIter := bg, m_valueEnd := ed\<rparr>) p)
                \<lparr>m_cond := (bg \<noteq> ed)\<rparr>)))"

definition vm_output_add :: "output_element \<Rightarrow> 'db program_instance \<Rightarrow> 'db vm_result" where
  "vm_output_add e p =
    vm_get (output_add e (m_output p)) p (\<lambda>out. Next (p\<lparr>m_output := out\<rparr>))"

definition vm_addValue :: "variant result \<Rightarrow> 'db program_instance \<Rightarrow> 'db vm_result" where
  "vm_addValue r p = vm_get r p (\<lambda>v. vm_output_add (out_element Out_Value v) p)"

text \<open>The loop over the columns from \<open>idx\<close> to the number of columns.\<close>

fun printColumns :: "stack_element \<Rightarrow> nat list \<Rightarrow> 'db program_instance \<Rightarrow> 'db vm_result" where
  "printColumns frm [] p = Next p"
| "printColumns frm (idx # idxs) p =
    vm_get (rbind (vm_deref p (m_valueSet frm)) (\<lambda>s. vts_columnName s idx)) p (\<lambda>name.
    vm_bind (vm_output_add (out_element Out_Open (V_String name)) p) (\<lambda>p.
    vm_get (rbind (iter_target p (m_valueIter frm))
             (\<lambda>s. iter_column s (it_idx (m_valueIter frm)) idx)) p (\<lambda>v.
    vm_bind (vm_output_add (out_element Out_Value v) p) (\<lambda>p.
    vm_bind (vm_output_add (out_element0 Out_Close) p) (\<lambda>p.
      printColumns frm idxs p)))))"

definition printIteratorColumn :: "'db program_instance \<Rightarrow> 'db vm_result" where
  "printIteratorColumn p =
    vm_get (vm_top p) p (\<lambda>frm.
      let cond = (m_valueIter frm \<noteq> m_valueEnd frm); p = p\<lparr>m_cond := cond\<rparr> in
      if cond then vm_get (vm_deref p (m_valueSet frm)) p
        (\<lambda>s. printColumns frm [1..<Suc (vts_nofColumns s)] p)
      else Next p)"

definition checkConstraint ::
  "bool \<Rightarrow> string \<Rightarrow> (value_tuple_set \<Rightarrow> unit result) \<Rightarrow> vts_ref \<Rightarrow> 'db program_instance \<Rightarrow> unit result" where
  "checkConstraint flag msg chk r p =
    (if flag then (case r of None \<Rightarrow> Inl (RuntimeError msg) | Some a \<Rightarrow> rbind (vm_deref p r) chk)
     else Inr ())"

definition initResult :: "vts_ref \<Rightarrow> 'db program_instance \<Rightarrow> 'db vm_result" where
  "initResult resultset p =
    vm_get (vm_top p) p (\<lambda>frm.
    vm_get (checkConstraint (unique (m_resultFlags frm))
      ''checking UNIQUE constraint on non existing result'' checkConstraintUnique resultset p) p (\<lambda>_.
    vm_get (checkConstraint (nonempty (m_resultFlags frm))
      ''checking NONEMPTY constraint on non existing result'' checkConstraintNonEmpty resultset p) p (\<lambda>_.
      if resultset = None then Next p
      else let frm' = frm\<lparr>m_resultFlags := (m_resultFlags frm)\<lparr>is_first := False\<rparr>\<rparr> in
        if is_first (m_resultFlags frm)
        then Next (set_top (frm'\<lparr>m_lastResult := resultset\<rparr>) p)
        else vm_get (vm_deref p (m_lastResult frm)) p (\<lambda>dest.
             vm_get (vm_deref p resultset) p (\<lambda>src.
             if m_lastResult frm = resultset
             then Raise (Undefined ''insert of a vector into itself'') p
             else vm_get (vts_append dest src) p (\<lambda>joined.
               Next ((set_top frm' p)\<lparr>m_heap := (m_heap p)[the (m_lastResult frm) := joined]\<rparr>)))))))"

section \<open>Database results and errors\<close>

fun db_map :: "(nat \<Rightarrow> 'db \<Rightarrow> 'a result \<times> 'db) \<Rightarrow> nat list \<Rightarrow> 'db \<Rightarrow> 'a list result \<times> 'db" where
  "db_map f [] db = (Inr [], db)"
| "db_map f (i # is) db =
    (case f i db of
       (Inl e, db') \<Rightarrow> (Inl e, db')
     | (Inr x, db') \<Rightarrow> (case db_map f is db' of
         (Inl e, db'') \<Rightarrow> (Inl e, db'') | (Inr xs, db'') \<Rightarrow> (Inr (x # xs), db'')))"

text \<open>The \<^verbatim>\<open>do ... while (next())\<close> loop; \<open>None\<close> is a loop that does not end.\<close>

partial_function (option) fetchRows ::
  "'db exec_ops \<Rightarrow> nat \<Rightarrow> value_tuple_set \<Rightarrow> 'db \<Rightarrow> (value_tuple_set result \<times> 'db) option" where
  "fetchRows ops n rt db =
    (case db_map (db_get ops) [1..<Suc n] db of
       (Inl e, db1) \<Rightarrow> Some (Inl e, db1)
     | (Inr col, db1) \<Rightarrow> (case vts_push col rt of
         Inl e \<Rightarrow> Some (Inl e, db1)
       | Inr rt' \<Rightarrow> (case db_next ops db1 of
           (Inl e, db2) \<Rightarrow> Some (Inl e, db2)
         | (Inr again, db2) \<Rightarrow>
             if again then fetchRows ops n rt' db2 else Some (Inr rt', db2))))"

definition fetchDatabaseResult ::
  "'db exec_ops \<Rightarrow> nat \<Rightarrow> 'db \<Rightarrow> (value_tuple_set result \<times> 'db) option" where
  "fetchDatabaseResult ops n db =
    (case db_map (db_columnName ops) [1..<Suc n] db of
       (Inl e, db1) \<Rightarrow> Some (Inl e, db1)
     | (Inr cns, db1) \<Rightarrow>
         let rt = vts_new (map (case_option [] id) cns) in
         (case db_hasResult ops db1 of
            (Inl e, db2) \<Rightarrow> Some (Inl e, db2)
          | (Inr has, db2) \<Rightarrow> if has then fetchRows ops n rt db2 else Some (Inr rt, db2)))"

definition setDatabaseError :: "'db exec_ops \<Rightarrow> 'db program_instance \<Rightarrow> 'db vm_result" where
  "setDatabaseError ops p =
    vm_db (db_getLastError ops) p (\<lambda>err p. case err of
      None \<Rightarrow> Next (p\<lparr>m_lastError := databaseError ''UNKNOWN'' 0 ''unknown error''\<rparr>)
    | Some err \<Rightarrow> vm_get (vm_top p) p (\<lambda>frm.
        let e = err\<lparr>de_dbname := (case m_db_stm p of Some db \<Rightarrow> db_databaseID ops db | None \<Rightarrow> []),
                    de_ip := m_ip p\<rparr>;
            p = p\<lparr>m_lastError := e\<rparr>;
            h = m_hintidx frm; hs = errorhints (m_program p)
        in if h = 0 then Next p
           else if h > length hs then Raise (RuntimeError ''referencing hint out of bounds'') p
           else (case List.find (\<lambda>x. de_errorclass err = eh_errorclass x) (hs ! (h - 1)) of
                   None \<Rightarrow> Next p
                 | Some x \<Rightarrow> Next (p\<lparr>m_lastError := e\<lparr>de_errorhint := eh_message x\<rparr>\<rparr>))))"

section \<open>The instruction loop\<close>

text \<open>
  The switch of \<^verbatim>\<open>execute\<close> as a chain of its groups of cases: an operation that is not of a
  group goes to the next one. The last group is left by the operation codes without a case:
  the loop then goes on with an unchanged state.
\<close>

definition exec_others ::
  "opcode \<Rightarrow> nat \<Rightarrow> 'db program_instance \<Rightarrow> 'db vm_result option" where
  "exec_others opc argidx p =
    Some (vm_get (vm_top p) p (\<lambda>frm. case opc of
      Op_RESULT_SET_INIT \<Rightarrow>
        Next (next_ip (set_top (frm\<lparr>m_resultFlags := result_flags_init False False\<rparr>) p))
    | Op_RESULT_CONSTRAINT_UNIQUE \<Rightarrow>
        Next (next_ip (set_top (frm\<lparr>m_resultFlags := (m_resultFlags frm)\<lparr>unique := True\<rparr>\<rparr>) p))
    | Op_RESULT_CONSTRAINT_NONEMPTY \<Rightarrow>
        Next (next_ip (set_top (frm\<lparr>m_resultFlags := (m_resultFlags frm)\<lparr>nonempty := True\<rparr>\<rparr>) p))
    | Op_NOP \<Rightarrow> Next (next_ip p)
    | _ \<Rightarrow> Next p))"

definition rewrite_instruction ::
  "32 word \<Rightarrow> opcode \<Rightarrow> nat \<Rightarrow> 'db program_instance \<Rightarrow> 'db vm_result" where
  "rewrite_instruction instr opc argidx p =
    vm_get (rbind (instruction (condCode instr) opc (of_nat argidx))
              (program_code_set (code (m_program p)) (m_ip p))) p
      (\<lambda>cd. Next (p\<lparr>m_program := (m_program p)\<lparr>code := cd\<rparr>\<rparr>))"

text \<open>
  A case that addresses a column by name: the index is looked up, the instruction is rewritten
  to address it by this index, and the case of the indexed operation follows.
\<close>

definition by_name ::
  "(stack_element \<Rightarrow> vts_ref) \<Rightarrow> opcode \<Rightarrow> 32 word \<Rightarrow> nat \<Rightarrow> 'db program_instance \<Rightarrow>
   (nat \<Rightarrow> 'db program_instance \<Rightarrow> 'db vm_result) \<Rightarrow> 'db vm_result" where
  "by_name sel idxop instr argidx p k =
    vm_get (rbind (vm_top p) (\<lambda>frm. columnIndex (sel frm) argidx p)) p (\<lambda>idx.
      vm_bind (rewrite_instruction instr idxop idx p) (k idx))"

definition db_return_error :: "'db exec_ops \<Rightarrow> 'db program_instance \<Rightarrow> 'db vm_result" where
  "db_return_error ops p = vm_bind (setDatabaseError ops p) (\<lambda>p. Done False p)"

definition bind_value ::
  "'db exec_ops \<Rightarrow> variant result \<Rightarrow> 'db program_instance \<Rightarrow> 'db vm_result" where
  "bind_value ops r p =
    vm_get (vm_top p) p (\<lambda>frm.
    vm_get r p (\<lambda>v.
      let i = m_bindidx frm + 1 in
      vm_db (db_bind ops i v) (set_top (frm\<lparr>m_bindidx := i\<rparr>) p) (\<lambda>ok p.
        if ok then Next (next_ip p) else db_return_error ops p)))"

definition end_statement :: "'db program_instance \<Rightarrow> 'db vm_result" where
  "end_statement p =
    vm_get (vm_top p) p (\<lambda>frm.
      Next (next_ip (set_top (frm\<lparr>m_bindidx := 0, m_hintidx := 0\<rparr>) p)))"

definition fetch_result ::
  "'db exec_ops \<Rightarrow> nat \<Rightarrow> 'db program_instance \<Rightarrow> 'db vm_result option" where
  "fetch_result ops n p =
    (case m_db_stm p of
       None \<Rightarrow> Some (Raise (Undefined ''null pointer'') p)
     | Some db \<Rightarrow> (case fetchDatabaseResult ops n db of
         None \<Rightarrow> None
       | Some (r, db') \<Rightarrow> (let p' = p\<lparr>m_db_stm := Some db'\<rparr> in
           Some (vm_get r p' (\<lambda>s.
             initResult (Some (length (m_heap p'))) (p'\<lparr>m_heap := m_heap p' @ [s]\<rparr>))))))"

definition exec_dbstm_exec :: "'db exec_ops \<Rightarrow> 'db program_instance \<Rightarrow> 'db vm_result option" where
  "exec_dbstm_exec ops p =
    (case vm_db (db_execute ops) p (\<lambda>ok p.
            if ok then Next p else db_return_error ops p) of
       Next p1 \<Rightarrow> (case m_db_stm p1 of
           None \<Rightarrow> Some (Raise (Undefined ''null pointer'') p1)
         | Some db \<Rightarrow> (case db_nofColumns ops db of
             (Inl e, db') \<Rightarrow> Some (Raise e (p1\<lparr>m_db_stm := Some db'\<rparr>))
           | (Inr n, db') \<Rightarrow> (let p2 = p1\<lparr>m_db_stm := Some db'\<rparr> in
               if n = 0 then Some (end_statement p2)
               else map_option (\<lambda>r. vm_bind r end_statement) (fetch_result ops n p2))))
     | r \<Rightarrow> Some r)"

definition exec_dbstm ::
  "'db exec_ops \<Rightarrow> opcode \<Rightarrow> nat \<Rightarrow> 32 word \<Rightarrow> 'db program_instance \<Rightarrow> 'db vm_result option" where
  "exec_dbstm ops opc argidx instr p =
    (case opc of
      Op_DBSTM_START \<Rightarrow> Some (vm_get (vm_top p) p (\<lambda>frm.
        let p = set_top (frm\<lparr>m_bindidx := 0, m_hintidx := 0\<rparr>) p in
        vm_get (statementArgument argidx p) p (\<lambda>stm.
        vm_db (db_start ops stm) p (\<lambda>ok p.
          if ok then Next (next_ip p) else db_return_error ops p))))
    | Op_DBSTM_BIND_CONST \<Rightarrow> Some (bind_value ops (constArgument argidx p) p)
    | Op_DBSTM_BIND_PATH \<Rightarrow> Some (Raise (RuntimeError
        ''illegal instruction in this state: addressing unresolved path expression'') p)
    | Op_DBSTM_BIND_LOOPCNT \<Rightarrow> Some (bind_value ops (loopcntArgument p) p)
    | Op_DBSTM_BIND_SEL_NAM \<Rightarrow> Some (by_name m_selectedSet Op_DBSTM_BIND_SEL_IDX instr argidx p
        (\<lambda>i p. bind_value ops (selectedArgument i p) p))
    | Op_DBSTM_BIND_SEL_IDX \<Rightarrow> Some (bind_value ops (selectedArgument argidx p) p)
    | Op_DBSTM_BIND_ITR_NAM \<Rightarrow> Some (by_name m_valueSet Op_DBSTM_BIND_ITR_IDX instr argidx p
        (\<lambda>i p. bind_value ops (iteratorArgument i p) p))
    | Op_DBSTM_BIND_ITR_IDX \<Rightarrow> Some (bind_value ops (iteratorArgument argidx p) p)
    | Op_DBSTM_HINT \<Rightarrow> Some (vm_get (vm_top p) p (\<lambda>frm.
        Next (next_ip (set_top (frm\<lparr>m_hintidx := argidx\<rparr>) p))))
    | Op_DBSTM_EXEC \<Rightarrow> exec_dbstm_exec ops p
    | _ \<Rightarrow> exec_others opc argidx p)"

definition exec_scope ::
  "'db exec_ops \<Rightarrow> opcode \<Rightarrow> nat \<Rightarrow> 32 word \<Rightarrow> 'db program_instance \<Rightarrow> 'db vm_result option" where
  "exec_scope ops opc argidx instr p =
    (case opc of
      Op_SCOPE_OPEN \<Rightarrow> Some (vm_get (vm_top (next_ip p)) p (\<lambda>frm.
        Next ((next_ip p)\<lparr>m_stack := frm # m_stack p\<rparr>)))
    | Op_SCOPE_CLOSE \<Rightarrow> Some (vm_get (vm_top p) p (\<lambda>_.
        let p = p\<lparr>m_stack := tl (m_stack p)\<rparr> in
        if m_stack p = []
        then Raise (RuntimeError ''illegal SCOPE_CLOSE operation: stack got empty'') p
        else Next (next_ip p)))
    | _ \<Rightarrow> exec_dbstm ops opc argidx instr p)"

definition push_argument :: "variant result \<Rightarrow> 'db program_instance \<Rightarrow> 'db vm_result" where
  "push_argument r p =
    vm_get r p (\<lambda>v. vm_get (sf_push v (m_subroutine_frame p)) p
      (\<lambda>f. Next (next_ip (p\<lparr>m_subroutine_frame := f\<rparr>))))"

definition exec_sub ::
  "'db exec_ops \<Rightarrow> opcode \<Rightarrow> nat \<Rightarrow> 32 word \<Rightarrow> 'db program_instance \<Rightarrow> 'db vm_result option" where
  "exec_sub ops opc argidx instr p =
    (case opc of
      Op_SUB_FRAME_OPEN \<Rightarrow> Some (vm_get (at_or
          (RuntimeError ''suroutine signatiure reference out of bounds'')
          (signatures (m_program p)) argidx) p (\<lambda>sig.
        Next (next_ip (p\<lparr>m_subroutine_frame := sf_init sig (m_subroutine_frame p)\<rparr>))))
    | Op_SUB_ARG_CONST \<Rightarrow> Some (push_argument (constArgument argidx p) p)
    | Op_SUB_ARG_PATH \<Rightarrow> Some (Raise (RuntimeError
        ''illegal instruction in this state: addressing unresolved path expression'') p)
    | Op_SUB_ARG_LOOPCNT \<Rightarrow> Some (push_argument (loopcntArgument p) p)
    | Op_SUB_ARG_SEL_NAM \<Rightarrow> Some (by_name m_selectedSet Op_SUB_ARG_SEL_IDX instr argidx p
        (\<lambda>i p. push_argument (selectedArgument i p) p))
    | Op_SUB_ARG_SEL_IDX \<Rightarrow> Some (push_argument (selectedArgument argidx p) p)
    | Op_SUB_ARG_ITR_NAM \<Rightarrow> Some (by_name m_valueSet Op_SUB_ARG_ITR_IDX instr argidx p
        (\<lambda>i p. push_argument (iteratorArgument i p) p))
    | Op_SUB_ARG_ITR_IDX \<Rightarrow> Some (push_argument (iteratorArgument argidx p) p)
    | Op_SUB_FRAME_CLOSE \<Rightarrow> Some (let p = next_ip p in
        vm_get (sf_getParameters (m_subroutine_frame p)) p (\<lambda>params.
          Next (p\<lparr>m_heap := m_heap p @ [params],
                  m_stack := stack_element_new (m_ip p + 1) (Some (length (m_heap p))) # m_stack p\<rparr>)))
    | _ \<Rightarrow> exec_scope ops opc argidx instr p)"

definition exec_iter ::
  "'db exec_ops \<Rightarrow> opcode \<Rightarrow> nat \<Rightarrow> 32 word \<Rightarrow> 'db program_instance \<Rightarrow> 'db vm_result option" where
  "exec_iter ops opc argidx instr p =
    (case opc of
      Op_OPEN_ITER_LAST_RESULT \<Rightarrow> Some (vm_get (vm_top p) p (\<lambda>frm.
        vm_bind
          (if m_lastResult frm \<noteq> None then initValueIteraror (m_lastResult frm) p
           else initValueIteraror (Some (length (m_heap p)))
             (p\<lparr>m_heap := m_heap p @ [vts_new []]\<rparr>))
          (\<lambda>p. Next (next_ip p))))
    | Op_OPEN_ITER_KEPT_RESULT \<Rightarrow> Some (vm_get (keptResult argidx p) p (\<lambda>r.
        vm_bind (initValueIteraror r p) (\<lambda>p. Next (next_ip p))))
    | Op_OPEN_ITER_PATH \<Rightarrow> Some (Raise (RuntimeError
        ''illegal instruction in this state: addressing unresolved path expression'') p)
    | Op_OPEN_ITER_TUPLESET \<Rightarrow> Some (vm_get (tupleSet argidx p) p (\<lambda>r.
        vm_bind (initValueIteraror r p) (\<lambda>p. Next (next_ip p))))
    | Op_NEXT \<Rightarrow> Some (vm_get (vm_top p) p (\<lambda>frm.
        if m_valueIter frm = m_valueEnd frm then Next (next_ip (p\<lparr>m_cond := False\<rparr>))
        else vm_get (iter_target p (m_valueIter frm)) p (\<lambda>s.
          let it = (m_valueIter frm)\<lparr>it_idx := iter_next s (it_idx (m_valueIter frm))\<rparr> in
          Next (next_ip ((set_top (frm\<lparr>m_valueIter := it\<rparr>) p)
            \<lparr>m_cond := (it \<noteq> m_valueEnd frm)\<rparr>)))))
    | _ \<Rightarrow> exec_sub ops opc argidx instr p)"

definition select_set :: "vts_ref \<Rightarrow> 'db program_instance \<Rightarrow> 'db vm_result" where
  "select_set r p =
    vm_get (vm_top p) p (\<lambda>frm.
    vm_get (rbind (vm_deref p r) vts_size) p (\<lambda>n.
      if n > 1 then Raise (RuntimeError ''ambiguous value reference'') p
      else Next (next_ip (set_top (frm\<lparr>m_selectedSet := r\<rparr>) p))))"

definition exec_assign ::
  "'db exec_ops \<Rightarrow> opcode \<Rightarrow> nat \<Rightarrow> 32 word \<Rightarrow> 'db program_instance \<Rightarrow> 'db vm_result option" where
  "exec_assign ops opc argidx instr p =
    (case opc of
      Op_KEEP_RESULT \<Rightarrow> Some (vm_get (vm_top p) p (\<lambda>frm.
        Next (next_ip (set_top
          (frm\<lparr>m_resultMap := (m_resultMap frm)(argidx \<mapsto> m_lastResult frm)\<rparr>) p))))
    | Op_SELECT_PARAMETER \<Rightarrow> Some (vm_get (vm_top p) p (\<lambda>frm.
        if m_parameter frm = None
        then Raise (RuntimeError ''selecting parameter but no parameters defined'') p
        else Next (next_ip (set_top (frm\<lparr>m_selectedSet := m_parameter frm\<rparr>) p))))
    | Op_SELECT_LAST_RESULT \<Rightarrow> Some (vm_get (vm_top p) p (\<lambda>frm.
        if m_lastResult frm = None
        then Raise (RuntimeError ''selecting result set that is not defined'') p
        else select_set (m_lastResult frm) p))
    | Op_SELECT_KEPT_RESULT \<Rightarrow> Some (vm_get (keptResult argidx p) p (\<lambda>r. select_set r p))
    | _ \<Rightarrow> exec_iter ops opc argidx instr p)"

definition exec_output ::
  "'db exec_ops \<Rightarrow> opcode \<Rightarrow> nat \<Rightarrow> 32 word \<Rightarrow> 'db program_instance \<Rightarrow> 'db vm_result option" where
  "exec_output ops opc argidx instr p =
    (case opc of
      Op_OUTPUT_CONST \<Rightarrow>
        Some (vm_bind (vm_addValue (constArgument argidx p) p) (\<lambda>p. Next (next_ip p)))
    | Op_OUTPUT_PATH \<Rightarrow> Some (Raise (RuntimeError
        ''illegal instruction in this state: addressing unresolved path expression'') p)
    | Op_OUTPUT_LOOPCNT \<Rightarrow>
        Some (vm_bind (vm_addValue (loopcntArgument p) p) (\<lambda>p. Next (next_ip p)))
    | Op_OUTPUT_SEL_NAM \<Rightarrow> Some (by_name m_selectedSet Op_OUTPUT_SEL_IDX instr argidx p
        (\<lambda>i p. vm_bind (vm_addValue (selectedArgument i p) p) (\<lambda>p. Next (next_ip p))))
    | Op_OUTPUT_SEL_IDX \<Rightarrow>
        Some (vm_bind (vm_addValue (selectedArgument argidx p) p) (\<lambda>p. Next (next_ip p)))
    | Op_OUTPUT_ITR_NAM \<Rightarrow> Some (by_name m_valueSet Op_OUTPUT_ITR_IDX instr argidx p
        (\<lambda>i p. vm_bind (vm_addValue (iteratorArgument i p) p) (\<lambda>p. Next (next_ip p))))
    | Op_OUTPUT_ITR_IDX \<Rightarrow>
        Some (vm_bind (vm_addValue (iteratorArgument argidx p) p) (\<lambda>p. Next (next_ip p)))
    | Op_OUTPUT_ITR_COLUMN \<Rightarrow>
        Some (vm_bind (printIteratorColumn p) (\<lambda>p. Next (next_ip p)))
    | Op_OUTPUT_OPEN_ARRAY \<Rightarrow> Some (vm_get (tagnameArgument argidx p) p (\<lambda>tag.
        vm_bind (vm_output_add (out_element Out_OpenArray (V_String tag)) p) (\<lambda>p. Next (next_ip p))))
    | Op_OUTPUT_OPEN_ELEM \<Rightarrow>
        Some (vm_bind (vm_output_add (out_element Out_OpenArrayElement (V_Int 0)) p)
          (\<lambda>p. Next (next_ip p)))
    | Op_OUTPUT_OPEN \<Rightarrow> Some (vm_get (tagnameArgument argidx p) p (\<lambda>tag.
        vm_bind (vm_output_add (out_element Out_Open (V_String tag)) p) (\<lambda>p. Next (next_ip p))))
    | Op_OUTPUT_CLOSE_ARRAY \<Rightarrow>
        Some (vm_bind (vm_output_add (out_element0 Out_CloseArray) p) (\<lambda>p. Next (next_ip p)))
    | Op_OUTPUT_CLOSE_ELEM \<Rightarrow>
        Some (vm_bind (vm_output_add (out_element0 Out_CloseArrayElement) p) (\<lambda>p. Next (next_ip p)))
    | Op_OUTPUT_CLOSE \<Rightarrow>
        Some (vm_bind (vm_output_add (out_element0 Out_Close) p) (\<lambda>p. Next (next_ip p)))
    | Op_OUTPUT_ADD_SINK \<Rightarrow>
        Some (Next (next_ip (p\<lparr>m_output := output_addOutputSink (m_output p)\<rparr>)))
    | _ \<Rightarrow> exec_assign ops opc argidx instr p)"

definition exec_return :: "'db program_instance \<Rightarrow> 'db vm_result" where
  "exec_return p =
    vm_get (vm_top p) p (\<lambda>frm.
      let p = p\<lparr>m_ip := m_return_ip frm, m_stack := tl (m_stack p)\<rparr> in
      if m_stack p = [] then Done True p else initResult (m_lastResult frm) p)"

definition exec_control ::
  "'db exec_ops \<Rightarrow> opcode \<Rightarrow> nat \<Rightarrow> 32 word \<Rightarrow> 'db program_instance \<Rightarrow> 'db vm_result option" where
  "exec_control ops opc argidx instr p =
    (case opc of
      Op_EXIT \<Rightarrow>
        Some (Done False (p\<lparr>m_lastError := databaseError ''VM'' 0 ''aborted program execution''\<rparr>))
    | Op_RETURN \<Rightarrow> Some (exec_return p)
    | Op_GOTO \<Rightarrow> Some (if argidx > length (code (m_program p))
        then Raise (RuntimeError ''illegal goto instruction argument'') p
        else Next (p\<lparr>m_ip := argidx\<rparr>))
    | _ \<Rightarrow> exec_output ops opc argidx instr p)"

text \<open>The condition of an instruction; an unnamed condition code has no case and is executed.\<close>

definition cond_holds :: "condcode \<Rightarrow> bool \<Rightarrow> bool" where
  "cond_holds cc flag =
    (case cc of Co_ALWAYS \<Rightarrow> True | Co_IF_COND \<Rightarrow> flag | Co_NOT_IF_COND \<Rightarrow> \<not> flag
     | Co_unnamed \<Rightarrow> True)"

definition step :: "'db exec_ops \<Rightarrow> 'db program_instance \<Rightarrow> 'db vm_result option" where
  "step ops p =
    (case program_code_get (code (m_program p)) (m_ip p) of
       Inl e \<Rightarrow> Some (Raise e p)
     | Inr instr \<Rightarrow>
         if cond_holds (condCode instr) (m_cond p)
         then exec_control ops (opCode instr) (argumentIndex instr) instr p
         else Some (Next (next_ip p)))"

partial_function (option) execute_loop ::
  "'db exec_ops \<Rightarrow> 'db program_instance \<Rightarrow> 'db vm_result option" where
  "execute_loop ops p =
    (case step ops p of
       None \<Rightarrow> None
     | Some r \<Rightarrow> (case r of
         Next p' \<Rightarrow> execute_loop ops p'
       | Done b p' \<Rightarrow> Some (Done b p')
       | Raise e p' \<Rightarrow> Some (Raise e p')))"

definition execute :: "'db exec_ops \<Rightarrow> 'db program_instance \<Rightarrow> 'db vm_result option" where
  "execute ops p =
    (if m_db_stm p = None \<or> m_stack p = [] then Some (Done False p) else execute_loop ops p)"

definition program_instance_new ::
  "program_image \<Rightarrow> value_tuple_set list \<Rightarrow> 'db option \<Rightarrow> 'db program_instance" where
  "program_instance_new prg tuples db =
    \<lparr>m_program = prg, m_db_stm = db, m_ip = 0,
     m_subroutine_frame = \<lparr>sf_paramnames = [], sf_paramvalues = []\<rparr>, m_cond = False,
     m_stack = [stack_element_new 0 None], m_output = output_new,
     m_lastError = database_error0, m_heap = tuples\<rparr>"

end
