(* ===== verification/VM_Safety.thy ===== *)
theory VM_Safety
  imports Program_Instance
begin

text \<open>
  Safety of the transaction virtual machine: one invariant over all reachable states and its
  consequences. The invariant says that the stack and the output sinks are never empty, that no
  frame holds a dangling pointer, that instruction addresses stay within the program, that the
  program text changes only by the rewriting of name addressed instructions, and that the tuple
  sets of the transaction input are never changed. The requirements on the database are collected
  in \<open>db_closed\<close>; the locale \<open>reporting_database\<close> of \<open>Error_Reporting\<close> adds what the error report
  relies on.
\<close>

section \<open>Postconditions of machine results\<close>

fun vm_post ::
  "('db program_instance \<Rightarrow> bool) \<Rightarrow> (bool \<Rightarrow> 'db program_instance \<Rightarrow> bool) \<Rightarrow>
   (cpp_error \<Rightarrow> 'db program_instance \<Rightarrow> bool) \<Rightarrow> 'db vm_result \<Rightarrow> bool" where
  "vm_post N D E (Next p) = N p"
| "vm_post N D E (Done b p) = D b p"
| "vm_post N D E (Raise e p) = E e p"

named_theorems vm_intro \<open>rules that compute postconditions\<close>

lemma vm_post_get [vm_intro]:
  assumes "\<And>e. r = Inl e \<Longrightarrow> E e p" and "\<And>x. r = Inr x \<Longrightarrow> vm_post N D E (k x)"
  shows "vm_post N D E (vm_get r p k)"
  using assms by (cases r) (simp_all add: vm_get_def)

lemma vm_post_bind [vm_intro]:
  assumes "vm_post (\<lambda>p. vm_post N D E (k p)) D E r"
  shows "vm_post N D E (vm_bind r k)"
  using assms by (cases r) (simp_all add: vm_bind_def)

lemma vm_post_mono:
  assumes "vm_post N D E r" and "\<And>p. N p \<Longrightarrow> N' p" and "\<And>b p. D b p \<Longrightarrow> D' b p"
    and "\<And>e p. E e p \<Longrightarrow> E' e p"
  shows "vm_post N' D' E' r"
  using assms by (cases r) auto

section \<open>Requirements on the database\<close>

definition vm_internal_errors :: "cpp_error set" where
  "vm_internal_errors =
    {Undefined ''back() of an empty stack'', Undefined ''dangling pointer'',
     Undefined ''back() of an empty vector''}"

definition db_res_ok :: "('db \<Rightarrow> bool) \<Rightarrow> 'a result \<times> 'db \<Rightarrow> bool" where
  "db_res_ok I rd = (I (snd rd) \<and> (\<forall>e. fst rd = Inl e \<longrightarrow> e \<notin> vm_internal_errors))"

text \<open>\<open>I\<close> is kept by every operation, and none raises one of the machine's internal errors.\<close>

definition db_closed :: "'db exec_ops \<Rightarrow> ('db \<Rightarrow> bool) \<Rightarrow> bool" where
  "db_closed ops I =
    (\<forall>db. I db \<longrightarrow>
      (\<forall>s. db_res_ok I (db_start ops s db)) \<and> (\<forall>i v. db_res_ok I (db_bind ops i v db)) \<and>
      db_res_ok I (db_execute ops db) \<and> db_res_ok I (db_nofColumns ops db) \<and>
      (\<forall>i. db_res_ok I (db_columnName ops i db)) \<and> (\<forall>i. db_res_ok I (db_get ops i db)) \<and>
      db_res_ok I (db_next ops db) \<and> db_res_ok I (db_hasResult ops db) \<and>
      db_res_ok I (db_getLastError ops db))"

section \<open>The invariant\<close>

definition ref_ok :: "nat \<Rightarrow> vts_ref \<Rightarrow> bool" where
  "ref_ok n r = (case r of None \<Rightarrow> True | Some a \<Rightarrow> a < n)"

text \<open>\<open>n0\<close> tuple sets of the input, \<open>n\<close> objects in the store, \<open>L\<close> instructions.\<close>

definition frame_ok :: "nat \<Rightarrow> nat \<Rightarrow> nat \<Rightarrow> stack_element \<Rightarrow> bool" where
  "frame_ok n0 n L frm =
    (m_return_ip frm \<le> L + 1 \<and> ref_ok n (m_parameter frm) \<and> ref_ok n (m_lastResult frm)
     \<and> (\<forall>a. m_lastResult frm = Some a \<longrightarrow> n0 \<le> a)
     \<and> ref_ok n (m_selectedSet frm) \<and> ref_ok n (m_valueSet frm)
     \<and> (\<forall>k r. m_resultMap frm k = Some r \<longrightarrow> ref_ok n r)
     \<and> it_ref (m_valueIter frm) = m_valueSet frm \<and> it_ref (m_valueEnd frm) = m_valueSet frm)"

definition name_to_index :: "(opcode \<times> opcode) list" where
  "name_to_index =
    [(Op_OUTPUT_SEL_NAM, Op_OUTPUT_SEL_IDX), (Op_OUTPUT_ITR_NAM, Op_OUTPUT_ITR_IDX),
     (Op_SUB_ARG_SEL_NAM, Op_SUB_ARG_SEL_IDX), (Op_SUB_ARG_ITR_NAM, Op_SUB_ARG_ITR_IDX),
     (Op_DBSTM_BIND_SEL_NAM, Op_DBSTM_BIND_SEL_IDX), (Op_DBSTM_BIND_ITR_NAM, Op_DBSTM_BIND_ITR_IDX)]"

text \<open>An instruction is unchanged, or a name addressed one became its indexed form.\<close>

definition instr_evolves :: "32 word \<Rightarrow> 32 word \<Rightarrow> bool" where
  "instr_evolves w w' =
    (w' = w \<or> (opCode w, opCode w') \<in> set name_to_index \<and> condCode w' = condCode w)"

text \<open>
  The state \<open>p\<close> of a run that started in \<open>p0\<close>: everything but the instruction pointer and the
  emptiness of the stack.
\<close>

definition vm_core :: "('db \<Rightarrow> bool) \<Rightarrow> 'db program_instance \<Rightarrow> 'db program_instance \<Rightarrow> bool" where
  "vm_core I p0 p =
    ((\<exists>db. m_db_stm p = Some db \<and> I db)
     \<and> m_output p \<noteq> []
     \<and> m_program p = (m_program p0)\<lparr>code := code (m_program p)\<rparr>
     \<and> list_all2 instr_evolves (code (m_program p0)) (code (m_program p))
     \<and> length (m_heap p0) \<le> length (m_heap p)
     \<and> take (length (m_heap p0)) (m_heap p) = m_heap p0
     \<and> (\<forall>s \<in> set (m_heap p). vts_wf s)
     \<and> (\<forall>r \<in> set (tuplesets (m_program p0)). ref_ok (length (m_heap p0)) r)
     \<and> (\<forall>frm \<in> set (m_stack p). frame_ok (length (m_heap p0)) (length (m_heap p))
          (length (code (m_program p0))) frm))"

definition vm_inv :: "('db \<Rightarrow> bool) \<Rightarrow> 'db program_instance \<Rightarrow> 'db program_instance \<Rightarrow> bool" where
  "vm_inv I p0 p =
    (vm_core I p0 p \<and> m_stack p \<noteq> [] \<and> m_ip p \<le> length (code (m_program p0)) + 1)"

text \<open>While the instruction at address \<open>i\<close> is executed.\<close>

definition vm_at :: "('db \<Rightarrow> bool) \<Rightarrow> 'db program_instance \<Rightarrow> nat \<Rightarrow> 'db program_instance \<Rightarrow> bool" where
  "vm_at I p0 i p = (vm_core I p0 p \<and> m_stack p \<noteq> [] \<and> m_ip p = i)"

definition vm_raised :: "('db \<Rightarrow> bool) \<Rightarrow> cpp_error \<Rightarrow> 'db program_instance \<Rightarrow> bool" where
  "vm_raised I e p = (e \<notin> vm_internal_errors \<and> (\<exists>db. m_db_stm p = Some db \<and> I db))"

definition vm_done :: "('db \<Rightarrow> bool) \<Rightarrow> 'db program_instance \<Rightarrow> bool \<Rightarrow> 'db program_instance \<Rightarrow> bool" where
  "vm_done I p0 b p = vm_core I p0 p"

abbreviation vm_keeps ::
  "('db \<Rightarrow> bool) \<Rightarrow> 'db program_instance \<Rightarrow> nat \<Rightarrow> 'db vm_result \<Rightarrow> bool" where
  "vm_keeps I p0 i \<equiv> vm_post (vm_at I p0 i) (vm_done I p0) (vm_raised I)"

abbreviation vm_steps ::
  "('db \<Rightarrow> bool) \<Rightarrow> 'db program_instance \<Rightarrow> 'db vm_result \<Rightarrow> bool" where
  "vm_steps I p0 \<equiv> vm_post (vm_inv I p0) (vm_done I p0) (vm_raised I)"

section \<open>Accessors under the invariant\<close>

lemma internal_errors [simp]:
  "RuntimeError m \<notin> vm_internal_errors" "LogicError m \<notin> vm_internal_errors"
  "Undefined ''null pointer'' \<notin> vm_internal_errors"
  "Undefined ''division by zero'' \<notin> vm_internal_errors"
  "Undefined ''insert of a vector into itself'' \<notin> vm_internal_errors"
  by (simp_all add: vm_internal_errors_def)

lemma ref_ok_simps [simp]: "ref_ok n None" "ref_ok n (Some a) \<longleftrightarrow> a < n"
  by (simp_all add: ref_ok_def)

lemma ref_ok_mono: "ref_ok n r \<Longrightarrow> n \<le> n' \<Longrightarrow> ref_ok n' r"
  by (cases r) auto

lemma frame_ok_mono: "frame_ok n0 n L frm \<Longrightarrow> n \<le> n' \<Longrightarrow> frame_ok n0 n' L frm"
  unfolding frame_ok_def by (meson ref_ok_mono)

lemma frame_ok_Suc: "frame_ok n0 n L frm \<Longrightarrow> frame_ok n0 (Suc n) L frm"
  by (erule frame_ok_mono) simp

lemma frame_ok_new [simp]:
  "frame_ok n0 n L (stack_element_new rip par) \<longleftrightarrow> rip \<le> L + 1 \<and> ref_ok n par"
  by (simp add: frame_ok_def stack_element_new_def)

lemma vm_at_top:
  assumes "vm_at I p0 i p"
  obtains frm where "vm_top p = Inr frm" and "m_stack p = frm # tl (m_stack p)"
    and "frame_ok (length (m_heap p0)) (length (m_heap p)) (length (code (m_program p0))) frm"
  using assms by (cases "m_stack p") (auto simp: vm_at_def vm_core_def vm_top_def)

lemma vm_at_raised: "vm_at I p0 i p \<Longrightarrow> e \<notin> vm_internal_errors \<Longrightarrow> vm_raised I e p"
  by (simp add: vm_at_def vm_core_def vm_raised_def)

lemma vm_deref_no_internal:
  "ref_ok (length (m_heap p)) r \<Longrightarrow> vm_deref p r = Inl e \<Longrightarrow> e \<notin> vm_internal_errors"
  by (cases r) (auto simp: vm_deref_def)

lemma vm_deref_wf: "vm_at I p0 i p \<Longrightarrow> vm_deref p r = Inr s \<Longrightarrow> vts_wf s"
  by (auto simp: vm_deref_def vm_at_def vm_core_def split: option.splits)

lemma vts_no_internal:
  "vts_size s = Inl e \<Longrightarrow> e \<notin> vm_internal_errors"
  "vts_columnName s i = Inl e \<Longrightarrow> e \<notin> vm_internal_errors"
  "vts_columnIndex s n = Inl e \<Longrightarrow> e \<notin> vm_internal_errors"
  "iter_column s k i = Inl e \<Longrightarrow> e \<notin> vm_internal_errors"
  "vts_push c s = Inl e \<Longrightarrow> e \<notin> vm_internal_errors"
  "vts_append s t = Inl e \<Longrightarrow> e \<notin> vm_internal_errors"
  "checkConstraintUnique s = Inl e \<Longrightarrow> e \<notin> vm_internal_errors"
  "checkConstraintNonEmpty s = Inl e \<Longrightarrow> e \<notin> vm_internal_errors"
  by (auto simp: vts_size_def vts_columnName_def iter_column_def vts_push_def vts_append_def
      checkConstraintUnique_def checkConstraintNonEmpty_def vts_columnIndex_def
      columnIndex_from_spec rbind_eq_Inl_iff split: if_splits option.splits)

section \<open>Updates under the invariant\<close>

abbreviation frame_in ::
  "'db program_instance \<Rightarrow> 'db program_instance \<Rightarrow> stack_element \<Rightarrow> bool" where
  "frame_in p0 p \<equiv>
    frame_ok (length (m_heap p0)) (length (m_heap p)) (length (code (m_program p0)))"

lemma set_top_simps [simp]:
  "m_heap (set_top t p) = m_heap p" "m_ip (set_top t p) = m_ip p"
  "m_program (set_top t p) = m_program p" "m_db_stm (set_top t p) = m_db_stm p"
  by (simp_all add: set_top_def)

lemma vm_at_set_top: "vm_at I p0 i p \<Longrightarrow> frame_in p0 p t \<Longrightarrow> vm_at I p0 i (set_top t p)"
  by (auto simp: vm_at_def vm_core_def set_top_def dest: list.set_sel(2) [rotated])

lemma vm_at_next:
  "vm_at I p0 i p \<Longrightarrow> i < length (code (m_program p0)) \<Longrightarrow> vm_inv I p0 (next_ip p)"
  by (auto simp: vm_at_def vm_inv_def vm_core_def next_ip_def)

lemma vm_at_ignored [simp]:
  "vm_at I p0 i (p\<lparr>m_cond := c\<rparr>) = vm_at I p0 i p"
  "vm_at I p0 i (p\<lparr>m_lastError := err\<rparr>) = vm_at I p0 i p"
  "vm_at I p0 i (p\<lparr>m_subroutine_frame := f\<rparr>) = vm_at I p0 i p"
  by (simp_all add: vm_at_def vm_core_def)

lemma vm_at_output: "vm_at I p0 i p \<Longrightarrow> out \<noteq> [] \<Longrightarrow> vm_at I p0 i (p\<lparr>m_output := out\<rparr>)"
  by (simp add: vm_at_def vm_core_def)

lemma vm_at_heap_push:
  "vm_at I p0 i p \<Longrightarrow> vts_wf s \<Longrightarrow> vm_at I p0 i (p\<lparr>m_heap := m_heap p @ [s]\<rparr>)"
  unfolding vm_at_def vm_core_def by (auto dest: frame_ok_Suc)

lemma vm_at_heap_update:
  "h = (m_heap p)[a := s] \<Longrightarrow> vm_at I p0 i p \<Longrightarrow> vts_wf s \<Longrightarrow> length (m_heap p0) \<le> a \<Longrightarrow>
   vm_at I p0 i (p\<lparr>m_heap := h\<rparr>)"
  unfolding vm_at_def vm_core_def by (auto dest!: set_update_subset_insert [THEN subsetD])

lemma vm_post_top [vm_intro]:
  assumes "vm_at I p0 i p"
    and "\<And>frm. vm_top p = Inr frm \<Longrightarrow> frame_in p0 p frm \<Longrightarrow> vm_post N D E (k frm)"
  shows "vm_post N D E (vm_get (vm_top p) p k)"
  using assms(1) by (rule vm_at_top) (simp add: vm_get_def assms(2))

lemma vm_post_db:
  assumes "vm_at I p0 i p" and "\<And>db. I db \<Longrightarrow> db_res_ok I (f db)"
    and "\<And>x db'. vm_at I p0 i (p\<lparr>m_db_stm := Some db'\<rparr>) \<Longrightarrow>
      vm_post N D (vm_raised I) (k x (p\<lparr>m_db_stm := Some db'\<rparr>))"
  shows "vm_post N D (vm_raised I) (vm_db f p k)"
proof -
  obtain db where db: "m_db_stm p = Some db" "I db"
    using assms(1) by (auto simp: vm_at_def vm_core_def)
  obtain r db' where f: "f db = (r, db')" by fastforce
  then have "db_res_ok I (r, db')" using assms(2) db(2) by metis
  then have "vm_at I p0 i (p\<lparr>m_db_stm := Some db'\<rparr>)"
    and "\<And>e. r = Inl e \<Longrightarrow> vm_raised I e (p\<lparr>m_db_stm := Some db'\<rparr>)"
    using assms(1) by (auto simp: vm_at_def vm_core_def db_res_ok_def vm_raised_def)
  then show ?thesis
    using assms(3) by (auto simp: vm_db_def db(1) f Let_def intro: vm_post_get)
qed

text \<open>Reading the arguments of an instruction raises no internal error.\<close>

definition safe_result :: "'a result \<Rightarrow> bool" where
  "safe_result r = (\<forall>e. r = Inl e \<longrightarrow> e \<notin> vm_internal_errors)"

lemma safe_result_rbind:
  "safe_result r \<Longrightarrow> (\<And>x. r = Inr x \<Longrightarrow> safe_result (f x)) \<Longrightarrow> safe_result (rbind r f)"
  by (auto simp: safe_result_def rbind_eq_Inl_iff)

lemma vm_post_safe:
  assumes "vm_at I p0 i p" and "safe_result r" and "\<And>x. r = Inr x \<Longrightarrow> vm_post N D (vm_raised I) (k x)"
  shows "vm_post N D (vm_raised I) (vm_get r p k)"
  using assms by (auto simp: safe_result_def intro!: vm_post_get vm_at_raised)

lemma safe_result_simps [simp]:
  "safe_result (Inr x)" "safe_result (Inl e) \<longleftrightarrow> e \<notin> vm_internal_errors"
  "safe_result (at_or (RuntimeError m) xs k)"
  by (auto simp: safe_result_def)

lemma safe_result_vts [simp]:
  "safe_result (vts_size s)" "safe_result (vts_columnName s i)" "safe_result (vts_columnIndex s n)"
  "safe_result (iter_column s k i)" "safe_result (vts_push c s)" "safe_result (vts_append s t)"
  "safe_result (checkConstraintUnique s)" "safe_result (checkConstraintNonEmpty s)"
  using vts_no_internal by (auto simp: safe_result_def)

lemma safe_result_deref: "ref_ok (length (m_heap p)) r \<Longrightarrow> safe_result (vm_deref p r)"
  using vm_deref_no_internal by (auto simp: safe_result_def)

lemma safe_result_top: "vm_at I p0 i p \<Longrightarrow> safe_result (vm_top p)"
  by (erule vm_at_top) simp

lemma vm_at_frame: "vm_at I p0 i p \<Longrightarrow> vm_top p = Inr frm \<Longrightarrow> frame_in p0 p frm"
  by (erule vm_at_top) simp

lemma frame_refs:
  assumes "vm_at I p0 i p" and "vm_top p = Inr frm"
  shows "ref_ok (length (m_heap p)) (m_selectedSet frm)" "ref_ok (length (m_heap p)) (m_valueSet frm)"
    "ref_ok (length (m_heap p)) (m_lastResult frm)" "ref_ok (length (m_heap p)) (m_parameter frm)"
    "m_resultMap frm k = Some r \<Longrightarrow> ref_ok (length (m_heap p)) r"
    "it_ref (m_valueIter frm) = m_valueSet frm"
  using vm_at_frame [OF assms] by (simp_all add: frame_ok_def)

lemma safe_arguments:
  assumes at: "vm_at I p0 i p"
  shows "safe_result (constArgument n p)" "safe_result (statementArgument n p)"
    "safe_result (tagnameArgument n p)" "safe_result (tupleSet n p)"
    "safe_result (keptResult n p)" "safe_result (loopcntArgument p)"
    "safe_result (selectedArgument n p)" "safe_result (iteratorArgument n p)"
  using safe_result_top [OF at] frame_refs [OF at]
  by (auto simp: constArgument_def statementArgument_def tagnameArgument_def tupleSet_def
      keptResult_def loopcntArgument_def selectedArgument_def iteratorArgument_def iter_target_def
      intro!: safe_result_rbind safe_result_deref split: option.splits)

lemma keptResult_ref: "vm_at I p0 i p \<Longrightarrow> keptResult n p = Inr r \<Longrightarrow> ref_ok (length (m_heap p)) r"
  by (auto simp: keptResult_def rbind_eq_Inr_iff split: option.splits dest: frame_refs(5))

lemma vm_at_tuplesets:
  assumes "vm_at I p0 i p"
  shows "tuplesets (m_program p) = tuplesets (m_program p0)"
proof -
  have "m_program p = (m_program p0)\<lparr>code := code (m_program p)\<rparr>"
    using assms unfolding vm_at_def vm_core_def by blast
  from arg_cong [OF this, of tuplesets] show ?thesis by simp
qed

lemma tupleSet_ref: "vm_at I p0 i p \<Longrightarrow> tupleSet n p = Inr r \<Longrightarrow> ref_ok (length (m_heap p)) r"
proof -
  assume at: "vm_at I p0 i p" and "tupleSet n p = Inr r"
  moreover note vm_at_tuplesets [OF at]
  ultimately have "r \<in> set (tuplesets (m_program p0))" by (auto simp: tupleSet_def)
  then show ?thesis using at by (auto simp: vm_at_def vm_core_def intro: ref_ok_mono)
qed

section \<open>The operations keep the invariant\<close>

lemma steps_then_next:
  assumes "i < length (code (m_program p0))" and "vm_keeps I p0 i r"
  shows "vm_steps I p0 (vm_bind r (\<lambda>p. Next (next_ip p)))"
  using assms by (auto intro!: vm_post_bind vm_at_next elim!: vm_post_mono)

lemma vm_output_add_Next:
  assumes "vm_at I p0 i p"
  obtains out where "out \<noteq> []" and "vm_output_add e p = Next (p\<lparr>m_output := out\<rparr>)"
  using assms by (auto simp: vm_output_add_def output_add_def vm_get_def vm_at_def vm_core_def)

lemma keeps_output_add: "vm_at I p0 i p \<Longrightarrow> vm_keeps I p0 i (vm_output_add e p)"
  by (rule vm_output_add_Next [of I p0 i p e]) (simp_all add: vm_at_output)

lemma keeps_addValue: "vm_at I p0 i p \<Longrightarrow> safe_result r \<Longrightarrow> vm_keeps I p0 i (vm_addValue r p)"
  unfolding vm_addValue_def by (auto intro!: vm_post_safe keeps_output_add)

lemma vm_post_output_add:
  assumes "vm_at I p0 i p"
    and "\<And>out. vm_at I p0 i (p\<lparr>m_output := out\<rparr>) \<Longrightarrow> vm_post N D E (k (p\<lparr>m_output := out\<rparr>))"
  shows "vm_post N D E (vm_bind (vm_output_add e p) k)"
  using vm_at_output [OF assms(1)] assms(2)
  by (rule_tac vm_output_add_Next [OF assms(1), of e]) (simp add: vm_bind_def)

lemma keeps_printColumns:
  "vm_at I p0 i p \<Longrightarrow> ref_ok (length (m_heap p)) (m_valueSet frm) \<Longrightarrow>
   it_ref (m_valueIter frm) = m_valueSet frm \<Longrightarrow> vm_keeps I p0 i (printColumns frm idxs p)"
proof (induction idxs arbitrary: p)
  case (Cons idx idxs)
  have deref: "safe_result (vm_deref (p\<lparr>m_output := out\<rparr>) (m_valueSet frm))" for out
    using Cons.prems by (intro safe_result_deref) simp
  have name: "safe_result (rbind (vm_deref p (m_valueSet frm)) (\<lambda>s. vts_columnName s idx))"
    using deref [of "m_output p"] by (intro safe_result_rbind) simp_all
  have col: "safe_result (rbind (iter_target (p\<lparr>m_output := out\<rparr>) (m_valueIter frm))
      (\<lambda>s. iter_column s (it_idx (m_valueIter frm)) idx))" for out
    using deref [of out] Cons.prems(3)
    by (intro safe_result_rbind) (auto simp: iter_target_def split: option.splits)
  show ?case
    unfolding printColumns.simps
    by (rule vm_post_safe [OF Cons.prems(1) name], rule vm_post_output_add [OF Cons.prems(1)],
        rule vm_post_safe [OF _ col], assumption, erule vm_post_output_add,
        erule vm_post_output_add, rule Cons.IH) (simp_all add: Cons.prems)
qed simp

lemma keeps_printIteratorColumn:
  assumes "vm_at I p0 i p"
  shows "vm_keeps I p0 i (printIteratorColumn p)"
  unfolding printIteratorColumn_def Let_def
  using assms frame_refs [OF assms]
  by (auto intro!: vm_post_top [OF assms] vm_post_safe [of I p0 i] safe_result_deref keeps_printColumns
      simp del: upt_Suc)

lemma keeps_initValueIteraror:
  assumes "vm_at I p0 i p" and "ref_ok (length (m_heap p)) r"
  shows "vm_keeps I p0 i (initValueIteraror r p)"
  unfolding initValueIteraror_def Let_def
  using assms
  by (auto intro!: vm_post_top [OF assms(1)] vm_post_safe [OF assms(1)] safe_result_deref
      vm_at_set_top vm_at_raised [OF assms(1)] simp: frame_ok_def split: option.splits)

lemma vts_append_wf: "vts_wf s \<Longrightarrow> vts_wf t \<Longrightarrow> vts_append s t = Inr u \<Longrightarrow> vts_wf u"
  by (auto simp: vts_append_def vts_wf_def mod_eq_0_iff_dvd split: if_splits)

lemma vts_push_wf: "vts_wf s \<Longrightarrow> vts_push c s = Inr u \<Longrightarrow> vts_wf u"
  by (auto simp: vts_push_def vts_wf_def mod_eq_0_iff_dvd split: if_splits)

lemma sf_getParameters_wf: "sf_getParameters f = Inr s \<Longrightarrow> vts_wf s"
  by (auto simp: sf_getParameters_def split: if_splits intro: vts_push_wf [OF vts_new_rows(2)])

lemma frame_ok_updates [simp]:
  "frame_ok n0 n L (frm\<lparr>m_resultFlags := fl\<rparr>) = frame_ok n0 n L frm"
  "frame_ok n0 n L (frm\<lparr>m_bindidx := b\<rparr>) = frame_ok n0 n L frm"
  "frame_ok n0 n L (frm\<lparr>m_hintidx := h\<rparr>) = frame_ok n0 n L frm"
  by (simp_all add: frame_ok_def)

lemma frame_ok_lastResult:
  "frame_ok n0 n L frm \<Longrightarrow> ref_ok n r \<Longrightarrow> (\<And>a. r = Some a \<Longrightarrow> n0 \<le> a) \<Longrightarrow>
   frame_ok n0 n L (frm\<lparr>m_resultFlags := fl, m_lastResult := r\<rparr>)"
  by (simp add: frame_ok_def)

lemma vm_at_joined:
  assumes at: "vm_at I p0 i p" and "vm_top p = Inr frm" and "vm_deref p (m_lastResult frm) = Inr x"
    and "vm_deref p r = Inr y" and "vts_append x y = Inr z"
  shows "vm_at I p0 i ((set_top (frm\<lparr>m_resultFlags := fl\<rparr>) p)
    \<lparr>m_heap := (m_heap p)[the (m_lastResult frm) := z]\<rparr>)"
proof (rule vm_at_heap_update)
  show "vts_wf z" using assms(3-5) vm_deref_wf [OF at] by (blast intro: vts_append_wf)
  show "length (m_heap p0) \<le> the (m_lastResult frm)"
    using vm_at_frame [OF assms(1,2)] assms(3)
    by (auto simp: vm_deref_def frame_ok_def split: option.splits)
qed (simp_all add: vm_at_set_top [OF at] vm_at_frame [OF assms(1,2)])

lemma keeps_initResult:
  assumes at: "vm_at I p0 i p" and r: "ref_ok (length (m_heap p)) r"
    and old: "\<And>a. r = Some a \<Longrightarrow> length (m_heap p0) \<le> a"
  shows "vm_keeps I p0 i (initResult r p)"
proof -
  have chk: "safe_result (checkConstraint flag msg c r p)" if "\<And>s. safe_result (c s)" for flag msg c
    using r that unfolding checkConstraint_def
    by (auto intro!: safe_result_rbind safe_result_deref split: option.splits)
  have set: "vm_at I p0 i (set_top (frm\<lparr>m_resultFlags := fl, m_lastResult := r\<rparr>) p)"
    if "vm_top p = Inr frm" for frm fl
    by (intro vm_at_set_top [OF at] frame_ok_lastResult vm_at_frame [OF at that] r old)
  show ?thesis
    unfolding initResult_def Let_def
    by (rule vm_post_top [OF at], rule vm_post_safe [OF at], rule chk, simp,
        rule vm_post_safe [OF at], rule chk, simp)
       (use r set in \<open>auto intro!: vm_post_safe [OF at] safe_result_deref at vm_at_joined
         vm_at_raised [OF at] frame_refs(3) [OF at]\<close>)
qed

section \<open>Database calls keep the invariant\<close>

lemma db_res_ok_pair: "db_res_ok I (r, db) \<longleftrightarrow> I db \<and> safe_result r"
  by (simp add: db_res_ok_def safe_result_def)

lemma db_map_ok:
  assumes "\<And>i db. I db \<Longrightarrow> db_res_ok I (f i db)"
  shows "I db \<Longrightarrow> db_res_ok I (db_map f is db)"
proof (induction "is" arbitrary: db)
  case (Cons i "is")
  obtain r db' where f: "f i db = (r, db')" by fastforce
  then have "I db'" "safe_result r" using assms [OF Cons.prems, of i] by (auto simp: db_res_ok_pair)
  then show ?case
    using f Cons.IH [of db'] by (auto simp: db_res_ok_pair split: sum.splits prod.splits)
qed (simp add: db_res_ok_pair)

lemma db_closed_map:
  assumes "db_closed ops I" and "I db"
  shows "db_res_ok I (db_map (db_get ops) is db)" "db_res_ok I (db_map (db_columnName ops) is db)"
  using assms by (auto simp: db_closed_def intro!: db_map_ok)

lemma fetchRows_ok:
  "fetchRows ops n rt db = Some y \<Longrightarrow> db_closed ops I \<Longrightarrow> I db \<Longrightarrow> vts_wf rt \<Longrightarrow>
   db_res_ok I y \<and> (\<forall>s. fst y = Inr s \<longrightarrow> vts_wf s)"
proof (induction rule: fetchRows.raw_induct [rotated, consumes 1, case_names step])
  case (step rec ops n rt db y)
  obtain cols db1 where m: "db_map (db_get ops) [1..<Suc n] db = (cols, db1)" by fastforce
  with step have ok1: "I db1" "safe_result cols"
    using db_closed_map(1) [of ops I db "[1..<Suc n]"] by (auto simp: db_res_ok_pair)
  obtain nx db2 where nx: "db_next ops db1 = (nx, db2)" by fastforce
  with step ok1 have ok2: "I db2" "safe_result nx"
    using db_res_ok_pair [of I nx db2] unfolding db_closed_def by metis+
  show ?case
    using step ok1 ok2 m nx
    by (cases y) (auto simp del: upt_Suc simp: db_res_ok_pair
        dest: vts_push_wf vts_no_internal(5) split: sum.splits if_splits)
qed

lemma fetchDatabaseResult_ok:
  assumes "fetchDatabaseResult ops n db = Some (r, db')" and "db_closed ops I" and "I db"
  shows "I db' \<and> safe_result r \<and> (\<forall>s. r = Inr s \<longrightarrow> vts_wf s)"
proof -
  obtain cns db1 where m: "db_map (db_columnName ops) [1..<Suc n] db = (cns, db1)" by fastforce
  with assms have ok1: "I db1" "safe_result cns"
    using db_closed_map(2) [of ops I db "[1..<Suc n]"] by (auto simp: db_res_ok_pair)
  obtain h db2 where h: "db_hasResult ops db1 = (h, db2)" by fastforce
  with assms ok1 have ok2: "I db2" "safe_result h"
    using db_res_ok_pair [of I h db2] unfolding db_closed_def by metis+
  show ?thesis
    using assms m h ok1 ok2
    by (auto simp del: upt_Suc simp: fetchDatabaseResult_def Let_def db_res_ok_pair
        split: sum.splits if_splits dest: fetchRows_ok)
qed

lemma keeps_setDatabaseError:
  assumes "db_closed ops I" and "vm_at I p0 i p"
  shows "vm_keeps I p0 i (setDatabaseError ops p)"
  unfolding setDatabaseError_def Let_def
proof (rule vm_post_db [OF assms(2)])
  show "\<And>db. I db \<Longrightarrow> db_res_ok I (db_getLastError ops db)"
    using assms(1) by (simp add: db_closed_def)
qed (auto intro!: vm_post_top vm_at_raised split: option.splits)

lemma keeps_db_return_error:
  "db_closed ops I \<Longrightarrow> vm_at I p0 i p \<Longrightarrow> vm_post N (vm_done I p0) (vm_raised I) (db_return_error ops p)"
  unfolding db_return_error_def
  by (rule vm_post_bind) (auto intro: vm_post_mono [OF keeps_setDatabaseError] simp: vm_done_def vm_at_def)

section \<open>Every step keeps the invariant\<close>

text \<open>The instruction at the instruction pointer, while it is executed.\<close>

definition executing ::
  "('db \<Rightarrow> bool) \<Rightarrow> 'db program_instance \<Rightarrow> opcode \<Rightarrow> 32 word \<Rightarrow> 'db program_instance \<Rightarrow> bool" where
  "executing I p0 opc instr p =
    (vm_at I p0 (m_ip p) p \<and> m_ip p < length (code (m_program p0))
     \<and> code (m_program p) ! m_ip p = instr \<and> opCode instr = opc)"

lemma executing_at: "executing I p0 opc instr p \<Longrightarrow> vm_at I p0 (m_ip p) p"
  by (simp add: executing_def)

lemma executing_less: "executing I p0 opc instr p \<Longrightarrow> m_ip p < length (code (m_program p0))"
  by (simp add: executing_def)

lemmas executing_next = vm_at_next [OF _ executing_less] steps_then_next [OF executing_less]

lemma name_to_index_cases:
  assumes "(a, b) \<in> set name_to_index"
  shows "(c, a) \<notin> set name_to_index" "b \<in> set opcodes"
  using assms by (auto simp: name_to_index_def opcodes_def)

lemma executing_rewritten:
  assumes ex: "executing I p0 opc instr p" and pair: "(opc, idxop) \<in> set name_to_index"
    and w: "instruction (condCode instr) idxop (of_nat n) = Inr w"
  shows "vm_at I p0 (m_ip p)
    (p\<lparr>m_program := (m_program p)\<lparr>code := (code (m_program p))[m_ip p := w]\<rparr>\<rparr>)"
proof -
  let ?old = "code (m_program p0)" and ?c = "code (m_program p)" and ?i = "m_ip p"
  note at = executing_at [OF ex]
  have evo: "list_all2 instr_evolves ?old ?c" and prg: "m_program p = (m_program p0)\<lparr>code := ?c\<rparr>"
    using at unfolding vm_at_def vm_core_def by blast+
  have i: "?i < length ?old" "?c ! ?i = instr" "opCode instr = opc"
    using ex by (simp_all add: executing_def)
  have "instr_evolves (?old ! ?i) instr"
    using list_all2_nthD [OF evo i(1)] i(2) by simp
  then have same: "?old ! ?i = instr"
    using name_to_index_cases(1) [OF pair] i(3) by (auto simp: instr_evolves_def)
  have arg: "unat (of_nat n :: 32 word) \<le> Max_ArgumentIndex"
    using w by (auto simp: instruction_def split: if_splits)
  have "opcode_value idxop < 64" "opcode_of_value (opcode_value idxop) = idxop"
    using name_to_index_cases(2) [OF pair] opcode_value_named opcode_of_value_named by fastforce+
  then obtain w' where "instruction (condCode instr) idxop (of_nat n) = Inr w'"
      "condCode w' = condCode instr" "opCode w' = idxop"
    by (rule instruction_decoded [OF _ _ arg])
  then have "instr_evolves instr w"
    using w pair i(3) by (simp add: instr_evolves_def)
  then have "list_all2 instr_evolves ?old (?c[?i := w])"
    using list_all2_update_cong [OF evo, of "?old ! ?i" w ?i] same list_update_id by metis
  moreover have "(m_program p)\<lparr>code := c\<rparr> = (m_program p0)\<lparr>code := c\<rparr>" for c
    by (subst prg) simp
  ultimately show ?thesis
    using at by (simp add: vm_at_def vm_core_def)
qed

lemma vm_post_by_name:
  assumes ex: "executing I p0 opc instr p" and pair: "(opc, idxop) \<in> set name_to_index"
    and sel: "\<And>frm. vm_top p = Inr frm \<Longrightarrow> ref_ok (length (m_heap p)) (sel frm)"
    and k: "\<And>n p'. vm_at I p0 (m_ip p) p' \<Longrightarrow> vm_post N D (vm_raised I) (k n p')"
  shows "vm_post N D (vm_raised I) (by_name sel idxop instr argidx p k)"
proof -
  note at = executing_at [OF ex]
  have col: "safe_result (rbind (vm_top p) (\<lambda>frm. columnIndex (sel frm) argidx p))"
    using sel unfolding columnIndex_def
    by (intro safe_result_rbind safe_result_top [OF at])
      (auto intro!: safe_result_rbind safe_result_deref)
  have rew: "safe_result (rbind (instruction cc opc' a) (program_code_set cd ad))"
    for cc opc' a cd ad
    by (intro safe_result_rbind) (auto simp: instruction_def program_code_set_def)
  show ?thesis
    unfolding by_name_def rewrite_instruction_def
    by (rule vm_post_safe [OF at col], rule vm_post_bind, rule vm_post_safe [OF at rew])
       (auto simp: rbind_eq_Inr_iff program_code_set_Inr intro!: k executing_rewritten [OF ex pair])
qed

lemma steps_push_argument:
  "vm_at I p0 i p \<Longrightarrow> i < length (code (m_program p0)) \<Longrightarrow> safe_result r \<Longrightarrow>
   vm_steps I p0 (push_argument r p)"
  unfolding push_argument_def sf_push_def by (auto intro!: vm_post_safe vm_at_next)

lemma steps_bind_value:
  assumes "db_closed ops I" and at: "vm_at I p0 i p" and "i < length (code (m_program p0))"
    and "safe_result r"
  shows "vm_steps I p0 (bind_value ops r p)"
proof -
  have "db_res_ok I (db_bind ops k v db)" if "I db" for k v db
    using assms(1) that by (simp add: db_closed_def)
  then show ?thesis
    unfolding bind_value_def Let_def
    by (intro vm_post_top [OF at] vm_post_safe [OF at] vm_post_db [of I p0 i] assms(4))
       (auto intro!: vm_at_set_top [OF at] vm_at_next keeps_db_return_error assms)
qed

lemma steps_end_statement:
  "vm_at I p0 i p \<Longrightarrow> i < length (code (m_program p0)) \<Longrightarrow> vm_steps I p0 (end_statement p)"
  unfolding end_statement_def
  by (auto intro!: vm_post_top vm_at_next vm_at_set_top)

lemma steps_select_set:
  assumes at: "vm_at I p0 i p" and "i < length (code (m_program p0))"
    and r: "ref_ok (length (m_heap p)) r"
  shows "vm_steps I p0 (select_set r p)"
  unfolding select_set_def using assms
  by (auto intro!: vm_post_top [OF at] vm_post_safe [OF at] safe_result_rbind safe_result_deref
      vm_at_raised [OF at] vm_at_next vm_at_set_top simp: frame_ok_def)

lemma steps_others:
  assumes ex: "executing I p0 opc instr p" and "exec_others opc argidx p = Some r"
  shows "vm_steps I p0 r"
proof -
  note at = executing_at [OF ex]
  have "vm_inv I p0 p" using at executing_less [OF ex] by (simp add: vm_at_def vm_inv_def)
  moreover have "vm_inv I p0 (next_ip p)" by (rule vm_at_next [OF at executing_less [OF ex]])
  moreover have "vm_inv I p0 (next_ip (set_top (frm\<lparr>m_resultFlags := fl\<rparr>) p))"
    if "frame_in p0 p frm" for frm fl
    using that by (intro vm_at_next [OF _ executing_less [OF ex]] vm_at_set_top [OF at]) simp
  ultimately show ?thesis
    using assms(2) unfolding exec_others_def
    by (auto intro!: vm_post_top [OF at] split: opcode.split)
qed

lemma steps_fetch_result:
  assumes "db_closed ops I" and at: "vm_at I p0 i p" and "fetch_result ops n p = Some r"
  shows "vm_keeps I p0 i r"
proof -
  obtain db where db: "m_db_stm p = Some db" "I db"
    using at by (auto simp: vm_at_def vm_core_def)
  obtain s db' where f: "fetchDatabaseResult ops n db = Some (s, db')"
    using assms(3) db by (auto simp: fetch_result_def split: option.splits)
  note ok = fetchDatabaseResult_ok [OF f assms(1) db(2)]
  then have at': "vm_at I p0 i (p\<lparr>m_db_stm := Some db'\<rparr>)"
    using at by (simp add: vm_at_def vm_core_def)
  have "length (m_heap p0) \<le> length (m_heap p)"
    using at by (simp add: vm_at_def vm_core_def)
  then show ?thesis
    using assms(3) ok at' vm_at_heap_push [OF at']
    by (auto simp: fetch_result_def db(1) f Let_def intro!: vm_post_safe [OF at'] keeps_initResult)
qed

lemma steps_dbstm_exec:
  assumes "db_closed ops I" and at: "vm_at I p0 i p" and i: "i < length (code (m_program p0))"
    and r: "exec_dbstm_exec ops p = Some r"
  shows "vm_steps I p0 r"
proof -
  let ?q = "vm_db (db_execute ops) p (\<lambda>ok p. if ok then Next p else db_return_error ops p)"
  have keeps: "vm_keeps I p0 i ?q"
    using assms(1) by (intro vm_post_db [OF at]) (auto simp: db_closed_def keeps_db_return_error [OF assms(1)])
  show ?thesis
  proof (cases ?q)
    case (Next p1)
    then have at1: "vm_at I p0 i p1" using keeps by simp
    then obtain db where db: "m_db_stm p1 = Some db" "I db"
      by (auto simp: vm_at_def vm_core_def)
    obtain n db' where n: "db_nofColumns ops db = (n, db')" by fastforce
    then have ok: "I db'" "safe_result n"
      using assms(1) db(2) db_res_ok_pair [of I n db'] unfolding db_closed_def by metis+
    let ?p2 = "p1\<lparr>m_db_stm := Some db'\<rparr>"
    have at2: "vm_at I p0 i ?p2" using at1 ok by (simp add: vm_at_def vm_core_def)
    have "vm_steps I p0 (vm_bind x end_statement)" if "fetch_result ops k ?p2 = Some x" for k x
      using steps_fetch_result [OF assms(1) at2 that]
      by (auto intro!: vm_post_bind steps_end_statement i elim: vm_post_mono)
    then show ?thesis
      using r Next db n ok at2 i
      by (auto simp: exec_dbstm_exec_def Let_def vm_raised_def safe_result_def
          intro!: steps_end_statement split: sum.splits if_splits)
  next
    case (Done b p1)
    with keeps r show ?thesis by (auto simp: exec_dbstm_exec_def)
  next
    case (Raise e p1)
    with keeps r show ?thesis by (auto simp: exec_dbstm_exec_def)
  qed
qed

lemma steps_dbstm:
  assumes ex: "executing I p0 opc instr p" and cl: "db_closed ops I"
    and r: "exec_dbstm ops opc argidx instr p = Some r"
  shows "vm_steps I p0 r"
proof -
  note at = executing_at [OF ex] and i = executing_less [OF ex]
  note bind = steps_bind_value [OF cl _ i]
  show ?thesis
  proof (cases opc)
    case Op_DBSTM_START
    have "vm_steps I p0 (vm_db (db_start ops stm) (set_top (frm\<lparr>m_bindidx := 0, m_hintidx := 0\<rparr>) p)
        (\<lambda>ok p. if ok then Next (next_ip p) else db_return_error ops p))"
      if "frame_in p0 p frm" for frm stm
      using cl that by (intro vm_post_db [OF vm_at_set_top [OF at]])
        (auto simp: db_closed_def intro: vm_at_next [OF _ i] keeps_db_return_error [OF cl])
    then show ?thesis
      using r Op_DBSTM_START
      by (auto simp: exec_dbstm_def Let_def
          intro!: vm_post_top [OF at] vm_post_safe [of I p0 "m_ip p"] vm_at_set_top [OF at]
            safe_arguments)
  next
    case Op_DBSTM_BIND_SEL_NAM
    then show ?thesis
      using r ex frame_refs [OF at]
      by (auto simp: exec_dbstm_def name_to_index_def
          intro!: vm_post_by_name [OF ex] bind safe_arguments)
  next
    case Op_DBSTM_BIND_ITR_NAM
    then show ?thesis
      using r ex frame_refs [OF at]
      by (auto simp: exec_dbstm_def name_to_index_def
          intro!: vm_post_by_name [OF ex] bind safe_arguments)
  next
    case Op_DBSTM_HINT
    then show ?thesis
      using r by (auto simp: exec_dbstm_def intro!: vm_post_top [OF at] vm_at_next [OF _ i] vm_at_set_top [OF at])
  next
    case Op_DBSTM_EXEC
    then show ?thesis using r steps_dbstm_exec [OF cl at i] by (simp add: exec_dbstm_def)
  qed (use r at bind steps_others [OF ex] in \<open>auto simp: exec_dbstm_def intro!: safe_arguments vm_at_raised [OF at]\<close>)
qed

lemma in_set_tl: "x \<in> set (tl xs) \<Longrightarrow> x \<in> set xs"
  by (cases xs) simp_all

lemma steps_scope:
  assumes ex: "executing I p0 opc instr p" and cl: "db_closed ops I"
    and r: "exec_scope ops opc argidx instr p = Some r"
  shows "vm_steps I p0 r"
proof -
  note at = executing_at [OF ex] and i = executing_less [OF ex]
  obtain frm where top: "vm_top p = Inr frm" by (rule vm_at_top [OF at])
  show ?thesis
  proof (cases opc)
    case Op_SCOPE_OPEN
    have "vm_top (next_ip p) = vm_top p" by (simp add: vm_top_def next_ip_def)
    with Op_SCOPE_OPEN r at i vm_at_frame [OF at top] top show ?thesis
      by (auto simp: exec_scope_def vm_get_def vm_inv_def vm_at_def vm_core_def next_ip_def)
  next
    case Op_SCOPE_CLOSE
    with r at i top show ?thesis
      by (auto dest!: in_set_tl simp: exec_scope_def vm_get_def vm_inv_def vm_at_def vm_core_def next_ip_def
          vm_raised_def Let_def)
  qed (use r steps_dbstm [OF ex cl] in \<open>auto simp: exec_scope_def\<close>)
qed

lemma steps_sub:
  assumes ex: "executing I p0 opc instr p" and cl: "db_closed ops I"
    and r: "exec_sub ops opc argidx instr p = Some r"
  shows "vm_steps I p0 r"
proof -
  note at = executing_at [OF ex] and i = executing_less [OF ex]
  note push = steps_push_argument [OF _ i]
  show ?thesis
  proof (cases opc)
    case Op_SUB_FRAME_OPEN
    with r show ?thesis
      by (auto simp: exec_sub_def intro!: vm_post_safe [OF at] vm_at_next [OF _ i] at)
  next
    case Op_SUB_ARG_SEL_NAM
    then show ?thesis
      using r ex frame_refs [OF at]
      by (auto simp: exec_sub_def name_to_index_def
          intro!: vm_post_by_name [OF ex] push safe_arguments)
  next
    case Op_SUB_ARG_ITR_NAM
    then show ?thesis
      using r ex frame_refs [OF at]
      by (auto simp: exec_sub_def name_to_index_def
          intro!: vm_post_by_name [OF ex] push safe_arguments)
  next
    case Op_SUB_FRAME_CLOSE
    show ?thesis
    proof (cases "sf_getParameters (m_subroutine_frame p)")
      case (Inl e)
      then have "e \<notin> vm_internal_errors"
        by (auto simp: sf_getParameters_def vts_push_def split: if_splits)
      with Inl Op_SUB_FRAME_CLOSE r at show ?thesis
        by (auto simp: exec_sub_def Let_def vm_get_def next_ip_def vm_raised_def vm_at_def vm_core_def)
    next
      case (Inr s)
      from vm_at_heap_push [OF at sf_getParameters_wf [OF Inr]] Inr Op_SUB_FRAME_CLOSE r i
      show ?thesis
        by (auto simp: exec_sub_def Let_def vm_get_def next_ip_def vm_inv_def vm_at_def vm_core_def)
    qed
  qed (use r at steps_scope [OF ex cl] in
      \<open>auto simp: exec_sub_def intro!: push safe_arguments vm_at_raised [OF at]\<close>)
qed

lemma steps_iter:
  assumes ex: "executing I p0 opc instr p" and cl: "db_closed ops I"
    and r: "exec_iter ops opc argidx instr p = Some r"
  shows "vm_steps I p0 r"
proof -
  note at = executing_at [OF ex] and i = executing_less [OF ex]
  note nxt = steps_then_next [OF i] and refs = frame_refs [OF at]
  show ?thesis
  proof (cases opc)
    case Op_OPEN_ITER_LAST_RESULT
    with r refs show ?thesis
      by (auto simp: exec_iter_def intro!: vm_post_top [OF at] nxt keeps_initValueIteraror at
          vm_at_heap_push)
  next
    case Op_NEXT
    have "safe_result (iter_target p (m_valueIter frm))" if "vm_top p = Inr frm" for frm
      using refs(2,6) [OF that] by (auto simp: iter_target_def safe_result_deref split: option.splits)
    with Op_NEXT r show ?thesis
      by (auto simp: exec_iter_def Let_def frame_ok_def intro!: vm_post_top [OF at]
          vm_post_safe [OF at] vm_at_next [OF _ i] vm_at_set_top at)
  qed (use r at keptResult_ref [OF at] tupleSet_ref [OF at] steps_sub [OF ex cl] in
      \<open>auto simp: exec_iter_def intro!: vm_post_safe [OF at] nxt keeps_initValueIteraror
         safe_arguments vm_at_raised [OF at]\<close>)
qed

lemma steps_assign:
  assumes ex: "executing I p0 opc instr p" and cl: "db_closed ops I"
    and r: "exec_assign ops opc argidx instr p = Some r"
  shows "vm_steps I p0 r"
proof -
  note at = executing_at [OF ex] and i = executing_less [OF ex]
  note sel = steps_select_set [OF at i] and refs = frame_refs [OF at]
  show ?thesis
  proof (cases opc)
    case Op_KEEP_RESULT
    with r show ?thesis
      by (auto simp: exec_assign_def frame_ok_def intro!: vm_post_top [OF at] vm_at_next [OF _ i]
          vm_at_set_top [OF at])
  next
    case Op_SELECT_PARAMETER
    with r show ?thesis
      by (auto simp: exec_assign_def frame_ok_def intro!: vm_post_top [OF at] vm_at_next [OF _ i]
          vm_at_set_top [OF at] vm_at_raised [OF at])
  next
    case Op_SELECT_LAST_RESULT
    with r sel refs(3) show ?thesis
      by (auto simp: exec_assign_def intro!: vm_post_top [OF at] vm_at_raised [OF at])
  next
    case Op_SELECT_KEPT_RESULT
    with r sel keptResult_ref [OF at] show ?thesis
      by (auto simp: exec_assign_def intro!: vm_post_safe [OF at] safe_arguments at)
  qed (use r steps_iter [OF ex cl] in \<open>auto simp: exec_assign_def\<close>)
qed

lemma steps_output:
  assumes ex: "executing I p0 opc instr p" and cl: "db_closed ops I"
    and r: "exec_output ops opc argidx instr p = Some r"
  shows "vm_steps I p0 r"
proof -
  note at = executing_at [OF ex] and i = executing_less [OF ex]
  note nxt = steps_then_next [OF i] and refs = frame_refs [OF at]
  show ?thesis
  proof (cases opc)
    case Op_OUTPUT_SEL_NAM
    then show ?thesis
      using r ex refs
      by (auto simp: exec_output_def name_to_index_def
          intro!: vm_post_by_name [OF ex] nxt keeps_addValue safe_arguments)
  next
    case Op_OUTPUT_ITR_NAM
    then show ?thesis
      using r ex refs
      by (auto simp: exec_output_def name_to_index_def
          intro!: vm_post_by_name [OF ex] nxt keeps_addValue safe_arguments)
  next
    case Op_OUTPUT_ADD_SINK
    then show ?thesis
      using r by (auto simp: exec_output_def output_addOutputSink_def
          intro!: vm_at_next [OF _ i] vm_at_output at)
  qed (use r at steps_assign [OF ex cl] in
      \<open>auto simp: exec_output_def intro!: nxt keeps_addValue keeps_output_add
         keeps_printIteratorColumn vm_post_safe [OF at] safe_arguments vm_at_raised [OF at]\<close>)
qed

lemma steps_return:
  assumes at: "vm_at I p0 i p" and r: "exec_return p = r"
  shows "vm_steps I p0 r"
proof -
  obtain frm where top: "vm_top p = Inr frm" and st: "m_stack p = frm # tl (m_stack p)"
    using vm_at_top [OF at] by blast
  note ok = vm_at_frame [OF at top]
  let ?p = "p\<lparr>m_ip := m_return_ip frm, m_stack := tl (m_stack p)\<rparr>"
  have core: "vm_core I p0 ?p"
    using at by (auto dest: in_set_tl simp: vm_at_def vm_core_def)
  show ?thesis
  proof (cases "tl (m_stack p) = []")
    case True
    with r top core show ?thesis by (auto simp: exec_return_def vm_get_def vm_done_def)
  next
    case False
    then have at': "vm_at I p0 (m_return_ip frm) ?p" using core by (simp add: vm_at_def)
    have "vm_keeps I p0 (m_return_ip frm) (initResult (m_lastResult frm) ?p)"
      using ok by (intro keeps_initResult [OF at']) (auto simp: frame_ok_def)
    then have "vm_steps I p0 (initResult (m_lastResult frm) ?p)"
      using ok by (elim vm_post_mono) (auto simp: vm_at_def vm_inv_def frame_ok_def)
    with r top False show ?thesis by (auto simp: exec_return_def vm_get_def)
  qed
qed

lemma steps_control:
  assumes ex: "executing I p0 opc instr p" and cl: "db_closed ops I"
    and r: "exec_control ops opc argidx instr p = Some r"
  shows "vm_steps I p0 r"
proof -
  note at = executing_at [OF ex]
  have len: "length (code (m_program p)) = length (code (m_program p0))"
    using at unfolding vm_at_def vm_core_def by (metis list_all2_lengthD)
  show ?thesis
  proof (cases opc)
    case Op_EXIT
    with r at show ?thesis by (auto simp: exec_control_def vm_done_def vm_at_def vm_core_def)
  next
    case Op_GOTO
    with r at len show ?thesis
      by (auto simp: exec_control_def vm_raised_def vm_at_def vm_inv_def vm_core_def split: if_splits)
  next
    case Op_RETURN
    with r steps_return [OF at refl] show ?thesis by (auto simp: exec_control_def)
  qed (use r steps_output [OF ex cl] in \<open>auto simp: exec_control_def\<close>)
qed

lemma step_keeps_inv:
  assumes "db_closed ops I" and inv: "vm_inv I p0 p" and r: "step ops p = Some r"
  shows "vm_steps I p0 r"
proof (cases "m_ip p < length (code (m_program p))")
  case True
  let ?i = "code (m_program p) ! m_ip p"
  have ex: "executing I p0 (opCode ?i) ?i p"
    using inv True by (auto simp: executing_def vm_inv_def vm_at_def vm_core_def list_all2_lengthD)
  have "vm_inv I p0 (next_ip p)"
    by (rule vm_at_next [OF executing_at [OF ex] executing_less [OF ex]])
  then show ?thesis
    using r True steps_control [OF ex assms(1)]
    by (auto simp: step_def program_code_get_Inr split: if_splits)
next
  case False
  with r inv show ?thesis
    by (auto simp: step_def program_code_get_Inr cond_holds_def exec_control_def vm_done_def
        vm_inv_def vm_core_def)
qed

section \<open>Reachable states\<close>

inductive vm_reach :: "'db exec_ops \<Rightarrow> 'db program_instance \<Rightarrow> 'db program_instance \<Rightarrow> bool"
  for ops p0 where
  start: "vm_reach ops p0 p0"
| turn: "vm_reach ops p0 p \<Longrightarrow> step ops p = Some (Next p') \<Longrightarrow> vm_reach ops p0 p'"

text \<open>The tuple set table of the program refers to the input's tuple sets.\<close>

definition vm_input_ok :: "program_image \<Rightarrow> value_tuple_set list \<Rightarrow> bool" where
  "vm_input_ok prg tuples =
    ((\<forall>r \<in> set (tuplesets prg). ref_ok (length tuples) r) \<and> (\<forall>s \<in> set tuples. vts_wf s))"

lemma instr_evolves_refl [simp]: "instr_evolves w w"
  by (simp add: instr_evolves_def)

lemma vm_inv_new:
  "I db \<Longrightarrow> vm_input_ok prg tuples \<Longrightarrow>
   vm_inv I (program_instance_new prg tuples (Some db)) (program_instance_new prg tuples (Some db))"
  by (auto simp: vm_inv_def vm_core_def program_instance_new_def vm_input_ok_def output_new_def
      output_addOutputSink_def list_all2_same)

lemma vm_reach_inv:
  "vm_reach ops p0 p \<Longrightarrow> db_closed ops I \<Longrightarrow> vm_inv I p0 p0 \<Longrightarrow> vm_inv I p0 p"
proof (induction rule: vm_reach.induct)
  case (turn p p')
  then show ?case using step_keeps_inv [of ops I p0 p "Next p'"] by simp
qed

lemma execute_loop_post:
  "execute_loop ops p = Some r \<Longrightarrow> db_closed ops I \<Longrightarrow> vm_inv I p0 p \<Longrightarrow>
   vm_post (\<lambda>_. False) (vm_done I p0) (vm_raised I) r"
proof (induction rule: execute_loop.raw_induct [rotated, consumes 1, case_names turn])
  case (turn rec ops p r)
  from turn.hyps obtain s where s: "step ops p = Some s" by (auto split: option.splits)
  from step_keeps_inv [OF turn.prems s] turn show ?case
    by (cases s) (auto simp: s)
qed

section \<open>A database for examples\<close>

text \<open>A cursor over the rows of one table with the columns \<open>cols\<close>; the state is the list of the
  rows that are left.\<close>

definition table_db :: "string list \<Rightarrow> variant list list exec_ops" where
  "table_db cols =
    \<lparr>db_databaseID = (\<lambda>_. ''table''), db_start = (\<lambda>_ db. (Inr True, db)),
     db_bind = (\<lambda>_ _ db. (Inr True, db)), db_execute = (\<lambda>db. (Inr True, db)),
     db_nofColumns = (\<lambda>db. (Inr (length cols), db)),
     db_columnName = (\<lambda>i db. (Inr (Some (cols ! (i - 1))), db)),
     db_get = (\<lambda>i db. (case db of [] \<Rightarrow> Inl (RuntimeError ''no row'')
        | row # _ \<Rightarrow> if 0 < i \<and> i \<le> length row then Inr (row ! (i - 1))
            else Inl (RuntimeError ''column index''), db)),
     db_next = (\<lambda>db. (Inr (tl db \<noteq> []), tl db)),
     db_hasResult = (\<lambda>db. (Inr (db \<noteq> []), db)),
     db_getLastError = (\<lambda>db. (Inr (Some (databaseError ''SYNTAX'' 1 ''failed'')), db))\<rparr>"

lemma table_db_closed: "db_closed (table_db cols) (\<lambda>_. True)"
  by (auto simp: db_closed_def table_db_def db_res_ok_def split: list.splits)

definition example_image :: "program_code \<Rightarrow> program_image" where
  "example_image c =
    \<lparr>code = c, constants = [V_Bool True], colnames = [''id''], tagnames = [''row''],
     resultnames = [], statements = [''SELECT id FROM t''], errorhints = [], signatures = [],
     tuplesets = [Some 0]\<rparr>"

definition example_input :: value_tuple_set where
  "example_input = \<lparr>vts_colnames = [''id''], vts_ar = [V_Int 5, V_Int 7]\<rparr>"

lemma example_input_ok: "vm_input_ok (example_image c) [example_input]"
  by (simp add: vm_input_ok_def example_image_def example_input_def vts_wf_def)

text \<open>The instruction \<open>OPEN_ITER_TUPLESET 0\<close>.\<close>

abbreviation example_open :: "32 word" where
  "example_open \<equiv> 0x64000000"

lemma example_open_decoded:
  "opCode example_open = Op_OPEN_ITER_TUPLESET" "condCode example_open = Co_ALWAYS"
  "argumentIndex example_open = 0"
  by code_simp+

abbreviation example_vm :: "program_code \<Rightarrow> variant list list program_instance" where
  "example_vm c \<equiv> program_instance_new (example_image c) [example_input] (Some [])"

lemma example_reach:
  "\<exists>p. vm_reach (table_db [''id'']) (example_vm [example_open]) p \<and> m_ip p = 1 \<and> m_cond p"
proof (rule exI, rule conjI)
  show "vm_reach (table_db [''id'']) (example_vm [example_open])
    ((set_top ((stack_element_new 0 None)\<lparr>m_valueSet := Some 0,
        m_valueIter := \<lparr>it_idx = 0, it_ref = Some 0\<rparr>, m_valueEnd := \<lparr>it_idx = 2, it_ref = Some 0\<rparr>\<rparr>)
       (example_vm [example_open]))\<lparr>m_cond := True, m_ip := 1\<rparr>)"
    by (rule vm_reach.turn [OF vm_reach.start])
       (simp add: step_def program_instance_new_def example_image_def program_code_get_Inr
         example_open_decoded cond_holds_def exec_control_def exec_output_def exec_assign_def
         exec_iter_def tupleSet_def vm_get_def initValueIteraror_def vm_top_def vm_deref_def
         vm_bind_def example_input_def iter_begin_def iter_end_def set_top_def next_ip_def)
qed simp

section \<open>Properties\<close>

text \<open>C6: in every state the virtual machine can reach, whatever the program, its input and the
  database do, the execution stack and the output sinks are not empty, the instruction pointer is
  at most one past the end of the program plus one, and the next instruction never dereferences a
  dangling tuple set pointer nor takes the back of an empty stack or sink vector.\<close>
theorem vm_reachable_safe:
  assumes "db_closed ops I" and "I db" and "vm_input_ok prg tuples"
    and "vm_reach ops (program_instance_new prg tuples (Some db)) p"
  shows "m_stack p \<noteq> [] \<and> m_output p \<noteq> [] \<and> m_ip p \<le> length (code prg) + 1 \<and>
    (case step ops p of Some (Raise e q) \<Rightarrow> e \<notin> vm_internal_errors | _ \<Rightarrow> True)"
proof -
  have inv: "vm_inv I (program_instance_new prg tuples (Some db)) p"
    by (rule vm_reach_inv [OF assms(4,1) vm_inv_new [of I db, OF assms(2,3)]])
  then have "m_stack p \<noteq> [] \<and> m_output p \<noteq> [] \<and> m_ip p \<le> length (code prg) + 1"
    by (simp add: vm_inv_def vm_core_def program_instance_new_def)
  moreover have "case step ops p of Some (Raise e q) \<Rightarrow> e \<notin> vm_internal_errors | _ \<Rightarrow> True"
    using step_keeps_inv [OF assms(1) inv]
    by (auto simp: vm_raised_def split: option.split vm_result.split)
  ultimately show ?thesis by blast
qed

theorem vm_reachable_safe_witness:
  "\<exists>p. vm_reach (table_db [''id'']) (example_vm [example_open]) p \<and> m_ip p = 1 \<and> m_cond p
    \<and> m_stack p \<noteq> []"
  using example_reach vm_reachable_safe [OF table_db_closed TrueI example_input_ok] by blast

text \<open>A run changes the program only by replacing name addressed instructions with their
  indexed form under the same condition, leaves every other table of the program alone, and never
  modifies a tuple set of the transaction input, although results are appended in place.\<close>
theorem vm_input_preserved:
  assumes "db_closed ops I" and "I db" and "vm_input_ok prg tuples"
    and "vm_reach ops (program_instance_new prg tuples (Some db)) p"
  shows "m_program p = prg\<lparr>code := code (m_program p)\<rparr>
    \<and> list_all2 instr_evolves (code prg) (code (m_program p))
    \<and> take (length tuples) (m_heap p) = tuples"
  using vm_reach_inv [OF assms(4,1) vm_inv_new [of I db, OF assms(2,3)]]
  unfolding vm_inv_def vm_core_def by (simp add: program_instance_new_def)

theorem vm_input_preserved_witness:
  "\<exists>p. vm_reach (table_db [''id'']) (example_vm [example_open]) p \<and> m_ip p = 1
    \<and> take 1 (m_heap p) = [example_input]"
  using example_reach vm_input_preserved [OF table_db_closed TrueI example_input_ok] by fastforce


lemma example_exit:
  "execute (table_db [''id'']) (example_vm []) =
    Some (Done False ((example_vm [])\<lparr>m_lastError := databaseError ''VM'' 0 ''aborted program execution''\<rparr>))"
  by (subst execute_def, subst execute_loop.simps)
     (simp add: step_def program_instance_new_def example_image_def program_code_get_Inr
       cond_holds_def exec_control_def)


end
