(* ===== verification/VM_Run.thy ===== *)
theory VM_Run
  imports VM_Safety
begin

text \<open>
  Symbolic execution of virtual machine code: what single instructions, the result fetch and the
  output loop do to the state. Code is described by the decoded instructions at an address
  (\<open>code_at\<close>), runs by \<open>vm_reach\<close>, so that every statement about a run says that it ends in the
  described state. The database of these lemmas is any one that \<open>yields\<close> rows.
\<close>

section \<open>Code and runs\<close>

type_synonym decoded = "condcode \<times> opcode \<times> nat"

definition decode :: "32 word \<Rightarrow> decoded" where
  "decode w = (condCode w, opCode w, argumentIndex w)"

definition code_at :: "program_code \<Rightarrow> nat \<Rightarrow> decoded list \<Rightarrow> bool" where
  "code_at c a is = (a + length is \<le> length c \<and> map decode (take (length is) (drop a c)) = is)"

lemma code_at_append: "code_at c a (is @ js) \<longleftrightarrow> code_at c a is \<and> code_at c (a + length is) js"
proof -
  have "take (length is + length js) (drop a c) =
      take (length is) (drop a c) @ take (length js) (drop (a + length is) c)"
    by (simp add: take_add add.commute)
  then show ?thesis
    by (auto simp: code_at_def append_eq_append_conv)
qed

lemma code_at_Cons:
  "code_at c a (i # is) \<longleftrightarrow> a < length c \<and> decode (c ! a) = i \<and> code_at c (Suc a) is"
proof -
  have "code_at c a (i # is) \<longleftrightarrow> code_at c a [i] \<and> code_at c (Suc a) is"
    using code_at_append [of c a "[i]" "is"] by simp
  also have "code_at c a [i] \<longleftrightarrow> a < length c \<and> decode (c ! a) = i"
    by (auto simp: code_at_def take_Suc_conv_app_nth)
  finally show ?thesis by blast
qed

lemma code_at_Nil [simp]: "code_at c a [] \<longleftrightarrow> a \<le> length c"
  by (simp add: code_at_def)

lemma code_at_le: "code_at c a is \<Longrightarrow> a + length is \<le> length c"
  by (simp add: code_at_def)

lemma code_at_weaken: "code_at c a is \<Longrightarrow> code_at (c @ d) a is"
  by (auto simp: code_at_def)

lemma code_at_end: "map decode ws = is \<Longrightarrow> code_at (c @ ws) (length c) is"
  by (auto simp: code_at_def)

lemma step_decoded:
  assumes "code_at (code (m_program p)) (m_ip p) ((cc, opc, arg) # is)"
  shows "step ops p = (if cond_holds cc (m_cond p)
    then exec_control ops opc arg (code (m_program p) ! m_ip p) p else Some (Next (next_ip p)))"
  using assms by (auto simp: step_def code_at_Cons decode_def program_code_get_Inr)

lemma vm_reach_trans: "vm_reach ops q r \<Longrightarrow> vm_reach ops p q \<Longrightarrow> vm_reach ops p r"
  by (induction rule: vm_reach.induct) (auto intro: vm_reach.turn)

lemma vm_reach_step: "step ops p = Some (Next q) \<Longrightarrow> vm_reach ops q r \<Longrightarrow> vm_reach ops p r"
  by (rule vm_reach_trans) (auto intro: vm_reach.intros)

lemma vm_reach_execute: "vm_reach ops p q \<Longrightarrow> execute_loop ops p = execute_loop ops q"
proof (induction rule: vm_reach.induct)
  case (turn q r)
  then show ?case by (simp add: execute_loop.simps [of ops q])
qed simp

lemma execute_loop_Done: "step ops p = Some (Done b q) \<Longrightarrow> execute_loop ops p = Some (Done b q)"
  by (subst execute_loop.simps) simp

lemma execute_loop_Raise: "step ops p = Some (Raise e q) \<Longrightarrow> execute_loop ops p = Some (Raise e q)"
  by (subst execute_loop.simps) simp

lemmas exec_groups = exec_control_def exec_output_def exec_assign_def exec_iter_def exec_sub_def
  exec_scope_def exec_dbstm_def exec_others_def

lemmas vm_eval = vm_get_def vm_bind_def vm_top_def set_top_def next_ip_def cond_holds_def

section \<open>Emitting code\<close>

text \<open>The calls of \<^verbatim>\<open>ProgramCode::operator()\<close> in a row.\<close>

fun emit_all :: "decoded list \<Rightarrow> program_code \<Rightarrow> program_code result" where
  "emit_all [] c = Inr c"
| "emit_all ((cc, opc, arg) # is) c = rbind (program_code_emit cc opc arg c) (emit_all is)"

lemma emit_all_append: "emit_all (is @ js) c = rbind (emit_all is c) (emit_all js)"
  by (induction "is" c rule: emit_all.induct) (auto simp: rbind_def split: sum.splits)

lemma emit_all_length: "emit_all is c = Inr c' \<Longrightarrow> length c' = length c + length is"
  by (induction "is" c rule: emit_all.induct)
     (auto simp: rbind_eq_Inr_iff dest!: program_code_emit_Inr)

lemma emit_instruction:
  assumes "opc \<in> set opcodes" and "arg \<le> Max_ArgumentIndex"
  obtains w where "instruction cc opc (of_nat arg) = Inr w" and "decode w = (cc, opc, arg)"
proof -
  have "unat (of_nat arg :: 32 word) = arg"
    using assms(2) by (intro unat_of_nat_32) (simp add: instruction_layout)
  then show ?thesis
    using instruction_decoded [of opc "of_nat arg" cc] opcode_value_named [OF assms(1)]
      opcode_of_value_named [OF assms(1)] assms(2) that
    by (fastforce simp: decode_def)
qed

lemma emit_all_ok:
  assumes "\<forall>(cc, opc, arg) \<in> set is. opc \<in> set opcodes \<and> arg \<le> Max_ArgumentIndex"
    and "length c + length is < Max_ArgumentIndex"
  shows "\<exists>ws. emit_all is c = Inr (c @ ws) \<and> map decode ws = is"
  using assms
proof (induction "is" c rule: emit_all.induct)
  case (2 cc opc arg "is" c)
  have "opc \<in> set opcodes" "arg \<le> Max_ArgumentIndex" using 2(2) by auto
  then obtain w where w: "instruction cc opc (of_nat arg) = Inr w" "decode w = (cc, opc, arg)"
    by (rule emit_instruction)
  then have e: "program_code_emit cc opc arg c = Inr (c @ [w])"
    using 2(3) by (simp add: program_code_emit_def program_code_add_def Let_def)
  obtain ws where "emit_all is (c @ [w]) = Inr ((c @ [w]) @ ws)" "map decode ws = is"
    using 2(1) [of "c @ [w]"] 2(2,3) by fastforce
  then show ?case using e w(2) by (intro exI [of _ "w # ws"]) simp
qed simp

section \<open>Output\<close>

definition out_append :: "output_element list \<Rightarrow> vm_output \<Rightarrow> vm_output" where
  "out_append es out = butlast out @ [last out @ es]"

lemma out_append_simps [simp]:
  "out_append es out \<noteq> []" "out_append es (out_append ds out) = out_append (ds @ es) out"
  "out \<noteq> [] \<Longrightarrow> out_append [] out = out"
  by (simp_all add: out_append_def butlast_append)

lemma vm_output_add_eq:
  "m_output p \<noteq> [] \<Longrightarrow> vm_output_add e p = Next (p\<lparr>m_output := out_append [e] (m_output p)\<rparr>)"
  by (simp add: vm_output_add_def output_add_def vm_get_def out_append_def)

section \<open>Fetching a result\<close>

text \<open>The database at \<open>db\<close> has the rows left and is at \<open>db'\<close> once they are fetched.\<close>

fun yields :: "'db exec_ops \<Rightarrow> nat \<Rightarrow> variant list list \<Rightarrow> 'db \<Rightarrow> 'db \<Rightarrow> bool" where
  "yields ops n [] db db' = False"
| "yields ops n (r # rs) db db' =
    (case db_map (db_get ops) [1..<Suc n] db of
       (Inr c, db1) \<Rightarrow> c = r \<and> (case db_next ops db1 of
         (Inr again, db2) \<Rightarrow> again = (rs \<noteq> []) \<and> (if rs = [] then db' = db2 else yields ops n rs db2 db')
       | _ \<Rightarrow> False)
     | _ \<Rightarrow> False)"

text \<open>After its execution the statement has the columns \<open>cols\<close> (a missing name is null) and the
  rows \<open>rows\<close>.\<close>

definition has_result ::
  "'db exec_ops \<Rightarrow> string option list \<Rightarrow> variant list list \<Rightarrow> 'db \<Rightarrow> 'db \<Rightarrow> bool" where
  "has_result ops cols rows db db' =
    (case db_map (db_columnName ops) [1..<Suc (length cols)] db of
       (Inr cns, db1) \<Rightarrow> cns = cols \<and> (case db_hasResult ops db1 of
         (Inr has, db2) \<Rightarrow> has = (rows \<noteq> [])
           \<and> (if rows = [] then db' = db2 else yields ops (length cols) rows db2 db')
       | _ \<Rightarrow> False)
     | _ \<Rightarrow> False)"

lemma db_map_length: "db_map f is db = (Inr xs, db') \<Longrightarrow> length xs = length is"
  by (induction "is" arbitrary: db xs db') (auto split: sum.splits prod.splits)

lemma yields_Cons:
  "yields ops n (r # rs) db db' \<longleftrightarrow>
    (\<exists>db1 db2. db_map (db_get ops) [1..<Suc n] db = (Inr r, db1)
      \<and> db_next ops db1 = (Inr (rs \<noteq> []), db2)
      \<and> (if rs = [] then db' = db2 else yields ops n rs db2 db'))"
  unfolding yields.simps
  by (cases "db_map (db_get ops) [1..<Suc n] db"; cases "fst (db_map (db_get ops) [1..<Suc n] db)";
      cases "db_next ops (snd (db_map (db_get ops) [1..<Suc n] db))")
     (auto simp del: upt_Suc split: sum.splits)

declare yields.simps(2) [simp del]

lemma yields_width: "yields ops n rs db db' \<Longrightarrow> r \<in> set rs \<Longrightarrow> length r = n"
  by (induction rs arbitrary: db)
     (auto simp: yields_Cons simp del: upt_Suc dest!: db_map_length split: if_splits)

lemma fetchRows_yields:
  "yields ops n rs db db' \<Longrightarrow> length (vts_colnames rt) = n \<Longrightarrow>
   fetchRows ops n rt db = Some (Inr (rt\<lparr>vts_ar := vts_ar rt @ concat rs\<rparr>), db')"
proof (induction rs arbitrary: db rt)
  case (Cons r rs)
  then obtain db1 db2 where m: "db_map (db_get ops) [1..<Suc n] db = (Inr r, db1)"
    and nx: "db_next ops db1 = (Inr (rs \<noteq> []), db2)"
    and rest: "if rs = [] then db' = db2 else yields ops n rs db2 db'"
    by (auto simp: yields_Cons simp del: upt_Suc)
  have "vts_push r rt = Inr (rt\<lparr>vts_ar := vts_ar rt @ r\<rparr>)"
    using Cons.prems(2) db_map_length [OF m] by (simp add: vts_push_def)
  then show ?case
    using m nx rest Cons.IH [of db2 "rt\<lparr>vts_ar := vts_ar rt @ r\<rparr>"] Cons.prems(2)
    by (subst fetchRows.simps) (auto simp del: upt_Suc)
qed simp

lemma fetchDatabaseResult_has_result:
  assumes "has_result ops cols rows db db'"
  shows "fetchDatabaseResult ops (length cols) db =
    Some (Inr \<lparr>vts_colnames = map (case_option [] id) cols, vts_ar = concat rows\<rparr>, db')"
proof -
  let ?rt = "vts_new (map (case_option [] id) cols)"
  obtain cns db1 where m: "db_map (db_columnName ops) [1..<Suc (length cols)] db = (cns, db1)"
    by fastforce
  obtain h db2 where h: "db_hasResult ops db1 = (h, db2)" by fastforce
  have "cns = Inr cols" "h = Inr (rows \<noteq> [])"
    and "if rows = [] then db' = db2 else yields ops (length cols) rows db2 db'"
    using assms m h by (auto simp: has_result_def simp del: upt_Suc split: sum.splits)
  then show ?thesis
    using m h fetchRows_yields [of ops "length cols" rows db2 db' ?rt]
    by (auto simp: fetchDatabaseResult_def vts_new_def simp del: upt_Suc split: if_splits)
qed

definition result_set :: "string option list \<Rightarrow> variant list list \<Rightarrow> value_tuple_set" where
  "result_set cols rows = \<lparr>vts_colnames = map (case_option [] id) cols, vts_ar = concat rows\<rparr>"

lemma chunks_concat: "0 < n \<Longrightarrow> (\<And>r. r \<in> set rs \<Longrightarrow> length r = n) \<Longrightarrow> chunks n (concat rs) = rs"
  by (induction rs) simp_all

lemma result_set_rows:
  assumes "cols \<noteq> []" and "\<And>r. r \<in> set rows \<Longrightarrow> length r = length cols"
  shows "vts_rows (result_set cols rows) = rows" "vts_wf (result_set cols rows)"
proof -
  show "vts_rows (result_set cols rows) = rows"
    using assms by (simp add: vts_rows_def result_set_def chunks_concat)
  have "length (concat rows) = length rows * length cols"
    using assms(2) by (induction rows) simp_all
  then show "vts_wf (result_set cols rows)"
    using assms(1) by (simp add: vts_wf_def result_set_def)
qed

lemma has_result_width: "has_result ops cols rows db db' \<Longrightarrow> r \<in> set rows \<Longrightarrow> length r = length cols"
  by (auto simp: has_result_def simp del: upt_Suc split: prod.splits sum.splits if_splits
      dest: yields_width)

section \<open>The output loop\<close>

text \<open>The output of one row: an array element with one tag per column.\<close>

definition column_elements :: "string \<Rightarrow> variant \<Rightarrow> output_element list" where
  "column_elements name v =
    [out_element Out_Open (V_String name), out_element Out_Value v, out_element0 Out_Close]"

definition row_elements :: "string list \<Rightarrow> variant list \<Rightarrow> output_element list" where
  "row_elements names row =
    out_element Out_OpenArrayElement (V_Int 0) #
    concat (map2 column_elements names row) @ [out_element0 Out_CloseArrayElement]"

lemma printColumns_eq:
  assumes "m_heap p ! a = s" and "a < length (m_heap p)" and "vts_wf s"
    and "m_valueSet frm = Some a" and "m_valueIter frm = \<lparr>it_idx = vts_pos s k, it_ref = Some a\<rparr>"
    and "k < length (vts_rows s)" and "m_output p \<noteq> []"
    and "\<forall>i \<in> set idxs. 1 \<le> i \<and> i \<le> vts_nofColumns s"
  shows "printColumns frm idxs p = Next (p\<lparr>m_output := out_append
    (concat (map (\<lambda>i. column_elements (vts_colnames s ! (i - 1)) (vts_rows s ! k ! (i - 1))) idxs))
    (m_output p)\<rparr>)"
  using assms
proof (induction idxs arbitrary: p)
  case (Cons i idxs)
  have col: "iter_column s (vts_pos s k) i = Inr (vts_rows s ! k ! (i - 1))"
    using Cons.prems by (intro vts.col_pos) auto
  have name: "vts_columnName s i = Inr (vts_colnames s ! (i - 1))"
    using Cons.prems by (auto simp: vts_columnName_def vts_nofColumns_def)
  show ?case
    using Cons.prems
    by (simp add: vm_deref_def iter_target_def vm_get_def vm_bind_def vm_output_add_eq col name
        Cons.IH column_elements_def)
qed simp

lemma printIteratorColumn_eq:
  assumes "m_heap p ! a = s" and "a < length (m_heap p)" and "vts_wf s"
    and "m_stack p = frm # st" and "m_valueSet frm = Some a"
    and "m_valueIter frm = \<lparr>it_idx = vts_pos s k, it_ref = Some a\<rparr>"
    and "m_valueEnd frm = \<lparr>it_idx = iter_end s, it_ref = Some a\<rparr>"
    and "k < length (vts_rows s)" and "m_output p \<noteq> []"
  shows "printIteratorColumn p = Next (p\<lparr>m_cond := True, m_output := out_append
    (concat (map2 column_elements (vts_colnames s) (vts_rows s ! k))) (m_output p)\<rparr>)"
proof -
  let ?n = "vts_nofColumns s"
  have len: "length (vts_rows s ! k) = ?n"
    using assms(3,8) vts.row_length by simp
  have "map (\<lambda>i. column_elements (vts_colnames s ! (i - 1)) (vts_rows s ! k ! (i - 1))) [1..<Suc ?n]
      = map2 column_elements (vts_colnames s) (vts_rows s ! k)"
    using len by (intro nth_equalityI) (auto simp: vts_nofColumns_def simp del: upt_Suc)
  moreover have "vts_pos s k \<noteq> iter_end s" by (rule vts.row_not_past [OF assms(3,8)])
  ultimately show ?thesis
    using assms printColumns_eq [of "p\<lparr>m_cond := True\<rparr>" a s frm k "[1..<Suc ?n]"]
    by (simp add: printIteratorColumn_def vm_get_def vm_top_def vm_deref_def vts_nofColumns_def
        del: upt_Suc)
qed

definition output_loop :: "nat \<Rightarrow> decoded list" where
  "output_loop b =
    [(Co_ALWAYS, Op_OUTPUT_OPEN_ELEM, 0), (Co_ALWAYS, Op_OUTPUT_ITR_COLUMN, 0),
     (Co_ALWAYS, Op_OUTPUT_CLOSE_ELEM, 0), (Co_ALWAYS, Op_NEXT, 0), (Co_IF_COND, Op_GOTO, b)]"

text \<open>The state inside the loop, at row \<open>k\<close> of the set \<open>s\<close>.\<close>

definition looping ::
  "nat \<Rightarrow> nat \<Rightarrow> value_tuple_set \<Rightarrow> nat \<Rightarrow> stack_element \<Rightarrow> stack_element list \<Rightarrow>
   'db program_instance \<Rightarrow> bool" where
  "looping b a s k frm st p =
    (code_at (code (m_program p)) b (output_loop b) \<and> m_ip p = b
     \<and> a < length (m_heap p) \<and> m_heap p ! a = s \<and> vts_wf s
     \<and> m_stack p = frm # st \<and> m_valueSet frm = Some a
     \<and> m_valueIter frm = \<lparr>it_idx = vts_pos s k, it_ref = Some a\<rparr>
     \<and> m_valueEnd frm = \<lparr>it_idx = iter_end s, it_ref = Some a\<rparr>
     \<and> m_output p \<noteq> [])"

definition after_row ::
  "nat \<Rightarrow> nat \<Rightarrow> value_tuple_set \<Rightarrow> nat \<Rightarrow> stack_element \<Rightarrow> stack_element list \<Rightarrow>
   'db program_instance \<Rightarrow> 'db program_instance" where
  "after_row b a s k frm st p =
    (let again = (Suc k \<noteq> length (vts_rows s)) in
     p\<lparr>m_ip := (if again then b else b + 5), m_cond := again,
       m_stack := frm\<lparr>m_valueIter := \<lparr>it_idx = vts_pos s (Suc k), it_ref = Some a\<rparr>\<rparr> # st,
       m_output := out_append (row_elements (vts_colnames s) (vts_rows s ! k)) (m_output p)\<rparr>)"

lemma loop_row:
  assumes l: "looping b a s k frm st p" and k: "k < length (vts_rows s)"
  shows "vm_reach ops p (after_row b a s k frm st p)"
proof -
  note L = l [unfolded looping_def]
  let ?c = "code (m_program p)"
  have loop: "code_at ?c b (output_loop b)" and wf: "vts_wf s" using L by blast+
  have at: "code_at ?c b [(Co_ALWAYS, Op_OUTPUT_OPEN_ELEM, 0)]"
    "code_at ?c (b + 1) [(Co_ALWAYS, Op_OUTPUT_ITR_COLUMN, 0)]"
    "code_at ?c (b + 2) [(Co_ALWAYS, Op_OUTPUT_CLOSE_ELEM, 0)]"
    "code_at ?c (b + 3) [(Co_ALWAYS, Op_NEXT, 0)]"
    "code_at ?c (b + 4) [(Co_IF_COND, Op_GOTO, b)]" and b: "b \<le> length ?c"
    using loop by (auto simp: output_loop_def code_at_Cons eval_nat_numeral)
  have adv: "iter_next s (vts_pos s k) = vts_pos s (Suc k)" by (rule vts.advance_pos [OF wf])
  have fin: "vts_pos s (Suc k) = iter_end s \<longleftrightarrow> Suc k = length (vts_rows s)"
    using vts.advance_is_past [OF wf k] adv by simp
  have here: "vts_pos s k \<noteq> iter_end s" by (rule vts.row_not_past [OF wf k])
  let ?it = "\<lparr>it_idx = vts_pos s (Suc k), it_ref = Some a\<rparr>"
  let ?again = "Suc k \<noteq> length (vts_rows s)"
  let ?o1 = "out_append [out_element Out_OpenArrayElement (V_Int 0)] (m_output p)"
  let ?o2 = "out_append (concat (map2 column_elements (vts_colnames s) (vts_rows s ! k))) ?o1"
  let ?o3 = "out_append [out_element0 Out_CloseArrayElement] ?o2"
  let ?p1 = "p\<lparr>m_ip := b + 1, m_output := ?o1\<rparr>"
  let ?p2 = "p\<lparr>m_ip := b + 2, m_cond := True, m_output := ?o2\<rparr>"
  let ?p3 = "p\<lparr>m_ip := b + 3, m_cond := True, m_output := ?o3\<rparr>"
  let ?p4 = "p\<lparr>m_ip := b + 4, m_cond := ?again, m_stack := frm\<lparr>m_valueIter := ?it\<rparr> # st,
    m_output := ?o3\<rparr>"
  let ?p5 = "p\<lparr>m_ip := if ?again then b else b + 5, m_cond := ?again,
    m_stack := frm\<lparr>m_valueIter := ?it\<rparr> # st, m_output := ?o3\<rparr>"
  have "step ops p = Some (Next ?p1)"
    using L at(1) by (simp add: step_decoded vm_eval exec_control_def exec_output_def vm_output_add_eq)
  moreover have "step ops ?p1 = Some (Next ?p2)"
    using L at(2) k printIteratorColumn_eq [of ?p1 a s frm st k]
    by (simp add: step_decoded vm_eval exec_control_def exec_output_def)
  moreover have "step ops ?p2 = Some (Next ?p3)"
    using L at(3) by (simp add: step_decoded vm_eval exec_control_def exec_output_def vm_output_add_eq)
  moreover have "step ops ?p3 = Some (Next ?p4)"
    using L at(4) here fin adv
    by (simp add: step_decoded vm_eval exec_control_def exec_output_def exec_assign_def exec_iter_def
        iter_target_def vm_deref_def Let_def)
  moreover have "step ops ?p4 = Some (Next ?p5)"
    using L at(5) b by (simp add: step_decoded vm_eval exec_control_def)
  ultimately have "vm_reach ops p ?p5"
    by (blast intro: vm_reach_step vm_reach.start)
  then show ?thesis by (simp add: after_row_def row_elements_def Let_def)
qed

lemma loop_rows:
  "looping b a s k frm st p \<Longrightarrow> k < length (vts_rows s) \<Longrightarrow>
   vm_reach ops p (p\<lparr>m_ip := b + 5, m_cond := False,
     m_stack := frm\<lparr>m_valueIter := \<lparr>it_idx = iter_end s, it_ref = Some a\<rparr>\<rparr> # st,
     m_output := out_append (concat (map (row_elements (vts_colnames s)) (drop k (vts_rows s))))
       (m_output p)\<rparr>)"
proof (induction "length (vts_rows s) - k" arbitrary: k frm p)
  case (Suc d)
  note one = loop_row [OF Suc.prems, of ops]
  have wf: "vts_wf s" using Suc.prems(1) by (simp add: looping_def)
  have drop: "drop k (vts_rows s) = vts_rows s ! k # drop (Suc k) (vts_rows s)"
    using Suc.prems(2) by (simp add: Cons_nth_drop_Suc)
  show ?case
  proof (cases "Suc k = length (vts_rows s)")
    case True
    then have "vts_pos s (Suc k) = iter_end s" using vts.past_pos [OF wf] by simp
    with one True drop show ?thesis by (simp add: after_row_def)
  next
    case False
    let ?frm = "frm\<lparr>m_valueIter := \<lparr>it_idx = vts_pos s (Suc k), it_ref = Some a\<rparr>\<rparr>"
    have "looping b a s (Suc k) ?frm st (after_row b a s k frm st p)"
      using Suc.prems(1) False by (simp add: looping_def after_row_def)
    from Suc.hyps(1) [OF _ this] Suc.hyps(2) Suc.prems(2) False
    have "vm_reach ops (after_row b a s k frm st p) ((after_row b a s k frm st p)
      \<lparr>m_ip := b + 5, m_cond := False,
       m_stack := ?frm\<lparr>m_valueIter := \<lparr>it_idx = iter_end s, it_ref = Some a\<rparr>\<rparr> # st,
       m_output := out_append (concat (map (row_elements (vts_colnames s))
         (drop (Suc k) (vts_rows s)))) (m_output (after_row b a s k frm st p))\<rparr>)"
      by simp
    from vm_reach_trans [OF this one] False drop show ?thesis
      by (simp add: after_row_def)
  qed
qed simp

end
