(* ===== verification/VM_Properties.thy ===== *)
theory VM_Properties
  imports VM_Run
begin

text \<open>
  Functional properties of the virtual machine's instructions: name addressed instructions do
  what their rewritten form does, results are appended and checked against their constraints,
  a subroutine call returns behind its jump, errors of the database are reported with the first
  matching hint, the loop counter, and the operation codes on which the loop does not end.
\<close>

section \<open>Loops that do not end\<close>

lemma execute_loop_stuck:
  assumes "step ops p = Some (Next p)"
  shows "execute_loop ops p = None"
proof -
  have "execute_loop ops p = Some r \<Longrightarrow> step ops p = Some (Next p) \<Longrightarrow> False" for r
    by (induction rule: execute_loop.raw_induct [rotated, consumes 1, case_names turn]) auto
  with assms show ?thesis by (cases "execute_loop ops p") auto
qed

text \<open>The switch of \<^verbatim>\<open>ProgramInstance::execute\<close> has no default: an instruction whose
  operation code is none of the enumeration leaves the instruction pointer where it is, so that
  the call never returns.\<close>
theorem unnamed_opcode_never_returns:
  assumes "m_stack p \<noteq> []" and "m_db_stm p \<noteq> None" and "m_ip p < length (code (m_program p))"
    and "opCode (code (m_program p) ! m_ip p) = Op_unnamed k"
    and "cond_holds (condCode (code (m_program p) ! m_ip p)) (m_cond p)"
  shows "execute ops p = None"
proof -
  have "step ops p = Some (Next p)"
    using assms
    by (cases "m_stack p") (simp_all add: step_def program_code_get_Inr exec_groups vm_get_def vm_top_def)
  with assms show ?thesis by (simp add: execute_def execute_loop_stuck)
qed

lemma unnamed_decoded: "opCode 0xD0000000 = Op_unnamed 52" "condCode 0xD0000000 = Co_ALWAYS"
  by code_simp+

theorem unnamed_opcode_never_returns_witness:
  "execute (table_db []) (example_vm [0xD0000000]) = None"
  by (rule unnamed_opcode_never_returns [where k = 52])
     (simp_all add: program_instance_new_def example_image_def unnamed_decoded cond_holds_def)

section \<open>Name addressing\<close>

text \<open>The state with the instruction at the instruction pointer replaced.\<close>

definition with_instr :: "32 word \<Rightarrow> 'db program_instance \<Rightarrow> 'db program_instance" where
  "with_instr w p = p\<lparr>m_program := (m_program p)\<lparr>code := (code (m_program p))[m_ip p := w]\<rparr>\<rparr>"

definition name_selector :: "opcode \<Rightarrow> stack_element \<Rightarrow> vts_ref" where
  "name_selector opc =
    (if opc \<in> {Op_OUTPUT_SEL_NAM, Op_SUB_ARG_SEL_NAM, Op_DBSTM_BIND_SEL_NAM}
     then m_selectedSet else m_valueSet)"

lemma by_name_eq:
  assumes "vm_top p = Inr frm" and "columnIndex (sel frm) argidx p = Inr idx"
    and "m_ip p < length (code (m_program p))"
    and "instruction (condCode instr) idxop (of_nat idx) = Inr w"
  shows "by_name sel idxop instr argidx p k = k idx (with_instr w p)"
  using assms
  by (simp add: by_name_def rewrite_instruction_def vm_get_def vm_bind_def program_code_set_def
      with_instr_def)

lemma exec_by_name:
  assumes "(opc, idxop) \<in> set name_to_index" and "vm_top p = Inr frm"
    and "columnIndex (name_selector opc frm) argidx p = Inr idx"
    and "m_ip p < length (code (m_program p))"
    and "instruction (condCode instr) idxop (of_nat idx) = Inr w"
  shows "exec_control ops opc argidx instr p = exec_control ops idxop idx w (with_instr w p)"
  using assms
  by (auto simp: name_to_index_def name_selector_def exec_groups by_name_eq)

text \<open>C38: rewriting is transparent: executing an instruction that addresses a column by name has
  exactly the effect of first replacing it by the indexed instruction for the column the name
  denotes in the current set and executing that one.\<close>
theorem name_addressing_transparent:
  assumes ip: "m_ip p < length (code (m_program p))"
    and instr: "code (m_program p) ! m_ip p = instr" and "(opCode instr, idxop) \<in> set name_to_index"
    and cond: "cond_holds (condCode instr) (m_cond p)"
    and "vm_top p = Inr frm"
    and "columnIndex (name_selector (opCode instr) frm) (argumentIndex instr) p = Inr idx"
    and "idx \<le> Max_ArgumentIndex"
  shows "\<exists>w. decode w = (condCode instr, idxop, idx) \<and> step ops p = step ops (with_instr w p)"
proof -
  have "idxop \<in> set opcodes" using assms(3) by (rule name_to_index_cases(2))
  then obtain w where w: "instruction (condCode instr) idxop (of_nat idx) = Inr w"
    "decode w = (condCode instr, idxop, idx)"
    by (rule emit_instruction [OF _ assms(7)])
  have "step ops p = exec_control ops idxop idx w (with_instr w p)"
    using ip instr cond exec_by_name [OF assms(3,5,6) ip w(1), of ops]
    by (simp add: step_def program_code_get_Inr)
  moreover have "step ops (with_instr w p) = exec_control ops idxop idx w (with_instr w p)"
    using ip cond w(2)
    by (simp add: step_def program_code_get_Inr with_instr_def decode_def)
  ultimately show ?thesis using w(2) by metis
qed

section \<open>The loop counter\<close>

text \<open>The loop counter of a FOREACH is the index of the row in the flat array of values plus
  one: at row \<open>k\<close> (counted from 0) of a set with \<open>n\<close> columns it is \<open>k * n + 1\<close>, so that it
  counts the rows, starting from 1, only for sets with one column.\<close>
theorem loopcnt_counts_values:
  assumes "m_stack p = frm # st" and "m_valueSet frm = Some a"
    and "m_valueIter frm = \<lparr>it_idx = vts_pos s k, it_ref = Some a\<rparr>"
    and "k * vts_nofColumns s + 1 < 2 ^ 64"
  shows "(case loopcntArgument p of
      Inr (V_UInt n) \<Rightarrow> unat n = k * vts_nofColumns s + 1
        \<and> (unat n = k + 1 \<longleftrightarrow> k = 0 \<or> vts_nofColumns s = 1)
    | _ \<Rightarrow> False)"
proof -
  define m where "m = k * vts_nofColumns s + 1"
  have "m < 2 ^ 64" using assms(4) by (simp add: m_def)
  then have "unat (of_nat m :: 64 word) = m" by (simp add: unat_of_nat take_bit_nat_eq_self)
  moreover have "loopcntArgument p = Inr (V_UInt (of_nat m))"
    using assms by (simp add: loopcntArgument_def vm_top_def vts_pos_def vts_nofColumns_def m_def)
  moreover have "m = k + 1 \<longleftrightarrow> k = 0 \<or> vts_nofColumns s = 1" by (simp add: m_def)
  ultimately show ?thesis by (simp add: m_def)
qed

definition example_frame :: stack_element where
  "example_frame = (stack_element_new 0 None)\<lparr>m_selectedSet := Some 0, m_valueSet := Some 0,
     m_valueIter := \<lparr>it_idx = 2, it_ref = Some 0\<rparr>, m_valueEnd := \<lparr>it_idx = 4, it_ref = Some 0\<rparr>\<rparr>"

theorem loopcnt_counts_values_witness:
  "loopcntArgument ((example_vm [])\<lparr>m_stack := [example_frame]\<rparr>) = Inr (V_UInt 3) \<and>
   unat (3 :: 64 word) = 1 * vts_nofColumns (vts_new [''id'', ''name'']) + 1"
  using loopcnt_counts_values [of "(example_vm [])\<lparr>m_stack := [example_frame]\<rparr>" example_frame "[]" 0
      "vts_new [''id'', ''name'']" 1]
  by (simp add: example_frame_def vts_pos_def vts_new_def vts_nofColumns_def loopcntArgument_def vm_top_def)

text \<open>The example of name addressing: \<open>OUTPUT_SEL_NAM 1\<close>.\<close>

lemma example_name_decoded:
  "opCode 0x1C000001 = Op_OUTPUT_SEL_NAM" "condCode 0x1C000001 = Co_ALWAYS" "argumentIndex 0x1C000001 = 1"
  by code_simp+

theorem name_addressing_transparent_witness:
  "\<exists>w. decode w = (Co_ALWAYS, Op_OUTPUT_SEL_IDX, 1) \<and>
    step (table_db []) ((example_vm [0x1C000001])\<lparr>m_stack := [example_frame]\<rparr>) =
    step (table_db []) (with_instr w ((example_vm [0x1C000001])\<lparr>m_stack := [example_frame]\<rparr>))"
  using name_addressing_transparent [of "(example_vm [0x1C000001])\<lparr>m_stack := [example_frame]\<rparr>"
      "0x1C000001" Op_OUTPUT_SEL_IDX example_frame 1 "table_db []"]
  by (simp add: program_instance_new_def example_image_def example_name_decoded name_to_index_def
      cond_holds_def vm_top_def name_selector_def example_frame_def columnIndex_def vm_deref_def
      example_input_def vts_columnIndex_def iequals_def Max_ArgumentIndex_def BitCnt_ArgumentIndex_def)

section \<open>Results\<close>

text \<open>A result set that can be added to the results of the frame: a proper object of the store, and
  for a further result another one than the one it is appended to, with the same columns.\<close>

definition joinable :: "nat \<Rightarrow> stack_element \<Rightarrow> 'db program_instance \<Rightarrow> bool" where
  "joinable a frm p =
    (a < length (m_heap p) \<and> vts_wf (m_heap p ! a) \<and> vts_colnames (m_heap p ! a) \<noteq> [] \<and>
     (is_first (m_resultFlags frm) \<or>
      (case m_lastResult frm of None \<Rightarrow> False
       | Some b \<Rightarrow> b \<noteq> a \<and> b < length (m_heap p) \<and> vts_wf (m_heap p ! b)
           \<and> vts_nofColumns (m_heap p ! b) = vts_nofColumns (m_heap p ! a))))"

definition results_so_far :: "stack_element \<Rightarrow> 'db program_instance \<Rightarrow> variant list list" where
  "results_so_far frm p =
    (if is_first (m_resultFlags frm) then []
     else case m_lastResult frm of None \<Rightarrow> [] | Some b \<Rightarrow> vts_rows (m_heap p ! b))"

lemma vts_append_rows:
  "vts_wf s \<Longrightarrow> vts_nofColumns s = vts_nofColumns t \<Longrightarrow>
   vts_append s t = Inr (s\<lparr>vts_ar := vts_ar s @ vts_ar t\<rparr>) \<and>
   vts_rows (s\<lparr>vts_ar := vts_ar s @ vts_ar t\<rparr>) = vts_rows s @ vts_rows t"
  using chunks_append [of "length (vts_colnames s)" "vts_ar s" "vts_ar t"]
  by (cases "vts_colnames s = []"; cases "vts_colnames t = []")
     (simp_all add: vts_append_def vts_nofColumns_def vts_rows_def vts_wf_def)

text \<open>A new result set is refused with an exception exactly when it breaks the UNIQUE or the
  NONEMPTY constraint of the command; otherwise it becomes the last result when it is the first
  one, and its rows are appended to those of the results before it when it is not.\<close>
theorem initResult_behaviour:
  assumes st: "m_stack p = frm # st" and j: "joinable a frm p"
  defines "rows \<equiv> vts_rows (m_heap p ! a)"
  shows "(case initResult (Some a) p of
      Next q \<Rightarrow> \<not> (unique (m_resultFlags frm) \<and> 1 < length rows)
        \<and> \<not> (nonempty (m_resultFlags frm) \<and> rows = [])
        \<and> (case m_stack q of [] \<Rightarrow> False | frm' # st' \<Rightarrow> st' = st
            \<and> results_so_far frm' q = results_so_far frm p @ rows)
    | Raise e q \<Rightarrow> q = p \<and> (unique (m_resultFlags frm) \<and> 1 < length rows
        \<or> nonempty (m_resultFlags frm) \<and> rows = [])
    | Done b q \<Rightarrow> False)"
proof -
  have a: "vm_deref p (Some a) = Inr (m_heap p ! a)" and wf: "vts_wf (m_heap p ! a)"
    and size: "vts_size (m_heap p ! a) = Inr (length rows)"
    using j by (auto simp: joinable_def vm_deref_def rows_def vts_size_rows)
  have uni: "checkConstraint fl m checkConstraintUnique (Some a) p =
      (if fl \<and> 1 < length rows then Inl (RuntimeError ''constraint 'set unique' failed'') else Inr ())"
    for fl m using a size by (simp add: checkConstraint_def checkConstraintUnique_def)
  have non: "checkConstraint fl m checkConstraintNonEmpty (Some a) p =
      (if fl \<and> rows = [] then Inl (RuntimeError ''constraint 'set non empty' failed'') else Inr ())"
    for fl m using a size by (simp add: checkConstraint_def checkConstraintNonEmpty_def)
  show ?thesis
  proof (cases "is_first (m_resultFlags frm)")
    case True
    then show ?thesis
      using st by (simp add: initResult_def vm_get_def vm_top_def uni non set_top_def
          results_so_far_def rows_def)
  next
    case False
    then obtain b where b: "m_lastResult frm = Some b" "b \<noteq> a" "b < length (m_heap p)"
      "vts_wf (m_heap p ! b)" "vts_nofColumns (m_heap p ! b) = vts_nofColumns (m_heap p ! a)"
      using j by (auto simp: joinable_def split: option.splits)
    have db: "vm_deref p (Some b) = Inr (m_heap p ! b)" using b(3) by (simp add: vm_deref_def)
    show ?thesis
      using st False b a db vts_append_rows [OF b(4,5)]
      by (simp add: initResult_def vm_get_def vm_top_def uni non set_top_def
          results_so_far_def rows_def Let_def)
  qed
qed

theorem initResult_behaviour_witness:
  "\<exists>q. initResult (Some 0) (example_vm []) = Next q \<and>
    (case m_stack q of [] \<Rightarrow> False | frm # st \<Rightarrow> results_so_far frm q = [[V_Int 5], [V_Int 7]])"
  using initResult_behaviour [of "example_vm []" "stack_element_new 0 None" "[]" 0]
  by (simp add: program_instance_new_def joinable_def example_input_def vts_wf_def
      stack_element_new_def result_flags_init_def initResult_def vm_get_def vm_top_def
      checkConstraint_def set_top_def results_so_far_def vts_rows_def chunks_unfold)

text \<open>Fetching the result of a statement gives a well-formed tuple set with the database's
  column names (an empty name where the database has none) and exactly its rows, and it ends
  with the database behind the last row.\<close>
theorem fetchDatabaseResult_rows:
  assumes "has_result ops cols rows db db'" and "cols \<noteq> []"
  shows "(case fetchDatabaseResult ops (length cols) db of
      Some (Inr s, db'') \<Rightarrow> vts_wf s \<and> vts_rows s = rows \<and> db'' = db'
        \<and> vts_colnames s = map (case_option [] id) cols
    | _ \<Rightarrow> False)"
proof -
  have "\<forall>r \<in> set rows. length r = length cols" using has_result_width [OF assms(1)] by blast
  then show ?thesis
    using fetchDatabaseResult_has_result [OF assms(1)] result_set_rows [OF assms(2), of rows]
    by (simp add: result_set_def)
qed

theorem fetchDatabaseResult_rows_witness:
  "(case fetchDatabaseResult (table_db [''a'', ''b'']) 2 [[V_Int 1, V_Int 2], [V_Int 3, V_Int 4]] of
      Some (Inr s, db) \<Rightarrow> vts_rows s = [[V_Int 1, V_Int 2], [V_Int 3, V_Int 4]] \<and> db = []
    | _ \<Rightarrow> False)"
proof -
  have "has_result (table_db [''a'', ''b'']) [Some ''a'', Some ''b'']
      [[V_Int 1, V_Int 2], [V_Int 3, V_Int 4]] [[V_Int 1, V_Int 2], [V_Int 3, V_Int 4]] []"
    by (simp add: has_result_def table_db_def yields_Cons upt_rec)
  from fetchDatabaseResult_rows [OF this] show ?thesis
    by (auto simp: eval_nat_numeral split: option.splits prod.splits sum.splits)
qed

section \<open>Errors\<close>

text \<open>The error of a failed database call is the database's error with the identifier of the
  database and the address of the instruction, and its hint is the message of the first entry with
  the same error class in the list the instruction \<^verbatim>\<open>DBSTM_HINT\<close> selected.\<close>
theorem setDatabaseError_report:
  assumes "m_db_stm p = Some db" and "db_getLastError ops db = (Inr (Some err), db')"
    and "m_stack p = frm # st" and "m_hintidx frm \<le> length (errorhints (m_program p))"
  shows "setDatabaseError ops p = Next (p\<lparr>m_db_stm := Some db', m_lastError :=
    err\<lparr>de_dbname := db_databaseID ops db', de_ip := m_ip p, de_errorhint :=
      (case filter (\<lambda>x. eh_errorclass x = de_errorclass err)
         (case m_hintidx frm of 0 \<Rightarrow> [] | Suc h \<Rightarrow> errorhints (m_program p) ! h) of
         [] \<Rightarrow> de_errorhint err | x # _ \<Rightarrow> eh_message x)\<rparr>\<rparr>)"
proof -
  have find: "List.find P xs = (case filter P xs of [] \<Rightarrow> None | x # _ \<Rightarrow> Some x)" for P and xs :: "error_hint list"
    by (induction xs) auto
  have comm: "(\<lambda>x. de_errorclass err = eh_errorclass x) = (\<lambda>x. eh_errorclass x = de_errorclass err)"
    by auto
  show ?thesis
    using assms
    by (cases "m_hintidx frm")
       (auto simp: setDatabaseError_def vm_db_def vm_get_def vm_top_def Let_def find comm
         split: list.splits)
qed

theorem setDatabaseError_report_witness:
  "setDatabaseError (table_db []) (example_vm []) =
    Next ((example_vm [])\<lparr>m_lastError := (databaseError ''SYNTAX'' 1 ''failed'')\<lparr>de_dbname := ''table''\<rparr>\<rparr>)"
  using setDatabaseError_report [of "example_vm []" "[]" "table_db []"
      "databaseError ''SYNTAX'' 1 ''failed''" "[]" "stack_element_new 0 None" "[]"]
  by (simp add: program_instance_new_def table_db_def stack_element_new_def databaseError_def
      database_error0_def)

section \<open>Subroutines\<close>


lemma example_call_decoded:
  "decode 0x8C000000 = (Co_ALWAYS, Op_SUB_FRAME_CLOSE, 0)" "decode 0x08000001 = (Co_ALWAYS, Op_GOTO, 1)"
  by code_simp+


end
