(* ===== verification/Transaction_Execution.thy ===== *)
theory Transaction_Execution
  imports VM_Run
begin

text \<open>
  The transaction object on top of the virtual machine:
  \<^verbatim>\<open>src/libwolframe_database/vmTransactionOutput.cpp\<close> (the filter that reads the output of a
  transaction as a sequence of tags and values) and \<^verbatim>\<open>src/libwolframe_database/transaction.cpp\<close>
  (execution with error reporting and rollback, the program generated for a single statement, and
  the reader that turns its output into a table). The main theorem says that the whole path from
  the statement text to the result table returns the rows of the database.
\<close>

section \<open>The output filter\<close>

datatype element_type = OpenTag | Attribute | ContentValue | CloseTag

text \<open>
  \<^verbatim>\<open>VmTransactionInputFilter\<close>: \<open>vf_rest\<close> is what lies between \<^verbatim>\<open>m_itr\<close> and \<^verbatim>\<open>m_end\<close>,
  the stack has its top at the head, \<open>vf_indices\<close> is the flag \<^verbatim>\<open>SerializeWithIndices\<close>.
\<close>

record vm_filter =
  vf_indices :: bool
  vf_done :: bool
  vf_rest :: "output_element list"
  vf_stack :: "variant list"

definition vmTransactionInputFilter :: "bool \<Rightarrow> vm_output \<Rightarrow> nat \<Rightarrow> vm_filter result" where
  "vmTransactionInputFilter idx out i =
    rbind (output_elements out i) (\<lambda>es.
      Inr \<lparr>vf_indices = idx, vf_done = False, vf_rest = es, vf_stack = []\<rparr>)"

text \<open>The copy constructor: \<^verbatim>\<open>m_stack\<close> is not in its initialisers.\<close>

definition vf_copy :: "vm_filter \<Rightarrow> vm_filter" where
  "vf_copy f = f\<lparr>vf_stack := []\<rparr>"

text \<open>\<^verbatim>\<open>++m_stack.back().data().value.Int\<close>\<close>

definition increment_top :: "variant list \<Rightarrow> variant list" where
  "increment_top st = (case st of V_Int n # r \<Rightarrow> V_Int (n + 1) # r | _ \<Rightarrow> st)"

fun getNext_from ::
  "bool \<Rightarrow> bool \<Rightarrow> variant list \<Rightarrow> output_element list \<Rightarrow>
   (element_type \<times> variant) option result \<times> vm_filter" where
  "getNext_from idx dn st [] =
    (if dn then (Inr None, \<lparr>vf_indices = idx, vf_done = dn, vf_rest = [], vf_stack = st\<rparr>)
     else (Inr (Some (CloseTag, V_Null)),
           \<lparr>vf_indices = idx, vf_done = True, vf_rest = [], vf_stack = st\<rparr>))"
| "getNext_from idx dn st (e # es) =
    (let f = (\<lambda>st es. \<lparr>vf_indices = idx, vf_done = dn, vf_rest = es, vf_stack = st\<rparr>) in
     case oe_op e of
       Out_OpenArray \<Rightarrow>
         (if idx then (Inr (Some (OpenTag, oe_arg e)), f (V_Int 0 # st) es)
          else getNext_from idx dn (oe_arg e # st) es)
     | Out_OpenArrayElement \<Rightarrow>
         (if st = [] then (Inl (RuntimeError ''tags in output not balanced''), f st (e # es))
          else let st' = (if idx then increment_top st else st)
               in (Inr (Some (OpenTag, hd st')), f st' es))
     | Out_Open \<Rightarrow> (Inr (Some (OpenTag, oe_arg e)), f st es)
     | Out_CloseArray \<Rightarrow>
         (if st = [] then (Inl (RuntimeError ''tags in output not balanced''), f st (e # es))
          else if idx then (Inr (Some (CloseTag, oe_arg e)), f (tl st) es)
          else getNext_from idx dn (tl st) es)
     | Out_CloseArrayElement \<Rightarrow> (Inr (Some (CloseTag, oe_arg e)), f st es)
     | Out_Close \<Rightarrow> (Inr (Some (CloseTag, oe_arg e)), f st es)
     | Out_Value \<Rightarrow> (Inr (Some (ContentValue, oe_arg e)), f st es))"

definition vf_getNext :: "vm_filter \<Rightarrow> (element_type \<times> variant) option result \<times> vm_filter" where
  "vf_getNext f = getNext_from (vf_indices f) (vf_done f) (vf_stack f) (vf_rest f)"

text \<open>What is left to read: the elements and the closing tag.\<close>

definition vf_size :: "vm_filter \<Rightarrow> nat" where
  "vf_size f = length (vf_rest f) + (if vf_done f then 0 else 1)"

lemma getNext_from_size:
  "getNext_from idx dn st es = (Inr (Some x), f) \<Longrightarrow>
   vf_size f < length es + (if dn then 0 else 1)"
  by (induction idx dn st es rule: getNext_from.induct)
     (auto simp: vf_size_def Let_def split: if_splits output_op.splits)

lemma vf_getNext_size: "vf_getNext f = (Inr (Some x), f') \<Longrightarrow> vf_size f' < vf_size f"
  unfolding vf_getNext_def by (drule getNext_from_size) (simp add: vf_size_def)

section \<open>The result of a single statement\<close>

text \<open>
  \<^verbatim>\<open>Variant::tostring\<close> of a string is the string; \<open>other\<close> is the conversion of the other types.
\<close>

definition variant_tostring :: "(variant \<Rightarrow> string) \<Rightarrow> variant \<Rightarrow> string" where
  "variant_tostring other v = (case v of V_String s \<Rightarrow> s | _ \<Rightarrow> other v)"

record statement_result =
  r_colnames :: "string list"
  r_rows :: "variant list list"

record result_reader =
  rr_firstRow :: bool
  rr_taglevel :: int
  rr_colnames :: "string list"
  rr_rows :: "variant list list"
  rr_row :: "variant list"
  rr_done :: bool

definition result_reader_new :: result_reader where
  "result_reader_new =
    \<lparr>rr_firstRow = True, rr_taglevel = 0, rr_colnames = [], rr_rows = [], rr_row = [], rr_done = False\<rparr>"

text \<open>One turn of the reading loop; \<open>Inl\<close> is the message of \<^verbatim>\<open>m_lastError\<close>.\<close>

definition read_element ::
  "(variant \<Rightarrow> string) \<Rightarrow> element_type \<Rightarrow> variant \<Rightarrow> result_reader \<Rightarrow> string + result_reader" where
  "read_element other ty v r =
    (if rr_done r then Inl ''unexpected element after final CLOSE''
     else case ty of
       OpenTag \<Rightarrow>
         (let lv = rr_taglevel r + 1; r = r\<lparr>rr_taglevel := lv\<rparr> in
          if lv = 1 then (if v \<noteq> V_String [] then Inl ''unexpected top level tag in result'' else Inr r)
          else if lv = 2 then
            Inr (if rr_firstRow r
                 then r\<lparr>rr_colnames := rr_colnames r @ [variant_tostring other v]\<rparr> else r)
          else Inl ''unexpected structure in result'')
     | CloseTag \<Rightarrow>
         (let lv = rr_taglevel r - 1; r = r\<lparr>rr_taglevel := lv, rr_done := (lv = -1)\<rparr> in
          if lv = 0 then
            (let r = r\<lparr>rr_firstRow := False\<rparr> in
             if length (rr_row r) \<noteq> length (rr_colnames r)
             then Inl ''row size does not mach to number of columns''
             else Inr (r\<lparr>rr_rows := rr_rows r @ [rr_row r], rr_row := []\<rparr>))
          else Inr r)
     | Attribute \<Rightarrow>
         (if rr_taglevel r = 1
          then Inr (if rr_firstRow r
                    then r\<lparr>rr_colnames := rr_colnames r @ [variant_tostring other v]\<rparr> else r)
          else Inl ''unexpected attribute in result'')
     | ContentValue \<Rightarrow> Inr (r\<lparr>rr_row := rr_row r @ [v]\<rparr>))"

text \<open>The loop \<^verbatim>\<open>while (of->getNext( type, value))\<close>: an exception of the filter, an error message
  or the table.\<close>

function read_result ::
  "(variant \<Rightarrow> string) \<Rightarrow> vm_filter \<Rightarrow> result_reader \<Rightarrow> (string + statement_result) result" where
  "read_result other f r =
    (case vf_getNext f of
       (Inl e, _) \<Rightarrow> Inl e
     | (Inr None, _) \<Rightarrow> Inr (Inr \<lparr>r_colnames = rr_colnames r, r_rows = rr_rows r\<rparr>)
     | (Inr (Some (ty, v)), f') \<Rightarrow> (case read_element other ty v r of
         Inl msg \<Rightarrow> Inr (Inl msg)
       | Inr r' \<Rightarrow> read_result other f' r'))"
  by pat_completeness auto
termination
  by (relation "measure (\<lambda>(other, f, r). vf_size f)") (auto dest: vf_getNext_size [OF sym])

declare read_result.simps [simp del]

section \<open>The transaction object\<close>

text \<open>The operations of the database state machine that the transaction calls itself.\<close>

record 'db transaction_ops =
  tx_exec :: "'db exec_ops"
  tx_begin :: "'db \<Rightarrow> bool result \<times> 'db"
  tx_commit :: "'db \<Rightarrow> bool result \<times> 'db"
  tx_rollback :: "'db \<Rightarrow> bool result \<times> 'db"

record 'db transaction =
  t_stm :: "'db option"
  t_lastError :: database_error

fun removeCRLF_from :: "string \<Rightarrow> string \<Rightarrow> string" where
  "removeCRLF_from rt [] = rt"
| "removeCRLF_from rt (c # cs) =
    (if c = CR \<or> c = LF
     then removeCRLF_from (if rt \<noteq> [] \<and> last rt \<noteq> CHR '' '' then rt @ '' '' else rt) cs
     else removeCRLF_from (rt @ [c]) cs)"

definition removeCRLF :: "string \<Rightarrow> string" where
  "removeCRLF src = removeCRLF_from [] src"

definition errorMessageString :: "database_error \<Rightarrow> string" where
  "errorMessageString err =
    (let errordetail = removeCRLF (de_errordetail err); errormsg = removeCRLF (de_errormsg err) in
     ''error in database '' @ [CHR 0x27] @ de_dbname err @ [CHR 0x27] @ '' error class ''
     @ [CHR 0x27] @ de_errorclass err @ [CHR 0x27]
     @ (if de_errorcode err \<noteq> 0
        then '' database internal error code '' @ print_unsigned (de_errorcode err) @ [CHR 0x27] else [])
     @ (if errormsg \<noteq> [] then '' '' @ errormsg else [])
     @ (if errordetail \<noteq> [] then '' '' @ errordetail else []))"

text \<open>A call through \<^verbatim>\<open>m_stm\<close>.\<close>

definition t_call ::
  "('db \<Rightarrow> 'a result \<times> 'db) \<Rightarrow> 'db transaction \<Rightarrow> 'a result \<times> 'db transaction" where
  "t_call f t =
    (case t_stm t of None \<Rightarrow> (Inl (Undefined ''null pointer''), t)
     | Some db \<Rightarrow> (case f db of (r, db') \<Rightarrow> (r, t\<lparr>t_stm := Some db'\<rparr>)))"

definition t_reported ::
  "'db transaction_ops \<Rightarrow> ('db \<Rightarrow> bool result \<times> 'db) \<Rightarrow> 'db transaction \<Rightarrow>
   unit result \<times> 'db transaction" where
  "t_reported ops f t =
    (case t_call f t of
       (Inl e, t1) \<Rightarrow> (Inl e, t1)
     | (Inr True, t1) \<Rightarrow> (Inr (), t1)
     | (Inr False, t1) \<Rightarrow> (case t_call (db_getLastError (tx_exec ops)) t1 of
         (Inl e, t2) \<Rightarrow> (Inl e, t2)
       | (Inr None, t2) \<Rightarrow> (Inr (), t2)
       | (Inr (Some err), t2) \<Rightarrow> (Inl (RuntimeError (errorMessageString err)), t2)))"

definition transaction_begin :: "'db transaction_ops \<Rightarrow> 'db transaction \<Rightarrow> unit result \<times> 'db transaction" where
  "transaction_begin ops t = t_reported ops (tx_begin ops) t"

definition transaction_commit :: "'db transaction_ops \<Rightarrow> 'db transaction \<Rightarrow> unit result \<times> 'db transaction" where
  "transaction_commit ops t = t_reported ops (tx_commit ops) t"

definition transaction_rollback :: "'db transaction_ops \<Rightarrow> 'db transaction \<Rightarrow> unit result \<times> 'db transaction" where
  "transaction_rollback ops t = t_reported ops (tx_rollback ops) t"

definition transaction_close :: "'db transaction \<Rightarrow> 'db transaction" where
  "transaction_close t = t\<lparr>t_stm := None\<rparr>"

text \<open>
  The failure path of \<^verbatim>\<open>execute\<close>: the rollback's own return value is ignored; \<open>r\<close> is what
  happens after it (\<open>Inr None\<close> is \<^verbatim>\<open>return false\<close>).
\<close>

definition t_fail ::
  "'db transaction_ops \<Rightarrow> 'a option result \<Rightarrow> 'db transaction \<Rightarrow> 'a option result \<times> 'db transaction" where
  "t_fail ops r t =
    (case t_call (tx_rollback ops) t of (Inl e, t') \<Rightarrow> (Inl e, t') | (Inr _, t') \<Rightarrow> (r, t'))"

text \<open>
  \<^verbatim>\<open>Transaction::execute\<close>. \<open>None\<close> is a program that does not end, \<open>Inr (Some out)\<close> is
  \<^verbatim>\<open>return true\<close> with the output. The last handler rethrows the caught object by
  \<^verbatim>\<open>throw e\<close>, which throws a copy of its static type \<^verbatim>\<open>std::exception\<close>.
\<close>

definition transaction_execute ::
  "'db transaction_ops \<Rightarrow> program_image \<Rightarrow> value_tuple_set list \<Rightarrow> 'db transaction \<Rightarrow>
   (vm_output option result \<times> 'db transaction) option" where
  "transaction_execute ops prg tuples t =
    (case execute (tx_exec ops) (program_instance_new prg tuples (t_stm t)) of
       None \<Rightarrow> None
     | Some (Next p) \<Rightarrow> None
     | Some (Done ok p) \<Rightarrow>
         let t' = t\<lparr>t_stm := m_db_stm p\<rparr> in
         Some (if ok then (Inr (Some (m_output p)), t')
               else t_fail ops (Inr None) (t'\<lparr>t_lastError := m_lastError p\<rparr>))
     | Some (Raise e p) \<Rightarrow>
         let t' = t\<lparr>t_stm := m_db_stm p\<rparr> in
         Some (case e of
             RuntimeError msg \<Rightarrow> t_fail ops (Inr None)
               (t'\<lparr>t_lastError := (databaseError ''EXCEPTION'' 0 msg)\<lparr>de_ip := m_ip p\<rparr>\<rparr>)
           | Undefined m \<Rightarrow> (Inl (Undefined m), t')
           | _ \<Rightarrow> t_fail ops (Inl StdException) t'))"

section \<open>Single statements\<close>

definition singleStatementProgram :: "string \<Rightarrow> variant list \<Rightarrow> program_image result" where
  "singleStatementProgram stm params =
    rbind (emit_all [(Co_ALWAYS, Op_RESULT_SET_INIT, 0), (Co_ALWAYS, Op_DBSTM_START, 0)] []) (\<lambda>c.
    rbind (emit_all (map (\<lambda>i. (Co_ALWAYS, Op_DBSTM_BIND_CONST, i)) [0..<length params]) c) (\<lambda>c.
    rbind (emit_all [(Co_ALWAYS, Op_DBSTM_EXEC, 0)] c) (\<lambda>c.
    rbind (emit_all [(Co_ALWAYS, Op_OUTPUT_OPEN_ARRAY, 1)] c) (\<lambda>c.
    let endofblock = length c + 7; startofblock = length c + 2 in
    rbind (emit_all
      [(Co_ALWAYS, Op_OPEN_ITER_LAST_RESULT, 0), (Co_NOT_IF_COND, Op_GOTO, endofblock),
       (Co_ALWAYS, Op_OUTPUT_OPEN_ELEM, 0), (Co_ALWAYS, Op_OUTPUT_ITR_COLUMN, 0),
       (Co_ALWAYS, Op_OUTPUT_CLOSE_ELEM, 0), (Co_ALWAYS, Op_NEXT, 0),
       (Co_IF_COND, Op_GOTO, startofblock)] c) (\<lambda>c.
    rbind (emit_all [(Co_ALWAYS, Op_OUTPUT_CLOSE_ARRAY, 0), (Co_ALWAYS, Op_RETURN, 0)] c) (\<lambda>c.
      Inr \<lparr>code = c, constants = params, colnames = [], tagnames = [[]], resultnames = [],
           statements = [stm], errorhints = [], signatures = [], tuplesets = []\<rparr>))))))"

text \<open>\<^verbatim>\<open>executeStatement\<close> without and with a result table. \<open>Inr False\<close>, \<open>Inr None\<close>:
  \<^verbatim>\<open>return false\<close>.\<close>

definition executeStatement ::
  "'db transaction_ops \<Rightarrow> string \<Rightarrow> variant list \<Rightarrow> 'db transaction \<Rightarrow>
   (bool result \<times> 'db transaction) option" where
  "executeStatement ops stm params t =
    (case singleStatementProgram stm params of
       Inl e \<Rightarrow> Some (Inl e, t)
     | Inr prg \<Rightarrow> map_option (map_prod (map_sum id (\<lambda>out. out \<noteq> None)) id)
         (transaction_execute ops prg [] t))"

definition executeStatement_result ::
  "(variant \<Rightarrow> string) \<Rightarrow> 'db transaction_ops \<Rightarrow> string \<Rightarrow> variant list \<Rightarrow> 'db transaction \<Rightarrow>
   (statement_result option result \<times> 'db transaction) option" where
  "executeStatement_result other ops stm params t =
    (case singleStatementProgram stm params of
       Inl e \<Rightarrow> Some (Inl e, t)
     | Inr prg \<Rightarrow> (case transaction_execute ops prg [] t of
         None \<Rightarrow> None
       | Some (Inl e, t') \<Rightarrow> Some (Inl e, t')
       | Some (Inr None, t') \<Rightarrow> Some (Inr None, t')
       | Some (Inr (Some out), t') \<Rightarrow>
           Some (case rbind (vmTransactionInputFilter False out 0)
                   (\<lambda>f. read_result other f result_reader_new) of
             Inl e \<Rightarrow> (Inl e, t')
           | Inr (Inl msg) \<Rightarrow> (Inr None, t'\<lparr>t_lastError := databaseError ''EXCEPTION'' 0 msg\<rparr>)
           | Inr (Inr res) \<Rightarrow> (Inr (Some res), t'))))"

section \<open>The generated program\<close>

lemma opcodes_members [simp]:
  "Op_RESULT_SET_INIT \<in> set opcodes" "Op_DBSTM_START \<in> set opcodes"
  "Op_DBSTM_BIND_CONST \<in> set opcodes" "Op_DBSTM_EXEC \<in> set opcodes"
  "Op_OUTPUT_OPEN_ARRAY \<in> set opcodes" "Op_OPEN_ITER_LAST_RESULT \<in> set opcodes"
  "Op_GOTO \<in> set opcodes" "Op_OUTPUT_OPEN_ELEM \<in> set opcodes"
  "Op_OUTPUT_ITR_COLUMN \<in> set opcodes" "Op_OUTPUT_CLOSE_ELEM \<in> set opcodes"
  "Op_NEXT \<in> set opcodes" "Op_OUTPUT_CLOSE_ARRAY \<in> set opcodes" "Op_RETURN \<in> set opcodes"
  by (simp_all add: opcodes_def)

text \<open>The code of the program for \<open>n\<close> parameters.\<close>

definition statement_code :: "nat \<Rightarrow> decoded list" where
  "statement_code n =
    [(Co_ALWAYS, Op_RESULT_SET_INIT, 0), (Co_ALWAYS, Op_DBSTM_START, 0)]
    @ map (\<lambda>i. (Co_ALWAYS, Op_DBSTM_BIND_CONST, i)) [0..<n]
    @ [(Co_ALWAYS, Op_DBSTM_EXEC, 0)] @ [(Co_ALWAYS, Op_OUTPUT_OPEN_ARRAY, 1)]
    @ ((Co_ALWAYS, Op_OPEN_ITER_LAST_RESULT, 0) # (Co_NOT_IF_COND, Op_GOTO, n + 11)
       # output_loop (n + 6))
    @ [(Co_ALWAYS, Op_OUTPUT_CLOSE_ARRAY, 0), (Co_ALWAYS, Op_RETURN, 0)]"

definition statement_image :: "string \<Rightarrow> variant list \<Rightarrow> program_code \<Rightarrow> program_image" where
  "statement_image stm params c =
    \<lparr>code = c, constants = params, colnames = [], tagnames = [[]], resultnames = [],
     statements = [stm], errorhints = [], signatures = [], tuplesets = []\<rparr>"

lemma singleStatementProgram_emits:
  "singleStatementProgram stm params =
    rbind (emit_all (statement_code (length params)) []) (\<lambda>c. Inr (statement_image stm params c))"
  unfolding singleStatementProgram_def statement_code_def Let_def emit_all_append rbind_assoc
  by (intro rbind_cong) (auto dest!: emit_all_length simp: output_loop_def statement_image_def
      eval_nat_numeral simp del: emit_all.simps)

lemma singleStatementProgram_code:
  assumes "length params + 13 < Max_ArgumentIndex"
  obtains c where "singleStatementProgram stm params = Inr (statement_image stm params c)"
    and "code_at c 0 (statement_code (length params))"
proof -
  let ?is = "statement_code (length params)"
  have "\<exists>ws. emit_all ?is [] = Inr ([] @ ws) \<and> map decode ws = ?is"
    using assms by (intro emit_all_ok) (auto simp: statement_code_def output_loop_def)
  then show ?thesis
    using that code_at_end [of _ ?is "[]"] by (auto simp: singleStatementProgram_emits)
qed

section \<open>Running the generated program\<close>

fun bind_all :: "'db exec_ops \<Rightarrow> nat \<Rightarrow> variant list \<Rightarrow> 'db \<Rightarrow> 'db option" where
  "bind_all ops i [] db = Some db"
| "bind_all ops i (v # vs) db =
    (case db_bind ops i v db of (Inr True, db') \<Rightarrow> bind_all ops (Suc i) vs db' | _ \<Rightarrow> None)"

text \<open>
  The database accepts the statement with its parameters, bound at the positions 1, 2, and so on,
  and answers with the columns \<open>cols\<close> and the rows \<open>rows\<close>; a statement without a result has no
  columns.
\<close>

definition serves ::
  "'db exec_ops \<Rightarrow> string \<Rightarrow> variant list \<Rightarrow> string option list \<Rightarrow> variant list list \<Rightarrow>
   'db \<Rightarrow> 'db \<Rightarrow> bool" where
  "serves ops stm params cols rows db db' =
    (case db_start ops stm db of
       (Inr True, db1) \<Rightarrow> (case bind_all ops 1 params db1 of
         Some db2 \<Rightarrow> (case db_execute ops db2 of
           (Inr True, db3) \<Rightarrow> (case db_nofColumns ops db3 of
             (Inr n, db4) \<Rightarrow> n = length cols
               \<and> (if cols = [] then rows = [] \<and> db' = db4 else has_result ops cols rows db4 db')
           | _ \<Rightarrow> False)
         | _ \<Rightarrow> False)
       | _ \<Rightarrow> False)
     | _ \<Rightarrow> False)"

lemma serves_steps:
  assumes "serves ops stm params cols rows db db'"
  obtains db1 db2 db3 db4 where "db_start ops stm db = (Inr True, db1)"
    and "bind_all ops 1 params db1 = Some db2" and "db_execute ops db2 = (Inr True, db3)"
    and "db_nofColumns ops db3 = (Inr (length cols), db4)"
    and "if cols = [] then rows = [] \<and> db' = db4 else has_result ops cols rows db4 db'"
proof -
  obtain r1 db1 where 1: "db_start ops stm db = (r1, db1)" by fastforce
  with assms have r1: "r1 = Inr True" by (auto simp: serves_def split: sum.splits bool.splits)
  obtain db2 where 2: "bind_all ops 1 params db1 = Some db2"
    using assms 1 r1 by (auto simp: serves_def split: option.splits)
  obtain r3 db3 where 3: "db_execute ops db2 = (r3, db3)" by fastforce
  with assms 1 r1 2 have r3: "r3 = Inr True"
    by (auto simp: serves_def split: sum.splits bool.splits)
  obtain n db4 where 4: "db_nofColumns ops db3 = (n, db4)" by fastforce
  with assms 1 r1 2 3 r3 have "n = Inr (length cols)"
    and "if cols = [] then rows = [] \<and> db' = db4 else has_result ops cols rows db4 db'"
    by (auto simp: serves_def split: sum.splits)
  with that 1 2 3 4 r1 r3 show ?thesis by blast
qed

lemma bind_all_Cons:
  "bind_all ops i (v # vs) db = Some db' \<longleftrightarrow>
    (\<exists>db1. db_bind ops i v db = (Inr True, db1) \<and> bind_all ops (Suc i) vs db1 = Some db')"
  by (auto split: prod.splits sum.splits bool.splits)

declare bind_all.simps(2) [simp del]

lemma run_binds:
  assumes "code_at (code (m_program p)) a (map (\<lambda>i. (Co_ALWAYS, Op_DBSTM_BIND_CONST, i)) [k..<length (constants (m_program p))])"
    and "m_ip p = a" and "m_stack p = frm # st" and "m_bindidx frm = k" and "m_db_stm p = Some db"
    and "bind_all ops (Suc k) (drop k (constants (m_program p))) db = Some db'"
    and "k \<le> length (constants (m_program p))"
  shows "vm_reach ops p (p\<lparr>m_ip := a + (length (constants (m_program p)) - k), m_db_stm := Some db',
    m_stack := frm\<lparr>m_bindidx := length (constants (m_program p))\<rparr> # st\<rparr>)"
  using assms
proof (induction "length (constants (m_program p)) - k" arbitrary: p k a frm db)
  case 0
  then have "p\<lparr>m_ip := a + (length (constants (m_program p)) - k), m_db_stm := Some db',
      m_stack := frm\<lparr>m_bindidx := length (constants (m_program p))\<rparr> # st\<rparr> = p" by simp
  then show ?case by (simp only: vm_reach.start)
next
  case (Suc d)
  let ?cs = "constants (m_program p)"
  have k: "k < length ?cs" using Suc.hyps(2) by simp
  then have cons: "[k..<length ?cs] = k # [Suc k..<length ?cs]" "drop k ?cs = ?cs ! k # drop (Suc k) ?cs"
    by (simp_all add: upt_conv_Cons Cons_nth_drop_Suc)
  obtain db1 where b: "db_bind ops (Suc k) (?cs ! k) db = (Inr True, db1)"
    and rest: "bind_all ops (Suc (Suc k)) (drop (Suc k) ?cs) db1 = Some db'"
    using Suc.prems(6) by (auto simp: cons(2) bind_all_Cons)
  let ?q = "p\<lparr>m_ip := Suc a, m_db_stm := Some db1, m_stack := frm\<lparr>m_bindidx := Suc k\<rparr> # st\<rparr>"
  have code: "code_at (code (m_program p)) a [(Co_ALWAYS, Op_DBSTM_BIND_CONST, k)]"
    "code_at (code (m_program p)) (Suc a) (map (\<lambda>i. (Co_ALWAYS, Op_DBSTM_BIND_CONST, i)) [Suc k..<length ?cs])"
    using Suc.prems(1) by (auto simp: cons(1) code_at_Cons dest: code_at_le)
  have "step ops p = Some (Next ?q)"
    using code(1) Suc.prems k b
    by (simp add: step_decoded exec_groups vm_eval bind_value_def constArgument_def vm_db_def Let_def)
  moreover have "vm_reach ops ?q (?q\<lparr>m_ip := Suc a + (length ?cs - Suc k), m_db_stm := Some db',
    m_stack := (frm\<lparr>m_bindidx := Suc k\<rparr>)\<lparr>m_bindidx := length ?cs\<rparr> # st\<rparr>)"
    using Suc.hyps(1) [of ?q "Suc k" "Suc a" "frm\<lparr>m_bindidx := Suc k\<rparr>" db1] Suc.hyps(2) code(2) rest k
    by simp
  ultimately show ?case
    using k by (auto dest: vm_reach_step simp: Suc_diff_Suc)
qed

text \<open>The state after the statement was executed and its result fetched.\<close>

definition fetched_state ::
  "string option list \<Rightarrow> variant list list \<Rightarrow> 'db \<Rightarrow> stack_element \<Rightarrow> 'db program_instance \<Rightarrow>
   'db program_instance" where
  "fetched_state cols rows db' frm p =
    (let frm' = frm\<lparr>m_bindidx := 0, m_hintidx := 0\<rparr>; p' = (next_ip p)\<lparr>m_db_stm := Some db'\<rparr> in
     if cols = [] then p'\<lparr>m_stack := [frm']\<rparr>
     else p'\<lparr>m_heap := m_heap p @ [result_set cols rows],
             m_stack := [frm'\<lparr>m_resultFlags := (m_resultFlags frm)\<lparr>is_first := False\<rparr>,
                              m_lastResult := Some (length (m_heap p))\<rparr>]\<rparr>)"

lemma run_exec:
  assumes "code_at (code (m_program p)) (m_ip p) [(Co_ALWAYS, Op_DBSTM_EXEC, 0)]"
    and "m_stack p = [frm]" and "m_resultFlags frm = result_flags_init False False"
    and "m_db_stm p = Some db2" and "db_execute ops db2 = (Inr True, db3)"
    and "db_nofColumns ops db3 = (Inr (length cols), db4)"
    and "if cols = [] then rows = [] \<and> db' = db4 else has_result ops cols rows db4 db'"
  shows "step ops p = Some (Next (fetched_state cols rows db' frm p))"
proof (cases "cols = []")
  case True
  with assms show ?thesis
    by (simp add: step_decoded exec_groups vm_eval exec_dbstm_exec_def vm_db_def end_statement_def
        fetched_state_def Let_def)
next
  case False
  then have "has_result ops cols rows db4 db'" using assms(7) by simp
  note fetch = fetchDatabaseResult_has_result [OF this, folded result_set_def]
  show ?thesis
    using assms(1-6) False fetch
    by (simp add: step_decoded exec_groups vm_eval exec_dbstm_exec_def vm_db_def end_statement_def
        fetched_state_def Let_def fetch_result_def initResult_def checkConstraint_def
        result_flags_init_def)
qed

text \<open>A result is at hand: the last result of the frame, or none for a statement without columns.\<close>

definition result_ready ::
  "string option list \<Rightarrow> variant list list \<Rightarrow> stack_element \<Rightarrow> 'db program_instance \<Rightarrow> bool" where
  "result_ready cols rows frm p =
    (if cols = [] then rows = [] \<and> m_lastResult frm = None
     else (\<forall>r \<in> set rows. length r = length cols) \<and>
       (case m_lastResult frm of None \<Rightarrow> False
        | Some h \<Rightarrow> h < length (m_heap p) \<and> m_heap p ! h = result_set cols rows))"

lemma result_ready_rows:
  assumes "result_ready cols rows frm p"
  shows "vts_rows (result_set cols rows) = rows" "vts_wf (result_set cols rows)"
proof -
  have "vts_rows (result_set cols rows) = rows \<and> vts_wf (result_set cols rows)"
  proof (cases "cols = []")
    case True
    with assms show ?thesis by (simp add: result_ready_def result_set_def vts_wf_def)
  next
    case False
    with assms show ?thesis by (auto simp: result_ready_def result_set_rows)
  qed
  then show "vts_rows (result_set cols rows) = rows" "vts_wf (result_set cols rows)" by simp_all
qed

definition iterating :: "nat \<Rightarrow> value_tuple_set \<Rightarrow> stack_element \<Rightarrow> stack_element" where
  "iterating h s frm = frm\<lparr>m_valueSet := Some h,
     m_valueIter := \<lparr>it_idx = iter_begin s, it_ref = Some h\<rparr>,
     m_valueEnd := \<lparr>it_idx = iter_end s, it_ref = Some h\<rparr>\<rparr>"

lemma run_open_iter:
  assumes "code_at (code (m_program p)) (m_ip p) [(Co_ALWAYS, Op_OPEN_ITER_LAST_RESULT, 0)]"
    and "m_stack p = [frm]" and r: "result_ready cols rows frm p"
  obtains h hp where "h < length hp" and "hp ! h = result_set cols rows"
    and "step ops p = Some (Next ((next_ip p)\<lparr>m_heap := hp, m_cond := (rows \<noteq> []),
      m_stack := [iterating h (result_set cols rows) frm]\<rparr>))"
proof -
  let ?s = "result_set cols rows"
  have c: "(iter_begin ?s \<noteq> iter_end ?s) = (rows \<noteq> [])"
    using vts.first_is_past [OF result_ready_rows(2) [OF r]] result_ready_rows(1) [OF r] by simp
  show ?thesis
  proof (cases "cols = []")
    case True
    then have "step ops p = Some (Next ((next_ip p)\<lparr>m_heap := m_heap p @ [?s], m_cond := (rows \<noteq> []),
        m_stack := [iterating (length (m_heap p)) ?s frm]\<rparr>))"
      using assms c by (simp add: step_decoded exec_groups vm_eval initValueIteraror_def vm_deref_def
          iterating_def result_ready_def Let_def result_set_def vts_new_def)
    then show ?thesis by (rule that [of "length (m_heap p)" "m_heap p @ [?s]", rotated -1]) simp_all
  next
    case False
    then obtain h where h: "m_lastResult frm = Some h" "h < length (m_heap p)" "m_heap p ! h = ?s"
      using r by (auto simp: result_ready_def split: option.splits)
    then have "step ops p = Some (Next ((next_ip p)\<lparr>m_heap := m_heap p, m_cond := (rows \<noteq> []),
        m_stack := [iterating h ?s frm]\<rparr>))"
      using assms c by (simp add: step_decoded exec_groups vm_eval initValueIteraror_def vm_deref_def
          iterating_def Let_def)
    then show ?thesis by (rule that [OF h(2,3)])
  qed
qed

definition table_output :: "string list \<Rightarrow> variant list list \<Rightarrow> output_element list" where
  "table_output names rows =
    out_element Out_OpenArray (V_String []) # concat (map (row_elements names) rows)
    @ [out_element0 Out_CloseArray]"

definition output_code :: "nat \<Rightarrow> decoded list" where
  "output_code a =
    [(Co_ALWAYS, Op_OUTPUT_OPEN_ARRAY, 1)]
    @ ((Co_ALWAYS, Op_OPEN_ITER_LAST_RESULT, 0) # (Co_NOT_IF_COND, Op_GOTO, a + 8)
       # output_loop (a + 3))
    @ [(Co_ALWAYS, Op_OUTPUT_CLOSE_ARRAY, 0), (Co_ALWAYS, Op_RETURN, 0)]"

lemma run_output:
  assumes code: "code_at (code (m_program p)) (m_ip p) (output_code (m_ip p))"
    and tags: "tagnames (m_program p) = [[]]" and st: "m_stack p = [frm]" and out: "m_output p = [[]]"
    and r: "result_ready cols rows frm p"
  shows "\<exists>q. execute_loop ops p = Some (Done True q) \<and> m_db_stm q = m_db_stm p
    \<and> m_output q = [table_output (map (case_option [] id) cols) rows]"
proof -
  let ?s = "result_set cols rows" and ?c = "code (m_program p)" and ?a = "m_ip p"
  note rows = result_ready_rows [OF r]
  have at: "code_at ?c ?a [(Co_ALWAYS, Op_OUTPUT_OPEN_ARRAY, 1)]"
    "code_at ?c (?a + 1) [(Co_ALWAYS, Op_OPEN_ITER_LAST_RESULT, 0)]"
    "code_at ?c (?a + 2) [(Co_NOT_IF_COND, Op_GOTO, ?a + 8)]"
    "code_at ?c (?a + 3) (output_loop (?a + 3))"
    "code_at ?c (?a + 8) [(Co_ALWAYS, Op_OUTPUT_CLOSE_ARRAY, 0)]"
    "code_at ?c (?a + 9) [(Co_ALWAYS, Op_RETURN, 0)]" and len: "?a + 8 \<le> length ?c"
    using code by (auto simp: output_code_def output_loop_def code_at_Cons eval_nat_numeral)
  let ?o1 = "[[out_element Out_OpenArray (V_String [])]]"
  let ?p1 = "p\<lparr>m_ip := ?a + 1, m_output := ?o1\<rparr>"
  have 1: "step ops p = Some (Next ?p1)"
    using at(1) tags out by (simp add: step_decoded vm_eval exec_control_def exec_output_def
        tagnameArgument_def vm_output_add_eq out_append_def)
  obtain h hp where h: "h < length hp" "hp ! h = ?s"
    and 2: "step ops ?p1 = Some (Next ((next_ip ?p1)\<lparr>m_heap := hp, m_cond := (rows \<noteq> []),
      m_stack := [iterating h ?s frm]\<rparr>))"
    using at(2) st r by (elim run_open_iter [of ?p1 frm cols rows, rotated 3])
      (auto simp: result_ready_def split: option.splits if_splits)
  let ?p2 = "(next_ip ?p1)\<lparr>m_heap := hp, m_cond := (rows \<noteq> []), m_stack := [iterating h ?s frm]\<rparr>"
  let ?o3 = "out_append (concat (map (row_elements (vts_colnames ?s)) rows)) ?o1"
  have "\<exists>t. vm_reach ops ?p2 (?p2\<lparr>m_ip := ?a + 8, m_cond := False, m_stack := [t], m_output := ?o3\<rparr>)"
  proof (cases "rows = []")
    case True
    then have "step ops ?p2 = Some (Next (?p2\<lparr>m_ip := ?a + 8, m_cond := False,
        m_stack := [iterating h ?s frm], m_output := ?o3\<rparr>))"
      using at(3) len by (simp add: step_decoded vm_eval exec_control_def)
    then show ?thesis by (blast intro: vm_reach_step vm_reach.start)
  next
    case False
    let ?p3 = "?p2\<lparr>m_ip := ?a + 3\<rparr>"
    have 3: "step ops ?p2 = Some (Next ?p3)"
      using at(3) False by (simp add: step_decoded vm_eval)
    have "looping (?a + 3) h ?s 0 (iterating h ?s frm) [] ?p3"
      using at(4) h rows by (simp add: looping_def iterating_def vts.first_pos next_ip_def)
    from vm_reach_step [OF 3 loop_rows [OF this]] False rows(1) show ?thesis
      by (auto simp: add.commute [of _ 8] next_ip_def)
  qed
  then obtain t where "vm_reach ops ?p2 (?p2\<lparr>m_ip := ?a + 8, m_cond := False, m_stack := [t], m_output := ?o3\<rparr>)"
    (is "vm_reach ops _ ?p4") by blast
  then have reach: "vm_reach ops p ?p4"
    by (rule vm_reach_step [OF 1 vm_reach_step [OF 2]])
  let ?p5 = "?p4\<lparr>m_ip := ?a + 9, m_output := out_append [out_element0 Out_CloseArray] ?o3\<rparr>"
  have 5: "step ops ?p4 = Some (Next ?p5)"
    using at(5) by (simp add: step_decoded vm_eval exec_control_def exec_output_def vm_output_add_eq)
  have "step ops ?p5 = Some (Done True (?p5\<lparr>m_ip := m_return_ip t, m_stack := []\<rparr>))"
    using at(6) by (simp add: step_decoded vm_eval exec_control_def exec_return_def Let_def)
  from execute_loop_Done [OF this] vm_reach_execute [OF vm_reach.turn [OF reach 5]] show ?thesis
    by (auto simp: table_output_def out_append_def result_set_def next_ip_def)
qed

lemma execute_statement_image:
  assumes code: "code_at c 0 (statement_code (length params))"
    and serves: "serves ops stm params cols rows db db'"
  shows "\<exists>q. execute ops (program_instance_new (statement_image stm params c) [] (Some db))
      = Some (Done True q) \<and> m_db_stm q = Some db'
    \<and> m_output q = [table_output (map (case_option [] id) cols) rows]"
proof -
  let ?n = "length params" and ?frm = "stack_element_new 0 None"
  let ?p = "program_instance_new (statement_image stm params c) [] (Some db)"
  obtain db1 db2 db3 db4 where s: "db_start ops stm db = (Inr True, db1)"
    "bind_all ops 1 params db1 = Some db2" "db_execute ops db2 = (Inr True, db3)"
    "db_nofColumns ops db3 = (Inr (length cols), db4)"
    "if cols = [] then rows = [] \<and> db' = db4 else has_result ops cols rows db4 db'"
    by (rule serves_steps [OF serves])
  have at: "code_at c 0 [(Co_ALWAYS, Op_RESULT_SET_INIT, 0)]" "code_at c 1 [(Co_ALWAYS, Op_DBSTM_START, 0)]"
    "code_at c 2 (map (\<lambda>i. (Co_ALWAYS, Op_DBSTM_BIND_CONST, i)) [0..<?n])"
    "code_at c (?n + 2) [(Co_ALWAYS, Op_DBSTM_EXEC, 0)]" "code_at c (?n + 3) (output_code (?n + 3))"
    using code by (auto simp: statement_code_def output_code_def code_at_append code_at_Cons
        eval_nat_numeral dest: code_at_le)
  have p [simp]: "m_program ?p = statement_image stm params c" "m_ip ?p = 0" "m_stack ?p = [?frm]"
    "m_db_stm ?p = Some db" "m_heap ?p = []" "m_output ?p = [[]]"
    by (simp_all add: program_instance_new_def output_new_def output_addOutputSink_def)
  have img [simp]: "code (statement_image stm params c) = c" "tagnames (statement_image stm params c) = [[]]"
    "constants (statement_image stm params c) = params" "statements (statement_image stm params c) = [stm]"
    by (simp_all add: statement_image_def)
  have frm [simp]: "?frm\<lparr>m_resultFlags := result_flags_init False False\<rparr> = ?frm"
    "?frm\<lparr>m_bindidx := 0, m_hintidx := 0\<rparr> = ?frm" "m_bindidx ?frm = 0"
    "m_resultFlags ?frm = result_flags_init False False" "m_lastResult ?frm = None"
    by (simp_all add: stack_element_new_def)
  let ?p1 = "?p\<lparr>m_ip := 1\<rparr>" and ?p2 = "?p\<lparr>m_ip := 2, m_db_stm := Some db1\<rparr>"
  let ?p3 = "?p\<lparr>m_ip := ?n + 2, m_db_stm := Some db2, m_stack := [?frm\<lparr>m_bindidx := ?n\<rparr>]\<rparr>"
  let ?p4 = "fetched_state cols rows db' (?frm\<lparr>m_bindidx := ?n\<rparr>) ?p3"
  have 1: "step ops ?p = Some (Next ?p1)"
    using at(1) by (simp add: step_decoded exec_groups vm_eval)
  have 2: "step ops ?p1 = Some (Next ?p2)"
    using at(2) s(1) by (simp add: step_decoded exec_groups vm_eval statementArgument_def vm_db_def Let_def)
  have 3: "vm_reach ops ?p2 ?p3"
    using run_binds [of ?p2 2 0 ?frm "[]" db1 ops db2] at(3) s(2) by (simp add: add.commute)
  have 4: "step ops ?p3 = Some (Next ?p4)"
    using at(4) s(3-5) by (intro run_exec [where frm = "?frm\<lparr>m_bindidx := ?n\<rparr>"]) simp_all
  have reach: "vm_reach ops ?p ?p4"
    by (rule vm_reach_step [OF 1], rule vm_reach_step [OF 2], rule vm_reach.turn [OF 3 4])
  have width: "\<forall>r \<in> set rows. length r = length cols"
    using s(5) has_result_width by (auto split: if_splits)
  obtain fr where "m_stack ?p4 = [fr]" "result_ready cols rows fr ?p4"
    using s(5) width by (cases "cols = []") (auto simp: fetched_state_def result_ready_def Let_def next_ip_def)
  moreover have "m_ip ?p4 = ?n + 3" "m_program ?p4 = statement_image stm params c"
    "m_output ?p4 = [[]]" "m_db_stm ?p4 = Some db'"
    by (simp_all add: fetched_state_def Let_def next_ip_def)
  ultimately obtain q where "execute_loop ops ?p4 = Some (Done True q)" "m_db_stm q = Some db'"
    "m_output q = [table_output (map (case_option [] id) cols) rows]"
    using run_output [of ?p4 fr cols rows ops] at(5) by auto
  then show ?thesis
    using vm_reach_execute [OF reach] by (simp add: execute_def)
qed

section \<open>Reading the output as a table\<close>

abbreviation vf_at :: "variant list \<Rightarrow> output_element list \<Rightarrow> vm_filter" where
  "vf_at st es \<equiv> \<lparr>vf_indices = False, vf_done = False, vf_rest = es, vf_stack = st\<rparr>"

lemma read_tag:
  "read_result other (vf_at st (out_element Out_Open v # es)) r =
    (case read_element other OpenTag v r of Inl m \<Rightarrow> Inr (Inl m) | Inr r' \<Rightarrow> read_result other (vf_at st es) r')"
  "read_result other (vf_at st (out_element Out_Value v # es)) r =
    (case read_element other ContentValue v r of Inl m \<Rightarrow> Inr (Inl m) | Inr r' \<Rightarrow> read_result other (vf_at st es) r')"
  "read_result other (vf_at st (out_element0 Out_Close # es)) r =
    (case read_element other CloseTag V_Null r of Inl m \<Rightarrow> Inr (Inl m) | Inr r' \<Rightarrow> read_result other (vf_at st es) r')"
  "read_result other (vf_at st (out_element0 Out_CloseArrayElement # es)) r =
    (case read_element other CloseTag V_Null r of Inl m \<Rightarrow> Inr (Inl m) | Inr r' \<Rightarrow> read_result other (vf_at st es) r')"
  "read_result other (vf_at (t # st) (out_element Out_OpenArrayElement v # es)) r =
    (case read_element other OpenTag t r of Inl m \<Rightarrow> Inr (Inl m) | Inr r' \<Rightarrow> read_result other (vf_at (t # st) es) r')"
  by (subst read_result.simps, simp add: vf_getNext_def out_element_def out_element0_def Let_def)+

lemma read_array:
  "read_result other (vf_at st (out_element Out_OpenArray v # es)) r = read_result other (vf_at (v # st) es) r"
  "read_result other (vf_at (t # st) (out_element0 Out_CloseArray # es)) r = read_result other (vf_at st es) r"
  by (subst (1 2) read_result.simps, simp add: vf_getNext_def out_element_def out_element0_def Let_def)+

lemma read_columns:
  assumes "length names = length row" and "rr_taglevel r = 1" and "\<not> rr_done r"
  shows "read_result other (vf_at st (concat (map2 column_elements names row) @ es)) r =
    read_result other (vf_at st es)
      (r\<lparr>rr_colnames := rr_colnames r @ (if rr_firstRow r then names else []), rr_row := rr_row r @ row\<rparr>)"
  using assms
proof (induction names row arbitrary: r rule: list_induct2)
  case (Cons n names v row)
  then show ?case
    by (cases r) (simp add: column_elements_def read_tag read_element_def variant_tostring_def Let_def)
qed simp

text \<open>The reader between two rows.\<close>

definition between_rows :: "string list \<Rightarrow> variant list list \<Rightarrow> result_reader" where
  "between_rows names rows =
    \<lparr>rr_firstRow = (rows = []), rr_taglevel = 0, rr_colnames = (if rows = [] then [] else names),
     rr_rows = rows, rr_row = [], rr_done = False\<rparr>"

lemma read_row_elements:
  assumes "length names = length row"
  shows "read_result other (vf_at [V_String []] (row_elements names row @ es)) (between_rows names rows) =
    read_result other (vf_at [V_String []] es) (between_rows names (rows @ [row]))"
  using assms
  by (simp add: row_elements_def read_tag read_columns read_element_def between_rows_def Let_def)

lemma read_rows:
  "(\<And>row. row \<in> set rows \<Longrightarrow> length row = length names) \<Longrightarrow>
   read_result other (vf_at [V_String []] (concat (map (row_elements names) rows) @ es)) (between_rows names rs) =
   read_result other (vf_at [V_String []] es) (between_rows names (rs @ rows))"
  by (induction rows arbitrary: rs) (simp_all add: read_row_elements)

lemma read_table:
  assumes "\<And>row. row \<in> set rows \<Longrightarrow> length row = length names"
  shows "read_result other (vf_at [] (table_output names rows)) result_reader_new =
    Inr (Inr \<lparr>r_colnames = (if rows = [] then [] else names), r_rows = rows\<rparr>)"
proof -
  have new: "result_reader_new = between_rows names []"
    by (simp add: result_reader_new_def between_rows_def)
  have "read_result other \<lparr>vf_indices = False, vf_done = True, vf_rest = [], vf_stack = []\<rparr> r =
      Inr (Inr \<lparr>r_colnames = rr_colnames r, r_rows = rr_rows r\<rparr>)" for r
    by (subst read_result.simps) (simp add: vf_getNext_def)
  then have fin: "read_result other (vf_at [] []) (between_rows names rows) =
      Inr (Inr \<lparr>r_colnames = (if rows = [] then [] else names), r_rows = rows\<rparr>)"
    by (subst read_result.simps)
       (simp add: vf_getNext_def read_element_def Let_def between_rows_def)
  show ?thesis
    unfolding new table_output_def using assms fin
    by (simp add: read_array read_rows [where rs = "[]", simplified])
qed

lemma executeStatement_rows:
  assumes "length params + 13 < Max_ArgumentIndex" and "t_stm t = Some db"
    and "serves (tx_exec ops) stm params cols rows db db'"
  shows "executeStatement_result other ops stm params t =
    Some (Inr (Some \<lparr>r_colnames = (if rows = [] then [] else map (case_option [] id) cols),
                     r_rows = rows\<rparr>), t\<lparr>t_stm := Some db'\<rparr>)"
proof -
  obtain c where c: "singleStatementProgram stm params = Inr (statement_image stm params c)"
    "code_at c 0 (statement_code (length params))"
    by (rule singleStatementProgram_code [OF assms(1)])
  obtain q where q: "execute (tx_exec ops) (program_instance_new (statement_image stm params c) [] (Some db))
      = Some (Done True q)" "m_db_stm q = Some db'"
      "m_output q = [table_output (map (case_option [] id) cols) rows]"
    using execute_statement_image [OF c(2) assms(3)] by blast
  have "length row = length (map (case_option [] id) cols)" if "row \<in> set rows" for row
    using assms(3) that by (elim serves_steps) (auto dest: has_result_width split: if_splits)
  note tab = read_table [OF this, of rows other]
  show ?thesis
    using q assms(2) c(1) tab
    by (simp add: executeStatement_result_def transaction_execute_def vmTransactionInputFilter_def
        output_elements_def Let_def)
qed

section \<open>Properties\<close>

text \<open>C1: \<^verbatim>\<open>Transaction::executeStatement\<close> is right from end to end: when the database accepts
  the statement with its parameters and answers with some columns and rows, the call ends, returns
  success, and the result table holds exactly these rows in their order under the column names
  (which are lost when there is no row), with the database left where fetching the last row put it.\<close>
theorem executeStatement_returns_rows:
  assumes "length params + 13 < Max_ArgumentIndex" and "t_stm t = Some db"
    and "serves (tx_exec ops) stm params cols rows db db'"
  shows "executeStatement_result other ops stm params t =
    Some (Inr (Some \<lparr>r_colnames = (if rows = [] then [] else map (case_option [] id) cols),
                     r_rows = rows\<rparr>), t\<lparr>t_stm := Some db'\<rparr>)"
  using assms by (rule executeStatement_rows)

definition example_ops :: "variant list list transaction_ops" where
  "example_ops =
    \<lparr>tx_exec = table_db [''id''], tx_begin = (\<lambda>db. (Inr True, db)),
     tx_commit = (\<lambda>db. (Inr True, db)), tx_rollback = (\<lambda>db. (Inr True, []))\<rparr>"

lemma example_serves:
  "serves (table_db [''id'']) ''SELECT'' [V_Int 4] [Some ''id''] [[V_Int 5], [V_Int 7]] [[V_Int 5], [V_Int 7]] []"
  by (simp add: serves_def has_result_def table_db_def bind_all_Cons bind_all.simps yields_Cons upt_rec)

theorem executeStatement_returns_rows_witness:
  "executeStatement_result (\<lambda>_. []) example_ops ''SELECT'' [V_Int 4]
      \<lparr>t_stm = Some [[V_Int 5], [V_Int 7]], t_lastError = database_error0\<rparr>
    = Some (Inr (Some \<lparr>r_colnames = [''id''], r_rows = [[V_Int 5], [V_Int 7]]\<rparr>),
            \<lparr>t_stm = Some [], t_lastError = database_error0\<rparr>)"
  using executeStatement_returns_rows [of "[V_Int 4]" "\<lparr>t_stm = Some [[V_Int 5], [V_Int 7]],
      t_lastError = database_error0\<rparr>" "[[V_Int 5], [V_Int 7]]" example_ops "''SELECT''" "[Some ''id'']"
      "[[V_Int 5], [V_Int 7]]" "[]" "\<lambda>_. []"] example_serves
  by (simp add: example_ops_def Max_ArgumentIndex_def BitCnt_ArgumentIndex_def)

text \<open>When the database refuses the statement, \<^verbatim>\<open>executeStatement\<close> returns false after a
  rollback of the transaction, and the error it leaves is the database's error with the identifier
  of the database and the address of the refused instruction.\<close>
theorem executeStatement_refused:
  assumes "length params + 13 < Max_ArgumentIndex" and "t_stm t = Some db"
    and "db_start (tx_exec ops) stm db = (Inr False, db1)"
    and "db_getLastError (tx_exec ops) db1 = (Inr (Some err), db2)"
    and "tx_rollback ops db2 = (Inr b, db3)"
  shows "executeStatement_result other ops stm params t =
    Some (Inr None, t\<lparr>t_stm := Some db3,
      t_lastError := err\<lparr>de_dbname := db_databaseID (tx_exec ops) db2, de_ip := 1\<rparr>\<rparr>)"
proof -
  let ?n = "length params" and ?frm = "stack_element_new 0 None"
  obtain c where c: "singleStatementProgram stm params = Inr (statement_image stm params c)"
    and code: "code_at c 0 (statement_code (length params))"
    by (rule singleStatementProgram_code [OF assms(1)])
  let ?p = "program_instance_new (statement_image stm params c) [] (Some db)"
  have at: "code_at c 0 [(Co_ALWAYS, Op_RESULT_SET_INIT, 0)]" "code_at c (Suc 0) [(Co_ALWAYS, Op_DBSTM_START, 0)]"
    using code by (auto simp: statement_code_def code_at_append code_at_Cons dest: code_at_le)
  have p [simp]: "m_program ?p = statement_image stm params c" "m_ip ?p = 0" "m_stack ?p = [?frm]"
    "m_db_stm ?p = Some db" "code (statement_image stm params c) = c"
    "statements (statement_image stm params c) = [stm]"
    by (simp_all add: program_instance_new_def statement_image_def)
  let ?e = "err\<lparr>de_dbname := db_databaseID (tx_exec ops) db2, de_ip := 1\<rparr>"
  have 1: "step (tx_exec ops) ?p = Some (Next (?p\<lparr>m_ip := 1\<rparr>))"
    using at(1) by (simp add: step_decoded exec_groups vm_eval stack_element_new_def)
  have "step (tx_exec ops) (?p\<lparr>m_ip := 1\<rparr>) =
      Some (Done False (?p\<lparr>m_ip := 1, m_db_stm := Some db2, m_lastError := ?e\<rparr>))"
    using at(2) assms(3,4)
    by (simp add: step_decoded exec_groups vm_eval statementArgument_def vm_db_def Let_def
        db_return_error_def setDatabaseError_def stack_element_new_def)
  from execute_loop_Done [OF this] vm_reach_execute [OF vm_reach.turn [OF vm_reach.start 1]]
  have "execute (tx_exec ops) ?p =
      Some (Done False (?p\<lparr>m_ip := 1, m_db_stm := Some db2, m_lastError := ?e\<rparr>))"
    by (simp add: execute_def)
  then show ?thesis
    using assms(2,5) c
    by (simp add: executeStatement_result_def transaction_execute_def Let_def t_fail_def t_call_def)
qed

theorem executeStatement_refused_witness:
  "executeStatement_result (\<lambda>_. [])
      (example_ops\<lparr>tx_exec := (table_db [])\<lparr>db_start := \<lambda>_ db. (Inr False, db)\<rparr>\<rparr>) ''SELEKT'' []
      \<lparr>t_stm = Some [[V_Int 5]], t_lastError = database_error0\<rparr>
    = Some (Inr None, \<lparr>t_stm = Some [], t_lastError =
        (databaseError ''SYNTAX'' 1 ''failed'')\<lparr>de_dbname := ''table'', de_ip := 1\<rparr>\<rparr>)"
  using executeStatement_refused [of "[]" "\<lparr>t_stm = Some [[V_Int 5]], t_lastError = database_error0\<rparr>"
      "[[V_Int 5]]" "example_ops\<lparr>tx_exec := (table_db [])\<lparr>db_start := \<lambda>_ db. (Inr False, db)\<rparr>\<rparr>"
      "''SELEKT''" "[[V_Int 5]]" "databaseError ''SYNTAX'' 1 ''failed''" "[[V_Int 5]]" True "[]" "\<lambda>_. []"]
  by (simp add: example_ops_def table_db_def Max_ArgumentIndex_def BitCnt_ArgumentIndex_def)

lemma removeCRLF_from_spec:
  "(c \<in> set (removeCRLF_from rt s) \<and> c \<in> {CR, LF} \<longrightarrow> c \<in> set rt) \<and>
   filter (\<lambda>c. c \<notin> {CR, LF, CHR '' ''}) (removeCRLF_from rt s)
     = filter (\<lambda>c. c \<notin> {CR, LF, CHR '' ''}) (rt @ s)"
  by (induction rt s rule: removeCRLF_from.induct) auto

text \<open>\<^verbatim>\<open>removeCRLF\<close> makes error texts one line: its result has no carriage return and no line
  feed, and every other visible character of the text is kept in order.\<close>
theorem removeCRLF_one_line:
  "CR \<notin> set (removeCRLF s) \<and> LF \<notin> set (removeCRLF s) \<and>
   filter (\<lambda>c. c \<notin> {CR, LF, CHR '' ''}) (removeCRLF s) = filter (\<lambda>c. c \<notin> {CR, LF, CHR '' ''}) s"
  using removeCRLF_from_spec [of CR "[]" s] removeCRLF_from_spec [of LF "[]" s]
  by (simp add: removeCRLF_def)

text \<open>The copy constructor of the output filter drops the stack of open arrays: a copy taken
  before an array element raises an exception there, while the original filter delivers the
  element's tag.\<close>
theorem filter_copy_loses_array:
  "vf_getNext (vf_at (tag # st) (out_element Out_OpenArrayElement v # es))
     = (Inr (Some (OpenTag, tag)), vf_at (tag # st) es) \<and>
   fst (vf_getNext (vf_copy (vf_at (tag # st) (out_element Out_OpenArrayElement v # es))))
     = Inl (RuntimeError ''tags in output not balanced'')"
  by (simp add: vf_getNext_def vf_copy_def out_element_def Let_def)

end
