(* ===== verification/Statement_Parser.thy ===== *)
theory Statement_Parser
  imports Wolframe_Prelude
begin

text \<open>
  Database statements with numbered placeholders,
  \<^verbatim>\<open>src/libwolframe_database/baseStatement.cpp\<close> and \<^verbatim>\<open>substitutingStatement.cpp\<close>: parsing of
  the statement into chunks of text and placeholders, binding of values and substitution into the
  statement of the database. \<^verbatim>\<open>replace\<close> and \<^verbatim>\<open>convert\<close>, which the database classes define,
  are parameters. The lemmas relate the parsed elements to the text of the statement, character
  by character.
\<close>

section \<open>Bit sets\<close>

text \<open>\<^verbatim>\<open>std::bitset<MaxNofParams>\<close>: \<^verbatim>\<open>set\<close> checks its position, \<^verbatim>\<open>operator[]\<close> does not.\<close>

definition MaxNofParams :: nat where
  "MaxNofParams = 32"

definition bitset_set :: "nat \<Rightarrow> nat set \<Rightarrow> nat set result" where
  "bitset_set i s = (if i < MaxNofParams then Inr (insert i s) else Inl (LogicError ''bitset::set''))"

definition bitset_at :: "nat \<Rightarrow> nat set \<Rightarrow> bool result" where
  "bitset_at i s = (if i < MaxNofParams then Inr (i \<in> s) else Inl (Undefined ''bitset position''))"

section \<open>Base statements\<close>

text \<open>An element is a placeholder \<open>(i, [])\<close> with \<open>0 < i\<close> or a chunk of text \<open>(0, s)\<close>.\<close>

record base_statement =
  bs_stmtStr :: string
  bs_maxParam :: nat
  bs_data :: "(nat \<times> string) list"
  bs_nativeStmt :: string
  bs_usedIdx :: "nat set"
  bs_setIdx :: "nat set"

definition bs_empty :: base_statement where
  "bs_empty = \<lparr>bs_stmtStr = [], bs_maxParam = 0, bs_data = [], bs_nativeStmt = [],
     bs_usedIdx = {}, bs_setIdx = {}\<rparr>"

definition bs_clear :: "base_statement \<Rightarrow> base_statement" where
  "bs_clear b = bs_empty"

text \<open>The copy constructor: the two bit sets are not in its initialisers.\<close>

definition bs_copy :: "base_statement \<Rightarrow> base_statement" where
  "bs_copy b = b\<lparr>bs_usedIdx := {}, bs_setIdx := {}\<rparr>"

text \<open>The rest of a quoted string: what is consumed with the closing quote, and what follows it.\<close>

fun skip_string :: "char \<Rightarrow> string \<Rightarrow> (string \<times> string) option" where
  "skip_string eb [] = None"
| "skip_string eb (c # cs) =
    (if c = eb then Some ([c], cs)
     else if c = CHR 0x5C then
       (case cs of [] \<Rightarrow> None | d # ds \<Rightarrow> map_option (\<lambda>(s, r). (c # d # s, r)) (skip_string eb ds))
     else map_option (\<lambda>(s, r). (c # s, r)) (skip_string eb cs))"

definition is_alpha :: "char \<Rightarrow> bool" where
  "is_alpha c = (65 \<le> char_code c \<and> char_code c \<le> 90 \<or> 97 \<le> char_code c \<and> char_code c \<le> 122)"

text \<open>\<^verbatim>\<open>unsigned int idx\<close>: the multiplication and the addition wrap at 32 bits.\<close>

definition parse_index :: "string \<Rightarrow> nat" where
  "parse_index ds = foldl (\<lambda>idx d. (idx * 10 + digit_val d) mod 2 ^ 32) 0 ds"

abbreviation SQUOTE :: char where "SQUOTE \<equiv> CHR 0x27"
abbreviation DQUOTE :: char where "DQUOTE \<equiv> CHR 0x22"
abbreviation BACKSLASH :: char where "BACKSLASH \<equiv> CHR 0x5C"
abbreviation DOLLAR :: char where "DOLLAR \<equiv> CHR 0x24"

definition in_statement :: "string \<Rightarrow> base_statement \<Rightarrow> string" where
  "in_statement msg b = msg @ [SQUOTE] @ bs_stmtStr b @ [SQUOTE]"

definition illegal_index :: "string \<Rightarrow> base_statement \<Rightarrow> cpp_error" where
  "illegal_index rest b =
    RuntimeError (case rest of
      [] \<Rightarrow> in_statement ''illegal parameter index (lonely $ at the end) in statement'' b
    | c # _ \<Rightarrow>
        if is_alpha c then
          in_statement ''illegal parameter index (immediately followed by identifier) in statement '' b
        else if c = CHR ''_'' then
          in_statement ''illegal parameter index (immediately followed by underscore) in statement '' b
        else in_statement ''illegal parameter index seen statement '' b)"

definition push_chunk :: "string \<Rightarrow> base_statement \<Rightarrow> base_statement" where
  "push_chunk chunk b = (if chunk = [] then b else b\<lparr>bs_data := bs_data b @ [(0, chunk)]\<rparr>)"

definition push_param :: "nat \<Rightarrow> base_statement \<Rightarrow> base_statement result" where
  "push_param idx b =
    (if idx > MaxNofParams
     then Inl (LogicError ''More than 32 parameters are not supported!'')
     else rbind (bitset_set idx (bs_usedIdx b)) (\<lambda>used.
       Inr (b\<lparr>bs_usedIdx := used, bs_maxParam := idx, bs_data := bs_data b @ [(idx, [])]\<rparr>)))"

text \<open>
  The loop of \<^verbatim>\<open>parse\<close>: \<open>chunk\<close> is the text from \<^verbatim>\<open>chunkstart\<close> to \<^verbatim>\<open>si\<close>. After a
  placeholder the increment of the loop steps over the next character without looking at it.
  The result is the exception, if there is one, and the object as it is left.
\<close>

function parse_loop :: "string \<Rightarrow> string \<Rightarrow> base_statement \<Rightarrow> cpp_error option \<times> base_statement" where
  "parse_loop chunk [] b = (None, push_chunk chunk b)"
| "parse_loop chunk (c # cs) b =
    (if c = SQUOTE \<or> c = DQUOTE then
       (case skip_string c cs of
          None \<Rightarrow> (Some (RuntimeError (in_statement ''string not terminated in statement '' b)), b)
        | Some (s, rest) \<Rightarrow> parse_loop (chunk @ c # s) rest b)
     else if c = DOLLAR then
       let b1 = push_chunk chunk b; ds = takeWhile is_digit cs; rest = dropWhile is_digit cs;
           idx = parse_index ds
       in if idx = 0 then (Some (illegal_index rest b), b1)
          else (case push_param idx b1 of
            Inl e \<Rightarrow> (Some e, b1)
          | Inr b2 \<Rightarrow> (case rest of [] \<Rightarrow> (None, b2) | d # rest' \<Rightarrow> parse_loop [d] rest' b2))
     else parse_loop (chunk @ [c]) cs b)"
  by pat_completeness auto

lemma skip_string_length: "skip_string eb cs = Some (s, r) \<Longrightarrow> length r < length cs"
  by (induction eb cs arbitrary: s r rule: skip_string.induct)
     (fastforce split: if_splits list.splits)+

lemma dropWhile_tail_length: "d # r = dropWhile P cs \<Longrightarrow> length r < length cs"
  using length_dropWhile_le [of P cs] by (metis Suc_le_eq length_Cons)

termination parse_loop
  by (relation "measure (\<lambda>(chunk, cs, b). length cs)")
     (auto dest!: skip_string_length dropWhile_tail_length)

lemma parse_loop_quote:
  "c = SQUOTE \<or> c = DQUOTE \<Longrightarrow> parse_loop chunk (c # cs) b =
    (case skip_string c cs of
       None \<Rightarrow> (Some (RuntimeError (in_statement ''string not terminated in statement '' b)), b)
     | Some (s, rest) \<Rightarrow> parse_loop (chunk @ c # s) rest b)"
  by simp

lemma parse_loop_param:
  "parse_loop chunk (DOLLAR # cs) b =
    (let idx = parse_index (takeWhile is_digit cs); rest = dropWhile is_digit cs; b1 = push_chunk chunk b
     in if idx = 0 then (Some (illegal_index rest b), b1)
        else (case push_param idx b1 of
          Inl e \<Rightarrow> (Some e, b1)
        | Inr b2 \<Rightarrow> (case rest of [] \<Rightarrow> (None, b2) | d # rest' \<Rightarrow> parse_loop [d] rest' b2)))"
  by (simp add: Let_def)

lemma parse_loop_plain:
  "c \<notin> {SQUOTE, DQUOTE, DOLLAR} \<Longrightarrow> parse_loop chunk (c # cs) b = parse_loop (chunk @ [c]) cs b"
  by simp

declare parse_loop.simps(2) [simp del]

lemmas parse_loop_cases = parse_loop_quote parse_loop_param parse_loop_plain

lemma parse_loop_step_induct [case_names Nil quote param plain]:
  assumes "\<And>chunk b. P chunk [] b"
    and "\<And>chunk c cs b. c = SQUOTE \<or> c = DQUOTE \<Longrightarrow>
      (\<And>s rest. skip_string c cs = Some (s, rest) \<Longrightarrow> P (chunk @ c # s) rest b) \<Longrightarrow> P chunk (c # cs) b"
    and "\<And>chunk cs b. (\<And>b2 d rest. parse_index (takeWhile is_digit cs) \<noteq> 0 \<Longrightarrow>
      push_param (parse_index (takeWhile is_digit cs)) (push_chunk chunk b) = Inr b2 \<Longrightarrow>
      dropWhile is_digit cs = d # rest \<Longrightarrow> P [d] rest b2) \<Longrightarrow> P chunk (DOLLAR # cs) b"
    and "\<And>chunk c cs b. c \<notin> {SQUOTE, DQUOTE, DOLLAR} \<Longrightarrow> P (chunk @ [c]) cs b \<Longrightarrow> P chunk (c # cs) b"
  shows "P chunk cs b"
proof (induction chunk cs b rule: parse_loop.induct)
  case (2 chunk c cs b)
  consider (quote) "c = SQUOTE \<or> c = DQUOTE" | (param) "c = DOLLAR"
    | (plain) "c \<notin> {SQUOTE, DQUOTE, DOLLAR}" by blast
  then show ?case
  proof cases
    case quote
    then show ?thesis using 2(1) assms(2) by simp
  next
    case param
    then show ?thesis using 2(2) assms(3) by simp
  next
    case plain
    then show ?thesis using 2(3) assms(4) by simp
  qed
qed (rule assms(1))

text \<open>\<^verbatim>\<open>init\<close>, the exception and the object as it is left.\<close>

definition bs_init :: "string \<Rightarrow> base_statement \<Rightarrow> cpp_error option \<times> base_statement" where
  "bs_init stmtStr b = parse_loop [] stmtStr ((bs_clear b)\<lparr>bs_stmtStr := stmtStr\<rparr>)"

definition bs_bind :: "nat \<Rightarrow> base_statement \<Rightarrow> base_statement result" where
  "bs_bind idx b =
    (if idx < 1 \<or> idx > bs_maxParam b
     then Inl (RuntimeError (''index of bind parameter is out of range, '' @ print_unsigned idx
       @ '' is required to be in the range of 1..'' @ print_unsigned (bs_maxParam b)
       @ in_statement '' in statement '' b))
     else rbind (bitset_at idx (bs_usedIdx b)) (\<lambda>used.
       if \<not> used then Inl (RuntimeError (''setting value for undefined index ''
         @ print_unsigned idx @ in_statement '' in statement '' b))
       else rbind (bitset_at idx (bs_setIdx b)) (\<lambda>isset.
         if isset then Inl (RuntimeError (''setting value for already defined index ''
           @ print_unsigned idx @ in_statement '' in statement '' b))
         else Inr (b\<lparr>bs_setIdx := insert idx (bs_setIdx b)\<rparr>))))"

text \<open>The loop of \<^verbatim>\<open>substitute\<close> with \<^verbatim>\<open>replace\<close> as a parameter. The part of the text that was
  already substituted when an exception is raised is not kept.\<close>

fun substitute_loop ::
  "(nat \<Rightarrow> string result) \<Rightarrow> bool \<Rightarrow> base_statement \<Rightarrow> (nat \<times> string) list \<Rightarrow> string result" where
  "substitute_loop replace chk b [] = Inr []"
| "substitute_loop replace chk b ((i, s) # es) =
    rbind (if i = 0 then Inr s
           else rbind (if chk then bitset_at i (bs_setIdx b) else Inr True) (\<lambda>isset.
             if \<not> isset then Inl (RuntimeError (''requested uninitialized data for index ''
               @ print_unsigned i @ in_statement '' in statement '' b))
             else replace i)) (\<lambda>t.
    rbind (substitute_loop replace chk b es) (\<lambda>ts. Inr (t @ ts)))"

definition bs_substitute ::
  "(nat \<Rightarrow> string result) \<Rightarrow> bool \<Rightarrow> base_statement \<Rightarrow> base_statement result" where
  "bs_substitute replace chk b =
    rbind (substitute_loop replace chk b (bs_data b)) (\<lambda>t. Inr (b\<lparr>bs_nativeStmt := t\<rparr>))"

section \<open>Substituting statements\<close>

record substituting_statement =
  ss_base :: base_statement
  ss_bind :: "nat \<rightharpoonup> string"

definition ss_clear :: "substituting_statement \<Rightarrow> substituting_statement" where
  "ss_clear st = \<lparr>ss_base = bs_clear (ss_base st), ss_bind = Map.empty\<rparr>"

text \<open>\<^verbatim>\<open>BaseStatement::init\<close> calls the virtual \<^verbatim>\<open>clear\<close>.\<close>

definition ss_init :: "string \<Rightarrow> substituting_statement \<Rightarrow> cpp_error option \<times> substituting_statement" where
  "ss_init stmtStr st =
    (case bs_init stmtStr (ss_base (ss_clear st)) of
       (e, b) \<Rightarrow> (e, \<lparr>ss_base = b, ss_bind = ss_bind (ss_clear st)\<rparr>))"

definition ss_do_bind ::
  "(variant \<Rightarrow> string result) \<Rightarrow> nat \<Rightarrow> variant \<Rightarrow> substituting_statement \<Rightarrow> substituting_statement result" where
  "ss_do_bind convert idx v st =
    rbind (bs_bind idx (ss_base st)) (\<lambda>b.
    rbind (convert v) (\<lambda>s. Inr \<lparr>ss_base = b, ss_bind = (ss_bind st)(idx \<mapsto> s)\<rparr>))"

definition ss_replace :: "substituting_statement \<Rightarrow> nat \<Rightarrow> string result" where
  "ss_replace st idx =
    (case ss_bind st idx of
       None \<Rightarrow> Inl (RuntimeError (''parameter $'' @ print_unsigned idx @ '' undefined''))
     | Some s \<Rightarrow> Inr s)"

definition ss_substitute :: "substituting_statement \<Rightarrow> substituting_statement result" where
  "ss_substitute st =
    rbind (bs_substitute (ss_replace st) True (ss_base st)) (\<lambda>b. Inr (st\<lparr>ss_base := b\<rparr>))"

fun ss_bind_all ::
  "(variant \<Rightarrow> string result) \<Rightarrow> (nat \<times> variant) list \<Rightarrow> substituting_statement \<Rightarrow>
   substituting_statement result" where
  "ss_bind_all convert [] st = Inr st"
| "ss_bind_all convert ((i, v) # ps) st = rbind (ss_do_bind convert i v st) (ss_bind_all convert ps)"

section \<open>The elements and the text\<close>

text \<open>A piece of text is the chunk, or a dollar sign and digits whose value is the index.\<close>

definition piece_of :: "nat \<times> string \<Rightarrow> string \<Rightarrow> bool" where
  "piece_of el p =
    (if fst el = 0 then p = snd el
     else snd el = [] \<and> p \<noteq> [] \<and> hd p = DOLLAR \<and> list_all is_digit (tl p) \<and> parse_index (tl p) = fst el)"

lemma skip_string_text: "skip_string eb cs = Some (s, r) \<Longrightarrow> cs = s @ r"
  by (induction eb cs arbitrary: s r rule: skip_string.induct)
     (fastforce split: if_splits list.splits)+

lemma push_param_Inr:
  "push_param idx b = Inr b' \<Longrightarrow> idx < MaxNofParams
    \<and> b' = b\<lparr>bs_usedIdx := insert idx (bs_usedIdx b), bs_maxParam := idx, bs_data := bs_data b @ [(idx, [])]\<rparr>"
  by (auto simp: push_param_def bitset_set_def rbind_eq_Inr_iff split: if_splits)

definition tiles :: "(nat \<times> string) list \<Rightarrow> string \<Rightarrow> bool" where
  "tiles els s = (\<exists>ps. concat ps = s \<and> list_all2 piece_of els ps)"

lemma tiles_Nil [simp]: "tiles [] []"
  by (simp add: tiles_def)

lemma tiles_append: "tiles els s \<Longrightarrow> tiles els' s' \<Longrightarrow> tiles (els @ els') (s @ s')"
  unfolding tiles_def by (metis concat_append list_all2_appendI)

lemma tiles_text: "tiles [(0, chunk)] chunk"
  unfolding tiles_def by (intro exI [of _ "[chunk]"]) (simp add: piece_of_def)

lemma tiles_chunk: "tiles (bs_data b) s \<Longrightarrow> tiles (bs_data (push_chunk chunk b)) (s @ chunk)"
  using tiles_append [OF _ tiles_text] by (simp add: push_chunk_def)

lemma tiles_param:
  assumes "tiles els s" and "parse_index ds = idx" and "idx \<noteq> 0" and "list_all is_digit ds"
  shows "tiles (els @ [(idx, [])]) (s @ DOLLAR # ds)"
proof -
  have "tiles [(idx, [])] (DOLLAR # ds)"
    using assms(2-) by (auto simp: tiles_def piece_of_def intro!: exI [of _ "[DOLLAR # ds]"])
  from tiles_append [OF assms(1) this] show ?thesis .
qed

lemma parse_loop_tiles:
  "parse_loop chunk cs b = (None, b') \<Longrightarrow> tiles (bs_data b) s \<Longrightarrow> tiles (bs_data b') (s @ chunk @ cs)"
proof (induction chunk cs b arbitrary: s b' rule: parse_loop_step_induct)
  case (Nil chunk b)
  then show ?case using tiles_chunk by auto
next
  case (quote chunk c cs b)
  then obtain t rest where sk: "skip_string c cs = Some (t, rest)"
    by (auto simp: parse_loop_quote split: option.splits)
  then show ?case
    using quote skip_string_text [OF sk] by (auto simp: parse_loop_quote)
next
  case (param chunk cs b)
  let ?ds = "takeWhile is_digit cs" and ?rest = "dropWhile is_digit cs"
  obtain b2 where i: "parse_index ?ds \<noteq> 0" and b2: "push_param (parse_index ?ds) (push_chunk chunk b) = Inr b2"
    using param.prems(1) by (auto simp: parse_loop_param Let_def split: if_splits sum.splits)
  have dig: "list_all is_digit ?ds" by (auto simp: list_all_iff dest: set_takeWhileD)
  have t: "tiles (bs_data b2) ((s @ chunk) @ DOLLAR # ?ds)"
    using push_param_Inr [OF b2] tiles_param [OF tiles_chunk [OF param.prems(2)] refl i dig] by simp
  show ?case
  proof (cases ?rest)
    case Nil
    then have "cs = ?ds" by (metis append_Nil2 takeWhile_dropWhile_id)
    with Nil t i b2 param.prems(1) show ?thesis
      by (simp add: parse_loop_param Let_def del: dropWhile_eq_Nil_conv)
  next
    case (Cons d rest)
    then have "parse_loop [d] rest b2 = (None, b')"
      using i b2 param.prems(1) by (simp add: parse_loop_param Let_def)
    from param.IH [OF i b2 Cons this t] Cons show ?thesis
      using takeWhile_dropWhile_id [of is_digit cs] by (metis append.assoc append_Cons append_Nil)
  qed
next
  case (plain chunk c cs b)
  then show ?case using plain.IH [of b' s] by (simp add: parse_loop_plain)
qed

section \<open>Placeholders\<close>

definition param_indices :: "(nat \<times> string) list \<Rightarrow> nat list" where
  "param_indices els = filter (\<lambda>i. i \<noteq> 0) (map fst els)"

lemma param_indices_simps [simp]:
  "param_indices [] = []" "param_indices (els @ els') = param_indices els @ param_indices els'"
  "param_indices ((0, s) # els) = param_indices els"
  "i \<noteq> 0 \<Longrightarrow> param_indices ((i, s) # els) = i # param_indices els"
  by (simp_all add: param_indices_def)

lemma push_chunk_simps [simp]:
  "param_indices (bs_data (push_chunk chunk b)) = param_indices (bs_data b)"
  "bs_usedIdx (push_chunk chunk b) = bs_usedIdx b" "bs_setIdx (push_chunk chunk b) = bs_setIdx b"
  "bs_maxParam (push_chunk chunk b) = bs_maxParam b"
  by (simp_all add: push_chunk_def)

definition params_ok :: "base_statement \<Rightarrow> bool" where
  "params_ok b =
    (set (param_indices (bs_data b)) = bs_usedIdx b \<and> (\<forall>i \<in> bs_usedIdx b. i < MaxNofParams)
     \<and> bs_maxParam b = last (0 # param_indices (bs_data b)) \<and> bs_setIdx b = {})"

lemma params_ok_push:
  "params_ok b \<Longrightarrow> i \<noteq> 0 \<Longrightarrow> push_param i (push_chunk chunk b) = Inr b' \<Longrightarrow> params_ok b'"
  by (drule push_param_Inr) (auto simp: params_ok_def)

lemma parse_loop_params_ok:
  "parse_loop chunk cs b = (e, b') \<Longrightarrow> params_ok b \<Longrightarrow> params_ok b'"
proof (induction chunk cs b arbitrary: b' rule: parse_loop_step_induct)
  case (Nil chunk b)
  then show ?case by (auto simp: params_ok_def)
next
  case (quote chunk c cs b)
  then show ?case by (auto simp: parse_loop_quote split: option.splits)
next
  case (param chunk cs b)
  have "params_ok (push_chunk chunk b)" using param.prems(2) by (simp add: params_ok_def)
  with param params_ok_push [OF param.prems(2), of "parse_index (takeWhile is_digit cs)" chunk]
  show ?case
    by (auto simp: parse_loop_param Let_def split: if_splits sum.splits list.splits)
next
  case (plain chunk c cs b)
  then show ?case by (simp add: parse_loop_plain)
qed

lemma bs_init_params_ok: "bs_init s b = (e, b') \<Longrightarrow> params_ok b'"
  unfolding bs_init_def
  by (erule parse_loop_params_ok) (simp add: params_ok_def bs_clear_def bs_empty_def)

lemma parse_loop_chunk:
  "parse_loop chunk cs b = (None, b') \<Longrightarrow> chunk \<noteq> [] \<Longrightarrow>
   \<exists>t els. bs_data b' = bs_data b @ (0, chunk @ t) # els"
proof (induction chunk cs b arbitrary: b' rule: parse_loop_step_induct)
  case (Nil chunk b)
  then show ?case by (auto simp: push_chunk_def)
next
  case (quote chunk c cs b)
  then show ?case by (fastforce simp: parse_loop_quote split: option.splits)
next
  case (param chunk cs b)
  then obtain b2 where b2: "push_param (parse_index (takeWhile is_digit cs)) (push_chunk chunk b) = Inr b2"
    and i: "parse_index (takeWhile is_digit cs) \<noteq> 0"
    by (auto simp: parse_loop_param Let_def split: if_splits sum.splits)
  then have d: "bs_data b2 = bs_data b @ (0, chunk) # [(parse_index (takeWhile is_digit cs), [])]"
    using param.prems(2) by (auto dest!: push_param_Inr simp: push_chunk_def)
  show ?case
  proof (cases "dropWhile is_digit cs")
    case Nil
    then show ?thesis
      using d param.prems(1) b2 i
      by (auto simp: parse_loop_param Let_def simp del: dropWhile_eq_Nil_conv intro!: exI [of _ "[]"])
  next
    case (Cons x rest)
    then have "parse_loop [x] rest b2 = (None, b')"
      using param.prems(1) b2 i by (simp add: parse_loop_param Let_def)
    from param.IH [OF i b2 Cons this] obtain t els where "bs_data b' = bs_data b2 @ (0, [x] @ t) # els"
      by blast
    with d show ?thesis by (intro exI [of _ "[]"] exI) simp
  qed
next
  case (plain chunk c cs b)
  then show ?case by (fastforce simp: parse_loop_plain)
qed

section \<open>Properties\<close>


lemma parse_examples:
  "parse_index ''1'' = 1" "parse_index ''2'' = 2" "is_digit CHR ''1''" "is_digit CHR ''2''"
  "\<not> is_digit CHR '' ''" "\<not> is_digit DOLLAR"
  by (simp_all add: parse_index_def digit_val_def is_digit_def)

lemma parse_example:
  "bs_init ''$2 $1'' bs_empty =
    (None, \<lparr>bs_stmtStr = ''$2 $1'', bs_maxParam = 1, bs_data = [(2, []), (0, '' ''), (1, [])],
            bs_nativeStmt = [], bs_usedIdx = {1, 2}, bs_setIdx = {}\<rparr>)"
  by (simp add: bs_init_def bs_clear_def bs_empty_def parse_loop_param parse_examples Let_def
      push_param_def push_chunk_def bitset_set_def MaxNofParams_def)


text \<open>The bound of the parameter indices is the index of the last placeholder of the statement,
  not the largest one: a placeholder with a larger index than the last one can never be bound.\<close>
theorem statement_bind_beyond_last:
  assumes "bs_init s b = (None, b')" and "i \<in> set (param_indices (bs_data b'))"
    and "i > last (param_indices (bs_data b'))"
  shows "bs_maxParam b' = last (param_indices (bs_data b')) \<and> (case bs_bind i b' of Inl e \<Rightarrow> True | Inr _ \<Rightarrow> False)"
proof -
  have "param_indices (bs_data b') \<noteq> []" using assms(2) by auto
  then have "bs_maxParam b' = last (param_indices (bs_data b'))"
    using bs_init_params_ok [OF assms(1)] by (simp add: params_ok_def)
  then show ?thesis using assms(3) by (simp add: bs_bind_def)
qed

theorem statement_bind_beyond_last_witness:
  "(case bs_bind 2 (snd (bs_init ''$2 $1'' bs_empty)) of Inl e \<Rightarrow> True | Inr _ \<Rightarrow> False)"
  using statement_bind_beyond_last [OF parse_example, of 2] parse_example
  by (simp add: param_indices_def)

text \<open>The character behind a placeholder is always taken as plain text: a placeholder or
  a quoted string that directly follows another placeholder is not recognised.\<close>
theorem statement_placeholder_hides_next:
  assumes "list_all is_digit ds" and "0 < parse_index ds" and "\<not> is_digit d"
    and "bs_init (DOLLAR # ds @ d # rest) b = (None, b')"
  shows "\<exists>t els. bs_data b' = (parse_index ds, []) # (0, d # t) # els"
proof -
  have tw: "takeWhile is_digit (ds @ d # rest) = ds" "dropWhile is_digit (ds @ d # rest) = d # rest"
    using assms(1,3) by (simp_all add: list_all_iff takeWhile_append2 dropWhile_append2)
  from assms(4) tw assms(2) obtain b2 where
    "push_param (parse_index ds) (push_chunk [] (bs_empty\<lparr>bs_stmtStr := DOLLAR # ds @ d # rest\<rparr>)) = Inr b2"
    "parse_loop [d] rest b2 = (None, b')"
    by (auto simp: bs_init_def bs_clear_def parse_loop_param Let_def split: sum.splits)
  with parse_loop_chunk [of "[d]" rest b2 b'] show ?thesis
    by (auto dest!: push_param_Inr simp: push_chunk_def bs_empty_def)
qed

theorem statement_placeholder_hides_next_witness:
  "\<exists>b'. bs_init ''$1$2'' bs_empty = (None, b') \<and> (\<exists>t els. bs_data b' = (1, []) # (0, DOLLAR # t) # els)"
proof -
  have i: "bs_init (DOLLAR # ''1'' @ DOLLAR # ''2'') bs_empty =
    (None, \<lparr>bs_stmtStr = ''$1$2'', bs_maxParam = 1, bs_data = [(1, []), (0, ''$2'')],
            bs_nativeStmt = [], bs_usedIdx = {1}, bs_setIdx = {}\<rparr>)"
    by (simp add: bs_init_def bs_clear_def bs_empty_def parse_loop_param parse_examples Let_def
        push_param_def push_chunk_def bitset_set_def MaxNofParams_def parse_loop_plain)
  from statement_placeholder_hides_next [OF _ _ _ this] i show ?thesis
    by (simp add: parse_examples)
qed

text \<open>Substitution with the values bound so far.\<close>

definition render :: "(nat \<rightharpoonup> string) \<Rightarrow> nat \<times> string \<Rightarrow> string" where
  "render m el = (if fst el = 0 then snd el else case m (fst el) of None \<Rightarrow> [] | Some v \<Rightarrow> v)"

lemma substitute_loop_Inr:
  "substitute_loop (ss_replace st) True b els = Inr t \<Longrightarrow>
   set (param_indices els) \<subseteq> bs_setIdx b \<inter> dom (ss_bind st) \<and> t = concat (map (render (ss_bind st)) els)"
proof (induction els arbitrary: t)
  case (Cons el els)
  obtain i s where el: "el = (i, s)" by fastforce
  from Cons show ?case
    by (cases "i = 0")
       (auto simp: el rbind_eq_Inr_iff ss_replace_def bitset_at_def render_def
         split: if_splits option.splits)
qed simp

text \<open>A statement with substituted values is produced only when every placeholder has been
  bound, and it is then the sequence of its chunks with each placeholder replaced by the converted
  value bound to it.\<close>
theorem substitute_all_bound:
  "(case ss_substitute st of
      Inr st' \<Rightarrow> set (param_indices (bs_data (ss_base st))) \<subseteq> bs_setIdx (ss_base st) \<inter> dom (ss_bind st)
        \<and> bs_nativeStmt (ss_base st') = concat (map (render (ss_bind st)) (bs_data (ss_base st)))
    | Inl e \<Rightarrow> True)"
  by (auto simp: ss_substitute_def bs_substitute_def rbind_eq_Inr_iff dest: substitute_loop_Inr
      split: sum.splits)

end
