(* ===== verification/Error_Reporting.thy ===== *)
theory Error_Reporting
  imports VM_Run
begin

text \<open>
  What a failed run of the virtual machine leaves as its error. The interface
  \<open>reporting_database\<close> states what the machine relies on: whenever starting a statement, binding
  a value or executing it returns false, the database has an error to report. Under it every
  program that ends with failure ends with the error of the database or with the abort of the
  instruction \<^verbatim>\<open>EXIT\<close>, never with an unknown error.
\<close>

section \<open>Where a failure can come from\<close>

text \<open>\<open>R\<close> holds of every state in which the result is a return of false.\<close>

definition fails_with :: "('db program_instance \<Rightarrow> bool) \<Rightarrow> 'db vm_result \<Rightarrow> bool" where
  "fails_with R r = vm_post (\<lambda>_. True) (\<lambda>b q. \<not> b \<longrightarrow> R q) (\<lambda>_ _. True) r"

named_theorems fails_intro \<open>rules that locate the failures of an operation\<close>

lemma fails_with_simps [simp]:
  "fails_with R (Next p)" "fails_with R (Raise e p)" "fails_with R (Done b p) \<longleftrightarrow> (\<not> b \<longrightarrow> R p)"
  by (simp_all add: fails_with_def)

lemma fails_get [fails_intro]: "(\<And>x. r = Inr x \<Longrightarrow> fails_with R (k x)) \<Longrightarrow> fails_with R (vm_get r p k)"
  by (simp add: vm_get_def split: sum.split)

lemma fails_bind [fails_intro]:
  "fails_with R r \<Longrightarrow> (\<And>p. r = Next p \<Longrightarrow> fails_with R (k p)) \<Longrightarrow> fails_with R (vm_bind r k)"
  by (cases r) (auto simp: vm_bind_def)

lemma fails_if [fails_intro]:
  "(c \<Longrightarrow> fails_with R a) \<Longrightarrow> (\<not> c \<Longrightarrow> fails_with R b) \<Longrightarrow> fails_with R (if c then a else b)"
  by simp

lemma fails_output_add [fails_intro]: "fails_with R (vm_output_add e p)"
  by (simp add: vm_output_add_def fails_intro)

lemma fails_addValue [fails_intro]: "fails_with R (vm_addValue r p)"
  by (simp add: vm_addValue_def fails_intro)

lemma fails_printColumns [fails_intro]: "fails_with R (printColumns frm idxs p)"
  by (induction idxs arbitrary: p) (auto intro!: fails_intro)

lemma fails_printIteratorColumn [fails_intro]: "fails_with R (printIteratorColumn p)"
  by (auto simp: printIteratorColumn_def Let_def intro!: fails_intro)

lemma fails_initValueIteraror [fails_intro]: "fails_with R (initValueIteraror r p)"
  by (auto simp: initValueIteraror_def Let_def intro!: fails_intro split: option.split)

lemma fails_initResult [fails_intro]: "fails_with R (initResult r p)"
  by (auto simp: initResult_def Let_def intro!: fails_intro)

lemma fails_push_argument [fails_intro]: "fails_with R (push_argument r p)"
  by (auto simp: push_argument_def intro!: fails_intro)

lemma fails_end_statement [fails_intro]: "fails_with R (end_statement p)"
  by (auto simp: end_statement_def intro!: fails_intro)

lemma fails_select_set [fails_intro]: "fails_with R (select_set r p)"
  by (auto simp: select_set_def intro!: fails_intro)

lemma fails_setDatabaseError [fails_intro]: "fails_with R (setDatabaseError ops p)"
  by (auto simp: setDatabaseError_def vm_db_def Let_def intro!: fails_intro split: option.split prod.split)

lemma fails_by_name [fails_intro]:
  "(\<And>i p. fails_with R (k i p)) \<Longrightarrow> fails_with R (by_name sel idxop instr argidx p k)"
  by (auto simp: by_name_def rewrite_instruction_def intro!: fails_intro)

lemma fails_exec_return: "fails_with R (exec_return p)"
  by (auto simp: exec_return_def Let_def intro!: fails_intro)

lemma fails_fetch_result: "fetch_result ops n p = Some r \<Longrightarrow> fails_with R r"
  by (auto simp: fetch_result_def Let_def intro!: fails_intro split: option.splits prod.splits)

lemma exec_others_fails: "exec_others opc argidx p = Some r \<Longrightarrow> fails_with R r"
  by (auto simp: exec_others_def intro!: fails_intro split: opcode.split)

lemma execute_loop_last:
  assumes "execute_loop ops p = Some r"
  obtains q where "vm_reach ops p q" and "step ops q = Some r"
proof -
  have "\<exists>q. vm_reach ops p q \<and> step ops q = Some r"
    using assms
  proof (induction rule: execute_loop.raw_induct [rotated, consumes 1, case_names turn])
    case (turn rec ops p r)
    then show ?case
      by (fastforce split: option.splits vm_result.splits intro: vm_reach_step vm_reach.start)
  qed
  with that show ?thesis by blast
qed

section \<open>The interface\<close>

text \<open>The machine's error is the one the database reports, completed with where it happened.\<close>

definition reported :: "'db exec_ops \<Rightarrow> ('db \<Rightarrow> bool) \<Rightarrow> 'db program_instance \<Rightarrow> bool" where
  "reported ops failed q =
    (\<exists>db err hint. m_db_stm q = Some db \<and> failed db \<and> db_getLastError ops db = (Inr (Some err), db) \<and>
       m_lastError q = err\<lparr>de_dbname := db_databaseID ops db, de_ip := m_ip q, de_errorhint := hint\<rparr>)"

definition aborted :: "'db program_instance \<Rightarrow> bool" where
  "aborted q = (m_lastError q = databaseError ''VM'' 0 ''aborted program execution'')"

lemma aborted_intro: "aborted (p\<lparr>m_lastError := databaseError ''VM'' 0 ''aborted program execution''\<rparr>)"
  by (simp add: aborted_def)

locale reporting_database =
  fixes ops :: "'db exec_ops" and I :: "'db \<Rightarrow> bool" and failed :: "'db \<Rightarrow> bool"
  assumes ops_closed: "db_closed ops I"
    and start_fails: "I db \<Longrightarrow> db_start ops stm db = (Inr False, db1) \<Longrightarrow> failed db1"
    and bind_fails: "I db \<Longrightarrow> db_bind ops i v db = (Inr False, db1) \<Longrightarrow> failed db1"
    and execute_fails: "I db \<Longrightarrow> db_execute ops db = (Inr False, db1) \<Longrightarrow> failed db1"
    and failed_reports: "failed db \<Longrightarrow> \<exists>err. db_getLastError ops db = (Inr (Some err), db)"
begin

definition db_ok :: "'db program_instance \<Rightarrow> bool" where
  "db_ok p = (\<forall>db. m_db_stm p = Some db \<longrightarrow> I db)"

lemma db_ok_simps [simp]: "db_ok (set_top f p) = db_ok p" "db_ok (next_ip p) = db_ok p"
  by (simp_all add: db_ok_def set_top_def next_ip_def)

lemma return_error_reported:
  assumes "m_db_stm p = Some db" and "failed db"
  shows "fails_with (reported ops failed) (db_return_error ops p)"
  using assms failed_reports [OF assms(2)]
  by (auto simp: db_return_error_def setDatabaseError_def vm_db_def Let_def vm_bind_def vm_get_def
      reported_def split: sum.splits option.splits if_splits vm_result.splits)
    (metis database_error.surjective database_error.update_convs)+

lemma fails_db:
  assumes "db_ok p" and "\<And>db db1. I db \<Longrightarrow> f db = (Inr False, db1) \<Longrightarrow> failed db1"
    and "\<And>p. fails_with (reported ops failed) (k p)"
  shows "fails_with (reported ops failed) (vm_db f p (\<lambda>ok p. if ok then k p else db_return_error ops p))"
  using assms(1,3) assms(2)
  by (auto simp: vm_db_def db_ok_def vm_get_def Let_def intro!: return_error_reported
      split: option.split prod.split sum.split)

lemma fails_bind_value: "db_ok p \<Longrightarrow> fails_with (reported ops failed) (bind_value ops r p)"
  unfolding bind_value_def Let_def
  by (intro fails_get fails_db) (auto dest: bind_fails)

lemma fails_by_name_bind:
  "db_ok p \<Longrightarrow> fails_with (reported ops failed) (by_name sel idxop instr argidx p (\<lambda>i p. bind_value ops (a i p) p))"
  unfolding by_name_def rewrite_instruction_def
  by (intro fails_get fails_bind fails_bind_value)
     (auto simp: vm_get_def db_ok_def split: sum.splits)

lemma fails_dbstm_exec:
  assumes "db_ok p" and r: "exec_dbstm_exec ops p = Some r"
  shows "fails_with (reported ops failed) r"
proof -
  let ?r = "vm_db (db_execute ops) p (\<lambda>ok p. if ok then Next p else db_return_error ops p)"
  have "fails_with (reported ops failed) ?r"
    by (rule fails_db [OF assms(1)]) (simp_all add: execute_fails)
  with r show ?thesis
    by (cases ?r)
       (auto simp: exec_dbstm_exec_def Let_def intro!: fails_intro
         dest!: fails_fetch_result [of ops _ _ _ "reported ops failed"]
         split: option.splits prod.splits sum.splits if_splits)
qed

lemma fails_dbstm: "db_ok p \<Longrightarrow> exec_dbstm ops opc argidx instr p = Some r \<Longrightarrow> fails_with (reported ops failed) r"
  by (cases opc)
     (auto simp: exec_dbstm_def Let_def intro!: fails_get fails_db fails_bind_value fails_by_name_bind
       dest: fails_dbstm_exec exec_others_fails start_fails)

lemma fails_scope: "db_ok p \<Longrightarrow> exec_scope ops opc argidx instr p = Some r \<Longrightarrow> fails_with (reported ops failed) r"
  by (cases opc) (auto simp: exec_scope_def Let_def intro!: fails_intro dest: fails_dbstm)

lemma fails_sub: "db_ok p \<Longrightarrow> exec_sub ops opc argidx instr p = Some r \<Longrightarrow> fails_with (reported ops failed) r"
  by (cases opc) (auto simp: exec_sub_def Let_def intro!: fails_intro dest: fails_scope)

lemma fails_iter: "db_ok p \<Longrightarrow> exec_iter ops opc argidx instr p = Some r \<Longrightarrow> fails_with (reported ops failed) r"
  by (cases opc) (auto simp: exec_iter_def Let_def intro!: fails_intro dest: fails_sub)

lemma fails_assign: "db_ok p \<Longrightarrow> exec_assign ops opc argidx instr p = Some r \<Longrightarrow> fails_with (reported ops failed) r"
  by (cases opc) (auto simp: exec_assign_def Let_def intro!: fails_intro dest: fails_iter)

lemma fails_output: "db_ok p \<Longrightarrow> exec_output ops opc argidx instr p = Some r \<Longrightarrow> fails_with (reported ops failed) r"
  by (cases opc) (auto simp: exec_output_def Let_def intro!: fails_intro dest: fails_assign)

lemma fails_with_mono: "fails_with R r \<Longrightarrow> (\<And>p. R p \<Longrightarrow> R' p) \<Longrightarrow> fails_with R' r"
  by (cases r) auto

lemma fails_step:
  assumes "db_ok p" and "step ops p = Some r"
  shows "fails_with (\<lambda>q. aborted q \<or> reported ops failed q) r"
proof -
  have out: "exec_output ops opc argidx instr p = Some r \<Longrightarrow> ?thesis" for opc argidx instr
    by (rule fails_with_mono [OF fails_output [OF assms(1)]]) auto
  have "exec_control ops opc argidx instr p = Some r \<Longrightarrow> ?thesis" for opc argidx instr
    by (cases opc) (auto simp: exec_control_def fails_exec_return aborted_intro dest: out)
  with assms(2) show ?thesis by (auto simp: step_def split: sum.splits if_splits)
qed

lemma failed_run_explained:
  assumes "execute ops (program_instance_new prg tuples (Some db)) = Some (Done False q)"
    and "I db" and "vm_input_ok prg tuples"
  shows "aborted q \<or> reported ops failed q"
proof -
  let ?p0 = "program_instance_new prg tuples (Some db)"
  have inv0: "vm_inv I ?p0 ?p0" by (rule vm_inv_new [of I db, OF assms(2,3)])
  from assms(1) have "execute_loop ops ?p0 = Some (Done False q)"
    by (simp add: execute_def program_instance_new_def)
  then obtain p where p: "vm_reach ops ?p0 p" "step ops p = Some (Done False q)"
    by (rule execute_loop_last)
  have "db_ok p" using vm_reach_inv [OF p(1) ops_closed inv0] by (auto simp: db_ok_def vm_inv_def vm_core_def)
  from fails_step [OF this p(2)] show ?thesis by simp
qed

end

end
