(* ===== verification/Number_Strings.thy ===== *)
theory Number_Strings
  imports Wolframe_Prelude
begin

text \<open>
  Integers and strings, \<^verbatim>\<open>src/libwolframe/types/conversions.cpp\<close>: printing through a table of pairs of
  digits and reading with the overflow test of the code, and that both are inverse.
\<close>

section \<open>Integers and strings\<close>

text \<open>The table of the 100 pairs of digits and the loop that fills the number from behind: \<open>ii\<close> counts
  the turns, and the characters written so far are the second result. The first character of the last
  pair is skipped when it is a zero.\<close>

definition digit_pair :: "nat \<Rightarrow> string" where
  "digit_pair ai = [digit_char (ai div 10), digit_char (ai mod 10)]"

fun number_pairs :: "nat \<Rightarrow> nat \<Rightarrow> string \<Rightarrow> string" where
  "number_pairs 0 val out = out"
| "number_pairs (Suc n) val out =
    (if val > 0 then number_pairs n (val div 100) (digit_pair (val mod 100) @ out) else out)"

definition getNumberString :: "64 word \<Rightarrow> string" where
  "getNumberString val =
    (if val = 0 then ''0''
     else let s = number_pairs 10 (unat val) [] in if hd s = CHR ''0'' then tl s else s)"

definition tostring_cast_uint :: "64 word \<Rightarrow> string" where
  "tostring_cast_uint val = getNumberString val"

text \<open>The negation of the smallest integer overflows.\<close>

definition tostring_cast_int :: "64 word \<Rightarrow> string result" where
  "tostring_cast_int val =
    (if val = 0x8000000000000000 then Inl (Undefined ''signed overflow'')
     else if sint val < 0 then Inr (CHR ''-'' # getNumberString (- val))
     else Inr (getNumberString val))"

definition number_error :: "string \<Rightarrow> cpp_error" where
  "number_error msg = RuntimeError (''string to number conversion error: '' @ msg)"

text \<open>A C string ends at its first zero byte.\<close>

fun string2uint_from :: "64 word \<Rightarrow> string \<Rightarrow> 64 word result" where
  "string2uint_from rt [] = Inr rt"
| "string2uint_from rt (c # cs) =
    (if is_digit c then
       (let rt' = rt * 10 + of_nat (digit_val c) in
        if rt' < rt then Inl (number_error ''value out of range'') else string2uint_from rt' cs)
     else if c = CHR 0x00 then Inr rt
     else Inl (number_error ''value is not a sequence of digits''))"

definition string2uint :: "string \<Rightarrow> 64 word result" where
  "string2uint s = string2uint_from 0 s"

definition touint_cast :: "string \<Rightarrow> 64 word result" where
  "touint_cast val =
    (if val = [] then Inl (number_error ''string empty'') else string2uint val)"

definition integer_range_error :: cpp_error where
  "integer_range_error = RuntimeError ''string to integer conversion error: value out of range''"

definition toint_cast :: "string \<Rightarrow> 64 word result" where
  "toint_cast val =
    (case val of
       [] \<Rightarrow> Inl (number_error ''string empty'')
     | c # cs \<Rightarrow>
         if c = CHR ''-'' then
           rbind (string2uint cs) (\<lambda>rt.
             if rt > 0x8000000000000000 then Inl integer_range_error
             else if rt = 0x8000000000000000 then Inl (Undefined ''signed overflow'')
             else Inr (- rt))
         else rbind (string2uint val) (\<lambda>rt. if sint rt < 0 then Inl integer_range_error else Inr rt))"

section \<open>Signed words\<close>

lemma signed_take_bit_halves:
  assumes "0 \<le> k" and "k < 2 ^ Suc n"
  shows "signed_take_bit n k = (if k < 2 ^ n then k else k - 2 ^ Suc n :: int)"
proof -
  have "bit k n \<longleftrightarrow> \<not> k < 2 ^ n"
  proof (cases "k < 2 ^ n")
    case True
    then show ?thesis using assms(1) by (simp add: bit_iff_odd)
  next
    case False
    then have "k div 2 ^ n = 1" using assms by (intro int_div_pos_eq [of _ _ _ "k - 2 ^ n"]) simp_all
    then show ?thesis using False by (simp add: bit_iff_odd)
  qed
  then show ?thesis
    using assms by (simp add: signed_take_bit_eq_take_bit_minus take_bit_int_eq_self)
qed

lemma uint_bounds: "0 \<le> uint (w :: 64 word)" "uint w < 2 ^ 64"
  using unsigned_less [of w, where 'a = int] by simp_all

lemma sint_64: "sint (n :: 64 word) = (if uint n < 2 ^ 63 then uint n else uint n - 2 ^ 64)"
  using signed_take_bit_halves [of "uint n" 63] uint_bounds [of n] by (simp add: sint_uint)

lemma uint_neg_64: "(n :: 64 word) \<noteq> 0 \<Longrightarrow> uint (- n) = 2 ^ 64 - uint n"
proof -
  assume "n \<noteq> 0"
  then have "0 < uint n" using uint_bounds(1) [of n] by (simp add: uint_0_iff order_less_le)
  have "uint (- n) = (- uint n) mod 2 ^ 64" by transfer (simp add: take_bit_eq_mod mod_minus_eq)
  also have "\<dots> = 2 ^ 64 - uint n"
    using \<open>0 < uint n\<close> uint_bounds(2) [of n] by (simp add: zmod_zminus1_eq_if)
  finally show ?thesis .
qed

section \<open>Printing and reading of integers\<close>

lemma number_pairs_append: "number_pairs n v out = number_pairs n v [] @ out"
proof (induction n arbitrary: v out)
  case (Suc n)
  show ?case by (simp add: Suc [of _ "digit_pair (v mod 100) @ out"] Suc [of _ "digit_pair (v mod 100)"])
qed simp

definition strip_zero :: "string \<Rightarrow> string" where
  "strip_zero s = (if hd s = CHR ''0'' then tl s else s)"

lemma digit_char_0: "digit_char 0 = CHR ''0''"
  by (simp add: digit_char_def) code_simp

lemma digit_char_zero: "d < 10 \<Longrightarrow> digit_char d = CHR ''0'' \<longleftrightarrow> d = 0"
proof -
  assume "d < 10"
  then show ?thesis by (metis digit_char_0 digit_val_digit_char zero_less_numeral)
qed

lemma print_unsigned_100:
  assumes "100 \<le> v"
  shows "print_unsigned v = print_unsigned (v div 100) @ digit_pair (v mod 100)"
proof -
  have "decimal_digits v = decimal_digits (v div 10) @ [v mod 10]"
    using assms by (subst decimal_digits.simps) simp
  also have "decimal_digits (v div 10) = decimal_digits (v div 10 div 10) @ [v div 10 mod 10]"
  proof -
    have "\<not> v div 10 < 10" using assms by linarith
    then show ?thesis by (subst decimal_digits.simps) simp
  qed
  finally have *: "decimal_digits v = decimal_digits (v div 10 div 10) @ [v div 10 mod 10] @ [v mod 10]"
    by simp
  have "decimal_digits v = decimal_digits (v div 100) @ [v mod 100 div 10, v mod 100 mod 10]"
  proof -
    have "v mod 100 = 10 * (v div 10 mod 10) + v mod 10" using mod_mult2_eq [of v 10 10] by simp
    moreover have "v div 10 div 10 = v div 100" by (simp add: div_mult2_eq [symmetric])
    ultimately have "v div 10 div 10 = v div 100" "v div 10 mod 10 = v mod 100 div 10" "v mod 10 = v mod 100 mod 10"
      by simp_all
    with * show ?thesis by simp
  qed
  then show ?thesis by (simp add: print_unsigned_def digit_pair_def)
qed

lemma number_pairs_print:
  assumes "0 < v" and "v < 100 ^ n"
  shows "number_pairs n v [] \<noteq> [] \<and> strip_zero (number_pairs n v []) = print_unsigned v"
  using assms
proof (induction n arbitrary: v)
  case (Suc n)
  show ?case
  proof (cases "v < 100")
    case True
    then have "v mod 100 = v" "v div 100 = 0" by simp_all
    then have s: "number_pairs (Suc n) v [] = digit_pair v" using Suc.prems(1) by (cases n) simp_all
    have "decimal_digits v = (if v < 10 then [v] else [v div 10, v mod 10])"
    proof -
      have "v div 10 < 10" using True by linarith
      then show ?thesis using decimal_digits.simps [of v] decimal_digits.simps [of "v div 10"] by simp
    qed
    then show ?thesis
      using True Suc.prems(1) digit_char_zero [of "v div 10"]
      unfolding s by (auto simp: digit_pair_def strip_zero_def print_unsigned_def div_greater_zero_iff)
  next
    case False
    then have "0 < v div 100" "v div 100 < 100 ^ n"
      using Suc.prems(2) by (simp_all add: less_mult_imp_div_less mult.commute)
    note IH = Suc.IH [OF this]
    have "number_pairs (Suc n) v [] = number_pairs n (v div 100) [] @ digit_pair (v mod 100)"
      using Suc.prems(1) number_pairs_append [of n "v div 100" "digit_pair (v mod 100)"] by simp
    then show ?thesis
      using IH print_unsigned_100 [of v] False by (simp add: strip_zero_def split: if_splits)
  qed
qed simp

lemma getNumberString_print: "getNumberString val = print_unsigned (unat val)"
proof (cases "val = 0")
  case True
  then show ?thesis
    by (simp add: getNumberString_def print_unsigned_def decimal_digits.simps [of 0] digit_char_0)
next
  case False
  have "unat val < 100 ^ 10" using unsigned_less [of val, where 'a = nat] by simp
  with number_pairs_print [of "unat val" 10] False show ?thesis
    by (simp add: getNumberString_def strip_zero_def Let_def unat_gt_0)
qed

lemma foldl_digits_ge: "k \<le> foldl (\<lambda>acc d. 10 * acc + d) k (ds :: nat list)"
  by (induction ds arbitrary: k) (simp, fastforce intro: order_trans [rotated])

lemma string2uint_from_digits:
  assumes "\<forall>d \<in> set ds. d < 10" and "foldl (\<lambda>acc d. 10 * acc + d) k ds < 2 ^ 64"
  shows "string2uint_from (of_nat k) (map digit_char ds) = Inr (of_nat (foldl (\<lambda>acc d. 10 * acc + d) k ds))"
  using assms
proof (induction ds arbitrary: k)
  case (Cons d ds)
  let ?k = "10 * k + d"
  have "?k < 2 ^ 64" using foldl_digits_ge [of ?k ds] Cons.prems(2) by simp
  then have "unat (of_nat ?k :: 64 word) = ?k" "unat (of_nat k :: 64 word) = k"
    by (simp_all add: unsigned_of_nat take_bit_nat_eq_self_iff del: of_nat_add of_nat_mult)
  then have less: "\<not> (of_nat ?k :: 64 word) < of_nat k" by (simp only: word_less_nat_alt)
  have eq: "(of_nat k * 10 + of_nat d :: 64 word) = of_nat ?k" by simp
  have d: "is_digit (digit_char d)" "digit_val (digit_char d) = d" using Cons.prems(1) by simp_all
  have "string2uint_from (of_nat k) (map digit_char (d # ds)) = string2uint_from (of_nat ?k) (map digit_char ds)"
    using less by (simp only: list.map string2uint_from.simps Let_def d eq if_True if_False)
  then show ?case using Cons.IH [of ?k] Cons.prems by simp
qed simp

lemma string2uint_print: "n < 2 ^ 64 \<Longrightarrow> string2uint (print_unsigned n) = Inr (of_nat n)"
  using string2uint_from_digits [of "decimal_digits n" 0] digits_value_decimal_digits [of n]
    decimal_digits_less [of _ n]
  by (simp add: string2uint_def print_unsigned_def digits_value_def)

section \<open>Properties\<close>

lemma print_unsigned_not_empty: "print_unsigned n \<noteq> []"
  by (subst print_unsigned_def, subst decimal_digits.simps) simp

lemma print_unsigned_digit: "hd (print_unsigned n) \<noteq> CHR ''-''"
proof -
  have "is_digit (hd (print_unsigned n))"
    using print_unsigned_not_empty [of n] decimal_digits_less [of "hd (decimal_digits n)" n]
    by (auto simp: print_unsigned_def hd_map)
  then show ?thesis by (auto simp: is_digit_def)
qed

lemma string2uint_getNumberString: "string2uint (getNumberString n) = Inr n"
  using string2uint_print [of "unat n"] unsigned_less [of n, where 'a = nat] by (simp add: getNumberString_print)

lemma toint_cast_nonneg:
  assumes "0 \<le> sint n"
  shows "toint_cast (getNumberString n) = Inr n"
proof -
  obtain c cs where c: "print_unsigned (unat n) = c # cs" "c \<noteq> CHR ''-''"
    using print_unsigned_not_empty [of "unat n"] print_unsigned_digit [of "unat n"]
    by (cases "print_unsigned (unat n)") auto
  then show ?thesis
    using string2uint_getNumberString [of n] assms by (simp add: toint_cast_def getNumberString_print)
qed

lemma negated_word:
  fixes n :: "64 word"
  assumes "sint n < 0" and "n \<noteq> 0x8000000000000000"
  shows "uint (- n) = - sint n" "- n < 0x8000000000000000"
proof -
  have u: "uint n \<ge> 2 ^ 63" "sint n = uint n - 2 ^ 64"
    using assms(1) uint_bounds [of n] by (simp_all add: sint_64 split: if_splits)
  then have "n \<noteq> 0" by auto
  then have neg: "uint (- n) = 2 ^ 64 - uint n" by (rule uint_neg_64)
  then show "uint (- n) = - sint n" using u by simp
  have "uint n \<noteq> 2 ^ 63"
  proof
    assume "uint n = 2 ^ 63"
    then have "n = word_of_int (2 ^ 63)" by (metis word_of_int_uint)
    with assms(2) show False by simp
  qed
  then show "- n < 0x8000000000000000" using neg u by (simp add: word_less_def)
qed

lemma toint_cast_negative:
  assumes "sint n < 0" and "n \<noteq> 0x8000000000000000"
  shows "toint_cast (CHR ''-'' # getNumberString (- n)) = Inr n"
  using negated_word(2) [OF assms] string2uint_getNumberString [of "- n"]
  by (auto simp: toint_cast_def)

text \<open>Every unsigned integer and every signed one but the smallest is read back as itself from the
  string it is printed to, and the strings are the decimal numbers; the smallest signed integer cannot
  be printed without an overflow.\<close>
theorem integer_string_roundtrip:
  "touint_cast (tostring_cast_uint n) = Inr n \<and> tostring_cast_uint n = print_unsigned (unat n)
   \<and> (case tostring_cast_int n of
        Inr s \<Rightarrow> toint_cast s = Inr n \<and>
          s = (if sint n < 0 then CHR ''-'' # print_unsigned (nat (- sint n)) else print_unsigned (nat (sint n)))
      | Inl e \<Rightarrow> sint n = - (2 ^ 63))"
proof -
  have u: "touint_cast (tostring_cast_uint n) = Inr n" "tostring_cast_uint n = print_unsigned (unat n)"
    using string2uint_getNumberString [of n] print_unsigned_not_empty [of "unat n"]
    by (simp_all add: touint_cast_def tostring_cast_uint_def getNumberString_print)
  consider "n = 0x8000000000000000" | "sint n < 0" "n \<noteq> 0x8000000000000000" | "0 \<le> sint n" "n \<noteq> 0x8000000000000000"
    by linarith
  then show ?thesis
  proof cases
    case 1
    then have "sint n = - (2 ^ 63)" by (simp add: sint_64)
    with u 1 show ?thesis by (simp add: tostring_cast_int_def)
  next
    case 2
    then have "unat (- n) = nat (- sint n)" using negated_word(1) [OF 2] by (simp add: unat_eq_nat_uint)
    then have "getNumberString (- n) = print_unsigned (nat (- sint n))" by (simp only: getNumberString_print)
    moreover have "tostring_cast_int n = Inr (CHR ''-'' # getNumberString (- n))"
      using 2 by (simp only: tostring_cast_int_def if_True if_False)
    ultimately show ?thesis using u 2 toint_cast_negative [OF 2] by (simp only: sum.case if_True simp_thms)
  next
    case 3
    then have "sint n = uint n" using uint_bounds(2) [of n] by (simp add: sint_64 split: if_splits)
    then have "unat n = nat (sint n)" by (simp only: unat_eq_nat_uint)
    then have "getNumberString n = print_unsigned (nat (sint n))" by (simp only: getNumberString_print)
    moreover have "tostring_cast_int n = Inr (getNumberString n)" and "\<not> sint n < 0"
      using 3 by (simp_all add: tostring_cast_int_def)
    ultimately show ?thesis using u toint_cast_nonneg [OF 3(1)] by (simp only: sum.case if_False simp_thms)
  qed
qed

text \<open>Numbers that do not fit into 64 bits are not always refused: the test for an overflow is whether
  the number got smaller with the last digit, and the decimal number 30000000000000000000 passes it and
  is read as its value modulo \<open>2 ^ 64\<close>.\<close>
theorem touint_cast_overflow_accepted:
  "touint_cast (print_unsigned 30000000000000000000) = Inr (of_nat (30000000000000000000 mod 2 ^ 64))
   \<and> (30000000000000000000 :: nat) \<ge> 2 ^ 64"
proof -
  have "print_unsigned 30000000000000000000 = ''30000000000000000000''"
    by (simp add: print_unsigned_def decimal_digits.simps digit_char_def) code_simp
  then show ?thesis
    by (simp add: touint_cast_def string2uint_def is_digit_def digit_val_def Let_def word_less_def)
qed

end
