(* ===== verification/Date_Time.thy ===== *)
theory Date_Time
  imports Number_Strings
begin

text \<open>
  Dates with time, \<^verbatim>\<open>src/libwolframe/types/datetime.cpp\<close> and \<^verbatim>\<open>include/types/datetime.hpp\<close>: the packing
  into a 64 bit time stamp and back, reading and printing of the string formats, the range checks and
  the comparison. The conversions from and to \<^verbatim>\<open>MSDN\<close> dates are floating point computations over the
  calendar of a library and not modelled.
\<close>

unbundle bit_operations_syntax

section \<open>Data\<close>

datatype date_subtype = YYYYMMDD | YYYYMMDDhhmmss | YYYYMMDDhhmmss_lll | YYYYMMDDhhmmss_lllccc

definition subtype_code :: "date_subtype \<Rightarrow> nat" where
  "subtype_code st =
    (case st of YYYYMMDD \<Rightarrow> 0 | YYYYMMDDhhmmss \<Rightarrow> 1 | YYYYMMDDhhmmss_lll \<Rightarrow> 2 | YYYYMMDDhhmmss_lllccc \<Rightarrow> 3)"

record date_time =
  dt_year :: "16 word"
  dt_month :: "8 word"
  dt_day :: "8 word"
  dt_hour :: "8 word"
  dt_minute :: "8 word"
  dt_second :: "8 word"
  dt_millisecond :: "16 word"
  dt_microsecond :: "16 word"
  dt_subtype :: date_subtype

section \<open>Time stamps\<close>

definition setBits :: "64 word \<Rightarrow> 32 word \<Rightarrow> nat \<Rightarrow> nat \<Rightarrow> 64 word" where
  "setBits dest val bitidx bitrange = dest OR push_bit (63 - bitidx - bitrange) (ucast val)"

definition getBits :: "64 word \<Rightarrow> nat \<Rightarrow> nat \<Rightarrow> 32 word" where
  "getBits from bitidx bitrange =
    ucast (drop_bit (63 - bitidx - bitrange) from) AND (push_bit bitrange 1 - 1)"

definition timestamp :: "date_time \<Rightarrow> 64 word" where
  "timestamp dt =
    (let rt = 0;
         rt = setBits rt (ucast (dt_year dt)) 0 13;
         rt = setBits rt (ucast (dt_month dt)) 13 4;
         rt = setBits rt (ucast (dt_day dt)) 17 5;
         rt = setBits rt (ucast (dt_hour dt)) 22 5;
         rt = setBits rt (ucast (dt_minute dt)) 27 6;
         rt = setBits rt (ucast (dt_second dt)) 33 6;
         rt = setBits rt (ucast (dt_millisecond dt)) 39 10;
         rt = setBits rt (ucast (dt_microsecond dt)) 49 10
     in setBits rt (of_nat (subtype_code (dt_subtype dt))) 59 3)"

text \<open>The subtype is cast from three bits to the enumeration of four values.\<close>

definition subtype_cast :: "32 word \<Rightarrow> date_subtype result" where
  "subtype_cast w =
    (if w = 0 then Inr YYYYMMDD else if w = 1 then Inr YYYYMMDDhhmmss else if w = 2 then Inr YYYYMMDDhhmmss_lll
     else if w = 3 then Inr YYYYMMDDhhmmss_lllccc else Inl (Undefined ''enumeration value''))"

definition datetime_init :: "64 word \<Rightarrow> date_time result" where
  "datetime_init ts =
    rbind (subtype_cast (getBits ts 59 3)) (\<lambda>st.
      Inr \<lparr>dt_year = ucast (getBits ts 0 13), dt_month = ucast (getBits ts 13 4), dt_day = ucast (getBits ts 17 5),
           dt_hour = ucast (getBits ts 22 5), dt_minute = ucast (getBits ts 27 6), dt_second = ucast (getBits ts 33 6),
           dt_millisecond = ucast (getBits ts 39 10), dt_microsecond = ucast (getBits ts 49 10), dt_subtype = st\<rparr>)"

section \<open>Constructors\<close>

definition check_range :: "nat \<Rightarrow> nat \<Rightarrow> nat \<Rightarrow> unit result" where
  "check_range val from hi =
    (if val < from \<or> val > hi then Inl (RuntimeError ''value out of range'') else Inr ())"

definition datetime_check ::
  "16 word \<Rightarrow> 16 word \<Rightarrow> 16 word \<Rightarrow> 16 word \<Rightarrow> 16 word \<Rightarrow> 16 word \<Rightarrow> 16 word \<Rightarrow> 16 word \<Rightarrow> unit result" where
  "datetime_check YY MM DD hh mm ss ll cc =
    rbind (check_range (unat YY) 1000 2400) (\<lambda>_.
    rbind (check_range (unat MM) 1 12) (\<lambda>_.
    rbind (check_range (unat DD) 1 31) (\<lambda>_.
    rbind (check_range (unat hh) 0 23) (\<lambda>_.
    rbind (check_range (unat mm) 0 59) (\<lambda>_.
    rbind (check_range (unat ss) 0 63) (\<lambda>_.
    rbind (check_range (unat ll) 0 999) (\<lambda>_.
    check_range (unat cc) 0 999)))))))"

text \<open>The constructor of the finest format; the others pass zeros for the missing parts and have their own
  subtype.\<close>

definition datetime_new ::
  "date_subtype \<Rightarrow> 16 word \<Rightarrow> 16 word \<Rightarrow> 16 word \<Rightarrow> 16 word \<Rightarrow> 16 word \<Rightarrow> 16 word \<Rightarrow> 16 word \<Rightarrow> 16 word \<Rightarrow> date_time result" where
  "datetime_new st YY MM DD hh mm ss ll cc =
    rbind (datetime_check YY MM DD hh mm ss ll cc) (\<lambda>_.
      Inr \<lparr>dt_year = YY, dt_month = ucast MM, dt_day = ucast DD, dt_hour = ucast hh, dt_minute = ucast mm,
           dt_second = ucast ss, dt_millisecond = ll, dt_microsecond = cc, dt_subtype = st\<rparr>)"

definition datetime_microseconds where
  "datetime_microseconds YY MM DD hh mm ss ll cc = datetime_new YYYYMMDDhhmmss_lllccc YY MM DD hh mm ss ll cc"

definition datetime_milliseconds where
  "datetime_milliseconds YY MM DD hh mm ss ll = datetime_new YYYYMMDDhhmmss_lll YY MM DD hh mm ss ll 0"

definition datetime_seconds where
  "datetime_seconds YY MM DD hh mm ss = datetime_new YYYYMMDDhhmmss YY MM DD hh mm ss 0 0"

definition datetime_days where
  "datetime_days YY MM DD = datetime_new YYYYMMDD YY MM DD 0 0 0 0 0"

section \<open>Strings\<close>

text \<open>Separators are skipped only behind the digits they may follow.\<close>

definition is_separator :: "nat \<Rightarrow> char \<Rightarrow> bool" where
  "is_separator n c =
    (n = 8 \<and> c = CHR ''T'' \<or> (n = 4 \<or> n = 6) \<and> c = CHR ''-'' \<or> (n = 10 \<or> n = 12) \<and> c = CHR '':'' \<or>
     n = 14 \<and> c = CHR '','' \<or> n = 8 \<and> c = CHR '' '')"

fun datetime_digits :: "string \<Rightarrow> string \<Rightarrow> string result" where
  "datetime_digits buf [] = Inr buf"
| "datetime_digits buf (c # cs) =
    (if \<not> is_digit c then
       if is_separator (length buf) c then datetime_digits buf cs
       else Inl (RuntimeError ''illegal datetime format'')
     else datetime_digits (buf @ [c]) cs)"

definition datetime_subtype :: "nat \<Rightarrow> date_subtype result" where
  "datetime_subtype n =
    (if n = 20 then Inr YYYYMMDDhhmmss_lllccc else if n = 17 then Inr YYYYMMDDhhmmss_lll
     else if n = 14 then Inr YYYYMMDDhhmmss else if n = 8 then Inr YYYYMMDD
     else Inl (RuntimeError ''illegal datetime format (size)''))"

text \<open>\<^verbatim>\<open>atoi\<close> of a part of the buffer, which holds digits only.\<close>

definition getSubstringAsInt :: "string \<Rightarrow> nat \<Rightarrow> nat \<Rightarrow> nat" where
  "getSubstringAsInt from idx len = digits_value (map digit_val (take len (drop idx from)))"

definition datetime_zero :: date_time where
  "datetime_zero =
    \<lparr>dt_year = 0, dt_month = 0, dt_day = 0, dt_hour = 0, dt_minute = 0, dt_second = 0, dt_millisecond = 0,
     dt_microsecond = 0, dt_subtype = YYYYMMDD\<rparr>"

definition datetime_parse :: "string \<Rightarrow> date_time result" where
  "datetime_parse str =
    rbind (datetime_digits [] str) (\<lambda>buf.
    rbind (datetime_subtype (length buf)) (\<lambda>st.
    let dt = datetime_zero\<lparr>dt_subtype := st\<rparr>;
        dt = dt\<lparr>dt_year := of_nat (getSubstringAsInt buf 0 4)\<rparr> in
    rbind (check_range (unat (dt_year dt)) 1000 2400) (\<lambda>_.
    let dt = dt\<lparr>dt_month := of_nat (getSubstringAsInt buf 4 2)\<rparr> in
    rbind (check_range (unat (dt_month dt)) 1 12) (\<lambda>_.
    let dt = dt\<lparr>dt_day := of_nat (getSubstringAsInt buf 6 2)\<rparr> in
    rbind (check_range (unat (dt_day dt)) 1 31) (\<lambda>_.
    if st = YYYYMMDD then Inr dt else
    let dt = dt\<lparr>dt_hour := of_nat (getSubstringAsInt buf 8 2)\<rparr> in
    rbind (check_range (unat (dt_hour dt)) 0 23) (\<lambda>_.
    let dt = dt\<lparr>dt_minute := of_nat (getSubstringAsInt buf 10 2)\<rparr> in
    rbind (check_range (unat (dt_minute dt)) 0 59) (\<lambda>_.
    let dt = dt\<lparr>dt_second := of_nat (getSubstringAsInt buf 12 2)\<rparr> in
    rbind (check_range (unat (dt_second dt)) 0 63) (\<lambda>_.
    if st = YYYYMMDDhhmmss then Inr dt else
    let dt = dt\<lparr>dt_millisecond := of_nat (getSubstringAsInt buf 14 3)\<rparr> in
    rbind (check_range (unat (dt_millisecond dt)) 0 999) (\<lambda>_.
    if st = YYYYMMDDhhmmss_lll then Inr dt else
    let dt = dt\<lparr>dt_microsecond := of_nat (getSubstringAsInt buf 17 3)\<rparr> in
    rbind (check_range (unat (dt_microsecond dt)) 0 999) (\<lambda>_. Inr dt))))))))))"

text \<open>The digits are written from behind into a buffer of fixed size; when the value is used up the rest is
  filled with zeros, and when the buffer is full the rest of the value is dropped.\<close>

fun value_digits :: "nat \<Rightarrow> nat \<Rightarrow> string" where
  "value_digits val 0 = []"
| "value_digits val (Suc n) =
    (if val div 10 = 0 then replicate n (CHR ''0'') @ [digit_char (val mod 10)]
     else value_digits (val div 10) n @ [digit_char (val mod 10)])"

definition appendValue :: "string \<Rightarrow> nat \<Rightarrow> nat \<Rightarrow> string" where
  "appendValue dest val nofDigits = dest @ value_digits val nofDigits"

datatype string_format = YYYYMMDDhhmmssxxxxxx | ISOdateTime | ExtendedISOdateTime

definition datetime_tostring :: "string_format \<Rightarrow> date_time \<Rightarrow> string" where
  "datetime_tostring sf dt =
    (let sep = (\<lambda>compact iso ext. case sf of YYYYMMDDhhmmssxxxxxx \<Rightarrow> compact | ISOdateTime \<Rightarrow> iso | ExtendedISOdateTime \<Rightarrow> ext);
         rt = appendValue [] (unat (dt_year dt)) 4;
         rt = appendValue (rt @ sep [] [] ''-'') (unat (dt_month dt)) 2;
         rt = appendValue (rt @ sep [] [] ''-'') (unat (dt_day dt)) 2 in
     if dt_subtype dt = YYYYMMDD then rt else
     let rt = appendValue (rt @ sep [] ''T'' '' '') (unat (dt_hour dt)) 2;
         rt = appendValue (rt @ sep [] [] '':'') (unat (dt_minute dt)) 2;
         rt = appendValue (rt @ sep [] [] '':'') (unat (dt_second dt)) 2 in
     if dt_subtype dt = YYYYMMDDhhmmss then rt else
     let rt = appendValue (rt @ sep [] '','' '','') (unat (dt_millisecond dt)) 3 in
     if dt_subtype dt = YYYYMMDDhhmmss_lll then rt else
     appendValue rt (unat (dt_microsecond dt)) 3)"

section \<open>Comparison\<close>

definition compareValue :: "nat \<Rightarrow> nat \<Rightarrow> int" where
  "compareValue aa bb = (if aa = bb then 0 else if aa < bb then - 1 else 1)"

definition datetime_compare :: "date_time \<Rightarrow> date_time \<Rightarrow> int" where
  "datetime_compare a b =
    (let cmpsubtype = (if subtype_code (dt_subtype a) > subtype_code (dt_subtype b) then dt_subtype b else dt_subtype a);
         cmp = (\<lambda>f k. if compareValue (f a) (f b) \<noteq> 0 then compareValue (f a) (f b) else k) in
     cmp (\<lambda>d. unat (dt_year d)) (cmp (\<lambda>d. unat (dt_month d)) (cmp (\<lambda>d. unat (dt_day d))
       (if cmpsubtype = YYYYMMDD then 0 else
     cmp (\<lambda>d. unat (dt_hour d)) (cmp (\<lambda>d. unat (dt_minute d)) (cmp (\<lambda>d. unat (dt_second d))
       (if cmpsubtype = YYYYMMDDhhmmss then 0 else
     cmp (\<lambda>d. unat (dt_millisecond d))
       (if cmpsubtype = YYYYMMDDhhmmss_lll then 0 else
     cmp (\<lambda>d. unat (dt_microsecond d)) 0))))))))"

section \<open>Packed fields\<close>

text \<open>The number made of fields of given widths, the highest first.\<close>

fun pack_width :: "(nat \<times> nat) list \<Rightarrow> nat" where
  "pack_width [] = 0"
| "pack_width ((v, r) # fs) = r + pack_width fs"

fun pack_fields :: "(nat \<times> nat) list \<Rightarrow> nat" where
  "pack_fields [] = 0"
| "pack_fields ((v, r) # fs) = v * 2 ^ pack_width fs + pack_fields fs"

abbreviation fits :: "(nat \<times> nat) list \<Rightarrow> bool" where
  "fits fs \<equiv> list_all (\<lambda>(v, r). v < 2 ^ r) fs"

lemma pack_fields_less: "fits fs \<Longrightarrow> pack_fields fs < 2 ^ pack_width fs"
proof (induction fs)
  case (Cons f fs)
  obtain v r where f: "f = (v, r)" by force
  with Cons have "v < 2 ^ r" "pack_fields fs < 2 ^ pack_width fs" by simp_all
  then have "v * 2 ^ pack_width fs + pack_fields fs < Suc v * 2 ^ pack_width fs" by simp
  also have "\<dots> \<le> 2 ^ r * 2 ^ pack_width fs" using \<open>v < 2 ^ r\<close> by (intro mult_le_mono1) simp
  finally show ?case by (simp add: f power_add)
qed simp

lemma pack_fields_append:
  "pack_fields (fs @ gs) = pack_fields fs * 2 ^ pack_width gs + pack_fields gs"
  "pack_width (fs @ gs) = pack_width fs + pack_width gs"
  by (induction fs) (auto simp: algebra_simps power_add)

lemma pack_fields_get:
  assumes "fits ((v, r) # gs)"
  shows "pack_fields (fs @ (v, r) # gs) div 2 ^ pack_width gs mod 2 ^ r = v"
proof -
  have "pack_fields (fs @ (v, r) # gs) = (pack_fields fs * 2 ^ r + v) * 2 ^ pack_width gs + pack_fields gs"
    by (simp add: pack_fields_append power_add algebra_simps)
  then have "pack_fields (fs @ (v, r) # gs) div 2 ^ pack_width gs = pack_fields fs * 2 ^ r + v"
    using pack_fields_less [of gs] assms by simp
  then show ?thesis using assms by simp
qed

text \<open>Numbers of fields of the same widths are ordered like the lists of the values of the fields.\<close>

fun lex_less :: "nat list \<Rightarrow> nat list \<Rightarrow> bool" where
  "lex_less (x # xs) (y # ys) = (x < y \<or> x = y \<and> lex_less xs ys)"
| "lex_less _ _ = False"

lemma pack_width_zip: "length xs = length rs \<Longrightarrow> pack_width (zip xs rs) = sum_list rs"
  by (induction xs rs rule: list_induct2) simp_all

lemma pack_fields_order:
  assumes "length xs = length rs" and "length ys = length rs" and "fits (zip xs rs)" and "fits (zip ys rs)"
  shows "pack_fields (zip xs rs) < pack_fields (zip ys rs) \<longleftrightarrow> lex_less xs ys"
  using assms
proof (induction rs arbitrary: xs ys)
  case (Cons r rs)
  obtain x xs' y ys' where l: "xs = x # xs'" "ys = y # ys'"
    using Cons.prems(1,2) by (cases xs; cases ys) auto
  have w: "pack_width (zip xs' rs) = pack_width (zip ys' rs)"
    using Cons.prems(1,2) l by (simp add: pack_width_zip)
  have b: "pack_fields (zip xs' rs) < 2 ^ pack_width (zip ys' rs)" "pack_fields (zip ys' rs) < 2 ^ pack_width (zip ys' rs)"
    using pack_fields_less [of "zip xs' rs"] pack_fields_less [of "zip ys' rs"] Cons.prems(3,4) l w by simp_all
  have lt: "a * m + c < b * m + d" if "a < b" "c < m" for a b c d m :: nat
  proof -
    have "a * m + c < Suc a * m" using that by simp
    also have "\<dots> \<le> b * m" using that by (intro mult_le_mono1) simp
    finally show ?thesis by simp
  qed
  have "pack_fields (zip xs' rs) < pack_fields (zip ys' rs) \<longleftrightarrow> lex_less xs' ys'"
    using Cons.IH [of xs' ys'] Cons.prems l by simp
  then show ?case
  proof (cases x y rule: linorder_cases)
    case less
    with lt [OF less b(1)] show ?thesis by (simp add: l w)
  next
    case equal
    with \<open>_ \<longleftrightarrow> lex_less xs' ys'\<close> show ?thesis by (simp add: l w)
  next
    case greater
    with lt [OF greater b(2), of "pack_fields (zip xs' rs)"] show ?thesis by (simp add: l w)
  qed
qed simp

section \<open>Time stamps and fields\<close>

lemma setBits_number:
  assumes "unat dest = n * 2 ^ (63 - bitidx)" and "n < 2 ^ Suc bitidx" and "unat val < 2 ^ bitrange" and "bitidx + bitrange \<le> 63"
  shows "unat (setBits dest val bitidx bitrange) = (n * 2 ^ bitrange + unat val) * 2 ^ (63 - (bitidx + bitrange))"
    and "n * 2 ^ bitrange + unat val < 2 ^ Suc (bitidx + bitrange)"
proof -
  define k where "k = 63 - bitidx - bitrange"
  have k: "63 - bitidx = bitrange + k" "63 - (bitidx + bitrange) = k" using assms(4) by (simp_all add: k_def)
  show lt: "n * 2 ^ bitrange + unat val < 2 ^ Suc (bitidx + bitrange)"
  proof -
    have "n * 2 ^ bitrange + unat val < Suc n * 2 ^ bitrange" using assms(3) by simp
    also have "\<dots> \<le> 2 ^ Suc bitidx * 2 ^ bitrange" using assms(2) by (intro mult_le_mono1) simp
    finally show ?thesis by (simp add: power_add)
  qed
  have p: "unat val * 2 ^ k < 2 ^ 64"
  proof -
    have "unat val * 2 ^ k < 2 ^ bitrange * 2 ^ k" using assms(3) by simp
    also have "\<dots> = 2 ^ (63 - bitidx)" by (simp add: k power_add)
    also have "\<dots> \<le> 2 ^ 64" by (intro power_increasing) simp_all
    finally show ?thesis .
  qed
  have u: "unat (push_bit k (ucast val :: 64 word)) = unat val * 2 ^ k"
  proof -
    have "unat (ucast val :: 64 word) = unat val"
      using unsigned_less [of val, where 'a = nat] by (simp add: unsigned_ucast_eq take_bit_nat_eq_self)
    then have "unat (push_bit k (ucast val :: 64 word)) = take_bit 64 (push_bit k (unat val))"
      by (simp only: unsigned_push_bit_eq len_of_numeral_defs) simp
    also have "\<dots> = push_bit k (unat val)"
      using p by (intro take_bit_nat_eq_self) (simp only: push_bit_eq_mult)
    finally show ?thesis by (simp only: push_bit_eq_mult)
  qed
  have "unat dest AND unat val * 2 ^ k = 0"
  proof (rule bit_eqI)
    fix i
    have "bit (unat val) (i - k) \<Longrightarrow> i - k < bitrange"
      using assms(3) by (metis bit_take_bit_iff take_bit_nat_eq_self)
    then show "bit (unat dest AND unat val * 2 ^ k) i \<longleftrightarrow> bit (0 :: nat) i"
      unfolding assms(1) k(1) push_bit_eq_mult [symmetric] by (auto simp: bit_simps)
  qed
  then have "unat (setBits dest val bitidx bitrange) = unat dest + unat val * 2 ^ k"
    unfolding setBits_def k_def [symmetric] unsigned_or_eq u by (rule disjunctive_add_eq_or [symmetric])
  then show "unat (setBits dest val bitidx bitrange) = (n * 2 ^ bitrange + unat val) * 2 ^ (63 - (bitidx + bitrange))"
    by (simp add: assms(1) k power_add algebra_simps)
qed

lemma getBits_number:
  assumes "bitrange < 32"
  shows "unat (getBits ts bitidx bitrange) = unat ts div 2 ^ (63 - bitidx - bitrange) mod 2 ^ bitrange"
proof -
  have m: "push_bit bitrange 1 - 1 = (mask bitrange :: 32 word)"
    by (simp add: mask_eq_exp_minus_1 push_bit_eq_mult)
  have "unat (getBits ts bitidx bitrange) =
      take_bit bitrange (unat (ucast (drop_bit (63 - bitidx - bitrange) ts) :: 32 word))"
    unfolding getBits_def m take_bit_eq_mask [symmetric] by (simp add: unsigned_take_bit_eq)
  also have "\<dots> = take_bit bitrange (drop_bit (63 - bitidx - bitrange) (unat ts))"
    using assms unsigned_less [of ts, where 'a = nat] by (simp add: unsigned_ucast_eq unsigned_drop_bit_eq take_bit_nat_eq_self)
  finally show ?thesis by (simp add: take_bit_eq_mod drop_bit_eq_div)
qed

fun set_fields :: "64 word \<Rightarrow> nat \<Rightarrow> (32 word \<times> nat) list \<Rightarrow> 64 word" where
  "set_fields dest i [] = dest"
| "set_fields dest i ((v, r) # fs) = set_fields (setBits dest v i r) (i + r) fs"

lemma set_fields_number:
  assumes "unat dest = n * 2 ^ (63 - i)" and "n < 2 ^ Suc i" and "fits (map (apfst unat) fs)"
    and "i + pack_width (map (apfst unat) fs) \<le> 63"
  shows "unat (set_fields dest i fs) =
    (n * 2 ^ pack_width (map (apfst unat) fs) + pack_fields (map (apfst unat) fs)) *
      2 ^ (63 - (i + pack_width (map (apfst unat) fs)))"
  using assms
proof (induction fs arbitrary: dest n i)
  case (Cons f fs)
  obtain v r where f: "f = (v, r)" by force
  have "unat v < 2 ^ r" "i + r \<le> 63" using Cons.prems(3,4) by (simp_all add: f)
  note s = setBits_number [OF Cons.prems(1,2) this]
  have "fits (map (apfst unat) fs)" "i + r + pack_width (map (apfst unat) fs) \<le> 63"
    using Cons.prems(3,4) by (simp_all add: f add.assoc)
  from Cons.IH [OF s this] show ?case by (simp add: f power_add algebra_simps)
qed simp

definition datetime_fields :: "date_time \<Rightarrow> nat list" where
  "datetime_fields dt =
    [unat (dt_year dt), unat (dt_month dt), unat (dt_day dt), unat (dt_hour dt), unat (dt_minute dt),
     unat (dt_second dt), unat (dt_millisecond dt), unat (dt_microsecond dt), subtype_code (dt_subtype dt)]"

definition datetime_widths :: "nat list" where
  "datetime_widths = [13, 4, 5, 5, 6, 6, 10, 10, 3]"

lemma subtype_code_less: "subtype_code st < 4"
  by (cases st) (simp_all add: subtype_code_def)

lemma timestamp_number:
  assumes "fits (zip (datetime_fields dt) datetime_widths)"
  shows "unat (timestamp dt) = 2 * pack_fields (zip (datetime_fields dt) datetime_widths)"
proof -
  let ?fs = "zip [ucast (dt_year dt), ucast (dt_month dt), ucast (dt_day dt), ucast (dt_hour dt), ucast (dt_minute dt),
    ucast (dt_second dt), ucast (dt_millisecond dt), ucast (dt_microsecond dt),
    of_nat (subtype_code (dt_subtype dt))] datetime_widths :: (32 word \<times> nat) list"
  have up: "unat (ucast w :: 32 word) = unat w" "unat (ucast u :: 32 word) = unat u" for w :: "16 word" and u :: "8 word"
    using unsigned_less [of w, where 'a = nat] unsigned_less [of u, where 'a = nat]
    by (simp_all add: unsigned_ucast_eq take_bit_nat_eq_self)
  have sc: "unat (of_nat (subtype_code st) :: 32 word) = subtype_code st" for st
    using subtype_code_less [of st] by (simp add: unsigned_of_nat take_bit_nat_eq_self)
  have "map (apfst unat) ?fs = zip (datetime_fields dt) datetime_widths"
    by (simp add: datetime_fields_def datetime_widths_def up sc)
  moreover have "pack_width (zip (datetime_fields dt) datetime_widths) = 62"
    by (simp add: datetime_fields_def datetime_widths_def)
  moreover have "timestamp dt = set_fields 0 0 ?fs"
    by (simp add: timestamp_def datetime_widths_def)
  ultimately show ?thesis using set_fields_number [of 0 0 0 ?fs] assms by simp
qed

text \<open>What the constructors check, and that the parts finer than the subtype are zero.\<close>

definition datetime_ok :: "date_time \<Rightarrow> bool" where
  "datetime_ok dt =
    (unat (dt_year dt) \<in> {1000..2400} \<and> unat (dt_month dt) \<in> {1..12} \<and> unat (dt_day dt) \<in> {1..31} \<and>
     unat (dt_hour dt) \<le> 23 \<and> unat (dt_minute dt) \<le> 59 \<and> unat (dt_second dt) \<le> 63 \<and>
     unat (dt_millisecond dt) \<le> 999 \<and> unat (dt_microsecond dt) \<le> 999 \<and>
     (dt_subtype dt = YYYYMMDD \<longrightarrow> dt_hour dt = 0 \<and> dt_minute dt = 0 \<and> dt_second dt = 0) \<and>
     (dt_subtype dt \<in> {YYYYMMDD, YYYYMMDDhhmmss} \<longrightarrow> dt_millisecond dt = 0) \<and>
     (dt_subtype dt \<noteq> YYYYMMDDhhmmss_lllccc \<longrightarrow> dt_microsecond dt = 0))"

lemma datetime_ok_fits: "datetime_ok dt \<Longrightarrow> fits (zip (datetime_fields dt) datetime_widths)"
  using subtype_code_less [of "dt_subtype dt"]
  by (simp add: datetime_ok_def datetime_fields_def datetime_widths_def)

lemma ucast_same_number: "unat w = unat x \<Longrightarrow> ucast w = (x :: 'a :: len word)"
  by (metis of_nat_unat ucast_id)

lemma subtype_cast_code: "unat w = subtype_code st \<Longrightarrow> subtype_cast w = Inr st"
proof -
  assume "unat w = subtype_code st"
  then have "w = of_nat (subtype_code st)" by (metis of_nat_unat ucast_id)
  then show ?thesis by (cases st) (simp_all add: subtype_code_def subtype_cast_def)
qed

lemma datetime_init_timestamp:
  assumes "datetime_ok dt"
  shows "datetime_init (timestamp dt) = Inr dt"
proof -
  let ?z = "zip (datetime_fields dt) datetime_widths @ [(0, 1)]"
  have fits: "fits ?z" using datetime_ok_fits [OF assms] by simp
  have "unat (timestamp dt) = pack_fields ?z"
    using timestamp_number [OF datetime_ok_fits [OF assms]] by (simp add: pack_fields_append)
  then have g: "unat (getBits (timestamp dt) i r) = v"
    if "?z = fs @ (v, r) # gs" "63 - i - r = pack_width gs" "r < 32" for i r v fs gs
  proof -
    have "fits ((v, r) # gs)" using fits unfolding that(1) by simp
    then show ?thesis
      using getBits_number [OF that(3), of "timestamp dt" i] pack_fields_get [of v r gs fs] \<open>unat _ = _\<close>
      unfolding that(1,2) by simp
  qed
  have "unat (getBits (timestamp dt) 0 13) = unat (dt_year dt)"
    by (rule g [of "[]" _ _ "drop 1 ?z"]) (simp_all add: datetime_fields_def datetime_widths_def)
  moreover have "unat (getBits (timestamp dt) 13 4) = unat (dt_month dt)"
    by (rule g [of "take 1 ?z" _ _ "drop 2 ?z"]) (simp_all add: datetime_fields_def datetime_widths_def)
  moreover have "unat (getBits (timestamp dt) 17 5) = unat (dt_day dt)"
    by (rule g [of "take 2 ?z" _ _ "drop 3 ?z"]) (simp_all add: datetime_fields_def datetime_widths_def)
  moreover have "unat (getBits (timestamp dt) 22 5) = unat (dt_hour dt)"
    by (rule g [of "take 3 ?z" _ _ "drop 4 ?z"]) (simp_all add: datetime_fields_def datetime_widths_def)
  moreover have "unat (getBits (timestamp dt) 27 6) = unat (dt_minute dt)"
    by (rule g [of "take 4 ?z" _ _ "drop 5 ?z"]) (simp_all add: datetime_fields_def datetime_widths_def)
  moreover have "unat (getBits (timestamp dt) 33 6) = unat (dt_second dt)"
    by (rule g [of "take 5 ?z" _ _ "drop 6 ?z"]) (simp_all add: datetime_fields_def datetime_widths_def)
  moreover have "unat (getBits (timestamp dt) 39 10) = unat (dt_millisecond dt)"
    by (rule g [of "take 6 ?z" _ _ "drop 7 ?z"]) (simp_all add: datetime_fields_def datetime_widths_def)
  moreover have "unat (getBits (timestamp dt) 49 10) = unat (dt_microsecond dt)"
    by (rule g [of "take 7 ?z" _ _ "drop 8 ?z"]) (simp_all add: datetime_fields_def datetime_widths_def)
  moreover have "unat (getBits (timestamp dt) 59 3) = subtype_code (dt_subtype dt)"
    by (rule g [of "take 8 ?z" _ _ "drop 9 ?z"]) (simp_all add: datetime_fields_def datetime_widths_def)
  ultimately show ?thesis
    by (simp add: datetime_init_def subtype_cast_code ucast_same_number)
qed

lemma timestamp_order:
  assumes "datetime_ok a" and "datetime_ok b"
  shows "timestamp a < timestamp b \<longleftrightarrow> lex_less (datetime_fields a) (datetime_fields b)"
proof -
  have "timestamp a < timestamp b \<longleftrightarrow> pack_fields (zip (datetime_fields a) datetime_widths) <
      pack_fields (zip (datetime_fields b) datetime_widths)"
    using timestamp_number datetime_ok_fits assms by (simp add: word_less_nat_alt)
  also have "\<dots> \<longleftrightarrow> lex_less (datetime_fields a) (datetime_fields b)"
    by (rule pack_fields_order [OF _ _ datetime_ok_fits datetime_ok_fits])
       (simp_all add: assms, simp_all add: datetime_fields_def datetime_widths_def)
  finally show ?thesis .
qed

section \<open>Strings of dates\<close>

lemma length_value_digits [simp]: "length (value_digits v n) = n"
  by (induction v n rule: value_digits.induct) simp_all

lemma value_digits_are_digits: "list_all is_digit (value_digits v n)"
proof (induction v n rule: value_digits.induct)
  case (2 v n)
  have "v mod 10 < 10" "is_digit (CHR ''0'')" by (simp_all add: is_digit_def)
  with 2 show ?case by (simp add: list_all_iff)
qed simp

lemma digits_value_replicate: "digits_value (replicate n 0) = 0"
  by (simp add: digits_value_def) (induction n, simp_all)

lemma digits_value_value_digits: "v < 10 ^ n \<Longrightarrow> digits_value (map digit_val (value_digits v n)) = v"
proof (induction v n rule: value_digits.induct)
  case (2 v n)
  show ?case
  proof (cases "v div 10 = 0")
    case True
    then have "v mod 10 = v" by simp
    moreover have "digit_val (CHR ''0'') = 0" by (simp add: digit_val_def)
    ultimately show ?thesis using True by (simp add: digits_value_replicate)
  next
    case False
    with 2 have "digits_value (map digit_val (value_digits (v div 10) n)) = v div 10" by simp
    with False show ?thesis by simp
  qed
qed simp

lemma datetime_digits_append:
  "list_all is_digit ds \<Longrightarrow> datetime_digits buf (ds @ cs) = datetime_digits (buf @ ds) cs"
  by (induction ds arbitrary: buf) simp_all

lemma datetime_digits_separator:
  "\<not> is_digit c \<Longrightarrow> is_separator (length buf) c \<Longrightarrow> datetime_digits buf (c # cs) = datetime_digits buf cs"
  by simp

lemma datetime_parse_ok: "datetime_parse s = Inr dt \<Longrightarrow> datetime_ok dt"
  by (auto simp: datetime_parse_def datetime_ok_def Let_def rbind_eq_Inr_iff check_range_def datetime_zero_def datetime_subtype_def
      split: if_splits)

definition datetime_text :: "date_time \<Rightarrow> string" where
  "datetime_text dt =
    value_digits (unat (dt_year dt)) 4 @ value_digits (unat (dt_month dt)) 2 @ value_digits (unat (dt_day dt)) 2 @
    (if dt_subtype dt = YYYYMMDD then [] else
       value_digits (unat (dt_hour dt)) 2 @ value_digits (unat (dt_minute dt)) 2 @ value_digits (unat (dt_second dt)) 2 @
       (if dt_subtype dt = YYYYMMDDhhmmss then [] else
          value_digits (unat (dt_millisecond dt)) 3 @
          (if dt_subtype dt = YYYYMMDDhhmmss_lll then [] else value_digits (unat (dt_microsecond dt)) 3)))"

lemma datetime_digits_tostring: "datetime_digits [] (datetime_tostring sf dt) = Inr (datetime_text dt)"
proof -
  have a: "datetime_digits buf (value_digits v n @ cs) = datetime_digits (buf @ value_digits v n) cs"
    "datetime_digits buf (value_digits v n) = Inr (buf @ value_digits v n)" for buf v n cs
    using datetime_digits_append [OF value_digits_are_digits, of buf v n cs]
      datetime_digits_append [OF value_digits_are_digits, of buf v n "[]"] by simp_all
  show ?thesis
    by (cases sf; cases "dt_subtype dt")
       (simp_all add: datetime_tostring_def datetime_text_def Let_def appendValue_def a is_digit_def is_separator_def
         del: value_digits.simps)
qed

lemma datetime_parse_tostring:
  assumes "datetime_ok dt"
  shows "datetime_parse (datetime_tostring sf dt) = Inr dt"
proof -
  have w: "of_nat (unat x) = x" for x :: "'w :: len word" by simp
  have v: "digits_value (map digit_val (value_digits (unat (dt_year dt)) 4)) = unat (dt_year dt)"
    "digits_value (map digit_val (value_digits (unat (dt_month dt)) 2)) = unat (dt_month dt)"
    "digits_value (map digit_val (value_digits (unat (dt_day dt)) 2)) = unat (dt_day dt)"
    "digits_value (map digit_val (value_digits (unat (dt_hour dt)) 2)) = unat (dt_hour dt)"
    "digits_value (map digit_val (value_digits (unat (dt_minute dt)) 2)) = unat (dt_minute dt)"
    "digits_value (map digit_val (value_digits (unat (dt_second dt)) 2)) = unat (dt_second dt)"
    "digits_value (map digit_val (value_digits (unat (dt_millisecond dt)) 3)) = unat (dt_millisecond dt)"
    "digits_value (map digit_val (value_digits (unat (dt_microsecond dt)) 3)) = unat (dt_microsecond dt)"
    using assms by (auto simp: datetime_ok_def intro!: digits_value_value_digits)
  have c: "check_range (unat (dt_year dt)) 1000 2400 = Inr ()" "check_range (unat (dt_month dt)) 1 12 = Inr ()"
    "check_range (unat (dt_day dt)) 1 31 = Inr ()" "check_range (unat (dt_hour dt)) 0 23 = Inr ()"
    "check_range (unat (dt_minute dt)) 0 59 = Inr ()" "check_range (unat (dt_second dt)) 0 63 = Inr ()"
    "check_range (unat (dt_millisecond dt)) 0 999 = Inr ()" "check_range (unat (dt_microsecond dt)) 0 999 = Inr ()"
    using assms by (simp_all add: datetime_ok_def check_range_def not_less)
  show ?thesis
    unfolding datetime_parse_def datetime_digits_tostring rbind_Inr
    using assms
    by (cases "dt_subtype dt")
       (simp_all add: datetime_text_def datetime_subtype_def getSubstringAsInt_def v c Let_def datetime_zero_def
         datetime_ok_def del: value_digits.simps One_nat_def)
qed

text \<open>C27: a date that is read from a string survives every transport: its time stamp is unpacked to the
  same date, each of the three string formats is read back as the same date, and time stamps are
  ordered as numbers exactly like the dates are ordered by their parts from the year to the
  microsecond, dates of coarser precision first.\<close>
theorem datetime_transport:
  assumes "datetime_parse s = Inr a" and "datetime_parse t = Inr b"
  shows "datetime_init (timestamp a) = Inr a \<and> datetime_parse (datetime_tostring sf a) = Inr a
    \<and> (timestamp a < timestamp b \<longleftrightarrow> lex_less (datetime_fields a) (datetime_fields b))
    \<and> (timestamp a = timestamp b \<longleftrightarrow> a = b)"
proof -
  note ok = assms [THEN datetime_parse_ok]
  have "timestamp a = timestamp b \<longleftrightarrow> a = b"
    using ok [THEN datetime_init_timestamp] by (metis sum.inject(2))
  then show ?thesis
    using ok by (simp add: datetime_init_timestamp datetime_parse_tostring timestamp_order)
qed

theorem datetime_transport_witness:
  "\<exists>a b. datetime_parse ''2001-11-26 23:43:12,123'' = Inr a \<and> datetime_parse ''20011126'' = Inr b \<and> timestamp b < timestamp a"
proof -
  obtain a where a: "datetime_parse ''2001-11-26 23:43:12,123'' = Inr a"
    and fa: "datetime_fields a = [2001, 11, 26, 23, 43, 12, 123, 0, 2]"
    by (simp add: datetime_parse_def is_digit_def is_separator_def datetime_subtype_def getSubstringAsInt_def
        digits_value_def digit_val_def check_range_def datetime_zero_def Let_def datetime_fields_def subtype_code_def)
  obtain b where b: "datetime_parse ''20011126'' = Inr b" and fb: "datetime_fields b = [2001, 11, 26, 0, 0, 0, 0, 0, 0]"
    by (simp add: datetime_parse_def is_digit_def is_separator_def datetime_subtype_def getSubstringAsInt_def
        digits_value_def digit_val_def check_range_def datetime_zero_def Let_def datetime_fields_def subtype_code_def)
  show ?thesis using datetime_transport [OF b a, of ISOdateTime] a b by (simp add: fa fb)
qed

text \<open>The comparison of dates looks only at the parts that both have: a date without time is equal to every
  time of its day, so that equality is not transitive, while the time stamps differ.\<close>

lemma datetime_compare_common:
  assumes "dt_subtype a = YYYYMMDD" and "dt_year a = dt_year b" and "dt_month a = dt_month b" and "dt_day a = dt_day b"
  shows "datetime_compare a b = 0 \<and> datetime_compare b a = 0"
  using assms by (cases "dt_subtype b") (simp_all add: datetime_compare_def compareValue_def subtype_code_def Let_def)

lemma datetime_compare_same_subtype:
  assumes "dt_subtype a = dt_subtype b" and "datetime_ok a" and "datetime_ok b"
  shows "datetime_compare a b < 0 \<longleftrightarrow> timestamp a < timestamp b"
  unfolding timestamp_order [OF assms(2,3)]
  using assms
  by (cases "dt_subtype b")
     (simp_all add: datetime_compare_def compareValue_def datetime_fields_def Let_def datetime_ok_def)

end
