(* ===== verification/Big_Number.thy ===== *)
theory Big_Number
  imports Complex_Main Number_Strings
begin

text \<open>
  Decimal numbers of any size, \<^verbatim>\<open>src/libwolframe/types/bignumber.cpp\<close>: the state machine that reads a
  number, printing, conversion to integers and comparison. The scale is a 16 bit word with the
  wrap-around of \<^verbatim>\<open>short\<close>; the digits are the array \<^verbatim>\<open>m_ar\<close> of \<^verbatim>\<open>m_size\<close> elements, and an access behind
  it is undefined. The conversion to a floating point number is not modelled.
\<close>

section \<open>Data\<close>

record big_number =
  bn_sign :: bool
  bn_scale :: "16 word"
  bn_digits :: "nat list"

definition bignumber_new :: big_number where
  "bignumber_new = \<lparr>bn_sign = False, bn_scale = 0, bn_digits = []\<rparr>"

definition bignumber_isvalid :: "big_number \<Rightarrow> bool" where
  "bignumber_isvalid b =
    ((bn_digits b = [] \<longrightarrow> bn_scale b = 0 \<and> \<not> bn_sign b) \<and> list_all (\<lambda>d. d \<le> 9) (bn_digits b))"

section \<open>Reading\<close>

datatype number_state = NUMS | NUM0 | NUM1 | FRC0 | FRC1 | EXPE | EXPS | EXP0 | EXP1

record number_parser =
  np_state :: number_state
  np_number :: big_number
  np_scaleinc :: "16 word"
  np_prev_scaleinc :: "16 word"
  np_expsign :: bool

definition number_syntax_error :: cpp_error where
  "number_syntax_error = RuntimeError ''syntax error in big number string''"

definition number_range_error :: cpp_error where
  "number_range_error = RuntimeError ''conversion error: big number value in string is out of range''"

definition np_push :: "char \<Rightarrow> number_parser \<Rightarrow> number_parser" where
  "np_push c p = p\<lparr>np_number := (np_number p)\<lparr>bn_digits := bn_digits (np_number p) @ [digit_val c]\<rparr>\<rparr>"

definition np_scale :: "number_parser \<Rightarrow> number_parser" where
  "np_scale p = p\<lparr>np_number := (np_number p)\<lparr>bn_scale := bn_scale (np_number p) + 1\<rparr>\<rparr>"

text \<open>One definition per case of the switch, the ones without a break continue with the next.\<close>

definition case_EXP1 :: "char \<Rightarrow> number_parser \<Rightarrow> number_parser result" where
  "case_EXP1 c p =
    (if is_digit c then
       let s = np_scaleinc p * 10 + of_nat (digit_val c) in
       if sint (np_prev_scaleinc p) > sint s then Inl number_range_error
       else Inr (p\<lparr>np_scaleinc := s, np_prev_scaleinc := s\<rparr>)
     else Inl number_syntax_error)"

definition case_EXP0 :: "char \<Rightarrow> number_parser \<Rightarrow> number_parser result" where
  "case_EXP0 c p = (if c = CHR ''0'' then Inr p else case_EXP1 c (p\<lparr>np_state := EXP1\<rparr>))"

definition case_EXPS :: "char \<Rightarrow> number_parser \<Rightarrow> number_parser result" where
  "case_EXPS c p =
    (let p = p\<lparr>np_state := EXP0\<rparr> in
     if c = CHR ''-'' then Inr (p\<lparr>np_expsign := True\<rparr>)
     else if c = CHR ''+'' then Inr (p\<lparr>np_expsign := False\<rparr>) else case_EXP0 c p)"

definition case_EXPE :: "char \<Rightarrow> number_parser \<Rightarrow> number_parser result" where
  "case_EXPE c p =
    (if c = CHR '' '' then Inr p else if c = CHR ''E'' then Inr (p\<lparr>np_state := EXPS\<rparr>)
     else Inl number_syntax_error)"

definition case_FRC1 :: "char \<Rightarrow> number_parser \<Rightarrow> number_parser result" where
  "case_FRC1 c p =
    (if is_digit c then Inr (np_scale (np_push c p)) else case_EXPE c (p\<lparr>np_state := EXPE\<rparr>))"

definition case_FRC0 :: "char \<Rightarrow> number_parser \<Rightarrow> number_parser result" where
  "case_FRC0 c p = (if c = CHR ''0'' then Inr (np_scale p) else case_FRC1 c (p\<lparr>np_state := FRC1\<rparr>))"

definition case_NUM1 :: "char \<Rightarrow> number_parser \<Rightarrow> number_parser result" where
  "case_NUM1 c p =
    (if is_digit c then Inr (np_push c p)
     else if c = CHR ''.'' then Inr (p\<lparr>np_state := (if bn_digits (np_number p) \<noteq> [] then FRC1 else FRC0)\<rparr>)
     else Inr (p\<lparr>np_state := EXPE\<rparr>))"

definition case_NUM0 :: "char \<Rightarrow> number_parser \<Rightarrow> number_parser result" where
  "case_NUM0 c p = (if c = CHR ''0'' then Inr p else case_NUM1 c (p\<lparr>np_state := NUM1\<rparr>))"

definition case_NUMS :: "char \<Rightarrow> number_parser \<Rightarrow> number_parser result" where
  "case_NUMS c p =
    (let p = p\<lparr>np_state := NUM0\<rparr> in
     if c = CHR ''-'' then Inr (p\<lparr>np_number := (np_number p)\<lparr>bn_sign := True\<rparr>\<rparr>)
     else if c = CHR ''+'' then Inr (p\<lparr>np_number := (np_number p)\<lparr>bn_sign := False\<rparr>\<rparr>) else case_NUM0 c p)"

definition number_step :: "char \<Rightarrow> number_parser \<Rightarrow> number_parser result" where
  "number_step c p =
    (case np_state p of NUMS \<Rightarrow> case_NUMS c p | NUM0 \<Rightarrow> case_NUM0 c p | NUM1 \<Rightarrow> case_NUM1 c p
     | FRC0 \<Rightarrow> case_FRC0 c p | FRC1 \<Rightarrow> case_FRC1 c p | EXPE \<Rightarrow> case_EXPE c p | EXPS \<Rightarrow> case_EXPS c p
     | EXP0 \<Rightarrow> case_EXP0 c p | EXP1 \<Rightarrow> case_EXP1 c p)"

fun number_loop :: "string \<Rightarrow> number_parser \<Rightarrow> number_parser result" where
  "number_loop [] p = Inr p"
| "number_loop (c # cs) p = rbind (number_step c p) (number_loop cs)"

definition number_start :: number_parser where
  "number_start = \<lparr>np_state = NUMS, np_number = bignumber_new, np_scaleinc = 0, np_prev_scaleinc = 0, np_expsign = False\<rparr>"

text \<open>The exponent is applied to the scale, with a test for the overflow.\<close>

definition number_end :: "number_parser \<Rightarrow> big_number result" where
  "number_end p =
    (let b = np_number p; scale' = (if np_expsign p then bn_scale b + np_scaleinc p else bn_scale b - np_scaleinc p) in
     if (if np_expsign p then sint (bn_scale b) > sint scale' else sint (bn_scale b) < sint scale')
     then Inl number_range_error
     else Inr (if bn_digits b = [] then bignumber_new else b\<lparr>bn_scale := scale'\<rparr>))"

definition bignumber_parse :: "string \<Rightarrow> big_number result" where
  "bignumber_parse val =
    (let rest = dropWhile (\<lambda>c. c = CHR ''0'') val in
     if rest = [] then Inr bignumber_new
     else if length rest > 65535 then Inl BadAlloc
     else rbind (number_loop rest number_start) number_end)"

section \<open>Integers\<close>

definition bignumber_of_uint :: "64 word \<Rightarrow> big_number result" where
  "bignumber_of_uint n = bignumber_parse (tostring_cast_uint n)"

definition bignumber_of_int :: "64 word \<Rightarrow> big_number result" where
  "bignumber_of_int n = rbind (tostring_cast_int n) bignumber_parse"

text \<open>The loop over the digits does not move to the next digit: it adds the first one until the number does
  not grow any more.\<close>

function touint_loop :: "64 word \<Rightarrow> 64 word \<Rightarrow> 64 word result" where
  "touint_loop d prev =
    (let rt = prev * 10 + d in
     if \<not> rt > prev
     then Inl (RuntimeError ''conversion error: big number value to big to convert to unsigned integer'')
     else touint_loop d rt)"
  by auto

termination
proof (relation "measure (\<lambda>(d, prev). 2 ^ 64 - unat prev)")
  fix d prev rt :: "64 word"
  assume "rt = prev * 10 + d" "\<not> \<not> prev < rt"
  then have "unat prev < unat rt" "unat rt < 2 ^ 64"
    using unsigned_less [of rt, where 'a = nat] by (simp_all add: word_less_nat_alt)
  then show "((d, rt), d, prev) \<in> measure (\<lambda>(d, prev). 2 ^ 64 - unat prev)" by simp
qed simp

declare touint_loop.simps [simp del]

definition bignumber_touint :: "big_number \<Rightarrow> 64 word result" where
  "bignumber_touint b =
    (if bn_sign b then Inl (RuntimeError ''conversion error: negative bcd number to unsigned integer'')
     else if bn_scale b \<noteq> 0 then Inl (RuntimeError ''conversion error: bcd number with fraction to unsigned integer'')
     else if bn_digits b = [] then Inr 0 else touint_loop (of_nat (hd (bn_digits b))) 0)"

definition bignumber_toint :: "big_number \<Rightarrow> 64 word result" where
  "bignumber_toint b =
    rbind (bignumber_touint b) (\<lambda>val.
      if sint val < 0 then Inl (RuntimeError ''conversion error: big number value to big to convert to signed integer'')
      else Inr (if bn_sign b then - val else val))"

section \<open>Printing\<close>

abbreviation digit_string :: "nat list \<Rightarrow> string" where
  "digit_string ds \<equiv> map digit_char ds"

text \<open>With a negative scale the loop that should append zeros copies the leading digits again, and reads
  behind the array when there are not enough.\<close>

definition numtostring :: "bool \<Rightarrow> nat list \<Rightarrow> int \<Rightarrow> int \<Rightarrow> string result" where
  "numtostring sign digits numscale expo =
    (let size = length digits; n = nat numscale;
         rt = (if sign then ''-'' else []) in
     if size = 0 then Inr ''0''
     else if numscale = 0 then Inr (rt @ digit_string digits)
     else rbind
       (if numscale > 0 then
          Inr (if n \<ge> size then rt @ ''0.'' @ replicate (n - size) (CHR ''0'') @ digit_string digits
               else rt @ digit_string (take (size - n) digits) @ ''.'' @ digit_string (drop (size - n) digits))
        else if nat (- numscale) > size then Inl (Undefined ''read behind the digits'')
        else Inr (rt @ digit_string digits @ digit_string (take (nat (- numscale)) digits)))
       (\<lambda>rt. if expo \<noteq> 0 then rbind (tostring_cast_int (of_int expo)) (\<lambda>e. Inr (rt @ ''E'' @ e)) else Inr rt))"

definition bignumber_tostring :: "big_number \<Rightarrow> string result" where
  "bignumber_tostring b = numtostring (bn_sign b) (bn_digits b) (sint (bn_scale b)) 0"

fun cut_zeros :: "nat list \<Rightarrow> nat \<Rightarrow> nat list \<times> nat" where
  "cut_zeros digits 0 = (digits, 0)"
| "cut_zeros digits (Suc n) =
    (if digits \<noteq> [] \<and> last digits = 0 then cut_zeros (butlast digits) n else (digits, Suc n))"

definition bignumber_tostringNormalized :: "big_number \<Rightarrow> string result" where
  "bignumber_tostringNormalized b =
    (let numscale = sint (bn_scale b); numsize = int (length (bn_digits b));
         (expo, numscale) =
           (if numscale < 0 \<and> - numscale > numsize then (- numscale + numsize, numsize)
            else if numscale > numsize then (- (numscale - numsize), numsize) else (0, numscale)) in
     if numscale > 0 then
       case cut_zeros (bn_digits b) (nat numscale) of (digits, n) \<Rightarrow> numtostring (bn_sign b) digits (int n) expo
     else numtostring (bn_sign b) (bn_digits b) numscale expo)"

section \<open>Comparison\<close>

text \<open>The digits behind the common ones are read from the shorter array.\<close>

fun compare_digits :: "int \<Rightarrow> int \<Rightarrow> nat list \<Rightarrow> nat list \<Rightarrow> int result" where
  "compare_digits smaller bigger (x # xs) (y # ys) =
    (if x \<noteq> y then Inr (if x < y then smaller else bigger) else compare_digits smaller bigger xs ys)"
| "compare_digits smaller bigger [] [] = Inr 0"
| "compare_digits smaller bigger _ _ = Inl (Undefined ''read behind the digits'')"

definition bignumber_compare :: "big_number \<Rightarrow> big_number \<Rightarrow> int result" where
  "bignumber_compare a b =
    (if bn_sign a \<noteq> bn_sign b then Inr (if bn_sign a then - 1 else 1)
     else let smaller = (if bn_sign a then 1 else - 1); bigger = (if bn_sign a then - 1 else 1);
              rt = (int (length (bn_digits a)) - sint (bn_scale a)) - (int (length (bn_digits b)) - sint (bn_scale b)) in
       if rt < 0 then Inr smaller else if rt > 0 then Inr bigger
       else compare_digits smaller bigger (bn_digits a) (bn_digits b))"

section \<open>Well-formed numbers\<close>

definition bn_wf :: "big_number \<Rightarrow> bool" where
  "bn_wf b =
    (bignumber_isvalid b \<and> (bn_digits b \<noteq> [] \<longrightarrow> hd (bn_digits b) \<noteq> 0) \<and> length (bn_digits b) \<le> 65535)"

lemmas number_step_defs =
  number_step_def case_NUMS_def case_NUM0_def case_NUM1_def case_FRC0_def case_FRC1_def case_EXPE_def
  case_EXPS_def case_EXP0_def case_EXP1_def np_push_def np_scale_def

definition np_ok :: "number_parser \<Rightarrow> bool" where
  "np_ok p =
    (list_all (\<lambda>d. d \<le> 9) (bn_digits (np_number p)) \<and>
     (bn_digits (np_number p) \<noteq> [] \<longrightarrow> hd (bn_digits (np_number p)) \<noteq> 0) \<and>
     (np_state p \<in> {NUMS, NUM0, FRC0} \<longrightarrow> bn_digits (np_number p) = []) \<and>
     (np_state p \<in> {NUM1, FRC1} \<longrightarrow> bn_digits (np_number p) \<noteq> []))"

lemma digit_val_le: "is_digit c \<Longrightarrow> digit_val c \<le> 9"
  using digit_val_less [of c] by simp

lemma digit_val_zero: "is_digit c \<Longrightarrow> digit_val c = 0 \<longleftrightarrow> c = CHR ''0''"
  using digit_char_digit_val [of c] by (auto simp: digit_char_0 digit_val_def)

abbreviation np_digits :: "number_parser \<Rightarrow> nat list" where
  "np_digits p \<equiv> bn_digits (np_number p)"

lemma exponent_cases:
  "case_EXP1 c p = Inr p' \<Longrightarrow> np_number p' = np_number p \<and> np_state p' = np_state p"
  "case_EXP0 c p = Inr p' \<Longrightarrow> np_number p' = np_number p \<and> np_state p' \<in> {np_state p, EXP1}"
  "case_EXPS c p = Inr p' \<Longrightarrow> np_number p' = np_number p \<and> np_state p' \<in> {EXP0, EXP1}"
  "case_EXPE c p = Inr p' \<Longrightarrow> np_number p' = np_number p \<and> np_state p' \<in> {np_state p, EXPS}"
proof -
  show 1: "case_EXP1 c p = Inr p' \<Longrightarrow> np_number p' = np_number p \<and> np_state p' = np_state p" for p
    by (auto simp: case_EXP1_def Let_def split: if_splits)
  show 2: "case_EXP0 c p = Inr p' \<Longrightarrow> np_number p' = np_number p \<and> np_state p' \<in> {np_state p, EXP1}" for p
    using 1 [of "p\<lparr>np_state := EXP1\<rparr>"] by (simp add: case_EXP0_def split: if_splits)
  show "case_EXPS c p = Inr p' \<Longrightarrow> np_number p' = np_number p \<and> np_state p' \<in> {EXP0, EXP1}"
    using 2 [of "p\<lparr>np_state := EXP0\<rparr>"] by (auto simp: case_EXPS_def Let_def split: if_splits)
  show "case_EXPE c p = Inr p' \<Longrightarrow> np_number p' = np_number p \<and> np_state p' \<in> {np_state p, EXPS}"
    by (auto simp: case_EXPE_def split: if_splits)
qed

text \<open>The digits grow by at most one, and the first one is not a zero.\<close>

definition np_grows :: "char \<Rightarrow> number_parser \<Rightarrow> number_parser \<Rightarrow> bool" where
  "np_grows c p p' =
    ((np_digits p' = np_digits p \<or> np_digits p' = np_digits p @ [digit_val c] \<and> is_digit c \<and>
        (np_digits p = [] \<longrightarrow> c \<noteq> CHR ''0'')) \<and>
     (np_state p' \<in> {NUMS, NUM0, FRC0} \<longrightarrow> np_digits p' = []) \<and>
     (np_state p' \<in> {NUM1, FRC1} \<longrightarrow> np_digits p' \<noteq> []))"

lemma fraction_grows:
  "case_FRC1 c p = Inr p' \<Longrightarrow> np_state p = FRC1 \<Longrightarrow> np_digits p = [] \<longrightarrow> c \<noteq> CHR ''0'' \<Longrightarrow> np_grows c p p'"
  "case_FRC0 c p = Inr p' \<Longrightarrow> np_state p = FRC0 \<Longrightarrow> np_digits p = [] \<Longrightarrow> np_grows c p p'"
proof -
  show 1: "case_FRC1 c p = Inr p' \<Longrightarrow> np_state p = FRC1 \<Longrightarrow> np_digits p = [] \<longrightarrow> c \<noteq> CHR ''0'' \<Longrightarrow> np_grows c p p'" for p
    using exponent_cases(4) [of c "p\<lparr>np_state := EXPE\<rparr>" p']
    by (cases "is_digit c") (auto simp: case_FRC1_def np_grows_def np_push_def np_scale_def)
  show "case_FRC0 c p = Inr p' \<Longrightarrow> np_state p = FRC0 \<Longrightarrow> np_digits p = [] \<Longrightarrow> np_grows c p p'"
    using 1 [of "p\<lparr>np_state := FRC1\<rparr>"]
    by (cases "c = CHR ''0''") (auto simp: case_FRC0_def np_grows_def np_scale_def)
qed

lemma integer_grows:
  "case_NUM1 c p = Inr p' \<Longrightarrow> np_state p = NUM1 \<Longrightarrow> np_digits p = [] \<longrightarrow> c \<noteq> CHR ''0'' \<Longrightarrow> np_grows c p p'"
  "case_NUM0 c p = Inr p' \<Longrightarrow> np_state p = NUM0 \<Longrightarrow> np_digits p = [] \<Longrightarrow> np_grows c p p'"
  "case_NUMS c p = Inr p' \<Longrightarrow> np_state p = NUMS \<Longrightarrow> np_digits p = [] \<Longrightarrow> np_grows c p p'"
proof -
  show 1: "case_NUM1 c p = Inr p' \<Longrightarrow> np_state p = NUM1 \<Longrightarrow> np_digits p = [] \<longrightarrow> c \<noteq> CHR ''0'' \<Longrightarrow> np_grows c p p'" for p
    by (cases "is_digit c"; cases "c = CHR ''.''") (auto simp: case_NUM1_def np_grows_def np_push_def split: if_splits)
  show 2: "case_NUM0 c p = Inr p' \<Longrightarrow> np_state p = NUM0 \<Longrightarrow> np_digits p = [] \<Longrightarrow> np_grows c p p'" for p
    using 1 [of "p\<lparr>np_state := NUM1\<rparr>"] by (cases "c = CHR ''0''") (auto simp: case_NUM0_def np_grows_def)
  show "case_NUMS c p = Inr p' \<Longrightarrow> np_state p = NUMS \<Longrightarrow> np_digits p = [] \<Longrightarrow> np_grows c p p'"
    using 2 [of "p\<lparr>np_state := NUM0\<rparr>"]
    by (cases "c = CHR ''-''"; cases "c = CHR ''+''") (auto simp: case_NUMS_def Let_def np_grows_def)
qed

lemma number_step_grows: "number_step c p = Inr p' \<Longrightarrow> np_ok p \<Longrightarrow> np_grows c p p'"
  using fraction_grows [of c p p'] integer_grows [of c p p'] exponent_cases [of c p p']
  by (cases "np_state p") (auto simp: number_step_def np_ok_def np_grows_def)

lemma number_step_ok:
  assumes "number_step c p = Inr p'" and "np_ok p"
  shows "np_ok p' \<and> length (np_digits p') \<le> Suc (length (np_digits p))"
proof -
  have "np_digits p' = np_digits p \<or> np_digits p' = np_digits p @ [digit_val c] \<and> is_digit c \<and>
      (np_digits p = [] \<longrightarrow> c \<noteq> CHR ''0'')"
    using number_step_grows [OF assms] by (simp add: np_grows_def)
  then show ?thesis
    using number_step_grows [OF assms] assms(2) digit_val_le [of c] digit_val_zero [of c]
    by (cases "np_digits p") (auto simp: np_ok_def np_grows_def)
qed

lemma number_loop_ok:
  assumes "number_loop cs p = Inr p'" and "np_ok p"
  shows "np_ok p' \<and> length (np_digits p') \<le> length (np_digits p) + length cs"
  using assms
proof (induction cs arbitrary: p)
  case (Cons c cs)
  then obtain q where q: "number_step c p = Inr q" "number_loop cs q = Inr p'" by (auto simp: rbind_eq_Inr_iff)
  from number_step_ok [OF q(1) Cons.prems(2)] Cons.IH [OF q(2)] show ?case by simp
qed simp

lemma number_end_digits:
  "number_end p = Inr b \<Longrightarrow> b = bignumber_new \<or> bn_digits b = np_digits p \<and> np_digits p \<noteq> []"
  by (auto simp: number_end_def Let_def split: if_splits)

lemma bignumber_parse_wf: "bignumber_parse s = Inr b \<Longrightarrow> bn_wf b"
proof -
  assume p: "bignumber_parse s = Inr b"
  let ?rest = "dropWhile (\<lambda>c. c = CHR ''0'') s"
  have new: "bn_wf bignumber_new" by (simp add: bn_wf_def bignumber_new_def bignumber_isvalid_def)
  have ok: "np_ok number_start" "np_digits number_start = []"
    by (simp_all add: np_ok_def number_start_def bignumber_new_def)
  show ?thesis
  proof (cases "?rest = []")
    case False
    with p obtain q where q: "length ?rest \<le> 65535" "number_loop ?rest number_start = Inr q" "number_end q = Inr b"
      by (auto simp: bignumber_parse_def Let_def rbind_eq_Inr_iff split: if_splits)
    from number_loop_ok [OF q(2) ok(1)] number_end_digits [OF q(3)] q(1) new ok(2) show ?thesis
      by (auto simp: bn_wf_def bignumber_isvalid_def np_ok_def)
  qed (use p new in \<open>simp add: bignumber_parse_def\<close>)
qed

lemma touint_loop_fails: "\<exists>e. touint_loop d prev = Inl e"
  by (induction d prev rule: touint_loop.induct) (subst touint_loop.simps, simp add: Let_def)

section \<open>Reading of decimal numbers\<close>

abbreviation with_number :: "number_parser \<Rightarrow> number_state \<Rightarrow> nat list \<Rightarrow> 16 word \<Rightarrow> number_parser" where
  "with_number p st ds sc \<equiv>
    \<lparr>np_state = st, np_number = \<lparr>bn_sign = bn_sign (np_number p), bn_scale = sc, bn_digits = ds\<rparr>,
     np_scaleinc = np_scaleinc p, np_prev_scaleinc = np_prev_scaleinc p, np_expsign = np_expsign p\<rparr>"

lemma loop_NUM1:
  assumes "list_all is_digit ds"
  shows "number_loop (ds @ cs) (with_number p NUM1 xs sc) =
    number_loop cs (with_number p NUM1 (xs @ map digit_val ds) sc)"
  using assms
  by (induction ds arbitrary: xs) (simp_all add: number_step_def case_NUM1_def np_push_def)

lemma loop_FRC1:
  assumes "list_all is_digit ds"
  shows "number_loop (ds @ cs) (with_number p FRC1 xs sc) =
    number_loop cs (with_number p FRC1 (xs @ map digit_val ds) (sc + of_nat (length ds)))"
  using assms
  by (induction ds arbitrary: xs sc) (simp_all add: number_step_def case_FRC1_def np_push_def np_scale_def add.assoc)

abbreviation no_zeros :: "string \<Rightarrow> string" where
  "no_zeros ds \<equiv> dropWhile (\<lambda>c. c = CHR ''0'') ds"

lemma loop_NUM0:
  assumes "list_all is_digit ds"
  shows "number_loop (ds @ cs) (with_number p NUM0 [] sc) =
    number_loop cs (with_number p (if no_zeros ds = [] then NUM0 else NUM1) (map digit_val (no_zeros ds)) sc)"
  using assms
proof (induction ds)
  case (Cons d ds)
  show ?case
  proof (cases "d = CHR ''0''")
    case True
    then show ?thesis using Cons by (simp add: number_step_def case_NUM0_def)
  next
    case False
    then have "number_step d (with_number p NUM0 [] sc) = Inr (with_number p NUM1 [digit_val d] sc)"
      using Cons.prems by (simp add: number_step_def case_NUM0_def case_NUM1_def np_push_def)
    then show ?thesis using False Cons.prems loop_NUM1 [where p = p and xs = "[digit_val d]" and sc = sc and ds = ds and cs = cs] by simp
  qed
qed simp

lemma loop_FRC0:
  assumes "list_all is_digit ds"
  shows "number_loop (ds @ cs) (with_number p FRC0 [] sc) =
    number_loop cs (with_number p (if no_zeros ds = [] then FRC0 else FRC1) (map digit_val (no_zeros ds))
      (sc + of_nat (length ds)))"
  using assms
proof (induction ds arbitrary: sc)
  case (Cons d ds)
  show ?case
  proof (cases "d = CHR ''0''")
    case True
    then have "number_step d (with_number p FRC0 [] sc) = Inr (with_number p FRC0 [] (sc + 1))"
      by (simp add: number_step_def case_FRC0_def np_scale_def)
    then show ?thesis using Cons.IH [of "sc + 1"] Cons.prems True by (simp add: add.assoc)
  next
    case False
    then have "number_step d (with_number p FRC0 [] sc) = Inr (with_number p FRC1 [digit_val d] (sc + 1))"
      using Cons.prems by (simp add: number_step_def case_FRC0_def case_FRC1_def np_push_def np_scale_def)
    then show ?thesis using False Cons.prems loop_FRC1 [where p = p and xs = "[digit_val d]" and sc = "sc + 1" and ds = ds and cs = cs] by (simp add: add.assoc)
  qed
qed simp

definition decimal_text :: "string \<Rightarrow> string \<Rightarrow> string" where
  "decimal_text ip fp = ip @ (if fp = [] then [] else ''.'' @ fp)"

lemma no_zeros_append: "no_zeros (xs @ ys) = (if no_zeros xs = [] then no_zeros ys else no_zeros xs @ ys)"
  by (induction xs) auto

lemma loop_decimal:
  assumes "list_all is_digit ip" and "list_all is_digit fp"
  shows "\<exists>st. number_loop (decimal_text ip fp) (with_number p NUM0 [] 0) =
    Inr (with_number p st (map digit_val (no_zeros (ip @ fp))) (of_nat (length fp)))"
proof (cases "fp = []")
  case True
  then show ?thesis using loop_NUM0 [OF assms(1), where cs = "[]" and p = p and sc = 0] by (auto simp: decimal_text_def)
next
  case False
  let ?ds = "map digit_val (no_zeros ip)"
  have dot: "\<not> is_digit (CHR ''.'')" by (simp add: is_digit_def)
  have "number_step (CHR ''.'') (with_number p (if no_zeros ip = [] then NUM0 else NUM1) ?ds 0) =
      Inr (with_number p (if no_zeros ip = [] then FRC0 else FRC1) ?ds 0)"
    using dot by (cases "no_zeros ip = []") (simp_all add: number_step_def case_NUM0_def case_NUM1_def del: dropWhile_eq_Nil_conv)
  then have "number_loop (decimal_text ip fp) (with_number p NUM0 [] 0) =
      number_loop fp (with_number p (if no_zeros ip = [] then FRC0 else FRC1) ?ds 0)"
    unfolding decimal_text_def
    using False loop_NUM0 [OF assms(1), where cs = "''.'' @ fp" and p = p and sc = 0]
    by (simp del: dropWhile_eq_Nil_conv)
  then show ?thesis
    using loop_FRC0 [OF assms(2), where cs = "[]" and p = p and sc = 0]
      loop_FRC1 [OF assms(2), where cs = "[]" and p = p and xs = ?ds and sc = 0]
    by (cases "no_zeros ip = []") (auto simp: no_zeros_append)
qed

lemma loop_skip_zeros: "number_loop (no_zeros t) (with_number p NUM0 [] 0) = number_loop t (with_number p NUM0 [] 0)"
  by (induction t) (simp_all add: number_step_def case_NUM0_def)

lemma loop_no_sign:
  "cs \<noteq> [] \<Longrightarrow> hd cs \<noteq> CHR ''-'' \<Longrightarrow> hd cs \<noteq> CHR ''+'' \<Longrightarrow>
    number_loop cs number_start = number_loop cs (with_number number_start NUM0 [] 0)"
  by (cases cs) (simp_all add: number_step_def case_NUMS_def number_start_def bignumber_new_def Let_def)

lemma number_end_decimal:
  "number_end (with_number (number_start\<lparr>np_number := bignumber_new\<lparr>bn_sign := neg\<rparr>\<rparr>) st ds sc) =
    Inr (if ds = [] then bignumber_new else \<lparr>bn_sign = neg, bn_scale = sc, bn_digits = ds\<rparr>)"
  by (simp add: number_end_def number_start_def bignumber_new_def)

lemma hd_digit: "list_all is_digit ds \<Longrightarrow> ds \<noteq> [] \<Longrightarrow> is_digit (hd ds)"
  by (cases ds) simp_all

lemma decimal_text_zeros:
  assumes "list_all is_digit ip" and "list_all is_digit fp"
  shows "no_zeros (decimal_text ip fp) = [] \<Longrightarrow> no_zeros (ip @ fp) = []"
    and "no_zeros (decimal_text ip fp) \<noteq> [] \<Longrightarrow> hd (no_zeros (decimal_text ip fp)) \<noteq> CHR ''-'' \<and> hd (no_zeros (decimal_text ip fp)) \<noteq> CHR ''+''"
proof -
  show "no_zeros (decimal_text ip fp) = [] \<Longrightarrow> no_zeros (ip @ fp) = []"
    by (auto simp: decimal_text_def split: if_splits)
  assume "no_zeros (decimal_text ip fp) \<noteq> []"
  then have "hd (no_zeros (decimal_text ip fp)) \<in> set (decimal_text ip fp)"
    by (metis hd_in_set set_dropWhileD)
  moreover have "c \<noteq> CHR ''-'' \<and> c \<noteq> CHR ''+''" if "c \<in> set (decimal_text ip fp)" for c
    using that assms by (auto simp: decimal_text_def list_all_iff is_digit_def split: if_splits)
  ultimately show "hd (no_zeros (decimal_text ip fp)) \<noteq> CHR ''-'' \<and> hd (no_zeros (decimal_text ip fp)) \<noteq> CHR ''+''"
    by blast
qed

lemma bignumber_parse_decimal:
  assumes "list_all is_digit ip" and "list_all is_digit fp" and "length ip + length fp < 65534"
  shows "bignumber_parse ((if neg then ''-'' else []) @ decimal_text ip fp) =
    Inr (if no_zeros (ip @ fp) = [] then bignumber_new
         else \<lparr>bn_sign = neg, bn_scale = of_nat (length fp), bn_digits = map digit_val (no_zeros (ip @ fp))\<rparr>)"
proof -
  let ?t = "decimal_text ip fp" and ?p = "number_start\<lparr>np_number := bignumber_new\<lparr>bn_sign := neg\<rparr>\<rparr>"
  let ?r = "if no_zeros (ip @ fp) = [] then bignumber_new
         else \<lparr>bn_sign = neg, bn_scale = of_nat (length fp), bn_digits = map digit_val (no_zeros (ip @ fp))\<rparr>"
  have len: "length ?t \<le> 65534" "length (no_zeros ?t) \<le> 65534"
  proof -
    show "length ?t \<le> 65534" using assms(3) by (simp add: decimal_text_def)
    then show "length (no_zeros ?t) \<le> 65534"
      using length_dropWhile_le [of "\<lambda>c. c = CHR ''0''" ?t] by (rule order_trans [rotated])
  qed
  have loop: "rbind (number_loop ?t (with_number ?p NUM0 [] 0)) number_end = Inr ?r"
    using loop_decimal [OF assms(1,2), of ?p] number_end_decimal by (auto simp del: dropWhile_eq_Nil_conv)
  show ?thesis
  proof (cases neg)
    case True
    have "number_step (CHR ''-'') number_start = Inr (with_number ?p NUM0 [] 0)"
      using True by (simp add: number_step_def case_NUMS_def number_start_def bignumber_new_def)
    then show ?thesis using True loop len by (simp add: bignumber_parse_def del: dropWhile_eq_Nil_conv)
  next
    case False
    then have "?p = number_start" by (simp add: number_start_def bignumber_new_def)
    with loop have "no_zeros ?t \<noteq> [] \<Longrightarrow> rbind (number_loop (no_zeros ?t) number_start) number_end = Inr ?r"
      using loop_no_sign [of "no_zeros ?t"] decimal_text_zeros(2) [OF assms(1,2)] loop_skip_zeros [of ?t number_start]
      by (simp only: not_False_eq_True simp_thms)
    then show ?thesis
      using False len decimal_text_zeros(1) [OF assms(1,2)]
      by (cases "no_zeros ?t = []") (simp_all add: bignumber_parse_def Let_def del: dropWhile_eq_Nil_conv)
  qed
qed

section \<open>Properties\<close>

text \<open>The number that a big number stands for.\<close>

definition number_value :: "big_number \<Rightarrow> rat" where
  "number_value b =
    (if bn_sign b then - 1 else 1) * of_nat (digits_value (bn_digits b)) * 10 powi (- sint (bn_scale b))"

lemma digits_value_no_zeros:
  "list_all is_digit ds \<Longrightarrow> digits_value (map digit_val (no_zeros ds)) = digits_value (map digit_val ds)"
proof (induction ds)
  case (Cons d ds)
  have "digits_value (0 # xs) = digits_value xs" for xs by (simp add: digits_value_def)
  then show ?case using Cons by (simp add: digit_val_def)
qed simp

lemma digits_value_append: "digits_value (xs @ ys) = digits_value xs * 10 ^ length ys + digits_value ys"
  by (induction ys rule: rev_induct) (simp_all add: append_assoc [symmetric] algebra_simps del: append_assoc)

lemma sint_small: "n < 32768 \<Longrightarrow> sint (of_nat n :: 16 word) = int n"
  by (simp add: sint_uint unsigned_of_nat take_bit_nat_eq_self signed_take_bit_halves [of "int n" 15])



lemma digit_string_digits: "list_all (\<lambda>d. d \<le> 9) ds \<Longrightarrow> list_all is_digit (digit_string ds)"
  "list_all (\<lambda>d. d \<le> 9) ds \<Longrightarrow> map digit_val (digit_string ds) = ds"
  by (induction ds) simp_all

lemma no_zeros_digits:
  assumes "list_all (\<lambda>d. d \<le> 9) ds" and "ds \<noteq> [] \<longrightarrow> hd ds \<noteq> 0"
  shows "no_zeros (replicate n (CHR ''0'') @ digit_string ds) = digit_string ds"
proof -
  have "no_zeros (digit_string ds) = digit_string ds"
    using assms digit_char_zero [of "hd ds"] by (cases ds) simp_all
  then show ?thesis by (induction n) simp_all
qed

lemma word_of_sint: "0 \<le> sint w \<Longrightarrow> of_nat (nat (sint w)) = (w :: 16 word)"
  by (simp add: of_nat_nat)

text \<open>The parts before and behind the point of the text printed for a number.\<close>

definition printed_parts :: "big_number \<Rightarrow> string \<times> string" where
  "printed_parts b =
    (let ds = bn_digits b; n = nat (sint (bn_scale b)) in
     if n \<ge> length ds \<and> n \<noteq> 0 then (''0'', replicate (n - length ds) (CHR ''0'') @ digit_string ds)
     else (digit_string (take (length ds - n) ds), digit_string (drop (length ds - n) ds)))"

lemma bignumber_tostring_parts:
  assumes "bn_digits b \<noteq> []" and "0 \<le> sint (bn_scale b)"
  shows "bignumber_tostring b = Inr ((if bn_sign b then ''-'' else []) @ decimal_text (fst (printed_parts b)) (snd (printed_parts b)))"
  using assms
  by (auto simp: bignumber_tostring_def numtostring_def printed_parts_def decimal_text_def Let_def)

lemma printed_parts_digits:
  assumes "bn_wf b" and "bn_digits b \<noteq> []" and "0 \<le> sint (bn_scale b)"
  shows "list_all is_digit (fst (printed_parts b))" and "list_all is_digit (snd (printed_parts b))"
    and "no_zeros (fst (printed_parts b) @ snd (printed_parts b)) = digit_string (bn_digits b)"
    and "length (snd (printed_parts b)) = nat (sint (bn_scale b))"
    and "length (fst (printed_parts b)) \<le> length (bn_digits b)"
proof -
  let ?ds = "bn_digits b" and ?n = "nat (sint (bn_scale b))"
  have ds: "list_all (\<lambda>d. d \<le> 9) ?ds" "?ds \<noteq> [] \<longrightarrow> hd ?ds \<noteq> 0"
    using assms(1) by (simp_all add: bn_wf_def bignumber_isvalid_def)
  then have sub: "list_all is_digit (digit_string (take k ?ds))" "list_all is_digit (digit_string (drop k ?ds))"
    "list_all is_digit (digit_string ?ds)" "is_digit (CHR ''0'')" for k
    using digit_string_digits(1) [OF ds(1)] by (auto simp: list_all_iff is_digit_def dest: in_set_takeD in_set_dropD)
  note z = no_zeros_digits [OF ds]
  show "list_all is_digit (fst (printed_parts b))" "list_all is_digit (snd (printed_parts b))"
    using sub by (auto simp: printed_parts_def Let_def list_all_iff)
  show "length (snd (printed_parts b)) = ?n" "length (fst (printed_parts b)) \<le> length ?ds"
    using assms(2) by (auto simp: printed_parts_def Let_def Suc_le_eq)
  show "no_zeros (fst (printed_parts b) @ snd (printed_parts b)) = digit_string ?ds"
    using z [of "Suc (?n - length ?ds)"] z [of 0]
    by (simp add: printed_parts_def Let_def map_append [symmetric] del: map_append)
qed



text \<open>C34: no big number but zero can be converted to an integer: the loop that adds up the digits never moves to
  the second one and ends only with the error of its overflow test.\<close>
theorem bignumber_toint_only_zero:
  "(bignumber_touint b = Inr n \<longleftrightarrow> \<not> bn_sign b \<and> bn_scale b = 0 \<and> bn_digits b = [] \<and> n = 0) \<and>
   (bignumber_toint b = Inr n \<longleftrightarrow> \<not> bn_sign b \<and> bn_scale b = 0 \<and> bn_digits b = [] \<and> n = 0)"
proof -
  have "touint_loop d 0 \<noteq> Inr m" for d m using touint_loop_fails [of d 0] by auto
  then have u: "bignumber_touint b = Inr m \<longleftrightarrow> \<not> bn_sign b \<and> bn_scale b = 0 \<and> bn_digits b = [] \<and> m = 0" for m
    by (auto simp: bignumber_touint_def)
  moreover have "bignumber_toint b = Inr n \<longleftrightarrow> bignumber_touint b = Inr 0 \<and> n = 0"
    unfolding bignumber_toint_def rbind_eq_Inr_iff using u by auto
  ultimately show ?thesis by simp
qed

text \<open>An exponent directly behind an integer is refused: the letter is taken for the end of the digits and
  dropped, and the exponent is a syntax error.\<close>

lemma bignumber_integer_exponent_refused:
  assumes "list_all is_digit ip" and "no_zeros ip \<noteq> []" and "c \<notin> {CHR '' '', CHR ''E''}"
    and "length ip + length cs < 65534"
  shows "bignumber_parse (ip @ ''E'' @ c # cs) = Inl number_syntax_error"
proof -
  let ?t = "no_zeros ip @ ''E'' @ c # cs"
  have d: "no_zeros (ip @ ''E'' @ c # cs) = ?t" using assms(2) by (simp add: no_zeros_append)
  have len: "length ?t \<le> 65535"
    using length_dropWhile_le [of "\<lambda>c. c = CHR ''0''" ip] assms(4) by simp
  have ds: "list_all is_digit (no_zeros ip)"
    using assms(1) by (auto simp: list_all_iff dest: set_dropWhileD)
  then have h: "hd ?t \<noteq> CHR ''-'' \<and> hd ?t \<noteq> CHR ''+''"
    using hd_digit [OF ds assms(2)] assms(2) by (auto simp: is_digit_def)
  have "number_loop ?t number_start = number_loop (ip @ ''E'' @ c # cs) (with_number number_start NUM0 [] 0)"
    using loop_no_sign [of ?t] h loop_skip_zeros [of "ip @ ''E'' @ c # cs" number_start] unfolding d by simp
  also have "\<dots> = number_loop (''E'' @ c # cs) (with_number number_start NUM1 (map digit_val (no_zeros ip)) 0)"
    using loop_NUM0 [OF assms(1), where cs = "''E'' @ c # cs" and p = number_start and sc = 0] assms(2)
    by (simp del: dropWhile_eq_Nil_conv)
  also have "\<dots> = Inl number_syntax_error"
    using assms(3) by (simp add: number_step_def case_NUM1_def case_EXPE_def is_digit_def)
  finally show ?thesis using len unfolding bignumber_parse_def d by simp
qed

section \<open>Order\<close>

definition fraction :: "nat list \<Rightarrow> rat" where
  "fraction ds = of_nat (digits_value ds) / 10 ^ length ds"

lemma fraction_Nil [simp]: "fraction [] = 0" by (simp add: fraction_def)

lemma fraction_Cons: "fraction (d # ds) = (of_nat d + fraction ds) / 10"
proof -
  have "digits_value [d] = d" by (simp add: digits_value_def)
  then have "digits_value (d # ds) = d * 10 ^ length ds + digits_value ds"
    using digits_value_append [of "[d]" ds] by simp
  then show ?thesis by (simp add: fraction_def field_simps)
qed

lemma fraction_bounds: "list_all (\<lambda>d. d \<le> 9) ds \<Longrightarrow> 0 \<le> fraction ds \<and> fraction ds < 1"
proof (induction ds)
  case (Cons d ds)
  then have "of_nat d \<le> (of_nat 9 :: rat)" by (intro of_nat_mono) simp
  then show ?case using Cons by (simp add: fraction_Cons)
qed simp

lemma fraction_large: "list_all (\<lambda>d. d \<le> 9) ds \<Longrightarrow> ds \<noteq> [] \<Longrightarrow> hd ds \<noteq> 0 \<Longrightarrow> 1 / 10 \<le> fraction ds"
proof (cases ds)
  case (Cons d ds')
  assume "list_all (\<lambda>d. d \<le> 9) ds" "hd ds \<noteq> 0"
  then have "1 \<le> (of_nat d :: rat)" "0 \<le> fraction ds'" using Cons fraction_bounds by simp_all
  then show ?thesis by (simp add: Cons fraction_Cons)
qed simp

lemma compare_digits_fraction:
  assumes "compare_digits sm bg xs ys = Inr r" and "list_all (\<lambda>d. d \<le> 9) xs" and "list_all (\<lambda>d. d \<le> 9) ys"
  shows "xs = ys \<and> r = 0 \<or> fraction xs < fraction ys \<and> r = sm \<or> fraction ys < fraction xs \<and> r = bg"
  using assms
proof (induction sm bg xs ys rule: compare_digits.induct)
  case (1 sm bg x xs y ys)
  have b: "0 \<le> fraction xs" "fraction xs < 1" "0 \<le> fraction ys" "fraction ys < 1"
    using 1 fraction_bounds by simp_all
  have "x < y \<Longrightarrow> of_nat x + 1 \<le> (of_nat y :: rat)" "y < x \<Longrightarrow> of_nat y + 1 \<le> (of_nat x :: rat)"
    by (metis Suc_leI of_nat_Suc of_nat_le_iff add.commute)+
  then show ?case using 1 b by (cases x y rule: linorder_cases) (auto simp: fraction_Cons)
qed simp_all

text \<open>The digits of a number and the position of its first one behind the point.\<close>

definition magnitude :: "big_number \<Rightarrow> rat" where
  "magnitude b = fraction (bn_digits b) * 10 powi (int (length (bn_digits b)) - sint (bn_scale b))"

lemma number_value_magnitude: "number_value b = (if bn_sign b then - magnitude b else magnitude b)"
  by (simp add: number_value_def magnitude_def fraction_def power_int_diff power_int_minus field_simps)

lemma magnitude_bounds:
  assumes "bn_wf b" and "bn_digits b \<noteq> []"
  shows "10 powi (int (length (bn_digits b)) - sint (bn_scale b) - 1) \<le> magnitude b"
    and "magnitude b < 10 powi (int (length (bn_digits b)) - sint (bn_scale b))" and "0 < magnitude b"
proof -
  let ?k = "int (length (bn_digits b)) - sint (bn_scale b)"
  have f: "1 / 10 \<le> fraction (bn_digits b)" "fraction (bn_digits b) < 1"
    using assms fraction_large fraction_bounds by (simp_all add: bn_wf_def bignumber_isvalid_def)
  have p: "(0 :: rat) < 10 powi ?k" by simp
  have "(10 :: rat) powi (?k - 1) = 1 / 10 * 10 powi ?k" by (simp add: power_int_diff)
  also have "\<dots> \<le> magnitude b" unfolding magnitude_def using f(1) p by (intro mult_right_mono) simp_all
  finally show "10 powi (?k - 1) \<le> magnitude b" .
  show "magnitude b < 10 powi ?k" unfolding magnitude_def using f(2) p by simp
  show "0 < magnitude b" unfolding magnitude_def using f(1) p by (intro mult_pos_pos) simp_all
qed

lemma magnitude_less_position:
  assumes "bn_wf a" and "bn_digits a \<noteq> []" and "bn_wf b" and "bn_digits b \<noteq> []"
    and "int (length (bn_digits a)) - sint (bn_scale a) < int (length (bn_digits b)) - sint (bn_scale b)"
  shows "magnitude a < magnitude b"
proof -
  have "magnitude a < 10 powi (int (length (bn_digits a)) - sint (bn_scale a))"
    by (rule magnitude_bounds(2) [OF assms(1,2)])
  also have "\<dots> \<le> 10 powi (int (length (bn_digits b)) - sint (bn_scale b) - 1)"
    using assms(5) by (intro power_int_increasing) simp_all
  also have "\<dots> \<le> magnitude b" by (rule magnitude_bounds(1) [OF assms(3,4)])
  finally show ?thesis .
qed

lemma compare_digits_undefined:
  "compare_digits sm bg xs ys = Inl e \<Longrightarrow> \<exists>zs. zs \<noteq> [] \<and> (ys = xs @ zs \<or> xs = ys @ zs)"
  by (induction sm bg xs ys rule: compare_digits.induct) (auto split: if_splits)

lemma compare_magnitude:
  assumes "bn_wf a" and "bn_digits a \<noteq> []" and "bn_wf b" and "bn_digits b \<noteq> []" and "bn_sign a = bn_sign b"
    and "bignumber_compare a b = Inr r"
  shows "magnitude a = magnitude b \<and> r = 0 \<or> magnitude a < magnitude b \<and> r = (if bn_sign a then 1 else - 1) \<or>
    magnitude b < magnitude a \<and> r = (if bn_sign a then - 1 else 1)"
proof -
  let ?k = "\<lambda>b. int (length (bn_digits b)) - sint (bn_scale b)"
  have ds: "list_all (\<lambda>d. d \<le> 9) (bn_digits a)" "list_all (\<lambda>d. d \<le> 9) (bn_digits b)"
    using assms(1,3) by (simp_all add: bn_wf_def bignumber_isvalid_def)
  consider "?k a < ?k b" | "?k b < ?k a" | "?k a = ?k b" by linarith
  then show ?thesis
  proof cases
    case 1
    then show ?thesis
      using magnitude_less_position [OF assms(1-4)] assms(5,6) by (simp add: bignumber_compare_def Let_def)
  next
    case 2
    then show ?thesis
      using magnitude_less_position [OF assms(3,4,1,2)] assms(5,6) by (simp add: bignumber_compare_def Let_def)
  next
    case 3
    then have "compare_digits (if bn_sign a then 1 else - 1) (if bn_sign a then - 1 else 1) (bn_digits a) (bn_digits b) = Inr r"
      using assms(5,6) by (simp add: bignumber_compare_def Let_def)
    from compare_digits_fraction [OF this ds] 3 show ?thesis unfolding magnitude_def by auto
  qed
qed

text \<open>C30: the comparison of two well-formed numbers other than zero answers the sign of their difference,
  unless their digits differ only in that one has more of them: then the digits are read behind the end
  of the shorter array. Compared with zero, every positive number below 0.1 is less than zero.\<close>
theorem bignumber_compare_order:
  assumes "bn_wf a" and "bn_digits a \<noteq> []" and "bn_wf b" and "bn_digits b \<noteq> []"
  shows "(case bignumber_compare a b of
      Inr r \<Rightarrow> of_int r = sgn (number_value a - number_value b)
    | Inl e \<Rightarrow> bn_sign a = bn_sign b \<and> (\<exists>zs. zs \<noteq> [] \<and> (bn_digits b = bn_digits a @ zs \<or> bn_digits a = bn_digits b @ zs)))
    \<and> (\<not> bn_sign a \<and> magnitude a < 1 / 10 \<longrightarrow> bignumber_compare a bignumber_new = Inr (- 1))"
proof -
  have pos: "0 < magnitude a" "0 < magnitude b"
    by (rule magnitude_bounds(3) [OF assms(1,2)], rule magnitude_bounds(3) [OF assms(3,4)])
  have 1: "of_int r = sgn (number_value a - number_value b)" if "bignumber_compare a b = Inr r" for r
  proof (cases "bn_sign a = bn_sign b")
    case True
    show ?thesis using compare_magnitude [OF assms True that] True
      by (auto simp: number_value_magnitude sgn_if)
  next
    case False
    then have "r = (if bn_sign a then - 1 else 1)" using that by (simp add: bignumber_compare_def)
    then show ?thesis using False pos by (cases "bn_sign a") (simp_all add: number_value_magnitude sgn_if)
  qed
  have 2: "bn_sign a = bn_sign b \<and> (\<exists>zs. zs \<noteq> [] \<and> (bn_digits b = bn_digits a @ zs \<or> bn_digits a = bn_digits b @ zs))"
    if "bignumber_compare a b = Inl e" for e
    using that compare_digits_undefined by (fastforce simp: bignumber_compare_def Let_def split: if_splits)
  have 3: "bignumber_compare a bignumber_new = Inr (- 1)" if "\<not> bn_sign a" "magnitude a < 1 / 10"
  proof -
    let ?k = "int (length (bn_digits a)) - sint (bn_scale a)"
    have "(10 :: rat) powi (?k - 1) < 10 powi (- 1)"
      using magnitude_bounds(1) [OF assms(1,2)] that(2) by (simp add: power_int_minus inverse_eq_divide)
    then have "?k - 1 < - 1" using power_int_increasing [of "- 1" "?k - 1" "10 :: rat"] by linarith
    then show ?thesis using that(1) by (simp add: bignumber_compare_def bignumber_new_def Let_def)
  qed
  show ?thesis using 1 2 3 by (auto split: sum.split)
qed

theorem bignumber_compare_order_witness:
  "bignumber_compare \<lparr>bn_sign = False, bn_scale = 2, bn_digits = [5]\<rparr> bignumber_new = Inr (- 1) \<and>
   (0 :: rat) < number_value \<lparr>bn_sign = False, bn_scale = 2, bn_digits = [5]\<rparr>"
proof -
  let ?a = "\<lparr>bn_sign = False, bn_scale = 2, bn_digits = [5]\<rparr> :: big_number"
  have "bn_wf ?a" by (simp add: bn_wf_def bignumber_isvalid_def)
  moreover have "magnitude ?a = 1 / 20" "0 < number_value ?a"
    by (simp_all add: magnitude_def number_value_def fraction_Cons power_int_minus digits_value_def)
  ultimately show ?thesis using bignumber_compare_order [of ?a ?a] by simp
qed

end
