(* ===== verification/Variant_Conversion.thy ===== *)
theory Variant_Conversion
  imports Date_Time Big_Number
begin

text \<open>
  Conversion and comparison of variant values, \<^verbatim>\<open>src/libwolframe/types/variant.cpp\<close>: casts between the
  types of a variant, assignment with conversion and the comparison with implicit conversion.
  Floating point numbers and custom values are converted by the language, by libraries or by plug-ins,
  the record \<open>value_ops\<close>; reading a floating point number fails with \<^verbatim>\<open>boost::bad_lexical_cast\<close>.
\<close>

section \<open>Casts of variants\<close>

text \<open>\<^verbatim>\<open>getBaseTypeValue\<close> of a custom value fails with a \<^verbatim>\<open>std::runtime_error\<close>, which the
  code catches, or with another exception.\<close>

datatype custom_error = Custom_RuntimeError string | Custom_LogicError string

datatype variant_type =
    T_Null | T_Custom | T_Timestamp | T_BigNumber | T_Double | T_Int | T_UInt | T_Bool | T_String

definition type_of_variant :: "variant \<Rightarrow> variant_type" where
  "type_of_variant v =
    (case v of V_Null \<Rightarrow> T_Null | V_Custom _ \<Rightarrow> T_Custom | V_Timestamp _ \<Rightarrow> T_Timestamp
     | V_BigNumber _ _ _ \<Rightarrow> T_BigNumber | V_Double _ \<Rightarrow> T_Double | V_Int _ \<Rightarrow> T_Int | V_UInt _ \<Rightarrow> T_UInt
     | V_Bool _ \<Rightarrow> T_Bool | V_String _ \<Rightarrow> T_String)"

definition type_order :: "variant_type \<Rightarrow> nat" where
  "type_order t =
    (case t of T_Null \<Rightarrow> 0 | T_Custom \<Rightarrow> 1 | T_Timestamp \<Rightarrow> 2 | T_BigNumber \<Rightarrow> 3 | T_Double \<Rightarrow> 4
     | T_Int \<Rightarrow> 5 | T_UInt \<Rightarrow> 6 | T_Bool \<Rightarrow> 7 | T_String \<Rightarrow> 8)"

record value_ops =
  vx_base :: "64 word \<Rightarrow> custom_error + variant option"
  vx_custom_tostring :: "64 word \<Rightarrow> string"
  vx_custom_compare :: "64 word \<Rightarrow> 64 word \<Rightarrow> int"
  vx_custom_assign_compare :: "64 word \<Rightarrow> variant \<Rightarrow> int result"
  vx_double_toint :: "64 word \<Rightarrow> 64 word result"
  vx_double_touint :: "64 word \<Rightarrow> 64 word result"
  vx_double_of_int :: "64 word \<Rightarrow> 64 word"
  vx_double_of_uint :: "64 word \<Rightarrow> 64 word"
  vx_double_parse :: "string \<Rightarrow> 64 word option"
  vx_double_print :: "64 word \<Rightarrow> string"
  vx_double_compare :: "64 word \<Rightarrow> 64 word \<Rightarrow> int"
  vx_bignum_todouble :: "big_number \<Rightarrow> 64 word result"
  vx_memcmp :: "string \<Rightarrow> string \<Rightarrow> int"

text \<open>The big number that a variant refers to.\<close>

definition bignumber_of_variant :: "bool \<Rightarrow> int \<Rightarrow> nat list \<Rightarrow> big_number" where
  "bignumber_of_variant sign scale digits = \<lparr>bn_sign = sign, bn_scale = of_int scale, bn_digits = digits\<rparr>"

definition bignumber_variant :: "big_number \<Rightarrow> variant" where
  "bignumber_variant b = V_BigNumber (bn_sign b) (sint (bn_scale b)) (bn_digits b)"

definition cannot_cast :: "string \<Rightarrow> string \<Rightarrow> cpp_error" where
  "cannot_cast what ty = LogicError (''cannot cast '' @ what @ '' to '' @ ty)"

text \<open>A custom value is cast through its base value, which must not be custom again: \<open>f\<close> is the cast of
  the other types. The exception handler around both takes a \<^verbatim>\<open>std::runtime_error\<close> of the cast too.\<close>

definition cast_custom :: "value_ops \<Rightarrow> string \<Rightarrow> string \<Rightarrow> (variant \<Rightarrow> 'a result) \<Rightarrow> 64 word \<Rightarrow> 'a result" where
  "cast_custom vx ty caught_ty f ref =
    (case (case vx_base vx ref of
       Inl (Custom_RuntimeError m) \<Rightarrow> Inl (RuntimeError m)
     | Inl (Custom_LogicError m) \<Rightarrow> Inl (LogicError m)
     | Inr (Some b) \<Rightarrow> if type_of_variant b \<noteq> T_Custom then f b else Inl (cannot_cast ''custom data type'' ty)
     | Inr None \<Rightarrow> Inl (cannot_cast ''custom data type'' ty)) of
       Inl (RuntimeError m) \<Rightarrow> Inl (cannot_cast ''custom data type'' (caught_ty @ '': '' @ m))
     | r \<Rightarrow> r)"

definition plain_toint :: "value_ops \<Rightarrow> variant \<Rightarrow> 64 word result" where
  "plain_toint vx v =
    (let ty = ''signed integer type'' in
     case v of
       V_Null \<Rightarrow> Inl (cannot_cast ''NULL type'' ty)
     | V_Bool b \<Rightarrow> Inr (if b then 1 else 0)
     | V_Double d \<Rightarrow> vx_double_toint vx d
     | V_Int n \<Rightarrow> Inr n
     | V_UInt n \<Rightarrow> if n > 0x7FFFFFFFFFFFFFFF then Inl BadCast else Inr n
     | V_BigNumber g c d \<Rightarrow> bignumber_toint (bignumber_of_variant g c d)
     | V_Timestamp _ \<Rightarrow> Inl (cannot_cast ''timestamp type'' ty)
     | V_String s \<Rightarrow> toint_cast (takeWhile (\<lambda>c. c \<noteq> CHR 0x00) s)
     | V_Custom _ \<Rightarrow> Inl BadCast)"

definition variant2int_cast :: "value_ops \<Rightarrow> variant \<Rightarrow> 64 word result" where
  "variant2int_cast vx v =
    (case v of V_Custom ref \<Rightarrow> cast_custom vx ''signed integer type'' ''signed integer type'' (plain_toint vx) ref
     | _ \<Rightarrow> plain_toint vx v)"

definition plain_touint :: "value_ops \<Rightarrow> variant \<Rightarrow> 64 word result" where
  "plain_touint vx v =
    (let ty = ''unsigned integer type'' in
     case v of
       V_Null \<Rightarrow> Inl (cannot_cast ''NULL type'' ty)
     | V_Bool b \<Rightarrow> Inr (if b then 1 else 0)
     | V_Double d \<Rightarrow> vx_double_touint vx d
     | V_Int n \<Rightarrow> if sint n < 0 then Inl BadCast else Inr n
     | V_UInt n \<Rightarrow> Inr n
     | V_BigNumber g c d \<Rightarrow> bignumber_touint (bignumber_of_variant g c d)
     | V_Timestamp _ \<Rightarrow> Inl (cannot_cast ''timestamp type'' ty)
     | V_String s \<Rightarrow> touint_cast (takeWhile (\<lambda>c. c \<noteq> CHR 0x00) s)
     | V_Custom _ \<Rightarrow> Inl BadCast)"

definition variant2uint_cast :: "value_ops \<Rightarrow> variant \<Rightarrow> 64 word result" where
  "variant2uint_cast vx v =
    (case v of V_Custom ref \<Rightarrow> cast_custom vx ''unsigned integer type'' ''unsigned integer type'' (plain_touint vx) ref
     | _ \<Rightarrow> plain_touint vx v)"

definition plain_totimestamp :: "value_ops \<Rightarrow> variant \<Rightarrow> 64 word result" where
  "plain_totimestamp vx v =
    (let ty = ''timestamp type'' in
     case v of
       V_Null \<Rightarrow> Inl (cannot_cast ''NULL type'' ty)
     | V_Bool b \<Rightarrow> Inl (cannot_cast ''Bool type'' ty)
     | V_Double d \<Rightarrow> Inl (cannot_cast ''double precision floating point number type'' ty)
     | V_Int n \<Rightarrow> Inl (cannot_cast ''signed integer type'' ty)
     | V_UInt n \<Rightarrow> Inl (cannot_cast ''unsigned integer type'' ty)
     | V_BigNumber _ _ _ \<Rightarrow> Inl (cannot_cast ''big number type'' ty)
     | V_String s \<Rightarrow> rbind (datetime_parse s) (\<lambda>dt. Inr (timestamp dt))
     | V_Timestamp t \<Rightarrow> Inr t
     | V_Custom _ \<Rightarrow> Inl BadCast)"

definition variant2timestamp_cast :: "value_ops \<Rightarrow> variant \<Rightarrow> 64 word result" where
  "variant2timestamp_cast vx v =
    (case v of V_Custom ref \<Rightarrow> cast_custom vx ''timestamp type'' ''timestamp type'' (plain_totimestamp vx) ref
     | _ \<Rightarrow> plain_totimestamp vx v)"

definition plain_tobignumber :: "value_ops \<Rightarrow> variant \<Rightarrow> big_number result" where
  "plain_tobignumber vx v =
    (let ty = ''big number type'' in
     case v of
       V_Null \<Rightarrow> Inl (cannot_cast ''NULL type'' ty)
     | V_Bool b \<Rightarrow> bignumber_of_uint (if b then 1 else 0)
     | V_Double d \<Rightarrow> bignumber_parse (vx_double_print vx d)
     | V_Int n \<Rightarrow> bignumber_of_int n
     | V_UInt n \<Rightarrow> bignumber_of_uint n
     | V_BigNumber g c ds \<Rightarrow> Inr (bignumber_of_variant g c ds)
     | V_Timestamp _ \<Rightarrow> Inl (cannot_cast ''timestamp type'' ty)
     | V_String s \<Rightarrow> bignumber_parse s
     | V_Custom _ \<Rightarrow> Inl BadCast)"

definition variant2bignumber_cast :: "value_ops \<Rightarrow> variant \<Rightarrow> big_number result" where
  "variant2bignumber_cast vx v =
    (case v of V_Custom ref \<Rightarrow> cast_custom vx ''big number type'' ''big number type'' (plain_tobignumber vx) ref
     | _ \<Rightarrow> plain_tobignumber vx v)"

definition plain_todouble :: "value_ops \<Rightarrow> variant \<Rightarrow> 64 word result" where
  "plain_todouble vx v =
    (case v of
       V_Null \<Rightarrow> Inl BadCast
     | V_Bool b \<Rightarrow> Inr (vx_double_of_uint vx (if b then 1 else 0))
     | V_Double d \<Rightarrow> Inr d
     | V_Int n \<Rightarrow> Inr (vx_double_of_int vx n)
     | V_UInt n \<Rightarrow> Inr (vx_double_of_uint vx n)
     | V_String s \<Rightarrow> (case vx_double_parse vx s of None \<Rightarrow> Inl BadCast | Some d \<Rightarrow> Inr d)
     | V_BigNumber g c ds \<Rightarrow> vx_bignum_todouble vx (bignumber_of_variant g c ds)
     | V_Timestamp _ \<Rightarrow> Inl (cannot_cast ''timestamp type'' ''double precision number type'')
     | V_Custom _ \<Rightarrow> Inl BadCast)"

definition variant_todouble :: "value_ops \<Rightarrow> variant \<Rightarrow> 64 word result" where
  "variant_todouble vx v =
    (case v of V_Custom ref \<Rightarrow> cast_custom vx ''double precision number type'' ''timestamp type'' (plain_todouble vx) ref
     | _ \<Rightarrow> plain_todouble vx v)"

definition tostring_of_variant :: "value_ops \<Rightarrow> variant \<Rightarrow> string result" where
  "tostring_of_variant vx v =
    (case v of
       V_Null \<Rightarrow> Inr []
     | V_Bool b \<Rightarrow> Inr (if b then ''true'' else ''false'')
     | V_Double d \<Rightarrow> Inr (vx_double_print vx d)
     | V_Int n \<Rightarrow> tostring_cast_int n
     | V_UInt n \<Rightarrow> Inr (tostring_cast_uint n)
     | V_String s \<Rightarrow> Inr s
     | V_Custom ref \<Rightarrow> Inr (vx_custom_tostring vx ref)
     | V_BigNumber g c ds \<Rightarrow> bignumber_tostring (bignumber_of_variant g c ds)
     | V_Timestamp t \<Rightarrow> rbind (datetime_init t) (\<lambda>dt. Inr (datetime_tostring YYYYMMDDhhmmssxxxxxx dt)))"

definition variant_tobool :: "value_ops \<Rightarrow> variant \<Rightarrow> bool result" where
  "variant_tobool vx v = rbind (variant2int_cast vx v) (\<lambda>n. Inr (n \<noteq> 0))"

text \<open>\<^verbatim>\<open>assign\<close>: the case of big numbers assigns the value and goes on to the case of timestamps, and
  this one to the exception behind the switch. \<open>alias\<close> says that the argument is the object itself, as
  in \<^verbatim>\<open>convert\<close>.\<close>

definition illegal_conversion :: cpp_error where
  "illegal_conversion = RuntimeError ''illegal conversion of atomic type''"

definition assign_timestamp :: "value_ops \<Rightarrow> variant \<Rightarrow> variant \<Rightarrow> unit result \<times> variant" where
  "assign_timestamp vx v this =
    (case variant2timestamp_cast vx v of
       Inl e \<Rightarrow> (Inl e, this) | Inr x \<Rightarrow> (Inl illegal_conversion, V_UInt x))"

definition assign_result :: "(variant \<Rightarrow> 'a result) \<Rightarrow> ('a \<Rightarrow> variant) \<Rightarrow> variant \<Rightarrow> variant \<Rightarrow> unit result \<times> variant" where
  "assign_result cast mk v this = (case cast v of Inl e \<Rightarrow> (Inl e, this) | Inr x \<Rightarrow> (Inr (), mk x))"

definition variant_assign ::
  "value_ops \<Rightarrow> bool \<Rightarrow> variant_type \<Rightarrow> variant \<Rightarrow> variant \<Rightarrow> unit result \<times> variant" where
  "variant_assign vx alias t v this =
    (case t of
       T_Null \<Rightarrow> (Inr (), V_Null)
     | T_Custom \<Rightarrow> (Inl (RuntimeError ''cannot convert to unspecified custom data type''), this)
     | T_Bool \<Rightarrow> assign_result (variant_tobool vx) V_Bool v this
     | T_Int \<Rightarrow> assign_result (variant2int_cast vx) V_Int v this
     | T_UInt \<Rightarrow> assign_result (variant2uint_cast vx) V_UInt v this
     | T_Double \<Rightarrow> assign_result (variant_todouble vx) V_Double v this
     | T_String \<Rightarrow> assign_result (tostring_of_variant vx) V_String v this
     | T_BigNumber \<Rightarrow> (case variant2bignumber_cast vx v of
         Inl e \<Rightarrow> (Inl e, this)
       | Inr x \<Rightarrow> assign_timestamp vx (if alias then bignumber_variant x else v) (bignumber_variant x))
     | T_Timestamp \<Rightarrow> assign_timestamp vx v this)"

definition variant_convert :: "value_ops \<Rightarrow> variant_type \<Rightarrow> variant \<Rightarrow> unit result \<times> variant" where
  "variant_convert vx t this =
    (if type_of_variant this = t then (Inr (), this) else variant_assign vx True t this this)"

section \<open>Comparison\<close>

definition compare_int :: "'a :: linorder \<Rightarrow> 'a \<Rightarrow> int" where
  "compare_int d1 d2 = (if d1 \<ge> d2 then 1 else 0) + (if d1 > d2 then 1 else 0) - 1"

text \<open>Two null values compare the bytes of their data, which are all zero.\<close>

definition compare_type :: "value_ops \<Rightarrow> variant \<Rightarrow> variant \<Rightarrow> int result" where
  "compare_type vx a b =
    (case (a, b) of
       (V_Null, V_Null) \<Rightarrow> Inr 0
     | (V_Bool x, V_Bool y) \<Rightarrow> Inr (compare_int (of_bool x :: int) (of_bool y))
     | (V_Double x, V_Double y) \<Rightarrow> Inr (vx_double_compare vx x y)
     | (V_Int x, V_Int y) \<Rightarrow> Inr (compare_int (sint x) (sint y))
     | (V_UInt x, V_UInt y) \<Rightarrow> Inr (compare_int x y)
     | (V_String x, V_String y) \<Rightarrow>
         Inr (if length x \<noteq> length y then (if length x < length y then - 1 else 1) else vx_memcmp vx x y)
     | (V_Custom x, V_Custom y) \<Rightarrow> Inr (vx_custom_compare vx x y)
     | (V_Timestamp x, V_Timestamp y) \<Rightarrow> Inr (compare_int x y)
     | (V_BigNumber g c ds, V_BigNumber g' c' ds') \<Rightarrow> bignumber_compare (bignumber_of_variant g c ds) (bignumber_of_variant g' c' ds')
     | _ \<Rightarrow> Inr (- 2))"

definition no_compare :: "int result \<Rightarrow> int result" where
  "no_compare r = (case r of Inl BadAlloc \<Rightarrow> Inl BadAlloc | Inl (Undefined m) \<Rightarrow> Inl (Undefined m)
     | Inl _ \<Rightarrow> Inr (- 2) | Inr k \<Rightarrow> Inr k)"

text \<open>The case of the smaller type; every exception but \<^verbatim>\<open>std::bad_alloc\<close> gives -2.\<close>

definition compare_lower :: "value_ops \<Rightarrow> variant \<Rightarrow> variant \<Rightarrow> int result" where
  "compare_lower vx a b =
    no_compare (case a of
       V_Null \<Rightarrow> Inr (- 1)
     | V_Custom ref \<Rightarrow> vx_custom_assign_compare vx ref b
     | V_Timestamp t \<Rightarrow> rbind (variant2timestamp_cast vx b) (\<lambda>x. Inr (compare_int t x))
     | V_BigNumber g c ds \<Rightarrow> rbind (variant2bignumber_cast vx b) (bignumber_compare (bignumber_of_variant g c ds))
     | V_Double d \<Rightarrow> rbind (variant_todouble vx b) (\<lambda>x. Inr (vx_double_compare vx x d))
     | V_Int n \<Rightarrow> (case b of
           V_UInt m \<Rightarrow> if m > 0x7FFFFFFFFFFFFFFF then Inr (- 1)
             else rbind (variant2int_cast vx b) (\<lambda>x. Inr (compare_int (sint x) (sint n)))
         | _ \<Rightarrow> rbind (variant2int_cast vx b) (\<lambda>x. Inr (compare_int (sint x) (sint n))))
     | V_UInt n \<Rightarrow> rbind (variant2uint_cast vx b) (\<lambda>x. Inr (compare_int x n))
     | V_Bool c \<Rightarrow> rbind (variant2int_cast vx b) (\<lambda>x. Inr (compare_int (of_bool (x \<noteq> 0) :: int) (of_bool c)))
     | V_String _ \<Rightarrow> Inl (LogicError ''illegal state in Variant::compare (string has lowest order)''))"

definition variant_compare :: "value_ops \<Rightarrow> variant \<Rightarrow> variant \<Rightarrow> int result" where
  "variant_compare vx a b =
    (if type_of_variant a = type_of_variant b then compare_type vx a b
     else if type_order (type_of_variant a) > type_order (type_of_variant b)
     then rbind (compare_lower vx b a) (\<lambda>k. Inr (- k))
     else compare_lower vx a b)"

definition variant_eq :: "value_ops \<Rightarrow> variant \<Rightarrow> variant \<Rightarrow> bool result" where
  "variant_eq vx a b = rbind (variant_compare vx a b) (\<lambda>cv. Inr (cv = 0))"

definition variant_neq :: "value_ops \<Rightarrow> variant \<Rightarrow> variant \<Rightarrow> bool result" where
  "variant_neq vx a b = rbind (variant_compare vx a b) (\<lambda>cv. Inr (cv \<noteq> 0 \<and> cv \<noteq> - 2))"

definition variant_gt :: "value_ops \<Rightarrow> variant \<Rightarrow> variant \<Rightarrow> bool result" where
  "variant_gt vx a b = rbind (variant_compare vx a b) (\<lambda>cv. Inr (cv > 0))"

definition variant_ge :: "value_ops \<Rightarrow> variant \<Rightarrow> variant \<Rightarrow> bool result" where
  "variant_ge vx a b = rbind (variant_compare vx a b) (\<lambda>cv. Inr (cv \<ge> 0))"

definition variant_le :: "value_ops \<Rightarrow> variant \<Rightarrow> variant \<Rightarrow> bool result" where
  "variant_le vx a b = rbind (variant_compare vx a b) (\<lambda>cv. Inr (cv \<le> 0 \<and> cv \<noteq> - 2))"

definition variant_lt :: "value_ops \<Rightarrow> variant \<Rightarrow> variant \<Rightarrow> bool result" where
  "variant_lt vx a b = rbind (variant_compare vx a b) (\<lambda>cv. Inr (cv = - 1))"

section \<open>Properties\<close>

text \<open>C32: a conversion that returns leaves a value of the type asked for, and it returns for big numbers,
  timestamps and custom types only if the value had the type before: a conversion to a big number or a
  timestamp never succeeds, since it raises an exception after the value has been assigned.\<close>
theorem variant_convert_type:
  assumes "variant_convert vx t v = (Inr (), w)"
  shows "type_of_variant w = t \<and> (t \<in> {T_BigNumber, T_Timestamp, T_Custom} \<longrightarrow> w = v)"
  using assms
  by (cases t)
     (auto simp: variant_convert_def variant_assign_def assign_result_def assign_timestamp_def
       type_of_variant_def split: if_splits sum.splits)

definition no_values :: value_ops where
  "no_values =
    \<lparr>vx_base = (\<lambda>_. Inr None), vx_custom_tostring = (\<lambda>_. []), vx_custom_compare = (\<lambda>_ _. 0),
     vx_custom_assign_compare = (\<lambda>_ _. Inl BadCast), vx_double_toint = (\<lambda>_. Inl BadCast),
     vx_double_touint = (\<lambda>_. Inl BadCast), vx_double_of_int = id, vx_double_of_uint = id,
     vx_double_parse = (\<lambda>_. None), vx_double_print = (\<lambda>_. []), vx_double_compare = (\<lambda>_ _. 0),
     vx_bignum_todouble = (\<lambda>_. Inl BadCast), vx_memcmp = (\<lambda>_ _. 0)\<rparr>"

theorem variant_convert_type_witness:
  "\<exists>w. variant_convert no_values T_Int (V_String ''42'') = (Inr (), w) \<and> type_of_variant w = T_Int"
proof -
  have "variant_convert no_values T_Int (V_String ''42'') = (Inr (), V_Int 42)"
    by (simp add: variant_convert_def type_of_variant_def variant_assign_def assign_result_def
        variant2int_cast_def plain_toint_def toint_cast_def string2uint_def is_digit_def digit_val_def Let_def
        word_less_def sint_64)
  from variant_convert_type [OF this] this show ?thesis by blast
qed

lemma compare_int_eq: "compare_int a b = (if a < b then - 1 else if a = b then 0 else 1)"
  by (auto simp: compare_int_def)

lemma compare_int_uint:
  "variant_compare vx (V_Int a) (V_UInt b) =
    Inr (if 2 ^ 63 \<le> uint b then - 1 else compare_int (uint b) (sint a))"
proof -
  have "b > 0x7FFFFFFFFFFFFFFF \<longleftrightarrow> 2 ^ 63 \<le> uint b" by (auto simp: word_less_def)
  moreover have "sint b = uint b" if "uint b < 2 ^ 63" using that by (simp add: sint_64)
  ultimately show ?thesis
    by (auto simp: variant_compare_def type_of_variant_def type_order_def compare_lower_def no_compare_def
        variant2int_cast_def plain_toint_def Let_def split: sum.split)
qed

lemma compare_uint_int:
  "variant_compare vx (V_UInt b) (V_Int a) = rbind (variant_compare vx (V_Int a) (V_UInt b)) (\<lambda>k. Inr (- k))"
  by (simp add: variant_compare_def type_of_variant_def type_order_def)

text \<open>C33: signed and unsigned integers are equal for the comparison of variants exactly if they are the
  same number, but they are ordered the wrong way round: a signed integer is less than an unsigned one
  below \<open>2 ^ 63\<close> exactly if it is the larger of the two numbers.\<close>
theorem variant_order_reversed:
  "variant_eq vx (V_Int a) (V_UInt b) = Inr (sint a = uint b)
   \<and> variant_eq vx (V_UInt b) (V_Int a) = Inr (sint a = uint b)
   \<and> variant_lt vx (V_Int a) (V_UInt b) = Inr (uint b < sint a \<or> 2 ^ 63 \<le> uint b)
   \<and> variant_lt vx (V_UInt b) (V_Int a) = Inr (sint a < uint b \<and> uint b < 2 ^ 63)"
proof -
  have "sint a < 2 ^ 63" using uint_bounds [of a] by (simp add: sint_64)
  then show ?thesis
    by (auto simp: variant_eq_def variant_lt_def compare_uint_int compare_int_uint compare_int_eq)
qed

end
