(* ===== verification/Database_Binding.thy ===== *)
theory Database_Binding
  imports Transaction_Execution Statement_Parser Error_Reporting Variant_Conversion
begin

text \<open>
  What the database state machines share: the conversions of variants that other parts of the
  server define, as the record \<open>variant_ops\<close>, the form of an operation's result, and the facts
  about parsing, binding and reading of columns that the proofs for each database use.
\<close>

section \<open>Values to bind\<close>

record variant_ops =
  vo_tostring :: "variant \<Rightarrow> string"
  vo_datetime :: "64 word \<Rightarrow> string"
  vo_baseTypeValue :: "64 word \<Rightarrow> custom_error + variant option"

definition is_custom :: "variant \<Rightarrow> bool" where
  "is_custom v = (case v of V_Custom _ \<Rightarrow> True | _ \<Rightarrow> False)"

text \<open>Conversions for examples: no custom value has a base type.\<close>

definition plain_variants :: variant_ops where
  "plain_variants = \<lparr>vo_tostring = (\<lambda>_. []), vo_datetime = (\<lambda>_. []), vo_baseTypeValue = (\<lambda>_. Inr None)\<rparr>"

section \<open>Results\<close>

definition ok_result :: "'a \<times> 's \<Rightarrow> 'a result \<times> 's" where
  "ok_result r = (Inr (fst r), snd r)"

lemma not_internal [simp]:
  "RuntimeError m \<notin> vm_internal_errors" "LogicError m \<notin> vm_internal_errors"
  "Undefined ''bitset position'' \<notin> vm_internal_errors" "Undefined ''endless loop'' \<notin> vm_internal_errors"
  by (simp_all add: vm_internal_errors_def)

lemma bs_init_error: "bs_init t b = (Some e, b') \<Longrightarrow> e \<notin> vm_internal_errors"
proof -
  have "parse_loop chunk cs b = (Some e, b') \<Longrightarrow> e \<notin> vm_internal_errors" for chunk cs b
    by (induction chunk cs b rule: parse_loop_step_induct)
       (auto simp: parse_loop_cases illegal_index_def push_param_def bitset_set_def Let_def
         split: option.splits sum.splits list.splits if_splits)
  then show "bs_init t b = (Some e, b') \<Longrightarrow> e \<notin> vm_internal_errors" by (auto simp: bs_init_def)
qed

lemma bs_bind_error: "bs_bind i b = Inl e \<Longrightarrow> e \<notin> vm_internal_errors"
  by (auto simp: bs_bind_def rbind_eq_Inl_iff bitset_at_def split: if_splits)

lemma db_map_reads:
  assumes "\<And>i. i < n \<Longrightarrow> f (Suc i) s = (Inr (g i), s)"
  shows "db_map f [Suc 0..<Suc n] s = (Inr (map g [0..<n]), s)"
proof -
  have "(\<And>i. i \<in> set is \<Longrightarrow> f (Suc i) s = (Inr (g i), s)) \<Longrightarrow> db_map f (map Suc is) s = (Inr (map g is), s)" for "is"
    by (induction "is") auto
  from this [of "[0..<n]"] assms show ?thesis by (simp add: map_Suc_upt)
qed

end
