(* ===== verification/SQLite_Statemachine.thy ===== *)
theory SQLite_Statemachine
  imports Database_Binding "HOL-Library.While_Combinator"
begin

text \<open>
  The SQLite implementation of the database state machine,
  \<^verbatim>\<open>src/modules/database/sqlite3/SQLiteTransactionExecStatemachine.cpp\<close> and
  \<^verbatim>\<open>SQLiteStatement.cpp\<close>: its states, every operation with its error paths, and the binding of
  values. The SQLite library itself is a parameter, the record \<open>sqlite_api\<close> of the functions
  the code calls, over a state of the library. What the virtual machine relies on when a call
  fails is the locale \<open>reporting_database\<close>, interpreted here on this state machine.
\<close>

section \<open>The library\<close>

datatype sqlite_value =
    Bind_Null | Bind_Int "32 word" | Bind_Int64 "64 word" | Bind_Double "64 word" | Bind_Text string

text \<open>Statement handles are numbers, \<open>None\<close> is the null pointer; result codes are numbers.\<close>

record 'c sqlite_api =
  sq_ID :: string
  sq_newConnection :: "'c \<Rightarrow> unit result \<times> 'c"
  sq_prepare :: "string \<Rightarrow> 'c \<Rightarrow> nat \<times> nat option \<times> string option \<times> 'c"
  sq_step :: "nat option \<Rightarrow> 'c \<Rightarrow> nat \<times> 'c"
  sq_finalize :: "nat option \<Rightarrow> 'c \<Rightarrow> 'c"
  sq_bind :: "nat option \<Rightarrow> nat \<Rightarrow> sqlite_value \<Rightarrow> 'c \<Rightarrow> nat \<times> 'c"
  sq_column_count :: "nat option \<Rightarrow> 'c \<Rightarrow> nat"
  sq_column_name :: "nat option \<Rightarrow> nat \<Rightarrow> 'c \<Rightarrow> string option"
  sq_column_type :: "nat option \<Rightarrow> nat \<Rightarrow> 'c \<Rightarrow> nat"
  sq_column_decltype :: "nat option \<Rightarrow> nat \<Rightarrow> 'c \<Rightarrow> string option"
  sq_column_int64 :: "nat option \<Rightarrow> nat \<Rightarrow> 'c \<Rightarrow> 64 word"
  sq_column_double :: "nat option \<Rightarrow> nat \<Rightarrow> 'c \<Rightarrow> 64 word"
  sq_column_text :: "nat option \<Rightarrow> nat \<Rightarrow> 'c \<Rightarrow> string option"
  sq_column_blob :: "nat option \<Rightarrow> nat \<Rightarrow> 'c \<Rightarrow> string option"
  sq_errcode :: "'c \<Rightarrow> nat"
  sq_errmsg :: "'c \<Rightarrow> string"

abbreviation (input) SQLITE_OK :: nat where "SQLITE_OK \<equiv> 0"
abbreviation (input) SQLITE_ROW :: nat where "SQLITE_ROW \<equiv> 100"
abbreviation (input) SQLITE_DONE :: nat where "SQLITE_DONE \<equiv> 101"

text \<open>The error classes of the result codes 1 (\<^verbatim>\<open>SQLITE_ERROR\<close>) to 26 (\<^verbatim>\<open>SQLITE_NOTADB\<close>);
  any other code leaves a null pointer, which the error object takes as empty.\<close>

definition sqlite_errtype :: "nat \<Rightarrow> string" where
  "sqlite_errtype errcode =
    (if 1 \<le> errcode \<and> errcode \<le> 26 then
       [''SYNTAX'', ''INTERNAL'', ''PRIVILEGE'', ''EXCEPTION'', ''RESOURCE'', ''RESOURCE'',
        ''RESOURCE'', ''RESOURCE'', ''EXCEPTION'', ''SYSTEM'', ''INTERNAL'', ''INTERNAL'',
        ''RESOURCE'', ''RESOURCE'', ''INTERNAL'', ''DATABASE'', ''DATABASE'', ''RESOURCE'',
        ''CONSTRAINT'', ''PARAMETER'', ''INTERNAL'', ''SYSTEM'', ''PRIVILEGE'', ''SYSTEM'',
        ''PARAMETER'', ''SYSTEM''] ! (errcode - 1)
     else [])"

section \<open>State\<close>

datatype sqlite_state = S_Init | S_Transaction | S_CommandReady | S_Executed | S_Error

definition stateName :: "sqlite_state \<Rightarrow> string" where
  "stateName st =
    (case st of S_Init \<Rightarrow> ''Init'' | S_Transaction \<Rightarrow> ''Transaction''
     | S_CommandReady \<Rightarrow> ''CommandReady'' | S_Executed \<Rightarrow> ''Executed'' | S_Error \<Rightarrow> ''Error'')"

record sqlite_statement =
  q_base :: base_statement
  q_stm :: "nat option"
  q_rc :: nat

record 'c sqlite_sm =
  s_state :: sqlite_state
  s_curstm :: string
  s_hasResult :: bool
  s_hasRow :: bool
  s_lasterror :: "database_error option"
  s_stm :: "nat option"
  s_conn :: bool
  s_statement :: sqlite_statement
  s_engine :: 'c

definition sqlite_new :: "'c \<Rightarrow> 'c sqlite_sm" where
  "sqlite_new c =
    \<lparr>s_state = S_Init, s_curstm = [], s_hasResult = False, s_hasRow = False, s_lasterror = None,
     s_stm = None, s_conn = False,
     s_statement = \<lparr>q_base = bs_empty, q_stm = None, q_rc = 0\<rparr>, s_engine = c\<rparr>"

definition sqlite_finalize :: "'c sqlite_api \<Rightarrow> 'c sqlite_sm \<Rightarrow> 'c sqlite_sm" where
  "sqlite_finalize api s = s\<lparr>s_engine := sq_finalize api (s_stm s) (s_engine s), s_stm := None\<rparr>"

definition sqlite_clear :: "'c sqlite_api \<Rightarrow> 'c sqlite_sm \<Rightarrow> 'c sqlite_sm" where
  "sqlite_clear api s =
    (let s = (if s_stm s \<noteq> None then sqlite_finalize api s else s) in
     s\<lparr>s_lasterror := None, s_hasResult := False, s_hasRow := False, s_curstm := [],
       s_statement := (s_statement s)\<lparr>q_base := bs_clear (q_base (s_statement s))\<rparr>,
       s_state := S_Init\<rparr>)"

definition setDatabaseErrorMessage :: "'c sqlite_api \<Rightarrow> 'c sqlite_sm \<Rightarrow> 'c sqlite_sm" where
  "setDatabaseErrorMessage api s =
    (let errcode = sq_errcode api (s_engine s) in
     s\<lparr>s_lasterror := Some (databaseError (sqlite_errtype errcode) errcode (sq_errmsg api (s_engine s)))\<rparr>)"

definition sqlite_status ::
  "'c sqlite_api \<Rightarrow> nat \<Rightarrow> sqlite_state \<Rightarrow> 'c sqlite_sm \<Rightarrow> bool \<times> 'c sqlite_sm" where
  "sqlite_status api rc newstate s =
    (if rc \<noteq> SQLITE_OK \<and> rc \<noteq> SQLITE_DONE \<and> rc \<noteq> SQLITE_ROW
     then (False, if s_state s \<noteq> S_Error
                  then (setDatabaseErrorMessage api s)\<lparr>s_state := S_Error\<rparr> else s)
     else (True, s\<lparr>s_state := newstate\<rparr>))"

definition sqlite_errorStatus :: "string \<Rightarrow> 'c sqlite_sm \<Rightarrow> bool \<times> 'c sqlite_sm" where
  "sqlite_errorStatus msg s =
    (False, if s_state s \<noteq> S_Error
            then s\<lparr>s_lasterror := Some (databaseError ''INTERNAL'' 0 msg), s_state := S_Error\<rparr> else s)"

definition not_allowed :: "string \<Rightarrow> 'c sqlite_sm \<Rightarrow> bool \<times> 'c sqlite_sm" where
  "not_allowed what s = sqlite_errorStatus (what @ [SQUOTE] @ stateName (s_state s) @ [SQUOTE]) s"

text \<open>
  Text behind the first statement: \<^verbatim>\<open>stmtail[ii]<32\<close> on a signed \<^verbatim>\<open>char\<close> skips control
  characters and all bytes from 128 on.
\<close>

definition has_tail :: "string option \<Rightarrow> bool" where
  "has_tail t =
    (case t of None \<Rightarrow> False
     | Some s \<Rightarrow> dropWhile (\<lambda>c. char_code c < 32 \<or> 128 \<le> char_code c) s \<noteq> [])"

section \<open>Operations\<close>

type_synonym ('c, 'a) sqlite_op = "'c sqlite_sm \<Rightarrow> 'a result \<times> 'c sqlite_sm"

definition sqlite_executeInstruction ::
  "'c sqlite_api \<Rightarrow> string \<Rightarrow> sqlite_state \<Rightarrow> ('c, bool) sqlite_op" where
  "sqlite_executeInstruction api stmstr newstate s =
    (let s = s\<lparr>s_hasResult := False, s_hasRow := False, s_curstm := []\<rparr> in
     case sq_prepare api stmstr (s_engine s) of (rc, inst, stmtail, c) \<Rightarrow>
     let s = s\<lparr>s_engine := c\<rparr> in
     if rc \<noteq> SQLITE_OK \<and> rc \<noteq> SQLITE_DONE then ok_result (sqlite_status api rc newstate s)
     else if has_tail stmtail
     then (Inl (LogicError ''executing list of SQL commands as a single instruction''), s)
     else case sqlite_status api rc newstate s of (ok, s) \<Rightarrow>
       (case (if ok then (case sq_step api inst (s_engine s) of (rc2, c2) \<Rightarrow>
                sqlite_status api rc2 newstate (s\<lparr>s_engine := c2\<rparr>)) else (False, s)) of
          (rt, s) \<Rightarrow> (Inr rt, s\<lparr>s_engine := sq_finalize api inst (s_engine s)\<rparr>)))"

definition sqlite_begin :: "'c sqlite_api \<Rightarrow> ('c, bool) sqlite_op" where
  "sqlite_begin api s =
    (if s_state s \<noteq> S_Init then ok_result (not_allowed ''call of begin not allowed in state '' s)
     else case sq_newConnection api (s_engine s) of
       (Inl e, c) \<Rightarrow> (Inl e, s\<lparr>s_engine := c\<rparr>)
     | (Inr _, c) \<Rightarrow> sqlite_executeInstruction api ''BEGIN TRANSACTION;'' S_Transaction
         (s\<lparr>s_engine := c, s_conn := True\<rparr>))"

definition sqlite_commit :: "'c sqlite_api \<Rightarrow> ('c, bool) sqlite_op" where
  "sqlite_commit api s =
    (if s_state s \<notin> {S_Transaction, S_Executed, S_CommandReady}
     then ok_result (not_allowed ''call of commit not allowed in state '' s)
     else case sqlite_executeInstruction api ''COMMIT TRANSACTION;'' S_Init s of
       (Inr True, s) \<Rightarrow> (Inr True, s\<lparr>s_conn := False\<rparr>)
     | r \<Rightarrow> r)"

definition sqlite_rollback :: "'c sqlite_api \<Rightarrow> ('c, bool) sqlite_op" where
  "sqlite_rollback api s =
    (if s_state s \<notin> {S_Transaction, S_Executed, S_CommandReady}
     then ok_result (not_allowed ''call of rollback not allowed in state '' s)
     else if s_conn s then
       (case sqlite_executeInstruction api ''ROLLBACK TRANSACTION;'' S_Init s of
          (Inl e, s) \<Rightarrow> (Inl e, s)
        | (Inr rt, s) \<Rightarrow> let s = sqlite_clear api s in
            (Inr rt, if rt then s\<lparr>s_conn := False\<rparr> else s))
     else (Inr True, s\<lparr>s_state := S_Init\<rparr>))"

definition sqlite_start :: "'c sqlite_api \<Rightarrow> string \<Rightarrow> ('c, bool) sqlite_op" where
  "sqlite_start api statement s =
    (let s = s\<lparr>s_hasResult := False, s_hasRow := False, s_curstm := statement\<rparr>;
         s = (if s_state s = S_Executed \<or> s_state s = S_CommandReady
              then (sqlite_finalize api s)\<lparr>s_state := S_Transaction\<rparr> else s) in
     if s_state s \<noteq> S_Transaction
     then ok_result (not_allowed ''call of start not allowed in state '' s)
     else case sq_prepare api statement (s_engine s) of (rc, h, stmtail, c) \<Rightarrow>
       (case bs_init statement (q_base (s_statement s)) of
          (Some e, b) \<Rightarrow> (Inl e, s\<lparr>s_engine := c, s_stm := h,
             s_statement := (s_statement s)\<lparr>q_base := b\<rparr>\<rparr>)
        | (None, b) \<Rightarrow>
            let s = s\<lparr>s_engine := c, s_stm := h,
                      s_statement := (s_statement s)\<lparr>q_base := b, q_stm := h\<rparr>\<rparr> in
            if rc = SQLITE_OK \<and> has_tail stmtail
            then ok_result (sqlite_errorStatus (''prepared statement '' @ [SQUOTE] @ statement @ [SQUOTE]
                   @ '' consists of more than one SQL statement'') s)
            else ok_result (sqlite_status api rc S_CommandReady s)))"

text \<open>Binding: how a value that is not a custom type is passed to the library. The statement takes
  its index as \<^verbatim>\<open>unsigned int\<close>.\<close>

definition sqlite_plain_value :: "variant_ops \<Rightarrow> variant \<Rightarrow> sqlite_value" where
  "sqlite_plain_value vo v =
    (case v of
       V_Null \<Rightarrow> Bind_Null
     | V_Bool b \<Rightarrow> Bind_Int (if b then 1 else 0)
     | V_Int n \<Rightarrow> if sint n \<le> 2147483647 \<and> sint n \<ge> - 2147483648 then Bind_Int (ucast n) else Bind_Int64 n
     | V_UInt n \<Rightarrow> if uint n \<le> 2147483647 then Bind_Int (ucast n)
         else if uint n \<le> 9223372036854775807 then Bind_Int64 n
         else Bind_Text (vo_tostring vo v)
     | V_Double d \<Rightarrow> Bind_Double d
     | V_String t \<Rightarrow> Bind_Text t
     | V_Timestamp t \<Rightarrow> Bind_Text (vo_datetime vo t)
     | _ \<Rightarrow> Bind_Text (vo_tostring vo v))"

definition sqlite_bindVariant :: "variant_ops \<Rightarrow> variant \<Rightarrow> sqlite_value result" where
  "sqlite_bindVariant vo v =
    (case v of
       V_Custom ref \<Rightarrow> (case vo_baseTypeValue vo ref of
           Inl (Custom_RuntimeError m) \<Rightarrow>
             Inl (RuntimeError (''cannot convert value to base type for binding: '' @ m))
         | Inl (Custom_LogicError m) \<Rightarrow> Inl (LogicError m)
         | Inr (Some b) \<Rightarrow> Inr (if is_custom b then Bind_Text (vo_tostring vo v)
                               else sqlite_plain_value vo b)
         | Inr None \<Rightarrow> Inr (Bind_Text (vo_tostring vo v)))
     | _ \<Rightarrow> Inr (sqlite_plain_value vo v))"

definition sqlite_bind :: "'c sqlite_api \<Rightarrow> variant_ops \<Rightarrow> nat \<Rightarrow> variant \<Rightarrow> ('c, bool) sqlite_op" where
  "sqlite_bind api vo idx v s =
    (if s_state s \<noteq> S_CommandReady \<and> s_state s \<noteq> S_Executed
     then ok_result (not_allowed ''call of bind not allowed in state '' s)
     else let idx = idx mod 2 ^ 32 in case bs_bind idx (q_base (s_statement s)) of
       Inl (RuntimeError m) \<Rightarrow> ok_result (sqlite_errorStatus m s)
     | Inl e \<Rightarrow> (Inl e, s)
     | Inr b \<Rightarrow>
         let s = s\<lparr>s_statement := (s_statement s)\<lparr>q_base := b\<rparr>\<rparr> in
         (case sqlite_bindVariant vo v of
            Inl (RuntimeError m) \<Rightarrow> ok_result (sqlite_errorStatus m s)
          | Inl e \<Rightarrow> (Inl e, s)
          | Inr x \<Rightarrow> (case sq_bind api (q_stm (s_statement s)) idx x (s_engine s) of (rc, c) \<Rightarrow>
              ok_result (sqlite_status api rc S_CommandReady
                (s\<lparr>s_engine := c, s_statement := (s_statement s)\<lparr>q_rc := rc\<rparr>\<rparr>)))))"

definition sqlite_next_row :: "'c sqlite_api \<Rightarrow> 'c sqlite_sm \<Rightarrow> bool \<times> 'c sqlite_sm" where
  "sqlite_next_row api s =
    (if s_state s \<noteq> S_Executed
     then not_allowed ''command not executed, next result of not available in state '' s
     else case sq_step api (s_stm s) (s_engine s) of (rc, c) \<Rightarrow>
       let s = s\<lparr>s_engine := c, s_hasRow := (rc = SQLITE_ROW)\<rparr> in
       if rc = SQLITE_ROW then (True, s)
       else if rc = SQLITE_DONE then (False, s)
       else sqlite_status api rc S_Executed s)"

definition sqlite_next :: "'c sqlite_api \<Rightarrow> ('c, bool) sqlite_op" where
  "sqlite_next api s = ok_result (sqlite_next_row api s)"

definition firstResultIsNullRow :: "'c sqlite_api \<Rightarrow> 'c sqlite_sm \<Rightarrow> bool" where
  "firstResultIsNullRow api s =
    (s_hasRow s \<and> s_state s = S_Executed \<and>
     list_all (\<lambda>ii. sq_column_type api (s_stm s) ii (s_engine s) = 5)
       [0..<sq_column_count api (s_stm s) (s_engine s)])"

text \<open>The loop over null rows in \<^verbatim>\<open>execute\<close>; \<open>None\<close> is a loop that does not end. The
  \<^verbatim>\<open>break\<close> follows from \<open>s_hasRow\<close>.\<close>

definition skip_null_rows :: "'c sqlite_api \<Rightarrow> 'c sqlite_sm \<Rightarrow> 'c sqlite_sm option" where
  "skip_null_rows api s =
    while_option (firstResultIsNullRow api)
      (\<lambda>s. case sqlite_next_row api s of (ok, s') \<Rightarrow> if ok then s' else s'\<lparr>s_hasRow := False\<rparr>) s"

definition sqlite_replace :: "nat \<Rightarrow> string result" where
  "sqlite_replace idx = Inr (DOLLAR # print_unsigned idx)"

definition sqlite_execute :: "'c sqlite_api \<Rightarrow> ('c, bool) sqlite_op" where
  "sqlite_execute api s =
    (case bs_substitute sqlite_replace True (q_base (s_statement s)) of
       Inl e \<Rightarrow> (Inl e, s)
     | Inr b \<Rightarrow>
         let s = s\<lparr>s_statement := (s_statement s)\<lparr>q_base := b\<rparr>\<rparr> in
         if s_state s \<noteq> S_CommandReady
         then ok_result (not_allowed ''call of execute not allowed in state '' s)
         else case sq_step api (s_stm s) (s_engine s) of (rc, c) \<Rightarrow>
           let s = s\<lparr>s_engine := c\<rparr> in
           if rc = SQLITE_ROW then
             (case skip_null_rows api (s\<lparr>s_hasResult := True, s_hasRow := True\<rparr>) of
                None \<Rightarrow> (Inl (Undefined ''endless loop''), s)
              | Some s \<Rightarrow> ok_result (sqlite_status api rc S_Executed s))
           else ok_result (sqlite_status api rc S_Executed
             (s\<lparr>s_hasResult := (rc = SQLITE_DONE), s_hasRow := False\<rparr>)))"

definition sqlite_hasResult :: "('c, bool) sqlite_op" where
  "sqlite_hasResult s = (Inr (s_hasRow s), s)"

definition sqlite_nofColumns :: "'c sqlite_api \<Rightarrow> ('c, nat) sqlite_op" where
  "sqlite_nofColumns api s =
    (if s_state s \<noteq> S_Executed
     then (Inr 0, snd (not_allowed ''number of columns not available in state '' s))
     else (Inr (sq_column_count api (s_stm s) (s_engine s)), s))"

definition index_out_of_range :: "nat \<Rightarrow> 'c sqlite_sm \<Rightarrow> 'c sqlite_sm" where
  "index_out_of_range idx s =
    snd (sqlite_errorStatus (''column index out of range ('' @ print_unsigned idx @ '')'') s)"

definition sqlite_columnName :: "'c sqlite_api \<Rightarrow> nat \<Rightarrow> ('c, string option) sqlite_op" where
  "sqlite_columnName api idx s =
    (if s_state s \<noteq> S_Executed
     then (Inr None, snd (not_allowed ''name of columns not available in state '' s))
     else if idx = 0 \<or> idx \<ge> 2147483647 then (Inr None, index_out_of_range idx s)
     else let rt = sq_column_name api (s_stm s) (idx - 1) (s_engine s) in
       if rt = None \<and> idx \<le> sq_column_count api (s_stm s) (s_engine s)
       then (Inl (LogicError ''array bound read accessing column name''), s)
       else (Inr rt, s))"

definition sqlite_integer ::
  "'c sqlite_api \<Rightarrow> variant_ops \<Rightarrow> nat \<Rightarrow> 'c sqlite_sm \<Rightarrow> variant \<times> 'c sqlite_sm" where
  "sqlite_integer api vo i s =
    (let resval = sq_column_int64 api (s_stm s) i (s_engine s) in
     if sq_column_decltype api (s_stm s) i (s_engine s) = Some ''BOOLEAN'' then
       if resval = 1 then (V_Bool True, s)
       else if resval = 0 then (V_Bool False, s)
       else (V_Null, snd (sqlite_errorStatus (''unexpected value '' @ [SQUOTE]
              @ vo_tostring vo (V_Int resval) @ [SQUOTE] @ '' for boolean type'') s))
     else (V_Int resval, s))"

definition sqlite_get :: "'c sqlite_api \<Rightarrow> variant_ops \<Rightarrow> nat \<Rightarrow> ('c, variant) sqlite_op" where
  "sqlite_get api vo idx s =
    (if s_state s \<noteq> S_Executed
     then (Inr V_Null, snd (not_allowed ''data of result columns not available in state '' s))
     else if idx = 0 \<or> idx > sq_column_count api (s_stm s) (s_engine s)
     then (Inr V_Null, index_out_of_range idx s)
     else let i = idx - 1; restype = sq_column_type api (s_stm s) i (s_engine s) in
       if restype = 1 then ok_result (sqlite_integer api vo i s)
       else if restype = 2 then (Inr (V_Double (sq_column_double api (s_stm s) i (s_engine s))), s)
       else if restype = 3 then
         (Inr (V_String (case_option [] id (sq_column_text api (s_stm s) i (s_engine s)))), s)
       else if restype = 4 then
         (Inr (V_String (case_option [] id (sq_column_blob api (s_stm s) i (s_engine s)))), s)
       else if restype = 5 then (Inr V_Null, s)
       else (Inr V_Null, snd (sqlite_errorStatus
         (''cannot handle result of this type (SQLITE type '' @ print_unsigned restype @ [SQUOTE]) s)))"

definition sqlite_getLastError :: "('c, database_error option) sqlite_op" where
  "sqlite_getLastError s = (Inr (s_lasterror s), s)"

definition sqlite_ops :: "'c sqlite_api \<Rightarrow> variant_ops \<Rightarrow> 'c sqlite_sm exec_ops" where
  "sqlite_ops api vo =
    \<lparr>db_databaseID = (\<lambda>_. sq_ID api), db_start = sqlite_start api, db_bind = sqlite_bind api vo,
     db_execute = sqlite_execute api, db_nofColumns = sqlite_nofColumns api,
     db_columnName = sqlite_columnName api, db_get = sqlite_get api vo, db_next = sqlite_next api,
     db_hasResult = sqlite_hasResult, db_getLastError = sqlite_getLastError\<rparr>"

definition sqlite_transaction_ops :: "'c sqlite_api \<Rightarrow> variant_ops \<Rightarrow> 'c sqlite_sm transaction_ops" where
  "sqlite_transaction_ops api vo =
    \<lparr>tx_exec = sqlite_ops api vo, tx_begin = sqlite_begin api, tx_commit = sqlite_commit api,
     tx_rollback = sqlite_rollback api\<rparr>"

section \<open>Failures\<close>

definition sqlite_inv :: "'c sqlite_sm \<Rightarrow> bool" where
  "sqlite_inv s = (s_state s = S_Error \<longrightarrow> s_lasterror s \<noteq> None)"

definition sqlite_failed :: "'c sqlite_sm \<Rightarrow> bool" where
  "sqlite_failed s = (s_state s = S_Error \<and> s_lasterror s \<noteq> None)"

text \<open>An operation that returns false leaves a recorded failure; any other outcome keeps the
  invariant.\<close>

definition sqlite_outcome :: "bool \<times> 'c sqlite_sm \<Rightarrow> bool" where
  "sqlite_outcome r = (sqlite_inv (snd r) \<and> (\<not> fst r \<longrightarrow> sqlite_failed (snd r)))"

lemma sqlite_outcome_status [intro]:
  "sqlite_inv s \<Longrightarrow> newstate \<noteq> S_Error \<Longrightarrow> sqlite_outcome (sqlite_status api rc newstate s)"
  by (auto simp: sqlite_outcome_def sqlite_status_def sqlite_inv_def sqlite_failed_def
      setDatabaseErrorMessage_def Let_def)

lemma sqlite_outcome_errorStatus [intro]: "sqlite_inv s \<Longrightarrow> sqlite_outcome (sqlite_errorStatus msg s)"
  by (auto simp: sqlite_outcome_def sqlite_errorStatus_def sqlite_inv_def sqlite_failed_def)

lemma sqlite_outcome_not_allowed [intro]: "sqlite_inv s \<Longrightarrow> sqlite_outcome (not_allowed msg s)"
  by (auto simp: not_allowed_def)

lemma sqlite_inv_simps [simp]:
  "sqlite_inv (s\<lparr>s_engine := c\<rparr>) = sqlite_inv s" "sqlite_inv (s\<lparr>s_stm := h\<rparr>) = sqlite_inv s"
  "sqlite_inv (s\<lparr>s_statement := q\<rparr>) = sqlite_inv s" "sqlite_inv (s\<lparr>s_hasRow := b\<rparr>) = sqlite_inv s"
  "sqlite_inv (s\<lparr>s_hasResult := b\<rparr>) = sqlite_inv s" "sqlite_inv (s\<lparr>s_curstm := t\<rparr>) = sqlite_inv s"
  "sqlite_inv (s\<lparr>s_conn := b\<rparr>) = sqlite_inv s"
  "st \<noteq> S_Error \<Longrightarrow> sqlite_inv (s\<lparr>s_state := st\<rparr>)"
  by (simp_all add: sqlite_inv_def)

text \<open>The result of an operation: exceptions are none of the machine's internal errors.\<close>

definition op_ok :: "bool result \<times> 'c sqlite_sm \<Rightarrow> bool" where
  "op_ok r = (case r of (Inl e, s) \<Rightarrow> sqlite_inv s \<and> e \<notin> vm_internal_errors
     | (Inr b, s) \<Rightarrow> sqlite_outcome (b, s))"

lemma op_ok_ok_result [simp]: "op_ok (ok_result r) = sqlite_outcome r"
  by (simp add: op_ok_def ok_result_def)

lemma op_ok_Inl [simp]: "op_ok (Inl e, s) \<longleftrightarrow> sqlite_inv s \<and> e \<notin> vm_internal_errors"
  by (simp add: op_ok_def)

lemma bs_substitute_error: "bs_substitute sqlite_replace True b = Inl e \<Longrightarrow> e \<notin> vm_internal_errors"
proof -
  have "substitute_loop sqlite_replace True b es = Inl e \<Longrightarrow> e \<notin> vm_internal_errors" for es
    by (induction es)
       (auto simp: rbind_eq_Inl_iff sqlite_replace_def bitset_at_def split: if_splits)
  then show "bs_substitute sqlite_replace True b = Inl e \<Longrightarrow> e \<notin> vm_internal_errors"
    by (auto simp: bs_substitute_def rbind_eq_Inl_iff)
qed

lemma bindVariant_error: "sqlite_bindVariant vo v = Inl e \<Longrightarrow> e \<notin> vm_internal_errors"
  by (auto simp: sqlite_bindVariant_def split: variant.splits sum.splits custom_error.splits option.splits)

lemma sqlite_start_ok: "sqlite_inv s \<Longrightarrow> op_ok (sqlite_start api stm s)"
  by (auto simp: sqlite_start_def sqlite_finalize_def Let_def bs_init_error split: prod.split option.split)

lemma sqlite_bind_ok: "sqlite_inv s \<Longrightarrow> op_ok (sqlite_bind api vo i v s)"
  by (auto simp: sqlite_bind_def Let_def split: prod.split sum.split cpp_error.split
      dest!: bs_bind_error bindVariant_error)

text \<open>In \<^verbatim>\<open>execute\<close> the state is still \<^verbatim>\<open>CommandReady\<close> when the null rows are to be skipped.\<close>

lemma skip_null_rows_dead: "s_state s \<noteq> S_Executed \<Longrightarrow> skip_null_rows api s = Some s"
  by (simp add: skip_null_rows_def while_option_unfold firstResultIsNullRow_def)

lemma sqlite_execute_ok: "sqlite_inv s \<Longrightarrow> op_ok (sqlite_execute api s)"
  by (auto simp: sqlite_execute_def Let_def skip_null_rows_dead split: prod.split sum.split
      dest!: bs_substitute_error)

lemma sqlite_inv_errorStatus [simp]: "sqlite_inv s \<Longrightarrow> sqlite_inv (snd (sqlite_errorStatus msg s))"
  by (auto simp: sqlite_errorStatus_def sqlite_inv_def)

lemma op_ok_res: "op_ok r \<Longrightarrow> db_res_ok sqlite_inv r"
  by (auto simp: op_ok_def db_res_ok_def sqlite_outcome_def split: prod.splits sum.splits)

lemma sqlite_next_res: "sqlite_inv s \<Longrightarrow> db_res_ok sqlite_inv (sqlite_next api s)"
  using sqlite_outcome_status [of _ S_Executed api] sqlite_outcome_not_allowed [of s]
  by (auto simp: sqlite_next_def sqlite_next_row_def ok_result_def db_res_ok_def sqlite_outcome_def
      Let_def split: prod.split)

lemma sqlite_read_res:
  assumes "sqlite_inv s"
  shows "db_res_ok sqlite_inv (sqlite_nofColumns api s)" "db_res_ok sqlite_inv (sqlite_columnName api i s)"
    "db_res_ok sqlite_inv (sqlite_get api vo i s)" "db_res_ok sqlite_inv (sqlite_hasResult s)"
    "db_res_ok sqlite_inv (sqlite_getLastError s)"
  using assms
  by (simp_all add: db_res_ok_def sqlite_nofColumns_def not_allowed_def sqlite_columnName_def
      index_out_of_range_def sqlite_get_def sqlite_integer_def ok_result_def sqlite_hasResult_def
      sqlite_getLastError_def Let_def)

lemma sqlite_ops_closed: "db_closed (sqlite_ops api vo) sqlite_inv"
  by (auto simp: db_closed_def sqlite_ops_def sqlite_read_res sqlite_next_res
      intro: op_ok_res sqlite_start_ok sqlite_bind_ok sqlite_execute_ok)

lemma op_ok_False: "op_ok r \<Longrightarrow> r = (Inr False, s) \<Longrightarrow> sqlite_failed s"
  by (simp add: op_ok_def sqlite_outcome_def)

interpretation sqlite: reporting_database "sqlite_ops api vo" sqlite_inv sqlite_failed for api vo
proof unfold_locales
  show "db_closed (sqlite_ops api vo) sqlite_inv" by (rule sqlite_ops_closed)
  show "sqlite_failed s \<Longrightarrow> \<exists>err. db_getLastError (sqlite_ops api vo) s = (Inr (Some err), s)" for s
    by (auto simp: sqlite_ops_def sqlite_failed_def sqlite_getLastError_def)
qed (auto simp: sqlite_ops_def intro: op_ok_False [OF sqlite_start_ok] op_ok_False [OF sqlite_bind_ok]
     op_ok_False [OF sqlite_execute_ok])

section \<open>Reachable states\<close>

datatype sqlite_call =
    Call_begin | Call_commit | Call_rollback | Call_start string | Call_bind nat variant
  | Call_execute | Call_nofColumns | Call_columnName nat | Call_get nat | Call_next

definition sqlite_do :: "'c sqlite_api \<Rightarrow> variant_ops \<Rightarrow> sqlite_call \<Rightarrow> 'c sqlite_sm \<Rightarrow> 'c sqlite_sm" where
  "sqlite_do api vo call s =
    (case call of
       Call_begin \<Rightarrow> snd (sqlite_begin api s) | Call_commit \<Rightarrow> snd (sqlite_commit api s)
     | Call_rollback \<Rightarrow> snd (sqlite_rollback api s) | Call_start t \<Rightarrow> snd (sqlite_start api t s)
     | Call_bind i v \<Rightarrow> snd (sqlite_bind api vo i v s) | Call_execute \<Rightarrow> snd (sqlite_execute api s)
     | Call_nofColumns \<Rightarrow> snd (sqlite_nofColumns api s) | Call_columnName i \<Rightarrow> snd (sqlite_columnName api i s)
     | Call_get i \<Rightarrow> snd (sqlite_get api vo i s) | Call_next \<Rightarrow> snd (sqlite_next api s))"

inductive sqlite_reach :: "'c sqlite_api \<Rightarrow> variant_ops \<Rightarrow> 'c \<Rightarrow> 'c sqlite_sm \<Rightarrow> bool" for api vo c where
  new: "sqlite_reach api vo c (sqlite_new c)"
| call: "sqlite_reach api vo c s \<Longrightarrow> sqlite_reach api vo c (sqlite_do api vo call s)"

definition sqlite_wf :: "'c sqlite_sm \<Rightarrow> bool" where
  "sqlite_wf s =
    (sqlite_inv s \<and> (s_state s \<in> {S_Transaction, S_CommandReady, S_Executed} \<longrightarrow> s_conn s) \<and>
     (s_state s \<in> {S_CommandReady, S_Executed} \<longrightarrow> q_stm (s_statement s) = s_stm s))"

text \<open>A call to \<^verbatim>\<open>status\<close> or \<^verbatim>\<open>errorStatus\<close> moves to the new state or to \<^verbatim>\<open>Error\<close>.\<close>

lemma sqlite_wf_status:
  assumes "sqlite_inv s" and "sqlite_wf (s\<lparr>s_state := st\<rparr>)"
  shows "sqlite_wf (snd (sqlite_status api rc st s))"
  using assms
  by (auto simp: sqlite_status_def sqlite_wf_def sqlite_inv_def setDatabaseErrorMessage_def Let_def)

lemma sqlite_wf_errorStatus [simp]: "sqlite_inv s \<Longrightarrow> sqlite_wf (snd (sqlite_errorStatus msg s))"
  by (auto simp: sqlite_errorStatus_def sqlite_wf_def sqlite_inv_def)

lemma sqlite_wf_inv [simp, dest]: "sqlite_wf s \<Longrightarrow> sqlite_inv s"
  by (simp add: sqlite_wf_def)

lemma sqlite_wf_simps [simp]:
  "sqlite_wf (s\<lparr>s_engine := c\<rparr>) = sqlite_wf s" "sqlite_wf (s\<lparr>s_hasRow := b\<rparr>) = sqlite_wf s"
  "sqlite_wf (s\<lparr>s_hasResult := b\<rparr>) = sqlite_wf s" "sqlite_wf (s\<lparr>s_curstm := t\<rparr>) = sqlite_wf s"
  by (simp_all add: sqlite_wf_def)

lemma sqlite_wf_executeInstruction:
  assumes "sqlite_wf s" and "st \<in> {S_Init, S_Transaction}" and "s_conn s"
  shows "sqlite_wf (snd (sqlite_executeInstruction api t st s))"
proof -
  have st: "sqlite_wf (snd (sqlite_status api rc st s'))" if "sqlite_inv s'" "s_conn s'" for rc s'
    using that assms(2) by (intro sqlite_wf_status) (auto simp: sqlite_wf_def sqlite_inv_def)
  have conn: "s_conn (snd (sqlite_status api rc st s')) = s_conn s'" for rc s'
    by (simp add: sqlite_status_def setDatabaseErrorMessage_def Let_def)
  obtain rc inst tail c where p: "sq_prepare api t (s_engine s) = (rc, inst, tail, c)"
    by (metis prod_cases4)
  let ?s = "s\<lparr>s_hasResult := False, s_hasRow := False, s_curstm := [], s_engine := c\<rparr>"
  have s: "sqlite_wf ?s" "s_conn ?s" using assms(1,3) by simp_all
  obtain ok s1 where s1: "sqlite_status api rc st ?s = (ok, s1)" by fastforce
  obtain rc2 c2 where c2: "sq_step api inst (s_engine s1) = (rc2, c2)" by fastforce
  have "sqlite_wf s1" "s_conn s1" using st [of ?s rc] conn [of rc ?s] s s1 by auto
  with st [of "s1\<lparr>s_engine := c2\<rparr>" rc2] s s1 p c2 show ?thesis
    by (auto simp: sqlite_executeInstruction_def ok_result_def Let_def split: prod.split)
qed

lemma sqlite_clear_state [simp]:
  "s_state (sqlite_clear api s) = S_Init" "sqlite_wf (sqlite_clear api s)"
  by (simp_all add: sqlite_clear_def Let_def sqlite_wf_def sqlite_inv_def)

lemma sqlite_wf_transaction:
  assumes "sqlite_wf s"
  shows "sqlite_wf (snd (sqlite_begin api s))" "sqlite_wf (snd (sqlite_commit api s))"
    "sqlite_wf (snd (sqlite_rollback api s))"
proof -
  note ex = sqlite_wf_executeInstruction
  have "sqlite_wf (s\<lparr>s_engine := c, s_conn := True\<rparr>)" for c
    using assms by (simp add: sqlite_wf_def sqlite_inv_def)
  with assms ex [of "s\<lparr>s_engine := _, s_conn := True\<rparr>" S_Transaction api] show "sqlite_wf (snd (sqlite_begin api s))"
    by (auto simp: sqlite_begin_def not_allowed_def ok_result_def split: prod.split sum.split)
  have act: "s_conn s" if "s_state s \<in> {S_Transaction, S_Executed, S_CommandReady}"
    using assms that by (auto simp: sqlite_wf_def)
  have init: "sqlite_wf (s'\<lparr>s_conn := b\<rparr>)" if "s_state s' = S_Init" for s' :: "'a sqlite_sm" and b
    using that by (simp add: sqlite_wf_def sqlite_inv_def)
  have new: "s_state s' = S_Init"
    if "sqlite_executeInstruction api t S_Init s = (Inr True, s')" for t s'
    using that by (auto simp: sqlite_executeInstruction_def Let_def ok_result_def sqlite_status_def
        split: prod.splits if_splits)
  show "sqlite_wf (snd (sqlite_commit api s))"
    using assms ex [OF assms, of S_Init api "''COMMIT TRANSACTION;''"] act
    by (cases "sqlite_executeInstruction api ''COMMIT TRANSACTION;'' S_Init s")
       (auto simp: sqlite_commit_def not_allowed_def ok_result_def intro!: init new
         split: sum.split bool.split)
  show "sqlite_wf (snd (sqlite_rollback api s))"
    using assms ex [OF assms, of S_Init api "''ROLLBACK TRANSACTION;''"] act
    by (cases "sqlite_executeInstruction api ''ROLLBACK TRANSACTION;'' S_Init s")
       (auto simp: sqlite_rollback_def not_allowed_def ok_result_def Let_def intro!: init
         split: sum.split)
qed

lemma sqlite_wf_statement:
  assumes "sqlite_wf s"
  shows "sqlite_wf (snd (sqlite_start api t s))" "sqlite_wf (snd (sqlite_bind api vo i v s))"
    "sqlite_wf (snd (sqlite_execute api s))"
proof -
  show "sqlite_wf (snd (sqlite_start api t s))"
    using assms
    by (auto simp: sqlite_start_def not_allowed_def ok_result_def Let_def sqlite_finalize_def
        intro!: sqlite_wf_status split: prod.split option.split)
       (auto simp: sqlite_wf_def sqlite_inv_def)
  show "sqlite_wf (snd (sqlite_bind api vo i v s))"
    using assms
    by (auto simp: sqlite_bind_def not_allowed_def ok_result_def Let_def
        intro!: sqlite_wf_status split: prod.split sum.split cpp_error.split)
       (auto simp: sqlite_wf_def sqlite_inv_def)
  show "sqlite_wf (snd (sqlite_execute api s))"
    using assms
    by (auto simp: sqlite_execute_def not_allowed_def ok_result_def Let_def skip_null_rows_dead
        intro!: sqlite_wf_status split: prod.split sum.split)
       (auto simp: sqlite_wf_def sqlite_inv_def)
qed

lemma sqlite_wf_read:
  assumes "sqlite_wf s"
  shows "sqlite_wf (snd (sqlite_nofColumns api s))" "sqlite_wf (snd (sqlite_columnName api i s))"
    "sqlite_wf (snd (sqlite_get api vo i s))" "sqlite_wf (snd (sqlite_next api s))"
  using assms
  by (auto simp: sqlite_nofColumns_def not_allowed_def sqlite_columnName_def
      index_out_of_range_def sqlite_get_def sqlite_integer_def ok_result_def Let_def
      sqlite_next_def sqlite_next_row_def intro!: sqlite_wf_status split: prod.split)
     (auto simp: sqlite_wf_def)

lemma sqlite_reach_wf: "sqlite_reach api vo c s \<Longrightarrow> sqlite_wf s"
proof (induction rule: sqlite_reach.induct)
  case new
  show ?case by (simp add: sqlite_new_def sqlite_wf_def sqlite_inv_def)
next
  case (call s op)
  then show ?case
    by (cases op) (simp_all add: sqlite_do_def sqlite_wf_transaction sqlite_wf_statement sqlite_wf_read)
qed

section \<open>A library for examples\<close>

text \<open>The state is the list of the result codes of the next calls of \<^verbatim>\<open>sqlite3_step\<close>; every
  statement but \<open>SELEKT\<close> is accepted, and every column is null.\<close>

definition script_api :: "nat list sqlite_api" where
  "script_api =
    \<lparr>sq_ID = ''sqlite'', sq_newConnection = (\<lambda>c. (Inr (), c)),
     sq_prepare = (\<lambda>t c. if t = ''SELEKT'' then (1, None, None, c) else (0, Some 1, None, c)),
     sq_step = (\<lambda>_ c. case c of [] \<Rightarrow> (SQLITE_DONE, c) | rc # c' \<Rightarrow> (rc, c')),
     sq_finalize = (\<lambda>_ c. c), sq_bind = (\<lambda>_ _ _ c. (0, c)), sq_column_count = (\<lambda>_ _. 1),
     sq_column_name = (\<lambda>_ _ _. Some ''id''), sq_column_type = (\<lambda>_ _ _. 5),
     sq_column_decltype = (\<lambda>_ _ _. None), sq_column_int64 = (\<lambda>_ _ _. 0),
     sq_column_double = (\<lambda>_ _ _. 0), sq_column_text = (\<lambda>_ _ _. None),
     sq_column_blob = (\<lambda>_ _ _. None), sq_errcode = (\<lambda>_. 1), sq_errmsg = (\<lambda>_. ''syntax error'')\<rparr>"

lemmas script_eval = script_api_def sqlite_new_def sqlite_do_def sqlite_begin_def sqlite_executeInstruction_def
  sqlite_status_def has_tail_def Let_def

definition in_transaction :: "nat list \<Rightarrow> nat list sqlite_sm" where
  "in_transaction c = (sqlite_new c)\<lparr>s_state := S_Transaction, s_conn := True\<rparr>"

lemma script_begin: "sqlite_do script_api vo Call_begin (sqlite_new (SQLITE_DONE # c)) = in_transaction c"
  by (simp add: script_eval in_transaction_def)

lemma script_reach: "sqlite_reach script_api vo (SQLITE_DONE # c) (in_transaction c)"
  using sqlite_reach.call [OF sqlite_reach.new, of script_api vo "SQLITE_DONE # c" Call_begin]
  by (simp add: script_begin)

section \<open>Properties\<close>

text \<open>C9: however the operations of the SQLite state machine are called, a connection is held
  whenever a transaction is active, values are bound to the same prepared statement that is
  executed, and an error is recorded whenever the machine is in its error state.\<close>
theorem sqlite_reachable_consistent:
  assumes "sqlite_reach api vo c s"
  shows "(s_state s \<in> {S_Transaction, S_CommandReady, S_Executed} \<longrightarrow> s_conn s)
    \<and> (s_state s \<in> {S_CommandReady, S_Executed} \<longrightarrow> q_stm (s_statement s) = s_stm s)
    \<and> (s_state s = S_Error \<longrightarrow> s_lasterror s \<noteq> None)"
  using sqlite_reach_wf [OF assms] by (simp add: sqlite_wf_def sqlite_inv_def)

theorem sqlite_reachable_consistent_witness:
  "s_state (in_transaction []) = S_Transaction \<and> s_conn (in_transaction [])"
  using sqlite_reachable_consistent [OF script_reach [of plain_variants "[]"]]
  by (simp add: in_transaction_def)

text \<open>C8: every program of the virtual machine that fails on an SQLite database ends with an
  error that the database state machine recorded, completed with the identifier of the database
  and the address of the failed instruction, or was aborted by the instruction \<^verbatim>\<open>EXIT\<close>; it is
  never reported as an unknown error.\<close>
theorem sqlite_run_failure_reported:
  assumes "sqlite_reach api vo c s" and "vm_input_ok prg tuples"
    and "execute (sqlite_ops api vo) (program_instance_new prg tuples (Some s)) = Some (Done False q)"
  shows "aborted q \<or> reported (sqlite_ops api vo) sqlite_failed q"
  by (rule sqlite.failed_run_explained [OF assms(3) sqlite_wf_inv [OF sqlite_reach_wf [OF assms(1)]] assms(2)])

text \<open>The program that starts the statement \<open>SELEKT\<close>.\<close>

definition failing_image :: program_image where
  "failing_image = (example_image [0x98000000])\<lparr>statements := [''SELEKT''], tuplesets := []\<rparr>"

lemma failing_decoded: "opCode 0x98000000 = Op_DBSTM_START" "condCode 0x98000000 = Co_ALWAYS"
  "argumentIndex 0x98000000 = 0"
  by code_simp+

definition selekt_failed :: "nat list sqlite_sm" where
  "selekt_failed = snd (sqlite_start script_api ''SELEKT'' (in_transaction []))"

lemma selekt_start: "sqlite_start script_api ''SELEKT'' (in_transaction []) = (Inr False, selekt_failed)"
  by (simp add: selekt_failed_def in_transaction_def script_eval sqlite_start_def bs_init_def
      parse_loop_plain bs_clear_def bs_empty_def ok_result_def)

definition selekt_error :: database_error where
  "selekt_error = databaseError ''SYNTAX'' 1 ''syntax error''"

lemma selekt_lasterror: "s_lasterror selekt_failed = Some selekt_error" "s_state selekt_failed = S_Error"
  by (simp_all add: selekt_failed_def in_transaction_def script_eval sqlite_start_def bs_init_def
      parse_loop_plain bs_clear_def bs_empty_def ok_result_def setDatabaseErrorMessage_def
      sqlite_errtype_def selekt_error_def)

definition selekt_run :: "nat list sqlite_sm program_instance" where
  "selekt_run = program_instance_new failing_image [] (Some (in_transaction []))"

lemma script_ID: "sq_ID script_api = ''sqlite''"
  by (simp add: script_api_def)

lemma selekt_fails:
  "execute (sqlite_ops script_api vo) selekt_run =
    Some (Done False (selekt_run\<lparr>m_db_stm := Some selekt_failed,
      m_lastError := selekt_error\<lparr>de_dbname := ''sqlite'', de_ip := 0\<rparr>\<rparr>))"
  by (subst execute_def, subst execute_loop.simps)
     (simp add: selekt_run_def program_instance_new_def failing_image_def example_image_def step_def
       program_code_get_Inr failing_decoded exec_groups vm_eval statementArgument_def vm_db_def
       sqlite_ops_def selekt_start db_return_error_def setDatabaseError_def Let_def
       sqlite_getLastError_def selekt_lasterror stack_element_new_def script_ID)

theorem sqlite_run_failure_reported_witness:
  "\<exists>q. execute (sqlite_ops script_api plain_variants) selekt_run = Some (Done False q) \<and>
    m_lastError q = selekt_error\<lparr>de_dbname := ''sqlite'', de_ip := 0\<rparr> \<and>
    (aborted q \<or> reported (sqlite_ops script_api plain_variants) sqlite_failed q)"
  using sqlite_run_failure_reported [OF script_reach _ selekt_fails [unfolded selekt_run_def]]
    selekt_fails [of plain_variants]
  by (simp add: vm_input_ok_def failing_image_def selekt_run_def)

text \<open>C25: after a failed database operation the rollback of \<^verbatim>\<open>Transaction::execute\<close> does nothing on
  SQLite: the state machine refuses it in its error state, so that no \<^verbatim>\<open>ROLLBACK\<close> reaches the
  database and the transaction object keeps the state machine exactly as the failure left it.\<close>
theorem sqlite_failure_without_rollback:
  assumes "sqlite_reach api vo c s" and "vm_input_ok prg tuples" and "t_stm t = Some s"
    and "execute (sqlite_ops api vo) (program_instance_new prg tuples (Some s)) = Some (Done False q)"
    and "\<not> aborted q"
  shows "transaction_execute (sqlite_transaction_ops api vo) prg tuples t =
    Some (Inr None, t\<lparr>t_stm := m_db_stm q, t_lastError := m_lastError q\<rparr>)"
proof -
  have "reported (sqlite_ops api vo) sqlite_failed q"
    using sqlite.failed_run_explained [OF assms(4) sqlite_wf_inv [OF sqlite_reach_wf [OF assms(1)]] assms(2)]
      assms(5) by simp
  then obtain s' where "m_db_stm q = Some s'" "s_state s' = S_Error"
    by (auto simp: reported_def sqlite_failed_def)
  then show ?thesis
    using assms(3,4)
    by (simp add: transaction_execute_def sqlite_transaction_ops_def t_fail_def t_call_def Let_def
        sqlite_rollback_def not_allowed_def sqlite_errorStatus_def ok_result_def)
qed

theorem sqlite_failure_without_rollback_witness:
  "transaction_execute (sqlite_transaction_ops script_api plain_variants) failing_image []
      \<lparr>t_stm = Some (in_transaction []), t_lastError = database_error0\<rparr> =
    Some (Inr None, \<lparr>t_stm = Some selekt_failed,
      t_lastError = selekt_error\<lparr>de_dbname := ''sqlite'', de_ip := 0\<rparr>\<rparr>)"
  using sqlite_failure_without_rollback [OF script_reach [of _ "[]"] _ _ selekt_fails [unfolded selekt_run_def],
      of "\<lparr>t_stm = Some (in_transaction []), t_lastError = database_error0\<rparr>" plain_variants]
  by (simp add: vm_input_ok_def failing_image_def aborted_def selekt_error_def databaseError_def
      database_error0_def)

text \<open>When the \<^verbatim>\<open>ROLLBACK\<close> itself fails, \<^verbatim>\<open>rollback\<close> clears the recorded error before it
  returns false, so that \<^verbatim>\<open>Transaction::rollback\<close>, which raises an exception only if there is an
  error to report, returns as if the rollback had succeeded.\<close>
theorem sqlite_failed_rollback_silent:
  assumes "t_stm t = Some s" and "s_state s \<in> {S_Transaction, S_CommandReady, S_Executed}" and "s_conn s"
    and "sqlite_executeInstruction api ''ROLLBACK TRANSACTION;'' S_Init s = (Inr False, s1)"
  shows "tx_rollback (sqlite_transaction_ops api vo) s = (Inr False, sqlite_clear api s1) \<and>
    transaction_rollback (sqlite_transaction_ops api vo) t = (Inr (), t\<lparr>t_stm := Some (sqlite_clear api s1)\<rparr>)"
proof -
  have r: "tx_rollback (sqlite_transaction_ops api vo) s = (Inr False, sqlite_clear api s1)"
    using assms(2-4) by (auto simp: sqlite_transaction_ops_def sqlite_rollback_def Let_def)
  moreover have "s_lasterror (sqlite_clear api s1) = None" by (simp add: sqlite_clear_def Let_def)
  ultimately show ?thesis
    using assms(1)
    by (simp add: transaction_rollback_def t_reported_def t_call_def sqlite_transaction_ops_def
        sqlite_ops_def sqlite_getLastError_def)
qed

theorem sqlite_failed_rollback_silent_witness:
  "fst (transaction_rollback (sqlite_transaction_ops script_api plain_variants)
     \<lparr>t_stm = Some (in_transaction [10]), t_lastError = database_error0\<rparr>) = Inr ()"
proof -
  obtain s1 where "sqlite_executeInstruction script_api ''ROLLBACK TRANSACTION;'' S_Init (in_transaction [10])
      = (Inr False, s1)"
    by (simp add: in_transaction_def script_eval)
  from sqlite_failed_rollback_silent [OF _ _ _ this,
      of "\<lparr>t_stm = Some (in_transaction [10]), t_lastError = database_error0\<rparr>" plain_variants]
  show ?thesis by (simp add: in_transaction_def)
qed

text \<open>The integer that the library stores for a bound value.\<close>

definition stored_int :: "sqlite_value \<Rightarrow> int option" where
  "stored_int x = (case x of Bind_Int w \<Rightarrow> Some (sint w) | Bind_Int64 w \<Rightarrow> Some (sint w) | _ \<Rightarrow> None)"

lemma sint_eq_uint_iff: "uint n < 2 ^ 63 \<longleftrightarrow> sint (n :: 64 word) = uint n"
proof -
  have "- 9223372036854775808 \<le> uint n" using uint_ge_0 [of n] by linarith
  then show ?thesis by (simp add: sint_uint signed_take_bit_int_eq_self_iff)
qed

lemma sint_narrow:
  fixes n :: "64 word"
  assumes "- 2147483648 \<le> sint n" "sint n \<le> 2147483647"
  shows "sint (ucast n :: 32 word) = sint n"
proof -
  have "sint (ucast n :: 32 word) = signed_take_bit 31 (sint n)"
    by transfer (simp add: signed_take_bit_take_bit)
  also have "\<dots> = sint n" using assms by (intro signed_take_bit_int_eq_self) simp_all
  finally show ?thesis .
qed


section \<open>A statement on SQLite from end to end\<close>

text \<open>What the library does: it accepts the values, and then steps through the rows. The values are
  read from the column functions the way \<^verbatim>\<open>get\<close> reads them.\<close>

fun library_binds ::
  "'c sqlite_api \<Rightarrow> variant_ops \<Rightarrow> nat option \<Rightarrow> nat \<Rightarrow> variant list \<Rightarrow> 'c \<Rightarrow> 'c option" where
  "library_binds api vo h i [] c = Some c"
| "library_binds api vo h i (v # vs) c =
    (case sqlite_bindVariant vo v of
       Inr x \<Rightarrow> (case sq_bind api h i x c of
         (rc, c') \<Rightarrow> if rc = SQLITE_OK then library_binds api vo h (Suc i) vs c' else None)
     | Inl _ \<Rightarrow> None)"

definition column_value :: "'c sqlite_api \<Rightarrow> nat option \<Rightarrow> 'c \<Rightarrow> nat \<Rightarrow> variant option" where
  "column_value api h c i =
    (let ty = sq_column_type api h i c in
     if ty = 1 then
       (let n = sq_column_int64 api h i c in
        if sq_column_decltype api h i c = Some ''BOOLEAN''
        then (if n = 1 then Some (V_Bool True) else if n = 0 then Some (V_Bool False) else None)
        else Some (V_Int n))
     else if ty = 2 then Some (V_Double (sq_column_double api h i c))
     else if ty = 3 then Some (V_String (case_option [] id (sq_column_text api h i c)))
     else if ty = 4 then Some (V_String (case_option [] id (sq_column_blob api h i c)))
     else if ty = 5 then Some V_Null else None)"

fun library_rows ::
  "'c sqlite_api \<Rightarrow> nat option \<Rightarrow> nat \<Rightarrow> variant list list \<Rightarrow> 'c \<Rightarrow> 'c \<Rightarrow> bool" where
  "library_rows api h n [] c c' = (c = c')"
| "library_rows api h n (r # rs) c c' =
    (sq_column_count api h c = n \<and> map (column_value api h c) [0..<n] = map Some r \<and>
     (case sq_step api h c of (rc, c2) \<Rightarrow>
        rc = (if rs = [] then SQLITE_DONE else SQLITE_ROW) \<and> library_rows api h n rs c2 c'))"

lemma sqlite_get_value:
  assumes "s_state s = S_Executed" and "i < sq_column_count api (s_stm s) (s_engine s)"
    and "column_value api (s_stm s) (s_engine s) i = Some v"
  shows "sqlite_get api vo (Suc i) s = (Inr v, s)"
  using assms
  by (auto simp: sqlite_get_def column_value_def sqlite_integer_def Let_def ok_result_def split: if_splits)

lemma sqlite_yields:
  assumes "library_rows api h n rows c c'" and "rows \<noteq> []" and "s_state s = S_Executed"
    and "s_stm s = h" and "s_engine s = c"
  shows "yields (sqlite_ops api vo) n rows s (s\<lparr>s_engine := c', s_hasRow := False\<rparr>)"
  using assms
proof (induction rows arbitrary: c s)
  case (Cons r rs)
  obtain rc c2 where step: "sq_step api h c = (rc, c2)" by fastforce
  have rc: "rc = (if rs = [] then SQLITE_DONE else SQLITE_ROW)" and rest: "library_rows api h n rs c2 c'"
    and vals: "map (column_value api h c) [0..<n] = map Some r" and cnt: "sq_column_count api h c = n"
    using Cons.prems(1) step by auto
  have len: "length r = n" using vals by (metis length_map length_upt diff_zero)
  have "column_value api h c i = Some (r ! i)" if "i < n" for i
    using arg_cong [OF vals, of "\<lambda>xs. xs ! i"] that len by simp
  then have "db_map (sqlite_get api vo) [Suc 0..<Suc n] s = (Inr (map ((!) r) [0..<n]), s)"
    using Cons.prems cnt by (intro db_map_reads sqlite_get_value) auto
  then have get: "db_map (sqlite_get api vo) [1..<Suc n] s = (Inr r, s)"
    using len map_nth [of r] by simp
  have nxt: "sqlite_next api s = (Inr (rs \<noteq> []), s\<lparr>s_engine := c2, s_hasRow := (rs \<noteq> [])\<rparr>)"
    using Cons.prems step rc by (simp add: sqlite_next_def sqlite_next_row_def ok_result_def)
  show ?case
    using get nxt rest Cons.IH [of c2 "s\<lparr>s_engine := c2, s_hasRow := True\<rparr>"] Cons.prems
    by (auto simp: yields_Cons sqlite_ops_def simp del: upt_Suc)
qed simp

text \<open>Binding the values in order, when the placeholders of the statement are numbered without
  gaps and the last one is the largest.\<close>

lemma sqlite_bind_accepted:
  assumes "s_state s = S_CommandReady" and "q_stm (s_statement s) = h" and "s_engine s = c"
    and "library_binds api vo h i vs c = Some c'" and "b = q_base (s_statement s)" and "0 < i"
    and "bs_usedIdx b = {1..n}" and "bs_maxParam b = n" and "bs_setIdx b = {1..<i}"
    and "i + length vs = Suc n" and "n < MaxNofParams"
  shows "\<exists>q. bind_all (sqlite_ops api vo) i vs s = Some (s\<lparr>s_engine := c', s_statement := q\<rparr>)
    \<and> q_base q = b\<lparr>bs_setIdx := {1..n}\<rparr> \<and> q_stm q = h"
  using assms
proof (induction vs arbitrary: i s c b)
  case Nil
  then have "{1..n} = {1..<i}" by auto
  with Nil show ?case
    by (intro exI [of _ "s_statement s"]) (cases s, auto simp: bind_all.simps)
next
  case (Cons v vs)
  obtain x where x: "sqlite_bindVariant vo v = Inr x" using Cons.prems by (auto split: sum.splits)
  obtain rc c2 where b2: "sq_bind api h i x c = (rc, c2)" by fastforce
  have rc: "rc = SQLITE_OK" and rest: "library_binds api vo h (Suc i) vs c2 = Some c'"
    using Cons.prems x b2 by (auto split: if_splits)
  have i: "i \<le> n" "i < MaxNofParams" "i < 2 ^ 32" using Cons.prems by (auto simp: MaxNofParams_def)
  let ?b = "b\<lparr>bs_setIdx := insert i (bs_setIdx b)\<rparr>"
  have "bs_bind i b = Inr ?b"
    using Cons.prems i by (simp add: bs_bind_def bitset_at_def)
  then have bind: "sqlite_bind api vo i v s =
      (Inr True, s\<lparr>s_engine := c2, s_statement := (s_statement s)\<lparr>q_base := ?b, q_rc := rc\<rparr>\<rparr>)"
    using Cons.prems(1-3,5) x b2 rc i
    by (cases s) (simp add: sqlite_bind_def Let_def ok_result_def sqlite_status_def)
  have "insert i (bs_setIdx b) = {1..<Suc i}" using Cons.prems by auto
  then show ?case
    using Cons.IH [of "s\<lparr>s_engine := c2, s_statement := (s_statement s)\<lparr>q_base := ?b, q_rc := rc\<rparr>\<rparr>" c2
        "Suc i" ?b] Cons.prems rest bind
    by (fastforce simp: bind_all_Cons sqlite_ops_def)
qed

lemma sqlite_substitutes:
  assumes "bs_init stm b0 = (None, b)" and "bs_usedIdx b \<subseteq> I"
  shows "\<exists>b'. bs_substitute sqlite_replace True (b\<lparr>bs_setIdx := I\<rparr>) = Inr b'"
proof -
  let ?b = "b\<lparr>bs_setIdx := I\<rparr>"
  have "(\<And>i t. (i, t) \<in> set els \<Longrightarrow> i \<noteq> 0 \<Longrightarrow> i < MaxNofParams \<and> i \<in> I) \<Longrightarrow>
      \<exists>t. substitute_loop sqlite_replace True ?b els = Inr t" for els
    by (induction els) (fastforce simp: sqlite_replace_def bitset_at_def)+
  moreover have "i < MaxNofParams \<and> i \<in> I" if "(i, t) \<in> set (bs_data b)" "i \<noteq> 0" for i t
  proof -
    have "i \<in> set (param_indices (bs_data b))" using that by (force simp: param_indices_def)
    then show ?thesis using bs_init_params_ok [OF assms(1)] assms(2) by (auto simp: params_ok_def)
  qed
  ultimately obtain t where "substitute_loop sqlite_replace True ?b (bs_data b) = Inr t" by blast
  then show ?thesis by (simp add: bs_substitute_def)
qed

lemma sqlite_column_names:
  assumes "s_state s = S_Executed" and "length cols < 2147483647"
    and "\<And>i. i < length cols \<Longrightarrow> sq_column_name api (s_stm s) i (s_engine s) = Some (cols ! i)"
  shows "db_map (sqlite_columnName api) [1..<Suc (length cols)] s = (Inr (map Some cols), s)"
proof -
  have "db_map (sqlite_columnName api) [Suc 0..<Suc (length cols)] s =
      (Inr (map (\<lambda>i. Some (cols ! i)) [0..<length cols]), s)"
    using assms by (intro db_map_reads) (simp add: sqlite_columnName_def Let_def)
  moreover have "map (\<lambda>i. Some (cols ! i)) [0..<length cols] = map Some cols"
    by (intro nth_equalityI) simp_all
  ultimately show ?thesis by simp
qed

text \<open>The library prepares the statement \<open>stm\<close>, takes the parameters, and answers with columns and rows.\<close>

definition library_answers ::
  "'c sqlite_api \<Rightarrow> variant_ops \<Rightarrow> string \<Rightarrow> variant list \<Rightarrow> string list \<Rightarrow> variant list list \<Rightarrow> 'c \<Rightarrow> 'c \<Rightarrow> bool" where
  "library_answers api vo stm params cols rows c c' =
    (case sq_prepare api stm c of (rc, h, tail, c0) \<Rightarrow>
       rc = SQLITE_OK \<and> \<not> has_tail tail \<and>
       (case library_binds api vo h 1 params c0 of
          None \<Rightarrow> False
        | Some c1 \<Rightarrow> (case sq_step api h c1 of (rc, c2) \<Rightarrow>
            rc = (if rows = [] then SQLITE_DONE else SQLITE_ROW) \<and>
            sq_column_count api h c2 = length cols \<and>
            list_all (\<lambda>i. sq_column_name api h i c2 = Some (cols ! i)) [0..<length cols] \<and>
            library_rows api h (length cols) rows c2 c')))"

lemma sqlite_serves:
  assumes "s_state s = S_Transaction"
    and "bs_init stm (q_base (s_statement s)) = (None, b)"
    and "bs_usedIdx b = {1..length params}" and "bs_maxParam b = length params"
    and "library_answers api vo stm params cols rows (s_engine s) c'"
    and "cols = [] \<Longrightarrow> rows = []" and "length cols < 2147483647"
  shows "\<exists>s'. serves (sqlite_ops api vo) stm params (map Some cols) rows s s'
    \<and> s_state s' = S_Executed \<and> s_engine s' = c'"
proof -
  let ?n = "length params"
  obtain h tail c0 c1 where prep: "sq_prepare api stm (s_engine s) = (SQLITE_OK, h, tail, c0)"
    and tail: "\<not> has_tail tail" and binds: "library_binds api vo h 1 params c0 = Some c1"
    using assms(5) by (auto simp: library_answers_def split: prod.splits option.splits)
  obtain rc c2 where step: "sq_step api h c1 = (rc, c2)" by fastforce
  have rc: "rc = (if rows = [] then SQLITE_DONE else SQLITE_ROW)"
    and cnt: "sq_column_count api h c2 = length cols" and rows: "library_rows api h (length cols) rows c2 c'"
    and names: "\<And>i. i < length cols \<Longrightarrow> sq_column_name api h i c2 = Some (cols ! i)"
    using assms(5) prep tail binds step by (auto simp: library_answers_def list_all_iff)
  have n: "?n < MaxNofParams"
    using bs_init_params_ok [OF assms(2)] assms(3) by (cases "?n = 0") (auto simp: params_ok_def MaxNofParams_def)
  define s1 where "s1 = s\<lparr>s_hasResult := False, s_hasRow := False, s_curstm := stm, s_engine := c0,
      s_stm := h, s_statement := (s_statement s)\<lparr>q_base := b, q_stm := h\<rparr>, s_state := S_CommandReady\<rparr>"
  have start: "sqlite_start api stm s = (Inr True, s1)"
    using assms(1,2) prep tail by (simp add: sqlite_start_def Let_def ok_result_def sqlite_status_def s1_def)
  have "bs_setIdx b = {}" using bs_init_params_ok [OF assms(2)] by (simp add: params_ok_def)
  moreover have "s_state s1 = S_CommandReady" "q_stm (s_statement s1) = h" "s_engine s1 = c0"
    "b = q_base (s_statement s1)" by (simp_all add: s1_def)
  ultimately obtain q where
    bind: "bind_all (sqlite_ops api vo) 1 params s1 = Some (s1\<lparr>s_engine := c1, s_statement := q\<rparr>)"
    and q: "q_base q = b\<lparr>bs_setIdx := {1..?n}\<rparr>" "q_stm q = h"
    using sqlite_bind_accepted [OF _ _ _ binds, of s1 b ?n] assms(3,4) n by auto
  obtain b' where b': "bs_substitute sqlite_replace True (q_base q) = Inr b'"
    using sqlite_substitutes [OF assms(2)] assms(3) q(1) by auto
  define s3 where "s3 = s1\<lparr>s_engine := c2, s_statement := q\<lparr>q_base := b'\<rparr>, s_hasResult := True,
      s_hasRow := (rows \<noteq> []), s_state := S_Executed\<rparr>"
  have exec: "sqlite_execute api (s1\<lparr>s_engine := c1, s_statement := q\<rparr>) = (Inr True, s3)"
    using b' step rc
    by (simp add: sqlite_execute_def Let_def s1_def s3_def skip_null_rows_dead ok_result_def sqlite_status_def)
  have s3: "s_state s3 = S_Executed" "s_stm s3 = h" "s_engine s3 = c2" "s_hasRow s3 = (rows \<noteq> [])"
    by (simp_all add: s3_def s1_def)
  let ?s' = "s3\<lparr>s_engine := c', s_hasRow := False\<rparr>"
  have "has_result (sqlite_ops api vo) (map Some cols) rows s3 (if rows = [] then s3 else ?s')"
    using sqlite_column_names [of s3 cols api] sqlite_yields [OF rows _ s3(1-3)] s3 names assms(7)
    by (auto simp: has_result_def sqlite_ops_def sqlite_hasResult_def simp del: upt_Suc)
  then have "serves (sqlite_ops api vo) stm params (map Some cols) rows s (if rows = [] then s3 else ?s')"
    using start bind exec cnt s3 assms(6)
    by (simp add: serves_def sqlite_ops_def sqlite_nofColumns_def)
  then show ?thesis using s3 rows by (cases "rows = []") auto
qed

text \<open>C2: a statement on SQLite is right from end to end, from \<^verbatim>\<open>Transaction::executeStatement\<close> over
  the generated program, the virtual machine and the state machine to the library: when the
  placeholders are numbered 1 to the number of parameters with the largest one last, and the library
  prepares the statement, takes the parameters and steps through some rows, the call ends and returns
  exactly these rows under their column names, and the library is left behind the last row.\<close>
theorem sqlite_executeStatement_rows:
  assumes "t_stm t = Some s" and "s_state s = S_Transaction"
    and "bs_init stm (q_base (s_statement s)) = (None, b)"
    and "bs_usedIdx b = {1..length params}" and "bs_maxParam b = length params"
    and "library_answers api vo stm params cols rows (s_engine s) c'"
    and "cols = [] \<Longrightarrow> rows = []" and "length cols < 2147483647"
  shows "\<exists>s'. executeStatement_result other (sqlite_transaction_ops api vo) stm params t =
      Some (Inr (Some \<lparr>r_colnames = (if rows = [] then [] else cols), r_rows = rows\<rparr>), t\<lparr>t_stm := Some s'\<rparr>)
    \<and> s_state s' = S_Executed \<and> s_engine s' = c'"
proof -
  obtain s' where s': "serves (tx_exec (sqlite_transaction_ops api vo)) stm params (map Some cols) rows s s'"
    "s_state s' = S_Executed" "s_engine s' = c'"
    using sqlite_serves [OF assms(2-8)] by (auto simp: sqlite_transaction_ops_def)
  have "length params < 32"
    using bs_init_params_ok [OF assms(3)] assms(4)
    by (cases "length params = 0") (auto simp: params_ok_def MaxNofParams_def)
  then have "length params + 13 < Max_ArgumentIndex"
    by (simp add: Max_ArgumentIndex_def BitCnt_ArgumentIndex_def)
  from executeStatement_rows [OF this assms(1) s'(1)] s'(2,3) show ?thesis
    by (auto simp: comp_def)
qed

theorem sqlite_executeStatement_rows_witness:
  "\<exists>s'. executeStatement_result (\<lambda>_. []) (sqlite_transaction_ops script_api plain_variants)
      ''$1'' [V_Int 4]
      \<lparr>t_stm = Some (in_transaction [SQLITE_ROW, SQLITE_DONE]), t_lastError = database_error0\<rparr> =
    Some (Inr (Some \<lparr>r_colnames = [''id''], r_rows = [[V_Null]]\<rparr>),
      \<lparr>t_stm = Some s', t_lastError = database_error0\<rparr>) \<and> s_engine s' = []"
proof -
  let ?t = "\<lparr>t_stm = Some (in_transaction [SQLITE_ROW, SQLITE_DONE]), t_lastError = database_error0\<rparr>"
  let ?b = "\<lparr>bs_stmtStr = ''$1'', bs_maxParam = 1, bs_data = [(1, [])], bs_nativeStmt = [],
    bs_usedIdx = {1}, bs_setIdx = {}\<rparr>"
  have i: "bs_init ''$1'' bs_empty = (None, ?b)"
    by (simp add: bs_init_def bs_clear_def bs_empty_def parse_loop_param parse_examples Let_def
        push_param_def push_chunk_def bitset_set_def MaxNofParams_def)
  have a: "library_answers script_api plain_variants ''$1'' [V_Int 4] [''id''] [[V_Null]]
      [SQLITE_ROW, SQLITE_DONE] []"
    by (simp add: library_answers_def script_api_def has_tail_def sqlite_bindVariant_def column_value_def)
  show ?thesis
    using sqlite_executeStatement_rows [of ?t _ "''$1''" ?b "[V_Int 4]" script_api plain_variants
        "[''id'']" "[[V_Null]]" "[]" "\<lambda>_. []"] i a
    by (auto simp: in_transaction_def sqlite_new_def)
qed

end
