(* ===== verification/Program_Tables.thy ===== *)
theory Program_Tables
  imports Value_Tuple_Set Program_Instance "HOL-Library.List_Lexorder" "HOL-Library.Char_ord"
begin

text \<open>
  The symbol tables of programs under construction, \<^verbatim>\<open>src/modules/cmdbind/tdl/vm/\<close>: name
  tables (\<^verbatim>\<open>nameTable.hpp\<close>) on top of maps with case insensitive keys
  (\<^verbatim>\<open>include/types/keymap.hpp\<close>), error hint tables (\<^verbatim>\<open>errorHintTable.hpp\<close>), tag tables
  (\<^verbatim>\<open>tagTable.cpp\<close>), selector paths and sets of them (\<^verbatim>\<open>selectorPath.cpp\<close>,
  \<^verbatim>\<open>selectorPathSet.cpp\<close>), and the maps that translate argument indices when two tables are
  joined (\<^verbatim>\<open>patchArgumentMap.hpp\<close>). The laws of a symbol table are the locale
  \<open>symbol_table\<close>, interpreted on the name table.
\<close>

section \<open>Maps with case insensitive keys\<close>

text \<open>\<^verbatim>\<open>std::map\<close> is the list of its entries in the order of their keys; \<^verbatim>\<open>keystring\<close> turns
  a key to upper case.\<close>

type_synonym 'v keymap = "(string \<times> 'v) list"

definition keystring :: "string \<Rightarrow> string" where
  "keystring s = map to_upper s"

definition keymap_find :: "string \<Rightarrow> 'v keymap \<Rightarrow> 'v option" where
  "keymap_find key m = map_of m (keystring key)"

definition keymap_insert :: "string \<Rightarrow> 'v \<Rightarrow> 'v keymap \<Rightarrow> 'v keymap result" where
  "keymap_insert key v m =
    (if keymap_find key m \<noteq> None
     then Inl (RuntimeError (''duplicate definition of '' @ [CHR 0x27] @ keystring key @ [CHR 0x27]))
     else Inr (insort_key fst (keystring key, v) m))"

section \<open>Patch maps\<close>

datatype patch_map = Patch_Offset nat | Patch_Table "nat \<rightharpoonup> nat"

definition patch_index :: "patch_map \<Rightarrow> nat \<Rightarrow> nat result" where
  "patch_index pm i =
    (case pm of
       Patch_Offset ofs \<Rightarrow> Inr (ofs + i)
     | Patch_Table m \<Rightarrow> (case m i of None \<Rightarrow> Inl (LogicError ''incomplete patch argument map'') | Some j \<Rightarrow> Inr j))"

section \<open>Name tables\<close>

record name_table =
  nt_namemap :: "nat keymap"
  nt_namear :: "string list"

definition nt_new :: name_table where
  "nt_new = \<lparr>nt_namemap = [], nt_namear = []\<rparr>"

definition nt_getName :: "nat \<Rightarrow> name_table \<Rightarrow> string result" where
  "nt_getName idx t =
    (if idx > length (nt_namear t) then Inl (RuntimeError ''reference out of range'')
     else if idx = 0 then Inl (RuntimeError ''reference is NULL'')
     else Inr (nt_namear t ! (idx - 1)))"

definition nt_getIndex :: "string \<Rightarrow> name_table \<Rightarrow> nat" where
  "nt_getIndex nam t = (case keymap_find nam (nt_namemap t) of None \<Rightarrow> 0 | Some i \<Rightarrow> i)"

definition nt_define :: "string \<Rightarrow> name_table \<Rightarrow> (nat \<times> name_table) result" where
  "nt_define nam t =
    rbind (keymap_insert nam (length (nt_namear t) + 1) (nt_namemap t)) (\<lambda>m.
      Inr (length (nt_namear t) + 1, \<lparr>nt_namemap = m, nt_namear = nt_namear t @ [nam]\<rparr>))"

definition nt_get :: "string \<Rightarrow> name_table \<Rightarrow> (nat \<times> name_table) result" where
  "nt_get nam t =
    (case keymap_find nam (nt_namemap t) of None \<Rightarrow> nt_define nam t | Some i \<Rightarrow> Inr (i, t))"

text \<open>\<^verbatim>\<open>m_namear.at( oi->second-1)\<close>: at the index 0 the subtraction wraps and \<^verbatim>\<open>at\<close> raises.\<close>

fun nt_join_loop ::
  "nat keymap \<Rightarrow> string list \<Rightarrow> name_table \<Rightarrow> (nat \<rightharpoonup> nat) \<Rightarrow> (patch_map \<times> name_table) result" where
  "nt_join_loop [] ar t m = Inr (Patch_Table m, t)"
| "nt_join_loop ((k, i) # es) ar t m =
    (if i = 0 \<or> i > length ar then Inl (LogicError ''vector::_M_range_check'')
     else rbind (nt_get (ar ! (i - 1)) t) (\<lambda>(j, t'). nt_join_loop es ar t' (m(i \<mapsto> j))))"

definition nt_join :: "name_table \<Rightarrow> name_table \<Rightarrow> (patch_map \<times> name_table) result" where
  "nt_join oth t = nt_join_loop (nt_namemap oth) (nt_namear oth) t Map.empty"

section \<open>Error hint tables\<close>

type_synonym hint_table = "error_hint list list"

definition findHint :: "nat \<Rightarrow> string \<Rightarrow> hint_table \<Rightarrow> string option result" where
  "findHint idx errorclass t =
    (if idx > length t \<or> idx = 0 then Inl (RuntimeError ''hint table index out of bounds'')
     else Inr (map_option eh_message (List.find (\<lambda>h. iequals errorclass (eh_errorclass h)) (t ! (idx - 1)))))"

definition hint_startdef :: "hint_table \<Rightarrow> (nat \<times> hint_table) result" where
  "hint_startdef t =
    (if length t \<ge> Max_ArgumentIndex
     then Inl (RuntimeError ''number of defined hint sets out of bounds'')
     else Inr (length t + 1, t @ [[]]))"

definition hint_define :: "string \<Rightarrow> string \<Rightarrow> hint_table \<Rightarrow> hint_table result" where
  "hint_define errorclass msg t =
    (if t = [] then Inl (LogicError ''hint table definition without start'')
     else rbind (findHint (length t) errorclass t) (\<lambda>h.
       if h \<noteq> None
       then Inl (RuntimeError (''duplicate definition of hint for error class '' @ [CHR 0x27] @ errorclass
              @ [CHR 0x27] @ '' for same statement''))
       else Inr (butlast t @ [last t @ [\<lparr>eh_errorclass = errorclass, eh_message = msg\<rparr>]])))"

definition hint_join :: "hint_table \<Rightarrow> hint_table \<Rightarrow> patch_map \<times> hint_table" where
  "hint_join oth t = (Patch_Offset (length t), t @ oth)"

section \<open>Tag tables\<close>

text \<open>\<^verbatim>\<open>m_strings\<close> holds the tag names, each with a terminating zero; the index of a tag is the
  position of its name.\<close>

abbreviation NUL :: char where "NUL \<equiv> CHR 0x00"

record tag_table =
  tt_case_sensitive :: bool
  tt_map :: "(string \<times> nat) list"
  tt_strings :: string

definition tt_new :: "bool \<Rightarrow> tag_table" where
  "tt_new cs = \<lparr>tt_case_sensitive = cs, tt_map = [], tt_strings = [NUL, NUL]\<rparr>"

definition tag_key :: "tag_table \<Rightarrow> string \<Rightarrow> string" where
  "tag_key t nam = (if tt_case_sensitive t then nam else map to_lower nam)"

definition tt_find :: "string \<Rightarrow> tag_table \<Rightarrow> nat" where
  "tt_find nam t = (case map_of (tt_map t) (tag_key t nam) of None \<Rightarrow> 0 | Some i \<Rightarrow> i)"

definition tt_get :: "string \<Rightarrow> tag_table \<Rightarrow> nat \<times> tag_table" where
  "tt_get nam t =
    (case map_of (tt_map t) (tag_key t nam) of
       Some i \<Rightarrow> (i, t)
     | None \<Rightarrow> (length (tt_strings t),
         t\<lparr>tt_map := insort_key fst (tag_key t nam, length (tt_strings t)) (tt_map t),
           tt_strings := tt_strings t @ nam @ [NUL]\<rparr>))"

definition tt_getstr :: "nat \<Rightarrow> tag_table \<Rightarrow> string option" where
  "tt_getstr tg t = (if tg = 0 then None else Some (takeWhile (\<lambda>c. c \<noteq> NUL) (drop tg (tt_strings t))))"

fun tt_insert_loop :: "(string \<times> nat) list \<Rightarrow> tag_table \<Rightarrow> (nat \<rightharpoonup> nat) \<Rightarrow> (nat \<rightharpoonup> nat) \<times> tag_table" where
  "tt_insert_loop [] t m = (m, t)"
| "tt_insert_loop ((k, i) # es) t m = (case tt_get k t of (j, t') \<Rightarrow> tt_insert_loop es t' (m(i \<mapsto> j)))"

definition tt_insert :: "tag_table \<Rightarrow> tag_table \<Rightarrow> (nat \<rightharpoonup> nat) \<times> tag_table" where
  "tt_insert oth t = tt_insert_loop (tt_map oth) t Map.empty"

section \<open>Selector paths\<close>

datatype selector_type = Sel_Root | Sel_Current | Sel_Next | Sel_Find | Sel_Up

type_synonym selector_element = "selector_type \<times> nat"
type_synonym selector_path = "selector_element list"

abbreviation SLASH :: char where "SLASH \<equiv> CHR 0x2F"

definition in_path :: "string \<Rightarrow> string \<Rightarrow> cpp_error" where
  "in_path msg selector = RuntimeError (msg @ [CHR 0x27] @ selector @ [CHR 0x27])"

text \<open>One element with its type and tag name, added to the path.\<close>

definition path_element ::
  "string \<Rightarrow> selector_type \<Rightarrow> string \<Rightarrow> selector_path \<Rightarrow> tag_table \<Rightarrow> (selector_path \<times> tag_table) result" where
  "path_element selector ty tagnam path t =
    (if tagnam = [] then Inl (in_path ''empty tag in path '' selector)
     else if tagnam = ''..'' then
       (if ty = Sel_Find then Inl (in_path (''selection '' @ [CHR 0x27] @ ''//..'' @ [CHR 0x27] @ '' is illegal in path '') selector)
        else Inr (path @ [(Sel_Up, 0)], t))
     else if tagnam = ''.'' then
       (if ty = Sel_Find then Inl (in_path (''selection '' @ [CHR 0x27] @ ''//.'' @ [CHR 0x27] @ '' is illegal in path '') selector)
        else Inr (path, t))
     else if tagnam = ''*'' then Inr (path @ [(ty, 0)], t)
     else if CHR ''*'' \<in> set (takeWhile (\<lambda>c. c \<noteq> NUL) tagnam)
     then Inl (RuntimeError (''asterisk character '' @ [CHR 0x27] @ ''*'' @ [CHR 0x27]
       @ '' not allowed as character in a token other than the string '' @ [CHR 0x22] @ ''*'' @ [CHR 0x22]))
     else (case tt_get tagnam t of (tag, t') \<Rightarrow> Inr (path @ [(ty, tag)], t')))"

text \<open>The separator in front of an element: the type of the element and the rest of the selector;
  \<open>None\<close> at a single slash at the end.\<close>

definition path_separator :: "string \<Rightarrow> (selector_type \<times> string) option" where
  "path_separator cs =
    (case cs of
       [] \<Rightarrow> None
     | c # r \<Rightarrow>
         if c = SLASH then
           (case r of [] \<Rightarrow> None | d # r' \<Rightarrow> if d = SLASH then Some (Sel_Find, r') else Some (Sel_Next, r))
         else Some (Sel_Next, cs))"

function path_loop ::
  "string \<Rightarrow> string \<Rightarrow> selector_path \<Rightarrow> tag_table \<Rightarrow> (selector_path \<times> tag_table) result" where
  "path_loop selector cs path t =
    (case path_separator cs of
       None \<Rightarrow> Inr (path, t)
     | Some (ty, r) \<Rightarrow>
         (case path_element selector ty (takeWhile (\<lambda>c. c \<noteq> SLASH) r) path t of
            Inl e \<Rightarrow> Inl e
          | Inr (path', t') \<Rightarrow> path_loop selector (dropWhile (\<lambda>c. c \<noteq> SLASH) r) path' t'))"
  by pat_completeness auto

lemma path_separator_length: "path_separator cs = Some (ty, r) \<Longrightarrow> length r \<le> length cs"
  by (auto simp: path_separator_def split: list.splits if_splits)

lemma path_element_nonempty: "path_element selector ty tagnam path t = Inr x \<Longrightarrow> tagnam \<noteq> []"
  by (auto simp: path_element_def)

lemma dropWhile_shorter: "takeWhile P r \<noteq> [] \<Longrightarrow> length (dropWhile P r) < length r"
  by (cases r) (auto simp: le_imp_less_Suc length_dropWhile_le split: if_splits)

termination path_loop
  by (relation "measure (\<lambda>(selector, cs, path, t). length cs)")
     (auto dest!: path_separator_length path_element_nonempty dropWhile_shorter)

declare path_loop.simps [simp del]

text \<open>Printing; \<open>prev\<close> is the type of the element before.\<close>

definition print_tag :: "nat \<Rightarrow> tag_table \<Rightarrow> string" where
  "print_tag tag t = (case tt_getstr tag t of None \<Rightarrow> ''*'' | Some s \<Rightarrow> s)"

fun path_print_loop :: "tag_table \<Rightarrow> bool \<Rightarrow> selector_type \<Rightarrow> selector_path \<Rightarrow> string result" where
  "path_print_loop t first prev [] =
    Inr (case prev of Sel_Root \<Rightarrow> [SLASH] | Sel_Current \<Rightarrow> ''.'' | _ \<Rightarrow> [])"
| "path_print_loop t first prev ((ty, tag) # es) =
    rbind (case ty of
        Sel_Current \<Rightarrow> Inr []
      | Sel_Root \<Rightarrow> if first then Inr [] else Inl (RuntimeError ''illegal path'')
      | Sel_Next \<Rightarrow> Inr ((if prev \<noteq> Sel_Current then [SLASH] else []) @ print_tag tag t)
      | Sel_Find \<Rightarrow> Inr ((if prev = Sel_Current then ''.'' else []) @ [SLASH, SLASH] @ print_tag tag t)
      | Sel_Up \<Rightarrow> if prev = Sel_Root then Inl (RuntimeError ''illegal path'')
          else Inr ((if prev = Sel_Current then [] else [SLASH]) @ ''..''))
      (\<lambda>s. rbind (path_print_loop t False ty es) (\<lambda>rest. Inr (s @ rest)))"

definition path_print :: "selector_path \<Rightarrow> tag_table \<Rightarrow> string result" where
  "path_print path t = path_print_loop t True Sel_Next path"

text \<open>The constructor, with its check that the parsed path prints as the selector.\<close>

definition selectorPath :: "string \<Rightarrow> tag_table \<Rightarrow> (selector_path \<times> tag_table) result" where
  "selectorPath selector t =
    (case dropWhile (\<lambda>c. char_code c \<le> 32) selector of
       [] \<Rightarrow> Inr ([], t)
     | c # r \<Rightarrow>
         rbind (path_loop selector (c # r) [(if c = SLASH then Sel_Root else Sel_Current, 0)] t) (\<lambda>(path, t').
         rbind (path_print path t') (\<lambda>redu.
           if \<not> iequals redu selector \<and> \<not> iequals (''./'' @ redu) selector
           then Inl (RuntimeError (''illegal selection path string '' @ [CHR 0x27] @ selector @ [CHR 0x27]
             @ '' (reduced to '' @ [CHR 0x27] @ redu @ [CHR 0x27] @ '')''))
           else Inr (path, t'))))"

definition path_normalize :: "string \<Rightarrow> string result" where
  "path_normalize pathstr =
    rbind (selectorPath pathstr (tt_new False)) (\<lambda>(path, t). path_print path t)"

definition lastElementName :: "selector_path \<Rightarrow> tag_table \<Rightarrow> string option" where
  "lastElementName path t =
    (if path = [] then None
     else if snd (last path) \<noteq> 0 then tt_getstr (snd (last path)) t
     else if fst (last path) = Sel_Current \<and> length path = 1 then Some ''.'' else None)"

section \<open>Sets of selector paths\<close>

record path_set =
  ps_tagtab :: tag_table
  ps_pathar :: "selector_path list"

definition ps_new :: path_set where
  "ps_new = \<lparr>ps_tagtab = tt_new False, ps_pathar = []\<rparr>"

definition ps_getPath :: "nat \<Rightarrow> path_set \<Rightarrow> selector_path result" where
  "ps_getPath idx s =
    (if idx = 0 then Inl (RuntimeError ''accessing null selector path'')
     else if idx > length (ps_pathar s) then Inl (RuntimeError ''selector path index out of bounds'')
     else Inr (ps_pathar s ! (idx - 1)))"

definition ps_add :: "string \<Rightarrow> path_set \<Rightarrow> (nat \<times> path_set) result" where
  "ps_add selector s =
    rbind (selectorPath selector (ps_tagtab s)) (\<lambda>(path, t).
      Inr (length (ps_pathar s) + 1, \<lparr>ps_tagtab = t, ps_pathar = ps_pathar s @ [path]\<rparr>))"

fun join_path :: "tag_table \<Rightarrow> selector_path \<Rightarrow> tag_table \<Rightarrow> (selector_path \<times> tag_table) result" where
  "join_path ot [] t = Inr ([], t)"
| "join_path ot ((ty, tag) # es) t =
    (if tag = 0 then rbind (join_path ot es t) (\<lambda>(p, t'). Inr ((ty, 0) # p, t'))
     else (case tt_getstr tag ot of
         None \<Rightarrow> Inl (LogicError ''patch argument tag name not found'')
       | Some nam \<Rightarrow> (case tt_get nam t of (j, t1) \<Rightarrow>
           rbind (join_path ot es t1) (\<lambda>(p, t'). Inr ((ty, j) # p, t')))))"

fun join_pathes :: "tag_table \<Rightarrow> selector_path list \<Rightarrow> path_set \<Rightarrow> path_set result" where
  "join_pathes ot [] s = Inr s"
| "join_pathes ot (p # ps) s =
    rbind (join_path ot p (ps_tagtab s)) (\<lambda>(q, t).
      join_pathes ot ps \<lparr>ps_tagtab = t, ps_pathar = ps_pathar s @ [q]\<rparr>)"

definition ps_join :: "path_set \<Rightarrow> path_set \<Rightarrow> (patch_map \<times> path_set) result" where
  "ps_join oth s =
    rbind (join_pathes (ps_tagtab oth) (ps_pathar oth) s) (\<lambda>s'. Inr (Patch_Offset (length (ps_pathar s)), s'))"

section \<open>Upper and lower case\<close>

lemma to_upper_lower [simp]: "to_upper (to_lower c) = to_upper c" "to_lower (to_upper c) = to_lower c"
  "to_upper (to_upper c) = to_upper c"
  by (auto simp: to_upper_def to_lower_def)

lemma to_lower_eq_iff: "to_lower a = to_lower b \<longleftrightarrow> to_upper a = to_upper b"
  by (metis to_upper_lower(1,2))

lemma map_to_lower_eq_iff: "map to_lower a = map to_lower b \<longleftrightarrow> map to_upper a = map to_upper b"
  by (auto simp: list_eq_iff_nth_eq to_lower_eq_iff)

lemma iequals_simps [simp]: "iequals a a" "iequals a b \<longleftrightarrow> keystring a = keystring b"
  by (simp_all add: iequals_def keystring_def)

lemma keystring_idem [simp]: "keystring (keystring s) = keystring s"
  by (simp add: keystring_def)

lemma map_of_insort_key:
  "k \<notin> fst ` set m \<Longrightarrow> map_of (insort_key fst (k, v) m) = (map_of m)(k \<mapsto> v)"
  by (induction m) (auto simp: fun_eq_iff)

section \<open>Symbol tables\<close>

text \<open>Indices are handed out for names; names that differ in case only have the same index. An
  index stays valid while names are added.\<close>

fun get_all :: "('n \<Rightarrow> 't \<Rightarrow> (nat \<times> 't) result) \<Rightarrow> 'n list \<Rightarrow> 't \<Rightarrow> (nat list \<times> 't) result" where
  "get_all get [] t = Inr ([], t)"
| "get_all get (n # ns) t =
    rbind (get n t) (\<lambda>(i, t1). rbind (get_all get ns t1) (\<lambda>(is, t2). Inr (i # is, t2)))"

locale symbol_table =
  fixes wf :: "'t \<Rightarrow> bool" and valid :: "string \<Rightarrow> bool"
    and get :: "string \<Rightarrow> 't \<Rightarrow> (nat \<times> 't) result" and name :: "nat \<Rightarrow> 't \<Rightarrow> string option"
  assumes get_total: "wf t \<Longrightarrow> valid n \<Longrightarrow>
      \<exists>i t'. get n t = Inr (i, t') \<and> wf t' \<and> (\<exists>n'. name i t' = Some n' \<and> keystring n' = keystring n)"
    and get_keeps: "wf t \<Longrightarrow> valid n \<Longrightarrow> get n t = Inr (i, t') \<Longrightarrow> name j t = Some m \<Longrightarrow> name j t' = Some m"
    and name_valid: "wf t \<Longrightarrow> name j t = Some m \<Longrightarrow> valid m"
begin

text \<open>Names are looked up in a row, as when the symbols of another table are added.\<close>

lemma get_all_resolves:
  assumes "wf t" and "\<And>n. n \<in> set ns \<Longrightarrow> valid n"
  shows "\<exists>is t'. get_all get ns t = Inr (is, t') \<and> wf t'
    \<and> list_all2 (\<lambda>n i. \<exists>n'. name i t' = Some n' \<and> keystring n' = keystring n) ns is
    \<and> (\<forall>j m. name j t = Some m \<longrightarrow> name j t' = Some m)"
  using assms
proof (induction ns arbitrary: t)
  case (Cons n ns)
  obtain i t1 n1 where 1: "get n t = Inr (i, t1)" "wf t1" "name i t1 = Some n1" "keystring n1 = keystring n"
    using get_total [of t n] Cons.prems by auto
  obtain js t2 where 2: "get_all get ns t1 = Inr (js, t2)" "wf t2"
    "list_all2 (\<lambda>n i. \<exists>n'. name i t2 = Some n' \<and> keystring n' = keystring n) ns js"
    "\<And>j m. name j t1 = Some m \<Longrightarrow> name j t2 = Some m"
    using Cons.IH [OF 1(2)] Cons.prems(2) by auto
  have "\<And>j m. name j t = Some m \<Longrightarrow> name j t1 = Some m"
    using get_keeps [OF Cons.prems(1) _ 1(1)] Cons.prems(2) by simp
  with 1 2 show ?case by auto
qed simp

end

section \<open>Name tables are symbol tables\<close>

definition nt_wf :: "name_table \<Rightarrow> bool" where
  "nt_wf t =
    (length (nt_namemap t) = length (nt_namear t) \<and>
     (\<forall>(k, i) \<in> set (nt_namemap t).
        0 < i \<and> i \<le> length (nt_namear t) \<and> keystring (nt_namear t ! (i - 1)) = k) \<and>
     (\<forall>i < length (nt_namear t). map_of (nt_namemap t) (keystring (nt_namear t ! i)) = Some (Suc i)))"

definition nt_name :: "nat \<Rightarrow> name_table \<Rightarrow> string option" where
  "nt_name i t = (case nt_getName i t of Inr n \<Rightarrow> Some n | Inl _ \<Rightarrow> None)"

lemma nt_name_Some: "nt_name i t = Some n \<longleftrightarrow> 0 < i \<and> i \<le> length (nt_namear t) \<and> nt_namear t ! (i - 1) = n"
  by (auto simp: nt_name_def nt_getName_def)

lemma nt_wf_new [simp]: "nt_wf nt_new"
  by (simp add: nt_wf_def nt_new_def)

lemma nt_define_fresh:
  assumes "map_of (nt_namemap t) (keystring n) = None"
  shows "nt_define n t = Inr (Suc (length (nt_namear t)),
    \<lparr>nt_namemap = insort_key fst (keystring n, Suc (length (nt_namear t))) (nt_namemap t), nt_namear = nt_namear t @ [n]\<rparr>)"
  using assms by (simp add: nt_define_def keymap_insert_def keymap_find_def)

lemma nt_define_wf:
  assumes "nt_wf t" and "map_of (nt_namemap t) (keystring n) = None"
  shows "nt_wf \<lparr>nt_namemap = insort_key fst (keystring n, Suc (length (nt_namear t))) (nt_namemap t),
    nt_namear = nt_namear t @ [n]\<rparr>"
proof -
  have m: "map_of (insort_key fst (keystring n, Suc (length (nt_namear t))) (nt_namemap t)) =
      (map_of (nt_namemap t))(keystring n \<mapsto> Suc (length (nt_namear t)))"
    using assms(2) by (intro map_of_insort_key) (simp add: map_of_eq_None_iff)
  have "keystring (nt_namear t ! i) \<noteq> keystring n" if "i < length (nt_namear t)" for i
    using assms that by (auto simp: nt_wf_def)
  moreover have "length (nt_namemap t) = length (nt_namear t)" using assms(1) by (simp add: nt_wf_def)
  moreover have "0 < i \<and> i - 1 < length (nt_namear t) \<and> i \<le> length (nt_namear t)
      \<and> keystring (nt_namear t ! (i - 1)) = k"
    if "(k, i) \<in> set (nt_namemap t)" for k i
    using assms(1) that by (auto simp: nt_wf_def)
  moreover have "map_of (nt_namemap t) (keystring (nt_namear t ! i)) = Some (Suc i)"
    if "i < length (nt_namear t)" for i
    using assms(1) that by (auto simp: nt_wf_def)
  ultimately show ?thesis
    by (auto simp: nt_wf_def m nth_append less_Suc_eq set_insort_key) (meson le_SucI)+
qed

lemma nt_wf_find: "nt_wf t \<Longrightarrow> map_of (nt_namemap t) k = Some i \<Longrightarrow>
    0 < i \<and> i \<le> length (nt_namear t) \<and> keystring (nt_namear t ! (i - 1)) = k"
  by (auto simp: nt_wf_def dest!: map_of_SomeD)

interpretation names: symbol_table nt_wf "\<lambda>_. True" nt_get nt_name
proof unfold_locales
  fix t n
  assume wf: "nt_wf t"
  show "\<exists>i t'. nt_get n t = Inr (i, t') \<and> nt_wf t' \<and> (\<exists>n'. nt_name i t' = Some n' \<and> keystring n' = keystring n)"
  proof (cases "map_of (nt_namemap t) (keystring n)")
    case None
    then show ?thesis
      using nt_define_wf [OF wf None] by (simp add: nt_get_def keymap_find_def nt_define_fresh nt_name_Some)
  next
    case (Some i)
    then show ?thesis using wf nt_wf_find [OF wf Some] by (simp add: nt_get_def keymap_find_def nt_name_Some)
  qed
next
  fix t n i t' j m
  assume "nt_wf t" and "nt_get n t = Inr (i, t')" and "nt_name j t = Some m"
  then show "nt_name j t' = Some m"
    by (auto simp: nt_get_def keymap_find_def nt_define_fresh nt_name_Some nth_append split: option.splits)
qed simp

lemma nt_join_loop_eq:
  assumes "\<And>k i. (k, i) \<in> set es \<Longrightarrow> 0 < i \<and> i \<le> length ar"
  shows "nt_join_loop es ar t m =
    rbind (get_all nt_get (map (\<lambda>e. ar ! (snd e - 1)) es) t) (\<lambda>(js, t'). Inr (Patch_Table (m(map snd es [\<mapsto>] js)), t'))"
  using assms
proof (induction es ar t m rule: nt_join_loop.induct)
  case (2 k i es ar t m)
  then show ?case
    by (cases "nt_get (ar ! (i - 1)) t") (force simp: rbind_def split: sum.splits prod.splits)+
qed simp

lemma map_upds_lookup:
  "length xs = length ys \<Longrightarrow> x \<in> set xs \<Longrightarrow> \<exists>p < length xs. xs ! p = x \<and> (m(xs [\<mapsto>] ys)) x = Some (ys ! p)"
proof (induction xs ys arbitrary: m rule: list_induct2)
  case (Cons y ys z zs)
  show ?case
  proof (cases "x \<in> set ys")
    case True
    from Cons.IH [OF this, of "m(y \<mapsto> z)"] obtain p where
      "p < length ys" "ys ! p = x" "(m(y \<mapsto> z, ys [\<mapsto>] zs)) x = Some (zs ! p)" by blast
    then show ?thesis by (intro exI [of _ "Suc p"]) simp
  next
    case False
    with Cons.prems show ?thesis by (intro exI [of _ 0]) (simp add: map_upds_apply_nontin)
  qed
qed simp

lemma get_all_nt_length:
  "get_all nt_get ns t = Inr (is, t') \<Longrightarrow> length (nt_namear t') \<le> length (nt_namear t) + length ns"
proof (induction ns arbitrary: t "is")
  case (Cons n ns)
  then obtain i t1 js where 1: "nt_get n t = Inr (i, t1)" "get_all nt_get ns t1 = Inr (js, t')"
    by (auto simp: rbind_eq_Inr_iff)
  then have "length (nt_namear t1) \<le> Suc (length (nt_namear t))"
    by (auto simp: nt_get_def nt_define_def rbind_eq_Inr_iff split: option.splits)
  with Cons.IH [OF 1(2)] show ?case by simp
qed simp

text \<open>Joining a name table: every index of the other table is translated to an index of the same
  name, and the indices of this table stay valid.\<close>

lemma nt_join_resolves:
  assumes "nt_wf oth" and "nt_wf t"
  shows "\<exists>pm t'. nt_join oth t = Inr (pm, t') \<and> nt_wf t'
    \<and> (\<forall>j m. nt_name j t = Some m \<longrightarrow> nt_name j t' = Some m)
    \<and> (\<forall>i n. nt_name i oth = Some n \<longrightarrow>
         (\<exists>j n'. patch_index pm i = Inr j \<and> nt_name j t' = Some n' \<and> keystring n' = keystring n))
    \<and> length (nt_namear t') \<le> length (nt_namear oth) + length (nt_namear t)"
proof -
  let ?es = "nt_namemap oth" and ?ar = "nt_namear oth"
  let ?ns = "map (\<lambda>e. ?ar ! (snd e - 1)) ?es"
  obtain js t' where js: "get_all nt_get ?ns t = Inr (js, t')" "nt_wf t'"
    "list_all2 (\<lambda>n i. \<exists>n'. nt_name i t' = Some n' \<and> keystring n' = keystring n) ?ns js"
    "\<And>j m. nt_name j t = Some m \<Longrightarrow> nt_name j t' = Some m"
    using names.get_all_resolves [OF assms(2), of ?ns] by auto
  let ?m = "Map.empty(map snd ?es [\<mapsto>] js)"
  have range: "\<And>k i. (k, i) \<in> set ?es \<Longrightarrow> 0 < i \<and> i \<le> length ?ar"
    using assms(1) by (auto simp: nt_wf_def)
  have join: "nt_join oth t = Inr (Patch_Table ?m, t')"
    using js(1) by (simp add: nt_join_def nt_join_loop_eq [OF range])
  have "\<exists>j n'. patch_index (Patch_Table ?m) i = Inr j \<and> nt_name j t' = Some n' \<and> keystring n' = keystring n"
    if "nt_name i oth = Some n" for i n
  proof -
    have i: "0 < i" "i \<le> length ?ar" "?ar ! (i - 1) = n" using that by (auto simp: nt_name_Some)
    then have "map_of ?es (keystring (?ar ! (i - 1))) = Some i"
      using assms(1) by (auto simp: nt_wf_def dest: spec [of _ "i - 1"])
    then have "i \<in> set (map snd ?es)" by (force dest: map_of_SomeD)
    moreover have len: "length js = length ?es" using js(3) by (simp add: list_all2_lengthD [symmetric])
    ultimately obtain p where p: "p < length ?es" "snd (?es ! p) = i" "?m i = Some (js ! p)"
      using map_upds_lookup [of "map snd ?es" js i Map.empty] by auto
    with list_all2_nthD [OF js(3), of p] len i show ?thesis by (auto simp: patch_index_def)
  qed
  moreover have "length (nt_namear t') \<le> length (nt_namear oth) + length (nt_namear t)"
    using get_all_nt_length [OF js(1)] assms(1) by (simp add: nt_wf_def)
  ultimately show ?thesis using join js(2,4) by blast
qed

section \<open>Tag tables are symbol tables\<close>

definition tt_wf :: "tag_table \<Rightarrow> bool" where
  "tt_wf t =
    (\<not> tt_case_sensitive t \<and> tt_strings t \<noteq> [] \<and> last (tt_strings t) = NUL \<and>
     (\<forall>(k, i) \<in> set (tt_map t). 0 < i \<and> i < length (tt_strings t) \<and>
        map to_lower (takeWhile (\<lambda>c. c \<noteq> NUL) (drop i (tt_strings t))) = k))"

text \<open>The names of the indices that were handed out.\<close>

definition tt_name :: "nat \<Rightarrow> tag_table \<Rightarrow> string option" where
  "tt_name i t = (if i \<in> snd ` set (tt_map t) then tt_getstr i t else None)"

definition no_nul :: "string \<Rightarrow> bool" where
  "no_nul s = (NUL \<notin> set s)"

lemma tt_wf_new [simp]: "tt_wf (tt_new False)"
  by (simp add: tt_wf_def tt_new_def)

lemma takeWhile_stable:
  assumes "i < length s" and "last s = NUL" and "s \<noteq> []"
  shows "takeWhile (\<lambda>c. c \<noteq> NUL) (drop i (s @ r)) = takeWhile (\<lambda>c. c \<noteq> NUL) (drop i s)"
proof -
  have "NUL \<in> set (drop i s)" using assms by (metis last_drop last_in_set drop_eq_Nil not_le)
  then show ?thesis using assms(1) by (simp add: takeWhile_append1)
qed

lemma takeWhile_new: "no_nul n \<Longrightarrow> takeWhile (\<lambda>c. c \<noteq> NUL) (n @ [NUL]) = n"
  by (induction n) (auto simp: no_nul_def)

lemma tt_get_wf:
  assumes "tt_wf t" and "no_nul n" and "map_of (tt_map t) (map to_lower n) = None"
  shows "tt_wf (t\<lparr>tt_map := insort_key fst (map to_lower n, length (tt_strings t)) (tt_map t),
    tt_strings := tt_strings t @ n @ [NUL]\<rparr>)"
proof -
  have s: "tt_strings t \<noteq> []" "last (tt_strings t) = NUL" using assms(1) by (simp_all add: tt_wf_def)
  have old: "0 < i \<and> i < length (tt_strings t) \<and>
      map to_lower (takeWhile (\<lambda>c. c \<noteq> NUL) (drop i (tt_strings t @ n @ [NUL]))) = k"
    if "(k, i) \<in> set (tt_map t)" for k i
    using assms(1) that takeWhile_stable [OF _ s(2,1), of i "n @ [NUL]"] by (auto simp: tt_wf_def)
  show ?thesis
    using assms(1) s old takeWhile_new [OF assms(2)]
    by (auto simp: tt_wf_def set_insort_key simp del: drop_append) (fastforce simp: trans_less_add1)+
qed

interpretation tags: symbol_table tt_wf no_nul "\<lambda>n t. Inr (tt_get n t)" tt_name
proof unfold_locales
  fix t n
  assume wf: "tt_wf t" and ok: "no_nul n"
  have key: "tag_key t n = map to_lower n" using wf by (simp add: tag_key_def tt_wf_def)
  show "\<exists>i t'. Inr (tt_get n t) = (Inr (i, t') :: (nat \<times> tag_table) result) \<and> tt_wf t'
      \<and> (\<exists>n'. tt_name i t' = Some n' \<and> keystring n' = keystring n)"
  proof (cases "map_of (tt_map t) (map to_lower n)")
    case None
    then show ?thesis
      using tt_get_wf [OF wf ok None] takeWhile_new [OF ok] wf key
      by (auto simp: tt_get_def tt_name_def tt_getstr_def set_insort_key tt_wf_def)
  next
    case (Some i)
    from map_of_SomeD [OF Some] wf have "0 < i"
      "map to_lower (takeWhile (\<lambda>c. c \<noteq> NUL) (drop i (tt_strings t))) = map to_lower n"
      by (auto simp: tt_wf_def)
    with Some map_of_SomeD [OF Some] wf key show ?thesis
      by (force simp: tt_get_def tt_name_def tt_getstr_def keystring_def map_to_lower_eq_iff)
  qed
next
  fix t n i t' j m
  assume wf: "tt_wf t" and ok: "no_nul n" and g: "Inr (tt_get n t) = (Inr (i, t') :: (nat \<times> tag_table) result)"
    and nm: "tt_name j t = Some m"
  have "j < length (tt_strings t)" using wf nm by (auto simp: tt_name_def tt_wf_def split: if_splits)
  with wf have "takeWhile (\<lambda>c. c \<noteq> NUL) (drop j (tt_strings t @ n @ [NUL])) =
      takeWhile (\<lambda>c. c \<noteq> NUL) (drop j (tt_strings t))"
    by (intro takeWhile_stable) (simp_all add: tt_wf_def)
  with g nm show "tt_name j t' = Some m"
    by (auto simp: tt_get_def tt_name_def tt_getstr_def set_insort_key simp del: drop_append split: option.splits if_splits)
next
  fix t j m
  assume "tt_wf t" and "tt_name j t = Some m"
  then show "no_nul m" by (auto simp: tt_name_def tt_getstr_def no_nul_def dest: set_takeWhileD split: if_splits)
qed

section \<open>Joining sets of paths\<close>

text \<open>What a path selects: its steps with the names of their tags, up to case.\<close>

definition path_names :: "selector_path \<Rightarrow> tag_table \<Rightarrow> (selector_type \<times> string option) list" where
  "path_names p t = map (\<lambda>(ty, tag). (ty, if tag = 0 then None else map_option keystring (tt_name tag t))) p"

definition path_wf :: "tag_table \<Rightarrow> selector_path \<Rightarrow> bool" where
  "path_wf t p = (\<forall>(ty, tag) \<in> set p. tag \<noteq> 0 \<longrightarrow> tt_name tag t \<noteq> None)"

definition ps_wf :: "path_set \<Rightarrow> bool" where
  "ps_wf s = (tt_wf (ps_tagtab s) \<and> (\<forall>p \<in> set (ps_pathar s). path_wf (ps_tagtab s) p))"

definition tags_kept :: "tag_table \<Rightarrow> tag_table \<Rightarrow> bool" where
  "tags_kept t t' = (\<forall>j m. tt_name j t = Some m \<longrightarrow> tt_name j t' = Some m)"

lemma path_names_kept: "tags_kept t t' \<Longrightarrow> path_wf t p \<Longrightarrow> path_names p t' = path_names p t \<and> path_wf t' p"
  by (fastforce simp: tags_kept_def path_names_def path_wf_def)

lemma join_path_names:
  assumes "path_wf ot p" and "tt_wf ot" and "tt_wf t"
  shows "\<exists>q t'. join_path ot p t = Inr (q, t') \<and> tt_wf t' \<and> tags_kept t t' \<and> path_wf t' q
    \<and> path_names q t' = path_names p ot"
  using assms
proof (induction ot p t rule: join_path.induct)
  case (1 ot t)
  then show ?case by (simp add: tags_kept_def path_wf_def path_names_def)
next
  case (2 ot ty tag es t)
  show ?case
  proof (cases "tag = 0")
    case True
    with 2 show ?thesis by (fastforce simp: path_wf_def path_names_def)
  next
    case False
    then obtain nam where nam: "tt_name tag ot = Some nam" using 2(3) by (auto simp: path_wf_def)
    then have str: "tt_getstr tag ot = Some nam" by (auto simp: tt_name_def split: if_splits)
    obtain j t1 n' where g: "tt_get nam t = (j, t1)" "tt_wf t1" "tt_name j t1 = Some n'" "keystring n' = keystring nam"
      using tags.get_total [OF 2(5) tags.name_valid [OF 2(4) nam]] by auto
    have k1: "tags_kept t t1"
      using tags.get_keeps [OF 2(5) tags.name_valid [OF 2(4) nam], of j t1] g(1) by (auto simp: tags_kept_def)
    obtain q t' where q: "join_path ot es t1 = Inr (q, t')" "tt_wf t'" "tags_kept t1 t'" "path_wf t' q"
      "path_names q t' = path_names es ot"
      using 2(2) [OF False str g(1) [symmetric]] 2(3,4) g(2) by (auto simp: path_wf_def)
    have j: "tt_name j t' = Some n'" "j \<noteq> 0"
      using q(3) g(3) by (auto simp: tags_kept_def tt_name_def tt_getstr_def split: if_splits)
    show ?thesis
      using False str g q j nam k1
      by (auto simp: path_wf_def path_names_def tags_kept_def)
  qed
qed

lemma join_pathes_names:
  assumes "\<forall>p \<in> set ps. path_wf ot p" and "tt_wf ot" and "ps_wf s"
  shows "\<exists>s'. join_pathes ot ps s = Inr s' \<and> ps_wf s' \<and> tags_kept (ps_tagtab s) (ps_tagtab s')
    \<and> (\<exists>qs. ps_pathar s' = ps_pathar s @ qs \<and> list_all2 (\<lambda>p q. path_names q (ps_tagtab s') = path_names p ot) ps qs)"
  using assms
proof (induction ot ps s rule: join_pathes.induct)
  case (2 ot p ps s)
  obtain q t where q: "join_path ot p (ps_tagtab s) = Inr (q, t)" "tt_wf t" "tags_kept (ps_tagtab s) t"
    "path_wf t q" "path_names q t = path_names p ot"
    using join_path_names [of ot p "ps_tagtab s"] 2(2-4) by (auto simp: ps_wf_def)
  let ?s = "\<lparr>ps_tagtab = t, ps_pathar = ps_pathar s @ [q]\<rparr>"
  have "ps_wf ?s" using 2(4) q path_names_kept [OF q(3)] by (auto simp: ps_wf_def)
  then obtain s' qs where s': "join_pathes ot ps ?s = Inr s'" "ps_wf s'" "tags_kept t (ps_tagtab s')"
    "ps_pathar s' = ps_pathar s @ q # qs"
    "list_all2 (\<lambda>p q. path_names q (ps_tagtab s') = path_names p ot) ps qs"
    using 2(1) [of t q] q(1) 2(2,3) by auto
  have "path_names q (ps_tagtab s') = path_names p ot"
    using path_names_kept [OF s'(3) q(4)] q(5) by simp
  with s' q show ?case by (fastforce simp: tags_kept_def)
qed (simp add: tags_kept_def)

end
