(* ===== verification/Program_Linker.thy ===== *)
theory Program_Linker
  imports Program_Tables VM_Run
begin

text \<open>
  Programs under construction and the joining of programs, \<^verbatim>\<open>vm/program.hpp\<close> and
  \<^verbatim>\<open>vm/program.cpp\<close> of \<^verbatim>\<open>src/modules/cmdbind/tdl\<close>. \<^verbatim>\<open>Program::add\<close> is a linker: it appends the code
  of another program, joins all tables and rewrites the argument of every added instruction.
  The lemmas show that it does not fail on programs whose tables fit the 20 bits of an argument
  index, and that every instruction then refers to the same thing as before.
\<close>

section \<open>Programs\<close>

type_synonym source_pos = "string \<times> nat \<times> nat"

record vm_program =
  p_code :: program_code
  p_pathset :: path_set
  p_constants :: "variant list"
  p_colnametab :: name_table
  p_tagnametab :: name_table
  p_resultnametab :: name_table
  p_statements :: "string list"
  p_hinttab :: hint_table
  p_signatures :: "string list list"
  p_tuplesets :: "vts_ref list"
  p_tdlpositions :: "(nat \<times> source_pos) list"

definition vm_program_new :: vm_program where
  "vm_program_new =
    \<lparr>p_code = [], p_pathset = ps_new, p_constants = [], p_colnametab = nt_new, p_tagnametab = nt_new,
     p_resultnametab = nt_new, p_statements = [], p_hinttab = [], p_signatures = [], p_tuplesets = [],
     p_tdlpositions = []\<rparr>"

section \<open>Joining programs\<close>

definition joinVectors :: "'a list \<Rightarrow> 'a list \<Rightarrow> patch_map \<times> 'a list" where
  "joinVectors dst ar = (Patch_Offset (length dst), dst @ ar)"

definition patch_instruction :: "argument_type \<Rightarrow> patch_map \<Rightarrow> 32 word \<Rightarrow> 32 word result" where
  "patch_instruction argtype pm w =
    rbind (argumentType (opCode w)) (\<lambda>at.
      if argtype = at
      then rbind (patch_index pm (argumentIndex w)) (\<lambda>j. instruction (condCode w) (opCode w) (of_nat j))
      else Inr w)"

fun patch_instructions :: "argument_type \<Rightarrow> patch_map \<Rightarrow> program_code \<Rightarrow> program_code result" where
  "patch_instructions argtype pm [] = Inr []"
| "patch_instructions argtype pm (w # ws) =
    rbind (patch_instruction argtype pm w) (\<lambda>w'.
    rbind (patch_instructions argtype pm ws) (\<lambda>ws'. Inr (w' # ws')))"

definition patchCode :: "argument_type \<Rightarrow> nat \<Rightarrow> patch_map \<Rightarrow> program_code \<Rightarrow> program_code result" where
  "patchCode argtype startidx pm c =
    (if startidx > length c then Inl (LogicError ''array bound access'')
     else rbind (patch_instructions argtype pm (drop startidx c)) (\<lambda>ws. Inr (take startidx c @ ws)))"

definition program_add :: "vm_program \<Rightarrow> bool \<Rightarrow> vm_program \<Rightarrow> vm_program result" where
  "program_add oth doPatchGOTOs p =
    (let startidx = length (p_code p); c = program_code_append (p_code p) (p_code oth) in
     rbind (if doPatchGOTOs then patchCode At_Address startidx (Patch_Offset startidx) c else Inr c) (\<lambda>c.
     case joinVectors (p_constants p) (p_constants oth) of (pm, cs) \<Rightarrow>
     rbind (patchCode At_Constant startidx pm c) (\<lambda>c.
     rbind (nt_join (p_tagnametab oth) (p_tagnametab p)) (\<lambda>(pm, tagnametab).
     rbind (patchCode At_TagName startidx pm c) (\<lambda>c.
     rbind (nt_join (p_resultnametab oth) (p_resultnametab p)) (\<lambda>(pm, resultnametab).
     rbind (patchCode At_ResultName startidx pm c) (\<lambda>c.
     rbind (nt_join (p_colnametab oth) (p_colnametab p)) (\<lambda>(pm, colnametab).
     rbind (patchCode At_ColumnName startidx pm c) (\<lambda>c.
     case joinVectors (p_statements p) (p_statements oth) of (pm, sts) \<Rightarrow>
     rbind (patchCode At_Statement startidx pm c) (\<lambda>c.
     case hint_join (p_hinttab oth) (p_hinttab p) of (pm, hinttab) \<Rightarrow>
     rbind (patchCode At_Hint startidx pm c) (\<lambda>c.
     case joinVectors (p_signatures p) (p_signatures oth) of (pm, sgs) \<Rightarrow>
     rbind (patchCode At_SubroutineSignature startidx pm c) (\<lambda>c.
     case joinVectors (p_tuplesets p) (p_tuplesets oth) of (pm, tss) \<Rightarrow>
     rbind (patchCode At_TupleSet startidx pm c) (\<lambda>c.
     rbind (ps_join (p_pathset oth) (p_pathset p)) (\<lambda>(pm, pathset).
     rbind (patchCode At_Path startidx pm c) (\<lambda>c.
       Inr \<lparr>p_code = c, p_pathset = pathset, p_constants = cs, p_colnametab = colnametab,
            p_tagnametab = tagnametab, p_resultnametab = resultnametab, p_statements = sts,
            p_hinttab = hinttab, p_signatures = sgs, p_tuplesets = tss,
            p_tdlpositions = p_tdlpositions p @ map (\<lambda>(ip, pos). (ip + startidx, pos)) (p_tdlpositions oth)\<rparr>)))))))))))))))"

definition setCurrentSourceReference :: "source_pos \<Rightarrow> vm_program \<Rightarrow> vm_program" where
  "setCurrentSourceReference pos p = p\<lparr>p_tdlpositions := p_tdlpositions p @ [(length (p_code p), pos)]\<rparr>"

fun sourceReference_loop :: "nat \<Rightarrow> source_pos option \<Rightarrow> (nat \<times> source_pos) list \<Rightarrow> source_pos option" where
  "sourceReference_loop ip prev [] = prev"
| "sourceReference_loop ip prev ((i, pos) # ds) =
    (if ip \<ge> i then sourceReference_loop ip (Some pos) ds else prev)"

definition getSourceReference :: "nat \<Rightarrow> vm_program \<Rightarrow> source_pos option" where
  "getSourceReference ip p = sourceReference_loop ip None (p_tdlpositions p)"

definition program_to_image :: "vm_program \<Rightarrow> program_image" where
  "program_to_image p =
    \<lparr>code = p_code p, constants = p_constants p, colnames = nt_namear (p_colnametab p),
     tagnames = nt_namear (p_tagnametab p), resultnames = nt_namear (p_resultnametab p),
     statements = p_statements p, errorhints = p_hinttab p, signatures = p_signatures p,
     tuplesets = p_tuplesets p\<rparr>"

section \<open>What an instruction refers to\<close>

datatype reference =
    R_Index nat | R_Address nat | R_Path "(selector_type \<times> string option) list" | R_Constant variant
  | R_Column string | R_Tag string | R_Result string | R_Statement string | R_Hint "error_hint list"
  | R_Signature "string list" | R_TupleSet vts_ref

definition nth_opt :: "'a list \<Rightarrow> nat \<Rightarrow> 'a option" where
  "nth_opt xs i = (if i < length xs then Some (xs ! i) else None)"

text \<open>Names are compared without their case. Hints, names and paths are numbered from 1.\<close>

definition argument_reference :: "vm_program \<Rightarrow> argument_type \<Rightarrow> nat \<Rightarrow> reference option" where
  "argument_reference p at ai =
    (case at of
       At_Address \<Rightarrow> Some (R_Address ai)
     | At_Path \<Rightarrow> if ai = 0 then None else
         map_option (\<lambda>x. R_Path (path_names x (ps_tagtab (p_pathset p)))) (nth_opt (ps_pathar (p_pathset p)) (ai - 1))
     | At_Constant \<Rightarrow> map_option R_Constant (nth_opt (p_constants p) ai)
     | At_ColumnName \<Rightarrow> map_option (\<lambda>n. R_Column (keystring n)) (nt_name ai (p_colnametab p))
     | At_TagName \<Rightarrow> map_option (\<lambda>n. R_Tag (keystring n)) (nt_name ai (p_tagnametab p))
     | At_ResultName \<Rightarrow> map_option (\<lambda>n. R_Result (keystring n)) (nt_name ai (p_resultnametab p))
     | At_Statement \<Rightarrow> map_option R_Statement (nth_opt (p_statements p) ai)
     | At_Hint \<Rightarrow> if ai = 0 then None else map_option R_Hint (nth_opt (p_hinttab p) (ai - 1))
     | At_SubroutineSignature \<Rightarrow> map_option R_Signature (nth_opt (p_signatures p) ai)
     | At_TupleSet \<Rightarrow> map_option R_TupleSet (nth_opt (p_tuplesets p) ai)
     | _ \<Rightarrow> Some (R_Index ai))"

definition instruction_reference :: "vm_program \<Rightarrow> 32 word \<Rightarrow> reference option" where
  "instruction_reference p w =
    (case argumentType (opCode w) of Inl _ \<Rightarrow> None | Inr at \<Rightarrow> argument_reference p at (argumentIndex w))"

definition refs_ok :: "vm_program \<Rightarrow> bool" where
  "refs_ok p =
    ((\<forall>w \<in> set (p_code p). opCode w \<in> set opcodes \<and> instruction_reference p w \<noteq> None) \<and>
     nt_wf (p_colnametab p) \<and> nt_wf (p_tagnametab p) \<and> nt_wf (p_resultnametab p) \<and> ps_wf (p_pathset p))"

text \<open>Jump targets are addresses of the program or its end.\<close>

definition jumps_inside :: "vm_program \<Rightarrow> bool" where
  "jumps_inside p =
    (\<forall>w \<in> set (p_code p). argumentType (opCode w) = Inr At_Address \<longrightarrow> argumentIndex w \<le> length (p_code p))"

definition program_wf :: "vm_program \<Rightarrow> bool" where
  "program_wf p = (refs_ok p \<and> jumps_inside p)"

section \<open>Patching\<close>

lemma argumentType_named: "opc \<in> set opcodes \<Longrightarrow> \<exists>at. argumentType opc = Inr at"
  using opcode_value_named [of opc]
  by (simp add: argumentType_def array_read_def at_or_def argumentType_table_def)

definition arg_type :: "32 word \<Rightarrow> argument_type" where
  "arg_type w = (case argumentType (opCode w) of Inr at \<Rightarrow> at | Inl _ \<Rightarrow> At_None)"

text \<open>\<open>w'\<close> is \<open>w\<close> with its argument translated by the map for its type, if there is one.\<close>

definition patched :: "(argument_type \<times> patch_map) list \<Rightarrow> 32 word \<Rightarrow> 32 word \<Rightarrow> bool" where
  "patched ps w w' =
    (opCode w' = opCode w \<and> condCode w' = condCode w \<and>
     (case map_of ps (arg_type w) of
        None \<Rightarrow> w' = w
      | Some pm \<Rightarrow> patch_index pm (argumentIndex w) = Inr (argumentIndex w')))"

definition patchable :: "(argument_type \<times> patch_map) list \<Rightarrow> 32 word \<Rightarrow> bool" where
  "patchable ps w =
    (opCode w \<in> set opcodes \<and>
     (\<forall>pm. map_of ps (arg_type w) = Some pm \<longrightarrow>
        (\<exists>j. patch_index pm (argumentIndex w) = Inr j \<and> j \<le> Max_ArgumentIndex)))"

lemma arg_type_eq: "opCode w \<in> set opcodes \<Longrightarrow> argumentType (opCode w) = Inr at \<longleftrightarrow> arg_type w = at"
  using argumentType_named [of "opCode w"] by (auto simp: arg_type_def)

lemma patch_instruction_ok:
  assumes "patchable [(at, pm)] w"
  shows "\<exists>w'. patch_instruction at pm w = Inr w' \<and> patched [(at, pm)] w w'"
proof (cases "arg_type w = at")
  case True
  then obtain j where j: "patch_index pm (argumentIndex w) = Inr j" "j \<le> Max_ArgumentIndex"
    using assms by (auto simp: patchable_def)
  have named: "opCode w \<in> set opcodes" using assms by (simp add: patchable_def)
  obtain w' where "instruction (condCode w) (opCode w) (of_nat j) = Inr w'"
    "decode w' = (condCode w, opCode w, j)"
    by (rule emit_instruction [OF named j(2)])
  then show ?thesis
    using True j named arg_type_eq [OF named, of at]
    by (simp add: patch_instruction_def patched_def decode_def)
next
  case False
  obtain at' where "argumentType (opCode w) = Inr at'"
    using assms argumentType_named by (auto simp: patchable_def)
  with False show ?thesis by (auto simp: patch_instruction_def patched_def arg_type_def)
qed

lemma patch_instructions_ok:
  "\<forall>w \<in> set ws. patchable [(at, pm)] w \<Longrightarrow>
    \<exists>ws'. patch_instructions at pm ws = Inr ws' \<and> list_all2 (patched [(at, pm)]) ws ws'"
  by (induction ws) (fastforce dest: patch_instruction_ok)+

fun patch_all :: "nat \<Rightarrow> (argument_type \<times> patch_map) list \<Rightarrow> program_code \<Rightarrow> program_code result" where
  "patch_all start [] c = Inr c"
| "patch_all start ((at, pm) # ps) c = rbind (patchCode at start pm c) (patch_all start ps)"

lemma arg_type_patched: "patched ps w w' \<Longrightarrow> arg_type w' = arg_type w"
  by (simp add: patched_def arg_type_def)

lemma patched_Cons:
  assumes "patched [(at, pm)] w w'" and "patched ps w' w''" and "at \<notin> fst ` set ps"
  shows "patched ((at, pm) # ps) w w''"
proof (cases "arg_type w = at")
  case True
  then have "map_of ps (arg_type w') = None"
    using assms(1,3) by (simp add: arg_type_patched map_of_eq_None_iff)
  with assms True show ?thesis by (auto simp: patched_def)
next
  case False
  with assms show ?thesis by (auto simp: patched_def)
qed

lemma patchable_step:
  assumes "patchable ((at, pm) # ps) w" and "patched [(at, pm)] w w'" and "at \<notin> fst ` set ps"
  shows "patchable ps w'"
proof (cases "arg_type w = at")
  case True
  then have "map_of ps (arg_type w') = None"
    using assms(2,3) by (simp add: arg_type_patched map_of_eq_None_iff)
  with assms(1,2) show ?thesis by (auto simp: patchable_def patched_def)
next
  case False
  with assms show ?thesis by (auto simp: patchable_def patched_def)
qed

lemma patch_all_ok:
  assumes "distinct (map fst ps)" and "\<forall>w \<in> set ws. patchable ps w"
  shows "\<exists>ws'. patch_all (length c) ps (c @ ws) = Inr (c @ ws') \<and> list_all2 (patched ps) ws ws'"
  using assms
proof (induction ps arbitrary: ws)
  case Nil
  then show ?case by (auto simp: patched_def list_all2_same)
next
  case (Cons p ps)
  obtain at pm where p: "p = (at, pm)" by fastforce
  have at: "at \<notin> fst ` set ps" using Cons.prems(1) p by auto
  have "\<forall>w \<in> set ws. patchable [(at, pm)] w" using Cons.prems(2) p by (auto simp: patchable_def)
  then obtain ws1 where 1: "patch_instructions at pm ws = Inr ws1" "list_all2 (patched [(at, pm)]) ws ws1"
    using patch_instructions_ok by blast
  have "patchable ps w1" if w1: "w1 \<in> set ws1" for w1
  proof -
    obtain i where i: "i < length ws1" "w1 = ws1 ! i" using w1 by (auto simp: in_set_conv_nth)
    then have "ws ! i \<in> set ws" "patched [(at, pm)] (ws ! i) w1"
      using 1(2) by (simp_all add: list_all2_conv_all_nth)
    then show ?thesis using Cons.prems(2) p by (auto intro: patchable_step [OF _ _ at])
  qed
  then obtain ws2 where 2: "patch_all (length c) ps (c @ ws1) = Inr (c @ ws2)" "list_all2 (patched ps) ws1 ws2"
    using Cons.IH [of ws1] Cons.prems(1) by auto
  have "list_all2 (patched ((at, pm) # ps)) ws ws2"
    by (rule list_all2_trans [OF patched_Cons [OF _ _ at] 1(2) 2(2)])
  with 1 2 p show ?case by (auto simp: patchCode_def)
qed

section \<open>The linker\<close>

text \<open>The patch maps of \<^verbatim>\<open>Program::add\<close> in the order they are applied.\<close>

definition add_patches ::
  "vm_program \<Rightarrow> vm_program \<Rightarrow> bool \<Rightarrow> patch_map \<Rightarrow> patch_map \<Rightarrow> patch_map \<Rightarrow> (argument_type \<times> patch_map) list" where
  "add_patches oth p d tagpm respm colpm =
    (if d then [(At_Address, Patch_Offset (length (p_code p)))] else []) @
    [(At_Constant, Patch_Offset (length (p_constants p))), (At_TagName, tagpm), (At_ResultName, respm),
     (At_ColumnName, colpm), (At_Statement, Patch_Offset (length (p_statements p))),
     (At_Hint, Patch_Offset (length (p_hinttab p))),
     (At_SubroutineSignature, Patch_Offset (length (p_signatures p))),
     (At_TupleSet, Patch_Offset (length (p_tuplesets p))),
     (At_Path, Patch_Offset (length (ps_pathar (p_pathset p))))]"

lemma program_add_eq:
  assumes "nt_join (p_tagnametab oth) (p_tagnametab p) = Inr (tagpm, tags)"
    and "nt_join (p_resultnametab oth) (p_resultnametab p) = Inr (respm, ress)"
    and "nt_join (p_colnametab oth) (p_colnametab p) = Inr (colpm, cols)"
    and "join_pathes (ps_tagtab (p_pathset oth)) (ps_pathar (p_pathset oth)) (p_pathset p) = Inr paths"
  shows "program_add oth d p =
    rbind (patch_all (length (p_code p)) (add_patches oth p d tagpm respm colpm) (p_code p @ p_code oth)) (\<lambda>c.
      Inr \<lparr>p_code = c, p_pathset = paths, p_constants = p_constants p @ p_constants oth, p_colnametab = cols,
           p_tagnametab = tags, p_resultnametab = ress, p_statements = p_statements p @ p_statements oth,
           p_hinttab = p_hinttab p @ p_hinttab oth, p_signatures = p_signatures p @ p_signatures oth,
           p_tuplesets = p_tuplesets p @ p_tuplesets oth,
           p_tdlpositions = p_tdlpositions p @ map (\<lambda>(ip, pos). (ip + length (p_code p), pos)) (p_tdlpositions oth)\<rparr>)"
  using assms
  by (simp add: program_add_def add_patches_def program_code_append_def joinVectors_def hint_join_def
      ps_join_def rbind_assoc Let_def)

text \<open>The tables of two programs fit into argument indices together.\<close>

definition program_fits :: "vm_program \<Rightarrow> vm_program \<Rightarrow> bool" where
  "program_fits oth p =
    list_all (\<lambda>f. f oth + f p \<le> Max_ArgumentIndex)
          [\<lambda>p. length (p_code p), \<lambda>p. length (p_constants p), \<lambda>p. length (nt_namear (p_tagnametab p)),
           \<lambda>p. length (nt_namear (p_resultnametab p)), \<lambda>p. length (nt_namear (p_colnametab p)),
           \<lambda>p. length (p_statements p), \<lambda>p. length (p_hinttab p), \<lambda>p. length (p_signatures p),
           \<lambda>p. length (p_tuplesets p), \<lambda>p. length (ps_pathar (p_pathset p))]"

text \<open>Jump targets move with the code.\<close>

fun relocate :: "nat \<Rightarrow> reference \<Rightarrow> reference" where
  "relocate k (R_Address a) = R_Address (k + a)"
| "relocate k r = r"

lemma nth_opt_append: "nth_opt (xs @ ys) (length xs + i) = nth_opt ys i"
  "i < length xs \<Longrightarrow> nth_opt (xs @ ys) i = nth_opt xs i"
  by (simp_all add: nth_opt_def nth_append)

lemma nth_opt_Some: "nth_opt xs i = Some x \<longleftrightarrow> i < length xs \<and> xs ! i = x"
  by (auto simp: nth_opt_def)

lemma nth_opt_kept: "nth_opt xs i = Some x \<Longrightarrow> nth_opt (xs @ ys) i = Some x"
  by (auto simp: nth_opt_def nth_append split: if_splits)

text \<open>Everything \<open>oth\<close> refers to is found in \<open>q\<close> under its translated index, and what \<open>p\<close> refers
  to is found where it was.\<close>

definition joined_names :: "name_table \<Rightarrow> name_table \<Rightarrow> patch_map \<Rightarrow> name_table \<Rightarrow> bool" where
  "joined_names oth t pm t' =
    (nt_join oth t = Inr (pm, t') \<and> nt_wf t' \<and> length (nt_namear t') \<le> length (nt_namear oth) + length (nt_namear t) \<and>
     (\<forall>j m. nt_name j t = Some m \<longrightarrow> nt_name j t' = Some m) \<and>
     (\<forall>i n. nt_name i oth = Some n \<longrightarrow>
       (\<exists>j n'. patch_index pm i = Inr j \<and> nt_name j t' = Some n' \<and> keystring n' = keystring n)))"

lemma joined_namesE:
  assumes "nt_wf oth" and "nt_wf t"
  obtains pm t' where "joined_names oth t pm t'"
  using nt_join_resolves [OF assms] unfolding joined_names_def by blast

lemma joined_names_translate:
  assumes "joined_names oth t pm t'" and "nt_name i oth = Some n"
    and "length (nt_namear oth) + length (nt_namear t) \<le> Max_ArgumentIndex"
  shows "\<exists>j n'. patch_index pm i = Inr j \<and> j \<le> Max_ArgumentIndex \<and> nt_name j t' = Some n' \<and> keystring n' = keystring n"
proof -
  obtain j n' where "patch_index pm i = Inr j" "nt_name j t' = Some n'" "keystring n' = keystring n"
    using assms(1,2) unfolding joined_names_def by blast
  moreover then have "j \<le> Max_ArgumentIndex"
    using assms(1,3) by (auto simp: joined_names_def nt_name_Some)
  ultimately show ?thesis by blast
qed

definition joined_pathes :: "path_set \<Rightarrow> path_set \<Rightarrow> path_set \<Rightarrow> bool" where
  "joined_pathes oth s s' =
    (join_pathes (ps_tagtab oth) (ps_pathar oth) s = Inr s' \<and> ps_wf s' \<and> tags_kept (ps_tagtab s) (ps_tagtab s') \<and>
     (\<exists>qs. ps_pathar s' = ps_pathar s @ qs \<and>
        list_all2 (\<lambda>p q. path_names q (ps_tagtab s') = path_names p (ps_tagtab oth)) (ps_pathar oth) qs))"

lemma joined_pathesE:
  assumes "ps_wf oth" and "ps_wf s"
  obtains s' where "joined_pathes oth s s'"
  using join_pathes_names [of "ps_pathar oth" "ps_tagtab oth" s] assms
  unfolding joined_pathes_def ps_wf_def by blast

lemma joined_pathes_translate:
  assumes "joined_pathes oth s s'" and "nth_opt (ps_pathar oth) i = Some x"
  shows "\<exists>y. nth_opt (ps_pathar s') (length (ps_pathar s) + i) = Some y
    \<and> path_names y (ps_tagtab s') = path_names x (ps_tagtab oth)"
  using assms by (auto simp: joined_pathes_def nth_opt_append nth_opt_Some list_all2_conv_all_nth)

lemma joined_pathes_kept:
  assumes "joined_pathes oth s s'" and "ps_wf s" and "nth_opt (ps_pathar s) i = Some x"
  shows "nth_opt (ps_pathar s') i = Some x \<and> path_names x (ps_tagtab s') = path_names x (ps_tagtab s)"
proof -
  have "path_wf (ps_tagtab s) x" using assms(2,3) by (auto simp: ps_wf_def nth_opt_Some)
  with assms(1,3) path_names_kept [of "ps_tagtab s" "ps_tagtab s'" x] show ?thesis
    by (auto simp: joined_pathes_def nth_opt_kept)
qed

lemma fits_simps:
  assumes "program_fits oth p"
  shows "length (p_code oth) + length (p_code p) \<le> Max_ArgumentIndex"
    "length (p_constants oth) + length (p_constants p) \<le> Max_ArgumentIndex"
    "length (nt_namear (p_tagnametab oth)) + length (nt_namear (p_tagnametab p)) \<le> Max_ArgumentIndex"
    "length (nt_namear (p_resultnametab oth)) + length (nt_namear (p_resultnametab p)) \<le> Max_ArgumentIndex"
    "length (nt_namear (p_colnametab oth)) + length (nt_namear (p_colnametab p)) \<le> Max_ArgumentIndex"
    "length (p_statements oth) + length (p_statements p) \<le> Max_ArgumentIndex"
    "length (p_hinttab oth) + length (p_hinttab p) \<le> Max_ArgumentIndex"
    "length (p_signatures oth) + length (p_signatures p) \<le> Max_ArgumentIndex"
    "length (p_tuplesets oth) + length (p_tuplesets p) \<le> Max_ArgumentIndex"
    "length (ps_pathar (p_pathset oth)) + length (ps_pathar (p_pathset p)) \<le> Max_ArgumentIndex"
  using assms unfolding program_fits_def by simp_all

definition joined_program ::
  "vm_program \<Rightarrow> vm_program \<Rightarrow> patch_map \<Rightarrow> patch_map \<Rightarrow> patch_map \<Rightarrow> vm_program \<Rightarrow> bool" where
  "joined_program oth p tagpm respm colpm q =
    (length (p_code q) = length (p_code p) + length (p_code oth) \<and>
     joined_names (p_tagnametab oth) (p_tagnametab p) tagpm (p_tagnametab q) \<and>
     joined_names (p_resultnametab oth) (p_resultnametab p) respm (p_resultnametab q) \<and>
     joined_names (p_colnametab oth) (p_colnametab p) colpm (p_colnametab q) \<and>
     joined_pathes (p_pathset oth) (p_pathset p) (p_pathset q) \<and>
     p_constants q = p_constants p @ p_constants oth \<and> p_statements q = p_statements p @ p_statements oth \<and>
     p_hinttab q = p_hinttab p @ p_hinttab oth \<and> p_signatures q = p_signatures p @ p_signatures oth \<and>
     p_tuplesets q = p_tuplesets p @ p_tuplesets oth)"

definition translates :: "(argument_type \<times> patch_map) list \<Rightarrow> argument_type \<Rightarrow> nat \<Rightarrow> nat \<Rightarrow> bool" where
  "translates ps at i j =
    (case map_of ps at of None \<Rightarrow> j = i | Some pm \<Rightarrow> patch_index pm i = Inr j \<and> j \<le> Max_ArgumentIndex)"

lemma reference_translated:
  assumes q: "joined_program oth p tagpm respm colpm q" and fits: "program_fits oth p"
    and r: "argument_reference oth at i = Some r"
    and addr: "d \<Longrightarrow> at = At_Address \<Longrightarrow> i \<le> length (p_code oth)"
  shows "\<exists>j. translates (add_patches oth p d tagpm respm colpm) at i j
    \<and> argument_reference q at j = Some (relocate (if d then length (p_code p) else 0) r)"
proof -
  note q' = q [unfolded joined_program_def]
  note fit = fits_simps [OF fits]
  note simps = argument_reference_def translates_def add_patches_def patch_index_def nth_opt_append
  have ix: "nth_opt xs i = Some x \<Longrightarrow> i < length xs" for xs :: "'b list" and i x by (simp add: nth_opt_Some)
  show ?thesis
  proof (cases at)
    case At_TagName
    then obtain n where n: "nt_name i (p_tagnametab oth) = Some n" "r = R_Tag (keystring n)"
      using r by (auto simp: argument_reference_def)
    with joined_names_translate [OF _ n(1) fit(3)] q' At_TagName show ?thesis
      by (fastforce simp: simps)
  next
    case At_ResultName
    then obtain n where n: "nt_name i (p_resultnametab oth) = Some n" "r = R_Result (keystring n)"
      using r by (auto simp: argument_reference_def)
    with joined_names_translate [OF _ n(1) fit(4)] q' At_ResultName show ?thesis
      by (fastforce simp: simps)
  next
    case At_ColumnName
    then obtain n where n: "nt_name i (p_colnametab oth) = Some n" "r = R_Column (keystring n)"
      using r by (auto simp: argument_reference_def)
    with joined_names_translate [OF _ n(1) fit(5)] q' At_ColumnName show ?thesis
      by (fastforce simp: simps)
  next
    case At_Path
    then obtain x where x: "0 < i" "nth_opt (ps_pathar (p_pathset oth)) (i - 1) = Some x"
      "r = R_Path (path_names x (ps_tagtab (p_pathset oth)))"
      using r by (auto simp: argument_reference_def split: if_splits)
    with joined_pathes_translate [OF _ x(2)] q' At_Path fit(10) ix [OF x(2)] show ?thesis
      by (fastforce simp: simps)
  qed (use r q' fit addr in \<open>auto simp: simps nth_opt_Some nth_append split: if_splits\<close>)
qed

lemma reference_kept:
  assumes q: "joined_program oth p tagpm respm colpm q" and "ps_wf (p_pathset p)"
    and r: "argument_reference p at i = Some r"
  shows "argument_reference q at i = Some r"
proof -
  note q' = q [unfolded joined_program_def]
  have nm: "nt_name i t' = Some n" if "joined_names oth t pm t'" "nt_name i t = Some n" for oth t pm t' n
    using that unfolding joined_names_def by blast
  show ?thesis
  proof (cases at)
    case At_Path
    then show ?thesis
      using r q' joined_pathes_kept [OF _ assms(2), of "p_pathset oth" "p_pathset q" "i - 1"]
      by (auto simp: argument_reference_def split: if_splits)
  qed (use r q' in \<open>auto simp: argument_reference_def nth_opt_kept dest: nm split: if_splits\<close>)
qed

lemma instruction_reference_eq:
  "opCode w \<in> set opcodes \<Longrightarrow> instruction_reference p w = argument_reference p (arg_type w) (argumentIndex w)"
  using argumentType_named [of "opCode w"] by (auto simp: instruction_reference_def arg_type_def)

lemma refs_ok_reference:
  assumes "refs_ok p" and "w \<in> set (p_code p)"
  shows "opCode w \<in> set opcodes" "\<exists>r. argument_reference p (arg_type w) (argumentIndex w) = Some r"
proof -
  have "opCode w \<in> set opcodes \<and> instruction_reference p w \<noteq> None" using assms by (simp add: refs_ok_def)
  then show "opCode w \<in> set opcodes" "\<exists>r. argument_reference p (arg_type w) (argumentIndex w) = Some r"
    using instruction_reference_eq [of w p] by auto
qed

lemma jumps_inside_arg: "jumps_inside p \<Longrightarrow> w \<in> set (p_code p) \<Longrightarrow> arg_type w = At_Address \<Longrightarrow>
    argumentIndex w \<le> length (p_code p)"
  by (auto simp: jumps_inside_def arg_type_def split: sum.splits)

lemma program_add_joined:
  assumes wf: "refs_ok oth" "refs_ok p" and fits: "program_fits oth p" and jumps: "d \<Longrightarrow> jumps_inside oth"
  shows "\<exists>q ws tagpm respm colpm. program_add oth d p = Inr q \<and> p_code q = p_code p @ ws
    \<and> joined_program oth p tagpm respm colpm q
    \<and> list_all2 (patched (add_patches oth p d tagpm respm colpm)) (p_code oth) ws"
proof -
  obtain tagpm tags where tags: "joined_names (p_tagnametab oth) (p_tagnametab p) tagpm tags"
    using joined_namesE wf by (metis refs_ok_def)
  obtain respm ress where ress: "joined_names (p_resultnametab oth) (p_resultnametab p) respm ress"
    using joined_namesE wf by (metis refs_ok_def)
  obtain colpm cols where cols: "joined_names (p_colnametab oth) (p_colnametab p) colpm cols"
    using joined_namesE wf by (metis refs_ok_def)
  obtain paths where paths: "joined_pathes (p_pathset oth) (p_pathset p) paths"
    using joined_pathesE wf by (metis refs_ok_def)
  let ?ps = "add_patches oth p d tagpm respm colpm" and ?k = "if d then length (p_code p) else 0"
  define mk where "mk ws = \<lparr>p_code = p_code p @ ws, p_pathset = paths,
    p_constants = p_constants p @ p_constants oth, p_colnametab = cols, p_tagnametab = tags,
    p_resultnametab = ress, p_statements = p_statements p @ p_statements oth,
    p_hinttab = p_hinttab p @ p_hinttab oth, p_signatures = p_signatures p @ p_signatures oth,
    p_tuplesets = p_tuplesets p @ p_tuplesets oth,
    p_tdlpositions = p_tdlpositions p @ map (\<lambda>(ip, pos). (ip + length (p_code p), pos)) (p_tdlpositions oth)\<rparr>"
    for ws
  have jp: "joined_program oth p tagpm respm colpm (mk ws)" if "length ws = length (p_code oth)" for ws
    using that tags ress cols paths by (simp add: joined_program_def mk_def)
  have "patchable ?ps w" if "w \<in> set (p_code oth)" for w
    using refs_ok_reference [OF wf(1) that] reference_translated [OF jp [OF refl] fits, of _ _ _ d]
      jumps_inside_arg [OF jumps that]
    by (fastforce simp: patchable_def translates_def)
  moreover have "distinct (map fst ?ps)" by (simp add: add_patches_def)
  ultimately obtain ws where ws: "patch_all (length (p_code p)) ?ps (p_code p @ p_code oth) = Inr (p_code p @ ws)"
    "list_all2 (patched ?ps) (p_code oth) ws"
    using patch_all_ok [of ?ps "p_code oth" "p_code p"] by blast
  then have len: "length ws = length (p_code oth)" by (simp add: list_all2_lengthD)
  have "program_add oth d p = Inr (mk ws)"
    using tags ress cols paths ws(1)
    by (simp add: program_add_eq [where tagpm = tagpm and respm = respm and colpm = colpm]
        joined_names_def joined_pathes_def mk_def)
  moreover have "p_code (mk ws) = p_code p @ ws" by (simp add: mk_def)
  ultimately show ?thesis using jp [OF len] ws(2) by blast
qed

text \<open>The linker, with its outcome on every pair of programs that fit together.\<close>

lemma program_add_links:
  assumes wf: "refs_ok oth" "refs_ok p" and fits: "program_fits oth p" and jumps: "d \<Longrightarrow> jumps_inside oth"
  shows "\<exists>q ws. program_add oth d p = Inr q \<and> refs_ok q \<and> p_code q = p_code p @ ws
    \<and> (\<forall>w \<in> set (p_code p). instruction_reference q w = instruction_reference p w)
    \<and> list_all2 (\<lambda>w w'. condCode w' = condCode w \<and> opCode w' = opCode w \<and> instruction_reference q w' =
          map_option (relocate (if d then length (p_code p) else 0)) (instruction_reference oth w)) (p_code oth) ws"
proof -
  obtain q ws tagpm respm colpm where add: "program_add oth d p = Inr q" and q: "p_code q = p_code p @ ws"
    and jp: "joined_program oth p tagpm respm colpm q"
    and ws: "list_all2 (patched (add_patches oth p d tagpm respm colpm)) (p_code oth) ws"
    using program_add_joined [OF assms] by blast
  have new: "condCode w' = condCode w \<and> opCode w' = opCode w \<and> instruction_reference q w' =
      map_option (relocate (if d then length (p_code p) else 0)) (instruction_reference oth w)
      \<and> opCode w' \<in> set opcodes \<and> instruction_reference q w' \<noteq> None"
    if w: "w \<in> set (p_code oth)" and p: "patched (add_patches oth p d tagpm respm colpm) w w'" for w w'
  proof -
    obtain r where r: "argument_reference oth (arg_type w) (argumentIndex w) = Some r"
      using refs_ok_reference [OF wf(1) w] by blast
    obtain j where j: "translates (add_patches oth p d tagpm respm colpm) (arg_type w) (argumentIndex w) j"
      "argument_reference q (arg_type w) j = Some (relocate (if d then length (p_code p) else 0) r)"
      using reference_translated [OF jp fits r] jumps_inside_arg [OF jumps w] by blast
    have "argumentIndex w' = j" using j(1) p by (auto simp: translates_def patched_def split: option.splits)
    then show ?thesis
      using p j(2) r refs_ok_reference(1) [OF wf(1) w] arg_type_patched [OF p]
      by (simp add: patched_def instruction_reference_eq)
  qed
  have old: "instruction_reference q w = instruction_reference p w \<and> opCode w \<in> set opcodes
      \<and> instruction_reference q w \<noteq> None" if w: "w \<in> set (p_code p)" for w
    using refs_ok_reference [OF wf(2) w] reference_kept [OF jp] wf(2)
    by (auto simp: instruction_reference_eq refs_ok_def)
  have len: "length ws = length (p_code oth)" using ws by (simp add: list_all2_lengthD)
  have new': "opCode w' \<in> set opcodes \<and> instruction_reference q w' \<noteq> None" if "w' \<in> set ws" for w'
    using that new ws len by (auto simp: in_set_conv_nth list_all2_conv_all_nth)
  have "refs_ok q"
    using jp old new' q by (auto simp: refs_ok_def joined_program_def joined_names_def joined_pathes_def)
  moreover have "list_all2 (\<lambda>w w'. condCode w' = condCode w \<and> opCode w' = opCode w \<and> instruction_reference q w' =
      map_option (relocate (if d then length (p_code p) else 0)) (instruction_reference oth w)) (p_code oth) ws"
    using ws new by (auto simp: list_all2_conv_all_nth)
  ultimately show ?thesis using add q old by blast
qed

section \<open>Properties\<close>

lemma address_reference: "argumentType (opCode w) = Inr At_Address \<Longrightarrow> instruction_reference p w = Some (R_Address (argumentIndex w))"
  by (simp add: instruction_reference_def argument_reference_def)

lemma linked_jumps:
  assumes "list_all2 (\<lambda>w w'. condCode w' = condCode w \<and> opCode w' = opCode w \<and> instruction_reference q w' =
      map_option (relocate k) (instruction_reference oth w)) ws ws'"
    and "w' \<in> set ws'" and "argumentType (opCode w') = Inr At_Address"
  shows "\<exists>w \<in> set ws. argumentType (opCode w) = Inr At_Address \<and> argumentIndex w' = k + argumentIndex w"
proof -
  obtain i where i: "i < length ws'" "w' = ws' ! i" using assms(2) by (auto simp: in_set_conv_nth)
  have "ws ! i \<in> set ws" "argumentType (opCode (ws ! i)) = Inr At_Address"
    using assms(1,3) i by (simp_all add: list_all2_conv_all_nth)
  moreover have "instruction_reference q w' = map_option (relocate k) (instruction_reference oth (ws ! i))"
    using assms(1) i by (simp add: list_all2_conv_all_nth)
  ultimately show ?thesis using address_reference [OF assms(3), of q] by (auto simp: address_reference)
qed

text \<open>C13: the linker is right: when the tables of two well-formed programs fit into argument indices
  together, \<^verbatim>\<open>Program::add\<close> raises no exception, leaves the code of the program and everything it
  refers to as it was, appends the code of the other program with its conditions and operations, and
  every added instruction refers to the same constant, name (up to case), statement, error hints,
  subroutine signature, tuple set or input path as before; jump targets move with the code. The
  result is well-formed again.\<close>
theorem linker_preserves_references:
  assumes "program_wf oth" and "program_wf p" and "program_fits oth p"
  shows "\<exists>q ws. program_add oth True p = Inr q \<and> program_wf q \<and> p_code q = p_code p @ ws
    \<and> (\<forall>w \<in> set (p_code p). instruction_reference q w = instruction_reference p w)
    \<and> list_all2 (\<lambda>w w'. condCode w' = condCode w \<and> opCode w' = opCode w \<and> instruction_reference q w' =
          map_option (relocate (length (p_code p))) (instruction_reference oth w)) (p_code oth) ws"
proof -
  obtain q ws where q: "program_add oth True p = Inr q" "refs_ok q" "p_code q = p_code p @ ws"
    "\<forall>w \<in> set (p_code p). instruction_reference q w = instruction_reference p w"
    "list_all2 (\<lambda>w w'. condCode w' = condCode w \<and> opCode w' = opCode w \<and> instruction_reference q w' =
          map_option (relocate (length (p_code p))) (instruction_reference oth w)) (p_code oth) ws"
    using program_add_links [of oth p True] assms by (auto simp: program_wf_def)
  have "jumps_inside q"
    using q(3) linked_jumps [OF q(5)] assms(1,2) list_all2_lengthD [OF q(5)]
    by (fastforce simp: program_wf_def jumps_inside_def)
  with q show ?thesis by (auto simp: program_wf_def)
qed

text \<open>A program that prints a constant in a loop.\<close>

definition example_program :: "variant \<Rightarrow> vm_program" where
  "example_program v = vm_program_new\<lparr>p_code := [0x0C000000, 0x08000000], p_constants := [v]\<rparr>"

lemma example_program_wf: "program_wf (example_program v)"
proof -
  have d: "opCode 0x0C000000 = Op_OUTPUT_CONST" "argumentIndex 0x0C000000 = 0"
    "opCode 0x08000000 = Op_GOTO" "argumentIndex 0x08000000 = 0"
    by code_simp+
  have "argumentType Op_OUTPUT_CONST = Inr At_Constant" "argumentType Op_GOTO = Inr At_Address"
    by (simp_all add: argumentType_def argumentType_table_def array_read_def)
  then show ?thesis
    by (simp add: program_wf_def refs_ok_def jumps_inside_def example_program_def vm_program_new_def d instruction_reference_def
        argument_reference_def nth_opt_def opcodes_def ps_wf_def ps_new_def)
qed

lemma example_program_fits: "program_fits (example_program v) (example_program w)"
  by (simp add: program_fits_def example_program_def vm_program_new_def ps_new_def nt_new_def
      Max_ArgumentIndex_def BitCnt_ArgumentIndex_def)

theorem linker_preserves_references_witness:
  "\<exists>q. program_add (example_program (V_Bool True)) True (example_program (V_Bool False)) = Inr q
    \<and> program_wf q \<and> length (p_code q) = 4"
proof -
  obtain q ws where q: "program_add (example_program (V_Bool True)) True (example_program (V_Bool False)) = Inr q"
    "program_wf q" "p_code q = p_code (example_program (V_Bool False)) @ ws"
    "list_all2 (\<lambda>w w'. condCode w' = condCode w \<and> opCode w' = opCode w \<and> instruction_reference q w' =
       map_option (relocate (length (p_code (example_program (V_Bool False)))))
         (instruction_reference (example_program (V_Bool True)) w)) (p_code (example_program (V_Bool True))) ws"
    using linker_preserves_references [OF example_program_wf example_program_wf example_program_fits] by blast
  then have "length ws = 2" by (auto simp: example_program_def dest!: list_all2_lengthD)
  with q show ?thesis by (simp add: example_program_def)
qed

end
