(* ===== verification/Subroutine_Templates.thy ===== *)
theory Subroutine_Templates
  imports Program_Linker Statement_Parser
begin

text \<open>
  Subroutines and their templates, \<^verbatim>\<open>vm/subroutine.hpp\<close> and \<^verbatim>\<open>vm/subroutine.cpp\<close> of
  \<^verbatim>\<open>src/modules/cmdbind/tdl\<close>, with the tokenizer they use from
  \<^verbatim>\<open>src/libwolframe/utils/parseUtils.cpp\<close>. Template parameters are replaced in the texts of the
  database statements.
\<close>

section \<open>Tokens\<close>

text \<open>A token: its first character, its text without quotes and escapes, the characters consumed
  for it with the white space in front, and the rest.\<close>

record token =
  tk_char :: char
  tk_text :: string
  tk_consumed :: string
  tk_rest :: string

fun quoted_token :: "char \<Rightarrow> string \<Rightarrow> string \<Rightarrow> string \<Rightarrow> (string \<times> string \<times> string) result" where
  "quoted_token eb tok consumed [] = Inl (RuntimeError ''string not terminated'')"
| "quoted_token eb tok consumed (c # cs) =
    (if c = eb then Inr (tok, consumed @ [c], cs)
     else if c = BACKSLASH then
       (case cs of
          [] \<Rightarrow> Inl (RuntimeError ''string not terminated'')
        | d # ds \<Rightarrow> if d = NUL then Inl (RuntimeError ''string has multibyte encoding or is binary'')
            else quoted_token eb (tok @ [d]) (consumed @ [c, d]) ds)
     else if c = NUL then Inl (RuntimeError ''string has multibyte encoding or is binary'')
     else quoted_token eb (tok @ [c]) (consumed @ [c]) cs)"

definition is_identifier_char :: "char \<Rightarrow> bool" where
  "is_identifier_char c = (is_alpha c \<or> is_digit c \<or> c = CHR ''_'')"

definition parseNextToken :: "(char \<Rightarrow> bool) \<Rightarrow> (char \<Rightarrow> bool) \<Rightarrow> string \<Rightarrow> token option result" where
  "parseNextToken operatorTable alphaTable cs =
    (let sp = takeWhile (\<lambda>c. char_code c \<le> 32) cs in
     case dropWhile (\<lambda>c. char_code c \<le> 32) cs of
       [] \<Rightarrow> Inr None
     | c # r \<Rightarrow>
         if c = SQUOTE \<or> c = DQUOTE then
           rbind (quoted_token c [] (sp @ [c]) r) (\<lambda>(tok, consumed, rest).
             Inr (Some \<lparr>tk_char = c, tk_text = tok, tk_consumed = consumed, tk_rest = rest\<rparr>))
         else if operatorTable c then
           Inr (Some \<lparr>tk_char = c, tk_text = [], tk_consumed = sp @ [c], tk_rest = r\<rparr>)
         else if alphaTable c then
           (let tok = takeWhile (\<lambda>c. char_code c > 32 \<and> alphaTable c) (c # r) in
            Inr (Some \<lparr>tk_char = c, tk_text = tok, tk_consumed = sp @ tok,
              tk_rest = dropWhile (\<lambda>c. char_code c > 32 \<and> alphaTable c) (c # r)\<rparr>))
         else Inl (RuntimeError (''unexpected token character '' @ [SQUOTE, c, SQUOTE])))"

section \<open>Template arguments\<close>

definition sub_optab :: "char \<Rightarrow> bool" where
  "sub_optab c = (c \<in> set '';:-,.=)(<>[]{}/&%*|+-#?!$'')"

text \<open>The loop over the template parameters for one token: \<open>pend\<close> is the text from
  \<^verbatim>\<open>start\<close> to \<^verbatim>\<open>si\<close>. An iterator before \<^verbatim>\<open>start\<close> is undefined.\<close>

fun substitute_token ::
  "char option \<Rightarrow> string \<Rightarrow> (string \<times> string) list \<Rightarrow> string \<Rightarrow> string \<Rightarrow> (string \<times> string) result" where
  "substitute_token quot tok [] rt pend = Inr (rt, pend)"
| "substitute_token quot tok ((nam, val) # as) rt pend =
    (if iequals tok nam then
       if length pend < length tok then Inl (Undefined ''iterator range'')
       else let pre = take (length pend - length tok) pend in
         substitute_token quot tok as
           (rt @ pre @ (case quot of None \<Rightarrow> val | Some q \<Rightarrow> [q] @ val @ [q])) []
     else substitute_token quot tok as rt pend)"

definition is_template_token :: "char \<Rightarrow> bool" where
  "is_template_token ch = (is_alpha ch \<or> ch = CHR ''_'' \<or> ch = SQUOTE \<or> ch = DQUOTE)"

function substitute_tokens ::
  "(string \<times> string) list \<Rightarrow> string \<Rightarrow> string \<Rightarrow> string \<Rightarrow> string result" where
  "substitute_tokens as rt pend cs =
    (case parseNextToken sub_optab is_identifier_char cs of
       Inl e \<Rightarrow> Inl e
     | Inr None \<Rightarrow> Inr (rt @ pend @ cs)
     | Inr (Some tk) \<Rightarrow>
         let quot = (if tk_char tk = SQUOTE \<or> tk_char tk = DQUOTE then Some (tk_char tk) else None);
             pend' = pend @ tk_consumed tk
         in (case (if is_template_token (tk_char tk)
                   then substitute_token quot (tk_text tk) as rt pend' else Inr (rt, pend')) of
               Inl e \<Rightarrow> Inl e
             | Inr (rt', pend'') \<Rightarrow> substitute_tokens as rt' pend'' (tk_rest tk)))"
  by pat_completeness auto

lemma quoted_token_length: "quoted_token eb tok con cs = Inr (t, c, r) \<Longrightarrow> length r < length cs"
  by (induction eb tok con cs arbitrary: t c r rule: quoted_token.induct)
     (fastforce split: if_splits list.splits)+

lemma parseNextToken_length: "parseNextToken opt alph cs = Inr (Some tk) \<Longrightarrow> length (tk_rest tk) < length cs"
proof -
  assume a: "parseNextToken opt alph cs = Inr (Some tk)"
  then obtain c r where d: "dropWhile (\<lambda>c. char_code c \<le> 32) cs = c # r"
    by (auto simp: parseNextToken_def Let_def split: list.splits)
  then have c: "\<not> char_code c \<le> 32" by (simp add: dropWhile_eq_Cons_conv)
  have "length (dropWhile (\<lambda>c. char_code c > 32 \<and> alph c) r) \<le> length r" by (rule length_dropWhile_le)
  with a d c dropWhile_Cons_length [OF d] show ?thesis
    by (auto simp: parseNextToken_def Let_def rbind_eq_Inr_iff dest!: quoted_token_length split: if_splits)
qed

termination substitute_tokens
  by (relation "measure (\<lambda>(as, rt, pend, cs). length cs)") (auto dest: parseNextToken_length)

declare substitute_tokens.simps [simp del]

definition substituteTemplateArguments :: "string \<Rightarrow> string list \<Rightarrow> string list \<Rightarrow> string result" where
  "substituteTemplateArguments cmd names vals = substitute_tokens (zip names vals) [] [] cmd"

section \<open>Subroutines\<close>

record subroutine =
  sr_name :: string
  sr_templateParams :: "string list"
  sr_params :: "string list"
  sr_program :: vm_program

fun substitute_all :: "string list \<Rightarrow> string list \<Rightarrow> string list \<Rightarrow> string list result" where
  "substitute_all names vals [] = Inr []"
| "substitute_all names vals (s # ss) =
    rbind (substituteTemplateArguments s names vals) (\<lambda>t.
    rbind (substitute_all names vals ss) (\<lambda>ts. Inr (t # ts)))"

definition substituteStatementTemplates :: "string list \<Rightarrow> subroutine \<Rightarrow> subroutine result" where
  "substituteStatementTemplates vals sr =
    (if length vals \<noteq> length (sr_templateParams sr)
     then Inl (RuntimeError ''number of template parameters do not match'')
     else if vals = [] then Inr sr
     else rbind (substitute_all (sr_templateParams sr) vals (p_statements (sr_program sr))) (\<lambda>sts.
       Inr (sr\<lparr>sr_program := (sr_program sr)\<lparr>p_statements := sts\<rparr>\<rparr>)))"

section \<open>What template arguments are replaced by\<close>

text \<open>The tokens of a statement and the white space at its end.\<close>

function tokenize :: "string \<Rightarrow> (token list \<times> string) result" where
  "tokenize cs =
    (case parseNextToken sub_optab is_identifier_char cs of
       Inl e \<Rightarrow> Inl e
     | Inr None \<Rightarrow> Inr ([], cs)
     | Inr (Some tk) \<Rightarrow> rbind (tokenize (tk_rest tk)) (\<lambda>(tks, tail). Inr (tk # tks, tail)))"
  by pat_completeness auto

termination tokenize
  by (relation "measure length") (auto dest: parseNextToken_length)

declare tokenize.simps [simp del]

definition is_quoted :: "token \<Rightarrow> bool" where
  "is_quoted tk \<longleftrightarrow> tk_char tk = SQUOTE \<or> tk_char tk = DQUOTE"

text \<open>The value for a token: the one of the parameter it names.\<close>

fun template_value :: "(string \<times> string) list \<Rightarrow> string \<Rightarrow> string option" where
  "template_value [] tok = None"
| "template_value ((nam, val) # as) tok = (if iequals tok nam then Some val else template_value as tok)"

definition white_space :: "token \<Rightarrow> string" where
  "white_space tk = takeWhile (\<lambda>c. char_code c \<le> 32) (tk_consumed tk)"

definition expand :: "(string \<times> string) list \<Rightarrow> token \<Rightarrow> string" where
  "expand as tk =
    (if is_template_token (tk_char tk)
     then (case template_value as (tk_text tk) of None \<Rightarrow> tk_consumed tk | Some v \<Rightarrow> white_space tk @ v)
     else tk_consumed tk)"

text \<open>No two parameters have the same name.\<close>

fun distinct_names :: "(string \<times> string) list \<Rightarrow> bool" where
  "distinct_names [] = True"
| "distinct_names ((nam, val) # as) \<longleftrightarrow> (\<forall>(nam', _) \<in> set as. \<not> iequals nam nam') \<and> distinct_names as"

lemma iequals_trans2: "iequals a b \<Longrightarrow> iequals a c \<Longrightarrow> iequals b c"
  by (simp add: iequals_def)

lemma template_value_None: "template_value as tok = None \<longleftrightarrow> (\<forall>(nam, _) \<in> set as. \<not> iequals tok nam)"
  by (induction as tok rule: template_value.induct) auto

lemma substitute_token_unnamed: "template_value as tok = None \<Longrightarrow> substitute_token q tok as rt pend = Inr (rt, pend)"
  by (induction as tok rule: template_value.induct) (auto split: if_splits)

lemma substitute_token_named:
  assumes "template_value as tok = Some v" and "distinct_names as"
  shows "substitute_token None tok as rt (pre @ tok) = Inr (rt @ pre @ v, [])"
  using assms
proof (induction as tok rule: template_value.induct)
  case (2 nam val as tok)
  show ?case
  proof (cases "iequals tok nam")
    case True
    then have "template_value as tok = None"
      using 2(3) by (auto simp: template_value_None dest: iequals_trans2)
    with True 2(2) show ?thesis by (simp add: substitute_token_unnamed)
  qed (use 2 in auto)
qed simp

lemma takeWhile_stop: "\<not> P c \<Longrightarrow> takeWhile P (takeWhile P cs @ c # xs) = takeWhile P cs"
  by (induction cs) simp_all

lemma identifier_consumed:
  assumes "parseNextToken opt alph cs = Inr (Some tk)" and "\<not> is_quoted tk" and "\<not> opt (tk_char tk)"
  shows "tk_consumed tk = white_space tk @ tk_text tk"
proof -
  let ?sp = "takeWhile (\<lambda>c. char_code c \<le> 32) cs"
  obtain c r where d: "dropWhile (\<lambda>c. char_code c \<le> 32) cs = c # r"
    using assms(1) by (auto simp: parseNextToken_def Let_def split: list.splits)
  then have c: "\<not> char_code c \<le> 32" by (simp add: dropWhile_eq_Cons_conv)
  have "tk_consumed tk = ?sp @ tk_text tk" "tk_text tk = c # takeWhile (\<lambda>c. char_code c > 32 \<and> alph c) r"
    using assms d c by (auto simp: parseNextToken_def Let_def is_quoted_def rbind_eq_Inr_iff split: if_splits)
  moreover have "takeWhile (\<lambda>c. char_code c \<le> 32) (?sp @ c # xs) = ?sp" for xs
    using c by (rule takeWhile_stop)
  ultimately show ?thesis by (simp add: white_space_def)
qed

lemma template_token_plain: "is_template_token c \<Longrightarrow> c \<noteq> SQUOTE \<Longrightarrow> c \<noteq> DQUOTE \<Longrightarrow> \<not> sub_optab c"
  by (auto simp: is_template_token_def sub_optab_def is_alpha_def)

lemma substitute_tokens_expand:
  assumes "distinct_names as"
  shows "tokenize cs = Inr (tks, tail) \<Longrightarrow> \<forall>tk \<in> set tks. is_quoted tk \<longrightarrow> template_value as (tk_text tk) = None \<Longrightarrow>
    substitute_tokens as rt pend cs = Inr (rt @ pend @ concat (map (expand as) tks) @ tail)"
proof (induction cs arbitrary: tks rt pend rule: tokenize.induct)
  case (1 cs)
  consider (err) e where "parseNextToken sub_optab is_identifier_char cs = Inl e"
    | (finished) "parseNextToken sub_optab is_identifier_char cs = Inr None"
    | (token) tk where "parseNextToken sub_optab is_identifier_char cs = Inr (Some tk)"
    by (metis sum.exhaust option.exhaust)
  then show ?case
  proof cases
    case (token tk)
    then obtain tks' where tks: "tks = tk # tks'" and rest: "tokenize (tk_rest tk) = Inr (tks', tail)"
      using "1.prems"(1) by (subst (asm) tokenize.simps) (auto simp: rbind_eq_Inr_iff)
    have IH: "substitute_tokens as rt pend (tk_rest tk) = Inr (rt @ pend @ concat (map (expand as) tks') @ tail)" for rt pend
      using "1.IH" [OF token refl rest] "1.prems"(2) tks by simp
    let ?quot = "if tk_char tk = SQUOTE \<or> tk_char tk = DQUOTE then Some (tk_char tk) else None"
    show ?thesis
    proof (cases "is_template_token (tk_char tk) \<and> template_value as (tk_text tk) \<noteq> None")
      case True
      then obtain v where v: "template_value as (tk_text tk) = Some v" by blast
      have nq: "\<not> is_quoted tk" using "1.prems"(2) tks v by auto
      then have "tk_consumed tk = white_space tk @ tk_text tk"
        using identifier_consumed [OF token] True template_token_plain by (auto simp: is_quoted_def)
      then have "substitute_token None (tk_text tk) as rt (pend @ tk_consumed tk) = Inr (rt @ (pend @ white_space tk) @ v, [])"
        using substitute_token_named [OF v assms, of rt "pend @ white_space tk"] by simp
      with token True nq v tks IH show ?thesis
        by (subst substitute_tokens.simps) (simp add: expand_def is_quoted_def)
    next
      case False
      then have "(if is_template_token (tk_char tk) then substitute_token ?quot (tk_text tk) as rt (pend @ tk_consumed tk)
          else Inr (rt, pend @ tk_consumed tk)) = Inr (rt, pend @ tk_consumed tk)"
        by (auto simp: substitute_token_unnamed)
      with token False tks IH show ?thesis
        by (subst substitute_tokens.simps) (auto simp: expand_def Let_def)
    qed
  next
    case finished
    then show ?thesis
      using "1.prems"(1) by (subst substitute_tokens.simps) (auto simp: tokenize.simps [of cs])
  qed (use "1.prems" in \<open>simp add: tokenize.simps [of cs]\<close>)
qed

section \<open>Properties\<close>



lemma quoted_token_plain:
  "\<forall>c \<in> set n. c \<notin> {eb, BACKSLASH, NUL} \<Longrightarrow>
   quoted_token eb tok consumed (n @ eb # cs) = Inr (tok @ n, consumed @ n @ [eb], cs)"
  by (induction n arbitrary: tok consumed) auto

text \<open>A template parameter in quotes is not replaced by its value in quotes: the text in front of the token is cut
  off by the length of the name, which lacks the quotes, so that the opening quote and the first character of the
  name stay. The result has three quotes and is no longer a string of the database language.\<close>
theorem template_quoted_corrupted:
  assumes "n \<noteq> []" and "\<forall>c \<in> set n. c \<notin> {SQUOTE, BACKSLASH, NUL}"
  shows "substituteTemplateArguments (SQUOTE # n @ [SQUOTE]) [n] [v] = Inr ([SQUOTE, hd n] @ SQUOTE # v @ [SQUOTE])"
proof -
  let ?tk = "\<lparr>tk_char = SQUOTE, tk_text = n, tk_consumed = SQUOTE # n @ [SQUOTE], tk_rest = []\<rparr>"
  have "parseNextToken sub_optab is_identifier_char (SQUOTE # n @ [SQUOTE]) = Inr (Some ?tk)"
    using quoted_token_plain [OF assms(2), of "[]" "[SQUOTE]" "[]"] by (simp add: parseNextToken_def)
  moreover have "parseNextToken sub_optab is_identifier_char [] = Inr None" by (simp add: parseNextToken_def)
  moreover have "substitute_tokens as rt pend [] = Inr (rt @ pend)" for as rt pend
    using calculation(2) by (simp add: substitute_tokens.simps [of _ _ _ "[]"])
  moreover have "take (Suc (Suc 0)) (SQUOTE # n @ [SQUOTE]) = [SQUOTE, hd n]" using assms(1) by (cases n) simp_all
  moreover have "iequals n n" by (simp add: iequals_def)
  ultimately show ?thesis
    unfolding substituteTemplateArguments_def
    by (subst substitute_tokens.simps) (simp add: is_template_token_def Let_def Suc_diff_le)
qed

theorem template_quoted_corrupted_witness:
  "substituteTemplateArguments (SQUOTE # ''name'' @ [SQUOTE]) [''name''] [''x''] = Inr [SQUOTE, CHR ''n'', SQUOTE, CHR ''x'', SQUOTE]"
  using template_quoted_corrupted [of "''name''" "''x''"] by simp

end
