(* ===== verification/Tdl_Translator.thy ===== *)
theory Tdl_Translator
  imports Subroutine_Templates
begin

text \<open>
  The translator from commands of the transaction definition language to programs of the virtual
  machine, \<^verbatim>\<open>src/modules/cmdbind/tdl/tdl2vmTranslator.cpp\<close>. Each operation of the class is one
  definition; an exception abandons the translation, so the operations return the error or the
  new state. The lemmas are in \<open>Command_Compiler\<close>, with the commands that use the operations.
\<close>

section \<open>State\<close>

datatype state_id =
    TS_None | OpenForeach | OpenIntoBlock | OpenIntoBlockArray | OpenStatementCall | StatementHint
  | OpenSubroutineCall | OpenLoopElement

record tdl_state =
  ts_id :: state_id
  ts_value :: nat
  ts_paramcnt :: nat

definition tdl_state_new :: "state_id \<Rightarrow> nat \<Rightarrow> tdl_state" where
  "tdl_state_new i v = \<lparr>ts_id = i, ts_value = v, ts_paramcnt = 0\<rparr>"

record called_subroutine =
  cs_address :: nat
  cs_subroutine :: subroutine
  cs_mangledName :: string

text \<open>The back of the state stack is the head of the list.\<close>

record translator =
  tr_stateStack :: "tdl_state list"
  tr_subroutinemap :: "subroutine keymap"
  tr_calledSubroutines :: "called_subroutine list"
  tr_sub_program :: vm_program
  tr_main :: vm_program
  tr_isSubroutine :: bool
  tr_nofCommands :: nat

definition translator_new :: "subroutine keymap \<Rightarrow> bool \<Rightarrow> translator result" where
  "translator_new subs isSub =
    rbind (emit_all [(Co_ALWAYS, Op_GOTO, 0)] []) (\<lambda>c.
      Inr \<lparr>tr_stateStack = [], tr_subroutinemap = subs, tr_calledSubroutines = [],
           tr_sub_program = vm_program_new\<lparr>p_code := c\<rparr>, tr_main = vm_program_new,
           tr_isSubroutine = isSub, tr_nofCommands = 0\<rparr>)"

definition tr_emit :: "decoded list \<Rightarrow> translator \<Rightarrow> translator result" where
  "tr_emit is t = rbind (emit_all is (p_code (tr_main t))) (\<lambda>c. Inr (t\<lparr>tr_main := (tr_main t)\<lparr>p_code := c\<rparr>\<rparr>))"

definition tr_push :: "state_id \<Rightarrow> nat \<Rightarrow> translator \<Rightarrow> translator" where
  "tr_push i v t = t\<lparr>tr_stateStack := tdl_state_new i v # tr_stateStack t\<rparr>"

definition tr_pop :: "translator \<Rightarrow> translator" where
  "tr_pop t = t\<lparr>tr_stateStack := tl (tr_stateStack t)\<rparr>"

text \<open>The check of the state on top of the stack, and its value.\<close>

definition tr_expect :: "state_id \<Rightarrow> string \<Rightarrow> translator \<Rightarrow> tdl_state result" where
  "tr_expect i msg t =
    (case tr_stateStack t of
       s # _ \<Rightarrow> if ts_id s = i then Inr s else Inl (RuntimeError msg)
     | [] \<Rightarrow> Inl (RuntimeError msg))"

text \<open>An index for a name in one of the name tables.\<close>

definition tr_tagname :: "string \<Rightarrow> translator \<Rightarrow> (nat \<times> translator) result" where
  "tr_tagname n t = rbind (nt_get n (p_tagnametab (tr_main t))) (\<lambda>(i, tab).
     Inr (i, t\<lparr>tr_main := (tr_main t)\<lparr>p_tagnametab := tab\<rparr>\<rparr>))"

definition tr_colname :: "string \<Rightarrow> translator \<Rightarrow> (nat \<times> translator) result" where
  "tr_colname n t = rbind (nt_get n (p_colnametab (tr_main t))) (\<lambda>(i, tab).
     Inr (i, t\<lparr>tr_main := (tr_main t)\<lparr>p_colnametab := tab\<rparr>\<rparr>))"

definition tr_path :: "string \<Rightarrow> translator \<Rightarrow> (nat \<times> translator) result" where
  "tr_path sel t = rbind (ps_add sel (p_pathset (tr_main t))) (\<lambda>(i, ps).
     Inr (i, t\<lparr>tr_main := (tr_main t)\<lparr>p_pathset := ps\<rparr>\<rparr>))"

definition tr_constant :: "variant \<Rightarrow> translator \<Rightarrow> nat \<times> translator" where
  "tr_constant v t =
    (length (p_constants (tr_main t)),
     t\<lparr>tr_main := (tr_main t)\<lparr>p_constants := p_constants (tr_main t) @ [v]\<rparr>\<rparr>)"

section \<open>Results\<close>

definition result_KEEP :: "string \<Rightarrow> translator \<Rightarrow> translator result" where
  "result_KEEP name t =
    rbind (nt_get name (p_resultnametab (tr_main t))) (\<lambda>(i, tab).
      tr_emit [(Co_ALWAYS, Op_KEEP_RESULT, i)] (t\<lparr>tr_main := (tr_main t)\<lparr>p_resultnametab := tab\<rparr>\<rparr>))"

definition init_resultset :: "translator \<Rightarrow> translator result" where
  "init_resultset t = tr_emit [(Co_ALWAYS, Op_RESULT_SET_INIT, 0)] t"

definition define_resultset_unique :: "translator \<Rightarrow> translator result" where
  "define_resultset_unique t = tr_emit [(Co_ALWAYS, Op_RESULT_CONSTRAINT_UNIQUE, 0)] t"

definition define_resultset_nonempty :: "translator \<Rightarrow> translator result" where
  "define_resultset_nonempty t = tr_emit [(Co_ALWAYS, Op_RESULT_CONSTRAINT_UNIQUE, 0)] t"

section \<open>Loops\<close>

definition begin_FOREACH :: "string \<Rightarrow> translator \<Rightarrow> translator result" where
  "begin_FOREACH selector t =
    rbind
      (let idx = nt_getIndex selector (p_resultnametab (tr_main t)) in
       if idx \<noteq> 0 then
         tr_emit [(Co_ALWAYS, Op_OPEN_ITER_KEPT_RESULT, idx), (Co_NOT_IF_COND, Op_GOTO, 0)] t
       else if iequals selector ''RESULT'' then
         tr_emit [(Co_ALWAYS, Op_OPEN_ITER_LAST_RESULT, 0), (Co_NOT_IF_COND, Op_GOTO, 0)] t
       else if iequals selector ''PARAM'' then
         Inl (RuntimeError ''PARAM not allowed as argument of FOREACH'')
       else rbind (tr_path selector t) (\<lambda>(idx, t).
         tr_emit [(Co_ALWAYS, Op_OPEN_ITER_PATH, idx), (Co_NOT_IF_COND, Op_GOTO, 0)] t))
      (\<lambda>t. Inr (tr_push OpenForeach (length (p_code (tr_main t))) t))"

definition end_FOREACH :: "translator \<Rightarrow> translator result" where
  "end_FOREACH t =
    rbind (tr_expect OpenForeach ''illegal state: end of FOREACH'' t) (\<lambda>s.
    rbind (tr_emit [(Co_ALWAYS, Op_NEXT, 0), (Co_IF_COND, Op_GOTO, ts_value s)] t) (\<lambda>t.
    let c = p_code (tr_main t); adr = ts_value s - 1 in
    if ts_value s = 0 \<or> adr \<ge> length c then Inl (RuntimeError ''address out of bounds'')
    else rbind (instruction Co_NOT_IF_COND Op_GOTO 0) (\<lambda>placeholder.
      if c ! adr \<noteq> placeholder
      then Inl (RuntimeError ''illegal state: forward patch reference not pointing to instruction expected'')
      else rbind (instruction Co_NOT_IF_COND Op_GOTO (of_nat (length c))) (\<lambda>jump.
        Inr (tr_pop (t\<lparr>tr_main := (tr_main t)\<lparr>p_code := c[adr := jump]\<rparr>\<rparr>))))))"

section \<open>Statements\<close>

definition begin_DO_statement :: "string \<Rightarrow> translator \<Rightarrow> translator result" where
  "begin_DO_statement stm t =
    (let n = length (p_statements (tr_main t)) in
     rbind (tr_emit [(Co_ALWAYS, Op_DBSTM_START, n)] t) (\<lambda>t.
       let t = tr_push OpenStatementCall n t in
       Inr (t\<lparr>tr_main := (tr_main t)\<lparr>p_statements := p_statements (tr_main t) @ [stm]\<rparr>\<rparr>)))"

definition statement_HINT :: "string \<Rightarrow> string \<Rightarrow> translator \<Rightarrow> translator result" where
  "statement_HINT errorclass msg t =
    (case tr_stateStack t of
       [] \<Rightarrow> Inl (RuntimeError ''illegal state: HINT without statement'')
     | s # _ \<Rightarrow>
         rbind (if ts_id s = OpenStatementCall then
                  rbind (hint_startdef (p_hinttab (tr_main t))) (\<lambda>(i, tab).
                    tr_emit [(Co_ALWAYS, Op_DBSTM_HINT, i)]
                      (tr_push StatementHint i (t\<lparr>tr_main := (tr_main t)\<lparr>p_hinttab := tab\<rparr>\<rparr>)))
                else Inr t) (\<lambda>t.
         rbind (tr_expect StatementHint ''illegal state: HINT without open statement'' t) (\<lambda>_.
         rbind (hint_define errorclass msg (p_hinttab (tr_main t))) (\<lambda>tab.
           Inr (t\<lparr>tr_main := (tr_main t)\<lparr>p_hinttab := tab\<rparr>\<rparr>)))))"

text \<open>\<^verbatim>\<open>unsigned int m_nofCommands\<close>.\<close>

definition count_command :: "translator \<Rightarrow> translator" where
  "count_command t = t\<lparr>tr_nofCommands := (tr_nofCommands t + 1) mod 2 ^ 32\<rparr>"

definition end_DO_statement :: "translator \<Rightarrow> translator result" where
  "end_DO_statement t =
    rbind (tr_expect OpenStatementCall ''illegal state: end of DO statement'' t) (\<lambda>s.
    rbind (tr_emit [(Co_ALWAYS, Op_DBSTM_EXEC, ts_value s)] t) (\<lambda>t. Inr (count_command (tr_pop t))))"

definition output_statement_result :: "bool \<Rightarrow> translator \<Rightarrow> translator result" where
  "output_statement_result isLoop t =
    (let n = length (p_code (tr_main t)); endofblock = n + 5 + (if isLoop then 2 else 0); startofblock = n + 2 in
     rbind (tr_emit [(Co_ALWAYS, Op_OPEN_ITER_LAST_RESULT, 0), (Co_NOT_IF_COND, Op_GOTO, endofblock)] t) (\<lambda>t.
     rbind (if isLoop then tr_emit [(Co_ALWAYS, Op_OUTPUT_OPEN_ELEM, 0)] t else Inr t) (\<lambda>t.
     rbind (tr_emit [(Co_ALWAYS, Op_OUTPUT_ITR_COLUMN, 0)] t) (\<lambda>t.
     rbind (if isLoop then tr_emit [(Co_ALWAYS, Op_OUTPUT_CLOSE_ELEM, 0)] t else Inr t) (\<lambda>t.
       tr_emit [(Co_ALWAYS, Op_NEXT, 0), (Co_IF_COND, Op_GOTO, startofblock)] t)))))"

section \<open>Output blocks\<close>

definition begin_INTO_block_name :: "string \<Rightarrow> translator \<Rightarrow> translator result" where
  "begin_INTO_block_name name t =
    rbind (tr_tagname name t) (\<lambda>(i, t).
    rbind (tr_emit [(Co_ALWAYS, Op_OUTPUT_OPEN, i)] t) (\<lambda>t. Inr (tr_push OpenIntoBlock 1 t)))"

fun open_tags :: "string list \<Rightarrow> translator \<Rightarrow> translator result" where
  "open_tags [] t = Inr t"
| "open_tags (p # ps) t =
    rbind (tr_tagname p t) (\<lambda>(i, t). rbind (tr_emit [(Co_ALWAYS, Op_OUTPUT_OPEN, i)] t) (open_tags ps))"

definition begin_INTO_block :: "string list \<Rightarrow> translator \<Rightarrow> translator result" where
  "begin_INTO_block path t =
    rbind (open_tags path t) (\<lambda>t. Inr (tr_push OpenIntoBlock (length path) t))"

definition end_INTO_block :: "translator \<Rightarrow> translator result" where
  "end_INTO_block t =
    rbind (tr_expect OpenIntoBlock ''illegal state: end of INTO'' t) (\<lambda>s.
    rbind (tr_emit (replicate (ts_value s) (Co_ALWAYS, Op_OUTPUT_CLOSE, 0)) t) (\<lambda>t. Inr (tr_pop t)))"

definition begin_loop_INTO_block :: "string list \<Rightarrow> translator \<Rightarrow> translator result" where
  "begin_loop_INTO_block path t =
    (if path = [] then Inl (RuntimeError ''loop INTO statement with empty path'')
     else rbind (open_tags (butlast path) t) (\<lambda>t.
       rbind (tr_tagname (last path) t) (\<lambda>(i, t).
       rbind (tr_emit [(Co_ALWAYS, Op_OUTPUT_OPEN_ARRAY, i)] t) (\<lambda>t.
         Inr (tr_push OpenIntoBlockArray (length path) t)))))"

definition end_loop_INTO_block :: "translator \<Rightarrow> translator result" where
  "end_loop_INTO_block t =
    rbind (tr_expect OpenIntoBlockArray ''illegal state: end of INTO (array)'' t) (\<lambda>s.
    rbind (if ts_value s > 0
           then tr_emit ((Co_ALWAYS, Op_OUTPUT_CLOSE_ARRAY, 0)
                  # replicate (ts_value s - 1) (Co_ALWAYS, Op_OUTPUT_CLOSE, 0)) t
           else Inr t) (\<lambda>t. Inr (tr_pop t)))"

definition begin_loop_element :: "translator \<Rightarrow> translator result" where
  "begin_loop_element t =
    rbind (tr_emit [(Co_ALWAYS, Op_OUTPUT_OPEN_ELEM, 0)] t) (\<lambda>t. Inr (tr_push OpenLoopElement 0 t))"

definition end_loop_element :: "translator \<Rightarrow> translator result" where
  "end_loop_element t =
    rbind (tr_expect OpenLoopElement ''illegal state: end of loop element'' t) (\<lambda>_.
    rbind (tr_emit [(Co_ALWAYS, Op_OUTPUT_CLOSE_ELEM, 0)] t) (\<lambda>t. Inr (tr_pop t)))"

section \<open>Subroutine calls\<close>

definition mangledSubroutineName :: "string \<Rightarrow> string list \<Rightarrow> string \<Rightarrow> string" where
  "mangledSubroutineName name vals selector =
    (if vals = [] then map to_lower name
     else map to_lower name @ concat (map (\<lambda>v. CHR 0x24 # map to_upper v) vals)
          @ CHR 0x25 # map to_upper selector)"

fun find_called :: "string \<Rightarrow> called_subroutine list \<Rightarrow> nat \<Rightarrow> nat option" where
  "find_called m [] i = None"
| "find_called m (c # cs) i = (if cs_mangledName c = m then Some i else find_called m cs (Suc i))"

text \<open>A subroutine that was not called before is instantiated and its code is added to the
  subroutine segment.\<close>

definition instantiate_subroutine ::
  "string \<Rightarrow> string list \<Rightarrow> string \<Rightarrow> subroutine \<Rightarrow> translator \<Rightarrow> (nat \<times> translator) result" where
  "instantiate_subroutine name vals mangled sr t =
    (if length (sr_templateParams sr) \<noteq> length vals
     then Inl (RuntimeError (''calling subroutine template '' @ [SQUOTE] @ name @ [SQUOTE]
            @ '' with wrong number of template parameters''))
     else rbind (if vals \<noteq> [] then substituteStatementTemplates vals sr else Inr sr) (\<lambda>sr.
       let called = \<lparr>cs_address = length (p_code (tr_sub_program t)), cs_subroutine = sr, cs_mangledName = mangled\<rparr> in
       rbind (program_add (sr_program sr) True (tr_sub_program t)) (\<lambda>sub.
         Inr (length (tr_calledSubroutines t),
              t\<lparr>tr_calledSubroutines := tr_calledSubroutines t @ [called], tr_sub_program := sub\<rparr>))))"

definition begin_DO_subroutine :: "string \<Rightarrow> string list \<Rightarrow> string \<Rightarrow> translator \<Rightarrow> translator result" where
  "begin_DO_subroutine name vals selector t =
    (case keymap_find name (tr_subroutinemap t) of
       None \<Rightarrow> Inl (RuntimeError ((if vals = [] then ''calling undefined subroutine ''
                 else ''calling undefined subroutine template '') @ [SQUOTE] @ name @ [SQUOTE]))
     | Some sr \<Rightarrow>
         let mangled = mangledSubroutineName name vals selector in
         rbind (case find_called mangled (tr_calledSubroutines t) 0 of
                  Some i \<Rightarrow> Inr (i, t)
                | None \<Rightarrow> instantiate_subroutine name vals mangled sr t) (\<lambda>(i, t).
         rbind (at_or (LogicError ''vector::_M_range_check'') (tr_calledSubroutines t) i) (\<lambda>called.
         let frame = length (p_signatures (tr_main t));
             t = t\<lparr>tr_main := (tr_main t)\<lparr>p_signatures := p_signatures (tr_main t) @ [sr_params (cs_subroutine called)]\<rparr>\<rparr> in
         rbind (tr_emit [(Co_ALWAYS, Op_SUB_FRAME_OPEN, frame)] t) (\<lambda>t.
           Inr (tr_push OpenSubroutineCall i t)))))"

definition end_DO_subroutine :: "translator \<Rightarrow> translator result" where
  "end_DO_subroutine t =
    rbind (tr_expect OpenSubroutineCall ''illegal state: end of DO'' t) (\<lambda>s.
    rbind (at_or (LogicError ''vector::_M_range_check'') (tr_calledSubroutines t) (ts_value s)) (\<lambda>called.
    if length (sr_params (cs_subroutine called)) \<noteq> ts_paramcnt s
    then Inl (RuntimeError ''number of parameters in subroutine call does not match'')
    else rbind (tr_emit [(Co_ALWAYS, Op_SUB_FRAME_CLOSE, 0), (Co_ALWAYS, Op_GOTO, cs_address called)] t) (\<lambda>t.
      Inr (count_command (tr_pop t)))))"

section \<open>Arguments of statements and calls\<close>

text \<open>Every argument counts the parameters of the state on top; some of the operations then leave
  an open hint state (\<open>pop\<close>), the others do not.\<close>

definition argument_context :: "bool \<Rightarrow> translator \<Rightarrow> translator result" where
  "argument_context pop t =
    (case tr_stateStack t of
       [] \<Rightarrow> Inl (RuntimeError ''illegal state: push paramter without context'')
     | s # st \<Rightarrow>
         let s = s\<lparr>ts_paramcnt := (ts_paramcnt s + 1) mod 2 ^ 32\<rparr> in
         Inr (t\<lparr>tr_stateStack := (if pop \<and> ts_id s = StatementHint then st else s # st)\<rparr>))"

definition context_call :: "string \<Rightarrow> 'a \<Rightarrow> 'a \<Rightarrow> translator \<Rightarrow> 'a result" where
  "context_call msg sub stm t =
    (case tr_stateStack t of
       [] \<Rightarrow> Inl (Undefined ''back() of an empty vector'')
     | s # _ \<Rightarrow>
         if ts_id s = OpenSubroutineCall then Inr sub
         else if ts_id s = OpenStatementCall then Inr stm
         else Inl (RuntimeError (''illegal state: expected statement or subroutine call context for '' @ msg)))"

definition push_ARGUMENT_LOOPCNT :: "translator \<Rightarrow> translator result" where
  "push_ARGUMENT_LOOPCNT t =
    rbind (argument_context True t) (\<lambda>t.
    rbind (context_call ''push paramter'' Op_SUB_ARG_LOOPCNT Op_DBSTM_BIND_LOOPCNT t) (\<lambda>opc.
      tr_emit [(Co_ALWAYS, opc, 0)] t))"

definition push_ARGUMENT_PATH :: "string \<Rightarrow> translator \<Rightarrow> translator result" where
  "push_ARGUMENT_PATH selector t =
    rbind (argument_context True t) (\<lambda>t.
    rbind (tr_path selector t) (\<lambda>(i, t).
    rbind (context_call ''push paramter'' Op_SUB_ARG_PATH Op_DBSTM_BIND_PATH t) (\<lambda>opc.
      tr_emit [(Co_ALWAYS, opc, i)] t)))"

definition push_ARGUMENT_CONST :: "variant \<Rightarrow> translator \<Rightarrow> translator result" where
  "push_ARGUMENT_CONST v t =
    rbind (argument_context True t) (\<lambda>t.
    case tr_constant v t of (i, t) \<Rightarrow>
    rbind (context_call ''push/bind paramter'' Op_SUB_ARG_CONST Op_DBSTM_BIND_CONST t) (\<lambda>opc.
      tr_emit [(Co_ALWAYS, opc, i)] t))"

text \<open>The instruction that selects a tuple set by its name.\<close>

definition select_instruction :: "string \<Rightarrow> translator \<Rightarrow> decoded result" where
  "select_instruction setname t =
    (let referencing_PARAM = (setname = [] \<and> tr_isSubroutine t \<and> tr_nofCommands t = 0);
         referencing_RESULT = (setname = [] \<and> \<not> (tr_isSubroutine t \<and> tr_nofCommands t = 0));
         idx = nt_getIndex setname (p_resultnametab (tr_main t)) in
     if idx \<noteq> 0 then Inr (Co_ALWAYS, Op_SELECT_KEPT_RESULT, idx)
     else if referencing_RESULT \<or> iequals setname ''RESULT'' then Inr (Co_ALWAYS, Op_SELECT_LAST_RESULT, 0)
     else if referencing_PARAM \<or> iequals setname ''PARAM'' then Inr (Co_ALWAYS, Op_SELECT_PARAMETER, 0)
     else Inl (RuntimeError (''selecting unknown name of set '' @ [SQUOTE] @ setname @ [SQUOTE])))"

definition push_ARGUMENT_TUPLESET_idx :: "string \<Rightarrow> nat \<Rightarrow> translator \<Rightarrow> translator result" where
  "push_ARGUMENT_TUPLESET_idx setname colidx t =
    rbind (argument_context True t) (\<lambda>t.
    rbind (context_call ''push/bind paramter'' Op_SUB_ARG_SEL_IDX Op_DBSTM_BIND_SEL_IDX t) (\<lambda>opc.
    rbind (select_instruction setname t) (\<lambda>sel. tr_emit [sel, (Co_ALWAYS, opc, colidx)] t)))"

definition push_ARGUMENT_TUPLESET_name :: "string \<Rightarrow> string \<Rightarrow> translator \<Rightarrow> translator result" where
  "push_ARGUMENT_TUPLESET_name setname colname t =
    rbind (argument_context False t) (\<lambda>t.
    rbind (tr_colname colname t) (\<lambda>(i, t).
    rbind (context_call ''push/bind paramter'' Op_SUB_ARG_SEL_NAM Op_DBSTM_BIND_SEL_NAM t) (\<lambda>opc.
    rbind (select_instruction setname t) (\<lambda>sel. tr_emit [sel, (Co_ALWAYS, opc, i)] t))))"

definition push_ARGUMENT_ITER_idx :: "nat \<Rightarrow> translator \<Rightarrow> translator result" where
  "push_ARGUMENT_ITER_idx colidx t =
    rbind (argument_context False t) (\<lambda>t.
    rbind (context_call ''push/bind paramter'' Op_SUB_ARG_ITR_IDX Op_DBSTM_BIND_ITR_IDX t) (\<lambda>opc.
      tr_emit [(Co_ALWAYS, opc, colidx)] t))"

definition push_ARGUMENT_ITER_name :: "string \<Rightarrow> translator \<Rightarrow> translator result" where
  "push_ARGUMENT_ITER_name colname t =
    rbind (argument_context False t) (\<lambda>t.
    rbind (tr_colname colname t) (\<lambda>(i, t).
    rbind (context_call ''push/bind paramter'' Op_SUB_ARG_ITR_NAM Op_DBSTM_BIND_ITR_NAM t) (\<lambda>opc.
      tr_emit [(Co_ALWAYS, opc, i)] t)))"

section \<open>Values printed\<close>

definition output_ARGUMENT_LOOPCNT :: "translator \<Rightarrow> translator result" where
  "output_ARGUMENT_LOOPCNT t = tr_emit [(Co_ALWAYS, Op_OUTPUT_LOOPCNT, 0)] t"

definition output_ARGUMENT_PATH :: "string \<Rightarrow> translator \<Rightarrow> translator result" where
  "output_ARGUMENT_PATH selector t =
    rbind (tr_path selector t) (\<lambda>(i, t). tr_emit [(Co_ALWAYS, Op_OUTPUT_PATH, i)] t)"

definition output_ARGUMENT_CONST :: "variant \<Rightarrow> translator \<Rightarrow> translator result" where
  "output_ARGUMENT_CONST v t = (case tr_constant v t of (i, t) \<Rightarrow> tr_emit [(Co_ALWAYS, Op_OUTPUT_CONST, i)] t)"

definition output_ARGUMENT_TUPLESET_idx :: "string \<Rightarrow> nat \<Rightarrow> translator \<Rightarrow> translator result" where
  "output_ARGUMENT_TUPLESET_idx setname colidx t =
    rbind (select_instruction setname t) (\<lambda>sel. tr_emit [sel, (Co_ALWAYS, Op_OUTPUT_SEL_IDX, colidx)] t)"

definition output_ARGUMENT_TUPLESET_name :: "string \<Rightarrow> string \<Rightarrow> translator \<Rightarrow> translator result" where
  "output_ARGUMENT_TUPLESET_name setname colname t =
    rbind (tr_colname colname t) (\<lambda>(i, t).
    rbind (select_instruction setname t) (\<lambda>sel. tr_emit [sel, (Co_ALWAYS, Op_OUTPUT_SEL_NAM, i)] t))"

definition output_ARGUMENT_ITER_idx :: "nat \<Rightarrow> translator \<Rightarrow> translator result" where
  "output_ARGUMENT_ITER_idx colidx t = tr_emit [(Co_ALWAYS, Op_OUTPUT_ITR_IDX, colidx)] t"

definition output_ARGUMENT_ITER_name :: "string \<Rightarrow> translator \<Rightarrow> translator result" where
  "output_ARGUMENT_ITER_name colname t =
    rbind (tr_colname colname t) (\<lambda>(i, t). tr_emit [(Co_ALWAYS, Op_OUTPUT_ITR_NAM, i)] t)"

definition tr_setCurrentSourceReference :: "source_pos \<Rightarrow> translator \<Rightarrow> translator" where
  "tr_setCurrentSourceReference pos t = t\<lparr>tr_main := setCurrentSourceReference pos (tr_main t)\<rparr>"

section \<open>Finished programs\<close>

definition add_auditcall :: "vm_program \<Rightarrow> translator \<Rightarrow> translator result" where
  "add_auditcall prg t =
    (if tr_stateStack t \<noteq> [] then Inl (RuntimeError ''illegal state: add audit call in bad context'')
     else rbind (tr_emit [(Co_ALWAYS, Op_OUTPUT_ADD_SINK, 0), (Co_ALWAYS, Op_SCOPE_OPEN, 0)] t) (\<lambda>t.
       rbind (program_add prg True (tr_main t)) (\<lambda>m.
       tr_emit [(Co_ALWAYS, Op_SCOPE_CLOSE, 0)] (t\<lparr>tr_main := m\<rparr>))))"

text \<open>The loop that moves the jumps of the main program: a jump behind \<^verbatim>\<open>SUB_FRAME_CLOSE\<close> is a
  subroutine call and keeps its address. \<open>prev\<close> is the operation before.\<close>

fun relocate_main :: "nat \<Rightarrow> opcode \<Rightarrow> program_code \<Rightarrow> program_code result" where
  "relocate_main start prev [] = Inr []"
| "relocate_main start prev (w # ws) =
    rbind (argumentType (opCode w)) (\<lambda>at.
    rbind (if at = At_Address \<and> prev \<noteq> Op_SUB_FRAME_CLOSE
           then instruction (condCode w) (opCode w) (of_nat (argumentIndex w + start)) else Inr w) (\<lambda>w'.
    rbind (relocate_main start (opCode w) ws) (\<lambda>ws'. Inr (w' # ws'))))"

definition createProgram :: "bool \<Rightarrow> translator \<Rightarrow> vm_program result" where
  "createProgram withReturn t =
    (let sub = tr_sub_program t; n = length (p_code sub) in
     rbind (instruction Co_ALWAYS Op_GOTO 0) (\<lambda>placeholder.
     if n = 0 \<or> p_code sub ! 0 \<noteq> placeholder
     then Inl (RuntimeError ''illegal state: jump to main instruction not found'')
     else rbind
       (if n > 1 then rbind (instruction Co_ALWAYS Op_GOTO (of_nat n)) (\<lambda>jump.
          Inr (n, sub\<lparr>p_code := (p_code sub)[0 := jump]\<rparr>))
        else Inr (0, vm_program_new)) (\<lambda>(start, rt).
     rbind (program_add (tr_main t) False rt) (\<lambda>rt.
     rbind (relocate_main start Op_NOP (drop start (p_code rt))) (\<lambda>ws.
     let rt = rt\<lparr>p_code := take start (p_code rt) @ ws\<rparr> in
     if withReturn
     then rbind (emit_all [(Co_ALWAYS, Op_RETURN, 0)] (p_code rt)) (\<lambda>c. Inr (rt\<lparr>p_code := c\<rparr>))
     else Inr rt)))))"

end
