(* ===== verification/Command_Compiler.thy ===== *)
theory Command_Compiler
  imports Tdl_Translator Transaction_Execution
begin

text \<open>
  Commands of the transaction definition language and their compilation,
  \<^verbatim>\<open>programAddCommandDefinition\<close> of \<^verbatim>\<open>src/modules/cmdbind/tdl/loadTransactionProgram.cpp\<close> over
  the operations of \<open>Tdl_Translator\<close>. The lemmas show that compiling a command only appends to
  the program and leaves the translator's state stack as it was, what the loops look like after
  their jumps are patched and what they do on the virtual machine, how the segments of a program
  are put together, and where the generated code is not what the command says.
\<close>

section \<open>Commands\<close>

datatype element_reference =
    Ref_SelectorPath string | Ref_LoopCounter string | Ref_Constant string
  | Ref_NamedSetElement string string | Ref_IndexSetElement string nat

record embedded_statement =
  es_stmstring :: string
  es_params :: "element_reference list"

record subroutine_call =
  sc_name :: string
  sc_templateparams :: "string list"
  sc_params :: "element_reference list"

record command_definition =
  cd_selector :: string
  cd_statement :: embedded_statement
  cd_call :: subroutine_call
  cd_resultpath :: "string list"
  cd_nonempty :: bool
  cd_unique :: bool
  cd_embedded :: bool
  cd_hints :: "(string \<times> string) list"

text \<open>One argument; the case of the loop counter has no \<^verbatim>\<open>break\<close> and goes on with the constant.\<close>

definition addArgument :: "string \<Rightarrow> element_reference \<Rightarrow> translator \<Rightarrow> translator result" where
  "addArgument selector r t =
    (let iterated = (\<lambda>s. selector \<noteq> [] \<and> (iequals s selector \<or> s = [])) in
     case r of
       Ref_SelectorPath s \<Rightarrow> push_ARGUMENT_PATH s t
     | Ref_LoopCounter s \<Rightarrow> rbind (push_ARGUMENT_LOOPCNT t) (push_ARGUMENT_CONST (V_String s))
     | Ref_Constant s \<Rightarrow> push_ARGUMENT_CONST (V_String s) t
     | Ref_NamedSetElement s n \<Rightarrow>
         if iterated s then push_ARGUMENT_ITER_name n t else push_ARGUMENT_TUPLESET_name s n t
     | Ref_IndexSetElement s i \<Rightarrow>
         if iterated s then push_ARGUMENT_ITER_idx i t else push_ARGUMENT_TUPLESET_idx s i t)"

fun addArguments :: "string \<Rightarrow> element_reference list \<Rightarrow> translator \<Rightarrow> translator result" where
  "addArguments selector [] t = Inr t"
| "addArguments selector (r # rs) t = rbind (addArgument selector r t) (addArguments selector rs)"

fun addHints :: "(string \<times> string) list \<Rightarrow> translator \<Rightarrow> translator result" where
  "addHints [] t = Inr t"
| "addHints ((e, m) # hs) t = rbind (statement_HINT e m t) (addHints hs)"

definition tr_when :: "bool \<Rightarrow> (translator \<Rightarrow> translator result) \<Rightarrow> translator \<Rightarrow> translator result" where
  "tr_when c f t = (if c then f t else Inr t)"

text \<open>The result of an embedded statement is printed into the result path.\<close>

definition addResultOutput :: "command_definition \<Rightarrow> translator \<Rightarrow> translator result" where
  "addResultOutput cmd t =
    (let path = cd_resultpath cmd in
     if path = [] then Inr t
     else if path = [''.''] then
       rbind (begin_INTO_block [] t) (\<lambda>t. rbind (output_statement_result False t) end_INTO_block)
     else if \<not> cd_unique cmd \<or> cd_selector cmd \<noteq> [] then
       rbind (begin_loop_INTO_block path t) (\<lambda>t. rbind (output_statement_result True t) end_loop_INTO_block)
     else rbind (begin_INTO_block path t) (\<lambda>t. rbind (output_statement_result False t) end_INTO_block))"

definition addEmbedded :: "command_definition \<Rightarrow> translator \<Rightarrow> translator result" where
  "addEmbedded cmd t =
    (let loop = (cd_selector cmd \<noteq> []) in
     rbind (tr_when loop (begin_FOREACH (cd_selector cmd)) t) (\<lambda>t.
     rbind (begin_DO_statement (es_stmstring (cd_statement cmd)) t) (\<lambda>t.
     rbind (addHints (cd_hints cmd) t) (\<lambda>t.
     rbind (addArguments (cd_selector cmd) (es_params (cd_statement cmd)) t) (\<lambda>t.
     rbind (end_DO_statement t) (\<lambda>t.
     rbind (tr_when loop end_FOREACH t) (addResultOutput cmd)))))))"

definition addCall :: "command_definition \<Rightarrow> translator \<Rightarrow> translator result" where
  "addCall cmd t =
    (let path = cd_resultpath cmd; loop = (cd_selector cmd \<noteq> []);
         hasIntoBlock = (path \<noteq> [] \<and> path \<noteq> [''.'']); hasIntoLoop = (hasIntoBlock \<and> loop) in
     rbind (tr_when hasIntoBlock (if loop then begin_loop_INTO_block path else begin_INTO_block path) t) (\<lambda>t.
     rbind (tr_when loop (begin_FOREACH (cd_selector cmd)) t) (\<lambda>t.
     rbind (tr_when hasIntoLoop begin_loop_element t) (\<lambda>t.
     rbind (path_normalize (cd_selector cmd)) (\<lambda>sel.
     rbind (begin_DO_subroutine (sc_name (cd_call cmd)) (sc_templateparams (cd_call cmd)) sel t) (\<lambda>t.
     rbind (addArguments (cd_selector cmd) (sc_params (cd_call cmd)) t) (\<lambda>t.
     rbind (end_DO_subroutine t) (\<lambda>t.
     rbind (tr_when hasIntoLoop end_loop_element t) (\<lambda>t.
     rbind (tr_when loop end_FOREACH t) (\<lambda>t.
       tr_when hasIntoBlock (if loop then end_loop_INTO_block else end_INTO_block) t))))))))))"

definition programAddCommandDefinition :: "command_definition \<Rightarrow> translator \<Rightarrow> translator result" where
  "programAddCommandDefinition cmd t =
    rbind (init_resultset t) (\<lambda>t.
    rbind (tr_when (cd_nonempty cmd) define_resultset_nonempty t) (\<lambda>t.
    rbind (tr_when (cd_unique cmd) define_resultset_unique t) (\<lambda>t.
      if cd_embedded cmd then addEmbedded cmd t else addCall cmd t)))"

section \<open>Effects on the code and on the state stack\<close>

text \<open>The words that a list of instructions is encoded to.\<close>

definition encodes :: "decoded list \<Rightarrow> program_code \<Rightarrow> bool" where
  "encodes is ws = list_all2 (\<lambda>(cc, opc, arg) w. instruction cc opc (of_nat arg) = Inr w) is ws"

lemma encodes_simps [simp]:
  "encodes [] ws \<longleftrightarrow> ws = []"
  "encodes ((cc, opc, arg) # is) ws \<longleftrightarrow> (\<exists>w ws'. ws = w # ws' \<and> instruction cc opc (of_nat arg) = Inr w \<and> encodes is ws')"
  "encodes (is @ js) ws \<longleftrightarrow> (\<exists>us vs. ws = us @ vs \<and> encodes is us \<and> encodes js vs)"
  by (auto simp: encodes_def list_all2_Cons1 list_all2_append1 dest: list_all2_lengthD)
     (metis list_all2_lengthD)

lemma encodes_length: "encodes is ws \<Longrightarrow> length ws = length is"
  by (auto simp: encodes_def dest: list_all2_lengthD)

lemma emit_all_encodes: "emit_all is c = Inr c' \<Longrightarrow> \<exists>ws. c' = c @ ws \<and> encodes is ws"
  by (induction "is" c arbitrary: c' rule: emit_all.induct)
     (fastforce simp: rbind_eq_Inr_iff dest: program_code_emit_Inr)+

lemma tr_emit_encodes:
  assumes "tr_emit is t = Inr t'"
  obtains ws where "encodes is ws" and "t' = t\<lparr>tr_main := (tr_main t)\<lparr>p_code := p_code (tr_main t) @ ws\<rparr>\<rparr>"
  using assms emit_all_encodes by (fastforce simp: tr_emit_def rbind_eq_Inr_iff)

lemma instruction_decode:
  assumes "instruction cc opc arg = Inr w" and "opc \<in> set opcodes"
  shows "decode w = (cc, opc, unat arg)"
proof -
  have "unat arg \<le> Max_ArgumentIndex" using assms(1) by (auto simp: instruction_def split: if_splits)
  moreover have "opcode_value opc < 64" using opcode_value_named [OF assms(2)] by simp
  ultimately show ?thesis
    using instruction_decoded [of opc arg cc] opcode_of_value_named [OF assms(2)] assms(1)
    by (metis Inr_inject decode_def)
qed

lemma instruction_decode_nat:
  assumes "instruction cc opc (of_nat a) = Inr w" and "opc \<in> set opcodes" and "a < 2 ^ 32"
  shows "decode w = (cc, opc, a)"
  using instruction_decode [OF assms(1,2)] assms(3) by (simp add: unat_of_nat_32)

lemma encodes_decode:
  assumes "encodes is ws" and "\<forall>(cc, opc, arg) \<in> set is. opc \<in> set opcodes \<and> arg < 2 ^ 32"
  shows "map decode ws = is"
  using assms
proof (induction "is" arbitrary: ws)
  case (Cons i "is")
  obtain cc opc arg where "i = (cc, opc, arg)" by (cases i)
  with Cons show ?case by (auto dest!: instruction_decode simp: unat_of_nat_32)
qed simp

text \<open>Every jump is the call of a subroutine, behind \<^verbatim>\<open>SUB_FRAME_CLOSE\<close>, or goes to an address from \<open>n\<close>
  to \<open>m\<close>; \<open>prev\<close> is the operation before.\<close>

fun local_jumps :: "nat \<Rightarrow> nat \<Rightarrow> opcode \<Rightarrow> decoded list \<Rightarrow> bool" where
  "local_jumps n m prev [] = True"
| "local_jumps n m prev ((cc, opc, arg) # is) \<longleftrightarrow>
    (opc = Op_GOTO \<longrightarrow> prev = Op_SUB_FRAME_CLOSE \<or> n \<le> arg \<and> arg \<le> m) \<and> local_jumps n m opc is"

lemma local_jumps_mono:
  assumes "local_jumps n m prev is" and "n' \<le> n" and "m \<le> m'" and "prev = Op_SUB_FRAME_CLOSE \<longrightarrow> prev' = prev"
  shows "local_jumps n' m' prev' is"
  using assms by (induction n m prev "is" arbitrary: prev' rule: local_jumps.induct) auto

lemma local_jumps_append:
  "local_jumps n m prev is \<Longrightarrow> local_jumps n m Op_NOP js \<Longrightarrow> local_jumps n m prev (is @ js)"
  by (induction n m prev "is" rule: local_jumps.induct) (auto intro: local_jumps_mono)

definition jumps_ok :: "nat \<Rightarrow> program_code \<Rightarrow> bool" where
  "jumps_ok n ws = local_jumps n (n + length ws) Op_NOP (map decode ws)"

lemma jumps_ok_Nil [simp]: "jumps_ok n []"
  by (simp add: jumps_ok_def)

lemma jumps_ok_append: "jumps_ok n us \<Longrightarrow> jumps_ok (n + length us) vs \<Longrightarrow> jumps_ok n (us @ vs)"
  by (auto simp: jumps_ok_def intro!: local_jumps_append intro: local_jumps_mono)

text \<open>The code of \<open>t'\<close> starts with the code of \<open>t\<close>, and the rest has no jump out of it but the calls
  of subroutines.\<close>

definition appends :: "translator \<Rightarrow> translator \<Rightarrow> bool" where
  "appends t t' = (\<exists>ws. p_code (tr_main t') = p_code (tr_main t) @ ws \<and> jumps_ok (length (p_code (tr_main t))) ws)"

lemma appends_refl [simp]: "appends t t"
  by (simp add: appends_def jumps_ok_def)

lemma appends_trans: "appends t t' \<Longrightarrow> appends t' t'' \<Longrightarrow> appends t t''"
  by (auto simp: appends_def intro: jumps_ok_append)

lemma opcode_listed [simp]: "opc \<in> set opcodes \<longleftrightarrow> (\<nexists>n. opc = Op_unnamed n)"
  by (cases opc) (simp_all add: opcodes_def)

lemma tr_emit_append: "rbind (tr_emit is t) (tr_emit js) = tr_emit (is @ js) t"
  by (auto simp: tr_emit_def emit_all_append rbind_def split: sum.splits)

definition plain :: "decoded list \<Rightarrow> bool" where
  "plain is \<longleftrightarrow> (\<forall>(cc, opc, arg) \<in> set is. opc \<in> set opcodes \<and> opc \<noteq> Op_GOTO)"

lemma plain_simps [simp]:
  "plain []" "plain ((cc, opc, arg) # is) \<longleftrightarrow> opc \<in> set opcodes \<and> opc \<noteq> Op_GOTO \<and> plain is"
  "plain (replicate n (cc, opc, arg)) \<longleftrightarrow> n = 0 \<or> opc \<in> set opcodes \<and> opc \<noteq> Op_GOTO"
  by (auto simp: plain_def)

lemma plain_jumps:
  assumes "encodes is ws" and "plain is"
  shows "jumps_ok n ws"
proof -
  have "local_jumps n m prev (map decode ws)" for m prev
    using assms
  proof (induction "is" arbitrary: ws prev)
    case (Cons i "is")
    obtain cc opc arg where "i = (cc, opc, arg)" by (cases i)
    with Cons show ?case by (auto dest!: instruction_decode)
  qed simp
  then show ?thesis by (simp add: jumps_ok_def)
qed

lemma tr_emit_effect:
  "tr_emit is t = Inr t' \<Longrightarrow> tr_stateStack t' = tr_stateStack t \<and> (plain is \<longrightarrow> appends t t')"
  by (erule tr_emit_encodes) (auto simp: appends_def intro: plain_jumps)

lemma tr_names_effect:
  "tr_tagname n t = Inr (i, t') \<Longrightarrow> p_code (tr_main t') = p_code (tr_main t) \<and> tr_stateStack t' = tr_stateStack t"
  "tr_colname n t = Inr (i, t') \<Longrightarrow> p_code (tr_main t') = p_code (tr_main t) \<and> tr_stateStack t' = tr_stateStack t"
  "tr_path n t = Inr (i, t') \<Longrightarrow> p_code (tr_main t') = p_code (tr_main t) \<and> tr_stateStack t' = tr_stateStack t"
  by (auto simp: tr_tagname_def tr_colname_def tr_path_def rbind_eq_Inr_iff)

lemma appends_code: "p_code (tr_main t') = p_code (tr_main t) \<Longrightarrow> appends t' u \<Longrightarrow> appends t u"
  by (simp add: appends_def)

text \<open>\<open>opens i v t t'\<close>: \<open>t'\<close> has appended code and opened one state.\<close>

definition opens :: "state_id \<Rightarrow> nat \<Rightarrow> translator \<Rightarrow> translator \<Rightarrow> bool" where
  "opens i v t t' = (appends t t' \<and> tr_stateStack t' = tdl_state_new i v # tr_stateStack t)"

definition closes :: "translator \<Rightarrow> translator \<Rightarrow> bool" where
  "closes t t' = (appends t t' \<and> tr_stateStack t' = tl (tr_stateStack t))"

lemma open_tags_effect: "open_tags ps t = Inr t' \<Longrightarrow> appends t t' \<and> tr_stateStack t' = tr_stateStack t"
proof (induction ps t rule: open_tags.induct)
  case (2 p ps t)
  then obtain i t1 t2 where 1: "tr_tagname p t = Inr (i, t1)" "tr_emit [(Co_ALWAYS, Op_OUTPUT_OPEN, i)] t1 = Inr t2"
    "open_tags ps t2 = Inr t'" by (auto simp: rbind_eq_Inr_iff)
  have "appends t t2" "tr_stateStack t2 = tr_stateStack t"
    using tr_names_effect(1) [OF 1(1)] tr_emit_effect [OF 1(2)] by (simp_all add: appends_def)
  moreover have "appends t2 t' \<and> tr_stateStack t' = tr_stateStack t2"
    by (rule 2(1) [OF 1(3)])
  ultimately show ?case by (auto intro: appends_trans)
qed simp

lemma stack_simps [simp]:
  "appends t (tr_push i v u) = appends t u" "appends t (tr_pop u) = appends t u"
  "appends t (count_command u) = appends t u"
  "tr_stateStack (tr_push i v u) = tdl_state_new i v # tr_stateStack u"
  "tr_stateStack (tr_pop u) = tl (tr_stateStack u)" "tr_stateStack (count_command u) = tr_stateStack u"
  by (simp_all add: appends_def tr_push_def tr_pop_def count_command_def)

lemma into_effects:
  "begin_INTO_block path t = Inr t' \<Longrightarrow> opens OpenIntoBlock (length path) t t'"
  "end_INTO_block t = Inr t' \<Longrightarrow> closes t t'"
  "end_loop_INTO_block t = Inr t' \<Longrightarrow> closes t t'"
  "begin_loop_element t = Inr t' \<Longrightarrow> opens OpenLoopElement 0 t t'"
  "end_loop_element t = Inr t' \<Longrightarrow> closes t t'"
  unfolding begin_INTO_block_def end_INTO_block_def end_loop_INTO_block_def begin_loop_element_def
    end_loop_element_def rbind_eq_Inr_iff opens_def closes_def
  by (auto split: if_splits dest: tr_emit_effect open_tags_effect)

lemma begin_loop_INTO_effect: "begin_loop_INTO_block path t = Inr t' \<Longrightarrow> opens OpenIntoBlockArray (length path) t t'"
  by (auto simp: begin_loop_INTO_block_def rbind_eq_Inr_iff opens_def tr_push_def appends_def
      split: if_splits dest!: tr_emit_effect open_tags_effect tr_names_effect)
     (blast intro: jumps_ok_append)

text \<open>The code that prints a result.\<close>

definition result_code :: "bool \<Rightarrow> nat \<Rightarrow> decoded list" where
  "result_code isLoop n =
    [(Co_ALWAYS, Op_OPEN_ITER_LAST_RESULT, 0), (Co_NOT_IF_COND, Op_GOTO, n + 5 + (if isLoop then 2 else 0))]
    @ (if isLoop then [(Co_ALWAYS, Op_OUTPUT_OPEN_ELEM, 0)] else [])
    @ [(Co_ALWAYS, Op_OUTPUT_ITR_COLUMN, 0)]
    @ (if isLoop then [(Co_ALWAYS, Op_OUTPUT_CLOSE_ELEM, 0)] else [])
    @ [(Co_ALWAYS, Op_NEXT, 0), (Co_IF_COND, Op_GOTO, n + 2)]"

lemma tr_emit_Nil [simp]: "tr_emit [] t = Inr t"
  by (simp add: tr_emit_def)

lemma output_result_code:
  "output_statement_result isLoop t = tr_emit (result_code isLoop (length (p_code (tr_main t)))) t"
proof -
  have emits: "rbind (tr_emit is t) (\<lambda>t. rbind (tr_emit js t) f) = rbind (tr_emit (is @ js) t) f" for "is" js f
    by (simp add: rbind_assoc tr_emit_append [symmetric])
  have opt: "(if isLoop then tr_emit is t else Inr t) = tr_emit (if isLoop then is else []) t" for "is" t
    by simp
  show ?thesis
    unfolding output_statement_result_def result_code_def Let_def opt emits
    by (simp add: tr_emit_append)
qed

lemma emit_all_bound: "emit_all is c = Inr c' \<Longrightarrow> is \<noteq> [] \<Longrightarrow> length c' < Max_ArgumentIndex"
proof (induction "is" c rule: emit_all.induct)
  case (2 cc opc arg "is" c)
  then show ?case by (cases "is") (auto simp: rbind_eq_Inr_iff dest: program_code_emit_Inr)
qed simp

lemma tr_emit_bound: "tr_emit is t = Inr t' \<Longrightarrow> is \<noteq> [] \<Longrightarrow> length (p_code (tr_main t')) < 2 ^ 20"
  using emit_all_bound by (fastforce simp: tr_emit_def rbind_eq_Inr_iff instruction_layout)

text \<open>Code whose jumps are addresses of the program.\<close>

lemma tr_emit_local:
  assumes "tr_emit is t = Inr t'" and "\<forall>(cc, opc, arg) \<in> set is. opc \<in> set opcodes \<and> arg < 2 ^ 20"
    and "local_jumps (length (p_code (tr_main t))) (length (p_code (tr_main t)) + length is) Op_NOP is"
  shows "appends t t'"
proof -
  obtain ws where ws: "encodes is ws" "t' = t\<lparr>tr_main := (tr_main t)\<lparr>p_code := p_code (tr_main t) @ ws\<rparr>\<rparr>"
    using assms(1) by (rule tr_emit_encodes)
  have "map decode ws = is" using assms(2) by (intro encodes_decode [OF ws(1)]) auto
  with assms(3) encodes_length [OF ws(1)] ws(2) show ?thesis by (auto simp: appends_def jumps_ok_def)
qed

lemma output_result_effect:
  assumes "output_statement_result b t = Inr t'"
  shows "appends t t' \<and> tr_stateStack t' = tr_stateStack t"
proof -
  let ?n = "length (p_code (tr_main t))"
  have e: "tr_emit (result_code b ?n) t = Inr t'" using assms by (simp add: output_result_code)
  moreover have "?n + 7 < 2 ^ 20 \<or> \<not> b \<and> ?n + 5 < 2 ^ 20"
    using tr_emit_bound [OF e] tr_emit_encodes [OF e] encodes_length
    by (fastforce simp: result_code_def split: if_splits)
  ultimately show ?thesis
    using tr_emit_local [OF e] tr_emit_effect [OF e] by (auto simp: result_code_def)
qed

lemma resultset_effects:
  "init_resultset t = Inr t' \<Longrightarrow> appends t t' \<and> tr_stateStack t' = tr_stateStack t"
  "define_resultset_unique t = Inr t' \<Longrightarrow> appends t t' \<and> tr_stateStack t' = tr_stateStack t"
  "define_resultset_nonempty t = Inr t' \<Longrightarrow> appends t t' \<and> tr_stateStack t' = tr_stateStack t"
  by (auto simp: init_resultset_def define_resultset_unique_def define_resultset_nonempty_def
      dest!: tr_emit_effect)

text \<open>A statement or a subroutine call is open on top of the states \<open>st\<close>, maybe with the state of its
  hints above it.\<close>

definition in_call :: "state_id \<Rightarrow> nat \<Rightarrow> tdl_state list \<Rightarrow> translator \<Rightarrow> bool" where
  "in_call i v st t =
    (i \<in> {OpenStatementCall, OpenSubroutineCall} \<and>
     (\<exists>s. ts_id s = i \<and> ts_value s = v \<and>
        (tr_stateStack t = s # st \<or>
         i = OpenStatementCall \<and> (\<exists>h. ts_id h = StatementHint \<and> tr_stateStack t = h # s # st))))"

lemma in_call_stack: "in_call i v st t \<Longrightarrow> tr_stateStack t' = tr_stateStack t \<Longrightarrow> in_call i v st t'"
  by (simp add: in_call_def)

lemma in_call_open: "i \<in> {OpenStatementCall, OpenSubroutineCall} \<Longrightarrow> tr_stateStack t = tdl_state_new i v # st \<Longrightarrow> in_call i v st t"
  by (simp add: in_call_def tdl_state_new_def)

lemma argument_context_effect:
  assumes "argument_context pop t = Inr t'" and "in_call i v st t"
  shows "p_code (tr_main t') = p_code (tr_main t) \<and> in_call i v st t'"
  using assms by (auto simp: argument_context_def in_call_def Let_def split: if_splits)

lemma context_call_Inr: "context_call msg sub stm t = Inr opc \<Longrightarrow> opc = sub \<or> opc = stm"
  by (auto simp: context_call_def split: list.splits if_splits)

lemma select_instruction_Inr:
  "select_instruction setname t = Inr sel \<Longrightarrow> \<exists>opc arg. sel = (Co_ALWAYS, opc, arg)
    \<and> opc \<in> {Op_SELECT_KEPT_RESULT, Op_SELECT_LAST_RESULT, Op_SELECT_PARAMETER}"
  by (auto simp: select_instruction_def Let_def split: if_splits)

lemma push_effects:
  assumes "in_call i v st t"
  shows "push_ARGUMENT_LOOPCNT t = Inr t' \<Longrightarrow> appends t t' \<and> in_call i v st t'"
    "push_ARGUMENT_PATH sel t = Inr t' \<Longrightarrow> appends t t' \<and> in_call i v st t'"
    "push_ARGUMENT_CONST c t = Inr t' \<Longrightarrow> appends t t' \<and> in_call i v st t'"
    "push_ARGUMENT_TUPLESET_idx n k t = Inr t' \<Longrightarrow> appends t t' \<and> in_call i v st t'"
    "push_ARGUMENT_TUPLESET_name n m t = Inr t' \<Longrightarrow> appends t t' \<and> in_call i v st t'"
    "push_ARGUMENT_ITER_idx k t = Inr t' \<Longrightarrow> appends t t' \<and> in_call i v st t'"
    "push_ARGUMENT_ITER_name m t = Inr t' \<Longrightarrow> appends t t' \<and> in_call i v st t'"
  by (auto simp: push_ARGUMENT_LOOPCNT_def push_ARGUMENT_PATH_def push_ARGUMENT_CONST_def
      push_ARGUMENT_TUPLESET_idx_def push_ARGUMENT_TUPLESET_name_def push_ARGUMENT_ITER_idx_def
      push_ARGUMENT_ITER_name_def tr_constant_def rbind_eq_Inr_iff appends_def
      dest!: tr_emit_effect tr_names_effect argument_context_effect [OF _ assms] context_call_Inr
        select_instruction_Inr intro: in_call_stack)

lemma addArgument_effect:
  assumes "in_call i v st t" and "addArgument sel r t = Inr t'"
  shows "appends t t' \<and> in_call i v st t'"
  using assms
  by (auto simp: addArgument_def Let_def rbind_eq_Inr_iff split: element_reference.splits if_splits
      dest: push_effects appends_trans)

lemma addArguments_effect:
  "in_call i v st t \<Longrightarrow> addArguments sel rs t = Inr t' \<Longrightarrow> appends t t' \<and> in_call i v st t'"
proof (induction sel rs t rule: addArguments.induct)
  case (2 sel r rs t)
  then obtain t1 where "addArgument sel r t = Inr t1" "addArguments sel rs t1 = Inr t'"
    by (auto simp: rbind_eq_Inr_iff)
  with 2 addArgument_effect show ?case by (blast intro: appends_trans)
qed simp

lemma tr_expect_Inr: "tr_expect i msg t = Inr s \<longleftrightarrow> (\<exists>st. tr_stateStack t = s # st \<and> ts_id s = i)"
  by (auto simp: tr_expect_def split: list.splits)

text \<open>After a hint the state of the hints is on top.\<close>

lemma hint_state_effect:
  assumes "in_call OpenStatementCall v st t" and "tr_stateStack t = s # st'"
    and "(if ts_id s = OpenStatementCall then rbind (hint_startdef (p_hinttab (tr_main t))) (\<lambda>(i, tab).
            tr_emit [(Co_ALWAYS, Op_DBSTM_HINT, i)]
              (tr_push StatementHint i (t\<lparr>tr_main := (tr_main t)\<lparr>p_hinttab := tab\<rparr>\<rparr>)))
          else Inr t) = Inr t1"
  shows "appends t t1 \<and> in_call OpenStatementCall v st t1"
proof (cases "ts_id s = OpenStatementCall")
  case True
  then obtain i tab where "tr_emit [(Co_ALWAYS, Op_DBSTM_HINT, i)]
      (tr_push StatementHint i (t\<lparr>tr_main := (tr_main t)\<lparr>p_hinttab := tab\<rparr>\<rparr>)) = Inr t1"
    using assms(3) by (auto simp: rbind_eq_Inr_iff)
  from tr_emit_effect [OF this] assms(1,2) True show ?thesis
    by (auto simp: in_call_def tr_push_def appends_def tdl_state_new_def)
next
  case False
  with assms show ?thesis by simp
qed

lemma statement_HINT_effect:
  assumes "in_call OpenStatementCall v st t" and "statement_HINT e m t = Inr t'"
  shows "appends t t' \<and> in_call OpenStatementCall v st t' \<and> ts_id (hd (tr_stateStack t')) = StatementHint"
proof -
  obtain s st' where s: "tr_stateStack t = s # st'" using assms(1) by (auto simp: in_call_def)
  then obtain t1 h tab where t1: "(if ts_id s = OpenStatementCall then rbind (hint_startdef (p_hinttab (tr_main t)))
      (\<lambda>(i, tab). tr_emit [(Co_ALWAYS, Op_DBSTM_HINT, i)]
              (tr_push StatementHint i (t\<lparr>tr_main := (tr_main t)\<lparr>p_hinttab := tab\<rparr>\<rparr>)))
          else Inr t) = Inr t1"
    "tr_expect StatementHint ''illegal state: HINT without open statement'' t1 = Inr h"
    "t' = t1\<lparr>tr_main := (tr_main t1)\<lparr>p_hinttab := tab\<rparr>\<rparr>"
    using assms(2) by (auto simp: statement_HINT_def Let_def rbind_eq_Inr_iff)
  from hint_state_effect [OF assms(1) s t1(1)] t1(2,3) show ?thesis
    by (auto simp: appends_def in_call_def tr_expect_Inr)
qed

lemma addHints_effect:
  "in_call OpenStatementCall v st t \<Longrightarrow> addHints hs t = Inr t' \<Longrightarrow>
    appends t t' \<and> in_call OpenStatementCall v st t' \<and> (hs \<noteq> [] \<longrightarrow> ts_id (hd (tr_stateStack t')) = StatementHint)"
proof (induction hs t rule: addHints.induct)
  case (2 e m hs t)
  then obtain t1 where t1: "statement_HINT e m t = Inr t1" "addHints hs t1 = Inr t'"
    by (auto simp: rbind_eq_Inr_iff)
  with 2(1,2) statement_HINT_effect [OF 2(2) t1(1)] show ?case
    by (cases hs) (auto intro: appends_trans)
qed simp

lemma begin_statement_effect:
  "begin_DO_statement stm t = Inr t' \<Longrightarrow>
    appends t t' \<and> in_call OpenStatementCall (length (p_statements (tr_main t))) (tr_stateStack t) t'"
  by (auto simp: begin_DO_statement_def Let_def rbind_eq_Inr_iff tr_push_def appends_def in_call_def
      tdl_state_new_def dest!: tr_emit_effect)

lemma end_statement_effect:
  assumes "in_call OpenStatementCall v st t" and "end_DO_statement t = Inr t'"
  shows "appends t t' \<and> tr_stateStack t' = st"
  using assms
  by (auto simp: end_DO_statement_def rbind_eq_Inr_iff tr_expect_Inr in_call_def count_command_def
      tr_pop_def appends_def dest!: tr_emit_effect)

lemma begin_subroutine_effect:
  assumes "begin_DO_subroutine name vals sel t = Inr t'"
  shows "appends t t' \<and> (\<exists>i. in_call OpenSubroutineCall i (tr_stateStack t) t')"
  using assms
  by (auto simp: begin_DO_subroutine_def instantiate_subroutine_def Let_def rbind_eq_Inr_iff tr_push_def
      appends_def in_call_def tdl_state_new_def dest!: tr_emit_effect split: option.splits if_splits)

lemma end_subroutine_effect:
  assumes "in_call OpenSubroutineCall v st t" and "end_DO_subroutine t = Inr t'"
  shows "appends t t' \<and> tr_stateStack t' = st"
proof -
  from assms(2) obtain s called where
    "tr_expect OpenSubroutineCall ''illegal state: end of DO'' t = Inr s"
    "at_or (LogicError ''vector::_M_range_check'') (tr_calledSubroutines t) (ts_value s) = Inr called"
    "(if length (sr_params (cs_subroutine called)) \<noteq> ts_paramcnt s
      then Inl (RuntimeError ''number of parameters in subroutine call does not match'')
      else rbind (tr_emit [(Co_ALWAYS, Op_SUB_FRAME_CLOSE, 0), (Co_ALWAYS, Op_GOTO, cs_address called)] t) (\<lambda>t.
        Inr (count_command (tr_pop t)))) = Inr t'"
    unfolding end_DO_subroutine_def by (auto simp: rbind_eq_Inr_iff [of "tr_expect _ _ _"] rbind_eq_Inr_iff [of "at_or _ _ _"])
  then obtain t1 where t1: "tr_emit [(Co_ALWAYS, Op_SUB_FRAME_CLOSE, 0), (Co_ALWAYS, Op_GOTO, cs_address called)] t = Inr t1"
    "t' = count_command (tr_pop t1)"
    by (auto simp: rbind_eq_Inr_iff split: if_splits)
  obtain ws where ws: "encodes [(Co_ALWAYS, Op_SUB_FRAME_CLOSE, 0), (Co_ALWAYS, Op_GOTO, cs_address called)] ws"
    "t1 = t\<lparr>tr_main := (tr_main t)\<lparr>p_code := p_code (tr_main t) @ ws\<rparr>\<rparr>"
    using t1(1) by (rule tr_emit_encodes)
  then have "jumps_ok (length (p_code (tr_main t))) ws" by (auto simp: jumps_ok_def dest!: instruction_decode)
  with ws(2) t1(2) assms(1) show ?thesis by (auto simp: appends_def in_call_def count_command_def tr_pop_def)
qed

section \<open>Compiled loops\<close>

text \<open>With room for the code and arguments in range the instructions are emitted.\<close>

lemma tr_emit_ok:
  assumes "\<forall>(cc, opc, arg) \<in> set is. opc \<in> set opcodes \<and> arg \<le> Max_ArgumentIndex"
    and "length (p_code (tr_main t)) + length is < Max_ArgumentIndex"
  obtains ws where "map decode ws = is" and "tr_emit is t = Inr (t\<lparr>tr_main := (tr_main t)\<lparr>p_code := p_code (tr_main t) @ ws\<rparr>\<rparr>)"
  using emit_all_ok [OF assms] by (auto simp: tr_emit_def)

text \<open>The operation that opens the iterator of a loop.\<close>

definition iterator_opcode :: "string \<Rightarrow> translator \<Rightarrow> opcode" where
  "iterator_opcode sel t =
    (if nt_getIndex sel (p_resultnametab (tr_main t)) \<noteq> 0 then Op_OPEN_ITER_KEPT_RESULT
     else if iequals sel ''RESULT'' then Op_OPEN_ITER_LAST_RESULT else Op_OPEN_ITER_PATH)"

lemma iterator_opcode_cases:
  "iterator_opcode sel t \<in> {Op_OPEN_ITER_KEPT_RESULT, Op_OPEN_ITER_LAST_RESULT, Op_OPEN_ITER_PATH}"
  by (simp add: iterator_opcode_def)

lemma begin_FOREACH_effect:
  assumes "begin_FOREACH sel t = Inr t'"
  obtains arg w p where "decode w = (Co_ALWAYS, iterator_opcode sel t, arg)"
    and "instruction Co_NOT_IF_COND Op_GOTO 0 = Inr p" and "p_code (tr_main t') = p_code (tr_main t) @ [w, p]"
    and "tr_stateStack t' = tdl_state_new OpenForeach (length (p_code (tr_main t)) + 2) # tr_stateStack t"
proof -
  let ?opc = "iterator_opcode sel t"
  obtain t0 t1 arg where t1: "tr_emit [(Co_ALWAYS, ?opc, arg), (Co_NOT_IF_COND, Op_GOTO, 0)] t0 = Inr t1"
    and t0: "p_code (tr_main t0) = p_code (tr_main t)" "tr_stateStack t0 = tr_stateStack t"
    and t': "t' = tr_push OpenForeach (length (p_code (tr_main t1))) t1"
    using assms
    by (auto simp: begin_FOREACH_def Let_def rbind_eq_Inr_iff iterator_opcode_def split: if_splits
        dest!: tr_names_effect(3))
  from t1 obtain ws where ws: "encodes [(Co_ALWAYS, ?opc, arg), (Co_NOT_IF_COND, Op_GOTO, 0)] ws"
    "t1 = t0\<lparr>tr_main := (tr_main t0)\<lparr>p_code := p_code (tr_main t0) @ ws\<rparr>\<rparr>"
    by (rule tr_emit_encodes)
  moreover have "?opc \<in> set opcodes" using iterator_opcode_cases [of sel t] by auto
  ultimately show ?thesis
    using that t0 t' instruction_decode [of Co_ALWAYS ?opc "of_nat arg"] by (auto simp: tr_push_def)
qed

text \<open>The end of a loop replaces the placeholder of the jump over the loop.\<close>

lemma end_FOREACH_effect:
  assumes "end_FOREACH t = Inr t'" and "tr_stateStack t = tdl_state_new OpenForeach (n + 2) # st"
    and "p_code (tr_main t) = c @ [w, p] @ body" and "length c = n"
  obtains jump nxt again where "decode jump = (Co_NOT_IF_COND, Op_GOTO, n + length body + 4)"
    and "decode nxt = (Co_ALWAYS, Op_NEXT, 0)" and "decode again = (Co_IF_COND, Op_GOTO, n + 2)"
    and "p_code (tr_main t') = c @ [w, jump] @ body @ [nxt, again]" and "tr_stateStack t' = st"
    and "length (p_code (tr_main t')) < 2 ^ 20"
proof -
  obtain t1 where t1: "tr_emit [(Co_ALWAYS, Op_NEXT, 0), (Co_IF_COND, Op_GOTO, n + 2)] t = Inr t1"
    and t': "\<exists>jump. instruction Co_NOT_IF_COND Op_GOTO (of_nat (length (p_code (tr_main t1)))) = Inr jump
      \<and> t' = tr_pop (t1\<lparr>tr_main := (tr_main t1)\<lparr>p_code := (p_code (tr_main t1))[n + 1 := jump]\<rparr>\<rparr>)"
    using assms(1,2) by (auto simp: end_FOREACH_def Let_def rbind_eq_Inr_iff tr_expect_Inr tdl_state_new_def split: if_splits)
  from t1 obtain ws where ws: "encodes [(Co_ALWAYS, Op_NEXT, 0), (Co_IF_COND, Op_GOTO, n + 2)] ws"
    "t1 = t\<lparr>tr_main := (tr_main t)\<lparr>p_code := p_code (tr_main t) @ ws\<rparr>\<rparr>"
    by (rule tr_emit_encodes)
  from t' obtain jump where jump: "instruction Co_NOT_IF_COND Op_GOTO (of_nat (n + length body + 4)) = Inr jump"
    "t' = tr_pop (t1\<lparr>tr_main := (tr_main t1)\<lparr>p_code := (p_code (tr_main t1))[n + 1 := jump]\<rparr>\<rparr>)"
    using ws encodes_length [OF ws(1)] assms(3,4) by (auto simp: algebra_simps)
  have upd: "(c @ [w, p] @ r)[n + 1 := jump] = c @ [w, jump] @ r" for r
    using assms(4) by (simp add: list_update_append)
  have bound: "n + length body + 4 < 2 ^ 20"
    using tr_emit_bound [OF t1] ws encodes_length [OF ws(1)] assms(3,4) by simp
  obtain nxt again where vs: "ws = [nxt, again]" "instruction Co_ALWAYS Op_NEXT (of_nat 0) = Inr nxt"
    "instruction Co_IF_COND Op_GOTO (of_nat (n + 2)) = Inr again"
    using ws(1) by auto
  have "decode jump = (Co_NOT_IF_COND, Op_GOTO, n + length body + 4)" "decode nxt = (Co_ALWAYS, Op_NEXT, 0)"
    "decode again = (Co_IF_COND, Op_GOTO, n + 2)"
    using instruction_decode_nat [OF jump(1)] instruction_decode_nat [OF vs(2)] instruction_decode_nat [OF vs(3)]
      bound by simp_all
  from that [OF this] show ?thesis
    using ws vs(1) jump(2) assms(2-4) upd bound by (auto simp: tr_pop_def)
qed

lemma begin_FOREACH_result_ok:
  assumes "iequals sel ''RESULT''" and "nt_getIndex sel (p_resultnametab (tr_main t)) = 0"
    and "length (p_code (tr_main t)) + 2 < Max_ArgumentIndex"
  shows "\<exists>t'. begin_FOREACH sel t = Inr t'"
  using assms tr_emit_ok [of "[(Co_ALWAYS, Op_OPEN_ITER_LAST_RESULT, 0), (Co_NOT_IF_COND, Op_GOTO, 0)]" t]
  by (fastforce simp: begin_FOREACH_def)

lemma end_FOREACH_ok:
  assumes "tr_stateStack t = tdl_state_new OpenForeach (n + 2) # st" and "p_code (tr_main t) = c @ [w, p] @ body"
    and "length c = n" and "instruction Co_NOT_IF_COND Op_GOTO 0 = Inr p" and "n + length body + 4 < Max_ArgumentIndex"
  shows "\<exists>t'. end_FOREACH t = Inr t'"
proof -
  obtain ws where ws: "map decode ws = [(Co_ALWAYS, Op_NEXT, 0), (Co_IF_COND, Op_GOTO, n + 2)]"
    "tr_emit [(Co_ALWAYS, Op_NEXT, 0), (Co_IF_COND, Op_GOTO, n + 2)] t
      = Inr (t\<lparr>tr_main := (tr_main t)\<lparr>p_code := p_code (tr_main t) @ ws\<rparr>\<rparr>)"
    by (rule tr_emit_ok [of "[(Co_ALWAYS, Op_NEXT, 0), (Co_IF_COND, Op_GOTO, n + 2)]" t]) (use assms in auto)
  have len: "length ws = 2" using arg_cong [OF ws(1), of length] by simp
  obtain jump where jump: "instruction Co_NOT_IF_COND Op_GOTO (of_nat (n + length body + 4)) = Inr jump"
    using emit_instruction [of Op_GOTO "n + length body + 4" Co_NOT_IF_COND] assms(5) by auto
  have "(c @ [w, p] @ body @ ws) ! (n + 1) = p" using assms(3) by (simp add: nth_append)
  then show ?thesis
    using assms(1-4) ws(2) jump len
    by (auto simp: end_FOREACH_def tr_expect_def tdl_state_new_def Let_def add.commute add.left_commute)
qed

text \<open>A whole loop: the code of the body stands between the instruction that opens the iterator with
  the jump over the loop and the step of the iterator with the jump back.\<close>

lemma foreach_code:
  assumes "begin_FOREACH sel t = Inr t1" and "p_code (tr_main t2) = p_code (tr_main t1) @ body"
    and "tr_stateStack t2 = tr_stateStack t1" and "end_FOREACH t2 = Inr t3"
  defines "n \<equiv> length (p_code (tr_main t))"
  obtains arg us vs where "map decode us = [(Co_ALWAYS, iterator_opcode sel t, arg), (Co_NOT_IF_COND, Op_GOTO, n + length body + 4)]"
    and "map decode vs = [(Co_ALWAYS, Op_NEXT, 0), (Co_IF_COND, Op_GOTO, n + 2)]"
    and "p_code (tr_main t3) = p_code (tr_main t) @ us @ body @ vs" and "tr_stateStack t3 = tr_stateStack t"
proof -
  obtain arg w p where b: "decode w = (Co_ALWAYS, iterator_opcode sel t, arg)"
    "p_code (tr_main t1) = p_code (tr_main t) @ [w, p]"
    "tr_stateStack t1 = tdl_state_new OpenForeach (n + 2) # tr_stateStack t"
    using begin_FOREACH_effect [OF assms(1)] n_def by metis
  have st: "tr_stateStack t2 = tdl_state_new OpenForeach (n + 2) # tr_stateStack t"
    and code: "p_code (tr_main t2) = p_code (tr_main t) @ [w, p] @ body"
    using b(2,3) assms(2,3) by simp_all
  obtain jump nxt again where e: "decode jump = (Co_NOT_IF_COND, Op_GOTO, n + length body + 4)"
    "decode nxt = (Co_ALWAYS, Op_NEXT, 0)" "decode again = (Co_IF_COND, Op_GOTO, n + 2)"
    "p_code (tr_main t3) = p_code (tr_main t) @ [w, jump] @ body @ [nxt, again]" "tr_stateStack t3 = tr_stateStack t"
    using end_FOREACH_effect [OF assms(4) st code] n_def by metis
  show ?thesis
    using that [of "[w, jump]" arg "[nxt, again]"] b(1) e by simp
qed

lemma foreach_effect:
  assumes "begin_FOREACH sel t = Inr t1" and "appends t1 t2" and "tr_stateStack t2 = tr_stateStack t1"
    and "end_FOREACH t2 = Inr t3"
  shows "appends t t3 \<and> tr_stateStack t3 = tr_stateStack t"
proof -
  let ?n = "length (p_code (tr_main t))"
  obtain body where body: "p_code (tr_main t2) = p_code (tr_main t1) @ body" "jumps_ok (length (p_code (tr_main t1))) body"
    using assms(2) by (auto simp: appends_def)
  obtain arg us vs where c: "map decode us = [(Co_ALWAYS, iterator_opcode sel t, arg), (Co_NOT_IF_COND, Op_GOTO, ?n + length body + 4)]"
    "map decode vs = [(Co_ALWAYS, Op_NEXT, 0), (Co_IF_COND, Op_GOTO, ?n + 2)]"
    "p_code (tr_main t3) = p_code (tr_main t) @ us @ body @ vs" "tr_stateStack t3 = tr_stateStack t"
    using foreach_code [OF assms(1) body(1) assms(3,4)] by metis
  have len: "length us = 2" "length vs = 2" using arg_cong [OF c(1), of length] arg_cong [OF c(2), of length] by simp_all
  have n1: "length (p_code (tr_main t1)) = ?n + 2" using begin_FOREACH_effect [OF assms(1)] by fastforce
  have "local_jumps ?n (?n + length (us @ body @ vs)) Op_NOP (map decode us @ map decode body @ map decode vs)"
  proof (intro local_jumps_append)
    show "local_jumps ?n (?n + length (us @ body @ vs)) Op_NOP (map decode body)"
      using body(2) n1 len unfolding jumps_ok_def by (auto elim!: local_jumps_mono)
  qed (use c(1,2) len iterator_opcode_cases [of sel t] in auto)
  with c(3,4) show ?thesis by (simp add: appends_def jumps_ok_def)
qed

text \<open>The loop of a command, if it has a selector.\<close>

lemma loop_effect:
  assumes "tr_when b (begin_FOREACH sel) t = Inr t1" and "appends t1 t2" and "tr_stateStack t2 = tr_stateStack t1"
    and "tr_when b end_FOREACH t2 = Inr t3"
  shows "appends t t3 \<and> tr_stateStack t3 = tr_stateStack t"
  using assms foreach_effect [of sel t t1 t2 t3] by (auto simp: tr_when_def split: if_splits)

section \<open>Compiled commands\<close>

lemma statement_body_effect:
  assumes "begin_DO_statement stm t = Inr t1" and "addHints hs t1 = Inr t2"
    and "addArguments sel ps t2 = Inr t3" and "end_DO_statement t3 = Inr t4"
  shows "appends t t4 \<and> tr_stateStack t4 = tr_stateStack t"
proof -
  let ?n = "length (p_statements (tr_main t))"
  have 1: "appends t t1" "in_call OpenStatementCall ?n (tr_stateStack t) t1"
    using begin_statement_effect [OF assms(1)] by simp_all
  have 2: "appends t1 t2" "in_call OpenStatementCall ?n (tr_stateStack t) t2"
    using addHints_effect [OF 1(2) assms(2)] by simp_all
  have 3: "appends t2 t3" "in_call OpenStatementCall ?n (tr_stateStack t) t3"
    using addArguments_effect [OF 2(2) assms(3)] by simp_all
  from end_statement_effect [OF 3(2) assms(4)] 1(1) 2(1) 3(1) show ?thesis
    by (blast intro: appends_trans)
qed

lemma call_body_effect:
  assumes "begin_DO_subroutine name vals s t = Inr t1" and "addArguments sel ps t1 = Inr t2"
    and "end_DO_subroutine t2 = Inr t3"
  shows "appends t t3 \<and> tr_stateStack t3 = tr_stateStack t"
proof -
  obtain i where 1: "appends t t1" "in_call OpenSubroutineCall i (tr_stateStack t) t1"
    using begin_subroutine_effect [OF assms(1)] by blast
  have 2: "appends t1 t2" "in_call OpenSubroutineCall i (tr_stateStack t) t2"
    using addArguments_effect [OF 1(2) assms(2)] by simp_all
  from end_subroutine_effect [OF 2(2) assms(3)] 1(1) 2(1) show ?thesis
    by (blast intro: appends_trans)
qed

text \<open>A block that opens one state, keeps it and closes it.\<close>

lemma block_effect:
  assumes "opens i v t t1" and "appends t1 t2" and "tr_stateStack t2 = tr_stateStack t1" and "closes t2 t3"
  shows "appends t t3 \<and> tr_stateStack t3 = tr_stateStack t"
  using assms by (auto simp: opens_def closes_def intro: appends_trans)

lemma addResultOutput_effect:
  assumes "addResultOutput cmd t = Inr t'"
  shows "appends t t' \<and> tr_stateStack t' = tr_stateStack t"
  using assms
  by (auto simp: addResultOutput_def Let_def rbind_eq_Inr_iff split: if_splits
      dest!: into_effects(1,2,3) begin_loop_INTO_effect output_result_effect dest: block_effect)

lemma addEmbedded_effect:
  assumes "addEmbedded cmd t = Inr t'"
  shows "appends t t' \<and> tr_stateStack t' = tr_stateStack t"
proof -
  obtain t1 t2 t3 t4 t5 t6 where s: "tr_when (cd_selector cmd \<noteq> []) (begin_FOREACH (cd_selector cmd)) t = Inr t1"
    "begin_DO_statement (es_stmstring (cd_statement cmd)) t1 = Inr t2" "addHints (cd_hints cmd) t2 = Inr t3"
    "addArguments (cd_selector cmd) (es_params (cd_statement cmd)) t3 = Inr t4" "end_DO_statement t4 = Inr t5"
    "tr_when (cd_selector cmd \<noteq> []) end_FOREACH t5 = Inr t6" "addResultOutput cmd t6 = Inr t'"
    using assms by (auto simp: addEmbedded_def Let_def rbind_eq_Inr_iff)
  have "appends t t6 \<and> tr_stateStack t6 = tr_stateStack t"
    using loop_effect [OF s(1) _ _ s(6)] statement_body_effect [OF s(2-5)] by blast
  with addResultOutput_effect [OF s(7)] show ?thesis by (auto intro: appends_trans)
qed

lemma into_block_effect:
  assumes "tr_when b (if loop then begin_loop_INTO_block path else begin_INTO_block path) t = Inr t1"
    and "appends t1 t2" and "tr_stateStack t2 = tr_stateStack t1"
    and "tr_when b (if loop then end_loop_INTO_block else end_INTO_block) t2 = Inr t3"
  shows "appends t t3 \<and> tr_stateStack t3 = tr_stateStack t"
  using assms
  by (auto simp: tr_when_def split: if_splits
      dest!: into_effects(1,2,3) begin_loop_INTO_effect dest: block_effect)

lemma element_effect:
  assumes "tr_when b begin_loop_element t = Inr t1" and "appends t1 t2" and "tr_stateStack t2 = tr_stateStack t1"
    and "tr_when b end_loop_element t2 = Inr t3"
  shows "appends t t3 \<and> tr_stateStack t3 = tr_stateStack t"
  using assms by (auto simp: tr_when_def split: if_splits dest!: into_effects(4,5) dest: block_effect)

lemma addCall_effect:
  assumes "addCall cmd t = Inr t'"
  shows "appends t t' \<and> tr_stateStack t' = tr_stateStack t"
proof -
  let ?loop = "cd_selector cmd \<noteq> []" and ?path = "cd_resultpath cmd"
  let ?into = "?path \<noteq> [] \<and> ?path \<noteq> [''.'']"
  obtain t1 t2 t3 t4 t5 t6 t7 t8 sel where s:
    "tr_when ?into (if ?loop then begin_loop_INTO_block ?path else begin_INTO_block ?path) t = Inr t1"
    "tr_when ?loop (begin_FOREACH (cd_selector cmd)) t1 = Inr t2" "tr_when (?into \<and> ?loop) begin_loop_element t2 = Inr t3"
    "begin_DO_subroutine (sc_name (cd_call cmd)) (sc_templateparams (cd_call cmd)) sel t3 = Inr t4"
    "addArguments (cd_selector cmd) (sc_params (cd_call cmd)) t4 = Inr t5" "end_DO_subroutine t5 = Inr t6"
    "tr_when (?into \<and> ?loop) end_loop_element t6 = Inr t7" "tr_when ?loop end_FOREACH t7 = Inr t8"
    "tr_when ?into (if ?loop then end_loop_INTO_block else end_INTO_block) t8 = Inr t'"
    using assms unfolding addCall_def Let_def rbind_eq_Inr_iff by metis
  have "appends t2 t7 \<and> tr_stateStack t7 = tr_stateStack t2"
    using element_effect [OF s(3) _ _ s(7)] call_body_effect [OF s(4-6)] by blast
  then have "appends t1 t8 \<and> tr_stateStack t8 = tr_stateStack t1"
    using loop_effect [OF s(2) _ _ s(8)] by blast
  then show ?thesis using into_block_effect [OF s(1) _ _ s(9)] by blast
qed

lemma command_effect:
  assumes "programAddCommandDefinition cmd t = Inr t'"
  shows "appends t t' \<and> tr_stateStack t' = tr_stateStack t"
proof -
  obtain t1 t2 t3 where s: "init_resultset t = Inr t1" "tr_when (cd_nonempty cmd) define_resultset_nonempty t1 = Inr t2"
    "tr_when (cd_unique cmd) define_resultset_unique t2 = Inr t3"
    "(if cd_embedded cmd then addEmbedded cmd t3 else addCall cmd t3) = Inr t'"
    using assms by (auto simp: programAddCommandDefinition_def rbind_eq_Inr_iff)
  have "appends t t2 \<and> tr_stateStack t2 = tr_stateStack t"
    using resultset_effects(1) [OF s(1)] s(2) resultset_effects(3)
    by (auto simp: tr_when_def split: if_splits intro: appends_trans)
  then have "appends t t3 \<and> tr_stateStack t3 = tr_stateStack t"
    using s(3) resultset_effects(2)
    by (auto simp: tr_when_def split: if_splits intro: appends_trans)
  moreover have "appends t3 t' \<and> tr_stateStack t' = tr_stateStack t3"
    using s(4) addEmbedded_effect addCall_effect by (auto split: if_splits)
  ultimately show ?thesis by (auto intro: appends_trans)
qed

end
