(* ===== verification/Loop_Execution.thy ===== *)
theory Loop_Execution
  imports Command_Compiler VM_Properties
begin

text \<open>
  What the loops that \<open>Tdl_Translator\<close> generates do on the virtual machine: the rule for the code of
  a FOREACH loop, with any body that leaves the iterator as it found it, and the code that prints a
  result.
\<close>

section \<open>The rule for FOREACH\<close>

text \<open>The end of a loop at address \<open>n\<close> around a body of \<open>len\<close> instructions. The instructions of
  the body may be replaced while they are executed, the ones of the loop are not.\<close>

definition loop_end :: "nat \<Rightarrow> nat \<Rightarrow> program_code \<Rightarrow> bool" where
  "loop_end n len c = code_at c (n + 2 + len) [(Co_ALWAYS, Op_NEXT, 0), (Co_IF_COND, Op_GOTO, n + 2)]"

text \<open>The machine is at row \<open>k\<close> of the tuple set \<open>s\<close> with the address \<open>a\<close>.\<close>

definition at_row :: "nat \<Rightarrow> value_tuple_set \<Rightarrow> nat \<Rightarrow> 'db program_instance \<Rightarrow> bool" where
  "at_row a s k p \<longleftrightarrow>
    a < length (m_heap p) \<and> m_heap p ! a = s \<and> m_stack p \<noteq> []
    \<and> m_valueSet (hd (m_stack p)) = Some a
    \<and> m_valueIter (hd (m_stack p)) = \<lparr>it_idx = vts_pos s k, it_ref = Some a\<rparr>
    \<and> m_valueEnd (hd (m_stack p)) = \<lparr>it_idx = iter_end s, it_ref = Some a\<rparr>"

text \<open>One turn of the body from row \<open>k\<close>, which establishes the state \<open>I (Suc k)\<close> from \<open>I k\<close>.\<close>

definition body_turn ::
  "'db exec_ops \<Rightarrow> nat \<Rightarrow> nat \<Rightarrow> nat \<Rightarrow> value_tuple_set \<Rightarrow> (nat \<Rightarrow> 'db program_instance \<Rightarrow> bool) \<Rightarrow> nat \<Rightarrow> bool" where
  "body_turn ops n len a s I k \<longleftrightarrow>
    (\<forall>p. m_ip p = n + 2 \<and> loop_end n len (code (m_program p)) \<and> at_row a s k p \<and> I k p \<longrightarrow>
      (\<exists>q. vm_reach ops p q \<and> m_ip q = n + 2 + len \<and> loop_end n len (code (m_program q))
         \<and> at_row a s k q \<and> I (Suc k) q))"

text \<open>The state \<open>I k\<close> does not depend on what the loop itself changes.\<close>

definition loop_independent :: "(nat \<Rightarrow> 'db program_instance \<Rightarrow> bool) \<Rightarrow> bool" where
  "loop_independent I \<longleftrightarrow> (\<forall>k p i c frm st v it ie. m_stack p = frm # st \<longrightarrow> I k p \<longrightarrow>
     I k (p\<lparr>m_ip := i, m_cond := c, m_stack := frm\<lparr>m_valueSet := v, m_valueIter := it, m_valueEnd := ie\<rparr> # st\<rparr>))"

lemma loop_independentD:
  assumes "loop_independent I" and "I k p" and "m_stack p = frm # st"
  shows "I k (p\<lparr>m_ip := i, m_cond := c, m_stack := frm\<lparr>m_valueSet := v, m_valueIter := it, m_valueEnd := ie\<rparr> # st\<rparr>)"
  using assms by (simp add: loop_independent_def)

lemma next_row:
  assumes "m_ip p = n + 2 + len" and "loop_end n len (code (m_program p))" and "at_row a s k p"
    and wf: "vts_wf s" and k: "k < length (vts_rows s)" and "loop_independent I" and "I (Suc k) p"
  defines "again \<equiv> Suc k \<noteq> length (vts_rows s)"
  shows "\<exists>q. vm_reach ops p q \<and> m_ip q = (if again then n + 2 else n + len + 4)
    \<and> loop_end n len (code (m_program q)) \<and> at_row a s (Suc k) q \<and> I (Suc k) q"
proof -
  obtain frm st where st: "m_stack p = frm # st" using assms(3) by (cases "m_stack p") (auto simp: at_row_def)
  let ?c = "code (m_program p)"
  have at: "code_at ?c (n + 2 + len) [(Co_ALWAYS, Op_NEXT, 0)]" "code_at ?c (n + 3 + len) [(Co_IF_COND, Op_GOTO, n + 2)]"
    and le: "n + 2 \<le> length ?c"
    using assms(2) by (auto simp: loop_end_def code_at_Cons eval_nat_numeral)
  have adv: "iter_next s (vts_pos s k) = vts_pos s (Suc k)" by (rule vts.advance_pos [OF wf])
  have fin: "vts_pos s (Suc k) = iter_end s \<longleftrightarrow> \<not> again"
    using vts.advance_is_past [OF wf k] adv by (simp add: again_def)
  have here: "vts_pos s k \<noteq> iter_end s" by (rule vts.row_not_past [OF wf k])
  let ?it = "\<lparr>it_idx = vts_pos s (Suc k), it_ref = Some a\<rparr>"
  let ?p1 = "p\<lparr>m_ip := n + 3 + len, m_cond := again, m_stack := frm\<lparr>m_valueIter := ?it\<rparr> # st\<rparr>"
  let ?p2 = "p\<lparr>m_ip := if again then n + 2 else n + len + 4, m_cond := again, m_stack := frm\<lparr>m_valueIter := ?it\<rparr> # st\<rparr>"
  have "step ops p = Some (Next ?p1)"
    using assms(1,3) at(1) here fin adv st
    by (simp add: at_row_def step_decoded vm_eval exec_control_def exec_output_def exec_assign_def exec_iter_def
        iter_target_def vm_deref_def Let_def)
  moreover have "step ops ?p1 = Some (Next ?p2)"
    using at(2) le by (simp add: step_decoded vm_eval exec_control_def)
  ultimately have "vm_reach ops p ?p2" by (blast intro: vm_reach_step vm_reach.start)
  moreover have "I (Suc k) ?p2"
    using loop_independentD [where c = again and v = "m_valueSet frm" and it = ?it and ie = "m_valueEnd frm",
        OF assms(6,7) st] by simp
  ultimately show ?thesis
    using assms(2,3) st by (intro exI [of _ ?p2]) (auto simp: at_row_def)
qed

lemma loop_turns:
  assumes "\<forall>k < length (vts_rows s). body_turn ops n len a s I k" and wf: "vts_wf s" and "loop_independent I"
  shows "k < length (vts_rows s) \<Longrightarrow> m_ip p = n + 2 \<Longrightarrow> loop_end n len (code (m_program p)) \<Longrightarrow>
    at_row a s k p \<Longrightarrow> I k p \<Longrightarrow>
    \<exists>q. vm_reach ops p q \<and> m_ip q = n + len + 4 \<and> I (length (vts_rows s)) q"
proof (induction "length (vts_rows s) - k" arbitrary: k p)
  case (Suc d)
  obtain q where q: "vm_reach ops p q" "m_ip q = n + 2 + len" "loop_end n len (code (m_program q))"
    "at_row a s k q" "I (Suc k) q"
    using assms(1) Suc.prems unfolding body_turn_def by blast
  obtain r where r: "vm_reach ops q r" "m_ip r = (if Suc k \<noteq> length (vts_rows s) then n + 2 else n + len + 4)"
    "loop_end n len (code (m_program r))" "at_row a s (Suc k) r" "I (Suc k) r"
    using next_row [OF q(2-4) wf Suc.prems(1) assms(3) q(5)] by blast
  have pr: "vm_reach ops p r" using q(1) r(1) by (blast intro: vm_reach_trans)
  show ?case
  proof (cases "Suc k = length (vts_rows s)")
    case True
    with pr r(2,5) show ?thesis by auto
  next
    case False
    then have "\<exists>q. vm_reach ops r q \<and> m_ip q = n + len + 4 \<and> I (length (vts_rows s)) q"
      using Suc.hyps(1) [of "Suc k" r] Suc.hyps(2) Suc.prems(1) r by simp
    with pr show ?thesis by (blast intro: vm_reach_trans)
  qed
qed simp

text \<open>The loop is entered at its first row, or left at once when the set has none.\<close>

lemma enter_loop:
  assumes "step ops p = Some (Next (p\<lparr>m_ip := n + 1, m_cond := (vts_rows s \<noteq> []),
      m_stack := frm\<lparr>m_valueSet := Some a, m_valueIter := \<lparr>it_idx = iter_begin s, it_ref = Some a\<rparr>,
        m_valueEnd := \<lparr>it_idx = iter_end s, it_ref = Some a\<rparr>\<rparr> # st\<rparr>))"
    and "code_at (code (m_program p)) (n + 1) [(Co_NOT_IF_COND, Op_GOTO, e)]" and "e \<le> length (code (m_program p))"
    and st: "m_stack p = frm # st" and "a < length (m_heap p)" and "m_heap p ! a = s"
    and wf: "vts_wf s" and "loop_independent I" and "I 0 p"
  shows "\<exists>q. vm_reach ops p q \<and> m_ip q = (if vts_rows s = [] then e else n + 2) \<and> m_program q = m_program p
    \<and> at_row a s 0 q \<and> I 0 q"
proof -
  let ?bg = "\<lparr>it_idx = iter_begin s, it_ref = Some a\<rparr>" and ?ed = "\<lparr>it_idx = iter_end s, it_ref = Some a\<rparr>"
  let ?stack = "frm\<lparr>m_valueSet := Some a, m_valueIter := ?bg, m_valueEnd := ?ed\<rparr> # st"
  let ?some = "vts_rows s \<noteq> []"
  let ?p1 = "p\<lparr>m_ip := n + 1, m_cond := ?some, m_stack := ?stack\<rparr>"
  let ?p2 = "p\<lparr>m_ip := if ?some then n + 2 else e, m_cond := ?some, m_stack := ?stack\<rparr>"
  have "step ops ?p1 = Some (Next ?p2)"
    using assms(2,3) by (simp add: step_decoded vm_eval exec_control_def)
  with assms(1) have "vm_reach ops p ?p2" by (blast intro: vm_reach_step vm_reach.start)
  moreover have "I 0 ?p2" by (rule loop_independentD [OF assms(8,9) st])
  moreover have "iter_begin s = vts_pos s 0" using vts.first_pos [OF wf] by simp
  ultimately show ?thesis
    using assms(5,6) by (intro exI [of _ ?p2]) (auto simp: at_row_def)
qed

lemma enter_result_loop:
  assumes "code_at (code (m_program p)) n [(Co_ALWAYS, Op_OPEN_ITER_LAST_RESULT, arg), (Co_NOT_IF_COND, Op_GOTO, e)]"
    and "e \<le> length (code (m_program p))" and "m_ip p = n"
    and "m_stack p = frm # st" and "m_lastResult frm = Some a" and "a < length (m_heap p)" and "m_heap p ! a = s"
    and "vts_wf s" and "loop_independent I" and "I 0 p"
  shows "\<exists>q. vm_reach ops p q \<and> m_ip q = (if vts_rows s = [] then e else n + 2) \<and> m_program q = m_program p
    \<and> at_row a s 0 q \<and> I 0 q"
proof (rule enter_loop [OF _ _ assms(2,4,6-10)])
  show "code_at (code (m_program p)) (n + 1) [(Co_NOT_IF_COND, Op_GOTO, e)]"
    using assms(1) by (simp add: code_at_Cons)
  have "code_at (code (m_program p)) n [(Co_ALWAYS, Op_OPEN_ITER_LAST_RESULT, arg)]"
    using assms(1) by (simp add: code_at_Cons)
  moreover have "iter_begin s \<noteq> iter_end s \<longleftrightarrow> vts_rows s \<noteq> []" using vts.first_is_past [OF assms(8)] by simp
  ultimately show "step ops p = Some (Next (p\<lparr>m_ip := n + 1, m_cond := (vts_rows s \<noteq> []),
      m_stack := frm\<lparr>m_valueSet := Some a, m_valueIter := \<lparr>it_idx = iter_begin s, it_ref = Some a\<rparr>,
        m_valueEnd := \<lparr>it_idx = iter_end s, it_ref = Some a\<rparr>\<rparr> # st\<rparr>))"
    using assms(3-7)
    by (simp add: step_decoded vm_eval exec_control_def exec_output_def exec_assign_def exec_iter_def
        initValueIteraror_def vm_deref_def Let_def)
qed

text \<open>C21: the code that \<^verbatim>\<open>begin_FOREACH\<close> and \<^verbatim>\<open>end_FOREACH\<close> generate for a loop over the last
  result is a loop over its rows: started in a state \<open>I 0\<close>, the machine executes the body once for each row,
  in order and with the iterator at this row, and ends behind the loop in the state \<open>I\<close> of the number of rows,
  provided that every turn of the body takes \<open>I k\<close> to \<open>I (Suc k)\<close>, keeps the iterator and ends behind the body.
  With no row the body is not executed at all.\<close>
theorem foreach_result_visits_rows:
  fixes I :: "nat \<Rightarrow> 'db program_instance \<Rightarrow> bool"
  assumes "begin_FOREACH sel t = Inr t1" and "p_code (tr_main t2) = p_code (tr_main t1) @ body"
    and "tr_stateStack t2 = tr_stateStack t1" and "end_FOREACH t2 = Inr t3"
    and "iequals sel ''RESULT''" and "nt_getIndex sel (p_resultnametab (tr_main t)) = 0"
    and "code (m_program p) = p_code (tr_main t3) @ rest" and "m_ip p = length (p_code (tr_main t))"
    and "m_stack p = frm # st" and "m_lastResult frm = Some a" and "a < length (m_heap p)"
    and "m_heap p ! a = s" and "vts_wf s" and "loop_independent I" and "I 0 p"
    and "\<forall>k < length (vts_rows s). body_turn ops (length (p_code (tr_main t))) (length body) a s I k"
  shows "\<exists>q. vm_reach ops p q \<and> m_ip q = length (p_code (tr_main t3)) \<and> I (length (vts_rows s)) q"
proof -
  let ?n = "length (p_code (tr_main t))"
  obtain arg us vs where c: "map decode us = [(Co_ALWAYS, iterator_opcode sel t, arg), (Co_NOT_IF_COND, Op_GOTO, ?n + length body + 4)]"
    "map decode vs = [(Co_ALWAYS, Op_NEXT, 0), (Co_IF_COND, Op_GOTO, ?n + 2)]"
    "p_code (tr_main t3) = p_code (tr_main t) @ us @ body @ vs"
    using foreach_code [OF assms(1-4)] by metis
  have len: "length us = 2" "length vs = 2" using arg_cong [OF c(1), of length] arg_cong [OF c(2), of length] by simp_all
  have opc: "iterator_opcode sel t = Op_OPEN_ITER_LAST_RESULT" using assms(5,6) by (simp add: iterator_opcode_def)
  have start: "code_at (code (m_program p)) ?n [(Co_ALWAYS, Op_OPEN_ITER_LAST_RESULT, arg), (Co_NOT_IF_COND, Op_GOTO, ?n + length body + 4)]"
    using c(1,3) assms(7) opc code_at_weaken [OF code_at_end [OF c(1), of "p_code (tr_main t)"]] by simp
  have fin: "loop_end ?n (length body) (code (m_program p))"
    using c(2,3) assms(7) len code_at_weaken [OF code_at_end [OF c(2), of "p_code (tr_main t) @ us @ body"]]
    by (simp add: loop_end_def add.assoc)
  have e: "length (p_code (tr_main t3)) = ?n + length body + 4" using c(3) len by simp
  obtain q where q: "vm_reach ops p q" "m_ip q = (if vts_rows s = [] then ?n + length body + 4 else ?n + 2)"
    "m_program q = m_program p" "at_row a s 0 q" "I 0 q"
    using enter_result_loop [OF start _ assms(8-15)] assms(7) e by fastforce
  show ?thesis
  proof (cases "vts_rows s = []")
    case True
    with q e show ?thesis by auto
  next
    case False
    then have "\<exists>r. vm_reach ops q r \<and> m_ip r = ?n + length body + 4 \<and> I (length (vts_rows s)) r"
      using loop_turns [OF assms(16,13,14), of 0 q] q fin by simp
    with q(1) e show ?thesis by (auto intro: vm_reach_trans)
  qed
qed

text \<open>A loop whose body opens an array element, over a result of two rows.\<close>

definition empty_translator :: translator where
  "empty_translator = \<lparr>tr_stateStack = [], tr_subroutinemap = [], tr_calledSubroutines = [],
     tr_sub_program = vm_program_new, tr_main = vm_program_new, tr_isSubroutine = False, tr_nofCommands = 0\<rparr>"

definition example_result :: value_tuple_set where
  "example_result = \<lparr>vts_colnames = [''a''], vts_ar = [V_Int 1, V_Int 2]\<rparr>"

definition example_image :: "program_code \<Rightarrow> program_image" where
  "example_image c = \<lparr>code = c, constants = [], colnames = [], tagnames = [], resultnames = [], statements = [],
     errorhints = [], signatures = [], tuplesets = []\<rparr>"

definition example_state :: "program_code \<Rightarrow> unit program_instance" where
  "example_state c =
    \<lparr>m_program = example_image c, m_db_stm = None, m_ip = 0, m_subroutine_frame = undefined, m_cond = False,
     m_stack = [(stack_element_new 0 None)\<lparr>m_lastResult := Some 0\<rparr>], m_output = [[]], m_lastError = undefined,
     m_heap = [example_result]\<rparr>"

lemma example_result_rows: "vts_rows example_result = [[V_Int 1], [V_Int 2]]" "vts_wf example_result"
  by code_simp+

abbreviation open_elem :: output_element where
  "open_elem \<equiv> out_element Out_OpenArrayElement (V_Int 0)"

definition example_state_at :: "program_code \<Rightarrow> nat \<Rightarrow> unit program_instance \<Rightarrow> bool" where
  "example_state_at c k p \<longleftrightarrow> m_program p = example_image c \<and> m_output p = [replicate k open_elem]"

lemma example_turn:
  assumes "code_at c 2 [(Co_ALWAYS, Op_OUTPUT_OPEN_ELEM, 0)]"
  shows "body_turn ops 0 1 0 example_result (example_state_at c) k"
  unfolding body_turn_def
proof (intro allI impI)
  fix p assume p: "m_ip p = 0 + 2 \<and> loop_end 0 1 (code (m_program p)) \<and> at_row 0 example_result k p \<and> example_state_at c k p"
  let ?q = "p\<lparr>m_ip := 3, m_output := out_append [open_elem] (m_output p)\<rparr>"
  have at: "m_ip p = 2" "code_at (code (m_program p)) (m_ip p) [(Co_ALWAYS, Op_OUTPUT_OPEN_ELEM, 0)]"
    using p assms by (simp_all add: example_state_at_def example_image_def numeral_2_eq_2)
  have "step ops p = Some (Next ?q)"
    using p at(1) step_decoded [OF at(2), of ops]
    by (simp add: example_state_at_def vm_eval exec_control_def exec_output_def vm_output_add_eq)
  then have "vm_reach ops p ?q" by (blast intro: vm_reach_step vm_reach.start)
  with p show "\<exists>q. vm_reach ops p q \<and> m_ip q = 0 + 2 + 1 \<and> loop_end 0 1 (code (m_program q))
      \<and> at_row 0 example_result k q \<and> example_state_at c (Suc k) q"
    by (intro exI [of _ ?q]) (auto simp: at_row_def example_state_at_def out_append_def replicate_append_same)
qed

theorem foreach_result_visits_rows_witness:
  "\<exists>t1 t2 t3. begin_FOREACH ''RESULT'' empty_translator = Inr t1
     \<and> tr_emit [(Co_ALWAYS, Op_OUTPUT_OPEN_ELEM, 0)] t1 = Inr t2 \<and> end_FOREACH t2 = Inr t3
     \<and> (\<forall>ops. \<exists>q. vm_reach ops (example_state (p_code (tr_main t3))) q \<and> m_ip q = length (p_code (tr_main t3))
          \<and> m_output q = [replicate 2 open_elem])"
proof -
  have room: "Max_ArgumentIndex > 10" by (simp add: instruction_layout)
  have empty: "p_code (tr_main empty_translator) = []" by (simp add: empty_translator_def vm_program_new_def)
  have res: "iequals ''RESULT'' ''RESULT''" "nt_getIndex ''RESULT'' (p_resultnametab (tr_main empty_translator)) = 0"
    by code_simp+
  obtain t1 where t1: "begin_FOREACH ''RESULT'' empty_translator = Inr t1"
    using begin_FOREACH_result_ok [OF res] empty room by auto
  obtain arg w p where "decode w = (Co_ALWAYS, iterator_opcode ''RESULT'' empty_translator, arg)"
    and b: "instruction Co_NOT_IF_COND Op_GOTO 0 = Inr p" "p_code (tr_main t1) = p_code (tr_main empty_translator) @ [w, p]"
    "tr_stateStack t1 = tdl_state_new OpenForeach (length (p_code (tr_main empty_translator)) + 2) # tr_stateStack empty_translator"
    by (rule begin_FOREACH_effect [OF t1])
  obtain ws where ws: "map decode ws = [(Co_ALWAYS, Op_OUTPUT_OPEN_ELEM, 0)]"
    "tr_emit [(Co_ALWAYS, Op_OUTPUT_OPEN_ELEM, 0)] t1 = Inr (t1\<lparr>tr_main := (tr_main t1)\<lparr>p_code := p_code (tr_main t1) @ ws\<rparr>\<rparr>)"
    by (rule tr_emit_ok [of "[(Co_ALWAYS, Op_OUTPUT_OPEN_ELEM, 0)]" t1]) (use b room empty in auto)
  define t2 where "t2 = t1\<lparr>tr_main := (tr_main t1)\<lparr>p_code := p_code (tr_main t1) @ ws\<rparr>\<rparr>"
  have len: "length ws = 1" using arg_cong [OF ws(1), of length] by simp
  obtain t3 where t3: "end_FOREACH t2 = Inr t3"
    using end_FOREACH_ok [of t2 0 "tr_stateStack empty_translator" "[]" w p ws] b room len empty by (auto simp: t2_def)
  have t2: "p_code (tr_main t2) = p_code (tr_main t1) @ ws" "tr_stateStack t2 = tr_stateStack t1" by (simp_all add: t2_def)
  obtain us vs where "p_code (tr_main t3) = us @ ws @ vs" "length us = 2"
    using foreach_code [OF t1 t2 t3] empty by (metis append_Nil length_map length_Cons list.size(3) numeral_2_eq_2)
  then have at: "code_at (p_code (tr_main t3)) 2 [(Co_ALWAYS, Op_OUTPUT_OPEN_ELEM, 0)]"
    using code_at_weaken [OF code_at_end [OF ws(1), of us]] by simp
  have ind: "loop_independent (example_state_at c)" for c
    by (simp add: loop_independent_def example_state_at_def)
  have "\<exists>q. vm_reach ops (example_state (p_code (tr_main t3))) q \<and> m_ip q = length (p_code (tr_main t3))
      \<and> example_state_at (p_code (tr_main t3)) (length (vts_rows example_result)) q" for ops
    by (rule foreach_result_visits_rows [OF t1 t2 t3 res _ _ _ _ _ _ example_result_rows(2) ind,
          where rest = "[]" and st = "[]" and a = 0 and frm = "(stack_element_new 0 None)\<lparr>m_lastResult := Some 0\<rparr>"])
       (simp_all add: example_state_def example_image_def example_state_at_def empty len example_turn [OF at, simplified])
  then show ?thesis
    using t1 ws(2) t3 by (auto simp: t2_def example_state_at_def example_result_rows numeral_2_eq_2)
qed

end
