(* ===== verification/Compiler_Properties.thy ===== *)
theory Compiler_Properties
  imports Loop_Execution
begin

text \<open>
  Properties of compiled commands: their code is self-contained, and what happens to loop counters,
  hints and the constraint on empty results.
\<close>

lemmas emit_eval = tr_emit_def program_code_emit_def program_code_add_def instruction_def instruction_layout
  opcode_value.simps condcode_value.simps

lemmas compile_eval = programAddCommandDefinition_def addEmbedded_def addResultOutput_def tr_when_def Let_def
  init_resultset_def define_resultset_unique_def define_resultset_nonempty_def
  begin_FOREACH_def end_FOREACH_def begin_DO_statement_def end_DO_statement_def tr_expect_def tr_push_def tr_pop_def
  tdl_state_new_def count_command_def output_statement_result_def begin_loop_INTO_block_def end_loop_INTO_block_def
  begin_INTO_block_def end_INTO_block_def tr_tagname_def nt_get_def nt_define_def nt_getIndex_def keymap_find_def
  keymap_insert_def keystring_def

lemmas example_eval = empty_translator_def vm_program_new_def nt_new_def iequals_def to_upper_def to_lower_def

definition example_command :: command_definition where
  "example_command = \<lparr>cd_selector = ''RESULT'', cd_statement = \<lparr>es_stmstring = ''x'', es_params = []\<rparr>,
     cd_call = \<lparr>sc_name = [], sc_templateparams = [], sc_params = []\<rparr>, cd_resultpath = [''a''], cd_nonempty = False,
     cd_unique = True, cd_embedded = True, cd_hints = []\<rparr>"

section \<open>Self-contained code\<close>

text \<open>\<^verbatim>\<open>programAddCommandDefinition\<close> adds the code of a command behind the code there is, closes every
  block it opens, so that the state stack of the translator is the one before, and every jump of the added code
  that is not the call of a subroutine goes to an address inside this code or directly behind it.\<close>
theorem command_code_self_contained:
  assumes "programAddCommandDefinition cmd t = Inr t'"
  shows "tr_stateStack t' = tr_stateStack t \<and>
    (\<exists>ws. p_code (tr_main t') = p_code (tr_main t) @ ws \<and>
       local_jumps (length (p_code (tr_main t))) (length (p_code (tr_main t'))) Op_NOP (map decode ws))"
  using command_effect [OF assms] by (auto simp: appends_def jumps_ok_def)

theorem command_code_self_contained_witness:
  "\<exists>t'. programAddCommandDefinition example_command empty_translator = Inr t' \<and> tr_stateStack t' = []
     \<and> local_jumps 0 (length (p_code (tr_main t'))) Op_NOP (map decode (p_code (tr_main t')))"
proof -
  obtain t' where t': "programAddCommandDefinition example_command empty_translator = Inr t'"
    by (simp add: compile_eval emit_eval example_command_def example_eval)
  then show ?thesis
    using command_code_self_contained [OF t'] by (auto simp: empty_translator_def vm_program_new_def)
qed

section \<open>Loop counters\<close>

text \<open>The argument COUNTER of a statement or a subroutine call pushes two arguments: behind the loop
  counter the selector text of the reference is pushed as a constant, because the case of the loop counter in
  \<^verbatim>\<open>programAddCommandDefinition\<close> falls through to the case of the constant.\<close>
theorem loop_counter_argument_twice:
  assumes "tr_stateStack t = s # st" and "ts_id s \<in> {OpenSubroutineCall, OpenStatementCall}"
    and "length (p_code (tr_main t)) + 2 < Max_ArgumentIndex" and "length (p_constants (tr_main t)) \<le> Max_ArgumentIndex"
  shows "\<exists>t' ws. addArgument sel (Ref_LoopCounter x) t = Inr t' \<and> p_code (tr_main t') = p_code (tr_main t) @ ws
    \<and> map decode ws = (if ts_id s = OpenSubroutineCall
         then [(Co_ALWAYS, Op_SUB_ARG_LOOPCNT, 0), (Co_ALWAYS, Op_SUB_ARG_CONST, length (p_constants (tr_main t)))]
         else [(Co_ALWAYS, Op_DBSTM_BIND_LOOPCNT, 0), (Co_ALWAYS, Op_DBSTM_BIND_CONST, length (p_constants (tr_main t)))])
    \<and> p_constants (tr_main t') = p_constants (tr_main t) @ [V_String x]
    \<and> tr_stateStack t' = s\<lparr>ts_paramcnt := (ts_paramcnt s + 2) mod 2 ^ 32\<rparr> # st"
proof -
  let ?lc = "if ts_id s = OpenSubroutineCall then Op_SUB_ARG_LOOPCNT else Op_DBSTM_BIND_LOOPCNT"
  let ?cc = "if ts_id s = OpenSubroutineCall then Op_SUB_ARG_CONST else Op_DBSTM_BIND_CONST"
  let ?t0 = "t\<lparr>tr_stateStack := s\<lparr>ts_paramcnt := (ts_paramcnt s + 1) mod 2 ^ 32\<rparr> # st\<rparr>"
  obtain us where us: "map decode us = [(Co_ALWAYS, ?lc, 0)]"
    "tr_emit [(Co_ALWAYS, ?lc, 0)] ?t0 = Inr (?t0\<lparr>tr_main := (tr_main ?t0)\<lparr>p_code := p_code (tr_main ?t0) @ us\<rparr>\<rparr>)"
    by (rule tr_emit_ok [of "[(Co_ALWAYS, ?lc, 0)]" ?t0]) (use assms in auto)
  define t1 where "t1 = ?t0\<lparr>tr_main := (tr_main ?t0)\<lparr>p_code := p_code (tr_main ?t0) @ us\<rparr>\<rparr>"
  define t2 where "t2 = t1\<lparr>tr_stateStack := s\<lparr>ts_paramcnt := (ts_paramcnt s + 2) mod 2 ^ 32\<rparr> # st,
    tr_main := (tr_main t1)\<lparr>p_constants := p_constants (tr_main t1) @ [V_String x]\<rparr>\<rparr>"
  have len: "length us = 1" using arg_cong [OF us(1), of length] by simp
  obtain vs where vs: "map decode vs = [(Co_ALWAYS, ?cc, length (p_constants (tr_main t)))]"
    "tr_emit [(Co_ALWAYS, ?cc, length (p_constants (tr_main t)))] t2 = Inr (t2\<lparr>tr_main := (tr_main t2)\<lparr>p_code := p_code (tr_main t2) @ vs\<rparr>\<rparr>)"
    by (rule tr_emit_ok [of "[(Co_ALWAYS, ?cc, length (p_constants (tr_main t)))]" t2])
       (use assms len in \<open>auto simp: t2_def t1_def\<close>)
  have 1: "push_ARGUMENT_LOOPCNT t = Inr t1"
    using assms(1,2) us by (auto simp: push_ARGUMENT_LOOPCNT_def argument_context_def context_call_def t1_def Let_def)
  have "push_ARGUMENT_CONST (V_String x) t1 = Inr (t2\<lparr>tr_main := (tr_main t2)\<lparr>p_code := p_code (tr_main t2) @ vs\<rparr>\<rparr>)"
    using assms(2) vs(2)
    by (auto simp: push_ARGUMENT_CONST_def argument_context_def context_call_def tr_constant_def t2_def t1_def Let_def mod_simps)
  with 1 have "addArgument sel (Ref_LoopCounter x) t = Inr (t2\<lparr>tr_main := (tr_main t2)\<lparr>p_code := p_code (tr_main t2) @ vs\<rparr>\<rparr>)"
    by (simp add: addArgument_def)
  then show ?thesis using us(1) vs(1) by (auto simp: t2_def t1_def)
qed

theorem loop_counter_argument_twice_witness:
  "\<exists>t'. addArgument [] (Ref_LoopCounter []) (tr_push OpenSubroutineCall 0 empty_translator) = Inr t'
     \<and> map ts_paramcnt (tr_stateStack t') = [2]"
  using loop_counter_argument_twice [of "tr_push OpenSubroutineCall 0 empty_translator" "tdl_state_new OpenSubroutineCall 0" "[]" "[]" "[]"]
  by (auto simp: tr_push_def empty_translator_def tdl_state_new_def vm_program_new_def instruction_layout)

section \<open>Hints\<close>

text \<open>The arguments that are pushed by name or from the iterator of the loop.\<close>

definition keeps_hint :: "string \<Rightarrow> element_reference \<Rightarrow> bool" where
  "keeps_hint selector r =
    (case r of Ref_NamedSetElement _ _ \<Rightarrow> True
     | Ref_IndexSetElement s _ \<Rightarrow> selector \<noteq> [] \<and> (iequals s selector \<or> s = [])
     | _ \<Rightarrow> False)"

lemma keeps_hint_refused:
  assumes "keeps_hint sel r" and "tr_stateStack t = s # st" and "ts_id s = StatementHint"
  shows "\<exists>e. addArgument sel r t = Inl e"
proof -
  have stack: "tr_stateStack t' = tr_stateStack u" if "tr_colname n u = Inr (i, t')" for n i t' u
    using tr_names_effect(2) [OF that] by simp
  have refused: "\<exists>e. context_call msg sub stm t' = Inl e" if "tr_stateStack t' = s' # st" "ts_id s' = StatementHint"
    for msg sub stm s' and t' :: translator
    using that by (simp add: context_call_def)
  have "\<nexists>t'. addArgument sel r t = Inr t'"
    using assms
    by (auto simp: keeps_hint_def addArgument_def push_ARGUMENT_TUPLESET_name_def push_ARGUMENT_ITER_name_def
        push_ARGUMENT_ITER_idx_def argument_context_def context_call_def Let_def rbind_eq_Inr_iff
        split: element_reference.splits if_splits dest!: stack)
  then show ?thesis by (cases "addArgument sel r t") auto
qed

text \<open>A command with error hints is refused when its statement has no parameter or its first parameter is
  a named column or a column of the loop: only the other kinds of arguments close the state of the hints, and
  the statement can end only when this state is closed.\<close>
theorem hinted_statement_refused:
  assumes "cd_embedded cmd" and "cd_hints cmd \<noteq> []"
    and "case es_params (cd_statement cmd) of [] \<Rightarrow> True | r # _ \<Rightarrow> keeps_hint (cd_selector cmd) r"
  shows "\<exists>e. programAddCommandDefinition cmd t = Inl e"
proof -
  have "False" if ok: "programAddCommandDefinition cmd t = Inr t'" for t'
  proof -
    obtain u t1 t2 t3 t4 t5 where s: "begin_DO_statement (es_stmstring (cd_statement cmd)) t1 = Inr t2"
      "addHints (cd_hints cmd) t2 = Inr t3"
      "addArguments (cd_selector cmd) (es_params (cd_statement cmd)) t3 = Inr t4" "end_DO_statement t4 = Inr t5"
      using ok assms(1) by (auto simp: programAddCommandDefinition_def addEmbedded_def Let_def rbind_eq_Inr_iff)
    obtain h st where h: "tr_stateStack t3 = h # st" "ts_id h = StatementHint"
      using addHints_effect [OF conjunct2 [OF begin_statement_effect [OF s(1)]] s(2)] assms(2)
      by (cases "tr_stateStack t3") (auto simp: in_call_def)
    show False
    proof (cases "es_params (cd_statement cmd)")
      case Nil
      with s(3,4) h show False by (auto simp: end_DO_statement_def tr_expect_def)
    next
      case (Cons r rs)
      with s(3) assms(3) keeps_hint_refused [of "cd_selector cmd" r t3 h st] h show False
        by auto
    qed
  qed
  then show ?thesis by (cases "programAddCommandDefinition cmd t") auto
qed

theorem hinted_statement_refused_witness:
  "\<exists>e. programAddCommandDefinition (example_command\<lparr>cd_hints := [(''c'', ''m'')]\<rparr>) empty_translator = Inl e"
  using hinted_statement_refused [of "example_command\<lparr>cd_hints := [(''c'', ''m'')]\<rparr>" empty_translator]
  by (simp add: example_command_def)

section \<open>Result constraints\<close>

text \<open>The constraint NONEMPTY of a command is compiled to the constraint UNIQUE: a command that must have a
  result and a command that must have at most one result give the same program, unless the result of an embedded
  statement without FOREACH is printed into a named block, where the printing loop depends on UNIQUE.\<close>
theorem nonempty_compiled_as_unique:
  assumes "cd_embedded cmd \<longrightarrow> cd_resultpath cmd \<in> {[], [''.'']} \<or> cd_selector cmd \<noteq> []"
  shows "programAddCommandDefinition (cmd\<lparr>cd_nonempty := True, cd_unique := False\<rparr>) t
    = programAddCommandDefinition (cmd\<lparr>cd_nonempty := False, cd_unique := True\<rparr>) t"
proof -
  let ?n = "cmd\<lparr>cd_nonempty := True, cd_unique := False\<rparr>" and ?u = "cmd\<lparr>cd_nonempty := False, cd_unique := True\<rparr>"
  have call: "addCall ?n = addCall ?u" by (rule ext) (simp add: addCall_def)
  have "addEmbedded ?n = addEmbedded ?u" if "cd_embedded cmd"
  proof -
    have "addResultOutput ?n = addResultOutput ?u"
      using assms that by (intro ext) (auto simp: addResultOutput_def Let_def)
    then show ?thesis by (intro ext) (simp add: addEmbedded_def)
  qed
  with call show ?thesis
    by (simp add: programAddCommandDefinition_def tr_when_def define_resultset_unique_def define_resultset_nonempty_def
        cong: if_cong)
qed

theorem nonempty_compiled_as_unique_witness:
  "programAddCommandDefinition (example_command\<lparr>cd_nonempty := True, cd_unique := False\<rparr>) empty_translator
    = programAddCommandDefinition (example_command\<lparr>cd_nonempty := False, cd_unique := True\<rparr>) empty_translator
   \<and> cd_selector example_command \<noteq> []"
  using nonempty_compiled_as_unique [of example_command empty_translator] by (simp add: example_command_def)

end
