(* ===== verification/Program_Layout.thy ===== *)
theory Program_Layout
  imports Compiler_Properties
begin

text \<open>
  The finished program, \<^verbatim>\<open>Tdl2vmTranslator::createProgram\<close>: the subroutines that are called stand
  behind a jump to the main program, and the jumps of the main program move with it while the calls
  of subroutines do not.
\<close>

section \<open>Relocation\<close>

text \<open>What the relocation of the main program means for the decoded instructions.\<close>

fun move_jumps :: "nat \<Rightarrow> opcode \<Rightarrow> decoded list \<Rightarrow> decoded list" where
  "move_jumps k prev [] = []"
| "move_jumps k prev ((cc, opc, arg) # is) =
    (cc, opc, if opc = Op_GOTO \<and> prev \<noteq> Op_SUB_FRAME_CLOSE then arg + k else arg) # move_jumps k opc is"

lemma move_jumps_nth:
  "i < length is \<Longrightarrow> move_jumps k prev is ! i =
    (let (cc, opc, arg) = is ! i; before = (if i = 0 then prev else fst (snd (is ! (i - 1)))) in
     (cc, opc, if opc = Op_GOTO \<and> before \<noteq> Op_SUB_FRAME_CLOSE then arg + k else arg))"
proof (induction k prev "is" arbitrary: i rule: move_jumps.induct)
  case (2 k prev cc opc arg "is")
  then show ?case by (cases i; cases "i = 1") (auto simp: Let_def split: prod.splits)
qed simp

lemma move_jumps_local: "local_jumps n m prev is \<Longrightarrow> local_jumps (n + k) (m + k) prev (move_jumps k prev is)"
  by (induction n m prev "is" rule: local_jumps.induct) auto

lemma address_opcode: "opc \<in> set opcodes \<Longrightarrow> argumentType opc = Inr At_Address \<longleftrightarrow> opc = Op_GOTO"
  by (cases opc) (simp_all add: argumentType_def argumentType_table_def array_read_def at_or_def)

lemma relocate_main_ok:
  assumes "\<forall>w \<in> set ws. opCode w \<in> set opcodes" and "local_jumps n m prev (map decode ws)"
    and "m + start \<le> Max_ArgumentIndex"
  shows "\<exists>ws'. relocate_main start prev ws = Inr ws' \<and> map decode ws' = move_jumps start prev (map decode ws)
    \<and> list_all2 (\<lambda>w w'. opCode w \<noteq> Op_GOTO \<longrightarrow> w' = w) ws ws'"
  using assms
proof (induction start prev ws rule: relocate_main.induct)
  case (2 start prev w ws)
  obtain at where at: "argumentType (opCode w) = Inr at" using 2(2) argumentType_named by fastforce
  have addr: "at = At_Address \<longleftrightarrow> opCode w = Op_GOTO" using address_opcode [of "opCode w"] at 2(2) by auto
  let ?arg = "argumentIndex w + start"
  obtain w' where w': "(if at = At_Address \<and> prev \<noteq> Op_SUB_FRAME_CLOSE
       then instruction (condCode w) (opCode w) (of_nat ?arg) else Inr w) = Inr w'"
    "decode w' = (condCode w, opCode w, if opCode w = Op_GOTO \<and> prev \<noteq> Op_SUB_FRAME_CLOSE then ?arg else argumentIndex w)"
    "opCode w \<noteq> Op_GOTO \<longrightarrow> w' = w"
  proof (cases "at = At_Address \<and> prev \<noteq> Op_SUB_FRAME_CLOSE")
    case True
    then have "?arg \<le> Max_ArgumentIndex" "opCode w \<in> set opcodes" using 2(2-4) addr by (auto simp: decode_def)
    from emit_instruction [OF this(2,1)] obtain v where v: "instruction (condCode w) (opCode w) (of_nat ?arg) = Inr v"
      "decode v = (condCode w, opCode w, ?arg)" by blast
    show ?thesis by (rule that [of v]) (use v True addr in auto)
  next
    case False
    with that [of w] addr show ?thesis by (auto simp: decode_def)
  qed
  obtain ws' where "relocate_main start (opCode w) ws = Inr ws'"
    "map decode ws' = move_jumps start (opCode w) (map decode ws)"
    "list_all2 (\<lambda>w w'. opCode w \<noteq> Op_GOTO \<longrightarrow> w' = w) ws ws'"
    using 2 by (fastforce simp: decode_def [of w])
  with at w' show ?case by (auto simp: decode_def [of w])
qed simp

section \<open>The layout of a program\<close>

text \<open>The subroutine segment starts with the placeholder of the jump to the main program. Without any
  subroutine it is left out.\<close>

definition starts_with_jump :: "vm_program \<Rightarrow> bool" where
  "starts_with_jump p \<longleftrightarrow> p_code p \<noteq> [] \<and> instruction Co_ALWAYS Op_GOTO 0 = Inr (hd (p_code p))"

definition main_start :: "translator \<Rightarrow> nat" where
  "main_start t = (let n = length (p_code (tr_sub_program t)) in if n > 1 then n else 0)"

text \<open>The instruction \<open>w'\<close> of \<open>q\<close> at the index \<open>i\<close> of the main program \<open>p\<close>.\<close>

definition relocated :: "vm_program \<Rightarrow> vm_program \<Rightarrow> nat \<Rightarrow> nat \<Rightarrow> 32 word \<Rightarrow> bool" where
  "relocated p q start i w' \<longleftrightarrow> (let w = p_code p ! i in condCode w' = condCode w \<and> opCode w' = opCode w \<and>
     instruction_reference q w' =
       (if opCode w = Op_GOTO \<and> \<not> (0 < i \<and> opCode (p_code p ! (i - 1)) = Op_SUB_FRAME_CLOSE)
        then Some (R_Address (argumentIndex w + start)) else instruction_reference p w))"

lemma reference_code [simp]: "instruction_reference (p\<lparr>p_code := c\<rparr>) w = instruction_reference p w"
proof -
  have "argument_reference (p\<lparr>p_code := c\<rparr>) at i = argument_reference p at i" for at i
    by (cases at) (simp_all add: argument_reference_def)
  then show ?thesis by (simp add: instruction_reference_def split: sum.splits)
qed

lemma refs_ok_code:
  "refs_ok (p\<lparr>p_code := c\<rparr>) \<longleftrightarrow> (\<forall>w \<in> set c. opCode w \<in> set opcodes \<and> instruction_reference p w \<noteq> None) \<and>
     nt_wf (p_colnametab p) \<and> nt_wf (p_tagnametab p) \<and> nt_wf (p_resultnametab p) \<and> ps_wf (p_pathset p)"
  by (simp add: refs_ok_def)

lemma goto_reference: "opCode w = Op_GOTO \<Longrightarrow> instruction_reference p w \<noteq> None"
  by (simp add: instruction_reference_def argument_reference_def argumentType_def argumentType_table_def
      array_read_def at_or_def)

text \<open>The program that the main program is added to.\<close>

lemma segment_ok:
  assumes "starts_with_jump (tr_sub_program t)" and "refs_ok (tr_sub_program t)"
    and "length (p_code (tr_sub_program t)) \<le> Max_ArgumentIndex"
  obtains seg where "(if length (p_code (tr_sub_program t)) > 1
       then rbind (instruction Co_ALWAYS Op_GOTO (of_nat (length (p_code (tr_sub_program t))))) (\<lambda>jump.
          Inr (length (p_code (tr_sub_program t)), (tr_sub_program t)\<lparr>p_code := (p_code (tr_sub_program t))[0 := jump]\<rparr>))
       else Inr (0, vm_program_new)) = Inr (main_start t, seg)"
    and "refs_ok seg" and "length (p_code seg) = main_start t"
    and "main_start t > 0 \<longrightarrow> (\<exists>jump. seg = (tr_sub_program t)\<lparr>p_code := jump # tl (p_code (tr_sub_program t))\<rparr>
       \<and> decode jump = (Co_ALWAYS, Op_GOTO, main_start t))"
    and "main_start t = 0 \<longrightarrow> seg = vm_program_new"
proof (cases "length (p_code (tr_sub_program t)) > 1")
  case True
  let ?c = "p_code (tr_sub_program t)"
  obtain jump where jump: "instruction Co_ALWAYS Op_GOTO (of_nat (length ?c)) = Inr jump"
    "decode jump = (Co_ALWAYS, Op_GOTO, length ?c)"
    using emit_instruction [of Op_GOTO "length ?c" Co_ALWAYS] assms(3) by auto
  have upd: "?c[0 := jump] = jump # tl ?c" using True by (cases ?c) auto
  have "refs_ok ((tr_sub_program t)\<lparr>p_code := jump # tl ?c\<rparr>)"
    using assms(2) jump(2) goto_reference [of jump] list.set_sel(2) [of ?c]
    by (cases ?c) (auto simp: refs_ok_def decode_def)
  then show ?thesis
    by (rule that [rotated]) (use True jump upd in \<open>auto simp: main_start_def Let_def\<close>)
next
  case False
  have "refs_ok vm_program_new"
    by (simp add: refs_ok_def vm_program_new_def ps_wf_def ps_new_def)
  with False that show ?thesis by (simp add: main_start_def vm_program_new_def Let_def)
qed


lemma segment_fits:
  assumes "program_fits main (tr_sub_program t)"
    and "main_start t > 0 \<longrightarrow> (\<exists>jump. seg = (tr_sub_program t)\<lparr>p_code := jump # tl (p_code (tr_sub_program t))\<rparr>
       \<and> decode jump = (Co_ALWAYS, Op_GOTO, main_start t))"
    and "main_start t = 0 \<longrightarrow> seg = vm_program_new"
  shows "program_fits main seg"
proof (cases "main_start t = 0")
  case True
  with assms show ?thesis by (auto simp: program_fits_def vm_program_new_def nt_new_def ps_new_def)
next
  case False
  then have "length (w # tl (p_code (tr_sub_program t))) = length (p_code (tr_sub_program t))" for w
    by (cases "p_code (tr_sub_program t)") (auto simp: main_start_def)
  with False assms show ?thesis by (auto simp: program_fits_def)
qed

lemma createProgram_unfold:
  assumes "starts_with_jump (tr_sub_program t)"
    and "(if length (p_code (tr_sub_program t)) > 1
       then rbind (instruction Co_ALWAYS Op_GOTO (of_nat (length (p_code (tr_sub_program t))))) (\<lambda>jump.
          Inr (length (p_code (tr_sub_program t)), (tr_sub_program t)\<lparr>p_code := (p_code (tr_sub_program t))[0 := jump]\<rparr>))
       else Inr (0, vm_program_new)) = Inr (start, seg)"
    and "program_add (tr_main t) False seg = Inr q" and "p_code q = p_code seg @ ws" and "length (p_code seg) = start"
    and "relocate_main start Op_NOP ws = Inr ws'"
  shows "createProgram withReturn t = rbind (emit_all (if withReturn then [(Co_ALWAYS, Op_RETURN, 0)] else []) (p_code seg @ ws'))
    (\<lambda>c. Inr (q\<lparr>p_code := c\<rparr>))"
proof -
  have "p_code (tr_sub_program t) ! 0 = hd (p_code (tr_sub_program t))"
    using assms(1) by (simp add: starts_with_jump_def hd_conv_nth)
  then show ?thesis
    using assms unfolding createProgram_def Let_def
    by (auto simp: starts_with_jump_def)
qed


text \<open>Two codes whose instructions correspond by their operations and jump targets.\<close>

definition same_jumps :: "32 word \<Rightarrow> 32 word \<Rightarrow> bool" where
  "same_jumps w w' \<longleftrightarrow> condCode w' = condCode w \<and> opCode w' = opCode w
    \<and> (opCode w = Op_GOTO \<longrightarrow> argumentIndex w' = argumentIndex w)"

lemma same_jumps_local:
  "list_all2 same_jumps ws ws' \<Longrightarrow> local_jumps n m prev (map decode ws') = local_jumps n m prev (map decode ws)"
  by (induction arbitrary: prev rule: list_all2_induct) (auto simp: same_jumps_def decode_def)

lemma relocate_0 [simp]: "map_option (relocate 0) x = x"
proof -
  have "relocate 0 r = r" for r by (cases r) simp_all
  then show ?thesis by (cases x) simp_all
qed

lemma goto_address: "opCode w = Op_GOTO \<Longrightarrow> instruction_reference p w = Some (R_Address (argumentIndex w))"
  using address_opcode [of Op_GOTO] by (intro address_reference) simp

text \<open>The main program behind the segment of the subroutines.\<close>

lemma add_main:
  assumes "refs_ok main" and "refs_ok seg" and "program_fits main seg"
  obtains q ws where "program_add main False seg = Inr q" and "refs_ok q" and "p_code q = p_code seg @ ws"
    and "\<forall>w \<in> set (p_code seg). instruction_reference q w = instruction_reference seg w"
    and "list_all2 (\<lambda>w w'. same_jumps w w' \<and> instruction_reference q w' = instruction_reference main w) (p_code main) ws"
proof -
  obtain q ws where q: "program_add main False seg = Inr q" "refs_ok q" "p_code q = p_code seg @ ws"
    "\<forall>w \<in> set (p_code seg). instruction_reference q w = instruction_reference seg w"
    "list_all2 (\<lambda>w w'. condCode w' = condCode w \<and> opCode w' = opCode w
       \<and> instruction_reference q w' = map_option (relocate 0) (instruction_reference main w)) (p_code main) ws"
    using program_add_links [OF assms, of False] by auto
  have "list_all2 (\<lambda>w w'. same_jumps w w' \<and> instruction_reference q w' = instruction_reference main w) (p_code main) ws"
    using q(5) by (rule list_all2_mono) (auto simp: same_jumps_def goto_address)
  with q(1-4) that show ?thesis by blast
qed

lemma relocated_nth:
  assumes "list_all2 (\<lambda>w w'. same_jumps w w' \<and> instruction_reference q w' = instruction_reference p w) (p_code p) ws"
    and "map decode ws' = move_jumps start Op_NOP (map decode ws)"
    and "list_all2 (\<lambda>w w'. opCode w \<noteq> Op_GOTO \<longrightarrow> w' = w) ws ws'" and "i < length (p_code p)"
  shows "relocated p (q\<lparr>p_code := c\<rparr>) start i (ws' ! i)"
proof -
  have len: "length ws = length (p_code p)" "length ws' = length ws"
    using assms(1,3) by (simp_all add: list_all2_lengthD)
  let ?w = "p_code p ! i" and ?v = "ws ! i"
  have v: "same_jumps ?w ?v" "instruction_reference q ?v = instruction_reference p ?w"
    "opCode ?v \<noteq> Op_GOTO \<longrightarrow> ws' ! i = ?v"
    using assms(1,3,4) len by (auto simp: list_all2_conv_all_nth)
  have before: "opCode (ws ! (i - 1)) = opCode (p_code p ! (i - 1))"
    using assms(1,4) len by (auto simp: list_all2_conv_all_nth same_jumps_def)
  have "decode (ws' ! i) = move_jumps start Op_NOP (map decode ws) ! i"
    using assms(2,4) len by (metis nth_map)
  also have "\<dots> = (condCode ?v, opCode ?v,
      if opCode ?v = Op_GOTO \<and> (if i = 0 then Op_NOP else opCode (ws ! (i - 1))) \<noteq> Op_SUB_FRAME_CLOSE
      then argumentIndex ?v + start else argumentIndex ?v)"
    using move_jumps_nth [of i "map decode ws"] assms(4) len by (auto simp: decode_def)
  finally show ?thesis
    using v before goto_address [of "ws' ! i" q] goto_address [of ?w p]
    by (auto simp: relocated_def Let_def decode_def same_jumps_def split: if_splits)
qed

text \<open>C14: a finished program is put together as intended: if the main program and the called subroutines are
  well-formed, fit together and the jumps of the main program are its own or subroutine calls, then
  \<^verbatim>\<open>createProgram\<close> raises no exception; the program consists of a jump to the main program and the subroutines, if
  there are any, and the main program (with a final RETURN if asked for); the subroutines refer to what they did,
  the jumps of the main program are moved by its start address and stay inside of it, the calls of subroutines keep
  their addresses and every other instruction refers to what it did.\<close>
theorem createProgram_layout:
  assumes "starts_with_jump (tr_sub_program t)" and "refs_ok (tr_sub_program t)" and "refs_ok (tr_main t)"
    and "program_fits (tr_main t) (tr_sub_program t)"
    and "length (p_code (tr_sub_program t)) + length (p_code (tr_main t)) + 1 < Max_ArgumentIndex"
    and "local_jumps 0 (length (p_code (tr_main t))) Op_NOP (map decode (p_code (tr_main t)))"
  shows "\<exists>prg seg ws ret. createProgram withReturn t = Inr prg \<and> p_code prg = seg @ ws @ ret
    \<and> length seg = main_start t \<and> map decode ret = (if withReturn then [(Co_ALWAYS, Op_RETURN, 0)] else [])
    \<and> (seg \<noteq> [] \<longrightarrow> decode (hd seg) = (Co_ALWAYS, Op_GOTO, length seg) \<and> tl seg = tl (p_code (tr_sub_program t))
         \<and> (\<forall>w \<in> set (tl seg). instruction_reference prg w = instruction_reference (tr_sub_program t) w))
    \<and> length ws = length (p_code (tr_main t))
    \<and> local_jumps (length seg) (length seg + length ws) Op_NOP (map decode ws)
    \<and> (\<forall>i < length ws. relocated (tr_main t) prg (length seg) i (ws ! i))"
proof -
  let ?sub = "tr_sub_program t" and ?main = "tr_main t" and ?start = "main_start t"
  have small: "length (p_code ?sub) \<le> Max_ArgumentIndex" using assms(5) by simp
  obtain seg where seg: "(if length (p_code ?sub) > 1
       then rbind (instruction Co_ALWAYS Op_GOTO (of_nat (length (p_code ?sub)))) (\<lambda>jump.
          Inr (length (p_code ?sub), ?sub\<lparr>p_code := (p_code ?sub)[0 := jump]\<rparr>))
       else Inr (0, vm_program_new)) = Inr (?start, seg)"
    "refs_ok seg" "length (p_code seg) = ?start"
    "?start > 0 \<longrightarrow> (\<exists>jump. seg = ?sub\<lparr>p_code := jump # tl (p_code ?sub)\<rparr> \<and> decode jump = (Co_ALWAYS, Op_GOTO, ?start))"
    "?start = 0 \<longrightarrow> seg = vm_program_new"
    by (rule segment_ok [OF assms(1,2) small])
  have start: "?start \<le> length (p_code ?sub)" by (simp add: main_start_def Let_def)
  have fits: "program_fits ?main seg" by (rule segment_fits [OF assms(4) seg(4,5)])
  obtain q ws where q: "program_add ?main False seg = Inr q" "refs_ok q" "p_code q = p_code seg @ ws"
    "\<forall>w \<in> set (p_code seg). instruction_reference q w = instruction_reference seg w"
    "list_all2 (\<lambda>w w'. same_jumps w w' \<and> instruction_reference q w' = instruction_reference ?main w) (p_code ?main) ws"
    using add_main [OF assms(3) seg(2) fits] by blast
  have jumps: "local_jumps 0 (length (p_code ?main)) Op_NOP (map decode ws)"
    using assms(6) same_jumps_local [of "p_code ?main" ws] list_all2_mono [OF q(5)] by auto
  have "\<forall>w \<in> set ws. opCode w \<in> set opcodes" using q(2,3) by (auto simp: refs_ok_def)
  then obtain ws' where ws': "relocate_main ?start Op_NOP ws = Inr ws'"
    "map decode ws' = move_jumps ?start Op_NOP (map decode ws)"
    "list_all2 (\<lambda>w w'. opCode w \<noteq> Op_GOTO \<longrightarrow> w' = w) ws ws'"
    using relocate_main_ok [OF _ jumps, of ?start] assms(5) start by auto
  have len: "length ws = length (p_code ?main)" "length ws' = length ws"
    using q(5) ws'(3) by (simp_all add: list_all2_lengthD)
  let ?ret = "if withReturn then [(Co_ALWAYS, Op_RETURN, 0)] else [] :: decoded list"
  have "length ?ret \<le> 1" by simp
  then have room: "length (p_code seg @ ws') + length ?ret < Max_ArgumentIndex"
    using assms(5) start seg(3) len by (simp del: One_nat_def)
  obtain ret where ret: "emit_all ?ret (p_code seg @ ws') = Inr ((p_code seg @ ws') @ ret)" "map decode ret = ?ret"
    using emit_all_ok [of ?ret "p_code seg @ ws'"] room by auto
  let ?prg = "q\<lparr>p_code := (p_code seg @ ws') @ ret\<rparr>"
  have prg: "createProgram withReturn t = Inr ?prg"
    using createProgram_unfold [OF assms(1) seg(1) q(1,3) seg(3) ws'(1)] ret(1) by simp
  have "local_jumps (0 + ?start) (length (p_code ?main) + ?start) Op_NOP (map decode ws')"
    using move_jumps_local [OF jumps, of ?start] ws'(2) by simp
  moreover have "\<forall>i < length ws'. relocated ?main ?prg ?start i (ws' ! i)"
    using relocated_nth [OF q(5) ws'(2,3)] len by simp
  moreover have "decode (hd (p_code seg)) = (Co_ALWAYS, Op_GOTO, ?start) \<and> tl (p_code seg) = tl (p_code ?sub)
      \<and> (\<forall>w \<in> set (tl (p_code seg)). instruction_reference ?prg w = instruction_reference ?sub w)" if "p_code seg \<noteq> []"
    using that seg(3,4) q(4) by auto
  ultimately show ?thesis
    using prg ret(2) seg(3) len by (intro exI [of _ ?prg] exI [of _ "p_code seg"] exI [of _ ws'] exI [of _ ret]) (auto simp: add.commute)
qed


text \<open>A program with one subroutine, which returns at once.\<close>

definition example_translator :: translator where
  "example_translator = \<lparr>tr_stateStack = [], tr_subroutinemap = [], tr_calledSubroutines = [],
     tr_sub_program = vm_program_new\<lparr>p_code := [0x08000000, 0x04000000]\<rparr>, tr_main = example_program (V_Bool True),
     tr_isSubroutine = False, tr_nofCommands = 0\<rparr>"

theorem createProgram_layout_witness:
  "\<exists>prg seg ws. createProgram False example_translator = Inr prg \<and> p_code prg = seg @ ws \<and> length seg = 2
     \<and> decode (hd seg) = (Co_ALWAYS, Op_GOTO, 2) \<and> instruction_reference prg (ws ! 1) = Some (R_Address 2)"
proof -
  let ?t = example_translator
  have d: "decode 0x08000000 = (Co_ALWAYS, Op_GOTO, 0)" "decode 0x04000000 = (Co_ALWAYS, Op_RETURN, 0)"
    "decode 0x0C000000 = (Co_ALWAYS, Op_OUTPUT_CONST, 0)" by code_simp+
  have types: "argumentType Op_RETURN = Inr At_None" "argumentType Op_GOTO = Inr At_Address"
    by (simp_all add: argumentType_def argumentType_table_def array_read_def at_or_def)
  have 1: "starts_with_jump (tr_sub_program ?t)"
    by (simp add: starts_with_jump_def example_translator_def instruction_def instruction_layout)
  have 2: "refs_ok (tr_sub_program ?t)"
    using d types by (simp add: refs_ok_def example_translator_def vm_program_new_def decode_def instruction_reference_def
        argument_reference_def ps_wf_def ps_new_def)
  have 3: "refs_ok (tr_main ?t)"
    using example_program_wf [of "V_Bool True"] by (simp add: program_wf_def example_translator_def)
  have 4: "program_fits (tr_main ?t) (tr_sub_program ?t)"
    by (simp add: program_fits_def example_translator_def example_program_def vm_program_new_def ps_new_def nt_new_def
        instruction_layout)
  have 5: "length (p_code (tr_sub_program ?t)) + length (p_code (tr_main ?t)) + 1 < Max_ArgumentIndex"
    by (simp add: example_translator_def example_program_def instruction_layout)
  have 6: "local_jumps 0 (length (p_code (tr_main ?t))) Op_NOP (map decode (p_code (tr_main ?t)))"
    by (simp add: example_translator_def example_program_def d)
  have facts: "main_start ?t = 2" "p_code (tr_main ?t) = [0x0C000000, 0x08000000]"
    by (simp_all add: main_start_def example_translator_def example_program_def)
  from createProgram_layout [OF 1 2 3 4 5 6, of False] obtain prg seg ws where
    "createProgram False ?t = Inr prg" "p_code prg = seg @ ws" "length seg = 2" "seg \<noteq> [] \<longrightarrow> decode (hd seg) = (Co_ALWAYS, Op_GOTO, 2)"
    "length ws = 2" "relocated (tr_main ?t) prg 2 1 (ws ! 1)"
    by (auto simp: facts)
  then show ?thesis
    using d by (intro exI [of _ prg] exI [of _ seg] exI [of _ ws]) (auto simp: relocated_def facts decode_def)
qed

end
