(* ===== verification/Input_Structure.thy ===== *)
theory Input_Structure
  imports Program_Tables
begin

text \<open>
  The tree of the input document, \<^verbatim>\<open>src/modules/cmdbind/tdl/vm/inputStructure.cpp\<close>: nodes in an
  array, linked by the indices of parent, first and last child and next sibling; index 0 is the
  root and, in every link but the parent, the null pointer. The parent of the root is -1.

  Indices and tags are \<^verbatim>\<open>int\<close> in the code and integers here; the store would have to hold 64 GB
  of nodes for them to overflow. Array indices come from the document and wrap at 32 bits as in
  the code. The loops over siblings, children and parents follow the links and need not end
  on an arbitrary store, so they give \<open>None\<close> then; \<open>Input_Refinement\<close> shows that they end on the
  stores that are built. An exception abandons the structure.
\<close>

section \<open>Nodes and their store\<close>

record input_node =
  in_parent :: int
  in_tag :: int
  in_tagstr :: int
  in_arrayindex :: int
  in_next :: int
  in_value :: int
  in_firstchild :: int
  in_lastchild :: int

text \<open>Memory of the node array is cleared when it is allocated.\<close>

definition zero_node :: input_node where
  "zero_node = \<lparr>in_parent = 0, in_tag = 0, in_tagstr = 0, in_arrayindex = 0, in_next = 0, in_value = 0,
    in_firstchild = 0, in_lastchild = 0\<rparr>"

record input_structure =
  is_nodemem :: "input_node list"
  is_content :: "variant list"
  is_tagmap :: tag_table
  is_privatetagmap :: tag_table
  is_visitor :: int
  is_done :: bool

definition inputStructure :: "tag_table \<Rightarrow> input_structure" where
  "inputStructure tagmap = \<lparr>is_nodemem = [zero_node\<lparr>in_arrayindex := -1, in_parent := -1\<rparr>],
    is_content = [V_Null], is_tagmap = tagmap, is_privatetagmap = tt_new (tt_case_sensitive tagmap),
    is_visitor = 0, is_done = False\<rparr>"

text \<open>The bounds check of the array lets the index one behind the last node pass.\<close>

definition node :: "int \<Rightarrow> input_structure \<Rightarrow> input_node result" where
  "node i st =
    (if i < 0 \<or> length (is_nodemem st) < nat i then Inl (LogicError ''Array bounds access'')
     else if nat i = length (is_nodemem st) then Inl (Undefined ''node behind the last one'')
     else Inr (is_nodemem st ! nat i))"

definition alloc_node :: "input_structure \<Rightarrow> int \<times> input_structure" where
  "alloc_node st = (int (length (is_nodemem st)), st\<lparr>is_nodemem := is_nodemem st @ [zero_node]\<rparr>)"

definition set_node :: "int \<Rightarrow> input_node \<Rightarrow> input_structure \<Rightarrow> input_structure" where
  "set_node i nd st = st\<lparr>is_nodemem := (is_nodemem st)[nat i := nd]\<rparr>"

definition update_node :: "int \<Rightarrow> (input_node \<Rightarrow> input_node) \<Rightarrow> input_structure \<Rightarrow> input_structure result" where
  "update_node i f st = rbind (node i st) (\<lambda>nd. Inr (set_node i (f nd) st))"

definition tagname :: "input_node \<Rightarrow> input_structure \<Rightarrow> string option" where
  "tagname nd st = tt_getstr (nat (in_tagstr nd)) (is_privatetagmap st)"

definition contentvalue :: "input_node \<Rightarrow> input_structure \<Rightarrow> variant option result" where
  "contentvalue nd st =
    (if in_value nd = 0 then Inr None
     else if in_value nd < 0 then Inl (LogicError ''vector::at'')
     else rbind (at_or (LogicError ''vector::at'') (is_content st) (nat (in_value nd))) (\<lambda>v. Inr (Some v)))"

section \<open>Paths of nodes\<close>

partial_function (option) nodepath_loop :: "int \<Rightarrow> string list \<Rightarrow> input_structure \<Rightarrow> string list run" where
  "nodepath_loop ni pt st =
    (if ni = 0 then Some (Inr pt)
     else run_bind (Some (node ni st)) (\<lambda>nd.
       nodepath_loop (in_parent nd) (case tagname nd st of None \<Rightarrow> pt | Some tn \<Rightarrow> tn # pt) st))"

definition nodepath :: "int \<Rightarrow> input_structure \<Rightarrow> string run" where
  "nodepath nv st = run_bind (nodepath_loop nv [] st) (\<lambda>pt. Some (Inr (concat (map (\<lambda>tn. SLASH # tn) pt))))"

definition quoted :: "string \<Rightarrow> string" where
  "quoted s = [CHR 0x27] @ s @ [CHR 0x27]"

text \<open>An exception with a message that holds the path of a node.\<close>

definition raise_at :: "(string \<Rightarrow> string) \<Rightarrow> int \<Rightarrow> input_structure \<Rightarrow> 'a run" where
  "raise_at msg nv st = run_bind (nodepath nv st) (\<lambda>p. Some (Inl (RuntimeError (msg p))))"

section \<open>Building the tree\<close>

definition createChildNode :: "int \<Rightarrow> input_structure \<Rightarrow> (int \<times> input_structure) result" where
  "createChildNode nv st =
    (case alloc_node st of (idx, st1) \<Rightarrow>
       rbind (node nv st1) (\<lambda>nd.
       rbind (if in_lastchild nd = 0
              then update_node nv (\<lambda>n. n\<lparr>in_firstchild := idx, in_lastchild := idx\<rparr>) st1
              else rbind (update_node nv (\<lambda>n. n\<lparr>in_lastchild := idx\<rparr>) st1)
                (update_node (in_lastchild nd) (\<lambda>n. n\<lparr>in_next := idx\<rparr>))) (\<lambda>st2.
       rbind (update_node idx (\<lambda>n. n\<lparr>in_arrayindex := -1, in_parent := nv\<rparr>) st2) (\<lambda>st3.
         Inr (idx, st3)))))"

definition createSiblingNode :: "int \<Rightarrow> input_structure \<Rightarrow> (int \<times> input_structure) result" where
  "createSiblingNode nv st =
    (if nv = 0 then Inl (RuntimeError ''try to create sibling node of root'')
     else rbind (node nv st) (\<lambda>nd. createChildNode (in_parent nd) st))"

text \<open>The tag of a name, 1 for a name that no path uses.\<close>

definition tag_or_unused :: "string \<Rightarrow> tag_table \<Rightarrow> int" where
  "tag_or_unused nam t = (if tt_find nam t = 0 then 1 else int (tt_find nam t))"

definition set_tag :: "int \<Rightarrow> string \<Rightarrow> input_structure \<Rightarrow> input_structure result" where
  "set_tag i nam st =
    (case tt_get nam (is_privatetagmap st) of (tgs, t) \<Rightarrow>
       update_node i (\<lambda>n. n\<lparr>in_tag := tag_or_unused nam (is_tagmap st), in_tagstr := int tgs\<rparr>)
         (st\<lparr>is_privatetagmap := t\<rparr>))"

definition openTag_string :: "int \<Rightarrow> string \<Rightarrow> input_structure \<Rightarrow> (int \<times> input_structure) result" where
  "openTag_string nv tag st =
    (if is_done st then Inl (RuntimeError ''tags not balanced in input (open tag after final close)'')
     else rbind (createChildNode nv st) (\<lambda>(rt, st1). rbind (set_tag rt tag st1) (\<lambda>st2. Inr (rt, st2))))"

text \<open>
  The conversion of a value to a signed integer, \<^verbatim>\<open>Variant::toint\<close>; the conversions of floating
  point numbers, big numbers, texts and custom types are the parameter \<open>conv\<close>.
\<close>

definition variant_toint :: "(variant \<Rightarrow> 64 word result) \<Rightarrow> variant \<Rightarrow> 64 word result" where
  "variant_toint conv v =
    (case v of
       V_Null \<Rightarrow> Inl (LogicError ''cannot cast NULL type to signed integer type'')
     | V_Bool b \<Rightarrow> Inr (if b then 1 else 0)
     | V_Int w \<Rightarrow> Inr w
     | V_UInt w \<Rightarrow> if unat w > 2 ^ 63 - 1 then Inl BadCast else Inr w
     | V_Timestamp t \<Rightarrow> Inl (LogicError ''cannot cast timestamp type to signed integer type'')
     | _ \<Rightarrow> conv v)"

definition int_of_64 :: "64 word \<Rightarrow> int" where
  "int_of_64 w = sint (ucast w :: 32 word)"

text \<open>Only \<^verbatim>\<open>std::runtime_error\<close> is caught around the conversion of an array index.\<close>

definition openTag_index ::
  "(variant \<Rightarrow> 64 word result) \<Rightarrow> int \<Rightarrow> variant \<Rightarrow> int \<Rightarrow> input_structure \<Rightarrow> (int \<times> input_structure) run" where
  "openTag_index conv nv tag rt st =
    (case variant_toint conv tag of
       Inl (RuntimeError e) \<Rightarrow>
         raise_at (\<lambda>p. ''array index cannot be converted to integer at '' @ quoted p) nv st
     | Inl e \<Rightarrow> Some (Inl e)
     | Inr w \<Rightarrow>
         run_bind (Some (update_node rt (\<lambda>n. n\<lparr>in_arrayindex := int_of_64 w\<rparr>) st)) (\<lambda>st1.
           if int_of_64 w < 0 then raise_at (\<lambda>p. ''array index is negative at '' @ quoted p) nv st1
           else Some (Inr (rt, st1))))"

definition openTag ::
  "(variant \<Rightarrow> 64 word result) \<Rightarrow> int \<Rightarrow> variant \<Rightarrow> input_structure \<Rightarrow> (int \<times> input_structure) run" where
  "openTag conv nv tag st =
    (if is_done st then Some (Inl (RuntimeError ''tags not balanced in input (open tag after final close)''))
     else run_bind (Some (createChildNode nv st)) (\<lambda>(rt, st1).
       case tag of
         V_String tagstr \<Rightarrow> Some (rbind (set_tag rt tagstr st1) (\<lambda>st2. Inr (rt, st2)))
       | _ \<Rightarrow> openTag_index conv nv tag rt st1))"

section \<open>Selection of a child by name\<close>

partial_function (option) unique_tag_loop ::
  "int \<Rightarrow> string \<Rightarrow> int \<Rightarrow> int \<Rightarrow> int \<Rightarrow> input_structure \<Rightarrow> int run" where
  "unique_tag_loop nv tag tgs ci rt st =
    run_bind (Some (node ci st)) (\<lambda>cd.
    run_bind
      (if in_tagstr cd = tgs then
         (if rt \<noteq> 0 then raise_at (\<lambda>p. ''cannot make unique selection of node with name '' @ quoted tag
            @ '' in structure at '' @ quoted p @ '' (it exists more than once)'') nv st
          else Some (Inr ci))
       else Some (Inr rt)) (\<lambda>rt'.
      if in_next cd = 0 then Some (Inr rt') else unique_tag_loop nv tag tgs (in_next cd) rt' st))"

definition missing_node :: "string \<Rightarrow> string \<Rightarrow> string \<Rightarrow> string \<Rightarrow> string" where
  "missing_node tag where why p = ''node with name '' @ quoted tag @ '' does not exist in structure '' @ where
    @ ''at '' @ quoted p @ why"

definition visitTag :: "int \<Rightarrow> string \<Rightarrow> input_structure \<Rightarrow> int run" where
  "visitTag nv tag st =
    run_bind (Some (node nv st)) (\<lambda>nd.
      if in_firstchild nd = 0 then raise_at (missing_node tag [] '' (node is empty)'') nv st
      else
        let tgs = int (tt_find tag (is_privatetagmap st)) in
        if tgs = 0 then raise_at (missing_node tag ''(at all) '' []) nv st
        else run_bind (unique_tag_loop nv tag tgs (in_firstchild nd) 0 st) (\<lambda>rt.
          if rt = 0 then raise_at (missing_node tag [] '' (no node name matched)'') nv st
          else Some (Inr rt)))"

definition visitOrOpenUniqTag :: "int \<Rightarrow> string \<Rightarrow> input_structure \<Rightarrow> (int \<times> input_structure) run" where
  "visitOrOpenUniqTag nv tag st =
    run_bind (Some (node nv st)) (\<lambda>nd.
      if in_firstchild nd = 0 then Some (openTag_string nv tag st)
      else case tt_get tag (is_privatetagmap st) of (tgs, t) \<Rightarrow>
        let st1 = st\<lparr>is_privatetagmap := t\<rparr> in
        if tgs = 0 then Some (openTag_string nv tag st1)
        else run_bind (unique_tag_loop nv tag (int tgs) (in_firstchild nd) 0 st1) (\<lambda>rt.
          if rt = 0 then Some (openTag_string nv tag st1) else Some (Inr (rt, st1))))"

section \<open>Closing of tags and arrays\<close>

partial_function (option) array_loop :: "int \<Rightarrow> int \<Rightarrow> input_structure \<Rightarrow> bool run" where
  "array_loop ci arrayindex st =
    run_bind (Some (node ci st)) (\<lambda>cd.
      if in_tagstr cd \<noteq> 0 then Some (Inr False)
      else if in_arrayindex cd \<le> arrayindex then Some (Inr False)
      else if in_next cd = 0 then Some (Inr True)
      else array_loop (in_next cd) (in_arrayindex cd) st)"

definition isArrayNode :: "int \<Rightarrow> input_structure \<Rightarrow> bool run" where
  "isArrayNode nv st =
    run_bind (Some (node nv st)) (\<lambda>nd.
      if in_firstchild nd = 0 then Some (Inr False) else array_loop (in_firstchild nd) (-1) st)"

text \<open>The child before \<open>nv\<close>, for the removal of an array without children.\<close>

partial_function (option) before_loop :: "int \<Rightarrow> int \<Rightarrow> input_structure \<Rightarrow> int run" where
  "before_loop nv ni st =
    run_bind (Some (node ni st)) (\<lambda>cd.
      if in_next cd \<noteq> 0 \<and> in_next cd \<noteq> nv then before_loop nv (in_next cd) st
      else if in_next cd = 0 then Some (Inl (LogicError ''internal: corrupt tree''))
      else Some (Inr ni))"

partial_function (option) adopt_loop :: "int \<Rightarrow> int \<Rightarrow> input_structure \<Rightarrow> input_structure run" where
  "adopt_loop nv ci st =
    run_bind (Some (node nv st)) (\<lambda>nd.
    run_bind (Some (update_node ci
      (\<lambda>cd. cd\<lparr>in_tag := in_tag nd, in_tagstr := in_tagstr nd, in_parent := in_parent nd\<rparr>) st)) (\<lambda>st1.
    run_bind (Some (node ci st1)) (\<lambda>cd.
      if in_next cd = 0 then Some (Inr st1) else adopt_loop nv (in_next cd) st1)))"

text \<open>The children of an array take its place; the first one is copied to the node of the array.\<close>

definition collapse_array :: "int \<Rightarrow> input_structure \<Rightarrow> input_structure run" where
  "collapse_array nv st =
    run_bind (Some (node nv st)) (\<lambda>nd.
    if in_firstchild nd = 0 then
      run_bind (Some (node (in_parent nd) st)) (\<lambda>pn.
        if in_lastchild pn = in_firstchild pn
        then Some (update_node (in_parent nd) (\<lambda>n. n\<lparr>in_lastchild := 0, in_firstchild := 0\<rparr>) st)
        else run_bind (before_loop nv (in_firstchild pn) st) (\<lambda>ni.
          Some (rbind (update_node ni (\<lambda>n. n\<lparr>in_next := 0\<rparr>) st)
            (update_node (in_parent nd) (\<lambda>n. n\<lparr>in_lastchild := ni\<rparr>)))))
    else
      run_bind (adopt_loop nv (in_firstchild nd) st) (\<lambda>st1.
      Some (rbind (node nv st1) (\<lambda>nd1.
        rbind (node (in_firstchild nd1) st1) (\<lambda>cd.
          if in_lastchild nd1 = in_firstchild nd1 then Inr (set_node nv cd st1)
          else update_node (in_parent nd) (\<lambda>n. n\<lparr>in_lastchild := in_lastchild nd1\<rparr>) (set_node nv cd st1))))))"

definition closeTag :: "int \<Rightarrow> input_structure \<Rightarrow> (int \<times> input_structure) run" where
  "closeTag nv st =
    run_bind (Some (node nv st)) (\<lambda>nd.
      if in_parent nd < 0 then
        (if is_done st then Some (Inl (RuntimeError ''tags not balanced in input (close tag)''))
         else Some (Inr (nv, st\<lparr>is_done := True\<rparr>)))
      else run_bind (Some (node (in_parent nd) st)) (\<lambda>pn.
        if nv \<noteq> in_lastchild pn then Some (Inl (LogicError ''internal: illegal call of closeTag''))
        else run_bind (isArrayNode nv st) (\<lambda>arr.
          if arr then run_bind (collapse_array nv st) (\<lambda>st1. Some (Inr (in_parent nd, st1)))
          else Some (Inr (in_parent nd, st)))))"

definition pushValue :: "int \<Rightarrow> variant \<Rightarrow> input_structure \<Rightarrow> input_structure run" where
  "pushValue nv val st =
    (if is_done st then Some (Inl (RuntimeError ''tags not balanced in input (value after final close)''))
     else run_bind (Some (node nv st)) (\<lambda>nd.
       if in_value nd \<noteq> 0
       then raise_at (\<lambda>p. ''multiple values assigned to one node in the data tree at '' @ quoted p) nv st
       else Some (Inr (set_node nv (nd\<lparr>in_value := int (length (is_content st))\<rparr>)
         (st\<lparr>is_content := is_content st @ [val]\<rparr>)))))"

text \<open>The same operations at the node the structure itself remembers.\<close>

definition openTag_here :: "(variant \<Rightarrow> 64 word result) \<Rightarrow> variant \<Rightarrow> input_structure \<Rightarrow> input_structure run" where
  "openTag_here conv tag st =
    run_bind (openTag conv (is_visitor st) tag st) (\<lambda>(nv, st1). Some (Inr (st1\<lparr>is_visitor := nv\<rparr>)))"

definition closeTag_here :: "input_structure \<Rightarrow> input_structure run" where
  "closeTag_here st = run_bind (closeTag (is_visitor st) st) (\<lambda>(nv, st1). Some (Inr (st1\<lparr>is_visitor := nv\<rparr>)))"

definition pushValue_here :: "variant \<Rightarrow> input_structure \<Rightarrow> input_structure run" where
  "pushValue_here val st = pushValue (is_visitor st) val st"

section \<open>Selection of nodes\<close>

partial_function (option) next_loop :: "int \<Rightarrow> int \<Rightarrow> int list \<Rightarrow> input_structure \<Rightarrow> int list run" where
  "next_loop tag ci acc st =
    run_bind (Some (node ci st)) (\<lambda>cd.
      let acc' = (if tag = 0 \<or> in_tag cd = tag then acc @ [ci] else acc) in
      if in_next cd = 0 then Some (Inr acc') else next_loop tag (in_next cd) acc' st)"

definition next_nodes :: "input_node \<Rightarrow> int \<Rightarrow> int list \<Rightarrow> input_structure \<Rightarrow> int list run" where
  "next_nodes nd tag nextnd st =
    (if in_firstchild nd = 0 then Some (Inr nextnd) else next_loop tag (in_firstchild nd) nextnd st)"

partial_function (option) find_loop :: "int \<Rightarrow> int \<Rightarrow> int list \<Rightarrow> input_structure \<Rightarrow> int list run" where
  "find_loop tag ci acc st =
    run_bind (Some (node ci st)) (\<lambda>cd.
    run_bind
      (let acc' = (if tag = 0 \<or> in_tag cd = tag then acc @ [ci] else acc) in
       if in_firstchild cd = 0 then Some (Inr acc') else find_loop tag (in_firstchild cd) acc' st) (\<lambda>acc'.
      if in_next cd = 0 then Some (Inr acc') else find_loop tag (in_next cd) acc' st))"

definition find_nodes :: "input_node \<Rightarrow> int \<Rightarrow> int list \<Rightarrow> input_structure \<Rightarrow> int list run" where
  "find_nodes nd tag findnd st =
    (if in_firstchild nd = 0 then Some (Inr findnd) else find_loop tag (in_firstchild nd) findnd st)"

definition up_node :: "input_node \<Rightarrow> int list \<Rightarrow> int list result" where
  "up_node nd rt =
    (if in_parent nd \<noteq> -1 then Inr (rt @ [in_parent nd]) else Inl (RuntimeError ''selecting /.. from root''))"

definition isequalTag :: "string \<Rightarrow> string \<Rightarrow> input_structure \<Rightarrow> bool" where
  "isequalTag t1 t2 st = (if tt_case_sensitive (is_tagmap st) then iequals t1 t2 else t1 = t2)"

text \<open>\<^verbatim>\<open>SelectorPath::selectNodes\<close>: one element of the path for one node, for the nodes selected so far,
  and all elements.\<close>

definition select_element ::
  "selector_element \<Rightarrow> int \<Rightarrow> int list \<Rightarrow> input_structure \<Rightarrow> int list run" where
  "select_element si ni ar2 st =
    (case fst si of
       Sel_Find \<Rightarrow> run_bind (Some (node ni st)) (\<lambda>nd. find_nodes nd (int (snd si)) ar2 st)
     | Sel_Current \<Rightarrow> Some (Inr (ar2 @ [ni]))
     | Sel_Root \<Rightarrow> Some (Inr (ar2 @ [0]))
     | Sel_Next \<Rightarrow> run_bind (Some (node ni st)) (\<lambda>nd. next_nodes nd (int (snd si)) ar2 st)
     | Sel_Up \<Rightarrow> run_bind (Some (node ni st)) (\<lambda>nd. Some (up_node nd ar2)))"

fun select_from :: "selector_element \<Rightarrow> int list \<Rightarrow> int list \<Rightarrow> input_structure \<Rightarrow> int list run" where
  "select_from si [] ar2 st = Some (Inr ar2)"
| "select_from si (ni # nis) ar2 st =
    run_bind (select_element si ni ar2 st) (\<lambda>ar2'. select_from si nis ar2' st)"

fun select_path :: "selector_path \<Rightarrow> int list \<Rightarrow> input_structure \<Rightarrow> int list run" where
  "select_path [] ar1 st = Some (Inr ar1)"
| "select_path (si # sis) ar1 st = run_bind (select_from si ar1 [] st) (\<lambda>ar2. select_path sis ar2 st)"

definition selectNodes :: "selector_path \<Rightarrow> int \<Rightarrow> int list \<Rightarrow> input_structure \<Rightarrow> int list run" where
  "selectNodes path nv ar st =
    run_bind (select_path (dropWhile (\<lambda>si. fst si = Sel_Current) path) [nv] st) (\<lambda>ar1. Some (Inr (ar @ ar1)))"

declare nodepath_loop.simps [code] unique_tag_loop.simps [code] array_loop.simps [code]
  before_loop.simps [code] adopt_loop.simps [code] next_loop.simps [code] find_loop.simps [code]

end
