(* ===== verification/Input_Refinement.thy ===== *)
theory Input_Refinement
  imports Input_Structure
begin

text \<open>
  The linked nodes of \<open>Input_Structure\<close> implement trees. A document under construction is the path of
  its open elements, each with its closed children; opening, closing and assigning values on the
  store do what the operations on this abstract document do, errors included, and all loops
  end. Selections of nodes are selections of subtrees.
\<close>

section \<open>Trees\<close>

record input_label =
  il_tag :: int
  il_tagstr :: int
  il_arrayindex :: int
  il_value :: "variant option"

datatype input_tree = ITree (t_id: int) (t_lab: input_label) (t_kids: "input_tree list")

datatype open_element = OElem (e_id: int) (e_lab: input_label) (e_kids: "input_tree list")

record input_document =
  idoc_count :: int
  idoc_names :: tag_table
  idoc_open :: "open_element list"
  idoc_done :: bool

text \<open>The children of an array: they have no names and increasing indices. When the array is closed
  they take its tag and its place.\<close>

fun array_kids :: "int \<Rightarrow> input_tree list \<Rightarrow> bool" where
  "array_kids a [] = True"
| "array_kids a (t # ts) =
    (il_tagstr (t_lab t) = 0 \<and> a < il_arrayindex (t_lab t) \<and> array_kids (il_arrayindex (t_lab t)) ts)"

definition relabel :: "input_label \<Rightarrow> input_label \<Rightarrow> input_label" where
  "relabel l k = k\<lparr>il_tag := il_tag l, il_tagstr := il_tagstr l\<rparr>"

definition closed_element :: "open_element \<Rightarrow> input_tree list" where
  "closed_element f =
    (if e_kids f \<noteq> [] \<and> array_kids (-1) (e_kids f)
     then ITree (e_id f) (relabel (e_lab f) (t_lab (hd (e_kids f)))) (t_kids (hd (e_kids f)))
       # map (\<lambda>t. ITree (t_id t) (relabel (e_lab f) (t_lab t)) (t_kids t)) (tl (e_kids f))
     else [ITree (e_id f) (e_lab f) (e_kids f)])"

definition doc_path :: "tag_table \<Rightarrow> open_element list \<Rightarrow> string" where
  "doc_path t fs = concat (map (\<lambda>f. case tt_getstr (nat (il_tagstr (e_lab f))) t of None \<Rightarrow> [] | Some n \<Rightarrow> SLASH # n)
    (rev (butlast fs)))"

definition doc_new :: "tag_table \<Rightarrow> input_document" where
  "doc_new tagmap = \<lparr>idoc_count = 1, idoc_names = tt_new (tt_case_sensitive tagmap),
    idoc_open = [OElem 0 \<lparr>il_tag = 0, il_tagstr = 0, il_arrayindex = -1, il_value = None\<rparr> []], idoc_done = False\<rparr>"

definition doc_push :: "input_label \<Rightarrow> tag_table \<Rightarrow> input_document \<Rightarrow> input_document" where
  "doc_push l t d = d\<lparr>idoc_count := idoc_count d + 1, idoc_names := t,
    idoc_open := OElem (idoc_count d) l [] # idoc_open d\<rparr>"

definition doc_open_index :: "(variant \<Rightarrow> 64 word result) \<Rightarrow> variant \<Rightarrow> input_document \<Rightarrow> input_document result" where
  "doc_open_index conv tag d =
    (case variant_toint conv tag of
       Inl (RuntimeError e) \<Rightarrow> Inl (RuntimeError (''array index cannot be converted to integer at ''
         @ quoted (doc_path (idoc_names d) (idoc_open d))))
     | Inl e \<Rightarrow> Inl e
     | Inr w \<Rightarrow>
         if int_of_64 w < 0
         then Inl (RuntimeError (''array index is negative at '' @ quoted (doc_path (idoc_names d) (idoc_open d))))
         else Inr (doc_push \<lparr>il_tag = 0, il_tagstr = 0, il_arrayindex = int_of_64 w, il_value = None\<rparr>
           (idoc_names d) d))"

definition doc_open :: "(variant \<Rightarrow> 64 word result) \<Rightarrow> tag_table \<Rightarrow> variant \<Rightarrow> input_document \<Rightarrow> input_document result" where
  "doc_open conv tagmap tag d =
    (if idoc_done d then Inl (RuntimeError ''tags not balanced in input (open tag after final close)'')
     else case tag of
       V_String n \<Rightarrow> (case tt_get n (idoc_names d) of (tgs, t) \<Rightarrow>
         Inr (doc_push \<lparr>il_tag = tag_or_unused n tagmap, il_tagstr = int tgs, il_arrayindex = -1, il_value = None\<rparr> t d))
     | _ \<Rightarrow> doc_open_index conv tag d)"

definition doc_close :: "input_document \<Rightarrow> input_document result" where
  "doc_close d =
    (case idoc_open d of
       f # g # fs \<Rightarrow> Inr (d\<lparr>idoc_open := OElem (e_id g) (e_lab g) (e_kids g @ closed_element f) # fs\<rparr>)
     | _ \<Rightarrow> if idoc_done d then Inl (RuntimeError ''tags not balanced in input (close tag)'')
            else Inr (d\<lparr>idoc_done := True\<rparr>))"

definition doc_value :: "variant \<Rightarrow> input_document \<Rightarrow> input_document result" where
  "doc_value v d =
    (if idoc_done d then Inl (RuntimeError ''tags not balanced in input (value after final close)'')
     else let f = hd (idoc_open d) in
       if il_value (e_lab f) \<noteq> None
       then Inl (RuntimeError (''multiple values assigned to one node in the data tree at ''
         @ quoted (doc_path (idoc_names d) (idoc_open d))))
       else Inr (d\<lparr>idoc_open := OElem (e_id f) (e_lab f\<lparr>il_value := Some v\<rparr>) (e_kids f) # tl (idoc_open d)\<rparr>))"

section \<open>The store as a partial function\<close>

definition mem :: "input_structure \<Rightarrow> int \<Rightarrow> input_node option" where
  "mem st i = (if 0 \<le> i \<and> nat i < length (is_nodemem st) then Some (is_nodemem st ! nat i) else None)"

lemma node_Inr_iff: "node i st = Inr nd \<longleftrightarrow> mem st i = Some nd"
  by (auto simp: node_def mem_def)

lemma node_mem [simp]: "mem st i = Some nd \<Longrightarrow> node i st = Inr nd"
  by (simp add: node_Inr_iff)

lemma mem_set_node [simp]: "mem st i = Some nd \<Longrightarrow> mem (set_node i nd' st) = (mem st)(i \<mapsto> nd')"
  by (auto simp: mem_def set_node_def fun_eq_iff nth_list_update split: if_splits)

lemma update_node_mem [simp]: "mem st i = Some nd \<Longrightarrow> update_node i f st = Inr (set_node i (f nd) st)"
  by (simp add: update_node_def)

lemma set_node_fields [simp]:
  "is_content (set_node i nd st) = is_content st" "is_tagmap (set_node i nd st) = is_tagmap st"
  "is_privatetagmap (set_node i nd st) = is_privatetagmap st" "is_visitor (set_node i nd st) = is_visitor st"
  "is_done (set_node i nd st) = is_done st" "length (is_nodemem (set_node i nd st)) = length (is_nodemem st)"
  by (simp_all add: set_node_def)

lemma mem_fields [simp]:
  "mem (st\<lparr>is_content := c\<rparr>) = mem st" "mem (st\<lparr>is_privatetagmap := t\<rparr>) = mem st"
  "mem (st\<lparr>is_visitor := v\<rparr>) = mem st" "mem (st\<lparr>is_done := b\<rparr>) = mem st"
  by (simp_all add: mem_def fun_eq_iff)

lemma mem_alloc: "mem (snd (alloc_node st)) = (mem st)(int (length (is_nodemem st)) \<mapsto> zero_node)"
  by (auto simp: mem_def alloc_node_def fun_eq_iff nth_append)

lemma mem_less: "mem st i = Some nd \<Longrightarrow> 0 \<le> i \<and> i < int (length (is_nodemem st))"
  by (auto simp: mem_def split: if_splits)

section \<open>Representation of trees\<close>

definition value_rep :: "variant list \<Rightarrow> int \<Rightarrow> variant option \<Rightarrow> bool" where
  "value_rep c i vo = (case vo of None \<Rightarrow> i = 0 | Some v \<Rightarrow> 0 < i \<and> nat i < length c \<and> c ! nat i = v)"

definition label_rep :: "variant list \<Rightarrow> input_node \<Rightarrow> input_label \<Rightarrow> bool" where
  "label_rep c nd l = (in_tag nd = il_tag l \<and> in_tagstr nd = il_tagstr l \<and> in_arrayindex nd = il_arrayindex l
    \<and> value_rep c (in_value nd) (il_value l))"

definition first_or :: "int \<Rightarrow> input_tree list \<Rightarrow> int" where
  "first_or n ts = (case ts of [] \<Rightarrow> n | t # _ \<Rightarrow> t_id t)"

definition last_or :: "int \<Rightarrow> input_tree list \<Rightarrow> int" where
  "last_or n ts = (if n \<noteq> 0 \<or> ts = [] then n else t_id (last ts))"

text \<open>A node with its children; \<open>n\<close> is the open child behind the closed ones, if there is one.\<close>

definition node_rep :: "variant list \<Rightarrow> input_node \<Rightarrow> input_label \<Rightarrow> int \<Rightarrow> int \<Rightarrow> input_tree list \<Rightarrow> bool" where
  "node_rep c nd l nxt n ks = (label_rep c nd l \<and> in_next nd = nxt \<and> in_firstchild nd = first_or n ks
    \<and> in_lastchild nd = last_or n ks)"

fun rep :: "(int \<Rightarrow> input_node option) \<Rightarrow> variant list \<Rightarrow> int \<Rightarrow> input_tree \<Rightarrow> bool"
and reps :: "(int \<Rightarrow> input_node option) \<Rightarrow> variant list \<Rightarrow> int \<Rightarrow> input_tree list \<Rightarrow> bool" where
  "rep h c nxt (ITree i l ks) = ((\<exists>nd. h i = Some nd \<and> node_rep c nd l nxt 0 ks) \<and> reps h c 0 ks)"
| "reps h c nxt [] = True"
| "reps h c nxt (t # ts) = (rep h c (first_or nxt ts) t \<and> reps h c nxt ts)"

fun ids :: "input_tree \<Rightarrow> int list" where
  "ids (ITree i l ks) = i # concat (map ids ks)"

abbreviation idss :: "input_tree list \<Rightarrow> int list" where
  "idss ts \<equiv> concat (map ids ts)"

lemma first_or_simps [simp]:
  "first_or n [] = n" "first_or n (t # ts) = t_id t" "first_or n (ts @ us) = first_or (first_or n us) ts"
  by (simp_all add: first_or_def split: list.split)

lemma reps_append [simp]: "reps h c n (ts @ us) = (reps h c (first_or n us) ts \<and> reps h c n us)"
  by (induction ts) auto

lemma t_id_ids [simp]: "t_id t \<in> set (ids t)"
  by (cases t) simp

lemma top_ids: "t_id ` set ts \<subseteq> set (idss ts)"
  by auto

lemma first_or_in: "ts \<noteq> [] \<Longrightarrow> first_or n ts \<in> set (idss ts)"
  by (cases ts) auto

lemma last_or_in: "ts \<noteq> [] \<Longrightarrow> last_or 0 ts \<in> set (idss ts)"
  using last_in_set [of ts] by (auto simp: last_or_def intro!: bexI [of _ "last ts"])

lemma first_or_eq_0: "0 \<notin> set (idss ts) \<Longrightarrow> first_or 0 ts = 0 \<longleftrightarrow> ts = []"
  by (metis first_or_in first_or_simps(1))

lemma last_or_eq_0: "0 \<notin> set (idss ts) \<Longrightarrow> last_or 0 ts = 0 \<longleftrightarrow> ts = []"
  by (metis last_or_in last_or_def)

lemma value_rep_mono: "value_rep c i vo \<Longrightarrow> value_rep (c @ d) i vo"
  by (auto simp: value_rep_def nth_append split: option.splits)

lemma node_rep_mono: "node_rep c nd l nxt n ks \<Longrightarrow> node_rep (c @ d) nd l nxt n ks"
  by (simp add: node_rep_def label_rep_def value_rep_mono)

text \<open>A tree depends on its own nodes only, and values are only added.\<close>

lemma rep_frame:
  "rep h c n t \<Longrightarrow> (\<And>i. i \<in> set (ids t) \<Longrightarrow> h' i = h i) \<Longrightarrow> rep h' (c @ d) n t"
  "reps h c n ts \<Longrightarrow> (\<And>i. i \<in> set (idss ts) \<Longrightarrow> h' i = h i) \<Longrightarrow> reps h' (c @ d) n ts"
  by (induction h c n t and h c n ts rule: rep_reps.induct) (auto intro: node_rep_mono)

lemmas rep_frame_same = rep_frame [where d = "[]", simplified]

lemma rep_allocated:
  "rep h c n t \<Longrightarrow> i \<in> set (ids t) \<Longrightarrow> h i \<noteq> None"
  "reps h c n ts \<Longrightarrow> i \<in> set (idss ts) \<Longrightarrow> h i \<noteq> None"
  by (induction h c n t and h c n ts rule: rep_reps.induct) auto

section \<open>Representation of documents\<close>

text \<open>\<open>n\<close> is the open child of the innermost element of the list; the next sibling of an open element
  is none, its parent is the element around it.\<close>

fun opens :: "(int \<Rightarrow> input_node option) \<Rightarrow> variant list \<Rightarrow> int \<Rightarrow> open_element list \<Rightarrow> bool" where
  "opens h c n [] = True"
| "opens h c n (f # fs) =
    ((\<exists>nd. h (e_id f) = Some nd \<and> node_rep c nd (e_lab f) 0 n (e_kids f)
        \<and> in_parent nd = (if fs = [] then -1 else e_id (hd fs)))
     \<and> reps h c n (e_kids f) \<and> opens h c (e_id f) fs)"

fun open_ids :: "open_element list \<Rightarrow> int list" where
  "open_ids [] = []"
| "open_ids (f # fs) = e_id f # idss (e_kids f) @ open_ids fs"

text \<open>All nodes are different, only the root is the node 0.\<close>

definition open_wf :: "open_element list \<Rightarrow> bool" where
  "open_wf fs = (distinct (open_ids fs) \<and> fs \<noteq> [] \<and> e_id (last fs) = 0)"

definition represents :: "tag_table \<Rightarrow> input_structure \<Rightarrow> input_document \<Rightarrow> bool" where
  "represents tagmap st d =
    (is_tagmap st = tagmap \<and> opens (mem st) (is_content st) 0 (idoc_open d) \<and> open_wf (idoc_open d)
     \<and> is_visitor st = e_id (hd (idoc_open d)) \<and> is_privatetagmap st = idoc_names d
     \<and> is_done st = idoc_done d \<and> idoc_count d = int (length (is_nodemem st)) \<and> is_content st \<noteq> [])"

lemma opens_frame:
  "opens h c n fs \<Longrightarrow> (\<And>i. i \<in> set (open_ids fs) \<Longrightarrow> h' i = h i) \<Longrightarrow> opens h' (c @ d) n fs"
proof (induction fs arbitrary: n)
  case (Cons f fs)
  from Cons.prems(1) have r: "reps h c n (e_kids f)" by simp
  show ?case using Cons.prems Cons.IH [of "e_id f"] rep_frame(2) [OF r, of h' d] by (auto intro: node_rep_mono)
qed simp

lemmas opens_frame_same = opens_frame [where d = "[]", simplified]

lemma opens_allocated: "opens h c n fs \<Longrightarrow> i \<in> set (open_ids fs) \<Longrightarrow> h i \<noteq> None"
proof (induction fs arbitrary: n)
  case (Cons f fs)
  from Cons.prems(1) have "reps h c n (e_kids f)" by simp
  from rep_allocated(2) [OF this, of i] Cons show ?case by auto
qed simp

lemma e_id_last_in: "fs \<noteq> [] \<Longrightarrow> e_id (last fs) \<in> set (open_ids fs)"
  by (induction fs) auto

lemma kids_nonzero:
  assumes "open_wf (f # fs)"
  shows "0 \<notin> set (idss (e_kids f))" and "fs \<noteq> [] \<Longrightarrow> e_id f \<noteq> 0"
  using assms e_id_last_in [of fs] by (auto simp: open_wf_def split: if_splits)

lemma open_wf_distinct:
  assumes "open_wf (f # fs)"
  shows "distinct (idss (e_kids f))" and "e_id f \<notin> set (idss (e_kids f))" and "distinct (open_ids fs)"
    and "e_id f \<notin> set (open_ids fs)" and "set (idss (e_kids f)) \<inter> set (open_ids fs) = {}"
  using assms by (simp_all add: open_wf_def)

lemma open_wf_tl: "open_wf (f # fs) \<Longrightarrow> fs \<noteq> [] \<Longrightarrow> open_wf fs"
  by (simp add: open_wf_def)

section \<open>The loops\<close>

lemma nodepath_loop_opens:
  assumes "opens (mem st) c n fs" and "open_wf fs"
  shows "nodepath_loop (e_id (hd fs)) pt st =
    Some (Inr (foldl (\<lambda>pt f. case tt_getstr (nat (il_tagstr (e_lab f))) (is_privatetagmap st) of
      None \<Rightarrow> pt | Some tn \<Rightarrow> tn # pt) pt (butlast fs)))"
  using assms
proof (induction fs arbitrary: n pt)
  case (Cons f fs)
  show ?case
  proof (cases "fs = []")
    case True
    with Cons.prems(2) show ?thesis by (simp add: nodepath_loop.simps open_wf_def)
  next
    case False
    from Cons.prems(1) False obtain nd where nd: "mem st (e_id f) = Some nd" "node_rep c nd (e_lab f) 0 n (e_kids f)"
      "in_parent nd = e_id (hd fs)" "opens (mem st) c (e_id f) fs" by auto
    then have "tagname nd st = tt_getstr (nat (il_tagstr (e_lab f))) (is_privatetagmap st)"
      by (simp add: tagname_def node_rep_def label_rep_def)
    then show ?thesis
      using nd False kids_nonzero(2) [OF Cons.prems(2) False] Cons.IH [OF nd(4) open_wf_tl [OF Cons.prems(2) False]]
      by (simp add: nodepath_loop.simps [of "e_id f"])
  qed
qed (simp add: open_wf_def)

lemma nodepath_foldl:
  "concat (map (\<lambda>tn. SLASH # tn) (foldl (\<lambda>pt f. case g f of None \<Rightarrow> pt | Some tn \<Rightarrow> tn # pt) pt fs))
    = concat (map (\<lambda>f. case g f of None \<Rightarrow> [] | Some n \<Rightarrow> SLASH # n) (rev fs)) @ concat (map (\<lambda>tn. SLASH # tn) pt)"
  by (induction fs arbitrary: pt) (auto split: option.split)

lemma nodepath_opens:
  assumes "opens (mem st) c n (f # fs)" and "open_wf (f # fs)"
  shows "nodepath (e_id f) st = Some (Inr (doc_path (is_privatetagmap st) (f # fs)))"
  using nodepath_loop_opens [OF assms, of "[]"] by (simp add: nodepath_def nodepath_foldl doc_path_def)

lemma array_loop_reps:
  "reps (mem st) c 0 ts \<Longrightarrow> ts \<noteq> [] \<Longrightarrow> 0 \<notin> set (idss ts) \<Longrightarrow>
    array_loop (first_or 0 ts) a st = Some (Inr (array_kids a ts))"
proof (induction ts arbitrary: a)
  case (Cons t ts)
  obtain i l ks where t: "t = ITree i l ks" by (cases t)
  with Cons.prems obtain nd where nd: "mem st i = Some nd" "node_rep c nd l (first_or 0 ts) 0 ks" by auto
  have next0: "in_next nd = 0 \<longleftrightarrow> ts = []"
    using nd(2) Cons.prems(3) first_or_eq_0 [of ts] by (simp add: node_rep_def)
  show ?case
    using t nd next0 Cons.IH Cons.prems
    by (cases "ts = []") (auto simp: array_loop.simps [of i] node_rep_def label_rep_def)
qed simp

lemma next_loop_reps:
  "reps (mem st) c 0 ts \<Longrightarrow> ts \<noteq> [] \<Longrightarrow> 0 \<notin> set (idss ts) \<Longrightarrow>
    next_loop tag (first_or 0 ts) acc st =
      Some (Inr (acc @ map t_id (filter (\<lambda>t. tag = 0 \<or> il_tag (t_lab t) = tag) ts)))"
proof (induction ts arbitrary: acc)
  case (Cons t ts)
  obtain i l ks where t: "t = ITree i l ks" by (cases t)
  with Cons.prems obtain nd where nd: "mem st i = Some nd" "node_rep c nd l (first_or 0 ts) 0 ks" by auto
  have next0: "in_next nd = 0 \<longleftrightarrow> ts = []"
    using nd(2) Cons.prems(3) first_or_eq_0 [of ts] by (simp add: node_rep_def)
  show ?case
    using t nd next0 Cons.IH Cons.prems
    by (cases "ts = []") (auto simp: next_loop.simps [of _ i] node_rep_def label_rep_def)
qed simp

text \<open>The nodes below a node, in the order of the document.\<close>

fun descendants :: "input_tree \<Rightarrow> input_tree list" where
  "descendants (ITree i l ks) = ITree i l ks # concat (map descendants ks)"

lemma find_loop_reps:
  "reps (mem st) c 0 ts \<Longrightarrow> ts \<noteq> [] \<Longrightarrow> 0 \<notin> set (idss ts) \<Longrightarrow>
    find_loop tag (first_or 0 ts) acc st =
      Some (Inr (acc @ map t_id (filter (\<lambda>t. tag = 0 \<or> il_tag (t_lab t) = tag) (concat (map descendants ts)))))"
proof (induction ts arbitrary: acc rule: measure_induct_rule [of "\<lambda>ts. length (idss ts)"])
  case (less ts)
  then obtain i l ks us where ts: "ts = ITree i l ks # us" by (metis input_tree.exhaust neq_Nil_conv)
  with less.prems obtain nd where nd: "mem st i = Some nd" "node_rep c nd l (first_or 0 us) 0 ks"
    and r: "reps (mem st) c 0 ks" "reps (mem st) c 0 us" and z: "0 \<notin> set (idss ks)" "0 \<notin> set (idss us)" by auto
  have zero: "in_next nd = 0 \<longleftrightarrow> us = []" "in_firstchild nd = 0 \<longleftrightarrow> ks = []"
    using nd(2) first_or_eq_0 z by (simp_all add: node_rep_def)
  have ks: "find_loop tag (first_or 0 ks) acc' st = Some (Inr (acc' @ map t_id
      (filter (\<lambda>t. tag = 0 \<or> il_tag (t_lab t) = tag) (concat (map descendants ks)))))" if "ks \<noteq> []" for acc'
    using less.IH [of ks acc'] that r z ts by simp
  have us: "find_loop tag (first_or 0 us) acc' st = Some (Inr (acc' @ map t_id
      (filter (\<lambda>t. tag = 0 \<or> il_tag (t_lab t) = tag) (concat (map descendants us)))))" if "us \<noteq> []" for acc'
    using less.IH [of us acc'] that r z ts by simp
  show ?case
    using nd zero ks us ts
    by (cases "us = []"; cases "ks = []") (auto simp: find_loop.simps [of _ i] node_rep_def label_rep_def)
qed

section \<open>Opening an element\<close>

lemma mem_new: "mem st (int (length (is_nodemem st))) = None"
  by (simp add: mem_def)

text \<open>The next link of the last of some trees.\<close>

lemma reps_extend:
  assumes "reps h c n ts" and "ts \<noteq> []" and "distinct (idss ts)" and "h (t_id (last ts)) = Some nd"
  shows "reps (h(t_id (last ts) \<mapsto> nd\<lparr>in_next := m\<rparr>)) c m ts"
proof -
  obtain us i l ks where ts: "ts = us @ [ITree i l ks]"
    using assms(2) by (metis append_butlast_last_id input_tree.exhaust)
  let ?h = "h(i \<mapsto> nd\<lparr>in_next := m\<rparr>)"
  have "reps ?h c i us" using assms(1,3) ts by (auto intro!: rep_frame_same(2) [of h])
  moreover have "reps ?h c 0 ks" using assms(1,3) ts by (auto intro!: rep_frame_same(2) [of h])
  moreover have "node_rep c (nd\<lparr>in_next := m\<rparr>) l m 0 ks"
    using assms(1,4) ts by (auto simp: node_rep_def label_rep_def)
  ultimately show ?thesis using ts by simp
qed

definition child_node :: "int \<Rightarrow> input_node" where
  "child_node nv = zero_node\<lparr>in_arrayindex := -1, in_parent := nv\<rparr>"

text \<open>Only nodes are different, none is removed or added.\<close>

definition same_rest :: "input_structure \<Rightarrow> input_structure \<Rightarrow> bool" where
  "same_rest st st' = (is_content st' = is_content st \<and> is_privatetagmap st' = is_privatetagmap st
    \<and> is_tagmap st' = is_tagmap st \<and> is_done st' = is_done st \<and> is_visitor st' = is_visitor st
    \<and> length (is_nodemem st') = length (is_nodemem st))"

lemma same_rest_set_node [simp]: "same_rest st (set_node i nd st') \<longleftrightarrow> same_rest st st'"
  by (simp add: same_rest_def)

lemma same_rest_refl [simp]: "same_rest st st"
  by (simp add: same_rest_def)

lemma link_first_child:
  assumes "opens (mem st) c 0 (f # fs)" and "open_wf (f # fs)" and "e_kids f = []"
    and "mem st (e_id f) = Some nd" and "n \<notin> set (open_ids (f # fs))"
  shows "opens ((mem st)(e_id f \<mapsto> nd\<lparr>in_firstchild := n, in_lastchild := n\<rparr>)) c n (f # fs)"
proof -
  have "opens ((mem st)(e_id f \<mapsto> nd\<lparr>in_firstchild := n, in_lastchild := n\<rparr>)) c (e_id f) fs"
  proof (rule opens_frame_same)
    show "opens (mem st) c (e_id f) fs" using assms(1) by simp
  qed (use assms(2) in \<open>auto simp: open_wf_def\<close>)
  then show ?thesis using assms(1,3,4) by (auto simp: node_rep_def label_rep_def last_or_def)
qed

lemma link_next_child:
  assumes "opens (mem st) c 0 (f # fs)" and "open_wf (f # fs)" and "e_kids f \<noteq> []" and "n \<noteq> 0"
    and "mem st (e_id f) = Some nd" and "mem st (t_id (last (e_kids f))) = Some ld" and "n \<notin> set (open_ids (f # fs))"
  shows "opens ((mem st)(e_id f \<mapsto> nd\<lparr>in_lastchild := n\<rparr>, t_id (last (e_kids f)) \<mapsto> ld\<lparr>in_next := n\<rparr>)) c n (f # fs)"
    (is "opens ?h c n _") and "t_id (last (e_kids f)) \<noteq> e_id f"
proof -
  let ?l = "t_id (last (e_kids f))"
  have l: "?l \<in> set (idss (e_kids f))" using last_or_in [OF assms(3)] assms(3) by (simp add: last_or_def)
  have dist: "distinct (open_ids (f # fs))" using assms(2) by (simp add: open_wf_def)
  then show ne: "?l \<noteq> e_id f" using l by auto
  have "opens ?h c (e_id f) fs"
  proof (rule opens_frame_same)
    show "opens (mem st) c (e_id f) fs" using assms(1) by simp
  qed (use dist l in auto)
  moreover have "reps ?h c n (e_kids f)"
  proof (rule rep_frame_same(2))
    show "reps ((mem st)(?l \<mapsto> ld\<lparr>in_next := n\<rparr>)) c n (e_kids f)"
      using dist assms(1) by (intro reps_extend [of "mem st" c 0, OF _ assms(3) _ assms(6)]) simp_all
  qed (use dist in auto)
  ultimately show "opens ?h c n (f # fs)"
    using ne assms by (cases "e_kids f") (auto simp: node_rep_def label_rep_def last_or_def)
qed

lemma createChildNode_opens:
  assumes "opens (mem st) (is_content st) 0 (f # fs)" and "open_wf (f # fs)"
  shows "\<exists>st'. createChildNode (e_id f) st = Inr (int (length (is_nodemem st)), st')
    \<and> opens (mem st') (is_content st) (int (length (is_nodemem st))) (f # fs)
    \<and> mem st' (int (length (is_nodemem st))) = Some (child_node (e_id f))
    \<and> same_rest (snd (alloc_node st)) st'"
proof -
  let ?n = "int (length (is_nodemem st))" and ?c = "is_content st" and ?st1 = "snd (alloc_node st)"
  have fresh: "?n \<notin> set (open_ids (f # fs))"
    using opens_allocated [OF assms(1), of ?n] mem_new [of st] by blast
  have m1: "mem ?st1 = (mem st)(?n \<mapsto> zero_node)" by (rule mem_alloc)
  have o1: "opens (mem ?st1) ?c 0 (f # fs)"
    using fresh m1 by (intro opens_frame_same [OF assms(1)]) auto
  then obtain nd where nd: "mem ?st1 (e_id f) = Some nd" "node_rep ?c nd (e_lab f) 0 0 (e_kids f)" by auto
  have n0: "?n \<noteq> 0" "?n \<noteq> e_id f" using mem_less [of st 0] assms fresh
    opens_allocated [OF assms(1), of 0] e_id_last_in [of "f # fs"] by (auto simp: open_wf_def)
  have "\<exists>st2. (if in_lastchild nd = 0
         then update_node (e_id f) (\<lambda>m. m\<lparr>in_firstchild := ?n, in_lastchild := ?n\<rparr>) ?st1
         else rbind (update_node (e_id f) (\<lambda>m. m\<lparr>in_lastchild := ?n\<rparr>) ?st1)
           (update_node (in_lastchild nd) (\<lambda>m. m\<lparr>in_next := ?n\<rparr>))) = Inr st2
       \<and> opens (mem st2) ?c ?n (f # fs) \<and> mem st2 ?n = Some zero_node \<and> same_rest ?st1 st2"
  proof (cases "e_kids f = []")
    case True
    then show ?thesis using nd m1 n0 link_first_child [OF o1 assms(2) True nd(1) fresh]
      by (simp add: node_rep_def last_or_def)
  next
    case False
    let ?l = "t_id (last (e_kids f))"
    have l: "?l \<in> set (open_ids (f # fs))" using last_or_in [OF False] False by (simp add: last_or_def)
    obtain ld where ld: "mem ?st1 ?l = Some ld" using opens_allocated [OF o1 l] by blast
    have "in_lastchild nd = ?l" "?l \<noteq> 0" "?l \<noteq> ?n"
      using nd(2) False l fresh last_or_eq_0 [OF kids_nonzero(1) [OF assms(2)]] by (auto simp: node_rep_def last_or_def)
    then show ?thesis
      using nd(1) ld m1 n0 link_next_child [OF o1 assms(2) False n0(1) nd(1) ld fresh] by simp
  qed
  then obtain st2 where st2: "(if in_lastchild nd = 0
         then update_node (e_id f) (\<lambda>m. m\<lparr>in_firstchild := ?n, in_lastchild := ?n\<rparr>) ?st1
         else rbind (update_node (e_id f) (\<lambda>m. m\<lparr>in_lastchild := ?n\<rparr>) ?st1)
           (update_node (in_lastchild nd) (\<lambda>m. m\<lparr>in_next := ?n\<rparr>))) = Inr st2"
      "opens (mem st2) ?c ?n (f # fs)" "mem st2 ?n = Some zero_node" "same_rest ?st1 st2" by blast
  have "opens ((mem st2)(?n \<mapsto> child_node (e_id f))) ?c ?n (f # fs)"
    using fresh by (intro opens_frame_same [OF st2(2)]) auto
  then show ?thesis using st2 nd(1)
    by (auto simp: createChildNode_def alloc_node_def child_node_def)
qed

text \<open>An operation on the store does what the operation on the document does.\<close>

definition simulates :: "tag_table \<Rightarrow> input_structure run \<Rightarrow> input_document result \<Rightarrow> bool" where
  "simulates tagmap r a =
    (case a of Inl e \<Rightarrow> r = Some (Inl e) | Inr d \<Rightarrow> \<exists>st. r = Some (Inr st) \<and> represents tagmap st d)"

lemma simulates_Inl [simp]: "simulates tagmap r (Inl e) \<longleftrightarrow> r = Some (Inl e)"
  by (simp add: simulates_def)

lemma simulates_Inr [simp]: "simulates tagmap (Some (Inr st)) (Inr d) \<longleftrightarrow> represents tagmap st d"
  by (simp add: simulates_def)

text \<open>A new element, whose node is labelled in \<open>st2\<close>.\<close>

lemma push_represents:
  assumes "represents tagmap st d" and "idoc_open d = f # fs"
    and "opens (mem st1) (is_content st) n (f # fs)" and "mem st1 n = Some (child_node (e_id f))"
    and "same_rest (snd (alloc_node st)) st1" and "n = idoc_count d"
    and "l = \<lparr>il_tag = tg, il_tagstr = ts, il_arrayindex = ai, il_value = None\<rparr>"
    and "st2 = (set_node n (child_node (e_id f)\<lparr>in_tag := tg, in_tagstr := ts, in_arrayindex := ai\<rparr>)
      (st1\<lparr>is_privatetagmap := t\<rparr>))\<lparr>is_visitor := n\<rparr>"
  shows "represents tagmap st2 (doc_push l t d)"
proof -
  have n: "n = int (length (is_nodemem st))" and op: "opens (mem st) (is_content st) 0 (f # fs)" and wf: "open_wf (f # fs)"
    using assms(1,2,6) by (auto simp: represents_def)
  have fresh: "n \<notin> set (open_ids (f # fs))"
    using opens_allocated [OF op, of n] mem_new [of st] unfolding n by blast
  have m: "mem st2 = (mem st1)(n \<mapsto> child_node (e_id f)\<lparr>in_tag := tg, in_tagstr := ts, in_arrayindex := ai\<rparr>)"
    using assms(4,8) by simp
  have "opens (mem st2) (is_content st) n (f # fs)"
    using fresh m by (intro opens_frame_same [OF assms(3)]) auto
  moreover have "node_rep (is_content st) (child_node (e_id f)\<lparr>in_tag := tg, in_tagstr := ts, in_arrayindex := ai\<rparr>) l 0 0 []"
    using assms(7) by (simp add: node_rep_def label_rep_def value_rep_def child_node_def zero_node_def last_or_def)
  ultimately have "opens (mem st2) (is_content st) 0 (OElem n l [] # f # fs)"
    using m by (simp add: child_node_def)
  then show ?thesis
    using assms fresh wf by (auto simp: represents_def doc_push_def same_rest_def alloc_node_def open_wf_def)
qed

lemma openTag_index_simulates:
  assumes rep: "represents tagmap st d" and fs: "idoc_open d = f # fs" and n: "n = idoc_count d"
    and st1: "opens (mem st1) (is_content st) n (f # fs)" "mem st1 n = Some (child_node (e_id f))"
      "same_rest (snd (alloc_node st)) st1"
  shows "simulates tagmap
    (run_bind (openTag_index conv (e_id f) tag n st1) (\<lambda>(nv, st2). Some (Inr (st2\<lparr>is_visitor := nv\<rparr>))))
    (doc_open_index conv tag d)"
proof -
  let ?nd = "\<lambda>ai. child_node (e_id f)\<lparr>in_arrayindex := ai\<rparr>"
  have op: "opens (mem st) (is_content st) 0 (f # fs)" and wf: "open_wf (f # fs)"
    and names: "is_privatetagmap st1 = idoc_names d" and len: "n = int (length (is_nodemem st))"
    using rep fs st1(3) n by (auto simp: represents_def same_rest_def alloc_node_def)
  have "n \<notin> set (open_ids (f # fs))" using opens_allocated [OF op, of n] mem_new [of st] unfolding len by blast
  then have op2: "opens (mem (set_node n (?nd ai) st1)) (is_content st) n (f # fs)" for ai
    using st1(2) by (intro opens_frame_same [OF st1(1)]) auto
  have path: "nodepath (e_id f) st1 = Some (Inr (doc_path (idoc_names d) (f # fs)))"
    "nodepath (e_id f) (set_node n (?nd ai) st1) = Some (Inr (doc_path (idoc_names d) (f # fs)))" for ai
    using nodepath_opens [OF st1(1) wf] nodepath_opens [OF op2 wf] names by simp_all
  show ?thesis
  proof (cases "variant_toint conv tag")
    case (Inl e)
    then show ?thesis using path(1) fs by (cases e) (simp_all add: openTag_index_def doc_open_index_def raise_at_def)
  next
    case (Inr w)
    have "?nd ai = child_node (e_id f)\<lparr>in_tag := 0, in_tagstr := 0, in_arrayindex := ai\<rparr>" for ai
      by (simp add: child_node_def zero_node_def)
    then have "represents tagmap ((set_node n (?nd (int_of_64 w)) st1)\<lparr>is_visitor := n\<rparr>)
        (doc_push \<lparr>il_tag = 0, il_tagstr = 0, il_arrayindex = int_of_64 w, il_value = None\<rparr> (idoc_names d) d)"
      using names by (intro push_represents [OF rep fs st1 n refl]) (cases st1, simp)
    then show ?thesis
      using Inr st1(2) path(2) fs by (simp add: openTag_index_def doc_open_index_def raise_at_def)
  qed
qed

lemma openTag_simulates:
  assumes rep: "represents tagmap st d"
  shows "simulates tagmap (openTag_here conv tag st) (doc_open conv tagmap tag d)"
proof (cases "idoc_done d")
  case True
  then show ?thesis using assms by (simp add: openTag_here_def openTag_def doc_open_def represents_def)
next
  case False
  obtain f fs where fs: "idoc_open d = f # fs" using rep by (auto simp: represents_def open_wf_def neq_Nil_conv)
  then have op: "opens (mem st) (is_content st) 0 (f # fs)" and wf: "open_wf (f # fs)"
    and d: "is_visitor st = e_id f" "\<not> is_done st" "int (length (is_nodemem st)) = idoc_count d"
    using rep False by (auto simp: represents_def)
  let ?n = "idoc_count d"
  obtain st1 where st1: "createChildNode (e_id f) st = Inr (?n, st1)" "opens (mem st1) (is_content st) ?n (f # fs)"
    "mem st1 ?n = Some (child_node (e_id f))" "same_rest (snd (alloc_node st)) st1"
    using createChildNode_opens [OF op wf] d(3) by auto
  have same: "is_privatetagmap st1 = idoc_names d" "is_tagmap st1 = tagmap"
    using st1(4) rep by (simp_all add: same_rest_def alloc_node_def represents_def)
  note index = openTag_index_simulates [OF rep fs refl st1(2-4), of conv tag]
  show ?thesis
  proof (cases "\<exists>s. tag = V_String s")
    case True
    then obtain s tgs t where s: "tag = V_String s" "tt_get s (idoc_names d) = (tgs, t)" by (metis surj_pair)
    let ?nd = "child_node (e_id f)\<lparr>in_tag := tag_or_unused s tagmap, in_tagstr := int tgs\<rparr>"
    have "?nd = child_node (e_id f)\<lparr>in_tag := tag_or_unused s tagmap, in_tagstr := int tgs, in_arrayindex := -1\<rparr>"
      by (simp add: child_node_def zero_node_def)
    then have "represents tagmap ((set_node ?n ?nd (st1\<lparr>is_privatetagmap := t\<rparr>))\<lparr>is_visitor := ?n\<rparr>)
        (doc_push \<lparr>il_tag = tag_or_unused s tagmap, il_tagstr = int tgs, il_arrayindex = -1, il_value = None\<rparr> t d)"
      by (intro push_represents [OF rep fs st1(2-4) refl refl]) simp
    then show ?thesis
      using s False d st1(1,3) same by (simp add: openTag_here_def openTag_def doc_open_def set_tag_def)
  next
    case nostring: False
    then show ?thesis
      using index False d(1,2) st1(1) by (cases tag) (simp_all add: openTag_here_def openTag_def doc_open_def)
  qed
qed

section \<open>Values\<close>

lemma pushValue_simulates:
  assumes "represents tagmap st d"
  shows "simulates tagmap (pushValue_here v st) (doc_value v d)"
proof -
  obtain f fs where fs: "idoc_open d = f # fs" using assms by (auto simp: represents_def open_wf_def neq_Nil_conv)
  let ?c = "is_content st" and ?i = "int (length (is_content st))"
  have op: "opens (mem st) ?c 0 (f # fs)" and wf: "open_wf (f # fs)" and c: "?c \<noteq> []"
    using assms fs by (auto simp: represents_def)
  then obtain nd where nd: "mem st (e_id f) = Some nd" "node_rep ?c nd (e_lab f) 0 0 (e_kids f)"
    "in_parent nd = (if fs = [] then -1 else e_id (hd fs))" by auto
  have v: "in_value nd = 0 \<longleftrightarrow> il_value (e_lab f) = None"
    using nd(2) by (auto simp: node_rep_def label_rep_def value_rep_def split: option.splits)
  let ?h = "(mem st)(e_id f \<mapsto> nd\<lparr>in_value := ?i\<rparr>)" and ?l = "e_lab f\<lparr>il_value := Some v\<rparr>"
  have dist: "distinct (open_ids (f # fs))" using wf by (simp add: open_wf_def)
  have r: "reps ?h (?c @ [v]) 0 (e_kids f)"
    using op dist by (intro rep_frame(2) [of "mem st"]) auto
  have o: "opens ?h (?c @ [v]) (e_id f) fs"
  proof (rule opens_frame)
    show "opens (mem st) ?c (e_id f) fs" using op by simp
  qed (use dist in auto)
  have "node_rep (?c @ [v]) (nd\<lparr>in_value := ?i\<rparr>) ?l 0 0 (e_kids f)"
    using nd(2) c by (simp add: node_rep_def label_rep_def value_rep_def)
  then have "opens ?h (?c @ [v]) 0 (OElem (e_id f) ?l (e_kids f) # fs)" using r o nd(3) by simp
  moreover have "open_wf (OElem (e_id f) ?l (e_kids f) # fs)" using wf by (auto simp: open_wf_def)
  ultimately show ?thesis
    using assms fs nd(1) v nodepath_opens [OF op wf]
    by (auto simp: pushValue_here_def pushValue_def doc_value_def raise_at_def represents_def Let_def)
qed

section \<open>Closing an element\<close>

definition adopted :: "input_node \<Rightarrow> input_node \<Rightarrow> input_node" where
  "adopted nd cd = cd\<lparr>in_tag := in_tag nd, in_tagstr := in_tagstr nd, in_parent := in_parent nd\<rparr>"

definition retagged :: "input_label \<Rightarrow> input_tree \<Rightarrow> input_tree" where
  "retagged l t = ITree (t_id t) (relabel l (t_lab t)) (t_kids t)"

definition adopt_all :: "input_node \<Rightarrow> input_tree list \<Rightarrow> (int \<Rightarrow> input_node option) \<Rightarrow> int \<Rightarrow> input_node option" where
  "adopt_all nd ts h i = (if i \<in> t_id ` set ts then map_option (adopted nd) (h i) else h i)"

lemma retagged_simps [simp]:
  "t_id (retagged l t) = t_id t" "t_kids (retagged l t) = t_kids t" "ids (retagged l t) = ids t"
  by (cases t; simp add: retagged_def)+

lemma retagged_ITree [simp]: "retagged l (ITree i k ks) = ITree i (relabel l k) ks"
  by (simp add: retagged_def)

lemma adopt_all_first [simp]: "adopt_all nd (t # ts) h (t_id t) = map_option (adopted nd) (h (t_id t))"
  by (simp add: adopt_all_def)

lemma first_or_retagged [simp]: "first_or n (map (retagged l) ts) = first_or n ts"
  by (cases ts) auto

lemma closed_element_array:
  assumes "e_kids f = t # ts" and "array_kids (-1) (t # ts)"
  shows "closed_element f = ITree (e_id f) (relabel (e_lab f) (t_lab t)) (t_kids t) # map (retagged (e_lab f)) ts"
  using assms by (simp add: closed_element_def retagged_def)

lemma adopt_loop_reps:
  assumes "reps (mem st) c 0 ts" and "ts \<noteq> []" and "distinct (idss ts)" and "0 \<notin> set (idss ts)"
    and "mem st nv = Some nd" and "nv \<notin> set (idss ts)"
  shows "\<exists>st'. adopt_loop nv (first_or 0 ts) st = Some (Inr st') \<and> same_rest st st' \<and> mem st' = adopt_all nd ts (mem st)"
  using assms
proof (induction ts arbitrary: st)
  case (Cons t ts)
  obtain i l ks where t: "t = ITree i l ks" by (cases t)
  with Cons.prems(1) obtain cd where cd: "mem st i = Some cd" "node_rep c cd l (first_or 0 ts) 0 ks" by auto
  let ?st1 = "set_node i (adopted nd cd) st"
  have m1: "mem ?st1 = (mem st)(i \<mapsto> adopted nd cd)" using cd(1) by simp
  have next0: "in_next cd = first_or 0 ts" "first_or 0 ts = 0 \<longleftrightarrow> ts = []"
    using cd(2) Cons.prems(4) first_or_eq_0 [of ts] by (simp_all add: node_rep_def)
  have step: "adopt_loop nv i st = (if ts = [] then Some (Inr ?st1) else adopt_loop nv (first_or 0 ts) ?st1)"
    using Cons.prems(5) cd(1) m1 next0 by (simp add: adopt_loop.simps [of nv i] adopted_def)
  show ?case
  proof (cases "ts = []")
    case True
    then show ?thesis using step t m1 cd(1) by (auto simp: adopt_all_def fun_eq_iff)
  next
    case False
    have i: "i \<notin> set (idss ts)" "i \<notin> t_id ` set ts" using Cons.prems(3) t by auto
    have "\<exists>st'. adopt_loop nv (first_or 0 ts) ?st1 = Some (Inr st') \<and> same_rest ?st1 st' \<and> mem st' = adopt_all nd ts (mem ?st1)"
    proof (rule Cons.IH [OF _ False])
      have "reps (mem st) c 0 ts" using Cons.prems(1) by simp
      then show "reps (mem ?st1) c 0 ts" by (rule rep_frame_same(2)) (use i m1 in auto)
      show "mem ?st1 nv = Some nd" using Cons.prems(5,6) t m1 by auto
    qed (use Cons.prems(3,4,6) in auto)
    then obtain st' where "adopt_loop nv (first_or 0 ts) ?st1 = Some (Inr st')" "same_rest ?st1 st'"
      "mem st' = adopt_all nd ts (mem ?st1)" by blast
    then show ?thesis using step t False m1 cd(1) i
      by (auto simp: adopt_all_def fun_eq_iff same_rest_def)
  qed
qed simp

lemma reps_adopted:
  assumes "reps h c n ts" and "distinct (idss ts)" and "label_rep c nd l"
  shows "reps (adopt_all nd ts h) c n (map (retagged l) ts)"
  using assms
proof (induction ts)
  case (Cons t ts)
  obtain i k ks where t: "t = ITree i k ks" by (cases t)
  let ?h = "adopt_all nd (t # ts) h"
  have i: "i \<notin> t_id ` set ts" "\<And>j. j \<in> set (idss ts) \<Longrightarrow> j \<noteq> i" using Cons.prems(2) t by auto
  have "reps (adopt_all nd ts h) c n (map (retagged l) ts)" using Cons by simp
  then have "reps ?h c n (map (retagged l) ts)"
    by (rule rep_frame_same(2)) (use i t in \<open>auto simp: adopt_all_def o_def\<close>)
  moreover obtain cd where cd: "h i = Some cd" "node_rep c cd k (first_or n ts) 0 ks" "reps h c 0 ks" using Cons.prems(1) t by auto
  have "set (idss ks) \<inter> set (idss ts) = {}" "i \<notin> set (idss ks)" using Cons.prems(2) t by auto
  with top_ids [of ts] have "set (idss ks) \<inter> t_id ` set (t # ts) = {}" unfolding t by fastforce
  then have "reps ?h c 0 ks" by (intro rep_frame_same(2) [OF cd(3)]) (auto simp: adopt_all_def)
  moreover have "node_rep c (adopted nd cd) (relabel l k) (first_or n ts) 0 ks"
    using cd(2) Cons.prems(3) by (simp add: node_rep_def label_rep_def adopted_def relabel_def)
  ultimately show ?case using cd(1) t adopt_all_first [of nd t ts h] by simp
qed simp

text \<open>The store after an array was closed: its children are relabelled, its node holds the first one,
  and the last child of the parent is the last element.\<close>

definition collapsed ::
  "input_node \<Rightarrow> int \<Rightarrow> input_node \<Rightarrow> input_tree \<Rightarrow> input_tree list \<Rightarrow> int \<Rightarrow> input_node \<Rightarrow>
   (int \<Rightarrow> input_node option) \<Rightarrow> int \<Rightarrow> input_node option" where
  "collapsed nd nv cd t ts p pn h =
    (adopt_all nd (t # ts) h)(nv \<mapsto> adopted nd cd, p \<mapsto> pn\<lparr>in_lastchild := if ts = [] then nv else t_id (last ts)\<rparr>)"

lemma last_is_first:
  assumes "distinct (idss (t # ts))"
  shows "t_id (last (t # ts)) = t_id t \<longleftrightarrow> ts = []"
proof (cases "ts = []")
  case False
  then have "t_id (last ts) \<in> set (idss ts)" using last_or_in [of ts] by (simp add: last_or_def)
  moreover have "t_id t \<notin> set (idss ts)" using assms t_id_ids [of t] by (simp only: list.map concat.simps distinct_append) blast
  ultimately show ?thesis using False by auto
qed simp

lemma collapse_array_opens:
  assumes op: "opens (mem st) c 0 (f # g # fs)" and wf: "open_wf (f # g # fs)" and ks: "e_kids f = t # ts"
    and nd: "mem st (e_id f) = Some nd" and pn: "mem st (e_id g) = Some pn" and cd: "mem st (t_id t) = Some cd"
  shows "\<exists>st'. collapse_array (e_id f) st = Some (Inr st') \<and> same_rest st st'
    \<and> mem st' = collapsed nd (e_id f) cd t ts (e_id g) pn (mem st)"
proof -
  have dist: "distinct (open_ids (f # g # fs))" using wf by (simp add: open_wf_def)
  have nd': "in_firstchild nd = t_id t" "in_lastchild nd = t_id (last (t # ts))" "in_parent nd = e_id g"
    using op nd ks by (auto simp: node_rep_def last_or_def)
  have pn': "in_lastchild pn = e_id f" using op pn kids_nonzero(2) [OF wf] by (auto simp: node_rep_def last_or_def)
  obtain st1 where st1: "adopt_loop (e_id f) (t_id t) st = Some (Inr st1)" "same_rest st st1"
    "mem st1 = adopt_all nd (t # ts) (mem st)"
    using adopt_loop_reps [of st c "t # ts" "e_id f" nd] op ks nd kids_nonzero(1) [OF wf] open_wf_distinct(1,2) [OF wf] by auto
  have top: "e_id f \<notin> t_id ` set (t # ts)" "e_id g \<notin> t_id ` set (t # ts)" "e_id f \<noteq> e_id g"
    using dist ks top_ids [of "t # ts"] by auto
  have "t_id t \<in> set (idss (e_kids f))" using ks by simp
  then have t0: "t_id t \<noteq> 0" using kids_nonzero(1) [OF wf] by metis
  have "distinct (idss (t # ts))" using open_wf_distinct(1) [OF wf] ks by metis
  then have same: "t_id (last (t # ts)) = t_id t \<longleftrightarrow> ts = []" by (rule last_is_first)
  have m: "mem st1 (e_id f) = Some nd" "mem st1 (t_id t) = Some (adopted nd cd)" "mem st1 (e_id g) = Some pn"
    using st1(3) nd cd pn top by (simp_all add: adopt_all_def)
  show ?thesis
  proof (cases "ts = []")
    case True
    then have "(mem (set_node (e_id f) (adopted nd cd) st1)) = collapsed nd (e_id f) cd t ts (e_id g) pn (mem st)"
      using m st1(3) top(3) pn' by (auto simp: collapsed_def fun_eq_iff)
    then show ?thesis using st1(1,2) m nd nd' t0 True by (simp add: collapse_array_def)
  next
    case False
    then show ?thesis using st1 m nd nd' top t0 same
      by (simp add: collapse_array_def collapsed_def)
  qed
qed

lemma collapsed_reps:
  assumes op: "opens h c 0 (f # g # fs)" and wf: "open_wf (f # g # fs)" and ks: "e_kids f = t # ts"
    and nd: "h (e_id f) = Some nd" and cd: "h (t_id t) = Some cd"
  shows "reps (collapsed nd (e_id f) cd t ts (e_id g) pn h) c 0
    (ITree (e_id f) (relabel (e_lab f) (t_lab t)) (t_kids t) # map (retagged (e_lab f)) ts)"
proof -
  let ?h = "collapsed nd (e_id f) cd t ts (e_id g) pn h"
  obtain i l us where t: "t = ITree i l us" by (cases t)
  have dist: "distinct (open_ids (f # g # fs))" using wf by (simp add: open_wf_def)
  have r: "reps h c 0 (t # ts)" and lab: "label_rep c nd (e_lab f)" using op ks nd by (auto simp: node_rep_def)
  have ra: "reps (adopt_all nd (t # ts) h) c 0 (map (retagged (e_lab f)) (t # ts))"
    using open_wf_distinct(1) [OF wf] unfolding ks by (rule reps_adopted [OF r _ lab])
  have off: "e_id f \<notin> set (idss (t # ts))" "e_id g \<notin> set (idss (t # ts))" "e_id f \<noteq> e_id g" using dist ks by auto
  have agree: "?h j = adopt_all nd (t # ts) h j" if "j \<in> set (idss (t # ts))" for j
    using that off by (auto simp: collapsed_def)
  have "reps ?h c 0 (map (retagged (e_lab f)) ts)"
  proof (rule rep_frame_same(2))
    show "reps (adopt_all nd (t # ts) h) c 0 (map (retagged (e_lab f)) ts)" using ra by simp
  qed (use agree in \<open>auto simp: o_def\<close>)
  moreover have "reps ?h c 0 us"
  proof (rule rep_frame_same(2))
    show "reps (adopt_all nd (t # ts) h) c 0 us" using ra t by simp
  qed (use agree t in auto)
  moreover have "node_rep c (adopted nd cd) (relabel (e_lab f) l) (first_or 0 ts) 0 us"
    using ra t cd adopt_all_first [of nd t ts h] by simp
  ultimately show ?thesis using t off(3) by (simp add: collapsed_def)
qed

lemma closed_opens:
  assumes op: "opens h c 0 (f # g # fs)" and "reps h' c 0 els" and "els \<noteq> []" and "t_id (hd els) = e_id f"
    and "\<And>i. i \<in> set (idss (e_kids g) @ open_ids fs) \<Longrightarrow> h' i = h i"
    and "h (e_id g) = Some pn" and "h' (e_id g) = Some (pn\<lparr>in_lastchild := t_id (last els)\<rparr>)"
  shows "opens h' c 0 (OElem (e_id g) (e_lab g) (e_kids g @ els) # fs)"
proof -
  have "reps h c (e_id f) (e_kids g)" "opens h c (e_id g) fs" using op by simp_all
  then have "reps h' c (e_id f) (e_kids g)" "opens h' c (e_id g) fs"
    using assms(5) by (auto intro!: rep_frame_same(2) [of h c "e_id f"] opens_frame_same [of h])
  moreover have "first_or 0 els = e_id f" using assms(3,4) by (cases els) auto
  ultimately show ?thesis
    using op assms(2,3,6,7) by (auto simp: node_rep_def label_rep_def last_or_def)
qed

lemma distinct_insert_middle:
  "distinct (x # K @ F) \<Longrightarrow> distinct A \<Longrightarrow> set A \<inter> set (x # K @ F) = {} \<Longrightarrow> distinct (x # (K @ A) @ F)"
  by auto

lemma closed_element_ids:
  assumes "open_wf (f # g # fs)"
  shows "open_wf (OElem (e_id g) (e_lab g) (e_kids g @ closed_element f) # fs)"
proof -
  have sub: "distinct (idss (closed_element f)) \<and> set (idss (closed_element f)) \<subseteq> set (e_id f # idss (e_kids f))"
  proof (cases "e_kids f \<noteq> [] \<and> array_kids (-1) (e_kids f)")
    case True
    then obtain i l ks ts where ks: "e_kids f = ITree i l ks # ts" "array_kids (-1) (ITree i l ks # ts)"
      by (metis input_tree.exhaust neq_Nil_conv)
    have "idss (map (retagged l') ts) = idss ts" for l' by (simp add: o_def)
    then have "idss (closed_element f) = e_id f # idss ks @ idss ts"
      by (simp add: closed_element_array [OF ks])
    then show ?thesis using open_wf_distinct(1,2) [OF assms] ks(1) by auto
  qed (use open_wf_distinct(1,2) [OF assms] in \<open>auto simp: closed_element_def\<close>)
  have "set (e_id f # idss (e_kids f)) \<inter> set (open_ids (g # fs)) = {}" "distinct (open_ids (g # fs))"
    "e_id (last (g # fs)) = 0"
    using assms by (simp_all add: open_wf_def)
  with sub have "set (idss (closed_element f)) \<inter> set (open_ids (g # fs)) = {}" by blast
  then have "distinct (e_id g # (idss (e_kids g) @ idss (closed_element f)) @ open_ids fs)"
    using sub \<open>distinct (open_ids (g # fs))\<close> by (intro distinct_insert_middle) simp_all
  with \<open>e_id (last (g # fs)) = 0\<close> show ?thesis by (auto simp: open_wf_def)
qed

lemma array_collapse_represents:
  assumes op: "opens (mem st) c 0 (f # g # fs)" and wf: "open_wf (f # g # fs)" and ks: "e_kids f = t # ts"
    and arr: "array_kids (-1) (t # ts)"
  shows "\<exists>st'. collapse_array (e_id f) st = Some (Inr st') \<and> same_rest st st'
    \<and> opens (mem st') c 0 (OElem (e_id g) (e_lab g) (e_kids g @ closed_element f) # fs)"
proof -
  have dist: "distinct (open_ids (f # g # fs))" using wf by (simp add: open_wf_def)
  obtain nd pn where nd: "mem st (e_id f) = Some nd" and pn: "mem st (e_id g) = Some pn" using op by auto
  obtain cd where cd: "mem st (t_id t) = Some cd"
    using opens_allocated [OF op, of "t_id t"] ks by auto
  let ?h = "collapsed nd (e_id f) cd t ts (e_id g) pn (mem st)"
  have els: "closed_element f = ITree (e_id f) (relabel (e_lab f) (t_lab t)) (t_kids t) # map (retagged (e_lab f)) ts"
    by (rule closed_element_array [OF ks arr])
  have "set (idss (t # ts)) \<inter> set (idss (e_kids g) @ open_ids fs) = {}" using open_wf_distinct(5) [OF wf] ks by auto
  with top_ids [of "t # ts"] have off: "i \<notin> t_id ` set (t # ts)" if "i \<in> set (idss (e_kids g) @ open_ids fs)" for i
    using that by blast
  have "opens ?h c 0 (OElem (e_id g) (e_lab g) (e_kids g @ closed_element f) # fs)"
  proof (rule closed_opens [OF op])
    show "reps ?h c 0 (closed_element f)" unfolding els by (rule collapsed_reps [OF op wf ks nd cd])
    show "?h (e_id g) = Some (pn\<lparr>in_lastchild := t_id (last (closed_element f))\<rparr>)"
      unfolding els by (simp add: collapsed_def last_map)
    show "?h i = mem st i" if "i \<in> set (idss (e_kids g) @ open_ids fs)" for i
      using off [OF that] that dist by (auto simp: collapsed_def adopt_all_def)
  qed (use els pn in simp_all)
  then show ?thesis using collapse_array_opens [OF op wf ks nd pn cd] by fastforce
qed

lemma closeTag_simulates:
  assumes "represents tagmap st d"
  shows "simulates tagmap (closeTag_here st) (doc_close d)"
proof -
  obtain f fs where fs: "idoc_open d = f # fs" using assms by (auto simp: represents_def open_wf_def neq_Nil_conv)
  let ?c = "is_content st"
  have op: "opens (mem st) ?c 0 (f # fs)" and wf: "open_wf (f # fs)" and v: "is_visitor st = e_id f"
    using assms fs by (auto simp: represents_def)
  then obtain nd where nd: "mem st (e_id f) = Some nd" "node_rep ?c nd (e_lab f) 0 0 (e_kids f)"
    "in_parent nd = (if fs = [] then -1 else e_id (hd fs))" by auto
  show ?thesis
  proof (cases fs)
    case Nil
    then show ?thesis using assms fs nd v by (auto simp: closeTag_here_def closeTag_def doc_close_def represents_def)
  next
    case (Cons g gs)
    let ?d = "d\<lparr>idoc_open := OElem (e_id g) (e_lab g) (e_kids g @ closed_element f) # gs\<rparr>"
    have op': "opens (mem st) ?c 0 (f # g # gs)" and wf': "open_wf (f # g # gs)" using op wf Cons by simp_all
    obtain pn where pn: "mem st (e_id g) = Some pn" "in_lastchild pn = e_id f"
      using op' kids_nonzero(2) [OF wf'] by (auto simp: node_rep_def last_or_def)
    have g0: "\<not> e_id g < 0" using mem_less [OF pn(1)] by simp
    have arr: "isArrayNode (e_id f) st = Some (Inr (e_kids f \<noteq> [] \<and> array_kids (-1) (e_kids f)))"
      using nd(1,2) op' array_loop_reps [of st ?c "e_kids f" "-1"] kids_nonzero(1) [OF wf'] first_or_eq_0
      by (cases "e_kids f = []") (auto simp: isArrayNode_def node_rep_def)
    have fin: "represents tagmap (st'\<lparr>is_visitor := e_id g\<rparr>) ?d"
      if "opens (mem st') ?c 0 (OElem (e_id g) (e_lab g) (e_kids g @ closed_element f) # gs)" "same_rest st st'" for st'
      using that assms closed_element_ids [OF wf'] by (simp add: represents_def same_rest_def)
    show ?thesis
    proof (cases "e_kids f \<noteq> [] \<and> array_kids (-1) (e_kids f)")
      case True
      then obtain t ts where ks: "e_kids f = t # ts" "array_kids (-1) (t # ts)" by (cases "e_kids f") auto
      from array_collapse_represents [OF op' wf' ks] show ?thesis
        using True fs Cons nd pn g0 v arr fin by (auto simp: closeTag_here_def closeTag_def doc_close_def)
    next
      case False
      have "opens (mem st) ?c 0 (OElem (e_id g) (e_lab g) (e_kids g @ closed_element f) # gs)"
      proof (rule closed_opens [OF op'])
        show "reps (mem st) ?c 0 (closed_element f)"
          using False nd op' by (auto simp: closed_element_def)
      qed (use False pn in \<open>auto simp: closed_element_def\<close>)
      from fin [OF this] show ?thesis
        using False fs Cons nd pn g0 v arr by (auto simp: closeTag_here_def closeTag_def doc_close_def)
    qed
  qed
qed

section \<open>Whole documents\<close>

datatype input_event = Ev_Open variant | Ev_Close | Ev_Value variant

definition input_event :: "(variant \<Rightarrow> 64 word result) \<Rightarrow> input_event \<Rightarrow> input_structure \<Rightarrow> input_structure run" where
  "input_event conv e st =
    (case e of Ev_Open tag \<Rightarrow> openTag_here conv tag st | Ev_Close \<Rightarrow> closeTag_here st | Ev_Value v \<Rightarrow> pushValue_here v st)"

definition doc_event ::
  "(variant \<Rightarrow> 64 word result) \<Rightarrow> tag_table \<Rightarrow> input_event \<Rightarrow> input_document \<Rightarrow> input_document result" where
  "doc_event conv tagmap e d =
    (case e of Ev_Open tag \<Rightarrow> doc_open conv tagmap tag d | Ev_Close \<Rightarrow> doc_close d | Ev_Value v \<Rightarrow> doc_value v d)"

fun build :: "(variant \<Rightarrow> 64 word result) \<Rightarrow> input_event list \<Rightarrow> input_structure \<Rightarrow> input_structure run" where
  "build conv [] st = Some (Inr st)"
| "build conv (e # es) st = run_bind (input_event conv e st) (build conv es)"

fun doc_build ::
  "(variant \<Rightarrow> 64 word result) \<Rightarrow> tag_table \<Rightarrow> input_event list \<Rightarrow> input_document \<Rightarrow> input_document result" where
  "doc_build conv tagmap [] d = Inr d"
| "doc_build conv tagmap (e # es) d = rbind (doc_event conv tagmap e d) (doc_build conv tagmap es)"

lemma input_event_simulates:
  "represents tagmap st d \<Longrightarrow> simulates tagmap (input_event conv e st) (doc_event conv tagmap e d)"
  by (cases e) (simp_all add: input_event_def doc_event_def openTag_simulates closeTag_simulates pushValue_simulates)

lemma build_simulates:
  "represents tagmap st d \<Longrightarrow> simulates tagmap (build conv es st) (doc_build conv tagmap es d)"
proof (induction es arbitrary: st d)
  case (Cons e es)
  show ?case
  proof (cases "doc_event conv tagmap e d")
    case (Inl err)
    with input_event_simulates [OF Cons.prems, of conv e] show ?thesis by simp
  next
    case (Inr d1)
    with input_event_simulates [OF Cons.prems, of conv e] obtain st1 where
      "input_event conv e st = Some (Inr st1)" "represents tagmap st1 d1" by (auto simp: simulates_def)
    with Inr Cons.IH show ?thesis by simp
  qed
qed simp

lemma new_represents: "represents tagmap (inputStructure tagmap) (doc_new tagmap)"
  by (simp add: represents_def inputStructure_def doc_new_def open_wf_def mem_def node_rep_def label_rep_def
      value_rep_def zero_node_def last_or_def)

section \<open>Selections\<close>

definition tag_matches :: "nat \<Rightarrow> input_tree \<Rightarrow> bool" where
  "tag_matches tag t = (tag = 0 \<or> il_tag (t_lab t) = int tag)"

definition below :: "input_tree \<Rightarrow> input_tree list" where
  "below t = concat (map descendants (t_kids t))"

fun select_step :: "input_tree \<Rightarrow> selector_element \<Rightarrow> input_tree \<Rightarrow> input_tree list" where
  "select_step root (Sel_Current, tag) t = [t]"
| "select_step root (Sel_Root, tag) t = [root]"
| "select_step root (Sel_Next, tag) t = filter (tag_matches tag) (t_kids t)"
| "select_step root (Sel_Find, tag) t = filter (tag_matches tag) (below t)"
| "select_step root (Sel_Up, tag) t = []"

fun select_trees :: "input_tree \<Rightarrow> selector_path \<Rightarrow> input_tree list \<Rightarrow> input_tree list" where
  "select_trees root [] ts = ts"
| "select_trees root (e # es) ts = select_trees root es (concat (map (select_step root e) ts))"

definition no_up :: "selector_path \<Rightarrow> bool" where
  "no_up path = (Sel_Up \<notin> fst ` set path)"

lemma descendants_self: "t \<in> set (descendants t)"
  by (cases t) simp

lemma descendants_trans: "u \<in> set (descendants t) \<Longrightarrow> v \<in> set (descendants u) \<Longrightarrow> v \<in> set (descendants t)"
  by (induction t arbitrary: u) auto

lemma below_in: "u \<in> set (below t) \<Longrightarrow> u \<in> set (descendants t)"
  by (cases t) (simp add: below_def)

lemma kids_in: "u \<in> set (t_kids t) \<Longrightarrow> u \<in> set (descendants t)"
  by (cases t) (use descendants_self in fastforce)

lemma select_step_in:
  "t \<in> set (descendants root) \<Longrightarrow> u \<in> set (select_step root e t) \<Longrightarrow> u \<in> set (descendants root)"
  by (cases "(root, e, t)" rule: select_step.cases)
     (auto intro: descendants_trans below_in kids_in descendants_self)

text \<open>Every node of a represented tree is represented, with its next sibling.\<close>

lemma rep_descendants:
  "rep h c n t \<Longrightarrow> u \<in> set (descendants t) \<Longrightarrow> \<exists>m. rep h c m u"
  "reps h c n ts \<Longrightarrow> u \<in> set (concat (map descendants ts)) \<Longrightarrow> \<exists>m. rep h c m u"
  by (induction h c n t and h c n ts rule: rep_reps.induct) auto

lemma descendants_ids: "u \<in> set (descendants t) \<Longrightarrow> set (ids u) \<subseteq> set (ids t)"
  by (induction t) auto

text \<open>The finished tree.\<close>

definition tree_in :: "input_structure \<Rightarrow> input_tree \<Rightarrow> bool" where
  "tree_in st root = (rep (mem st) (is_content st) 0 root \<and> t_id root = 0 \<and> 0 \<notin> set (idss (t_kids root)))"

lemma tree_in_rep: "tree_in st root \<Longrightarrow> t \<in> set (descendants root) \<Longrightarrow> \<exists>m. rep (mem st) (is_content st) m t"
  unfolding tree_in_def by (elim conjE) (rule rep_descendants(1))

lemma select_steps_in:
  assumes "set ts \<subseteq> set (descendants root)"
  shows "set (concat (map (select_step root e) ts)) \<subseteq> set (descendants root)"
proof
  fix u
  assume "u \<in> set (concat (map (select_step root e) ts))"
  then obtain t where "t \<in> set ts" "u \<in> set (select_step root e t)" by auto
  with assms select_step_in [of t root u e] show "u \<in> set (descendants root)" by blast
qed

lemma tree_in_kids:
  assumes "tree_in st root" and "t \<in> set (descendants root)"
  shows "0 \<notin> set (idss (t_kids t))"
proof -
  obtain l ks where root: "root = ITree 0 l ks" using assms(1) by (cases root) (auto simp: tree_in_def)
  have "set (ids t) \<subseteq> set (idss ks)" if "t \<noteq> root"
    using that assms(2) root descendants_ids [of t] by fastforce
  then show ?thesis using assms(1) root by (cases t; cases "t = root") (auto simp: tree_in_def)
qed

lemma select_element_tree:
  assumes "tree_in st root" and "t \<in> set (descendants root)" and "fst e \<noteq> Sel_Up"
  shows "select_element e (t_id t) acc st = Some (Inr (acc @ map t_id (select_step root e t)))"
proof -
  obtain ty tag where e: "e = (ty, tag)" by (cases e)
  obtain i l ks where t: "t = ITree i l ks" by (cases t)
  obtain m where "rep (mem st) (is_content st) m t" using tree_in_rep [OF assms(1,2)] by blast
  then obtain nd where nd: "mem st i = Some nd" "in_firstchild nd = first_or 0 ks" and r: "reps (mem st) (is_content st) 0 ks"
    using t by (auto simp: node_rep_def)
  have z: "0 \<notin> set (idss ks)" using tree_in_kids [OF assms(1,2)] t by simp
  have m: "tag_matches tag = (\<lambda>t. int tag = 0 \<or> il_tag (t_lab t) = int tag)" by (simp add: fun_eq_iff tag_matches_def)
  have nxt: "next_nodes nd (int tag) acc st = Some (Inr (acc @ map t_id (filter (tag_matches tag) ks)))"
    using next_loop_reps [OF r _ z] nd(2) first_or_eq_0 [OF z] unfolding m by (cases "ks = []") (simp_all add: next_nodes_def)
  have fnd: "find_nodes nd (int tag) acc st = Some (Inr (acc @ map t_id (filter (tag_matches tag) (concat (map descendants ks)))))"
    using find_loop_reps [OF r _ z] nd(2) first_or_eq_0 [OF z] unfolding m by (cases "ks = []") (simp_all add: find_nodes_def)
  show ?thesis using e t nd(1) nxt fnd assms(1,3)
    by (cases ty) (simp_all add: select_element_def below_def tree_in_def)
qed

lemma select_from_trees:
  assumes "tree_in st root" and "set ts \<subseteq> set (descendants root)" and "fst e \<noteq> Sel_Up"
  shows "select_from e (map t_id ts) acc st = Some (Inr (acc @ map t_id (concat (map (select_step root e) ts))))"
  using assms(2)
  by (induction ts arbitrary: acc) (simp_all add: select_element_tree [OF assms(1) _ assms(3)])

lemma select_path_trees:
  assumes "tree_in st root" and "set ts \<subseteq> set (descendants root)" and "no_up path"
  shows "select_path path (map t_id ts) st = Some (Inr (map t_id (select_trees root path ts)))"
  using assms(2,3)
proof (induction path arbitrary: ts)
  case (Cons e es)
  then have "fst e \<noteq> Sel_Up" "no_up es" by (auto simp: no_up_def)
  with Cons.IH [OF select_steps_in [OF Cons.prems(1)]] show ?case
    using select_from_trees [OF assms(1) Cons.prems(1)] by simp
qed simp

lemma select_trees_current:
  "select_trees root (dropWhile (\<lambda>e. fst e = Sel_Current) path) ts = select_trees root path ts"
proof (induction path)
  case (Cons e es)
  have "concat (map (select_step root (Sel_Current, tag)) ts) = ts" for tag by (induction ts) simp_all
  with Cons show ?case by (cases e) simp
qed simp

lemma selectNodes_tree:
  assumes "tree_in st root" and "t \<in> set (descendants root)" and "no_up path"
  shows "selectNodes path (t_id t) acc st = Some (Inr (acc @ map t_id (select_trees root path [t])))"
proof -
  have "no_up (dropWhile (\<lambda>e. fst e = Sel_Current) path)"
    using assms(3) by (auto simp: no_up_def dest: set_dropWhileD)
  then show ?thesis
    using select_path_trees [OF assms(1), of "[t]"] assms(2) by (simp add: selectNodes_def select_trees_current)
qed

lemma select_trees_in:
  "set ts \<subseteq> set (descendants root) \<Longrightarrow> set (select_trees root path ts) \<subseteq> set (descendants root)"
proof (induction path arbitrary: ts)
  case (Cons e es)
  from Cons.IH [OF select_steps_in [OF Cons.prems]] show ?case by simp
qed simp

lemma contentvalue_tree:
  assumes "tree_in st root" and "t \<in> set (descendants root)"
  shows "\<exists>nd. node (t_id t) st = Inr nd \<and> contentvalue nd st = Inr (il_value (t_lab t))"
proof -
  obtain i l ks where t: "t = ITree i l ks" by (cases t)
  obtain m where "rep (mem st) (is_content st) m t" using tree_in_rep [OF assms(1,2)] by blast
  then obtain nd where "mem st i = Some nd" "value_rep (is_content st) (in_value nd) (il_value l)"
    using t by (auto simp: node_rep_def label_rep_def)
  then show ?thesis using t
    by (cases "il_value l") (auto simp: value_rep_def contentvalue_def at_or_def)
qed

section \<open>Properties\<close>

text \<open>C17: the input structure refines the document: for every sequence of tags, values and closes the
  calls on the linked nodes return (every loop over siblings, children and parents ends), with the
  error that the document has for the sequence, message and path included, or with a store that
  represents the document.\<close>

theorem input_structure_refines_document:
  "case doc_build conv tagmap es (doc_new tagmap) of
     Inl e \<Rightarrow> build conv es (inputStructure tagmap) = Some (Inl e)
   | Inr d \<Rightarrow> \<exists>st. build conv es (inputStructure tagmap) = Some (Inr st) \<and> represents tagmap st d"
  using build_simulates [OF new_represents, of tagmap conv es] by (simp add: simulates_def)

lemma represents_tree:
  assumes "represents tagmap st d" and "idoc_open d = [OElem i l ks]"
  shows "tree_in st (ITree i l ks)"
  using assms by (auto simp: represents_def tree_in_def open_wf_def)


text \<open>An example: the document \<^verbatim>\<open>a: [7, 8]\<close>.\<close>

definition example_tags :: tag_table where
  "example_tags = snd (tt_get ''a'' (tt_new False))"

definition example_conv :: "variant \<Rightarrow> 64 word result" where
  "example_conv v = Inl BadCast"

definition example_events :: "input_event list" where
  "example_events = [Ev_Open (V_String ''a''), Ev_Open (V_Int 0), Ev_Value (V_Int 7), Ev_Close,
     Ev_Open (V_Int 1), Ev_Value (V_Int 8), Ev_Close, Ev_Close, Ev_Close]"

definition example_kids :: "input_tree list" where
  "example_kids =
    [ITree 1 \<lparr>il_tag = 2, il_tagstr = 2, il_arrayindex = 0, il_value = Some (V_Int 7)\<rparr> [],
     ITree 3 \<lparr>il_tag = 2, il_tagstr = 2, il_arrayindex = 1, il_value = Some (V_Int 8)\<rparr> []]"

definition example_document :: input_document where
  "example_document = \<lparr>idoc_count = 4, idoc_names = example_tags,
     idoc_open = [OElem 0 \<lparr>il_tag = 0, il_tagstr = 0, il_arrayindex = -1, il_value = None\<rparr> example_kids],
     idoc_done = True\<rparr>"

lemma example_build: "doc_build example_conv example_tags example_events (doc_new example_tags) = Inr example_document"
  by code_simp


end
