(* ===== verification/Path_Rewriter.thy ===== *)
theory Path_Rewriter
  imports Input_Refinement Program_Linker VM_Run
begin

text \<open>
  The resolution of selector paths before a program is executed,
  \<^verbatim>\<open>src/modules/cmdbind/tdl/tdlTransactionInput.cpp\<close>: instructions that refer to a path in the
  input are rewritten to refer to a constant, or, in a loop over a path, to a column of a tuple set
  that is made from the input. New tuple sets are added to the store of tuple sets; the work list
  has its last element at the head.
\<close>

section \<open>State\<close>

record rewrite_state =
  rw_prg :: program_image
  rw_heap :: "value_tuple_set list"

record rewrite_elem =
  re_ip :: nat
  re_selected :: "int list"

definition rw_code :: "rewrite_state \<Rightarrow> program_code" where
  "rw_code s = code (rw_prg s)"

definition rw_set_code :: "program_code \<Rightarrow> rewrite_state \<Rightarrow> rewrite_state" where
  "rw_set_code c s = s\<lparr>rw_prg := (rw_prg s)\<lparr>code := c\<rparr>\<rparr>"

text \<open>The instruction at an address, read through an iterator without a check of the bound.\<close>

definition code_deref :: "program_code \<Rightarrow> nat \<Rightarrow> 32 word result" where
  "code_deref c ip = at_or (Undefined ''iterator behind the end of the code'') c ip"

definition rewrite_advance :: "nat \<Rightarrow> rewrite_elem list \<Rightarrow> rewrite_elem list" where
  "rewrite_advance n stk =
    (case stk of
       [] \<Rightarrow> []
     | e # es \<Rightarrow> if re_ip e + 1 \<ge> n then es else e\<lparr>re_ip := re_ip e + 1\<rparr> # es)"

section \<open>Selections and values\<close>

fun select_all :: "selector_path \<Rightarrow> int list \<Rightarrow> int list \<Rightarrow> input_structure \<Rightarrow> int list run" where
  "select_all path [] selected input = Some (Inr selected)"
| "select_all path (ni # nis) selected input =
    run_bind (selectNodes path ni selected input) (\<lambda>selected'. select_all path nis selected' input)"

definition path_tostring :: "selector_path \<Rightarrow> path_set \<Rightarrow> string result" where
  "path_tostring path ps = path_print path (ps_tagtab ps)"

definition ambiguous :: "string \<Rightarrow> selector_path \<Rightarrow> path_set \<Rightarrow> 'a result" where
  "ambiguous msg path ps = rbind (path_tostring path ps) (\<lambda>p. Inl (RuntimeError (msg @ quoted p)))"

definition node_value :: "int \<Rightarrow> input_structure \<Rightarrow> variant result" where
  "node_value i input =
    rbind (node i input) (\<lambda>nd. rbind (contentvalue nd input) (\<lambda>v. Inr (case v of None \<Rightarrow> V_Null | Some x \<Rightarrow> x)))"

section \<open>Loops over a path\<close>

text \<open>The operation for a path reference inside of a loop.\<close>

definition loop_opcode :: "opcode \<Rightarrow> opcode result" where
  "loop_opcode oc =
    (if oc = Op_SUB_ARG_PATH then Inr Op_SUB_ARG_ITR_IDX
     else if oc = Op_OUTPUT_PATH then Inr Op_OUTPUT_ITR_IDX
     else if oc = Op_DBSTM_BIND_PATH then Inr Op_DBSTM_BIND_ITR_IDX
     else if oc = Op_OPEN_ITER_PATH
     then Inl (RuntimeError ''internal: cannot rewrite program with nested path expression loops'')
     else Inl (RuntimeError ''internal: unknown instruction with path argument''))"

text \<open>The instructions from the start of a loop to its \<^verbatim>\<open>NEXT\<close>, with the pathes they refer to.\<close>

fun rewrite_body ::
  "path_set \<Rightarrow> program_code \<Rightarrow> selector_path list \<Rightarrow> (program_code \<times> selector_path list) result" where
  "rewrite_body ps [] pathtuple = Inr ([], pathtuple)"
| "rewrite_body ps (instr # is) pathtuple =
    (let oc = opCode instr in
     if oc = Op_NEXT then Inr (instr # is, pathtuple)
     else rbind (argumentType oc) (\<lambda>at.
       if at = At_Path then
         rbind (ps_getPath (argumentIndex instr) ps) (\<lambda>path.
         rbind (loop_opcode oc) (\<lambda>oc'.
         rbind (instruction (condCode instr) oc' (of_nat (length pathtuple + 1))) (\<lambda>instr'.
         rbind (rewrite_body ps is (pathtuple @ [path])) (\<lambda>(is', pt). Inr (instr' # is', pt)))))
       else rbind (rewrite_body ps is pathtuple) (\<lambda>(is', pt). Inr (instr # is', pt))))"

text \<open>The name of a column. The test that is to replace the name of the current node dereferences
  the null pointer when a path has no last element name.\<close>

definition column_name :: "path_set \<Rightarrow> selector_path \<Rightarrow> string result" where
  "column_name ps path =
    (case lastElementName path (ps_tagtab ps) of
       None \<Rightarrow> Inl (Undefined ''null pointer'')
     | Some elemname \<Rightarrow> Inr elemname)"

fun column_names :: "path_set \<Rightarrow> selector_path list \<Rightarrow> string list result" where
  "column_names ps [] = Inr []"
| "column_names ps (p # pt) = rbind (column_name ps p) (\<lambda>n. rbind (column_names ps pt) (\<lambda>ns. Inr (n # ns)))"

definition loop_value :: "path_set \<Rightarrow> input_structure \<Rightarrow> int \<Rightarrow> selector_path \<Rightarrow> variant run" where
  "loop_value ps input ni path =
    run_bind (selectNodes path ni [] input) (\<lambda>ar.
      Some (case ar of
          [] \<Rightarrow> Inr V_Null
        | first # rest \<Rightarrow>
            if \<exists>e \<in> set rest. e \<noteq> first then ambiguous ''ambiguus value reference in loop: '' path ps
            else node_value first input))"

fun loop_tuple :: "path_set \<Rightarrow> input_structure \<Rightarrow> int \<Rightarrow> selector_path list \<Rightarrow> variant list run" where
  "loop_tuple ps input ni [] = Some (Inr [])"
| "loop_tuple ps input ni (p # pt) =
    run_bind (loop_value ps input ni p) (\<lambda>v.
    run_bind (loop_tuple ps input ni pt) (\<lambda>vs. Some (Inr (v # vs))))"

fun loop_tuples ::
  "path_set \<Rightarrow> input_structure \<Rightarrow> selector_path list \<Rightarrow> int list \<Rightarrow> value_tuple_set \<Rightarrow> value_tuple_set run" where
  "loop_tuples ps input pt [] vts = Some (Inr vts)"
| "loop_tuples ps input pt (ni # nis) vts =
    run_bind (loop_tuple ps input ni pt) (\<lambda>t.
    run_bind (Some (vts_push t vts)) (loop_tuples ps input pt nis))"

fun null_tuples :: "int list \<Rightarrow> value_tuple_set \<Rightarrow> value_tuple_set result" where
  "null_tuples [] vts = Inr vts"
| "null_tuples (ni # nis) vts = rbind (vts_push [V_Null] vts) (null_tuples nis)"

definition loop_tupleset ::
  "path_set \<Rightarrow> input_structure \<Rightarrow> selector_path list \<Rightarrow> int list \<Rightarrow> value_tuple_set run" where
  "loop_tupleset ps input pathtuple selected =
    (if pathtuple = [] then Some (null_tuples selected (vts_new [[]]))
     else run_bind (Some (column_names ps pathtuple)) (\<lambda>colnames.
       loop_tuples ps input pathtuple selected (vts_new colnames)))"

definition add_tupleset :: "value_tuple_set \<Rightarrow> rewrite_state \<Rightarrow> rewrite_state" where
  "add_tupleset vts s = s\<lparr>rw_heap := rw_heap s @ [vts],
    rw_prg := (rw_prg s)\<lparr>tuplesets := tuplesets (rw_prg s) @ [Some (length (rw_heap s))]\<rparr>\<rparr>"

definition rewrite_open_iter ::
  "path_set \<Rightarrow> input_structure \<Rightarrow> rewrite_elem \<Rightarrow> 32 word \<Rightarrow> rewrite_state \<Rightarrow> rewrite_state run" where
  "rewrite_open_iter ps input e instr s =
    run_bind (Some (instruction (condCode instr) Op_OPEN_ITER_TUPLESET (of_nat (length (tuplesets (rw_prg s)))))) (\<lambda>instr'.
    run_bind (Some (program_code_set (rw_code s) (re_ip e) instr')) (\<lambda>c1.
    run_bind (Some (ps_getPath (argumentIndex instr) ps)) (\<lambda>path.
    run_bind (select_all path (re_selected e) [] input) (\<lambda>selected.
    run_bind (Some (rewrite_body ps (drop (re_ip e) c1) [])) (\<lambda>(is, pathtuple).
    run_bind (loop_tupleset ps input pathtuple selected) (\<lambda>vts.
      Some (Inr (add_tupleset vts (rw_set_code (take (re_ip e) c1 @ is) s)))))))))"

section \<open>Single references\<close>

definition single_value :: "path_set \<Rightarrow> input_structure \<Rightarrow> selector_path \<Rightarrow> int list \<Rightarrow> variant result" where
  "single_value ps input path selected =
    (case selected of
       [] \<Rightarrow> Inr V_Null
     | [i] \<Rightarrow> node_value i input
     | _ \<Rightarrow> ambiguous ''ambiguus single value reference: '' path ps)"

definition single_opcode :: "opcode \<Rightarrow> opcode result" where
  "single_opcode oc =
    (if oc = Op_SUB_ARG_PATH then Inr Op_SUB_ARG_CONST
     else if oc = Op_OUTPUT_PATH then Inr Op_OUTPUT_CONST
     else if oc = Op_DBSTM_BIND_PATH then Inr Op_DBSTM_BIND_CONST
     else Inl (RuntimeError ''internal: unknown instruction with path argument''))"

definition rewrite_single ::
  "path_set \<Rightarrow> input_structure \<Rightarrow> rewrite_elem \<Rightarrow> 32 word \<Rightarrow> rewrite_state \<Rightarrow> rewrite_state run" where
  "rewrite_single ps input e instr s =
    run_bind (Some (ps_getPath (argumentIndex instr) ps)) (\<lambda>path.
    run_bind (select_all path (re_selected e) [] input) (\<lambda>selected.
    Some (rbind (single_value ps input path selected) (\<lambda>v.
      rbind (single_opcode (opCode instr)) (\<lambda>oc.
      rbind (instruction (condCode instr) oc (of_nat (length (constants (rw_prg s))))) (\<lambda>instr'.
      rbind (program_code_set (rw_code s) (re_ip e) instr') (\<lambda>c.
        Inr (rw_set_code c (s\<lparr>rw_prg := (rw_prg s)\<lparr>constants := constants (rw_prg s) @ [v]\<rparr>\<rparr>)))))))))"

section \<open>The work list\<close>

text \<open>One turn for the element \<open>e\<close> in front of \<open>es\<close>: the addresses seen so far, the new list and state.\<close>

definition rewrite_turn ::
  "path_set \<Rightarrow> input_structure \<Rightarrow> nat list \<Rightarrow> rewrite_elem \<Rightarrow> rewrite_elem list \<Rightarrow> rewrite_state \<Rightarrow>
   (nat list \<times> rewrite_elem list \<times> rewrite_state) run" where
  "rewrite_turn ps input visited e es s =
    run_bind (Some (code_deref (rw_code s) (re_ip e))) (\<lambda>instr.
      let oc = opCode instr; always = (condCode instr = Co_ALWAYS); ai = argumentIndex instr;
          forth = rewrite_advance (length (rw_code s)) (e # es) in
      if oc = Op_EXIT \<or> oc = Op_RETURN then Some (Inr (visited, if always then es else forth, s))
      else if oc = Op_GOTO then
        (if always then Some (Inr (visited, e\<lparr>re_ip := ai\<rparr> # es, s))
         else if ai \<in> set visited then Some (Inr (visited, forth, s))
         else Some (Inr (ai # visited, \<lparr>re_ip = ai, re_selected = re_selected e\<rparr> # forth, s)))
      else run_bind (Some (argumentType oc)) (\<lambda>at.
        if at = At_Path then
          run_bind (if oc = Op_OPEN_ITER_PATH then rewrite_open_iter ps input e instr s
                    else rewrite_single ps input e instr s) (\<lambda>s'.
            Some (Inr (visited, rewrite_advance (length (rw_code s')) (e # es), s')))
        else Some (Inr (visited, forth, s))))"

partial_function (option) rewrite_loop ::
  "path_set \<Rightarrow> input_structure \<Rightarrow> nat list \<Rightarrow> rewrite_elem list \<Rightarrow> rewrite_state \<Rightarrow> rewrite_state run" where
  "rewrite_loop ps input visited stk s =
    (case stk of
       [] \<Rightarrow> Some (Inr s)
     | e # es \<Rightarrow> run_bind (rewrite_turn ps input visited e es s) (\<lambda>(visited', stk', s'). rewrite_loop ps input visited' stk' s'))"

declare rewrite_loop.simps [code]

definition rewriteInputPathReferences :: "path_set \<Rightarrow> input_structure \<Rightarrow> rewrite_state \<Rightarrow> rewrite_state run" where
  "rewriteInputPathReferences ps input s =
    (if rw_code s = [] then Some (Inr s)
     else rewrite_loop ps input [] [\<lparr>re_ip = 0, re_selected = [0]\<rparr>] s)"

text \<open>The constructor: the image of the program, rewritten. \<open>tuples\<close> are the tuple sets that exist.\<close>

definition tdlTransactionInput :: "vm_program \<Rightarrow> value_tuple_set list \<Rightarrow> input_structure \<Rightarrow> rewrite_state run" where
  "tdlTransactionInput p tuples input =
    rewriteInputPathReferences (p_pathset p) input \<lparr>rw_prg = program_to_image p, rw_heap = tuples\<rparr>"

section \<open>Values of subtrees\<close>

definition tree_value :: "input_tree \<Rightarrow> selector_path \<Rightarrow> input_tree \<Rightarrow> variant" where
  "tree_value root path t =
    (case select_trees root path [t] of
       [] \<Rightarrow> V_Null
     | u # _ \<Rightarrow> (case il_value (t_lab u) of None \<Rightarrow> V_Null | Some v \<Rightarrow> v))"

definition one_node :: "input_tree list \<Rightarrow> bool" where
  "one_node us = (\<forall>u \<in> set us. t_id u = t_id (hd us))"

lemma node_value_tree:
  assumes "tree_in input root" and "u \<in> set (descendants root)"
  shows "node_value (t_id u) input = Inr (case il_value (t_lab u) of None \<Rightarrow> V_Null | Some v \<Rightarrow> v)"
  using contentvalue_tree [OF assms] by (auto simp: node_value_def)

lemma loop_value_tree:
  assumes "tree_in input root" and "t \<in> set (descendants root)" and "no_up path"
    and "one_node (select_trees root path [t])"
  shows "loop_value ps input (t_id t) path = Some (Inr (tree_value root path t))"
proof (cases "select_trees root path [t]")
  case Nil
  then show ?thesis by (simp add: loop_value_def selectNodes_tree [OF assms(1-3)] tree_value_def)
next
  case (Cons u us)
  have "u \<in> set (descendants root)" using select_trees_in [of "[t]" root path] assms(2) Cons by simp
  then show ?thesis
    using Cons assms(4)
    by (simp add: loop_value_def selectNodes_tree [OF assms(1-3)] tree_value_def one_node_def node_value_tree [OF assms(1)])
qed

lemma loop_tuple_tree:
  assumes "tree_in input root" and "t \<in> set (descendants root)"
    and "\<And>p. p \<in> set pt \<Longrightarrow> no_up p \<and> one_node (select_trees root p [t])"
  shows "loop_tuple ps input (t_id t) pt = Some (Inr (map (\<lambda>p. tree_value root p t) pt))"
  using assms(3) by (induction pt) (simp_all add: loop_value_tree [OF assms(1,2)])

lemma select_all_trees:
  assumes "tree_in input root" and "set ts \<subseteq> set (descendants root)" and "no_up path"
  shows "select_all path (map t_id ts) acc input =
    Some (Inr (acc @ map t_id (concat (map (\<lambda>t. select_trees root path [t]) ts))))"
  using assms(2) by (induction ts arbitrary: acc) (simp_all add: selectNodes_tree [OF assms(1) _ assms(3)])

text \<open>The tuple set of a loop: a row for each selected node, with a value for each path.\<close>

definition loop_rows :: "input_tree \<Rightarrow> selector_path list \<Rightarrow> input_tree list \<Rightarrow> variant list list" where
  "loop_rows root pt us = map (\<lambda>t. if pt = [] then [V_Null] else map (\<lambda>p. tree_value root p t) pt) us"

text \<open>The pathes in a loop select at most one node from each selected one.\<close>

definition single_pathes :: "input_tree \<Rightarrow> selector_path list \<Rightarrow> input_tree list \<Rightarrow> bool" where
  "single_pathes root pt us = (\<forall>p \<in> set pt. no_up p \<and> (\<forall>t \<in> set us. one_node (select_trees root p [t])))"

lemma loop_tuples_tree:
  assumes "tree_in input root" and "set us \<subseteq> set (descendants root)"
    and "single_pathes root pt us" and "length (vts_colnames vts) = length pt"
  shows "loop_tuples ps input pt (map t_id us) vts =
    Some (Inr (vts\<lparr>vts_ar := vts_ar vts @ concat (map (\<lambda>t. map (\<lambda>p. tree_value root p t) pt) us)\<rparr>))"
  using assms(2-4)
proof (induction us arbitrary: vts)
  case (Cons u us)
  have "loop_tuple ps input (t_id u) pt = Some (Inr (map (\<lambda>p. tree_value root p u) pt))"
    using Cons.prems(1,2) by (intro loop_tuple_tree [OF assms(1)]) (auto simp: single_pathes_def)
  moreover have "single_pathes root pt us" using Cons.prems(2) by (simp add: single_pathes_def)
  ultimately show ?case using Cons.IH Cons.prems(1,3) by (simp add: vts_push_def)
qed simp

lemma null_tuples_eq:
  "length (vts_colnames vts) = 1 \<Longrightarrow> null_tuples nis vts = Inr (vts\<lparr>vts_ar := vts_ar vts @ replicate (length nis) V_Null\<rparr>)"
  by (induction nis arbitrary: vts) (simp_all add: vts_push_def)

lemma column_names_length: "column_names ps pt = Inr ns \<Longrightarrow> length ns = length pt"
  by (induction pt arbitrary: ns) (auto simp: rbind_eq_Inr_iff)

lemma loop_tupleset_tree:
  assumes "tree_in input root" and "set us \<subseteq> set (descendants root)"
    and "single_pathes root pt us" and "column_names ps pt = Inr ns"
  shows "\<exists>vts. loop_tupleset ps input pt (map t_id us) = Some (Inr vts) \<and> vts_wf vts \<and> vts_rows vts = loop_rows root pt us"
proof -
  let ?ns = "if pt = [] then [[]] else ns" and ?rows = "loop_rows root pt us"
  let ?vts = "result_set (map Some ?ns) ?rows"
  have cols: "map (case_option [] id) (map Some ?ns) = ?ns" by (simp add: o_def)
  have len: "length ns = length pt" by (rule column_names_length [OF assms(4)])
  have "concat ?rows = replicate (length us) V_Null" if "pt = []"
    using that by (induction us) (simp_all add: loop_rows_def)
  then have "loop_tupleset ps input pt (map t_id us) = Some (Inr ?vts)"
    using loop_tuples_tree [OF assms(1-3), of "vts_new ns"] assms(4) len
    by (cases "pt = []") (simp_all add: loop_tupleset_def null_tuples_eq vts_new_def result_set_def cols loop_rows_def o_def)
  moreover have "vts_rows ?vts = ?rows" "vts_wf ?vts"
    using len by (intro result_set_rows; auto simp: loop_rows_def)+
  ultimately show ?thesis by blast
qed

section \<open>Loops\<close>

lemma rewrite_body_start:
  assumes "opCode instr = Op_OPEN_ITER_TUPLESET" and "rewrite_body ps is [] = Inr (js, pt)"
  shows "rewrite_body ps (instr # is) [] = Inr (instr # js, pt)"
  using assms by (simp add: argumentType_def array_read_def argumentType_table_def)

text \<open>A loop over a path is resolved to a loop over a tuple set. When the input is a tree, the pathes
  contain no \<^verbatim>\<open>..\<close>, the loop path selects from the nodes \<open>ts\<close> and each path inside of the loop selects at most
  one node from a selected one, then the instruction refers to a new tuple set that has one row for
  each node the loop path selects, in the order of the document, with the values of the nodes
  selected from it by the pathes in the order of their instructions (null where none is selected or it has no
  value); the instructions in the loop are rewritten and all others are kept.\<close>

lemma rewrite_open_iter_tree:
  assumes "tree_in input root" and "set ts \<subseteq> set (descendants root)"
    and "re_selected e = map t_id ts" and "re_ip e < length (rw_code s)" and "rw_code s ! re_ip e = instr"
    and "ps_getPath (argumentIndex instr) ps = Inr path" and "no_up path"
    and "rewrite_body ps (drop (Suc (re_ip e)) (rw_code s)) [] = Inr (is, pt)" and "column_names ps pt = Inr ns"
    and "us = concat (map (\<lambda>t. select_trees root path [t]) ts)"
    and "single_pathes root pt us"
    and "length (tuplesets (rw_prg s)) \<le> Max_ArgumentIndex"
  shows "\<exists>s' vts w. rewrite_open_iter ps input e instr s = Some (Inr s')
    \<and> rw_code s' = take (re_ip e) (rw_code s) @ w # is
    \<and> decode w = (condCode instr, Op_OPEN_ITER_TUPLESET, length (tuplesets (rw_prg s)))
    \<and> tuplesets (rw_prg s') = tuplesets (rw_prg s) @ [Some (length (rw_heap s))]
    \<and> rw_heap s' = rw_heap s @ [vts] \<and> vts_wf vts \<and> vts_rows vts = loop_rows root pt us"
proof -
  let ?n = "length (tuplesets (rw_prg s))"
  have "set us \<subseteq> set (descendants root)" unfolding assms(10)
    using select_trees_in [of "[t]" root path for t] assms(2) by fastforce
  then obtain vts where vts: "loop_tupleset ps input pt (map t_id us) = Some (Inr vts)" "vts_wf vts"
    "vts_rows vts = loop_rows root pt us"
    using loop_tupleset_tree [OF assms(1) _ assms(11,9)] by blast
  obtain w where w: "instruction (condCode instr) Op_OPEN_ITER_TUPLESET (of_nat ?n) = Inr w"
    "decode w = (condCode instr, Op_OPEN_ITER_TUPLESET, ?n)"
    by (rule emit_instruction [of Op_OPEN_ITER_TUPLESET ?n "condCode instr"]) (use assms(12) in \<open>simp_all add: opcodes_def\<close>)
  let ?c = "(rw_code s)[re_ip e := w]"
  have "drop (re_ip e) ?c = w # drop (Suc (re_ip e)) (rw_code s)" using assms(4)
    by (simp add: drop_update_cancel Cons_nth_drop_Suc [symmetric])
  moreover have "opCode w = Op_OPEN_ITER_TUPLESET" using w(2) by (simp add: decode_def)
  ultimately have body: "rewrite_body ps (drop (re_ip e) ?c) [] = Inr (w # is, pt)"
    using rewrite_body_start [OF _ assms(8)] by simp
  have sel: "select_all path (re_selected e) [] input = Some (Inr (map t_id us))"
    using select_all_trees [OF assms(1,2,7), of "[]"] assms(3,10) by simp
  show ?thesis
    using w vts body sel assms(4,6)
    by (simp add: rewrite_open_iter_def program_code_set_def add_tupleset_def rw_set_code_def rw_code_def)
qed

section \<open>References behind a subroutine call\<close>

text \<open>Instructions the rewriter passes by.\<close>

definition passed_by :: "program_code \<Rightarrow> nat \<Rightarrow> bool" where
  "passed_by c i =
    (i < length c \<and> opCode (c ! i) \<notin> {Op_EXIT, Op_RETURN, Op_GOTO}
     \<and> (case argumentType (opCode (c ! i)) of Inl e \<Rightarrow> False | Inr at \<Rightarrow> at \<noteq> At_Path))"

lemma rewrite_passes_by:
  assumes "\<forall>i \<in> {k..<m}. passed_by (rw_code s) i" and "k \<le> m" and "m < length (rw_code s)"
  shows "rewrite_loop ps input visited (\<lparr>re_ip = k, re_selected = sel\<rparr> # es) s =
    rewrite_loop ps input visited (\<lparr>re_ip = m, re_selected = sel\<rparr> # es) s"
  using assms
proof (induction "m - k" arbitrary: k)
  case (Suc d)
  then have "passed_by (rw_code s) k" by simp
  then obtain at where "k < length (rw_code s)" "opCode (rw_code s ! k) \<notin> {Op_EXIT, Op_RETURN, Op_GOTO}"
    "argumentType (opCode (rw_code s ! k)) = Inr at" "at \<noteq> At_Path"
    by (auto simp: passed_by_def split: sum.splits)
  then have "rewrite_turn ps input visited \<lparr>re_ip = k, re_selected = sel\<rparr> es s =
      Some (Inr (visited, \<lparr>re_ip = Suc k, re_selected = sel\<rparr> # es, s))"
    using Suc.prems(3) Suc.hyps(2)
    by (simp add: rewrite_turn_def code_deref_def rewrite_advance_def Let_def)
  then have "rewrite_loop ps input visited (\<lparr>re_ip = k, re_selected = sel\<rparr> # es) s =
      rewrite_loop ps input visited (\<lparr>re_ip = Suc k, re_selected = sel\<rparr> # es) s"
    by (simp add: rewrite_loop.simps [of ps input visited "_ # _"])
  with Suc show ?case by simp
qed simp

lemma decode_code_at:
  "code_at c i [(cc, oc, a)] \<Longrightarrow> i < length c \<and> condCode (c ! i) = cc \<and> opCode (c ! i) = oc \<and> argumentIndex (c ! i) = a"
  by (auto simp: code_at_Cons decode_def)

lemma rewrite_goto:
  assumes "code_at (rw_code s) i [(Co_ALWAYS, Op_GOTO, k)]"
  shows "rewrite_loop ps input visited (\<lparr>re_ip = i, re_selected = sel\<rparr> # es) s =
    rewrite_loop ps input visited (\<lparr>re_ip = k, re_selected = sel\<rparr> # es) s"
  using decode_code_at [OF assms]
  by (simp add: rewrite_loop.simps [of ps input visited "\<lparr>re_ip = i, re_selected = sel\<rparr> # es"]
      rewrite_turn_def code_deref_def Let_def)

lemma rewrite_return:
  assumes "code_at (rw_code s) i [(Co_ALWAYS, Op_RETURN, k)]"
  shows "rewrite_loop ps input visited [\<lparr>re_ip = i, re_selected = sel\<rparr>] s = Some (Inr s)"
  using decode_code_at [OF assms]
  by (simp add: rewrite_loop.simps [of ps input visited "[\<lparr>re_ip = i, re_selected = sel\<rparr>]"]
      rewrite_loop.simps [of ps input visited "[]"] rewrite_turn_def code_deref_def Let_def)


text \<open>The layout of a program with one subroutine, whose main part calls it and then outputs a
  path.\<close>

definition call_example :: rewrite_state where
  "call_example =
    (case emit_all [(Co_ALWAYS, Op_GOTO, 2), (Co_ALWAYS, Op_RETURN, 0), (Co_ALWAYS, Op_SUB_FRAME_CLOSE, 0),
        (Co_ALWAYS, Op_GOTO, 1), (Co_ALWAYS, Op_OUTPUT_PATH, 1)] [] of
       Inr c \<Rightarrow> \<lparr>rw_prg = \<lparr>code = c, constants = [], colnames = [], tagnames = [], resultnames = [],
         statements = [], errorhints = [], signatures = [[]], tuplesets = []\<rparr>, rw_heap = []\<rparr>)"

lemma call_example_code:
  "code_at (rw_code call_example) 0 [(Co_ALWAYS, Op_GOTO, 2), (Co_ALWAYS, Op_RETURN, 0), (Co_ALWAYS, Op_SUB_FRAME_CLOSE, 0),
     (Co_ALWAYS, Op_GOTO, 1), (Co_ALWAYS, Op_OUTPUT_PATH, 1)]"
proof -
  let ?is = "[(Co_ALWAYS, Op_GOTO, 2), (Co_ALWAYS, Op_RETURN, 0), (Co_ALWAYS, Op_SUB_FRAME_CLOSE, 0),
     (Co_ALWAYS, Op_GOTO, 1), (Co_ALWAYS, Op_OUTPUT_PATH, 1)]"
  obtain ws where "emit_all ?is [] = Inr ws" "map decode ws = ?is"
    using emit_all_ok [of ?is "[]"] by (force simp: opcodes_def instruction_layout)
  then show ?thesis using code_at_end [of ws ?is "[]"] by (simp add: call_example_def rw_code_def)
qed


end
