(* ===== verification/Path_Execution.thy ===== *)
theory Path_Execution
  imports Path_Rewriter Loop_Execution
begin

text \<open>
  From the input document to the output of the machine: the code of a loop over a path, resolved by
  \<open>Path_Rewriter\<close> on an input tree and executed on the virtual machine, outputs the values of
  the selected nodes.
\<close>

section \<open>Arguments in a loop\<close>

lemma at_row_argument:
  assumes "at_row a s k p" and "vts_wf s" and "k < length (vts_rows s)" and "j < vts_nofColumns s"
  shows "iteratorArgument (Suc j) p = Inr (vts_rows s ! k ! j)"
proof -
  obtain frm st where st: "m_stack p = frm # st" using assms(1) by (cases "m_stack p") (auto simp: at_row_def)
  then show ?thesis
    using assms(1) vts.row_not_past [OF assms(2,3)] vts.col_pos [OF assms(2,3), of "Suc j"] assms(4)
    by (auto simp: at_row_def iteratorArgument_def vm_top_def iter_target_def vm_deref_def)
qed

text \<open>The loop is entered at the first row of its tuple set.\<close>

lemma enter_tupleset_loop:
  assumes "code_at (code (m_program p)) n [(Co_ALWAYS, Op_OPEN_ITER_TUPLESET, i), (Co_NOT_IF_COND, Op_GOTO, e)]"
    and "e \<le> length (code (m_program p))" and "m_ip p = n" and "m_stack p = frm # st"
    and "i < length (tuplesets (m_program p))" and "tuplesets (m_program p) ! i = Some a"
    and "a < length (m_heap p)" and "m_heap p ! a = s"
    and "vts_wf s" and "loop_independent I" and "I 0 p"
  shows "\<exists>q. vm_reach ops p q \<and> m_ip q = (if vts_rows s = [] then e else n + 2) \<and> m_program q = m_program p
    \<and> at_row a s 0 q \<and> I 0 q"
proof (rule enter_loop [OF _ _ assms(2,4,7-11)])
  show "code_at (code (m_program p)) (n + 1) [(Co_NOT_IF_COND, Op_GOTO, e)]"
    using assms(1) by (simp add: code_at_Cons)
  have "code_at (code (m_program p)) n [(Co_ALWAYS, Op_OPEN_ITER_TUPLESET, i)]"
    using assms(1) by (simp add: code_at_Cons)
  moreover have "iter_begin s \<noteq> iter_end s \<longleftrightarrow> vts_rows s \<noteq> []" using vts.first_is_past [OF assms(9)] by simp
  ultimately show "step ops p = Some (Next (p\<lparr>m_ip := n + 1, m_cond := (vts_rows s \<noteq> []),
      m_stack := frm\<lparr>m_valueSet := Some a, m_valueIter := \<lparr>it_idx = iter_begin s, it_ref = Some a\<rparr>,
        m_valueEnd := \<lparr>it_idx = iter_end s, it_ref = Some a\<rparr>\<rparr> # st\<rparr>))"
    using assms(3-8)
    by (simp add: step_decoded vm_eval exec_control_def exec_output_def exec_assign_def exec_iter_def
        tupleSet_def initValueIteraror_def vm_deref_def Let_def)
qed

section \<open>Output of columns\<close>

abbreviation out_value :: "variant \<Rightarrow> output_element" where
  "out_value v \<equiv> out_element Out_Value v"

definition itr_outputs :: "nat \<Rightarrow> nat \<Rightarrow> decoded list" where
  "itr_outputs j m = map (\<lambda>i. (Co_ALWAYS, Op_OUTPUT_ITR_IDX, Suc i)) [j..<m]"

lemma itr_outputs_Cons: "j < m \<Longrightarrow> itr_outputs j m = (Co_ALWAYS, Op_OUTPUT_ITR_IDX, Suc j) # itr_outputs (Suc j) m"
  by (simp add: itr_outputs_def upt_conv_Cons)

lemma output_columns:
  assumes "code_at (code (m_program p)) (m_ip p) (itr_outputs j m)" and "j \<le> m" and "m_output p \<noteq> []"
    and "at_row a s k p" and "vts_wf s" and "k < length (vts_rows s)" and "m \<le> vts_nofColumns s"
  shows "vm_reach ops p (p\<lparr>m_ip := m_ip p + (m - j),
    m_output := out_append (map (\<lambda>i. out_value (vts_rows s ! k ! i)) [j..<m]) (m_output p)\<rparr>)"
  using assms(1-4)
proof (induction "m - j" arbitrary: j p)
  case 0
  then show ?case by (simp add: vm_reach.start)
next
  case (Suc d)
  let ?q = "p\<lparr>m_ip := m_ip p + 1, m_output := out_append [out_value (vts_rows s ! k ! j)] (m_output p)\<rparr>"
  have j: "j < m" using Suc.hyps(2) by simp
  then have at: "code_at (code (m_program p)) (m_ip p) [(Co_ALWAYS, Op_OUTPUT_ITR_IDX, Suc j)]"
    "code_at (code (m_program p)) (m_ip p + 1) (itr_outputs (Suc j) m)"
    using Suc.prems(1) by (auto simp: itr_outputs_Cons code_at_Cons)
  have "iteratorArgument (Suc j) p = Inr (vts_rows s ! k ! j)"
    using at_row_argument [OF Suc.prems(4) assms(5,6)] j assms(7) by simp
  then have "step ops p = Some (Next ?q)"
    using step_decoded [OF at(1), of ops] Suc.prems(3)
    by (simp add: vm_eval exec_control_def exec_output_def vm_addValue_def vm_output_add_eq)
  moreover have "vm_reach ops ?q (?q\<lparr>m_ip := m_ip ?q + (m - Suc j),
      m_output := out_append (map (\<lambda>i. out_value (vts_rows s ! k ! i)) [Suc j..<m]) (m_output ?q)\<rparr>)"
    using Suc.hyps(1) [of "Suc j" ?q] Suc.hyps(2) j at(2) Suc.prems(4) by (simp add: at_row_def)
  ultimately have "vm_reach ops p (?q\<lparr>m_ip := m_ip ?q + (m - Suc j),
      m_output := out_append (map (\<lambda>i. out_value (vts_rows s ! k ! i)) [Suc j..<m]) (m_output ?q)\<rparr>)"
    by (rule vm_reach_step)
  moreover have "m_ip p + 1 + (m - Suc j) = m_ip p + (m - j)" using j by simp
  ultimately show ?case using j by (simp add: upt_conv_Cons del: add_Suc_right)
qed

section \<open>The code of the loop\<close>

definition foreach_path_code :: "nat \<Rightarrow> nat \<Rightarrow> nat list \<Rightarrow> decoded list" where
  "foreach_path_code n pi qs =
    [(Co_ALWAYS, Op_OPEN_ITER_PATH, pi), (Co_NOT_IF_COND, Op_GOTO, n + length qs + 4)]
    @ map (\<lambda>q. (Co_ALWAYS, Op_OUTPUT_PATH, q)) qs
    @ [(Co_ALWAYS, Op_NEXT, 0), (Co_IF_COND, Op_GOTO, n + 2)]"

lemma rewrite_outputs:
  assumes "map decode ws = map (\<lambda>q. (Co_ALWAYS, Op_OUTPUT_PATH, q)) qs"
    and "list_all2 (\<lambda>q path. ps_getPath q ps = Inr path) qs pts" and "opCode nx = Op_NEXT"
    and "length pt + length qs \<le> Max_ArgumentIndex"
  shows "\<exists>vs. rewrite_body ps (ws @ nx # rest) pt = Inr (vs @ nx # rest, pt @ pts)
    \<and> map decode vs = itr_outputs (length pt) (length pt + length qs)"
  using assms(2,1,4)
proof (induction qs pts arbitrary: ws pt rule: list_all2_induct)
  case Nil
  then show ?case using assms(3) by (simp add: itr_outputs_def)
next
  case (Cons q qs path pts)
  then obtain w us where w: "ws = w # us" "decode w = (Co_ALWAYS, Op_OUTPUT_PATH, q)"
    "map decode us = map (\<lambda>q. (Co_ALWAYS, Op_OUTPUT_PATH, q)) qs" by auto
  obtain v where v: "instruction Co_ALWAYS Op_OUTPUT_ITR_IDX (of_nat (length pt + 1)) = Inr v"
    "decode v = (Co_ALWAYS, Op_OUTPUT_ITR_IDX, length pt + 1)"
    by (rule emit_instruction [of Op_OUTPUT_ITR_IDX "length pt + 1" Co_ALWAYS])
       (use Cons.prems(2) in \<open>simp_all add: opcodes_def\<close>)
  obtain vs where vs: "rewrite_body ps (us @ nx # rest) (pt @ [path]) = Inr (vs @ nx # rest, pt @ path # pts)"
    "map decode vs = itr_outputs (Suc (length pt)) (Suc (length pt) + length qs)"
    using Cons.IH [OF w(3), of "pt @ [path]"] Cons.prems(2) by auto
  have ty: "argumentType Op_OUTPUT_PATH = Inr At_Path" by (simp add: argumentType_def array_read_def argumentType_table_def)
  have "rewrite_body ps (ws @ nx # rest) pt = Inr ((v # vs) @ nx # rest, pt @ path # pts)"
    using w(1,2) v(1) vs(1) Cons.hyps(1) ty by (simp add: decode_def loop_opcode_def)
  then show ?case using v(2) vs(2) by (auto simp: itr_outputs_Cons)
qed

lemma foreach_path_code_parts:
  assumes "code_at c n (foreach_path_code n pi qs)"
  obtains ow g ws nx gb rest where "c = take n c @ ow # g # ws @ nx # gb # rest"
    and "decode ow = (Co_ALWAYS, Op_OPEN_ITER_PATH, pi)" and "decode g = (Co_NOT_IF_COND, Op_GOTO, n + length qs + 4)"
    and "map decode ws = map (\<lambda>q. (Co_ALWAYS, Op_OUTPUT_PATH, q)) qs" and "decode nx = (Co_ALWAYS, Op_NEXT, 0)"
    and "decode gb = (Co_IF_COND, Op_GOTO, n + 2)"
proof -
  let ?is = "foreach_path_code n pi qs"
  have len: "n + length ?is \<le> length c" by (rule code_at_le [OF assms])
  define xs where "xs = take (length ?is) (drop n c)"
  have "map decode xs = ?is" using assms by (auto simp: xs_def code_at_def)
  then obtain ow g ys where 1: "xs = ow # g # ys" "decode ow = (Co_ALWAYS, Op_OPEN_ITER_PATH, pi)"
    "decode g = (Co_NOT_IF_COND, Op_GOTO, n + length qs + 4)"
    "map decode ys = map (\<lambda>q. (Co_ALWAYS, Op_OUTPUT_PATH, q)) qs @ [(Co_ALWAYS, Op_NEXT, 0), (Co_IF_COND, Op_GOTO, n + 2)]"
    by (auto simp: foreach_path_code_def)
  then obtain ws nx gb where 2: "ys = ws @ [nx, gb]" "map decode ws = map (\<lambda>q. (Co_ALWAYS, Op_OUTPUT_PATH, q)) qs"
    "decode nx = (Co_ALWAYS, Op_NEXT, 0)" "decode gb = (Co_IF_COND, Op_GOTO, n + 2)"
    by (auto simp: map_eq_append_conv map_eq_Cons_conv)
  have "c = take n c @ xs @ drop (n + length ?is) c"
    unfolding xs_def by (metis append_take_drop_id drop_drop add.commute)
  with 1 2 show ?thesis using that [of ow g ws nx gb "drop (n + length ?is) c"] by simp
qed

text \<open>The rewritten loop in its program: its head, its outputs and its end.\<close>

lemma rewritten_loop:
  assumes "c = pre @ w # g # vs @ nx # gb # rest" and "length pre = n" and "decode w = (Co_ALWAYS, Op_OPEN_ITER_TUPLESET, i)"
    and "decode g = (Co_NOT_IF_COND, Op_GOTO, e)" and "map decode vs = itr_outputs 0 m"
    and "decode nx = (Co_ALWAYS, Op_NEXT, 0)" and "decode gb = (Co_IF_COND, Op_GOTO, n + 2)"
  shows "code_at c n [(Co_ALWAYS, Op_OPEN_ITER_TUPLESET, i), (Co_NOT_IF_COND, Op_GOTO, e)]"
    and "code_at c (n + 2) (itr_outputs 0 m)" and "loop_end n m c"
proof -
  have m: "length vs = m" using arg_cong [OF assms(5), of length] by (simp add: itr_outputs_def)
  show "code_at c n [(Co_ALWAYS, Op_OPEN_ITER_TUPLESET, i), (Co_NOT_IF_COND, Op_GOTO, e)]"
    using assms code_at_weaken [OF code_at_end [of "[w, g]" "[(Co_ALWAYS, Op_OPEN_ITER_TUPLESET, i), (Co_NOT_IF_COND, Op_GOTO, e)]" pre],
      of "vs @ nx # gb # rest"] by simp
  show "code_at c (n + 2) (itr_outputs 0 m)"
    using assms code_at_weaken [OF code_at_end [OF assms(5), of "pre @ [w, g]"], of "nx # gb # rest"] by simp
  show "loop_end n m c"
    using assms m code_at_weaken [OF code_at_end [of "[nx, gb]" "[(Co_ALWAYS, Op_NEXT, 0), (Co_IF_COND, Op_GOTO, n + 2)]"
      "pre @ w # g # vs"], of rest] by (simp add: loop_end_def add.assoc)
qed

text \<open>The values of the loop as output.\<close>

definition loop_output :: "input_tree \<Rightarrow> selector_path list \<Rightarrow> input_tree list \<Rightarrow> output_element list" where
  "loop_output root pts us = concat (map (\<lambda>t. map (\<lambda>p. out_value (tree_value root p t)) pts) us)"

lemma loop_output_turn:
  assumes "k < length us"
  shows "loop_output root pts (take (Suc k) us) = loop_output root pts (take k us)
    @ map (\<lambda>i. out_value (loop_rows root pts us ! k ! i)) [0..<length pts]"
proof -
  have "map (\<lambda>i. out_value (loop_rows root pts us ! k ! i)) [0..<length pts] =
      map (\<lambda>p. out_value (tree_value root p (us ! k))) pts"
    using assms by (cases "pts = []") (auto simp: loop_rows_def intro: nth_equalityI)
  then show ?thesis using assms by (simp add: loop_output_def take_Suc_conv_app_nth)
qed

lemma output_loop_runs:
  fixes p :: "'db program_instance"
  assumes c: "code (m_program p) = c" and loop: "code_at c n [(Co_ALWAYS, Op_OPEN_ITER_TUPLESET, i), (Co_NOT_IF_COND, Op_GOTO, n + length pts + 4)]"
      "code_at c (n + 2) (itr_outputs 0 (length pts))" "loop_end n (length pts) c"
    and ts: "i < length (tuplesets (m_program p))" "tuplesets (m_program p) ! i = Some a" "a < length (m_heap p)"
    and vts: "vts_wf (m_heap p ! a)" "vts_rows (m_heap p ! a) = loop_rows root pts us"
    and p: "m_ip p = n" "m_stack p \<noteq> []" "m_output p \<noteq> []"
  shows "\<exists>q. vm_reach ops p q \<and> m_ip q = n + length pts + 4 \<and> m_output q = out_append (loop_output root pts us) (m_output p)"
proof -
  let ?s = "m_heap p ! a" and ?m = "length pts"
  define I where "I k q \<longleftrightarrow> m_program q = m_program p \<and> m_output q = out_append (loop_output root pts (take k us)) (m_output p)" for k and q :: "'db program_instance"
  have ind: "loop_independent I" by (simp add: loop_independent_def I_def)
  have rows: "length (vts_rows ?s) = length us" using vts(2) by (simp add: loop_rows_def)
  have "body_turn ops n ?m a ?s I k" if k: "k < length (vts_rows ?s)" for k
    unfolding body_turn_def
  proof (intro allI impI, elim conjE)
    fix q
    assume q: "m_ip q = n + 2" "at_row a ?s k q" "I k q"
    have "length (vts_rows ?s ! k) = vts_nofColumns ?s" using vts.row_length [OF vts(1)] k by simp
    moreover have "?m \<le> length (loop_rows root pts us ! k)" using k rows by (simp add: loop_rows_def)
    ultimately have w: "?m \<le> vts_nofColumns ?s" using vts(2) by simp
    let ?r = "q\<lparr>m_ip := n + 2 + ?m, m_output := out_append (map (\<lambda>i. out_value (vts_rows ?s ! k ! i)) [0..<?m]) (m_output q)\<rparr>"
    have "vm_reach ops q ?r"
      using output_columns [of q 0 ?m a ?s k ops] q c loop(2) w k vts(1) by (simp add: I_def)
    moreover have "I (Suc k) ?r" using q(3) loop_output_turn [of k us root pts] k rows vts(2) by (simp add: I_def)
    ultimately show "\<exists>r. vm_reach ops q r \<and> m_ip r = n + 2 + ?m \<and> loop_end n ?m (code (m_program r))
        \<and> at_row a ?s k r \<and> I (Suc k) r"
      using q c loop(3) by (intro exI [of _ ?r]) (simp add: I_def at_row_def)
  qed
  then have turns: "\<forall>k < length (vts_rows ?s). body_turn ops n ?m a ?s I k" by blast
  obtain frm st where "m_stack p = frm # st" using p(2) by (cases "m_stack p") auto
  moreover have "n + ?m + 4 \<le> length c" using code_at_le [OF loop(3) [unfolded loop_end_def]] by simp
  moreover have "I 0 p" using p(3) by (simp add: I_def loop_output_def)
  ultimately obtain q where q: "vm_reach ops p q" "m_ip q = (if vts_rows ?s = [] then n + ?m + 4 else n + 2)"
    "m_program q = m_program p" "at_row a ?s 0 q" "I 0 q"
    using enter_tupleset_loop [of p n i "n + ?m + 4" frm st a ?s I ops] c loop(1) p(1) ts vts(1) ind by auto
  show ?thesis
  proof (cases "vts_rows ?s = []")
    case True
    then have "us = []" using rows by simp
    with q True show ?thesis by (auto simp: I_def loop_output_def)
  next
    case False
    then have "us \<noteq> []" using rows by auto
    with False obtain r where "vm_reach ops q r" "m_ip r = n + ?m + 4" "I (length us) r"
      using loop_turns [OF turns vts(1) ind, of 0 q] q c loop(3) rows by auto
    with q(1) show ?thesis by (auto simp: I_def intro: vm_reach_trans)
  qed
qed


text \<open>The document \<^verbatim>\<open>a: [7, 8]\<close> and the loop that outputs the elements of \<^verbatim>\<open>a\<close>.\<close>

definition example_pathes :: path_set where
  "example_pathes = \<lparr>ps_tagtab = example_tags, ps_pathar = [[(Sel_Root, 0), (Sel_Next, 2)], [(Sel_Current, 0)]]\<rparr>"

definition loop_example :: rewrite_state where
  "loop_example =
    (case emit_all (foreach_path_code 0 1 [2]) [] of
       Inr c \<Rightarrow> \<lparr>rw_prg = \<lparr>code = c, constants = [], colnames = [], tagnames = [], resultnames = [],
         statements = [], errorhints = [], signatures = [], tuplesets = []\<rparr>, rw_heap = []\<rparr>)"

definition example_root :: input_tree where
  "example_root = ITree 0 \<lparr>il_tag = 0, il_tagstr = 0, il_arrayindex = -1, il_value = None\<rparr> example_kids"

lemma loop_example_code:
  "code_at (rw_code loop_example) 0 (foreach_path_code 0 1 [2])" "tuplesets (rw_prg loop_example) = []"
proof -
  let ?is = "foreach_path_code 0 1 [2]"
  obtain ws where "emit_all ?is [] = Inr ws" "map decode ws = ?is"
    using emit_all_ok [of ?is "[]"] by (force simp: opcodes_def instruction_layout foreach_path_code_def)
  then show "code_at (rw_code loop_example) 0 ?is" "tuplesets (rw_prg loop_example) = []"
    using code_at_end [of ws ?is "[]"] by (simp_all add: loop_example_def rw_code_def)
qed


end
