(* ===== verification/PostgreSQL_Statement.thy ===== *)
theory PostgreSQL_Statement
  imports Database_Binding
begin

text \<open>
  Statements of the PostgreSQL module, \<^verbatim>\<open>src/modules/database/postgresql/PostgreSQLStatement.cpp\<close>:
  values are encoded one after the other into a buffer, numbers in network byte order, and the
  placeholders of the statement are replaced by casts to the types chosen for them. The four C
  arrays of parameters are partial functions, undefined where the code has not written yet. The
  lemmas show what the server receives for each value, under the documented way \<^verbatim>\<open>libpq\<close> reads the
  parameters: a text up to its zero byte, a binary value as the given number of bytes.
\<close>

unbundle bit_operations_syntax

section \<open>State\<close>

datatype timestamp_format = TimestampFormatUndefined | TimestampAsInt | TimestampAsDouble

text \<open>A type of a parameter is \<open>None\<close> for the null pointer. Offsets and lengths are 32 bit integers.\<close>

record pg_statement =
  pg_base :: base_statement
  pg_paramofs :: "nat \<rightharpoonup> 32 word"
  pg_paramtype :: "nat \<rightharpoonup> string option"
  pg_paramlen :: "nat \<rightharpoonup> 32 word"
  pg_parambinary :: "nat \<rightharpoonup> nat"
  pg_paramarsize :: nat
  pg_buf :: string
  pg_conn :: "nat option"
  pg_settings :: timestamp_format

definition pg_statement_new :: pg_statement where
  "pg_statement_new =
    \<lparr>pg_base = bs_empty, pg_paramofs = Map.empty, pg_paramtype = Map.empty, pg_paramlen = Map.empty,
     pg_parambinary = Map.empty, pg_paramarsize = 0, pg_buf = [], pg_conn = None,
     pg_settings = TimestampFormatUndefined\<rparr>"

text \<open>The copy constructor: lengths and formats of the parameters are not copied.\<close>

definition pg_copy :: "pg_statement \<Rightarrow> pg_statement" where
  "pg_copy st =
    st\<lparr>pg_base := bs_copy (pg_base st),
       pg_paramofs := pg_paramofs st |` {..<pg_paramarsize st},
       pg_paramtype := pg_paramtype st |` {..<pg_paramarsize st},
       pg_paramlen := Map.empty, pg_parambinary := Map.empty\<rparr>"

definition pg_clear :: "pg_statement \<Rightarrow> pg_statement" where
  "pg_clear st = st\<lparr>pg_base := bs_clear (pg_base st), pg_paramarsize := 0, pg_buf := []\<rparr>"

definition pg_setConnection :: "nat option \<Rightarrow> timestamp_format \<Rightarrow> pg_statement \<Rightarrow> pg_statement" where
  "pg_setConnection conn settings st = st\<lparr>pg_conn := conn, pg_settings := settings\<rparr>"

text \<open>\<^verbatim>\<open>init\<close> of the base class with the virtual \<^verbatim>\<open>clear\<close>.\<close>

definition pg_init :: "string \<Rightarrow> pg_statement \<Rightarrow> cpp_error option \<times> pg_statement" where
  "pg_init stmtStr st =
    (case bs_init stmtStr (pg_base st) of (e, b) \<Rightarrow> (e, (pg_clear st)\<lparr>pg_base := b\<rparr>))"

section \<open>Encoding\<close>

text \<open>The memory that holds \<^verbatim>\<open>htonl(v)\<close> or \<^verbatim>\<open>htons(v)\<close>: the bytes of \<open>v\<close>, the highest first.\<close>

definition net_bytes :: "nat \<Rightarrow> nat \<Rightarrow> string" where
  "net_bytes n v = map (\<lambda>i. char_of (v div 256 ^ i mod 256)) (rev [0..<n])"

definition setNextParam :: "string \<Rightarrow> string \<Rightarrow> pg_statement \<Rightarrow> pg_statement" where
  "setNextParam bytes ty st =
    st\<lparr>pg_paramofs := (pg_paramofs st)(pg_paramarsize st \<mapsto> of_nat (length (pg_buf st))),
       pg_paramtype := (pg_paramtype st)(pg_paramarsize st \<mapsto> Some ty),
       pg_paramlen := (pg_paramlen st)(pg_paramarsize st \<mapsto> of_nat (length bytes)),
       pg_parambinary := (pg_parambinary st)(pg_paramarsize st \<mapsto> if ty \<noteq> [] then 1 else 0),
       pg_buf := pg_buf st @ bytes, pg_paramarsize := Suc (pg_paramarsize st)\<rparr>"

definition bindUInt64 :: "64 word \<Rightarrow> string \<Rightarrow> pg_statement \<Rightarrow> pg_statement" where
  "bindUInt64 v ty =
    setNextParam (net_bytes 4 (unat (ucast (drop_bit 32 v) :: 32 word)) @ net_bytes 4 (unat (ucast v :: 32 word))) ty"

definition bindInt64 :: "64 word \<Rightarrow> pg_statement \<Rightarrow> pg_statement" where
  "bindInt64 v = bindUInt64 v ''int8''"

definition bindUInt32 :: "32 word \<Rightarrow> string \<Rightarrow> pg_statement \<Rightarrow> pg_statement" where
  "bindUInt32 v ty = setNextParam (net_bytes 4 (unat v)) ty"

definition bindInt32 :: "32 word \<Rightarrow> pg_statement \<Rightarrow> pg_statement" where
  "bindInt32 v = bindUInt32 v ''int4''"

definition bindUInt16 :: "16 word \<Rightarrow> string \<Rightarrow> pg_statement \<Rightarrow> pg_statement" where
  "bindUInt16 v ty = setNextParam (net_bytes 2 (unat v)) ty"

definition bindInt16 :: "16 word \<Rightarrow> pg_statement \<Rightarrow> pg_statement" where
  "bindInt16 v = bindUInt16 v ''int2''"

definition bindByte :: "8 word \<Rightarrow> string \<Rightarrow> pg_statement \<Rightarrow> pg_statement" where
  "bindByte v ty = setNextParam (net_bytes 1 (unat v)) ty"

definition bindBool :: "bool \<Rightarrow> pg_statement \<Rightarrow> pg_statement" where
  "bindBool b = bindByte (if b then 1 else 0) ''bool''"

definition bindDouble :: "64 word \<Rightarrow> pg_statement \<Rightarrow> pg_statement" where
  "bindDouble d = bindUInt64 d ''float8''"

definition bindString :: "string \<Rightarrow> pg_statement \<Rightarrow> pg_statement" where
  "bindString s st = (let st' = setNextParam s [] st in st'\<lparr>pg_buf := pg_buf st' @ [CHR 0x00]\<rparr>)"

definition bindNull :: "pg_statement \<Rightarrow> pg_statement" where
  "bindNull st =
    st\<lparr>pg_paramofs := (pg_paramofs st)(pg_paramarsize st \<mapsto> 0),
       pg_paramtype := (pg_paramtype st)(pg_paramarsize st \<mapsto> None),
       pg_paramlen := (pg_paramlen st)(pg_paramarsize st \<mapsto> 0),
       pg_parambinary := (pg_parambinary st)(pg_paramarsize st \<mapsto> 1),
       pg_paramarsize := Suc (pg_paramarsize st)\<rparr>"

section \<open>Binding\<close>

definition pg_bind_int :: "64 word \<Rightarrow> pg_statement \<Rightarrow> pg_statement" where
  "pg_bind_int n =
    (if sint n \<le> 0x7FFF \<and> sint n \<ge> - 0x7FFF then bindInt16 (ucast n)
     else if sint n \<le> 0x7FFFffff \<and> sint n \<ge> - 0x7FFFffff then bindInt32 (ucast n)
     else bindInt64 n)"

definition pg_bind_uint :: "64 word \<Rightarrow> pg_statement \<Rightarrow> pg_statement" where
  "pg_bind_uint n =
    (if n \<le> 0xFFff then bindUInt16 (ucast n) ''int2''
     else if n \<le> 0xFFFFffff then bindUInt32 (ucast n) ''int4''
     else bindUInt64 n ''int8'')"

text \<open>The cases of \<^verbatim>\<open>bindVariant\<close> for values that are not of a custom type.\<close>

definition pg_bind_plain :: "variant_ops \<Rightarrow> variant \<Rightarrow> pg_statement \<Rightarrow> pg_statement" where
  "pg_bind_plain vo v =
    (case v of
       V_Null \<Rightarrow> bindNull
     | V_Int n \<Rightarrow> pg_bind_int n
     | V_UInt n \<Rightarrow> pg_bind_uint n
     | V_Double d \<Rightarrow> bindDouble d
     | V_Bool b \<Rightarrow> bindBool b
     | V_String s \<Rightarrow> bindString s
     | V_Timestamp t \<Rightarrow> bindString (vo_datetime vo t)
     | _ \<Rightarrow> bindString (vo_tostring vo v))"

definition pg_bindVariant ::
  "variant_ops \<Rightarrow> nat \<Rightarrow> variant \<Rightarrow> pg_statement \<Rightarrow> pg_statement result" where
  "pg_bindVariant vo idx v st =
    (if idx \<noteq> pg_paramarsize st + 1
     then Inl (LogicError ''internal: wrong order of bind param in postgreSQL database module'')
     else case v of
       V_Custom ref \<Rightarrow> (case vo_baseTypeValue vo ref of
           Inl (Custom_RuntimeError m) \<Rightarrow>
             Inl (RuntimeError (''cannot convert value to base type for binding: '' @ m))
         | Inl (Custom_LogicError m) \<Rightarrow> Inl (LogicError m)
         | Inr (Some b) \<Rightarrow> Inr (if is_custom b then bindString (vo_tostring vo v) st
                               else pg_bind_plain vo b st)
         | Inr None \<Rightarrow> Inr (bindString (vo_tostring vo v) st))
     | _ \<Rightarrow> Inr (pg_bind_plain vo v st))"

text \<open>The index is marked as bound before the value is encoded, also when that fails.\<close>

definition pg_statement_bind ::
  "variant_ops \<Rightarrow> nat \<Rightarrow> variant \<Rightarrow> pg_statement \<Rightarrow> unit result \<times> pg_statement" where
  "pg_statement_bind vo idx v st =
    (case bs_bind idx (pg_base st) of
       Inl e \<Rightarrow> (Inl e, st)
     | Inr b \<Rightarrow> let st = st\<lparr>pg_base := b\<rparr> in
         (case pg_bindVariant vo idx v st of Inl e \<Rightarrow> (Inl e, st) | Inr st' \<Rightarrow> (Inr (), st')))"

section \<open>Substitution and execution\<close>

definition pg_replace :: "pg_statement \<Rightarrow> nat \<Rightarrow> string result" where
  "pg_replace st idx =
    (case pg_paramtype st (idx - 1) of
       None \<Rightarrow> Inl (Undefined ''uninitialised parameter type'')
     | Some ty \<Rightarrow> Inr (DOLLAR # print_unsigned idx @
         (case ty of None \<Rightarrow> [] | Some [] \<Rightarrow> [] | Some t \<Rightarrow> ''::'' @ t)))"

definition pg_substitute :: "pg_statement \<Rightarrow> pg_statement result" where
  "pg_substitute st =
    rbind (bs_substitute (pg_replace st) True (pg_base st)) (\<lambda>b. Inr (st\<lparr>pg_base := b\<rparr>))"

text \<open>A pointer into the buffer is the memory from there to the terminating zero byte of \<^verbatim>\<open>c_str\<close>.\<close>

definition getParam :: "pg_statement \<Rightarrow> nat \<Rightarrow> string option result" where
  "getParam st ii =
    (case (pg_paramtype st ii, pg_paramofs st ii) of
       (Some None, _) \<Rightarrow> Inr None
     | (Some (Some _), Some ofs) \<Rightarrow>
         if 0 \<le> sint ofs \<and> nat (sint ofs) \<le> length (pg_buf st)
         then Inr (Some (drop (nat (sint ofs)) (pg_buf st) @ [CHR 0x00]))
         else Inl (Undefined ''pointer outside of the buffer'')
     | _ \<Rightarrow> Inl (Undefined ''uninitialised parameter type''))"

fun collect :: "(nat \<Rightarrow> 'a result) \<Rightarrow> nat list \<Rightarrow> 'a list result" where
  "collect f [] = Inr []"
| "collect f (i # is) = rbind (f i) (\<lambda>x. rbind (collect f is) (\<lambda>xs. Inr (x # xs)))"

definition getParams :: "pg_statement \<Rightarrow> string option list result" where
  "getParams st = collect (getParam st) [0..<pg_paramarsize st]"

text \<open>The arguments of \<^verbatim>\<open>PQexecParams\<close>: the command, the parameters, their lengths and formats.\<close>

record pg_call =
  pc_conn :: "nat option"
  pc_command :: string
  pc_values :: "string option list"
  pc_lengths :: "nat \<rightharpoonup> 32 word"
  pc_formats :: "nat \<rightharpoonup> nat"

definition pg_statement_execute :: "pg_statement \<Rightarrow> pg_call result" where
  "pg_statement_execute st =
    rbind (getParams st) (\<lambda>vs.
      Inr \<lparr>pc_conn = pg_conn st, pc_command = bs_nativeStmt (pg_base st), pc_values = vs,
           pc_lengths = pg_paramlen st, pc_formats = pg_parambinary st\<rparr>)"

section \<open>Bytes\<close>

fun net_value :: "string \<Rightarrow> nat" where
  "net_value [] = 0"
| "net_value (c # cs) = char_code c * 256 ^ length cs + net_value cs"

lemma net_bytes_0 [simp]: "net_bytes 0 v = []"
  by (simp add: net_bytes_def)

lemma net_bytes_Suc: "net_bytes (Suc n) v = char_of (v div 256 ^ n mod 256) # net_bytes n v"
  by (simp add: net_bytes_def)

lemma length_net_bytes [simp]: "length (net_bytes n v) = n"
  by (simp add: net_bytes_def)

lemma net_value_append: "net_value (xs @ ys) = net_value xs * 256 ^ length ys + net_value ys"
  by (induction xs) (simp_all add: power_add algebra_simps)

lemma net_value_bytes: "net_value (net_bytes n v) = v mod 256 ^ n"
proof (induction n)
  case (Suc n)
  have "v mod 256 ^ Suc n = 256 ^ n * (v div 256 ^ n mod 256) + v mod 256 ^ n"
    by (metis mod_mult2_eq power_Suc2)
  then show ?case using Suc by (simp add: net_bytes_Suc)
qed simp

lemma unat_bounds:
  "unat (w :: 8 word) < 256" "unat (x :: 16 word) < 65536" "unat (y :: 32 word) < 4294967296"
  "unat (z :: 64 word) < 18446744073709551616"
  using unsigned_less [of w, where 'a = nat] unsigned_less [of x, where 'a = nat]
    unsigned_less [of y, where 'a = nat] unsigned_less [of z, where 'a = nat] by simp_all

lemma net_value_word:
  "net_value (net_bytes 2 (unat (w :: 16 word))) = unat w"
  "net_value (net_bytes 4 (unat (x :: 32 word))) = unat x"
  "net_value (net_bytes 1 (unat (y :: 8 word))) = unat y"
  using unat_bounds(1) [of y] unat_bounds(2) [of w] unat_bounds(3) [of x] by (simp_all add: net_value_bytes)

lemma net_value_halves:
  fixes v :: "64 word"
  shows "net_value (net_bytes 4 (unat (ucast (drop_bit 32 v) :: 32 word)) @ net_bytes 4 (unat (ucast v :: 32 word)))
    = unat v"
proof -
  have "unat v < 2 ^ 64" using unat_bounds(4) [of v] by simp
  then have "unat v div 2 ^ 32 < 2 ^ 32" by (simp add: less_mult_imp_div_less)
  then have "unat (ucast (drop_bit 32 v) :: 32 word) = unat v div 2 ^ 32"
    by (simp add: unsigned_ucast_eq take_bit_eq_mod unsigned_drop_bit_eq) (simp add: drop_bit_eq_div)
  moreover have "unat (ucast v :: 32 word) = unat v mod 2 ^ 32"
    by (simp add: unsigned_ucast_eq take_bit_eq_mod)
  moreover have "unat v div 2 ^ 32 * 2 ^ 32 + unat v mod 2 ^ 32 = unat v" by (rule div_mult_mod_eq)
  ultimately show ?thesis
    using \<open>unat v div 2 ^ 32 < 2 ^ 32\<close> by (simp add: net_value_append net_value_bytes)
qed

section \<open>What the server receives\<close>

text \<open>\<^verbatim>\<open>libpq\<close>: a null pointer is a null value, a parameter of format 0 a text that ends with its
  zero byte, one of format 1 the given number of bytes.\<close>

datatype pq_param = Pq_Null | Pq_Text string | Pq_Binary string

definition pq_param :: "pg_call \<Rightarrow> nat \<Rightarrow> pq_param option" where
  "pq_param c i =
    (case pc_values c ! i of
       None \<Rightarrow> Some Pq_Null
     | Some mem \<Rightarrow> (case (pc_formats c i, pc_lengths c i) of
         (Some f, Some len) \<Rightarrow>
           Some (if f = 0 then Pq_Text (takeWhile (\<lambda>ch. ch \<noteq> CHR 0x00) mem) else Pq_Binary (take (unat len) mem))
       | _ \<Rightarrow> None))"

text \<open>The server reads a binary parameter in the type it is cast to, integers in two's complement.\<close>

datatype sql_value = Sql_Null | Sql_Text string | Sql_Int int | Sql_Double "64 word" | Sql_Bool bool

definition server_read :: "string \<Rightarrow> pq_param \<Rightarrow> sql_value option" where
  "server_read ty p =
    (case p of
       Pq_Null \<Rightarrow> Some Sql_Null
     | Pq_Text s \<Rightarrow> if ty = [] then Some (Sql_Text s) else None
     | Pq_Binary bytes \<Rightarrow>
         if ty = ''int2'' \<and> length bytes = 2 then Some (Sql_Int (signed_take_bit 15 (int (net_value bytes))))
         else if ty = ''int4'' \<and> length bytes = 4 then Some (Sql_Int (signed_take_bit 31 (int (net_value bytes))))
         else if ty = ''int8'' \<and> length bytes = 8 then Some (Sql_Int (signed_take_bit 63 (int (net_value bytes))))
         else if ty = ''float8'' \<and> length bytes = 8 then Some (Sql_Double (of_nat (net_value bytes)))
         else if ty = ''bool'' \<and> length bytes = 1 then Some (Sql_Bool (net_value bytes \<noteq> 0))
         else None)"

text \<open>The placeholder of a parameter with its cast.\<close>

definition placeholder :: "nat \<Rightarrow> string \<Rightarrow> string" where
  "placeholder idx ty = DOLLAR # print_unsigned idx @ (if ty = [] then [] else ''::'' @ ty)"

text \<open>What the values mean. Unsigned integers are read as signed ones of the width chosen for them.\<close>

definition read_unsigned :: "64 word \<Rightarrow> int" where
  "read_unsigned n =
    (if uint n < 2 ^ 16 then sint (ucast n :: 16 word)
     else if uint n < 2 ^ 32 then sint (ucast n :: 32 word) else sint n)"

definition plain_meaning :: "variant_ops \<Rightarrow> variant \<Rightarrow> sql_value" where
  "plain_meaning vo v =
    (case v of
       V_Null \<Rightarrow> Sql_Null
     | V_Int n \<Rightarrow> Sql_Int (sint n)
     | V_UInt n \<Rightarrow> Sql_Int (read_unsigned n)
     | V_Double d \<Rightarrow> Sql_Double d
     | V_Bool b \<Rightarrow> Sql_Bool b
     | V_String s \<Rightarrow> Sql_Text (takeWhile (\<lambda>ch. ch \<noteq> CHR 0x00) s)
     | V_Timestamp t \<Rightarrow> Sql_Text (takeWhile (\<lambda>ch. ch \<noteq> CHR 0x00) (vo_datetime vo t))
     | _ \<Rightarrow> Sql_Text (takeWhile (\<lambda>ch. ch \<noteq> CHR 0x00) (vo_tostring vo v)))"

definition base_value :: "variant_ops \<Rightarrow> variant \<Rightarrow> variant" where
  "base_value vo v =
    (case v of V_Custom ref \<Rightarrow> (case vo_baseTypeValue vo ref of
       Inr (Some b) \<Rightarrow> if is_custom b then v else b | _ \<Rightarrow> v) | _ \<Rightarrow> v)"

definition meaning :: "variant_ops \<Rightarrow> variant \<Rightarrow> sql_value" where
  "meaning vo v = plain_meaning vo (base_value vo v)"

text \<open>The encoding of a value: its type, empty for text, and its bytes.\<close>

definition encoded :: "variant_ops \<Rightarrow> variant \<Rightarrow> (string \<times> string) option" where
  "encoded vo v =
    (case v of
       V_Null \<Rightarrow> None
     | V_Int n \<Rightarrow> Some (if sint n \<le> 0x7FFF \<and> sint n \<ge> - 0x7FFF then (''int2'', net_bytes 2 (unat (ucast n :: 16 word)))
         else if sint n \<le> 0x7FFFffff \<and> sint n \<ge> - 0x7FFFffff then (''int4'', net_bytes 4 (unat (ucast n :: 32 word)))
         else (''int8'', net_bytes 4 (unat (ucast (drop_bit 32 n) :: 32 word)) @ net_bytes 4 (unat (ucast n :: 32 word))))
     | V_UInt n \<Rightarrow> Some (if n \<le> 0xFFff then (''int2'', net_bytes 2 (unat (ucast n :: 16 word)))
         else if n \<le> 0xFFFFffff then (''int4'', net_bytes 4 (unat (ucast n :: 32 word)))
         else (''int8'', net_bytes 4 (unat (ucast (drop_bit 32 n) :: 32 word)) @ net_bytes 4 (unat (ucast n :: 32 word))))
     | V_Double d \<Rightarrow> Some (''float8'', net_bytes 4 (unat (ucast (drop_bit 32 d) :: 32 word)) @ net_bytes 4 (unat (ucast d :: 32 word)))
     | V_Bool b \<Rightarrow> Some (''bool'', net_bytes 1 (unat (if b then 1 else 0 :: 8 word)))
     | V_String s \<Rightarrow> Some ([], s)
     | V_Timestamp t \<Rightarrow> Some ([], vo_datetime vo t)
     | _ \<Rightarrow> Some ([], vo_tostring vo v))"

definition bind_encoded :: "(string \<times> string) option \<Rightarrow> pg_statement \<Rightarrow> pg_statement" where
  "bind_encoded e =
    (case e of None \<Rightarrow> bindNull
     | Some (ty, bytes) \<Rightarrow> if ty = [] then bindString bytes else setNextParam bytes ty)"

lemmas bind_defs = pg_bind_int_def pg_bind_uint_def bindInt16_def bindUInt16_def bindInt32_def bindUInt32_def
  bindInt64_def bindUInt64_def bindDouble_def bindBool_def bindByte_def

lemma bind_plain_encoded: "pg_bind_plain vo v = bind_encoded (encoded vo v)"
  by (cases v) (auto simp: pg_bind_plain_def encoded_def bind_encoded_def bind_defs)

lemma bindVariant_encoded:
  "pg_bindVariant vo idx v st = Inr st' \<Longrightarrow>
    idx = Suc (pg_paramarsize st) \<and> st' = bind_encoded (encoded vo (base_value vo v)) st"
  by (auto simp: pg_bindVariant_def base_value_def bind_plain_encoded bind_encoded_def encoded_def
      is_custom_def split: if_splits variant.splits sum.splits custom_error.splits option.splits)

text \<open>The arrays and the buffer hold the encodings \<open>ps\<close>.\<close>

definition holds_param :: "pg_statement \<Rightarrow> nat \<Rightarrow> (string \<times> string) option \<Rightarrow> bool" where
  "holds_param st i e =
    (pg_paramtype st i = Some (map_option fst e) \<and>
     (case e of None \<Rightarrow> True
      | Some (ty, bytes) \<Rightarrow> \<exists>ofs rest. pg_paramofs st i = Some (of_nat ofs) \<and> ofs \<le> length (pg_buf st) \<and>
          pg_paramlen st i = Some (of_nat (length bytes)) \<and>
          pg_parambinary st i = Some (if ty \<noteq> [] then 1 else 0) \<and>
          drop ofs (pg_buf st) = bytes @ (if ty = [] then [CHR 0x00] else []) @ rest))"

definition holds :: "pg_statement \<Rightarrow> (string \<times> string) option list \<Rightarrow> bool" where
  "holds st ps = (pg_paramarsize st = length ps \<and> (\<forall>i < length ps. holds_param st i (ps ! i)))"

lemma holds_empty: "pg_paramarsize st = 0 \<Longrightarrow> holds st []"
  by (simp add: holds_def)

lemma holds_base [simp]: "holds (st\<lparr>pg_base := b\<rparr>) ps = holds st ps"
  by (simp add: holds_def holds_param_def split: option.split)

lemma bind_encoded_keeps:
  assumes "holds_param st i e" and "i < pg_paramarsize st"
  shows "holds_param (bind_encoded e' st) i e"
  using assms
  by (fastforce simp: holds_param_def bind_encoded_def setNextParam_def bindString_def bindNull_def Let_def
      split: option.splits if_splits)

lemma bind_encoded_new: "holds_param (bind_encoded e st) (pg_paramarsize st) e"
  by (auto simp: holds_param_def bind_encoded_def setNextParam_def bindString_def bindNull_def Let_def
      split: option.split)

lemma holds_bind:
  assumes "holds st ps"
  shows "holds (bind_encoded e st) (ps @ [e])"
proof -
  have "pg_paramarsize (bind_encoded e st) = Suc (pg_paramarsize st)"
    by (simp add: bind_encoded_def setNextParam_def bindString_def bindNull_def Let_def split: option.split prod.split)
  with assms show ?thesis
    using bind_encoded_keeps [of st _ _ e] bind_encoded_new [of e st]
    by (auto simp: holds_def nth_append less_Suc_eq)
qed

lemma collect_Inr: "(\<And>i. i \<in> set is \<Longrightarrow> f i = Inr (g i)) \<Longrightarrow> collect f is = Inr (map g is)"
  by (induction "is") auto

lemma word_of_length:
  assumes "n < 2 ^ 31"
  shows "sint (of_nat n :: 32 word) = int n" "unat (of_nat n :: 32 word) = n"
proof -
  have "int n < 2 ^ 31" using assms by (metis of_nat_less_iff of_nat_numeral of_nat_power)
  then have "signed_take_bit 31 (int n) = int n" by (intro signed_take_bit_int_eq_self) simp_all
  then show "sint (of_nat n :: 32 word) = int n"
    by (simp add: signed_of_nat)
  show "unat (of_nat n :: 32 word) = n"
    using assms by (simp add: unsigned_of_nat take_bit_nat_eq_self_iff)
qed

text \<open>What \<^verbatim>\<open>libpq\<close> takes from a parameter that holds an encoding.\<close>

definition received :: "(string \<times> string) option \<Rightarrow> pq_param" where
  "received e =
    (case e of None \<Rightarrow> Pq_Null
     | Some (ty, bytes) \<Rightarrow> if ty = [] then Pq_Text (takeWhile (\<lambda>ch. ch \<noteq> CHR 0x00) bytes) else Pq_Binary bytes)"

lemma takeWhile_zero:
  "takeWhile (\<lambda>ch. ch \<noteq> CHR 0x00) (bytes @ CHR 0x00 # rest) = takeWhile (\<lambda>ch. ch \<noteq> CHR 0x00) bytes"
  by (induction bytes) simp_all

lemma holds_getParam:
  assumes "holds_param st i e" and "length (pg_buf st) < 2 ^ 31"
  shows "\<exists>m. getParam st i = Inr m \<and>
    (\<forall>c. pc_values c ! i = m \<longrightarrow> pc_formats c = pg_parambinary st \<longrightarrow> pc_lengths c = pg_paramlen st \<longrightarrow>
       pq_param c i = Some (received e))"
proof (cases e)
  case None
  with assms show ?thesis by (auto simp: holds_param_def getParam_def pq_param_def received_def)
next
  case (Some tb)
  obtain ty bytes where tb: "tb = (ty, bytes)" by fastforce
  with Some assms obtain ofs rest where o: "pg_paramofs st i = Some (of_nat ofs)" "ofs \<le> length (pg_buf st)"
    "pg_paramlen st i = Some (of_nat (length bytes))" "pg_parambinary st i = Some (if ty \<noteq> [] then 1 else 0)"
    "drop ofs (pg_buf st) = bytes @ (if ty = [] then [CHR 0x00] else []) @ rest"
    "pg_paramtype st i = Some (Some ty)"
    by (auto simp: holds_param_def)
  have "length bytes \<le> length (pg_buf st)"
    using arg_cong [OF o(5), of length] by simp
  then have "length bytes < 2 ^ 31" "ofs < 2 ^ 31" using assms(2) o(2) by simp_all
  note w = word_of_length [OF this(1)] word_of_length [OF this(2)]
  have "getParam st i = Inr (Some (drop ofs (pg_buf st) @ [CHR 0x00]))"
    using o w by (simp add: getParam_def)
  moreover have "pq_param c i = Some (received e)"
    if "pc_values c ! i = Some (drop ofs (pg_buf st) @ [CHR 0x00])" "pc_formats c = pg_parambinary st"
      "pc_lengths c = pg_paramlen st" for c
    using that o(3-5) w(2) Some tb by (simp add: pq_param_def received_def takeWhile_zero)
  ultimately show ?thesis by blast
qed

lemma holds_execute:
  assumes "holds st ps" and "length (pg_buf st) < 2 ^ 31"
  shows "\<exists>c. pg_statement_execute st = Inr c \<and> pc_conn c = pg_conn st \<and>
    pc_command c = bs_nativeStmt (pg_base st) \<and> length (pc_values c) = length ps \<and>
    (\<forall>i < length ps. pq_param c i = Some (received (ps ! i)))"
proof -
  define g where "g i = (SOME m. getParam st i = Inr m \<and>
    (\<forall>c. pc_values c ! i = m \<longrightarrow> pc_formats c = pg_parambinary st \<longrightarrow> pc_lengths c = pg_paramlen st \<longrightarrow>
       pq_param c i = Some (received (ps ! i))))" for i
  have g: "getParam st i = Inr (g i)" "\<And>c. pc_values c ! i = g i \<Longrightarrow> pc_formats c = pg_parambinary st \<Longrightarrow>
      pc_lengths c = pg_paramlen st \<Longrightarrow> pq_param c i = Some (received (ps ! i))" if "i < length ps" for i
    using someI_ex [OF holds_getParam [OF _ assms(2), of i "ps ! i"]] assms(1) that
    by (auto simp: g_def holds_def)
  have "getParams st = Inr (map g [0..<length ps])"
    unfolding getParams_def using assms(1) g(1) by (auto simp: holds_def intro!: collect_Inr)
  then show ?thesis using g(2) by (simp add: pg_statement_execute_def)
qed

lemma holds_replace:
  assumes "holds st ps" and "i < length ps"
  shows "pg_replace st (Suc i) = Inr (placeholder (Suc i) (case ps ! i of None \<Rightarrow> [] | Some (ty, _) \<Rightarrow> ty))"
  using assms by (auto simp: holds_def holds_param_def pg_replace_def placeholder_def split: option.split list.split)

section \<open>Reading\<close>

lemma sint_narrow_16:
  assumes "- 32768 \<le> sint (n :: 64 word)" and "sint n \<le> 32767"
  shows "sint (ucast n :: 16 word) = sint n"
proof -
  have "sint (ucast n :: 16 word) = signed_take_bit 15 (sint n)"
    by transfer (simp add: signed_take_bit_take_bit)
  also have "\<dots> = sint n" using assms by (intro signed_take_bit_int_eq_self) simp_all
  finally show ?thesis .
qed

lemma sint_narrow_32:
  assumes "- 2147483648 \<le> sint (n :: 64 word)" and "sint n \<le> 2147483647"
  shows "sint (ucast n :: 32 word) = sint n"
proof -
  have "sint (ucast n :: 32 word) = signed_take_bit 31 (sint n)"
    by transfer (simp add: signed_take_bit_take_bit)
  also have "\<dots> = sint n" using assms by (intro signed_take_bit_int_eq_self) simp_all
  finally show ?thesis .
qed

lemma signed_read:
  "signed_take_bit 15 (uint (w :: 16 word)) = sint w"
  "signed_take_bit 31 (uint (x :: 32 word)) = sint x"
  "signed_take_bit 63 (uint (y :: 64 word)) = sint y"
  by (simp_all add: sint_uint)

lemma server_reads_encoded:
  "(case encoded vo v of None \<Rightarrow> plain_meaning vo v = Sql_Null
    | Some (ty, bytes) \<Rightarrow> server_read ty (received (encoded vo v)) = Some (plain_meaning vo v))"
proof -
  have le: "(n \<le> 0xFFFF) = (uint n < 2 ^ 16)" "(n \<le> 0xFFFFFFFF) = (uint n < 2 ^ 32)" for n :: "64 word"
    by (auto simp: word_le_def)
  show ?thesis
    by (cases v)
       (auto simp: encoded_def plain_meaning_def received_def server_read_def net_value_word net_value_halves
         signed_read sint_narrow_16 sint_narrow_32 read_unsigned_def le net_value_bytes [of "Suc 0"])
qed

lemma server_reads_cast:
  "server_read (case encoded vo v of None \<Rightarrow> [] | Some (ty, _) \<Rightarrow> ty) (received (encoded vo v)) =
    Some (plain_meaning vo v)"
proof (cases "encoded vo v")
  case None
  with server_reads_encoded [of vo v] show ?thesis by (simp add: received_def server_read_def)
next
  case (Some tb)
  with server_reads_encoded [of vo v] show ?thesis by (cases tb) simp
qed

section \<open>A statement with its parameters\<close>

fun pg_bind_all :: "variant_ops \<Rightarrow> nat \<Rightarrow> variant list \<Rightarrow> pg_statement \<Rightarrow> unit result \<times> pg_statement" where
  "pg_bind_all vo i [] st = (Inr (), st)"
| "pg_bind_all vo i (v # vs) st =
    (case pg_statement_bind vo i v st of
       (Inl e, st') \<Rightarrow> (Inl e, st') | (Inr _, st') \<Rightarrow> pg_bind_all vo (Suc i) vs st')"

lemma bs_bind_Inr: "bs_bind i b = Inr b' \<Longrightarrow> b' = b\<lparr>bs_setIdx := insert i (bs_setIdx b)\<rparr>"
  by (auto simp: bs_bind_def rbind_eq_Inr_iff split: if_splits)

lemma bind_encoded_fields [simp]:
  "pg_base (bind_encoded e st) = pg_base st" "pg_conn (bind_encoded e st) = pg_conn st"
  by (simp_all add: bind_encoded_def setNextParam_def bindString_def bindNull_def Let_def
      split: option.split prod.split)

lemma pg_statement_bind_Inr:
  assumes "pg_statement_bind vo i v st = (Inr u, st')" and "holds st ps"
  shows "holds st' (ps @ [encoded vo (base_value vo v)])" "pg_conn st' = pg_conn st"
    "pg_base st' = (pg_base st)\<lparr>bs_setIdx := insert i (bs_setIdx (pg_base st))\<rparr>"
proof -
  obtain b where b: "bs_bind i (pg_base st) = Inr b"
    and st': "pg_bindVariant vo i v (st\<lparr>pg_base := b\<rparr>) = Inr st'"
    using assms(1) by (auto simp: pg_statement_bind_def Let_def split: sum.splits)
  have eq: "st' = bind_encoded (encoded vo (base_value vo v)) (st\<lparr>pg_base := b\<rparr>)"
    using bindVariant_encoded [OF st'] by simp
  have "holds (st\<lparr>pg_base := b\<rparr>) ps" using assms(2) by simp
  then show "holds st' (ps @ [encoded vo (base_value vo v)])" unfolding eq by (rule holds_bind)
  show "pg_conn st' = pg_conn st"
    "pg_base st' = (pg_base st)\<lparr>bs_setIdx := insert i (bs_setIdx (pg_base st))\<rparr>"
    by (simp_all add: eq bs_bind_Inr [OF b])
qed

lemma pg_bind_all_Inr:
  assumes "pg_bind_all vo i vs st = (Inr u, st')" and "holds st ps"
  shows "holds st' (ps @ map (\<lambda>v. encoded vo (base_value vo v)) vs) \<and> pg_conn st' = pg_conn st \<and>
    pg_base st' = (pg_base st)\<lparr>bs_setIdx := bs_setIdx (pg_base st) \<union> {i..<i + length vs}\<rparr>"
  using assms
proof (induction vs arbitrary: i st ps)
  case (Cons v vs)
  then obtain u st1 where st1: "pg_statement_bind vo i v st = (Inr u, st1)"
    and rest: "pg_bind_all vo (Suc i) vs st1 = (Inr (), st')"
    by (auto split: prod.splits sum.splits)
  note b = pg_statement_bind_Inr [OF st1 Cons.prems(2)]
  have "insert i (bs_setIdx (pg_base st)) \<union> {Suc i..<Suc i + length vs} = bs_setIdx (pg_base st) \<union> {i..<i + length (v # vs)}"
    by auto
  with Cons.IH [of "Suc i" st1, OF _ b(1)] rest b(2,3) show ?case by simp
qed simp

lemma substitute_loop_all:
  assumes "\<And>i t. (i, t) \<in> set els \<Longrightarrow> i \<noteq> 0 \<Longrightarrow> i < MaxNofParams \<and> i \<in> bs_setIdx b \<and> rep i = Inr (f i)"
  shows "substitute_loop rep True b els = Inr (concat (map (\<lambda>(i, t). if i = 0 then t else f i) els))"
  using assms by (induction els) (fastforce simp: bitset_at_def)+

text \<open>The command text and the parameters that the call of \<^verbatim>\<open>PQexecParams\<close> carries: \<open>tys\<close> are the types
  of the casts.\<close>

definition call_carries ::
  "variant_ops \<Rightarrow> (nat \<times> string) list \<Rightarrow> string list \<Rightarrow> variant list \<Rightarrow> pg_call \<Rightarrow> bool" where
  "call_carries vo els tys vs c =
    (length (pc_values c) = length vs \<and> length tys = length vs \<and>
     pc_command c = concat (map (\<lambda>(i, t). if i = 0 then t else placeholder i (tys ! (i - 1))) els) \<and>
     (\<forall>i < length vs. \<exists>p. pq_param c i = Some p \<and> server_read (tys ! i) p = Some (meaning vo (vs ! i))))"

lemma pg_execute_carries:
  assumes init: "pg_init stm st0 = (None, st)" and bind: "pg_bind_all vo 1 vs st = (Inr u, st')"
    and used: "bs_usedIdx (pg_base st) \<subseteq> {1..length vs}" and buf: "length (pg_buf st') < 2 ^ 31"
  shows "\<exists>b c tys. pg_substitute st' = Inr (st'\<lparr>pg_base := b\<rparr>) \<and>
    pg_statement_execute (st'\<lparr>pg_base := b\<rparr>) = Inr c \<and> pc_conn c = pg_conn st \<and>
    call_carries vo (bs_data (pg_base st)) tys vs c"
proof -
  let ?e = "\<lambda>v. encoded vo (base_value vo v)"
  define tys where "tys = map (\<lambda>v. case ?e v of None \<Rightarrow> [] | Some (ty, _) \<Rightarrow> ty) vs"
  let ?t = "concat (map (\<lambda>(i, t). if i = 0 then t else placeholder i (tys ! (i - 1))) (bs_data (pg_base st)))"
  obtain b0 b1 where b1: "bs_init stm b0 = (None, b1)" and st: "pg_base st = b1" "pg_paramarsize st = 0"
    using init by (auto simp: pg_init_def pg_clear_def split: prod.splits)
  from pg_bind_all_Inr [OF bind holds_empty [OF st(2)]]
  have h: "holds st' (map ?e vs)" and conn: "pg_conn st' = pg_conn st"
    and base: "pg_base st' = b1\<lparr>bs_setIdx := bs_setIdx b1 \<union> {1..<1 + length vs}\<rparr>"
    using st(1) by simp_all
  have "substitute_loop (pg_replace st') True (pg_base st') (bs_data (pg_base st')) = Inr ?t"
  proof -
    have "i < MaxNofParams \<and> i \<in> bs_setIdx (pg_base st') \<and> pg_replace st' i = Inr (placeholder i (tys ! (i - 1)))"
      if el: "(i, t) \<in> set (bs_data b1)" and nz: "i \<noteq> 0" for i t
    proof -
      have "i \<in> set (param_indices (bs_data b1))" using el nz by (force simp: param_indices_def)
      then have i: "i \<in> bs_usedIdx b1" "i < MaxNofParams"
        using bs_init_params_ok [OF b1] by (auto simp: params_ok_def)
      then obtain j where j: "i = Suc j" "j < length vs"
        using used st(1) nz by (cases i) auto
      then show ?thesis using i holds_replace [OF h, of j] by (simp add: base tys_def)
    qed
    then show ?thesis
      using substitute_loop_all [of "bs_data b1" "pg_base st'" "pg_replace st'" "\<lambda>i. placeholder i (tys ! (i - 1))"]
        st(1) base by simp
  qed
  then have sub: "pg_substitute st' = Inr (st'\<lparr>pg_base := (pg_base st')\<lparr>bs_nativeStmt := ?t\<rparr>\<rparr>)"
    by (simp add: pg_substitute_def bs_substitute_def)
  have "holds (st'\<lparr>pg_base := (pg_base st')\<lparr>bs_nativeStmt := ?t\<rparr>\<rparr>) (map ?e vs)" using h by simp
  from holds_execute [OF this] buf obtain c where
    c: "pg_statement_execute (st'\<lparr>pg_base := (pg_base st')\<lparr>bs_nativeStmt := ?t\<rparr>\<rparr>) = Inr c"
      "pc_conn c = pg_conn st'" "pc_command c = ?t" "length (pc_values c) = length vs"
      "\<And>i. i < length vs \<Longrightarrow> pq_param c i = Some (received (?e (vs ! i)))"
    by auto
  have "server_read (tys ! i) (received (?e (vs ! i))) = Some (meaning vo (vs ! i))" if "i < length vs" for i
    using that by (simp add: tys_def meaning_def server_reads_cast)
  with c have carries: "call_carries vo (bs_data (pg_base st)) tys vs c"
    unfolding call_carries_def by (simp add: tys_def)
  show ?thesis
    by (rule exI [of _ "(pg_base st')\<lparr>bs_nativeStmt := ?t\<rparr>"], rule exI [of _ c], rule exI [of _ tys])
       (use sub c(1) carries c(2) conn in simp)
qed

section \<open>Properties\<close>

lemma read_unsigned_eq:
  "read_unsigned n =
    (if uint n < 2 ^ 15 then uint n else if uint n < 2 ^ 16 then uint n - 2 ^ 16
     else if uint n < 2 ^ 31 then uint n else if uint n < 2 ^ 32 then uint n - 2 ^ 32
     else if uint n < 2 ^ 63 then uint n else uint n - 2 ^ 64)"
proof -
  have "sint (ucast n :: 16 word) = (if uint n < 2 ^ 15 then uint n else uint n - 2 ^ 16)" if "uint n < 2 ^ 16"
    using that signed_take_bit_halves [of "uint n" 15] uint_bounds [of n]
    by (simp add: sint_uint unsigned_ucast_eq take_bit_int_eq_self)
  moreover have "sint (ucast n :: 32 word) = (if uint n < 2 ^ 31 then uint n else uint n - 2 ^ 32)" if "uint n < 2 ^ 32"
    using that signed_take_bit_halves [of "uint n" 31] uint_bounds [of n]
    by (simp add: sint_uint unsigned_ucast_eq take_bit_int_eq_self)
  ultimately show ?thesis using sint_64 [of n] by (auto simp: read_unsigned_def)
qed


lemma pg_example_init:
  "pg_init ''$1'' pg_statement_new = (None, pg_statement_new\<lparr>pg_base :=
    \<lparr>bs_stmtStr = ''$1'', bs_maxParam = 1, bs_data = [(1, [])], bs_nativeStmt = [], bs_usedIdx = {1}, bs_setIdx = {}\<rparr>\<rparr>)"
  by (simp add: pg_init_def pg_statement_new_def pg_clear_def bs_init_def bs_clear_def bs_empty_def
      parse_loop_param parse_examples Let_def push_param_def push_chunk_def bitset_set_def MaxNofParams_def)

definition pg_example :: pg_statement where
  "pg_example = snd (pg_bind_all plain_variants 1 [V_UInt 40000] (snd (pg_init ''$1'' pg_statement_new)))"

lemma pg_example_bind:
  "pg_bind_all plain_variants 1 [V_UInt 40000] (snd (pg_init ''$1'' pg_statement_new)) = (Inr (), pg_example)"
  "length (pg_buf pg_example) = 2"
  unfolding pg_example_def pg_example_init
  by (simp_all add: pg_statement_bind_def bs_bind_def bitset_at_def MaxNofParams_def
      pg_bindVariant_def pg_bind_plain_def bind_defs setNextParam_def Let_def pg_statement_new_def word_le_def)


text \<open>An unsigned integer is sent in the smallest of 16, 32 and 64 bits that holds it as an unsigned
  number, and the server reads it as a signed one: every value in the upper half of its width, as all
  from 32768 to 65535, arrives as the negative number that has the same bits.\<close>
theorem pg_unsigned_read_as_signed:
  assumes "pg_init stm st0 = (None, st)" and "pg_bind_all vo 1 vs st = (Inr (), st')"
    and "bs_usedIdx (pg_base st) \<subseteq> {1..length vs}" and "length (pg_buf st') < 2 ^ 31"
    and "i < length vs" and "vs ! i = V_UInt n"
    and "uint n \<in> {2 ^ 15..<2 ^ 16} \<union> {2 ^ 31..<2 ^ 32} \<union> {2 ^ 63..<2 ^ 64}"
  shows "\<exists>st'' c tys p k. pg_substitute st' = Inr st'' \<and> pg_statement_execute st'' = Inr c \<and>
    call_carries vo (bs_data (pg_base st)) tys vs c \<and> pq_param c i = Some p \<and>
    server_read (tys ! i) p = Some (Sql_Int k) \<and> k < 0 \<and> k \<in> {uint n - 2 ^ 16, uint n - 2 ^ 32, uint n - 2 ^ 64}"
proof -
  from pg_execute_carries [OF assms(1-4)] obtain st'' c tys where c: "pg_substitute st' = Inr st''"
    "pg_statement_execute st'' = Inr c" "call_carries vo (bs_data (pg_base st)) tys vs c"
    by blast
  then obtain p where p: "pq_param c i = Some p" "server_read (tys ! i) p = Some (meaning vo (vs ! i))"
    using assms(5) unfolding call_carries_def by blast
  have "meaning vo (vs ! i) = Sql_Int (read_unsigned n)"
    using assms(6) by (simp add: meaning_def plain_meaning_def base_value_def)
  moreover have "read_unsigned n < 0"
    "read_unsigned n \<in> {uint n - 2 ^ 16, uint n - 2 ^ 32, uint n - 2 ^ 64}"
    using assms(7) by (auto simp: read_unsigned_eq)
  ultimately show ?thesis using c p by metis
qed

theorem pg_unsigned_read_as_signed_witness:
  "\<exists>st'' c tys p k. pg_substitute pg_example = Inr st'' \<and> pg_statement_execute st'' = Inr c \<and>
    call_carries plain_variants [(1, [])] tys [V_UInt 40000] c \<and> pq_param c 0 = Some p \<and>
    server_read (tys ! 0) p = Some (Sql_Int k) \<and> k < 0"
  using pg_unsigned_read_as_signed [OF pg_example_init, of plain_variants "[V_UInt 40000]" pg_example 0 40000]
    pg_example_bind by (simp add: pg_example_init) blast

end
