(* ===== verification/PostgreSQL_Statemachine.thy ===== *)
theory PostgreSQL_Statemachine
  imports PostgreSQL_Statement "HOL-Library.Multiset"
begin

text \<open>
  The PostgreSQL implementation of the database state machine,
  \<^verbatim>\<open>src/modules/database/postgresql/PostgreSQLTransactionExecStatemachine.cpp\<close>, with the pool of
  connections it takes its connection from (\<^verbatim>\<open>include/system/objectPool.hpp\<close>). The client library
  \<^verbatim>\<open>libpq\<close> is a parameter, the record \<open>pq_api\<close> over a state of the library; a result object is a
  number, \<open>None\<close> the null pointer. The interface \<open>reporting_database\<close> of the virtual machine is
  interpreted on this machine, and the statement of the module is executed from end to end.
\<close>

section \<open>The library and the pool\<close>

record 'c pq_api =
  pq_exec :: "nat option \<Rightarrow> string \<Rightarrow> 'c \<Rightarrow> nat option \<times> 'c"
  pq_execParams :: "pg_call \<Rightarrow> 'c \<Rightarrow> nat option \<times> 'c"
  pq_resultStatus :: "nat option \<Rightarrow> 'c \<Rightarrow> nat"
  pq_clear :: "nat option \<Rightarrow> 'c \<Rightarrow> 'c"
  pq_resultErrorMessage :: "nat \<Rightarrow> 'c \<Rightarrow> string option"
  pq_sqlstate :: "nat \<Rightarrow> 'c \<Rightarrow> string option"
  pq_ntuples :: "nat option \<Rightarrow> 'c \<Rightarrow> nat"
  pq_nfields :: "nat \<Rightarrow> 'c \<Rightarrow> nat"
  pq_fname :: "nat \<Rightarrow> int \<Rightarrow> 'c \<Rightarrow> string option"
  pq_getvalue :: "nat \<Rightarrow> int \<Rightarrow> int \<Rightarrow> 'c \<Rightarrow> string option"
  pq_getisnull :: "nat \<Rightarrow> int \<Rightarrow> int \<Rightarrow> 'c \<Rightarrow> bool"
  pq_ftype :: "nat \<Rightarrow> int \<Rightarrow> 'c \<Rightarrow> nat"

abbreviation (input) PGRES_COMMAND_OK :: nat where "PGRES_COMMAND_OK \<equiv> 1"
abbreviation (input) PGRES_TUPLES_OK :: nat where "PGRES_TUPLES_OK \<equiv> 2"

text \<open>\<^verbatim>\<open>ObjectPool::get\<close> without other threads that could add a connection while it waits.\<close>

definition pool_get :: "nat \<Rightarrow> nat list \<Rightarrow> nat result \<times> nat list" where
  "pool_get timeout pool =
    (if pool \<noteq> [] then (Inr (last pool), butlast pool)
     else (Inl (if timeout = 0 then Undefined ''endless loop'' else RuntimeError ''object pool exception''), pool))"

definition pool_add :: "nat \<Rightarrow> nat list \<Rightarrow> nat list" where
  "pool_add conn pool = pool @ [conn]"

lemma pool_get_add [simp]: "pool_get t (pool_add conn pool) = (Inr conn, pool)"
  by (simp add: pool_get_def pool_add_def)

record pg_database =
  pd_ID :: string
  pd_serverSettings :: timestamp_format
  pd_acquireTimeout :: nat

section \<open>State\<close>

datatype pg_state = P_Init | P_Transaction | P_CommandReady | P_Executed | P_Error

definition pg_stateName :: "pg_state \<Rightarrow> string" where
  "pg_stateName st =
    (case st of P_Init \<Rightarrow> ''Init'' | P_Transaction \<Rightarrow> ''Transaction''
     | P_CommandReady \<Rightarrow> ''CommandReady'' | P_Executed \<Rightarrow> ''Executed'' | P_Error \<Rightarrow> ''Error'')"

record 'c pg_sm =
  g_state :: pg_state
  g_lastresult :: "nat option"
  g_lasterror :: "database_error option"
  g_statement :: pg_statement
  g_nof_rows :: nat
  g_idx_row :: nat
  g_hasResult :: bool
  g_conn :: "nat option"
  g_pool :: "nat list"
  g_engine :: 'c

definition pg_new :: "nat list \<Rightarrow> 'c \<Rightarrow> 'c pg_sm" where
  "pg_new pool c =
    \<lparr>g_state = P_Init, g_lastresult = None, g_lasterror = None, g_statement = pg_statement_new,
     g_nof_rows = 0, g_idx_row = 0, g_hasResult = False, g_conn = None, g_pool = pool, g_engine = c\<rparr>"

definition pg_clear_lastresult :: "'c pq_api \<Rightarrow> 'c pg_sm \<Rightarrow> 'c pg_sm" where
  "pg_clear_lastresult api s =
    (if g_lastresult s \<noteq> None
     then s\<lparr>g_engine := pq_clear api (g_lastresult s) (g_engine s), g_lastresult := None\<rparr> else s)"

definition pg_sm_clear :: "'c pq_api \<Rightarrow> 'c pg_sm \<Rightarrow> 'c pg_sm" where
  "pg_sm_clear api s =
    (let s = pg_clear_lastresult api s in
     s\<lparr>g_lasterror := None, g_statement := pg_clear (g_statement s), g_state := P_Init,
       g_nof_rows := 0, g_idx_row := 0, g_hasResult := False\<rparr>)"

text \<open>\<^verbatim>\<open>m_conn.reset()\<close>: the deleter of the shared pointer puts the connection back into the pool.\<close>

definition pg_release :: "'c pg_sm \<Rightarrow> 'c pg_sm" where
  "pg_release s =
    (case g_conn s of None \<Rightarrow> s
     | Some conn \<Rightarrow> s\<lparr>g_conn := None, g_pool := pool_add conn (g_pool s)\<rparr>)"

text \<open>The destructor.\<close>

definition pg_destroy :: "'c pq_api \<Rightarrow> 'c pg_sm \<Rightarrow> 'c pg_sm" where
  "pg_destroy api s = pg_release (pg_sm_clear api s)"

section \<open>Errors\<close>

definition getErrorType :: "string option \<Rightarrow> string option" where
  "getErrorType t =
    (case t of None \<Rightarrow> None
     | Some tp \<Rightarrow>
         let cls = (\<lambda>cs. take 2 tp \<in> set cs) in
         if tp = ''01007'' \<or> tp = ''01008'' then Some ''PRIVILEGE''
         else if cls [''0L'', ''0P'', ''28''] then Some ''PRIVILEGE''
         else if cls [''03''] then Some ''STATEMENT''
         else if cls [''08''] then Some ''CONNECTION''
         else if cls [''09'', ''2F'', ''38'', ''39'', ''3B''] then Some ''EXCEPTION''
         else if cls [''21''] then Some ''PARAMETER''
         else if cls [''22''] then Some ''PARAMETER''
         else if cls [''23''] then Some ''CONSTRAINT''
         else if cls [''42''] then Some ''SYNTAX''
         else if cls [''53''] then Some ''RESOURCE''
         else if take 1 tp = ''5'' then Some ''SYSTEM''
         else if cls [''F0''] then Some ''CONFIGURATION''
         else if cls [''P0''] then Some ''PLSQL''
         else if cls [''XX''] then Some ''INTERNAL''
         else None)"

text \<open>\<^verbatim>\<open>strstr\<close>: the text before and behind the first occurrence.\<close>

fun split_at :: "string \<Rightarrow> string \<Rightarrow> (string \<times> string) option" where
  "split_at pat [] = (if pat = [] then Some ([], []) else None)"
| "split_at pat (c # cs) =
    (if take (length pat) (c # cs) = pat then Some ([], drop (length pat) (c # cs))
     else map_option (\<lambda>(a, b). (c # a, b)) (split_at pat cs))"

definition error_parts :: "string option \<Rightarrow> string \<times> string" where
  "error_parts errmsg =
    (case errmsg of None \<Rightarrow> ([], [])
     | Some m \<Rightarrow>
         let errmsgstr = (if take 7 m = ''ERROR: '' then drop 7 m else m) in
         (case split_at ''DETAIL:'' errmsgstr of None \<Rightarrow> (errmsgstr, []) | Some (a, b) \<Rightarrow> (a, b)))"

definition pg_setDatabaseErrorMessage :: "'c pq_api \<Rightarrow> 'c pg_sm \<Rightarrow> 'c pg_sm" where
  "pg_setDatabaseErrorMessage api s =
    (let errmsg = (case g_lastresult s of None \<Rightarrow> Some [] | Some r \<Rightarrow> pq_resultErrorMessage api r (g_engine s));
         errtype = (case g_lastresult s of None \<Rightarrow> Some ''INTERNAL''
                    | Some r \<Rightarrow> getErrorType (pq_sqlstate api r (g_engine s)));
         parts = error_parts errmsg in
     s\<lparr>g_lasterror := Some ((databaseError (case_option [] id errtype) 0 (fst parts))\<lparr>de_errordetail := snd parts\<rparr>)\<rparr>)"

definition pg_status :: "'c pq_api \<Rightarrow> nat option \<Rightarrow> pg_state \<Rightarrow> 'c pg_sm \<Rightarrow> bool \<times> 'c pg_sm" where
  "pg_status api res newstate s =
    (let es = pq_resultStatus api res (g_engine s);
         rs = (if es = PGRES_COMMAND_OK then (True, s\<lparr>g_hasResult := False, g_state := newstate\<rparr>)
               else if es = PGRES_TUPLES_OK then (True, s\<lparr>g_hasResult := True, g_state := newstate\<rparr>)
               else (False, (pg_setDatabaseErrorMessage api s)\<lparr>g_state := P_Error\<rparr>)) in
     (fst rs, if res \<noteq> g_lastresult s then (snd rs)\<lparr>g_engine := pq_clear api res (g_engine s)\<rparr> else snd rs))"

definition pg_errorStatus :: "string \<Rightarrow> 'c pg_sm \<Rightarrow> bool \<times> 'c pg_sm" where
  "pg_errorStatus msg s =
    (False, if g_state s \<noteq> P_Error
            then s\<lparr>g_lasterror := Some (databaseError ''INTERNAL'' 0 msg), g_state := P_Error\<rparr> else s)"

definition pg_not_allowed :: "string \<Rightarrow> 'c pg_sm \<Rightarrow> bool \<times> 'c pg_sm" where
  "pg_not_allowed what s = pg_errorStatus (what @ [SQUOTE] @ pg_stateName (g_state s) @ [SQUOTE]) s"

section \<open>Operations\<close>

type_synonym ('c, 'a) pg_op = "'c pg_sm \<Rightarrow> 'a result \<times> 'c pg_sm"

text \<open>\<^verbatim>\<open>PQexec\<close> on the connection of the machine.\<close>

definition pg_command :: "'c pq_api \<Rightarrow> string \<Rightarrow> pg_state \<Rightarrow> 'c pg_sm \<Rightarrow> bool \<times> 'c pg_sm" where
  "pg_command api cmd newstate s =
    (case pq_exec api (g_conn s) cmd (g_engine s) of (res, c) \<Rightarrow> pg_status api res newstate (s\<lparr>g_engine := c\<rparr>))"

text \<open>The connection held before is released when the new one is assigned.\<close>

definition pg_begin :: "'c pq_api \<Rightarrow> pg_database \<Rightarrow> ('c, bool) pg_op" where
  "pg_begin api d s =
    (if g_state s \<noteq> P_Init then ok_result (pg_not_allowed ''call of begin not allowed in state '' s)
     else case pool_get (pd_acquireTimeout d) (g_pool s) of
       (Inl e, pool) \<Rightarrow> (Inl e, s\<lparr>g_pool := pool\<rparr>)
     | (Inr conn, pool) \<Rightarrow>
         let s = (pg_release (s\<lparr>g_pool := pool\<rparr>))\<lparr>g_conn := Some conn\<rparr>;
             s = s\<lparr>g_statement := pg_setConnection (g_conn s) (pd_serverSettings d) (g_statement s)\<rparr> in
         ok_result (pg_command api ''BEGIN;'' P_Transaction s))"

definition pg_commit :: "'c pq_api \<Rightarrow> ('c, bool) pg_op" where
  "pg_commit api s =
    (if g_state s \<notin> {P_Transaction, P_Executed, P_CommandReady}
     then ok_result (pg_not_allowed ''call of commit not allowed in state '' s)
     else case pg_command api ''COMMIT;'' P_Init s of (rt, s) \<Rightarrow>
       (Inr rt, if rt then (pg_release s)\<lparr>g_state := P_Init\<rparr> else s))"

definition pg_rollback :: "'c pq_api \<Rightarrow> ('c, bool) pg_op" where
  "pg_rollback api s =
    (if g_state s \<notin> {P_Transaction, P_Executed, P_CommandReady}
     then ok_result (pg_not_allowed ''call of rollback not allowed in state '' s)
     else if g_conn s \<noteq> None then
       (case pg_command api ''ROLLBACK;'' P_Init s of (rt, s) \<Rightarrow>
          (Inr rt, if rt then (pg_release s)\<lparr>g_state := P_Init\<rparr> else s))
     else (Inr True, s\<lparr>g_state := P_Init\<rparr>))"

definition pg_start :: "'c pq_api \<Rightarrow> string \<Rightarrow> ('c, bool) pg_op" where
  "pg_start api statement s =
    (let s = (if g_state s = P_Executed \<or> g_state s = P_CommandReady then s\<lparr>g_state := P_Transaction\<rparr> else s) in
     if g_state s \<noteq> P_Transaction then ok_result (pg_not_allowed ''call of start not allowed in state '' s)
     else let s = pg_sm_clear api s in
       case pg_init statement (g_statement s) of
         (Some e, st) \<Rightarrow> (Inl e, s\<lparr>g_statement := st\<rparr>)
       | (None, st) \<Rightarrow> (Inr True, s\<lparr>g_statement := st, g_state := P_CommandReady\<rparr>))"

definition pg_bind :: "variant_ops \<Rightarrow> nat \<Rightarrow> variant \<Rightarrow> ('c, bool) pg_op" where
  "pg_bind vo idx v s =
    (if g_state s \<noteq> P_CommandReady \<and> g_state s \<noteq> P_Executed
     then ok_result (pg_not_allowed ''call of bind not allowed in state '' s)
     else case pg_statement_bind vo (idx mod 2 ^ 32) v (g_statement s) of
       (Inl (RuntimeError m), st) \<Rightarrow> ok_result (pg_errorStatus m (s\<lparr>g_statement := st\<rparr>))
     | (Inl e, st) \<Rightarrow> (Inl e, s\<lparr>g_statement := st\<rparr>)
     | (Inr _, st) \<Rightarrow> (Inr True, s\<lparr>g_statement := st, g_state := P_CommandReady\<rparr>))"

definition pg_execute :: "'c pq_api \<Rightarrow> ('c, bool) pg_op" where
  "pg_execute api s =
    (if g_state s \<noteq> P_CommandReady
     then ok_result (pg_not_allowed ''call of execute not allowed in state '' s)
     else let s = pg_clear_lastresult api s in
       case pg_substitute (g_statement s) of
         Inl e \<Rightarrow> (Inl e, s)
       | Inr st \<Rightarrow> let s = s\<lparr>g_statement := st\<rparr> in
           (case pg_statement_execute st of
              Inl e \<Rightarrow> (Inl e, s)
            | Inr call \<Rightarrow> (case pq_execParams api call (g_engine s) of (res, c) \<Rightarrow>
                case pg_status api res P_Executed (s\<lparr>g_engine := c, g_lastresult := res\<rparr>) of (rt, s) \<Rightarrow>
                  (Inr rt, if rt then s\<lparr>g_nof_rows := (if g_hasResult s then pq_ntuples api (g_lastresult s) (g_engine s) else 0),
                                        g_idx_row := 0\<rparr> else s))))"

definition pg_hasResult :: "('c, bool) pg_op" where
  "pg_hasResult s = (Inr (g_hasResult s \<and> g_nof_rows s > 0), s)"

text \<open>Reading the result requires the state \<^verbatim>\<open>Executed\<close> and a result; \<open>x\<close> is what is returned else.\<close>

definition with_result :: "'a \<Rightarrow> (nat \<Rightarrow> 'a result \<times> 'c pg_sm) \<Rightarrow> ('c, 'a) pg_op" where
  "with_result x f s =
    (if g_state s \<noteq> P_Executed
     then (Inr x, snd (pg_not_allowed ''inspect command result not possible in state '' s))
     else case g_lastresult s of
       None \<Rightarrow> (Inr x, snd (pg_errorStatus ''command result is empty'' s))
     | Some r \<Rightarrow> f r)"

definition pg_nofColumns :: "'c pq_api \<Rightarrow> ('c, nat) pg_op" where
  "pg_nofColumns api s = with_result 0 (\<lambda>r. (Inr (pq_nfields api r (g_engine s)), s)) s"

text \<open>\<^verbatim>\<open>(int)idx-1\<close>\<close>

definition column_arg :: "nat \<Rightarrow> int" where
  "column_arg idx = sint (of_nat idx - 1 :: 32 word)"

definition pg_columnName :: "'c pq_api \<Rightarrow> nat \<Rightarrow> ('c, string option) pg_op" where
  "pg_columnName api idx s =
    with_result None (\<lambda>r.
      case pq_fname api r (column_arg idx) (g_engine s) of
        None \<Rightarrow> (Inr None, snd (pg_errorStatus
          (''index of column out of range ('' @ print_unsigned idx @ '')'') s))
      | Some t \<Rightarrow> (Inr (Some t), s)) s"

definition pg_boolean :: "string \<Rightarrow> ('c, variant) pg_op" where
  "pg_boolean resval s =
    (if resval = ''t'' then (Inr (V_Bool True), s)
     else if resval = ''f'' then (Inr (V_Bool False), s)
     else (Inr V_Null, snd (pg_errorStatus
       (''unexpected value '' @ [SQUOTE] @ resval @ [SQUOTE] @ '' for boolean type'') s)))"

definition pg_field :: "value_ops \<Rightarrow> nat \<Rightarrow> string \<Rightarrow> ('c, variant) pg_op" where
  "pg_field vx ty resval s =
    (if ty = 16 then pg_boolean resval s
     else if ty = 23 \<or> ty = 20 then
       (case variant_convert vx T_Int (V_String resval) of (Inl e, _) \<Rightarrow> (Inl e, s) | (Inr _, v) \<Rightarrow> (Inr v, s))
     else if ty = 700 \<or> ty = 701 then
       (case variant_todouble vx (V_String resval) of Inl e \<Rightarrow> (Inl e, s) | Inr d \<Rightarrow> (Inr (V_Double d), s))
     else (Inr (V_String resval), s))"

definition pg_get :: "'c pq_api \<Rightarrow> value_ops \<Rightarrow> nat \<Rightarrow> ('c, variant) pg_op" where
  "pg_get api vx idx s =
    with_result V_Null (\<lambda>r.
      if g_idx_row s \<ge> g_nof_rows s then (Inr V_Null, s)
      else let row = sint (of_nat (g_idx_row s) :: 32 word); col = column_arg idx in
        if pq_getisnull api r row col (g_engine s) then (Inr V_Null, s)
        else case pq_getvalue api r row col (g_engine s) of
          None \<Rightarrow> (Inl (Undefined ''null pointer''), s)
        | Some resval \<Rightarrow> pg_field vx (pq_ftype api r col (g_engine s)) resval s) s"

definition pg_next :: "('c, bool) pg_op" where
  "pg_next s =
    (if g_state s \<noteq> P_Executed
     then ok_result (pg_not_allowed ''get next command result not possible in state '' s)
     else if g_idx_row s < g_nof_rows s
     then (Inr (Suc (g_idx_row s) < g_nof_rows s), s\<lparr>g_idx_row := Suc (g_idx_row s)\<rparr>)
     else (Inr False, s))"

definition pg_getLastError :: "('c, database_error option) pg_op" where
  "pg_getLastError s = (Inr (g_lasterror s), s)"

definition pg_ops :: "'c pq_api \<Rightarrow> pg_database \<Rightarrow> variant_ops \<Rightarrow> value_ops \<Rightarrow> 'c pg_sm exec_ops" where
  "pg_ops api d vo vx =
    \<lparr>db_databaseID = (\<lambda>_. pd_ID d), db_start = pg_start api, db_bind = pg_bind vo,
     db_execute = pg_execute api, db_nofColumns = pg_nofColumns api,
     db_columnName = pg_columnName api, db_get = pg_get api vx, db_next = pg_next,
     db_hasResult = pg_hasResult, db_getLastError = pg_getLastError\<rparr>"

definition pg_transaction_ops ::
  "'c pq_api \<Rightarrow> pg_database \<Rightarrow> variant_ops \<Rightarrow> value_ops \<Rightarrow> 'c pg_sm transaction_ops" where
  "pg_transaction_ops api d vo vx =
    \<lparr>tx_exec = pg_ops api d vo vx, tx_begin = pg_begin api d, tx_commit = pg_commit api,
     tx_rollback = pg_rollback api\<rparr>"

section \<open>Failures\<close>

definition pg_inv :: "'c pg_sm \<Rightarrow> bool" where
  "pg_inv s = (g_state s = P_Error \<longrightarrow> g_lasterror s \<noteq> None)"

definition pg_failed :: "'c pg_sm \<Rightarrow> bool" where
  "pg_failed s = (g_state s = P_Error \<and> g_lasterror s \<noteq> None)"

definition pg_outcome :: "bool \<times> 'c pg_sm \<Rightarrow> bool" where
  "pg_outcome r = (pg_inv (snd r) \<and> (\<not> fst r \<longrightarrow> pg_failed (snd r)))"

lemma pg_outcome_status [intro]: "newstate \<noteq> P_Error \<Longrightarrow> pg_outcome (pg_status api res newstate s)"
  by (auto simp: pg_outcome_def pg_status_def pg_inv_def pg_failed_def pg_setDatabaseErrorMessage_def Let_def)

lemma pg_outcome_errorStatus [intro]: "pg_inv s \<Longrightarrow> pg_outcome (pg_errorStatus msg s)"
  by (auto simp: pg_outcome_def pg_errorStatus_def pg_inv_def pg_failed_def)

lemma pg_outcome_not_allowed [intro]: "pg_inv s \<Longrightarrow> pg_outcome (pg_not_allowed msg s)"
  by (auto simp: pg_not_allowed_def)

lemma pg_inv_simps [simp]:
  "pg_inv (s\<lparr>g_engine := c\<rparr>) = pg_inv s" "pg_inv (s\<lparr>g_lastresult := h\<rparr>) = pg_inv s"
  "pg_inv (s\<lparr>g_statement := q\<rparr>) = pg_inv s" "pg_inv (s\<lparr>g_idx_row := n\<rparr>) = pg_inv s"
  "pg_inv (s\<lparr>g_nof_rows := n\<rparr>) = pg_inv s" "st \<noteq> P_Error \<Longrightarrow> pg_inv (s\<lparr>g_state := st\<rparr>)"
  "pg_inv (pg_sm_clear api s)" "pg_inv (pg_clear_lastresult api s) = pg_inv s"
  by (simp_all add: pg_inv_def pg_sm_clear_def pg_clear_lastresult_def Let_def)

definition pg_ok :: "bool result \<times> 'c pg_sm \<Rightarrow> bool" where
  "pg_ok r = (case r of (Inl e, s) \<Rightarrow> pg_inv s \<and> e \<notin> vm_internal_errors
     | (Inr b, s) \<Rightarrow> pg_outcome (b, s))"

lemma pg_ok_simps [simp]:
  "pg_ok (ok_result r) = pg_outcome r" "pg_ok (Inl e, s) \<longleftrightarrow> pg_inv s \<and> e \<notin> vm_internal_errors"
  "pg_ok (Inr True, s) = pg_inv s"
  by (simp_all add: pg_ok_def ok_result_def pg_outcome_def)

lemma pg_init_error: "pg_init t st = (Some e, st') \<Longrightarrow> e \<notin> vm_internal_errors"
  by (auto simp: pg_init_def split: prod.splits dest: bs_init_error)

lemma pg_statement_bind_error: "pg_statement_bind vo i v st = (Inl e, st') \<Longrightarrow> e \<notin> vm_internal_errors"
  by (auto simp: pg_statement_bind_def pg_bindVariant_def Let_def dest: bs_bind_error
      split: sum.splits if_splits variant.splits custom_error.splits option.splits)

lemma pg_substitute_error: "pg_substitute st = Inl e \<Longrightarrow> e \<notin> vm_internal_errors"
proof -
  have "substitute_loop (pg_replace st) True b es = Inl e \<Longrightarrow> e \<notin> vm_internal_errors" for b es
    by (induction es)
       (auto simp: rbind_eq_Inl_iff pg_replace_def bitset_at_def vm_internal_errors_def split: if_splits option.splits)
  then show "pg_substitute st = Inl e \<Longrightarrow> e \<notin> vm_internal_errors"
    by (auto simp: pg_substitute_def bs_substitute_def rbind_eq_Inl_iff)
qed

lemma pg_statement_execute_error: "pg_statement_execute st = Inl e \<Longrightarrow> e \<notin> vm_internal_errors"
proof -
  have "getParam st i = Inl e \<Longrightarrow> e \<notin> vm_internal_errors" for i
    by (auto simp: getParam_def vm_internal_errors_def split: option.splits if_splits)
  then have "collect (getParam st) is = Inl e \<Longrightarrow> e \<notin> vm_internal_errors" for "is"
    by (induction "is") (auto simp: rbind_eq_Inl_iff)
  then show "pg_statement_execute st = Inl e \<Longrightarrow> e \<notin> vm_internal_errors"
    by (auto simp: pg_statement_execute_def getParams_def rbind_eq_Inl_iff)
qed

lemma pg_start_ok: "pg_inv s \<Longrightarrow> pg_ok (pg_start api stm s)"
  by (auto simp: pg_start_def Let_def dest: pg_init_error split: prod.split option.split)

lemma pg_bind_ok: "pg_inv s \<Longrightarrow> pg_ok (pg_bind vo i v s)"
  by (auto simp: pg_bind_def dest: pg_statement_bind_error split: prod.split sum.split cpp_error.split)

lemma pg_execute_ok:
  assumes "pg_inv s"
  shows "pg_ok (pg_execute api s)"
proof -
  have stT: "pg_ok (Inr True, s'\<lparr>g_nof_rows := n, g_idx_row := 0\<rparr>)"
    if "pg_status api res P_Executed s0 = (True, s')" for res s0 n and s' :: "'a pg_sm"
    using pg_outcome_status [of P_Executed api res s0] that by (simp add: pg_ok_def pg_outcome_def)
  have stF: "pg_ok (Inr False, s')" if "pg_status api res P_Executed s0 = (False, s')" for res s0 and s' :: "'a pg_sm"
    using pg_outcome_status [of P_Executed api res s0] that by (simp add: pg_ok_def pg_outcome_def)
  show ?thesis
    using assms unfolding pg_execute_def Let_def
    by (auto simp del: pg_ok_simps(3) intro: stT stF dest: pg_substitute_error pg_statement_execute_error
        split: prod.split sum.split)
qed

lemma pg_ok_res: "pg_ok r \<Longrightarrow> db_res_ok pg_inv r"
  by (auto simp: pg_ok_def db_res_ok_def pg_outcome_def split: prod.splits sum.splits)

lemma pg_inv_errors [simp]:
  "pg_inv s \<Longrightarrow> pg_inv (snd (pg_errorStatus msg s))" "pg_inv s \<Longrightarrow> pg_inv (snd (pg_not_allowed msg s))"
  using pg_outcome_errorStatus [of s msg] pg_outcome_not_allowed [of s msg] by (simp_all add: pg_outcome_def)

lemma with_result_res:
  "pg_inv s \<Longrightarrow> (\<And>r. db_res_ok pg_inv (f r)) \<Longrightarrow> db_res_ok pg_inv (with_result x f s)"
  by (auto simp: with_result_def db_res_ok_def split: option.split)

lemma string_casts_raise:
  assumes "e \<in> vm_internal_errors"
  shows "toint_cast t \<noteq> Inl e" "string2uint_from n t \<noteq> Inl e"
proof -
  show u: "string2uint_from n t \<noteq> Inl e" for n t
    using assms by (induction n t rule: string2uint_from.induct)
      (auto simp: Let_def number_error_def vm_internal_errors_def)
  show "toint_cast t \<noteq> Inl e"
    using assms u by (auto simp: toint_cast_def string2uint_def rbind_eq_Inl_iff number_error_def integer_range_error_def
        vm_internal_errors_def split: list.splits if_splits)
qed

lemma text_conversions:
  "variant_convert vx T_Int (V_String t) =
    (case toint_cast (takeWhile (\<lambda>c. c \<noteq> CHR 0x00) t) of Inl e \<Rightarrow> (Inl e, V_String t) | Inr n \<Rightarrow> (Inr (), V_Int n))"
  "variant_todouble vx (V_String t) = (case vx_double_parse vx t of None \<Rightarrow> Inl BadCast | Some d \<Rightarrow> Inr d)"
  by (simp_all add: variant_convert_def variant_assign_def assign_result_def type_of_variant_def
      variant2int_cast_def plain_toint_def variant_todouble_def plain_todouble_def Let_def)

lemma pg_field_res:
  assumes "pg_inv s"
  shows "db_res_ok pg_inv (pg_field vx ty t s)"
proof -
  have "db_res_ok pg_inv (Inl e :: variant result, s)" if "toint_cast x = Inl e" for x e
    using assms that string_casts_raise(1) [of e x] by (auto simp: db_res_ok_def)
  moreover have "db_res_ok pg_inv (Inl BadCast :: variant result, s)" "db_res_ok pg_inv (Inr (v :: variant), s)" for v
    using assms by (simp_all add: db_res_ok_def vm_internal_errors_def)
  moreover have "db_res_ok pg_inv (pg_boolean t s)"
    using assms by (simp add: pg_boolean_def db_res_ok_def)
  ultimately show ?thesis
    by (auto simp: pg_field_def text_conversions split: sum.split option.split)
qed

lemma pg_read_res:
  assumes "pg_inv s"
  shows "db_res_ok pg_inv (pg_nofColumns api s)" "db_res_ok pg_inv (pg_columnName api i s)"
    "db_res_ok pg_inv (pg_get api vx i s)" "db_res_ok pg_inv (pg_hasResult s)"
    "db_res_ok pg_inv (pg_getLastError s)" "db_res_ok pg_inv (pg_next s)"
proof -
  have val: "db_res_ok pg_inv (Inr x, s)" "db_res_ok pg_inv (Inl (Undefined ''null pointer''), s)" for x
    using assms by (simp_all add: db_res_ok_def vm_internal_errors_def)
  show "db_res_ok pg_inv (pg_nofColumns api s)"
    unfolding pg_nofColumns_def using assms by (intro with_result_res) (simp_all add: db_res_ok_def)
  show "db_res_ok pg_inv (pg_columnName api i s)"
    unfolding pg_columnName_def using assms
    by (intro with_result_res) (simp_all add: db_res_ok_def split: option.split)
  show "db_res_ok pg_inv (pg_get api vx i s)"
    unfolding pg_get_def Let_def using assms
    by (intro with_result_res) (auto simp: val pg_field_res split: option.split)
qed (use assms in \<open>auto simp: db_res_ok_def pg_hasResult_def pg_getLastError_def pg_next_def ok_result_def\<close>)

lemma pg_ops_closed: "db_closed (pg_ops api d vo vx) pg_inv"
  by (auto simp: db_closed_def pg_ops_def pg_read_res intro: pg_ok_res pg_start_ok pg_bind_ok pg_execute_ok)

lemma pg_ok_False: "pg_ok r \<Longrightarrow> r = (Inr False, s) \<Longrightarrow> pg_failed s"
  by (simp add: pg_ok_def pg_outcome_def)

interpretation postgres: reporting_database "pg_ops api d vo vx" pg_inv pg_failed for api d vo vx
proof unfold_locales
  show "db_closed (pg_ops api d vo vx) pg_inv" by (rule pg_ops_closed)
  show "pg_failed s \<Longrightarrow> \<exists>err. db_getLastError (pg_ops api d vo vx) s = (Inr (Some err), s)" for s
    by (auto simp: pg_ops_def pg_failed_def pg_getLastError_def)
qed (auto simp: pg_ops_def intro: pg_ok_False [OF pg_start_ok] pg_ok_False [OF pg_bind_ok]
     pg_ok_False [OF pg_execute_ok])

section \<open>Reachable states\<close>

datatype pg_sm_call =
    PCall_begin | PCall_commit | PCall_rollback | PCall_start string | PCall_bind nat variant
  | PCall_execute | PCall_nofColumns | PCall_columnName nat | PCall_get nat | PCall_next

definition pg_do ::
  "'c pq_api \<Rightarrow> pg_database \<Rightarrow> variant_ops \<Rightarrow> value_ops \<Rightarrow> pg_sm_call \<Rightarrow> 'c pg_sm \<Rightarrow> 'c pg_sm" where
  "pg_do api d vo vx call s =
    (case call of
       PCall_begin \<Rightarrow> snd (pg_begin api d s) | PCall_commit \<Rightarrow> snd (pg_commit api s)
     | PCall_rollback \<Rightarrow> snd (pg_rollback api s) | PCall_start t \<Rightarrow> snd (pg_start api t s)
     | PCall_bind i v \<Rightarrow> snd (pg_bind vo i v s) | PCall_execute \<Rightarrow> snd (pg_execute api s)
     | PCall_nofColumns \<Rightarrow> snd (pg_nofColumns api s) | PCall_columnName i \<Rightarrow> snd (pg_columnName api i s)
     | PCall_get i \<Rightarrow> snd (pg_get api vx i s) | PCall_next \<Rightarrow> snd (pg_next s))"

inductive pg_reach ::
  "'c pq_api \<Rightarrow> pg_database \<Rightarrow> variant_ops \<Rightarrow> value_ops \<Rightarrow> nat list \<Rightarrow> 'c \<Rightarrow> 'c pg_sm \<Rightarrow> bool"
  for api d vo vx pool c where
  new: "pg_reach api d vo vx pool c (pg_new pool c)"
| call: "pg_reach api d vo vx pool c s \<Longrightarrow> pg_reach api d vo vx pool c (pg_do api d vo vx call s)"

text \<open>The connections of the pool and of the machine.\<close>

definition connections :: "'c pg_sm \<Rightarrow> nat multiset" where
  "connections s = mset (g_pool s) + (case g_conn s of None \<Rightarrow> {#} | Some conn \<Rightarrow> {#conn#})"

definition pg_active :: "'c pg_sm \<Rightarrow> bool" where
  "pg_active s = (g_state s \<in> {P_Transaction, P_CommandReady, P_Executed})"

definition pg_wf :: "nat multiset \<Rightarrow> 'c pg_sm \<Rightarrow> bool" where
  "pg_wf cs s =
    (pg_inv s \<and> connections s = cs \<and>
     (pg_active s \<longrightarrow> g_conn s \<noteq> None \<and> pg_conn (g_statement s) = g_conn s) \<and>
     (g_state s = P_Executed \<longrightarrow> g_idx_row s \<le> g_nof_rows s))"

text \<open>The fields that most steps leave as they are.\<close>

definition same_conn :: "'c pg_sm \<Rightarrow> 'c pg_sm \<Rightarrow> bool" where
  "same_conn s s' =
    (g_conn s' = g_conn s \<and> g_pool s' = g_pool s \<and> pg_conn (g_statement s') = pg_conn (g_statement s))"

lemma same_conn_connections: "same_conn s s' \<Longrightarrow> connections s' = connections s"
  by (simp add: same_conn_def connections_def)

lemma pg_wf_error: "pg_failed s' \<Longrightarrow> same_conn s s' \<Longrightarrow> connections s = cs \<Longrightarrow> pg_wf cs s'"
  by (simp add: pg_wf_def pg_failed_def pg_inv_def pg_active_def same_conn_connections)

lemma pg_errorStatus_wf: "pg_wf cs s \<Longrightarrow> pg_wf cs (snd (pg_errorStatus msg s))"
  by (auto simp: pg_errorStatus_def pg_wf_def pg_inv_def pg_active_def connections_def)

lemma pg_not_allowed_wf: "pg_wf cs s \<Longrightarrow> pg_wf cs (snd (pg_not_allowed msg s))"
  by (simp add: pg_not_allowed_def pg_errorStatus_wf)

lemma pg_status_result:
  assumes "pg_status api res newstate s = (rt, s')"
  shows "same_conn s s'" "rt \<Longrightarrow> g_state s' = newstate" "\<not> rt \<Longrightarrow> pg_failed s'"
  using assms
  by (auto simp: pg_status_def Let_def same_conn_def pg_failed_def pg_setDatabaseErrorMessage_def split: if_splits)

lemma pg_command_result:
  assumes "pg_command api cmd newstate s = (rt, s')"
  shows "same_conn s s'" "rt \<Longrightarrow> g_state s' = newstate" "\<not> rt \<Longrightarrow> pg_failed s'"
proof -
  obtain res c where r: "pq_exec api (g_conn s) cmd (g_engine s) = (res, c)" by fastforce
  with assms have st: "pg_status api res newstate (s\<lparr>g_engine := c\<rparr>) = (rt, s')" by (simp add: pg_command_def)
  show "same_conn s s'" "rt \<Longrightarrow> g_state s' = newstate" "\<not> rt \<Longrightarrow> pg_failed s'"
    using pg_status_result [OF st] by (simp_all add: same_conn_def)
qed

lemma release_connections [simp]: "connections (pg_release s) = connections s"
  by (simp add: connections_def pg_release_def pool_add_def split: option.split)

lemma pg_wf_init: "g_state s = P_Init \<Longrightarrow> connections s = cs \<Longrightarrow> pg_wf cs s"
  by (simp add: pg_wf_def pg_inv_def pg_active_def)

lemma state_connections [simp]: "connections (s\<lparr>g_state := st\<rparr>) = connections s"
  by (simp add: connections_def)

lemma pg_release_wf:
  assumes "pg_command api cmd P_Init s = (rt, s')" and "connections s = cs"
  shows "pg_wf cs (if rt then (pg_release s')\<lparr>g_state := P_Init\<rparr> else s')"
  using pg_command_result [OF assms(1)] assms(2)
  by (auto intro: pg_wf_error pg_wf_init simp: same_conn_connections)

lemma pg_transaction_wf:
  assumes "pg_wf cs s"
  shows "pg_wf cs (snd (pg_commit api s))" "pg_wf cs (snd (pg_rollback api s))"
proof -
  have cs: "connections s = cs" using assms by (simp add: pg_wf_def)
  show "pg_wf cs (snd (pg_commit api s))"
    using pg_release_wf [OF _ cs, of api "''COMMIT;''"] assms
    by (simp add: pg_commit_def ok_result_def pg_not_allowed_wf split: prod.split)
  show "pg_wf cs (snd (pg_rollback api s))"
    using pg_release_wf [OF _ cs, of api "''ROLLBACK;''"] assms cs
    by (simp add: pg_rollback_def ok_result_def pg_not_allowed_wf pg_wf_init split: prod.split)
qed

lemma pg_begin_wf:
  assumes "pg_wf cs s"
  shows "pg_wf cs (snd (pg_begin api d s))"
proof (cases "g_state s = P_Init \<and> g_pool s \<noteq> []")
  case False
  have "pg_wf cs (s\<lparr>g_pool := []\<rparr>)" if "g_pool s = []"
    using that assms by (simp add: pg_wf_def pg_inv_def connections_def pg_active_def)
  with False show ?thesis
    using assms by (cases "g_state s = P_Init") (simp_all add: pg_begin_def ok_result_def pg_not_allowed_wf pool_get_def)
next
  case True
  let ?p = "g_pool s"
  let ?s0 = "(pg_release (s\<lparr>g_pool := butlast ?p\<rparr>))\<lparr>g_conn := Some (last ?p)\<rparr>"
  let ?s1 = "?s0\<lparr>g_statement := pg_setConnection (Some (last ?p)) (pd_serverSettings d) (g_statement ?s0)\<rparr>"
  obtain rt s' where s': "pg_command api ''BEGIN;'' P_Transaction ?s1 = (rt, s')" by fastforce
  have "connections s = cs" using assms by (simp add: pg_wf_def)
  moreover have "mset ?p = mset (butlast ?p) + {#last ?p#}"
    using True by (metis append_butlast_last_id mset_append mset_single_iff_right mset.simps)
  ultimately have "connections ?s1 = cs"
    by (auto simp: connections_def pg_release_def pool_add_def split: option.splits)
  moreover have "pg_conn (g_statement ?s1) = g_conn ?s1" "g_conn ?s1 \<noteq> None" by (simp_all add: pg_setConnection_def)
  ultimately have "pg_wf cs s'"
    using pg_command_result [OF s'] same_conn_connections [of ?s1 s']
    by (cases rt) (auto simp: pg_wf_def pg_inv_def pg_failed_def same_conn_def)
  with True s' show ?thesis by (simp add: pg_begin_def pool_get_def ok_result_def Let_def)
qed

lemma pg_statement_conn [simp]:
  "pg_conn (pg_clear st) = pg_conn st" "pg_init t st = (e, st') \<Longrightarrow> pg_conn st' = pg_conn st"
  "pg_substitute st = Inr st' \<Longrightarrow> pg_conn st' = pg_conn st"
  by (auto simp: pg_clear_def pg_init_def pg_substitute_def rbind_eq_Inr_iff split: prod.splits)

lemma pg_statement_bind_conn: "pg_statement_bind vo i v st = (r, st') \<Longrightarrow> pg_conn st' = pg_conn st"
  by (auto simp: pg_statement_bind_def Let_def dest!: bindVariant_encoded split: sum.splits)

lemma pg_clear_same_conn [simp]: "same_conn s (pg_sm_clear api s)" "same_conn s (pg_clear_lastresult api s)"
  "g_state (pg_sm_clear api s) = P_Init" "g_state (pg_clear_lastresult api s) = g_state s"
  by (simp_all add: same_conn_def pg_sm_clear_def pg_clear_lastresult_def Let_def)

lemma pg_wf_move:
  assumes "pg_wf cs s" and "pg_active s" and "same_conn s s'" and "g_state s' \<in> {P_Transaction, P_CommandReady}"
  shows "pg_wf cs s'"
  using assms same_conn_connections [OF assms(3)] by (auto simp: pg_wf_def pg_inv_def same_conn_def)

lemma pg_start_wf:
  assumes "pg_wf cs s"
  shows "pg_wf cs (snd (pg_start api t s))"
proof (cases "pg_active s")
  case False
  then show ?thesis
    using assms by (auto simp: pg_start_def pg_active_def Let_def ok_result_def intro: pg_not_allowed_wf)
next
  case True
  let ?s = "if g_state s = P_Executed \<or> g_state s = P_CommandReady then s\<lparr>g_state := P_Transaction\<rparr> else s"
  have same: "same_conn s (pg_sm_clear api ?s)" and st: "g_state ?s = P_Transaction"
    using pg_clear_same_conn(1) [of ?s api] True by (auto simp: same_conn_def pg_active_def split: if_splits)
  obtain e st where i: "pg_init t (g_statement (pg_sm_clear api ?s)) = (e, st)" by fastforce
  have conn: "same_conn s ((pg_sm_clear api ?s)\<lparr>g_statement := st\<rparr>)"
    using same pg_statement_conn(2) [OF i] by (simp add: same_conn_def)
  have eq: "pg_start api t s =
    (case e of Some err \<Rightarrow> (Inl err, (pg_sm_clear api ?s)\<lparr>g_statement := st\<rparr>)
     | None \<Rightarrow> (Inr True, (pg_sm_clear api ?s)\<lparr>g_statement := st, g_state := P_CommandReady\<rparr>))"
    using st i by (simp add: pg_start_def Let_def split: option.split)
  show ?thesis
  proof (cases e)
    case None
    then show ?thesis
      using pg_wf_move [OF assms True, of "(pg_sm_clear api ?s)\<lparr>g_statement := st, g_state := P_CommandReady\<rparr>"] conn eq
      by (simp add: same_conn_def)
  next
    case (Some err)
    have "connections s = cs" using assms by (simp add: pg_wf_def)
    then show ?thesis using Some eq same_conn_connections [OF conn] by (simp add: pg_wf_init)
  qed
qed

lemma pg_bind_wf:
  assumes "pg_wf cs s"
  shows "pg_wf cs (snd (pg_bind vo i v s))"
proof (cases "g_state s = P_CommandReady \<or> g_state s = P_Executed")
  case False
  then show ?thesis using assms by (simp add: pg_bind_def ok_result_def pg_not_allowed_wf)
next
  case True
  obtain r st where b: "pg_statement_bind vo (i mod 2 ^ 32) v (g_statement s) = (r, st)" by fastforce
  have wf: "pg_wf cs (s\<lparr>g_statement := st\<rparr>)"
    using assms pg_statement_bind_conn [OF b] by (simp add: pg_wf_def pg_inv_def connections_def pg_active_def)
  have "pg_wf cs (s\<lparr>g_statement := st, g_state := P_CommandReady\<rparr>)"
    using pg_wf_move [OF assms, of "s\<lparr>g_statement := st, g_state := P_CommandReady\<rparr>"] True pg_statement_bind_conn [OF b]
    by (auto simp: pg_active_def same_conn_def)
  with wf True b show ?thesis
    by (auto simp: pg_bind_def ok_result_def pg_errorStatus_wf split: sum.split cpp_error.split)
qed

lemma pg_execute_wf:
  assumes "pg_wf cs s"
  shows "pg_wf cs (snd (pg_execute api s))"
proof (cases "g_state s = P_CommandReady")
  case False
  then show ?thesis using assms by (simp add: pg_execute_def ok_result_def pg_not_allowed_wf)
next
  case True
  let ?s = "pg_clear_lastresult api s"
  have act: "pg_active s" using True by (simp add: pg_active_def)
  have same: "same_conn s ?s" by simp
  have wf: "pg_wf cs ?s" using pg_wf_move [OF assms act same] True by simp
  have exec: "pg_wf cs (if rt then s'\<lparr>g_nof_rows := n, g_idx_row := 0\<rparr> else s')"
    if st: "pg_substitute (g_statement ?s) = Inr st"
      and s': "pg_status api res P_Executed (?s\<lparr>g_statement := st, g_engine := c, g_lastresult := res\<rparr>) = (rt, s')"
    for st res c rt n and s' :: "'a pg_sm"
  proof -
    note r = pg_status_result [OF s']
    have conn: "same_conn s s'" using r(1) same pg_statement_conn(3) [OF st] by (simp add: same_conn_def)
    have cs: "connections s = cs" using assms by (simp add: pg_wf_def)
    show ?thesis
    proof (cases rt)
      case True
      have "connections s' = cs" using same_conn_connections [OF conn] cs by simp
      moreover have "g_conn s' \<noteq> None \<and> pg_conn (g_statement s') = g_conn s'"
        using assms act conn by (simp add: pg_wf_def same_conn_def)
      ultimately show ?thesis using True r(2) by (simp add: pg_wf_def pg_inv_def connections_def)
    next
      case False
      then show ?thesis using r(3) pg_wf_error [OF _ conn cs] by simp
    qed
  qed
  have "pg_wf cs (?s\<lparr>g_statement := st\<rparr>)" if "pg_substitute (g_statement ?s) = Inr st" for st
    using wf pg_statement_conn(3) [OF that] by (simp add: pg_wf_def pg_inv_def connections_def pg_active_def)
  with wf exec True show ?thesis
    by (auto simp: pg_execute_def Let_def split: sum.split prod.split)
qed

lemma with_result_wf:
  "pg_wf cs s \<Longrightarrow> (\<And>r. pg_wf cs (snd (f r))) \<Longrightarrow> pg_wf cs (snd (with_result x f s))"
  by (simp add: with_result_def pg_not_allowed_wf pg_errorStatus_wf split: option.split)

lemma pg_read_wf:
  assumes "pg_wf cs s"
  shows "pg_wf cs (snd (pg_nofColumns api s))" "pg_wf cs (snd (pg_columnName api i s))"
    "pg_wf cs (snd (pg_get api vx i s))" "pg_wf cs (snd (pg_next s))"
proof -
  have "pg_wf cs (snd (pg_field vx ty t s))" for ty t
    using assms by (simp add: pg_field_def pg_boolean_def pg_errorStatus_wf split: sum.split prod.split)
  then show "pg_wf cs (snd (pg_get api vx i s))"
    unfolding pg_get_def Let_def using assms by (intro with_result_wf) (simp_all split: option.split)
  show "pg_wf cs (snd (pg_nofColumns api s))" "pg_wf cs (snd (pg_columnName api i s))"
    unfolding pg_nofColumns_def pg_columnName_def using assms
    by (intro with_result_wf; simp add: pg_errorStatus_wf split: option.split)+
  show "pg_wf cs (snd (pg_next s))"
    using assms pg_not_allowed_wf [OF assms]
    by (auto simp: pg_next_def ok_result_def) (simp add: pg_wf_def pg_inv_def connections_def pg_active_def)
qed

lemma pg_reach_wf: "pg_reach api d vo vx pool c s \<Longrightarrow> pg_wf (mset pool) s"
proof (induction rule: pg_reach.induct)
  case new
  show ?case by (simp add: pg_new_def pg_wf_def pg_inv_def pg_active_def connections_def)
next
  case (call s op)
  then show ?case
    by (cases op) (simp_all add: pg_do_def pg_transaction_wf pg_begin_wf pg_start_wf pg_bind_wf pg_execute_wf pg_read_wf)
qed

end
