(* ===== verification/PostgreSQL_Execution.thy ===== *)
theory PostgreSQL_Execution
  imports PostgreSQL_Statemachine
begin

text \<open>
  A statement on PostgreSQL from end to end: from \<^verbatim>\<open>Transaction::executeStatement\<close> over the generated
  program, the virtual machine, the state machine and the encoding of the parameters to the call of
  \<^verbatim>\<open>libpq\<close> and back to the table of results; and what the state machine does when something fails.
\<close>

section \<open>Binding\<close>

definition convertible :: "variant_ops \<Rightarrow> variant \<Rightarrow> bool" where
  "convertible vo v = (case v of V_Custom ref \<Rightarrow> (case vo_baseTypeValue vo ref of Inl _ \<Rightarrow> False | Inr _ \<Rightarrow> True) | _ \<Rightarrow> True)"

definition encoded_length :: "variant_ops \<Rightarrow> variant \<Rightarrow> nat" where
  "encoded_length vo v =
    (case encoded vo (base_value vo v) of None \<Rightarrow> 0
     | Some (ty, bytes) \<Rightarrow> length bytes + (if ty = [] then 1 else 0))"

lemma bindVariant_ok:
  assumes "convertible vo v"
  shows "pg_bindVariant vo (Suc (pg_paramarsize st)) v st = Inr (bind_encoded (encoded vo (base_value vo v)) st)"
proof (cases "\<exists>ref. v = V_Custom ref")
  case False
  then have "base_value vo v = v" by (simp add: base_value_def split: variant.split)
  moreover have "pg_bindVariant vo (Suc (pg_paramarsize st)) v st = Inr (pg_bind_plain vo v st)"
    using False by (cases v) (simp_all add: pg_bindVariant_def)
  ultimately show ?thesis by (simp add: bind_plain_encoded)
next
  case True
  then show ?thesis
    using assms
    by (auto simp: pg_bindVariant_def convertible_def base_value_def bind_plain_encoded encoded_def bind_encoded_def
        is_custom_def split: sum.splits option.splits variant.splits)
qed

lemma bind_encoded_sizes [simp]:
  "pg_paramarsize (bind_encoded e st) = Suc (pg_paramarsize st)"
  "length (pg_buf (bind_encoded e st)) = length (pg_buf st) +
    (case e of None \<Rightarrow> 0 | Some (ty, bytes) \<Rightarrow> length bytes + (if ty = [] then 1 else 0))"
  by (simp_all add: bind_encoded_def setNextParam_def bindString_def bindNull_def Let_def split: option.split prod.split)

lemma pg_bind_all_ok:
  assumes "list_all (convertible vo) vs" and "b = pg_base st" and "i = Suc (pg_paramarsize st)"
    and "bs_usedIdx b = {1..n}" and "bs_maxParam b = n" and "bs_setIdx b = {1..<i}"
    and "i + length vs = Suc n" and "n < MaxNofParams"
  shows "\<exists>st'. pg_bind_all vo i vs st = (Inr (), st') \<and>
    length (pg_buf st') = length (pg_buf st) + sum_list (map (encoded_length vo) vs)"
  using assms
proof (induction vs arbitrary: i st b)
  case (Cons v vs)
  let ?b = "b\<lparr>bs_setIdx := insert i (bs_setIdx b)\<rparr>"
  let ?st = "bind_encoded (encoded vo (base_value vo v)) (st\<lparr>pg_base := ?b\<rparr>)"
  have "bs_bind i b = Inr ?b"
    using Cons.prems by (simp add: bs_bind_def bitset_at_def)
  then have bind: "pg_statement_bind vo i v st = (Inr (), ?st)"
    using Cons.prems bindVariant_ok [of vo v "st\<lparr>pg_base := ?b\<rparr>"]
    by (simp add: pg_statement_bind_def Let_def)
  have "insert i (bs_setIdx b) = {1..<Suc i}" using Cons.prems by auto
  with Cons.IH [of ?b ?st "Suc i"] Cons.prems bind show ?case
    by (auto simp: encoded_length_def)
qed simp

lemma pg_bind_all_machine:
  assumes "pg_bind_all vo i vs st = (Inr (), st')" and "g_state s = P_CommandReady" and "g_statement s = st"
    and "i + length vs < 2 ^ 32"
  shows "bind_all (pg_ops api d vo vx) i vs s = Some (s\<lparr>g_statement := st'\<rparr>)"
  using assms
proof (induction vs arbitrary: i s st)
  case Nil
  then show ?case by (cases s) (simp add: bind_all.simps)
next
  case (Cons v vs)
  then obtain st1 where st1: "pg_statement_bind vo i v st = (Inr (), st1)"
    and rest: "pg_bind_all vo (Suc i) vs st1 = (Inr (), st')"
    by (auto split: prod.splits sum.splits)
  have "pg_bind vo i v s = (Inr True, s\<lparr>g_statement := st1\<rparr>)"
    using Cons.prems st1 by (cases s) (simp add: pg_bind_def)
  then show ?case
    using Cons.IH [OF rest, of "s\<lparr>g_statement := st1\<rparr>"] Cons.prems
    by (simp add: bind_all_Cons pg_ops_def)
qed

section \<open>The result\<close>

text \<open>A field as \<^verbatim>\<open>get\<close> reads it, when nothing goes wrong.\<close>

definition field_value :: "value_ops \<Rightarrow> nat \<Rightarrow> string \<Rightarrow> variant option" where
  "field_value vx ty t =
    (if ty = 16 then (if t = ''t'' then Some (V_Bool True) else if t = ''f'' then Some (V_Bool False) else None)
     else if ty = 23 \<or> ty = 20 then
       (case toint_cast (takeWhile (\<lambda>c. c \<noteq> CHR 0x00) t) of Inl _ \<Rightarrow> None | Inr n \<Rightarrow> Some (V_Int n))
     else if ty = 700 \<or> ty = 701 then map_option V_Double (vx_double_parse vx t)
     else Some (V_String t))"

definition cell_value :: "'c pq_api \<Rightarrow> value_ops \<Rightarrow> nat \<Rightarrow> 'c \<Rightarrow> nat \<Rightarrow> nat \<Rightarrow> variant option" where
  "cell_value api vx r c row col =
    (if pq_getisnull api r (int row) (int col) c then Some V_Null
     else Option.bind (pq_getvalue api r (int row) (int col) c) (field_value vx (pq_ftype api r (int col) c)))"

definition result_table ::
  "'c pq_api \<Rightarrow> value_ops \<Rightarrow> nat \<Rightarrow> string list \<Rightarrow> variant list list \<Rightarrow> 'c \<Rightarrow> bool" where
  "result_table api vx r cols rows c =
    (pq_resultStatus api (Some r) c = (if cols = [] then PGRES_COMMAND_OK else PGRES_TUPLES_OK) \<and>
     pq_nfields api r c = length cols \<and> pq_ntuples api (Some r) c = length rows \<and>
     list_all (\<lambda>i. pq_fname api r (int i) c = Some (cols ! i)) [0..<length cols] \<and>
     list_all (\<lambda>j. map (cell_value api vx r c j) [0..<length cols] = map Some (rows ! j)) [0..<length rows])"

lemma column_arg_Suc: "i < 2147483647 \<Longrightarrow> column_arg (Suc i) = int i"
  using word_of_length(1) [of i] by (simp add: column_arg_def)

lemma pg_field_value:
  assumes "field_value vx ty t = Some v"
  shows "pg_field vx ty t s = (Inr v, s)"
proof -
  consider "ty = 16" | "ty \<noteq> 16" "ty = 23 \<or> ty = 20" | "ty \<noteq> 16" "\<not> (ty = 23 \<or> ty = 20)" "ty = 700 \<or> ty = 701"
    | "ty \<noteq> 16" "\<not> (ty = 23 \<or> ty = 20)" "\<not> (ty = 700 \<or> ty = 701)" by blast
  then show ?thesis
  proof cases
    case 1
    with assms show ?thesis by (simp add: field_value_def pg_field_def pg_boolean_def split: if_splits)
  next
    case 2
    with assms show ?thesis
      by (cases "toint_cast (takeWhile (\<lambda>c. c \<noteq> CHR 0x00) t)")
         (simp_all only: field_value_def pg_field_def text_conversions if_True if_False sum.case prod.case
           option.inject option.distinct)
  next
    case 3
    with assms show ?thesis
      by (cases "vx_double_parse vx t")
         (simp_all only: field_value_def pg_field_def text_conversions if_True if_False sum.case option.case
           option.map option.inject option.distinct)
  next
    case 4
    with assms show ?thesis
      by (simp only: field_value_def pg_field_def if_False option.inject)
  qed
qed

lemma pg_get_cell:
  assumes "g_state s = P_Executed" and "g_lastresult s = Some r" and "g_idx_row s < g_nof_rows s"
    and "g_idx_row s < 2 ^ 31" and "i < 2147483647" and "cell_value api vx r (g_engine s) (g_idx_row s) i = Some v"
  shows "pg_get api vx (Suc i) s = (Inr v, s)"
proof -
  have "sint (of_nat (g_idx_row s) :: 32 word) = int (g_idx_row s)" by (rule word_of_length(1) [OF assms(4)])
  then show ?thesis
    using assms by (auto simp: pg_get_def with_result_def Let_def column_arg_Suc cell_value_def pg_field_value
        split: if_splits bind_splits)
qed

lemma pg_yields:
  assumes "g_state s = P_Executed" and "g_lastresult s = Some r" and "drop (g_idx_row s) rows = rs" and "rs \<noteq> []"
    and "g_nof_rows s = length rows" and "result_table api vx r cols rows (g_engine s)"
    and "length cols < 2147483647" and "length rows < 2 ^ 31"
  shows "yields (pg_ops api d vo vx) (length cols) rs s (s\<lparr>g_idx_row := length rows\<rparr>)"
  using assms
proof (induction rs arbitrary: s)
  case (Cons r0 rs)
  let ?j = "g_idx_row s"
  have j: "?j < length rows" and r0: "rows ! ?j = r0" and rs: "drop (Suc ?j) rows = rs"
    using Cons.prems(3) by (metis drop_all linorder_not_less list.distinct(1), metis nth_via_drop,
        metis drop_Suc list.sel(3) tl_drop)
  have cells: "map (cell_value api vx r (g_engine s) ?j) [0..<length cols] = map Some r0"
    using Cons.prems(6) j r0 by (simp add: result_table_def list_all_iff)
  then have len: "length r0 = length cols" by (metis length_map length_upt diff_zero)
  have "cell_value api vx r (g_engine s) ?j i = Some (r0 ! i)" if "i < length cols" for i
    using arg_cong [OF cells, of "\<lambda>xs. xs ! i"] that len by simp
  then have "db_map (pg_get api vx) [Suc 0..<Suc (length cols)] s = (Inr (map ((!) r0) [0..<length cols]), s)"
    using Cons.prems j by (intro db_map_reads pg_get_cell) auto
  then have get: "db_map (pg_get api vx) [1..<Suc (length cols)] s = (Inr r0, s)"
    using len map_nth [of r0] by simp
  have last: "rs = [] \<longleftrightarrow> Suc ?j = length rows" using rs j by (auto simp flip: rs)
  have nxt: "pg_next s = (Inr (rs \<noteq> []), s\<lparr>g_idx_row := Suc ?j\<rparr>)"
    using Cons.prems(1,5) j last by (auto simp: pg_next_def)
  show ?case
    using get nxt Cons.IH [of "s\<lparr>g_idx_row := Suc ?j\<rparr>"] Cons.prems rs last
    by (auto simp: yields_Cons pg_ops_def simp del: upt_Suc)
qed simp

lemma pg_column_names:
  assumes "g_state s = P_Executed" and "g_lastresult s = Some r" and "length cols < 2147483647"
    and "result_table api vx r cols rows (g_engine s)"
  shows "db_map (pg_columnName api) [1..<Suc (length cols)] s = (Inr (map Some cols), s)"
proof -
  have "db_map (pg_columnName api) [Suc 0..<Suc (length cols)] s =
      (Inr (map (\<lambda>i. Some (cols ! i)) [0..<length cols]), s)"
    using assms
    by (intro db_map_reads) (auto simp: pg_columnName_def with_result_def column_arg_Suc result_table_def list_all_iff)
  moreover have "map (\<lambda>i. Some (cols ! i)) [0..<length cols] = map Some cols"
    by (intro nth_equalityI) simp_all
  ultimately show ?thesis by simp
qed

section \<open>From end to end\<close>

text \<open>The server answers every call on the connection that carries the values for the statement with a
  result that holds the table.\<close>

definition library_serves ::
  "'c pq_api \<Rightarrow> variant_ops \<Rightarrow> value_ops \<Rightarrow> nat option \<Rightarrow> (nat \<times> string) list \<Rightarrow> variant list \<Rightarrow>
   string list \<Rightarrow> variant list list \<Rightarrow> 'c \<Rightarrow> 'c \<Rightarrow> bool" where
  "library_serves api vo vx conn els vs cols rows c c' =
    (\<forall>call tys. pc_conn call = conn \<and> call_carries vo els tys vs call \<longrightarrow>
       (\<exists>r. pq_execParams api call c = (Some r, c') \<and> result_table api vx r cols rows c'))"

lemma bs_init_any: "bs_init t b = bs_init t b'"
  by (simp add: bs_init_def bs_clear_def)

lemma pg_start_ready:
  assumes "g_state s = P_Transaction" and "bs_init stm bs_empty = (None, b)"
  shows "\<exists>s1. pg_start api stm s = (Inr True, s1) \<and> g_state s1 = P_CommandReady \<and> g_lastresult s1 = None \<and>
    g_engine s1 = g_engine (pg_sm_clear api s) \<and> pg_init stm (g_statement s) = (None, g_statement s1) \<and>
    pg_base (g_statement s1) = b \<and> pg_paramarsize (g_statement s1) = 0 \<and> pg_buf (g_statement s1) = [] \<and>
    pg_conn (g_statement s1) = pg_conn (g_statement s)"
  using assms bs_init_any [of stm _ bs_empty]
  by (auto simp: pg_start_def Let_def pg_init_def pg_sm_clear_def pg_clear_lastresult_def pg_clear_def)

lemma pg_execute_executed:
  assumes "g_state s = P_CommandReady" and "g_lastresult s = None"
    and "pg_substitute (g_statement s) = Inr st" and "pg_statement_execute st = Inr call"
    and "pq_execParams api call (g_engine s) = (Some r, c')" and "result_table api vx r cols rows c'"
    and "cols = [] \<Longrightarrow> rows = []"
  shows "\<exists>s3. pg_execute api s = (Inr True, s3) \<and> g_state s3 = P_Executed \<and> g_lastresult s3 = Some r \<and>
    g_engine s3 = c' \<and> g_nof_rows s3 = length rows \<and> g_idx_row s3 = 0 \<and> g_hasResult s3 = (cols \<noteq> []) \<and>
    g_conn s3 = g_conn s"
  using assms by (simp add: pg_execute_def pg_clear_lastresult_def pg_status_def Let_def result_table_def)

lemma pg_serves:
  assumes st: "g_state s = P_Transaction" and b: "bs_init stm bs_empty = (None, b)"
    and used: "bs_usedIdx b = {1..length params}" and maxp: "bs_maxParam b = length params"
    and conv: "list_all (convertible vo) params" and size: "sum_list (map (encoded_length vo) params) < 2 ^ 31"
    and lib: "library_serves api vo vx (pg_conn (g_statement s)) (bs_data b) params cols rows (g_engine (pg_sm_clear api s)) c'"
    and cols: "cols = [] \<Longrightarrow> rows = []" "length cols < 2147483647" "length rows < 2 ^ 31"
  shows "\<exists>s'. serves (pg_ops api d vo vx) stm params (map Some cols) rows s s'
    \<and> g_state s' = P_Executed \<and> g_engine s' = c'"
proof -
  let ?n = "length params" and ?ops = "pg_ops api d vo vx"
  obtain s1 where s1: "pg_start api stm s = (Inr True, s1)" "g_state s1 = P_CommandReady" "g_lastresult s1 = None"
    "g_engine s1 = g_engine (pg_sm_clear api s)" "pg_init stm (g_statement s) = (None, g_statement s1)"
    "pg_base (g_statement s1) = b" "pg_paramarsize (g_statement s1) = 0" "pg_buf (g_statement s1) = []"
    "pg_conn (g_statement s1) = pg_conn (g_statement s)"
    using pg_start_ready [OF st b] by blast
  have ok: "params_ok b" by (rule bs_init_params_ok [OF b])
  then have n: "?n < MaxNofParams" "bs_setIdx b = {}"
    using used by (cases "?n = 0", auto simp: params_ok_def MaxNofParams_def)
  obtain st' where st': "pg_bind_all vo 1 params (g_statement s1) = (Inr (), st')"
    "length (pg_buf st') = sum_list (map (encoded_length vo) params)"
    using pg_bind_all_ok [of vo params b "g_statement s1" 1 ?n] s1 conv used maxp n by auto
  have bind: "bind_all ?ops 1 params s1 = Some (s1\<lparr>g_statement := st'\<rparr>)"
    using pg_bind_all_machine [OF st'(1), of s1] s1(2) n(1) by (simp add: MaxNofParams_def)
  have "bs_usedIdx (pg_base (g_statement s1)) \<subseteq> {1..?n}" "length (pg_buf st') < 2 ^ 31"
    using used s1(6) size st'(2) by simp_all
  from pg_execute_carries [OF s1(5) st'(1) this] obtain b' call tys where
    call: "pg_substitute st' = Inr (st'\<lparr>pg_base := b'\<rparr>)" "pg_statement_execute (st'\<lparr>pg_base := b'\<rparr>) = Inr call"
      "pc_conn call = pg_conn (g_statement s)" "call_carries vo (bs_data b) tys params call"
    using s1(6,9) by auto
  then obtain r where r: "pq_execParams api call (g_engine s1) = (Some r, c')" "result_table api vx r cols rows c'"
    using lib s1(4) unfolding library_serves_def by metis
  have "pg_substitute (g_statement (s1\<lparr>g_statement := st'\<rparr>)) = Inr (st'\<lparr>pg_base := b'\<rparr>)"
    "g_state (s1\<lparr>g_statement := st'\<rparr>) = P_CommandReady" "g_lastresult (s1\<lparr>g_statement := st'\<rparr>) = None"
    "pq_execParams api call (g_engine (s1\<lparr>g_statement := st'\<rparr>)) = (Some r, c')"
    using call(1) s1(2,3) r(1) by simp_all
  from pg_execute_executed [OF this(2,3,1) call(2) this(4) r(2) cols(1)] obtain s3 where
    s3: "pg_execute api (s1\<lparr>g_statement := st'\<rparr>) = (Inr True, s3)" "g_state s3 = P_Executed" "g_lastresult s3 = Some r"
      "g_engine s3 = c'" "g_nof_rows s3 = length rows" "g_idx_row s3 = 0" "g_hasResult s3 = (cols \<noteq> [])"
    by blast
  have tab: "result_table api vx r cols rows (g_engine s3)" using r(2) s3(4) by simp
  let ?s' = "s3\<lparr>g_idx_row := length rows\<rparr>"
  have "has_result ?ops (map Some cols) rows s3 (if rows = [] then s3 else ?s')" if "cols \<noteq> []"
    using pg_column_names [OF s3(2,3) cols(2) tab] pg_yields [OF s3(2,3) _ _ s3(5) tab cols(2,3), of rows d vo] s3(5-7) that
    by (auto simp: has_result_def pg_ops_def pg_hasResult_def simp del: upt_Suc)
  moreover have "pg_nofColumns api s3 = (Inr (length cols), s3)"
    using s3(2,3) tab by (simp add: pg_nofColumns_def with_result_def result_table_def)
  ultimately have "serves ?ops stm params (map Some cols) rows s (if rows = [] then s3 else ?s')"
    using s1(1) bind s3(1) cols(1) by (auto simp: serves_def pg_ops_def)
  then show ?thesis using s3 by (cases "rows = []") auto
qed

text \<open>C3: a statement on PostgreSQL is right from end to end: when its placeholders are numbered 1 to the
  number of parameters with the largest one last, and the server answers every call whose command is the
  statement with its placeholders cast and whose parameters it reads as the values given with a table, then
  \<^verbatim>\<open>executeStatement\<close> ends and returns exactly this table.\<close>
theorem pg_executeStatement_rows:
  assumes "t_stm t = Some s" and "g_state s = P_Transaction" and "bs_init stm bs_empty = (None, b)"
    and "bs_usedIdx b = {1..length params}" and "bs_maxParam b = length params"
    and "list_all (convertible vo) params" and "sum_list (map (encoded_length vo) params) < 2 ^ 31"
    and "library_serves api vo vx (pg_conn (g_statement s)) (bs_data b) params cols rows (g_engine (pg_sm_clear api s)) c'"
    and "cols = [] \<Longrightarrow> rows = []" and "length cols < 2147483647" and "length rows < 2 ^ 31"
  shows "\<exists>s'. executeStatement_result other (pg_transaction_ops api d vo vx) stm params t =
      Some (Inr (Some \<lparr>r_colnames = (if rows = [] then [] else cols), r_rows = rows\<rparr>), t\<lparr>t_stm := Some s'\<rparr>)
    \<and> g_state s' = P_Executed \<and> g_engine s' = c'"
proof -
  obtain s' where s': "serves (tx_exec (pg_transaction_ops api d vo vx)) stm params (map Some cols) rows s s'"
    "g_state s' = P_Executed" "g_engine s' = c'"
    using pg_serves [OF assms(2-11)] by (auto simp: pg_transaction_ops_def)
  have "length params < 32"
    using bs_init_params_ok [OF assms(3)] assms(4)
    by (cases "length params = 0") (auto simp: params_ok_def MaxNofParams_def)
  then have "length params + 13 < Max_ArgumentIndex"
    by (simp add: Max_ArgumentIndex_def BitCnt_ArgumentIndex_def)
  from executeStatement_rows [OF this assms(1) s'(1)] s'(2,3) show ?thesis
    by (auto simp: comp_def)
qed

text \<open>A library for examples: its state is the list of the results of the next calls, the last digit of a
  result is its status; a result with rows has one row with the number 4 in the column \<open>id\<close>.\<close>

definition script_result :: "nat list \<Rightarrow> nat option \<times> nat list" where
  "script_result c = (case c of [] \<Rightarrow> (Some 1, []) | h # c' \<Rightarrow> (Some h, c'))"

definition script_pq :: "nat list pq_api" where
  "script_pq =
    \<lparr>pq_exec = (\<lambda>_ _. script_result), pq_execParams = (\<lambda>_. script_result),
     pq_resultStatus = (\<lambda>r _. case r of None \<Rightarrow> 7 | Some h \<Rightarrow> h mod 10), pq_clear = (\<lambda>_ c. c),
     pq_resultErrorMessage = (\<lambda>h _. Some (''ERROR: result '' @ print_unsigned h)),
     pq_sqlstate = (\<lambda>_ _. Some ''23505''), pq_ntuples = (\<lambda>_ _. 1), pq_nfields = (\<lambda>_ _. 1),
     pq_fname = (\<lambda>_ i _. if i = 0 then Some ''id'' else None), pq_getvalue = (\<lambda>_ _ _ _. Some ''4''),
     pq_getisnull = (\<lambda>_ _ _ _. False), pq_ftype = (\<lambda>_ _ _. 23)\<rparr>"

definition script_db :: pg_database where
  "script_db = \<lparr>pd_ID = ''pg'', pd_serverSettings = TimestampFormatUndefined, pd_acquireTimeout = 1\<rparr>"

definition pg_in_transaction :: "nat list \<Rightarrow> nat list pg_sm" where
  "pg_in_transaction c =
    (pg_new [] c)\<lparr>g_state := P_Transaction, g_conn := Some 5,
      g_statement := pg_setConnection (Some 5) TimestampFormatUndefined pg_statement_new\<rparr>"

lemma pg_script_begin: "pg_do script_pq script_db vo vx PCall_begin (pg_new [5] (1 # c)) = pg_in_transaction c"
  by (simp add: pg_do_def pg_begin_def pg_new_def pool_get_def script_db_def pg_release_def pg_command_def script_pq_def
      script_result_def pg_status_def Let_def ok_result_def pg_in_transaction_def)

lemma pg_script_reach: "pg_reach script_pq script_db vo vx [5] (1 # c) (pg_in_transaction c)"
  using pg_reach.call [OF pg_reach.new, of script_pq script_db vo vx "[5]" "1 # c" PCall_begin]
  by (simp only: pg_script_begin)

lemma pg_example_statement:
  "bs_init ''$1'' bs_empty = (None, \<lparr>bs_stmtStr = ''$1'', bs_maxParam = 1, bs_data = [(1, [])], bs_nativeStmt = [],
    bs_usedIdx = {1}, bs_setIdx = {}\<rparr>)"
  by (simp add: bs_init_def bs_clear_def bs_empty_def parse_loop_param parse_examples Let_def
      push_param_def push_chunk_def bitset_set_def MaxNofParams_def)

lemma script_table: "result_table script_pq vx 2 [''id''] [[V_Int 4]] c"
  by (simp add: result_table_def script_pq_def cell_value_def field_value_def toint_cast_def string2uint_def is_digit_def
      digit_val_def Let_def word_less_def sint_64)

theorem pg_executeStatement_rows_witness:
  "\<exists>s'. executeStatement_result (\<lambda>_. []) (pg_transaction_ops script_pq script_db plain_variants no_values)
      ''$1'' [V_Int 7] \<lparr>t_stm = Some (pg_in_transaction [2]), t_lastError = database_error0\<rparr> =
    Some (Inr (Some \<lparr>r_colnames = [''id''], r_rows = [[V_Int 4]]\<rparr>), \<lparr>t_stm = Some s', t_lastError = database_error0\<rparr>)"
proof -
  have lib: "library_serves script_pq plain_variants no_values conn els vs [''id''] [[V_Int 4]]
      (g_engine (pg_sm_clear script_pq (pg_in_transaction [2]))) []" for conn els vs
    using script_table
    by (simp add: library_serves_def script_pq_def script_result_def pg_sm_clear_def pg_clear_lastresult_def Let_def
        pg_in_transaction_def pg_new_def)
  have enc: "encoded_length plain_variants (V_Int 7) = 2"
    by (simp add: encoded_length_def base_value_def encoded_def sint_64)
  show ?thesis
    using pg_executeStatement_rows [OF _ _ pg_example_statement, of
        "\<lparr>t_stm = Some (pg_in_transaction [2]), t_lastError = database_error0\<rparr>" "pg_in_transaction [2]" "[V_Int 7]"
        plain_variants script_pq no_values "[''id'']" "[[V_Int 4]]" "[]" "\<lambda>_. []" script_db] lib enc
    by (auto simp: convertible_def pg_in_transaction_def)
qed

section \<open>Failures\<close>

text \<open>C10: however the operations of the PostgreSQL state machine are called, no connection is lost or used
  twice: the connections in the pool and the one of the machine are always the ones there were at the
  start; while a transaction is active the machine has a connection and its statement runs on this one;
  and the error state has an error recorded.\<close>
theorem pg_reachable_consistent:
  assumes "pg_reach api d vo vx pool c s"
  shows "mset (g_pool s) + (case g_conn s of None \<Rightarrow> {#} | Some conn \<Rightarrow> {#conn#}) = mset pool
    \<and> (g_state s \<in> {P_Transaction, P_CommandReady, P_Executed} \<longrightarrow>
         g_conn s \<noteq> None \<and> pg_conn (g_statement s) = g_conn s)
    \<and> (g_state s = P_Executed \<longrightarrow> g_idx_row s \<le> g_nof_rows s)
    \<and> (g_state s = P_Error \<longrightarrow> g_lasterror s \<noteq> None)"
  using pg_reach_wf [OF assms] by (simp add: pg_wf_def pg_inv_def connections_def pg_active_def)

theorem pg_reachable_consistent_witness:
  "g_state (pg_in_transaction []) = P_Transaction \<and> g_conn (pg_in_transaction []) \<noteq> None"
  using pg_reachable_consistent [OF pg_script_reach [of plain_variants no_values "[]"]]
  by (simp add: pg_in_transaction_def)

text \<open>When the \<^verbatim>\<open>COMMIT\<close> of a transaction fails, the error that is recorded is made from the result of
  the statement executed before, or is empty if there was none; the result of the \<^verbatim>\<open>COMMIT\<close> with its
  message and its state is thrown away.\<close>
theorem pg_commit_error_lost:
  assumes "g_state s \<in> {P_Transaction, P_CommandReady, P_Executed}"
    and "pq_exec api (g_conn s) ''COMMIT;'' (g_engine s) = (res, c)"
    and "pq_resultStatus api res c \<notin> {PGRES_COMMAND_OK, PGRES_TUPLES_OK}"
  shows "fst (pg_commit api s) = Inr False \<and>
    g_lasterror (snd (pg_commit api s)) = g_lasterror (pg_setDatabaseErrorMessage api (s\<lparr>g_engine := c\<rparr>)) \<and>
    (g_lastresult s = None \<longrightarrow> g_lasterror (snd (pg_commit api s)) = Some (databaseError ''INTERNAL'' 0 []))"
  using assms
  by (auto simp: pg_commit_def pg_command_def pg_status_def pg_setDatabaseErrorMessage_def Let_def error_parts_def
      databaseError_def database_error0_def)

theorem pg_commit_error_lost_witness:
  "g_lasterror (snd (pg_commit script_pq (pg_in_transaction [7]))) = Some (databaseError ''INTERNAL'' 0 [])"
proof -
  have "g_state (pg_in_transaction [7]) \<in> {P_Transaction, P_CommandReady, P_Executed}"
    "g_lastresult (pg_in_transaction [7]) = None" "g_engine (pg_in_transaction [7]) = [7]"
    by (simp_all add: pg_in_transaction_def pg_new_def)
  moreover have "pq_exec script_pq conn cmd [7] = (Some 7, [])" "pq_resultStatus script_pq (Some 7) [] = 7" for conn cmd
    by (simp_all add: script_pq_def script_result_def)
  ultimately show ?thesis
    using pg_commit_error_lost [of "pg_in_transaction [7]" script_pq "Some 7" "[]"] by auto
qed

text \<open>A statement that cannot be parsed takes the state machine out of its transaction without ending it:
  \<^verbatim>\<open>start\<close> raises the exception in the state \<^verbatim>\<open>Init\<close> with the connection still held, \<^verbatim>\<open>rollback\<close> and
  \<^verbatim>\<open>commit\<close> are refused from there on, and nothing is sent to the server.\<close>
theorem pg_unparsable_statement_leaves_transaction:
  assumes "pg_reach api d vo vx pool c s" and "g_state s \<in> {P_Transaction, P_CommandReady, P_Executed}"
    and "bs_init stm bs_empty = (Some e, b)"
  shows "\<exists>s' conn. pg_start api stm s = (Inl e, s') \<and> g_state s' = P_Init \<and> g_conn s' = Some conn \<and>
    g_conn s = Some conn \<and> fst (pg_rollback api s') = Inr False \<and> fst (pg_commit api s') = Inr False \<and>
    g_engine (snd (pg_rollback api s')) = g_engine (pg_clear_lastresult api s)"
proof -
  obtain conn where "g_conn s = Some conn"
    using pg_reach_wf [OF assms(1)] assms(2) by (auto simp: pg_wf_def pg_active_def)
  then show ?thesis
    using assms(2,3) bs_init_any [of stm _ bs_empty]
    by (auto simp: pg_start_def Let_def pg_init_def pg_sm_clear_def pg_clear_lastresult_def pg_rollback_def
        pg_commit_def pg_not_allowed_def pg_errorStatus_def ok_result_def)
qed

theorem pg_unparsable_statement_leaves_transaction_witness:
  "\<exists>s'. g_state s' = P_Init \<and> g_conn s' = Some 5 \<and>
    (\<exists>e. pg_start script_pq ''$'' (pg_in_transaction []) = (Inl e, s')) \<and> fst (pg_rollback script_pq s') = Inr False"
proof -
  obtain e b where "bs_init ''$'' bs_empty = (Some e, b)"
    by (simp add: bs_init_def bs_clear_def bs_empty_def parse_loop_param parse_index_def Let_def push_chunk_def)
  from pg_unparsable_statement_leaves_transaction [OF pg_script_reach [of plain_variants no_values "[]"] _ this]
  show ?thesis by (auto simp: pg_in_transaction_def)
qed

section \<open>The connection of a failed transaction\<close>

text \<open>No operation that the virtual machine calls changes the connection.\<close>

lemma pg_errors_conn [simp]:
  "g_conn (snd (pg_errorStatus msg s)) = g_conn s" "g_conn (snd (pg_not_allowed msg s)) = g_conn s"
  by (simp_all add: pg_errorStatus_def pg_not_allowed_def)

lemma with_result_conn:
  "(\<And>r. g_conn (snd (f r)) = g_conn s) \<Longrightarrow> g_conn (snd (with_result x f s)) = g_conn s"
  by (simp add: with_result_def split: option.split)

lemma pg_execute_conn: "g_conn (snd (pg_execute api s)) = g_conn s"
proof -
  have "g_conn s' = g_conn s"
    if "pg_status api res P_Executed ((pg_clear_lastresult api s)\<lparr>g_statement := st, g_engine := c, g_lastresult := res\<rparr>) = (rt, s')"
    for res st c rt and s' :: "'a pg_sm"
    using pg_status_result(1) [OF that] pg_clear_same_conn(2) [of s api] by (simp add: same_conn_def)
  then show ?thesis
    using pg_clear_same_conn(2) [of s api]
    by (auto simp: pg_execute_def ok_result_def Let_def same_conn_def split: sum.split prod.split)
qed

lemma pg_ops_conn:
  "g_conn (snd (pg_start api t s)) = g_conn s" "g_conn (snd (pg_bind vo i v s)) = g_conn s"
  "g_conn (snd (pg_nofColumns api s)) = g_conn s" "g_conn (snd (pg_columnName api i s)) = g_conn s"
  "g_conn (snd (pg_get api vx i s)) = g_conn s" "g_conn (snd (pg_next s)) = g_conn s"
  "g_conn (snd (pg_hasResult s)) = g_conn s" "g_conn (snd (pg_getLastError s)) = g_conn s"
proof -
  have "g_conn (snd (pg_field vx ty t s)) = g_conn s" for ty t
    by (simp add: pg_field_def pg_boolean_def split: sum.split prod.split)
  then show "g_conn (snd (pg_get api vx i s)) = g_conn s"
    unfolding pg_get_def Let_def by (intro with_result_conn) (simp split: option.split)
  show "g_conn (snd (pg_nofColumns api s)) = g_conn s" "g_conn (snd (pg_columnName api i s)) = g_conn s"
    unfolding pg_nofColumns_def pg_columnName_def by (intro with_result_conn; simp split: option.split)+
  show "g_conn (snd (pg_start api t s)) = g_conn s"
    by (auto simp: pg_start_def Let_def ok_result_def pg_sm_clear_def pg_clear_lastresult_def split: prod.split option.split)
  show "g_conn (snd (pg_bind vo i v s)) = g_conn s"
    by (simp add: pg_bind_def ok_result_def split: prod.split sum.split cpp_error.split)
qed (simp_all add: pg_next_def ok_result_def pg_hasResult_def pg_getLastError_def)

definition pg_on :: "nat \<Rightarrow> ('c pg_sm \<Rightarrow> bool) \<Rightarrow> 'c pg_sm \<Rightarrow> bool" where
  "pg_on k P s = (P s \<and> g_conn s = Some k)"

lemma db_res_ok_on: "db_res_ok pg_inv r \<Longrightarrow> g_conn (snd r) = Some k \<Longrightarrow> db_res_ok (pg_on k pg_inv) r"
  by (simp add: db_res_ok_def pg_on_def)

interpretation postgres_on: reporting_database "pg_ops api d vo vx" "pg_on k pg_inv" "pg_on k pg_failed" for api d vo vx k
proof unfold_locales
  show "db_closed (pg_ops api d vo vx) (pg_on k pg_inv)"
    unfolding db_closed_def pg_ops_def
    by (auto simp: pg_ops_conn pg_execute_conn pg_on_def
        intro!: db_res_ok_on pg_read_res pg_ok_res [OF pg_start_ok] pg_ok_res [OF pg_bind_ok] pg_ok_res [OF pg_execute_ok])
  show "pg_on k pg_failed s \<Longrightarrow> \<exists>err. db_getLastError (pg_ops api d vo vx) s = (Inr (Some err), s)" for s
    using postgres.failed_reports [of s] by (simp add: pg_on_def)
next
  fix s s' :: "'a pg_sm"
  assume s: "pg_on k pg_inv s"
  show "pg_on k pg_failed s'" if "db_start (pg_ops api d vo vx) stm s = (Inr False, s')" for stm
    using postgres.start_fails [OF _ that] pg_ops_conn(1) [of api stm s] s that by (simp add: pg_on_def pg_ops_def)
  show "pg_on k pg_failed s'" if "db_bind (pg_ops api d vo vx) i v s = (Inr False, s')" for i v
    using postgres.bind_fails [OF _ that] pg_ops_conn(2) [of vo i v s] s that by (simp add: pg_on_def pg_ops_def)
  show "pg_on k pg_failed s'" if "db_execute (pg_ops api d vo vx) s = (Inr False, s')"
    using postgres.execute_fails [OF _ that] pg_execute_conn [of api s] s that by (simp add: pg_on_def pg_ops_def)
qed

text \<open>C12: after a failed operation in a transaction on PostgreSQL no \<^verbatim>\<open>ROLLBACK\<close> is ever sent: the rollback of
  \<^verbatim>\<open>Transaction::execute\<close> is refused in the error state, the destructor of the state machine puts the
  connection back into the pool with its failed transaction still open, and the next transaction that
  asks for a connection gets exactly this one.\<close>
theorem pg_failed_connection_reused:
  assumes "pg_reach api d vo vx pool c s" and "g_conn s = Some k" and "vm_input_ok prg tuples" and "t_stm t = Some s"
    and "execute (pg_ops api d vo vx) (program_instance_new prg tuples (Some s)) = Some (Done False q)"
    and "\<not> aborted q"
  shows "\<exists>s'. m_db_stm q = Some s' \<and>
    transaction_execute (pg_transaction_ops api d vo vx) prg tuples t =
      Some (Inr None, t\<lparr>t_stm := Some s', t_lastError := m_lastError q\<rparr>) \<and>
    pool_get timeout (g_pool (pg_destroy api s')) = (Inr k, g_pool s') \<and>
    g_engine (pg_destroy api s') = g_engine (pg_clear_lastresult api s')"
proof -
  have "pg_on k pg_inv s" using pg_reach_wf [OF assms(1)] assms(2) by (simp add: pg_on_def pg_wf_def)
  then have "reported (pg_ops api d vo vx) (pg_on k pg_failed) q"
    using postgres_on.failed_run_explained [OF assms(5) _ assms(3), of k] assms(6) by blast
  then obtain s' where s': "m_db_stm q = Some s'" "g_state s' = P_Error" "g_conn s' = Some k"
    by (auto simp: reported_def pg_on_def pg_failed_def)
  have "transaction_execute (pg_transaction_ops api d vo vx) prg tuples t =
      Some (Inr None, t\<lparr>t_stm := Some s', t_lastError := m_lastError q\<rparr>)"
    using assms(4,5) s'
    by (simp add: transaction_execute_def pg_transaction_ops_def t_fail_def t_call_def Let_def
        pg_rollback_def pg_not_allowed_def pg_errorStatus_def ok_result_def)
  moreover have "pool_get timeout (g_pool (pg_destroy api s')) = (Inr k, g_pool s')"
    "g_engine (pg_destroy api s') = g_engine (pg_clear_lastresult api s')"
    using s'(3) by (simp_all add: pg_destroy_def pg_release_def pg_sm_clear_def pg_clear_lastresult_def Let_def)
  ultimately show ?thesis using s'(1) by blast
qed

text \<open>The program that executes a statement without having started one.\<close>

definition exec_image :: program_image where
  "exec_image = \<lparr>code = [3154116608], constants = [], colnames = [], tagnames = [], resultnames = [], statements = [],
     errorhints = [], signatures = [], tuplesets = []\<rparr>"

lemma exec_decoded: "opCode 3154116608 = Op_DBSTM_EXEC" "condCode 3154116608 = Co_ALWAYS" "argumentIndex 3154116608 = 0"
  by code_simp+

definition exec_failed :: "nat list pg_sm" where
  "exec_failed = snd (pg_execute script_pq (pg_in_transaction []))"

lemma exec_fails:
  "pg_execute script_pq (pg_in_transaction []) = (Inr False, exec_failed)"
  "\<exists>m. g_lasterror exec_failed = Some (databaseError ''INTERNAL'' 0 m)"
  by (simp_all add: exec_failed_def pg_execute_def pg_in_transaction_def pg_new_def pg_not_allowed_def pg_errorStatus_def
      ok_result_def) (rule exI, rule refl)

lemma exec_run:
  "\<exists>q. execute (pg_ops script_pq script_db plain_variants no_values)
      (program_instance_new exec_image [] (Some (pg_in_transaction []))) = Some (Done False q) \<and>
    de_errorclass (m_lastError q) = ''INTERNAL''"
proof -
  obtain m where m: "g_lasterror exec_failed = Some (databaseError ''INTERNAL'' 0 m)" using exec_fails(2) by blast
  show ?thesis
    by (subst execute_def, subst execute_loop.simps)
       (simp add: program_instance_new_def exec_image_def step_def program_code_get_Inr exec_decoded exec_groups vm_eval
         vm_db_def pg_ops_def exec_dbstm_exec_def exec_fails(1) db_return_error_def setDatabaseError_def Let_def
         pg_getLastError_def m stack_element_new_def databaseError_def database_error0_def)
qed

theorem pg_failed_connection_reused_witness:
  "\<exists>s'. t_stm (snd (the (transaction_execute (pg_transaction_ops script_pq script_db plain_variants no_values) exec_image []
      \<lparr>t_stm = Some (pg_in_transaction []), t_lastError = database_error0\<rparr>))) = Some s' \<and>
    pool_get 1 (g_pool (pg_destroy script_pq s')) = (Inr 5, g_pool s')"
proof -
  obtain q where q: "execute (pg_ops script_pq script_db plain_variants no_values)
      (program_instance_new exec_image [] (Some (pg_in_transaction []))) = Some (Done False q)"
    "de_errorclass (m_lastError q) = ''INTERNAL''" using exec_run by blast
  have "\<not> aborted q" using q(2) by (auto simp: aborted_def databaseError_def database_error0_def)
  from pg_failed_connection_reused [OF pg_script_reach [of plain_variants no_values "[]"] _ _ _ q(1) this, of 5
      "\<lparr>t_stm = Some (pg_in_transaction []), t_lastError = database_error0\<rparr>" 1]
  show ?thesis by (auto simp: pg_in_transaction_def vm_input_ok_def exec_image_def)
qed

end
