(* ===== verification/PostgreSQL_Database.thy ===== *)
theory PostgreSQL_Database
  imports PostgreSQL_Statemachine
begin

text \<open>
  The database object of the PostgreSQL module, \<^verbatim>\<open>src/modules/database/postgresql/PostgreSQL.cpp\<close>: the
  connection string, opening and closing of the pool of connections and the classification of server
  messages, with the settings read from the server (\<^verbatim>\<open>PostgreSQLServerSettings.cpp\<close>) and the statement
  class that substitutes values into the text (\<^verbatim>\<open>PostgreSQLSubstitutingStatement.cpp\<close>). The connection
  functions of \<^verbatim>\<open>libpq\<close> are the parameter \<open>pk_api\<close>. The string is checked against a reader of the
  documented syntax of connection strings.
\<close>

section \<open>The connection string\<close>

record pg_config =
  pf_host :: string
  pf_port :: nat
  pf_dbName :: string
  pf_user :: string
  pf_password :: string
  pf_sslMode :: string
  pf_sslCert :: string
  pf_sslKey :: string
  pf_sslRootCert :: string
  pf_sslCRL :: string
  pf_connectTimeout :: nat
  pf_connections :: nat
  pf_statementTimeout :: nat

definition escConnElement :: "string \<Rightarrow> string" where
  "escConnElement element =
    concat (map (\<lambda>c. if c = SQUOTE then [BACKSLASH, SQUOTE] else if c = BACKSLASH then [BACKSLASH, BACKSLASH] else [c]) element)"

text \<open>A stream, with a space before everything but the first element.\<close>

definition separated :: "string \<Rightarrow> string" where
  "separated ss = (if ss \<noteq> [] then ss @ '' '' else ss)"

definition conn_quoted :: "string \<Rightarrow> string \<Rightarrow> string" where
  "conn_quoted kw v = kw @ '' = '' @ [SQUOTE] @ v @ [SQUOTE]"

definition put_element :: "string \<Rightarrow> string \<Rightarrow> string \<Rightarrow> string" where
  "put_element kw v ss = (if v \<noteq> [] then separated ss @ conn_quoted kw (escConnElement v) else ss)"

definition put_number :: "string \<Rightarrow> nat \<Rightarrow> string \<Rightarrow> string" where
  "put_number kw n ss = (if n \<noteq> 0 then separated ss @ kw @ '' = '' @ print_unsigned n else ss)"

definition put_pair :: "string \<Rightarrow> string \<Rightarrow> string \<Rightarrow> string \<Rightarrow> string \<Rightarrow> string" where
  "put_pair kw v kw2 v2 ss = (if v \<noteq> [] then put_element kw2 v2 (put_element kw v ss) else ss)"

definition buildConnStr :: "pg_config \<Rightarrow> string" where
  "buildConnStr cf =
    (let ss = (if pf_host cf \<noteq> [] then conn_quoted ''host'' (pf_host cf) else []);
         ss = put_number ''port'' (pf_port cf) ss;
         ss = put_element ''dbname'' (pf_dbName cf) ss;
         ss = put_pair ''user'' (pf_user cf) ''password'' (pf_password cf) ss;
         ss = put_element ''sslmode'' (pf_sslMode cf) ss;
         ss = put_pair ''sslcert'' (pf_sslCert cf) ''sslkey'' (pf_sslKey cf) ss;
         ss = put_element ''sslrootcert'' (pf_sslRootCert cf) ss;
         ss = put_element ''sslcrl'' (pf_sslCRL cf) ss in
     put_number ''connect_timeout'' (pf_connectTimeout cf) ss)"

section \<open>Server settings and messages\<close>

text \<open>\<^verbatim>\<open>status\<close> of the settings: the index of the candidate that equals the value without case.\<close>

fun candidate_index :: "nat \<Rightarrow> string list \<Rightarrow> string \<Rightarrow> int" where
  "candidate_index ii [] res = - 1"
| "candidate_index ii (c # cs) res = (if map to_upper c = map to_upper res then int ii else candidate_index (Suc ii) cs res)"

definition settings_status :: "string option \<Rightarrow> string list \<Rightarrow> int" where
  "settings_status res candidates = (case res of None \<Rightarrow> - 1 | Some r \<Rightarrow> candidate_index 0 candidates r)"

definition settings_load :: "string option \<Rightarrow> timestamp_format" where
  "settings_load integer_datetimes =
    (let st = settings_status integer_datetimes [''on'', ''off''] in
     if st = 0 then TimestampAsInt else if st = 1 then TimestampAsDouble else TimestampFormatUndefined)"

datatype log_level =
    LOGLEVEL_UNDEFINED | LOGLEVEL_WARNING | LOGLEVEL_ERROR | LOGLEVEL_FATAL | LOGLEVEL_ALERT | LOGLEVEL_NOTICE
  | LOGLEVEL_INFO | LOGLEVEL_DEBUG | LOGLEVEL_TRACE

definition getLogLevel :: "string \<Rightarrow> log_level" where
  "getLogLevel severity =
    (case map_of [(''WARNING'', LOGLEVEL_WARNING), (''ERROR'', LOGLEVEL_ERROR), (''FATAL'', LOGLEVEL_FATAL),
       (''PANIC'', LOGLEVEL_ALERT), (''NOTICE'', LOGLEVEL_NOTICE), (''DETAIL'', LOGLEVEL_INFO),
       (''INFO'', LOGLEVEL_INFO), (''DEBUG'', LOGLEVEL_DEBUG), (''LOG'', LOGLEVEL_TRACE)] severity of
       None \<Rightarrow> LOGLEVEL_UNDEFINED | Some lv \<Rightarrow> lv)"

text \<open>What \<^verbatim>\<open>noticeProcessor\<close> logs: the level and the text.\<close>

definition noticeProcessor :: "string \<Rightarrow> string \<Rightarrow> log_level \<times> string" where
  "noticeProcessor ID message =
    (let sev = takeWhile (\<lambda>c. c \<noteq> CHR '':'') message; rest = dropWhile (\<lambda>c. c \<noteq> CHR '':'') message in
     if rest \<noteq> [] \<and> getLogLevel sev \<noteq> LOGLEVEL_UNDEFINED
     then (getLogLevel sev, ''PostgreSQL database '' @ [SQUOTE] @ ID @ [SQUOTE] @ '': '' @ tl rest)
     else (LOGLEVEL_ERROR, ''Unknown log message type from PostgreSQL database '' @ [SQUOTE] @ ID @ [SQUOTE] @ '': '' @ message))"

section \<open>Opening and closing\<close>

datatype conn_status =
    CONNECTION_OK | CONNECTION_BAD | CONNECTION_STARTED | CONNECTION_MADE | CONNECTION_AWAITING_RESPONSE
  | CONNECTION_AUTH_OK | CONNECTION_SSL_STARTUP | CONNECTION_SETENV | CONNECTION_NEEDED

definition status_name :: "conn_status \<Rightarrow> string" where
  "status_name st =
    (case st of CONNECTION_OK \<Rightarrow> ''CONNECTION_OK'' | CONNECTION_BAD \<Rightarrow> ''CONNECTION_BAD''
     | CONNECTION_STARTED \<Rightarrow> ''CONNECTION_STARTED'' | CONNECTION_MADE \<Rightarrow> ''CONNECTION_MADE''
     | CONNECTION_AWAITING_RESPONSE \<Rightarrow> ''CONNECTION_AWAITING_RESPONSE'' | CONNECTION_AUTH_OK \<Rightarrow> ''CONNECTION_AUTH_OK''
     | CONNECTION_SSL_STARTUP \<Rightarrow> ''CONNECTION_SSL_STARTUP'' | CONNECTION_SETENV \<Rightarrow> ''CONNECTION_SETENV''
     | CONNECTION_NEEDED \<Rightarrow> ''CONNECTION_NEEDED'')"

record 'c pk_api =
  pk_connectdb :: "string \<Rightarrow> 'c \<Rightarrow> nat option \<times> 'c"
  pk_parameterStatus :: "nat \<Rightarrow> 'c \<Rightarrow> string option"
  pk_status :: "nat \<Rightarrow> 'c \<Rightarrow> conn_status"
  pk_errorMessage :: "nat \<Rightarrow> 'c \<Rightarrow> string"
  pk_exec :: "nat \<Rightarrow> string \<Rightarrow> 'c \<Rightarrow> nat option \<times> 'c"
  pk_clear :: "nat option \<Rightarrow> 'c \<Rightarrow> 'c"
  pk_finish :: "nat \<Rightarrow> 'c \<Rightarrow> 'c"

text \<open>\<^verbatim>\<open>m_connections\<close> is an \<^verbatim>\<open>unsigned short\<close>.\<close>

record 'c pg_object =
  po_settings :: timestamp_format
  po_connections :: "16 word"
  po_connPool :: "nat list"
  po_engine :: 'c

definition strip_newlines :: "string \<Rightarrow> string" where
  "strip_newlines err = rev (dropWhile (\<lambda>c. c = CR \<or> c = LF) (rev err))"

text \<open>\<^verbatim>\<open>std::range_error\<close> is a \<^verbatim>\<open>std::runtime_error\<close>.\<close>

definition connection_check :: "conn_status \<Rightarrow> string \<Rightarrow> unit result" where
  "connection_check stat err =
    (case stat of
       CONNECTION_OK \<Rightarrow> Inr ()
     | CONNECTION_BAD \<Rightarrow>
         if take 6 err = ''FATAL:'' then Inl (RuntimeError ''Fatal error connecting to the PostgreSQL database'') else Inr ()
     | st \<Rightarrow> Inl (RuntimeError (''PostgreSQL database: '' @ status_name st @ '' in synchronous connection'')))"

text \<open>One turn of the loop of \<^verbatim>\<open>init\<close>.\<close>

definition open_connection :: "'c pk_api \<Rightarrow> pg_config \<Rightarrow> nat \<Rightarrow> 'c pg_object \<Rightarrow> unit result \<times> 'c pg_object" where
  "open_connection api cf i d =
    (case pk_connectdb api (buildConnStr cf) (po_engine d) of
       (None, c) \<Rightarrow> (Inr (), d\<lparr>po_engine := c\<rparr>)
     | (Some conn, c) \<Rightarrow>
         let d = d\<lparr>po_engine := c\<rparr>;
             d = (if i = 0 then d\<lparr>po_settings := settings_load (pk_parameterStatus api conn c)\<rparr> else d) in
         (case connection_check (pk_status api conn c) (strip_newlines (pk_errorMessage api conn c)) of
            Inl e \<Rightarrow> (Inl e, d)
          | Inr _ \<Rightarrow>
              (case pk_exec api conn (''SET statement_timeout = '' @ print_unsigned (pf_statementTimeout cf)) c of
                 (res, c') \<Rightarrow> (Inr (), d\<lparr>po_engine := pk_clear api res c',
                   po_connPool := pool_add conn (po_connPool d), po_connections := po_connections d + 1\<rparr>))))"

fun open_connections :: "'c pk_api \<Rightarrow> pg_config \<Rightarrow> nat list \<Rightarrow> 'c pg_object \<Rightarrow> unit result \<times> 'c pg_object" where
  "open_connections api cf [] d = (Inr (), d)"
| "open_connections api cf (i # is) d =
    (case open_connection api cf i d of
       (Inl e, d') \<Rightarrow> (Inl e, d') | (Inr _, d') \<Rightarrow> open_connections api cf is d')"

definition postgreSQLDatabase :: "'c pk_api \<Rightarrow> pg_config \<Rightarrow> 'c \<Rightarrow> unit result \<times> 'c pg_object" where
  "postgreSQLDatabase api cf c =
    open_connections api cf [0..<pf_connections cf]
      \<lparr>po_settings = TimestampFormatUndefined, po_connections = 0, po_connPool = [], po_engine = c\<rparr>"

text \<open>The destructor: every transaction status closes the connection. The pool is emptied from its end.\<close>

fun close_connections :: "'c pk_api \<Rightarrow> nat list \<Rightarrow> 'c pg_object \<Rightarrow> 'c pg_object" where
  "close_connections api [] d = d\<lparr>po_connPool := []\<rparr>"
| "close_connections api (conn # rest) d =
    close_connections api rest (d\<lparr>po_engine := pk_finish api conn (po_engine d), po_connections := po_connections d - 1\<rparr>)"

definition postgreSQLDatabase_destroy :: "'c pk_api \<Rightarrow> 'c pg_object \<Rightarrow> unit result \<times> 'c pg_object" where
  "postgreSQLDatabase_destroy api d =
    (let d = close_connections api (rev (po_connPool d)) d in
     if po_connections d \<noteq> 0
     then (Inl (LogicError ''PostgreSQL database destructor: not all connections destroyed''), d)
     else (Inr (), d))"

section \<open>The substituting statement\<close>

text \<open>\<^verbatim>\<open>escape\<close> is \<^verbatim>\<open>PQescapeStringConn\<close>, \<open>None\<close> an encoding error. The exceptions are thrown as pointers,
  so that no handler of \<^verbatim>\<open>std::exception\<close> takes them.\<close>

definition convert_string :: "(string \<Rightarrow> string option) \<Rightarrow> string \<Rightarrow> string result" where
  "convert_string escape s =
    (case escape s of
       None \<Rightarrow> Inl (Undefined ''exception thrown as a pointer'')
     | Some t \<Rightarrow> Inr ([SQUOTE] @ t @ [SQUOTE]))"

definition convert_plain :: "(string \<Rightarrow> string option) \<Rightarrow> variant_ops \<Rightarrow> variant \<Rightarrow> string result" where
  "convert_plain escape vo v =
    (case v of
       V_Null \<Rightarrow> Inr ''NULL''
     | V_Bool b \<Rightarrow> Inr (if b then [SQUOTE, CHR ''t'', SQUOTE] else [SQUOTE, CHR ''f'', SQUOTE])
     | V_String s \<Rightarrow> convert_string escape s
     | V_Timestamp t \<Rightarrow> convert_string escape (vo_datetime vo t)
     | _ \<Rightarrow> Inr (vo_tostring vo v))"

definition pg_convert :: "(string \<Rightarrow> string option) \<Rightarrow> variant_ops \<Rightarrow> variant \<Rightarrow> string result" where
  "pg_convert escape vo v =
    (case v of
       V_Custom ref \<Rightarrow> (case vo_baseTypeValue vo ref of
           Inl (Custom_RuntimeError m) \<Rightarrow>
             Inl (RuntimeError (''cannot convert value to base type for binding: '' @ m))
         | Inl (Custom_LogicError m) \<Rightarrow> Inl (LogicError m)
         | Inr (Some b) \<Rightarrow> if is_custom b then convert_string escape (vo_tostring vo v) else convert_plain escape vo b
         | Inr None \<Rightarrow> convert_string escape (vo_tostring vo v))
     | _ \<Rightarrow> convert_plain escape vo v)"

section \<open>Reading connection strings\<close>

text \<open>The documented syntax: pairs of a keyword and a value around an equal sign, values in single quotes
  with backslash escapes, spaces around everything.\<close>

fun unquote :: "string \<Rightarrow> (string \<times> string) option" where
  "unquote [] = None"
| "unquote (c # cs) =
    (if c = SQUOTE then Some ([], cs)
     else if c = BACKSLASH then
       (case cs of [] \<Rightarrow> None | d # ds \<Rightarrow> map_option (\<lambda>(v, r). (d # v, r)) (unquote ds))
     else map_option (\<lambda>(v, r). (c # v, r)) (unquote cs))"

lemma unquote_length: "unquote cs = Some (v, r) \<Longrightarrow> length r < length cs"
  by (induction cs arbitrary: v r rule: unquote.induct) (fastforce split: if_splits list.splits)+

abbreviation is_space :: "char \<Rightarrow> bool" where "is_space c \<equiv> c = CHR '' ''"

definition conninfo_key :: "string \<Rightarrow> string \<times> string" where
  "conninfo_key s =
    (takeWhile (\<lambda>c. c \<noteq> CHR ''='' \<and> \<not> is_space c) s,
     dropWhile is_space (dropWhile (\<lambda>c. c \<noteq> CHR ''='' \<and> \<not> is_space c) s))"

definition conninfo_pair :: "string \<Rightarrow> ((string \<times> string) \<times> string) option" where
  "conninfo_pair s =
    (case conninfo_key s of
       (kw, e # r) \<Rightarrow>
         if e \<noteq> CHR ''='' then None
         else (case dropWhile is_space r of
            c # cs \<Rightarrow> if c = SQUOTE then map_option (\<lambda>(v, r). ((kw, v), r)) (unquote cs)
              else Some ((kw, takeWhile (\<lambda>c. \<not> is_space c) (c # cs)), dropWhile (\<lambda>c. \<not> is_space c) (c # cs))
          | [] \<Rightarrow> None)
     | (kw, []) \<Rightarrow> None)"

lemma conninfo_pair_length: "conninfo_pair s = Some (kv, r) \<Longrightarrow> length r < length s"
proof -
  let ?k = "dropWhile (\<lambda>c. c \<noteq> CHR ''='' \<and> \<not> is_space c) s"
  assume p: "conninfo_pair s = Some (kv, r)"
  then obtain e r0 where k: "dropWhile is_space ?k = e # r0"
    by (cases "dropWhile is_space ?k") (simp_all add: conninfo_pair_def conninfo_key_def)
  with p obtain c cs where v: "dropWhile is_space r0 = c # cs"
    by (cases "dropWhile is_space r0")
       (simp_all add: conninfo_pair_def conninfo_key_def split: if_splits del: dropWhile_eq_Nil_conv)
  have "length r \<le> length (c # cs)"
  proof (cases "c = SQUOTE")
    case True
    with p k v obtain x where "unquote cs = Some (x, r)"
      by (auto simp: conninfo_pair_def conninfo_key_def split: if_splits)
    then show ?thesis using unquote_length by fastforce
  next
    case False
    with p k v have "r = dropWhile (\<lambda>c. \<not> is_space c) (c # cs)"
      by (simp add: conninfo_pair_def conninfo_key_def split: if_splits)
    then show ?thesis by (simp only: length_dropWhile_le)
  qed
  moreover have "length (c # cs) \<le> length r0" using length_dropWhile_le [of is_space r0] v by simp
  moreover have "length r0 < length ?k" by (rule dropWhile_Cons_length [OF k])
  moreover have "length ?k \<le> length s" by (rule length_dropWhile_le)
  ultimately show "length r < length s" by linarith
qed

function conninfo :: "string \<Rightarrow> (string \<times> string) list option" where
  "conninfo s =
    (if dropWhile is_space s = [] then Some []
     else case conninfo_pair (dropWhile is_space s) of
       None \<Rightarrow> None | Some (kv, r) \<Rightarrow> map_option (Cons kv) (conninfo r))"
  by pat_completeness auto

termination conninfo
  by (relation "measure length")
     (auto dest!: conninfo_pair_length simp: less_le_trans length_dropWhile_le)

declare conninfo.simps [simp del]

lemma conninfo_space: "conninfo (CHR '' '' # s) = conninfo s"
  by (subst (1 2) conninfo.simps) simp

lemma unquote_esc: "unquote (escConnElement v @ SQUOTE # rest) = Some (v, rest)"
  by (induction v) (simp_all add: escConnElement_def)

definition is_keyword :: "string \<Rightarrow> bool" where
  "is_keyword kw = (kw \<noteq> [] \<and> list_all (\<lambda>c. c \<noteq> CHR ''='' \<and> \<not> is_space c) kw)"

lemma conninfo_key_sep: "is_keyword kw \<Longrightarrow> conninfo_key (kw @ '' = '' @ r) = (kw, CHR ''='' # CHR '' '' # r)"
  by (simp add: conninfo_key_def is_keyword_def list_all_iff takeWhile_append2 dropWhile_append2)

lemma keyword_start: "is_keyword kw \<Longrightarrow> dropWhile is_space (kw @ r) = kw @ r"
  by (cases kw) (auto simp: is_keyword_def)

lemma conninfo_quoted:
  assumes "is_keyword kw"
  shows "conninfo (conn_quoted kw (escConnElement v) @ r) = map_option (Cons (kw, v)) (conninfo r)"
proof -
  have "conninfo_pair (kw @ '' = '' @ SQUOTE # escConnElement v @ SQUOTE # r) = Some ((kw, v), r)"
    using conninfo_key_sep [OF assms, of "SQUOTE # escConnElement v @ SQUOTE # r"]
    by (simp add: conninfo_pair_def unquote_esc)
  then show ?thesis
    using keyword_start [OF assms] assms
    by (subst conninfo.simps) (simp add: conn_quoted_def is_keyword_def)
qed

lemma print_unsigned_digits: "c \<in> set (print_unsigned n) \<Longrightarrow> is_digit c"
  using decimal_digits_less [of _ n] by (auto simp: print_unsigned_def)

lemma conninfo_number:
  assumes "is_keyword kw" and "r = [] \<or> hd r = CHR '' ''"
  shows "conninfo (kw @ '' = '' @ print_unsigned n @ r) = map_option (Cons (kw, print_unsigned n)) (conninfo r)"
proof -
  have d: "\<forall>c \<in> set (print_unsigned n). \<not> is_space c \<and> c \<noteq> SQUOTE"
  proof -
    have "\<not> is_digit (CHR '' '')" "\<not> is_digit SQUOTE" by (simp_all add: is_digit_def)
    then show ?thesis using print_unsigned_digits [of _ n] by metis
  qed
  obtain c cs where p: "print_unsigned n = c # cs" using print_unsigned_not_empty [of n] by (cases "print_unsigned n") auto
  have tw: "takeWhile (\<lambda>c. \<not> is_space c) (print_unsigned n @ r) = print_unsigned n"
    "dropWhile (\<lambda>c. \<not> is_space c) (print_unsigned n @ r) = r"
    using d assms(2) by (cases r; simp add: takeWhile_append2 dropWhile_append2)+
  have "dropWhile is_space (CHR '' '' # print_unsigned n @ r) = c # cs @ r" "c \<noteq> SQUOTE" using p d by simp_all
  then have "conninfo_pair (kw @ '' = '' @ print_unsigned n @ r) = Some ((kw, print_unsigned n), r)"
    using conninfo_key_sep [OF assms(1), of "print_unsigned n @ r"] tw p by (simp add: conninfo_pair_def)
  then show ?thesis
    using keyword_start [OF assms(1)] assms(1) by (subst conninfo.simps) (simp add: is_keyword_def)
qed

text \<open>The elements that are put, one after the other.\<close>

datatype conn_element = Quoted_Element string string | Number_Element string nat

fun element_text :: "conn_element \<Rightarrow> string" where
  "element_text (Quoted_Element kw v) = conn_quoted kw (escConnElement v)"
| "element_text (Number_Element kw n) = kw @ '' = '' @ print_unsigned n"

fun element_pair :: "conn_element \<Rightarrow> string \<times> string" where
  "element_pair (Quoted_Element kw v) = (kw, v)"
| "element_pair (Number_Element kw n) = (kw, print_unsigned n)"

definition joined :: "conn_element list \<Rightarrow> string" where
  "joined es = foldl (\<lambda>ss e. separated ss @ element_text e) [] es"

lemma element_text_not_empty: "element_text e \<noteq> []"
  by (cases e) (simp_all add: conn_quoted_def)

lemma joined_from:
  "ss \<noteq> [] \<Longrightarrow> foldl (\<lambda>ss e. separated ss @ element_text e) ss es = ss @ concat (map (\<lambda>e. CHR '' '' # element_text e) es)"
  by (induction es arbitrary: ss) (simp_all add: separated_def element_text_not_empty)

lemma joined_Cons: "joined (e # es) = element_text e @ concat (map (\<lambda>e. CHR '' '' # element_text e) es)"
  using joined_from [OF element_text_not_empty] by (simp add: joined_def separated_def)

lemma conninfo_joined:
  assumes "list_all (\<lambda>e. is_keyword (fst (element_pair e))) es"
  shows "conninfo (joined es) = Some (map element_pair es)"
proof -
  have one: "conninfo (element_text e @ r) = map_option (Cons (element_pair e)) (conninfo r)"
    if "is_keyword (fst (element_pair e))" "r = [] \<or> hd r = CHR '' ''" for e r
    using that conninfo_number [of _ r] by (cases e) (simp_all add: conninfo_quoted)
  have rest: "conninfo (concat (map (\<lambda>e. CHR '' '' # element_text e) es)) = Some (map element_pair es)"
    if "list_all (\<lambda>e. is_keyword (fst (element_pair e))) es" for es
    using that
  proof (induction es)
    case (Cons e es)
    then show ?case using one [of e "concat (map (\<lambda>e. CHR '' '' # element_text e) es)"]
      by (cases es) (simp_all add: conninfo_space)
  qed (simp add: conninfo.simps)
  show ?thesis
  proof (cases es)
    case Nil
    then show ?thesis by (simp add: joined_def conninfo.simps)
  next
    case (Cons e es')
    with assms rest [of es'] one [of e "concat (map (\<lambda>e. CHR '' '' # element_text e) es')"] show ?thesis
      by (cases es') (simp_all add: joined_Cons)
  qed
qed

section \<open>Properties\<close>

definition opt_element :: "string \<Rightarrow> string \<Rightarrow> conn_element list" where
  "opt_element kw v = (if v \<noteq> [] then [Quoted_Element kw v] else [])"

definition opt_number :: "string \<Rightarrow> nat \<Rightarrow> conn_element list" where
  "opt_number kw n = (if n \<noteq> 0 then [Number_Element kw n] else [])"

text \<open>What the configuration says: a password counts only with a user, a key only with a certificate.\<close>

definition config_elements :: "pg_config \<Rightarrow> conn_element list" where
  "config_elements cf =
    opt_element ''host'' (pf_host cf) @ opt_number ''port'' (pf_port cf) @ opt_element ''dbname'' (pf_dbName cf)
    @ (if pf_user cf \<noteq> [] then Quoted_Element ''user'' (pf_user cf) # opt_element ''password'' (pf_password cf) else [])
    @ opt_element ''sslmode'' (pf_sslMode cf)
    @ (if pf_sslCert cf \<noteq> [] then Quoted_Element ''sslcert'' (pf_sslCert cf) # opt_element ''sslkey'' (pf_sslKey cf) else [])
    @ opt_element ''sslrootcert'' (pf_sslRootCert cf) @ opt_element ''sslcrl'' (pf_sslCRL cf)
    @ opt_number ''connect_timeout'' (pf_connectTimeout cf)"

lemma joined_snoc: "joined (es @ [e]) = separated (joined es) @ element_text e"
  by (simp add: joined_def)

lemma put_joined:
  "put_element kw v (joined es) = joined (es @ opt_element kw v)"
  "put_number kw n (joined es) = joined (es @ opt_number kw n)"
  "put_pair kw v kw2 v2 (joined es) =
    joined (es @ (if v \<noteq> [] then Quoted_Element kw v # opt_element kw2 v2 else []))"
proof -
  show e: "put_element kw v (joined es) = joined (es @ opt_element kw v)" for kw v es
    by (simp add: put_element_def opt_element_def joined_snoc)
  show "put_number kw n (joined es) = joined (es @ opt_number kw n)"
    by (simp add: put_number_def opt_number_def joined_snoc)
  show "put_pair kw v kw2 v2 (joined es) =
    joined (es @ (if v \<noteq> [] then Quoted_Element kw v # opt_element kw2 v2 else []))"
    by (simp add: put_pair_def e) (simp add: opt_element_def)
qed

lemma escConnElement_plain: "SQUOTE \<notin> set v \<Longrightarrow> BACKSLASH \<notin> set v \<Longrightarrow> escConnElement v = v"
  by (induction v) (auto simp: escConnElement_def)

lemma buildConnStr_joined:
  assumes "SQUOTE \<notin> set (pf_host cf)" and "BACKSLASH \<notin> set (pf_host cf)"
  shows "buildConnStr cf = joined (config_elements cf)"
proof -
  have host: "(if pf_host cf \<noteq> [] then conn_quoted ''host'' (pf_host cf) else []) = joined (opt_element ''host'' (pf_host cf))"
    using assms by (simp add: opt_element_def joined_def separated_def escConnElement_plain)
  show ?thesis
    unfolding buildConnStr_def Let_def host put_joined config_elements_def by (simp only: append_assoc)
qed

lemma config_keywords: "list_all (\<lambda>e. is_keyword (fst (element_pair e))) (config_elements cf)"
  by (simp add: config_elements_def opt_element_def opt_number_def is_keyword_def)

text \<open>A connection string, read the way the documentation of \<^verbatim>\<open>libpq\<close> describes it, gives back every
  setting of the configuration as it is, with quotes and backslashes in it; the host is the exception
  and must have none of them.\<close>
theorem connection_string_read_back:
  assumes "SQUOTE \<notin> set (pf_host cf)" and "BACKSLASH \<notin> set (pf_host cf)"
  shows "conninfo (buildConnStr cf) = Some (map element_pair (config_elements cf))"
  using conninfo_joined [OF config_keywords] buildConnStr_joined [OF assms] by simp

definition example_config :: pg_config where
  "example_config =
    \<lparr>pf_host = ''db'', pf_port = 0, pf_dbName = [CHR ''a'', SQUOTE], pf_user = [], pf_password = ''x'', pf_sslMode = [],
     pf_sslCert = [], pf_sslKey = [], pf_sslRootCert = [], pf_sslCRL = [], pf_connectTimeout = 0, pf_connections = 1,
     pf_statementTimeout = 0\<rparr>"

theorem connection_string_read_back_witness:
  "conninfo (buildConnStr example_config) = Some [(''host'', ''db''), (''dbname'', [CHR ''a'', SQUOTE])]"
  using connection_string_read_back [of example_config]
  by (simp add: example_config_def config_elements_def opt_element_def opt_number_def)

text \<open>The count of the connections is the size of the pool.\<close>

lemma open_connection_count:
  assumes "open_connection api cf i d = (r, d')" and "po_connections d = of_nat (length (po_connPool d))"
  shows "po_connections d' = of_nat (length (po_connPool d')) \<and> length (po_connPool d') \<le> Suc (length (po_connPool d))"
  using assms
  by (auto simp: open_connection_def Let_def pool_add_def split: prod.splits option.splits sum.splits if_splits)

lemma open_connections_count:
  assumes "open_connections api cf is d = (r, d')" and "po_connections d = of_nat (length (po_connPool d))"
  shows "po_connections d' = of_nat (length (po_connPool d')) \<and>
    length (po_connPool d') \<le> length (po_connPool d) + length is"
  using assms
proof (induction "is" arbitrary: d)
  case (Cons i "is")
  obtain r1 d1 where d1: "open_connection api cf i d = (r1, d1)" by fastforce
  note c = open_connection_count [OF d1 Cons.prems(2)]
  show ?case
  proof (cases r1)
    case (Inl e)
    with d1 Cons.prems(1) c show ?thesis by auto
  next
    case (Inr u)
    with d1 Cons.prems(1) have "open_connections api cf is d1 = (r, d')" by simp
    from Cons.IH [OF this] c show ?thesis by auto
  qed
qed simp

lemma close_connections_count:
  "po_connections (close_connections api cs d) = po_connections d - of_nat (length cs) \<and>
   po_connPool (close_connections api cs d) = []"
  by (induction cs arbitrary: d) simp_all

text \<open>C31: the constructor of the database counts exactly the connections it puts into the pool, and the
  destructor succeeds exactly if all of them have come back; it closes every one that is there and
  leaves an empty pool.\<close>
theorem connections_returned:
  assumes "postgreSQLDatabase api cf c = (Inr (), d)" and "pf_connections cf < 2 ^ 16"
    and "length pool \<le> length (po_connPool d)"
  shows "po_connections d = of_nat (length (po_connPool d)) \<and>
    (fst (postgreSQLDatabase_destroy api (d\<lparr>po_connPool := pool\<rparr>)) = Inr () \<longleftrightarrow> length pool = length (po_connPool d)) \<and>
    po_connPool (snd (postgreSQLDatabase_destroy api (d\<lparr>po_connPool := pool\<rparr>))) = []"
proof -
  have n: "po_connections d = of_nat (length (po_connPool d))" "length (po_connPool d) < 2 ^ 16"
    using open_connections_count [OF assms(1) [unfolded postgreSQLDatabase_def]] assms(2) by simp_all
  have "(of_nat (length (po_connPool d)) - of_nat (length pool) :: 16 word) = of_nat (length (po_connPool d) - length pool)"
    using assms(3) by (simp add: of_nat_diff)
  moreover have "(of_nat (length (po_connPool d) - length pool) :: 16 word) = 0 \<longleftrightarrow> length (po_connPool d) = length pool"
  proof -
    have "unat (of_nat (length (po_connPool d) - length pool) :: 16 word) = length (po_connPool d) - length pool"
      using n(2) by (simp add: unsigned_of_nat take_bit_nat_eq_self_iff)
    then show ?thesis using assms(3) by (metis diff_is_0_eq le_antisym order_refl unat_eq_zero of_nat_0)
  qed
  ultimately show ?thesis
    using n(1) close_connections_count [of api "rev pool" "d\<lparr>po_connPool := pool\<rparr>"]
    by (auto simp: postgreSQLDatabase_destroy_def Let_def)
qed

definition one_connection :: "unit pk_api" where
  "one_connection =
    \<lparr>pk_connectdb = (\<lambda>_ c. (Some 7, c)), pk_parameterStatus = (\<lambda>_ _. Some ''on''), pk_status = (\<lambda>_ _. CONNECTION_OK),
     pk_errorMessage = (\<lambda>_ _. []), pk_exec = (\<lambda>_ _ c. (None, c)), pk_clear = (\<lambda>_ c. c), pk_finish = (\<lambda>_ c. c)\<rparr>"

theorem connections_returned_witness:
  "\<exists>d. postgreSQLDatabase one_connection example_config () = (Inr (), d) \<and>
    fst (postgreSQLDatabase_destroy one_connection (d\<lparr>po_connPool := []\<rparr>)) \<noteq> Inr ()"
proof -
  obtain d where d: "postgreSQLDatabase one_connection example_config () = (Inr (), d)" "po_connPool d = [7]"
    by (simp add: postgreSQLDatabase_def example_config_def one_connection_def open_connection_def connection_check_def
        Let_def pool_add_def)
  from connections_returned [OF d(1), of "[]"] d show ?thesis by (auto simp: example_config_def)
qed

end
