(* ===== verification/Tdl_Lexer.thy ===== *)
theory Tdl_Lexer
  imports Command_Compiler "HOL-Library.List_Lexorder" "HOL-Library.Char_ord"
begin

text \<open>
  The tokens of the transaction definition language: the scanner \<^verbatim>\<open>src/libwolframe/utils/parseUtils.cpp\<close>
  with its identifier tables, the description of SQL as the embedded database language
  (\<^verbatim>\<open>src/libwolframe_database/databaseLanguage.cpp\<close>) and the helpers of \<^verbatim>\<open>tdl/parseUtils.cpp\<close>. The source
  that is not read yet stands for the iterator \<^verbatim>\<open>si\<close>; a parser returns it with its result, also when it
  raises an exception, since the position of an error is reported. The character 0 is the end of the
  source.
\<close>

section \<open>Parsers\<close>

text \<open>A parser changes a state, and either raises an exception or has a result. For the parsers of tokens
  the state is the rest of the source.\<close>

type_synonym ('s, 'a) parser = "'s \<Rightarrow> 'a result \<times> 's"

type_synonym 'a parse = "(string, 'a) parser"

definition p_return :: "'a \<Rightarrow> ('s, 'a) parser" where
  "p_return x s = (Inr x, s)"

definition p_throw :: "string \<Rightarrow> ('s, 'a) parser" where
  "p_throw msg s = (Inl (RuntimeError msg), s)"

definition p_bind :: "('s, 'a) parser \<Rightarrow> ('a \<Rightarrow> ('s, 'b) parser) \<Rightarrow> ('s, 'b) parser" where
  "p_bind m f s = (case m s of (Inl e, s') \<Rightarrow> (Inl e, s') | (Inr x, s') \<Rightarrow> f x s')"

definition p_lift :: "'a result \<Rightarrow> ('s, 'a) parser" where
  "p_lift r s = (r, s)"

text \<open>\<^verbatim>\<open>++si\<close> behind a test that there is a character.\<close>

definition p_skip :: "unit parse" where
  "p_skip si = (case si of [] \<Rightarrow> (Inl (Undefined ''iterator behind the end''), si) | _ # r \<Rightarrow> (Inr (), r))"

section \<open>The scanner\<close>

fun quoted_error_rest :: "string \<Rightarrow> string" where
  "quoted_error_rest [] = []"
| "quoted_error_rest (c # cs) =
    (if c = BACKSLASH then
       (case cs of [] \<Rightarrow> [] | d # ds \<Rightarrow> if d = NUL then d # ds else quoted_error_rest ds)
     else if c = NUL then c # cs else quoted_error_rest cs)"

abbreviation skip_space :: "string \<Rightarrow> string" where
  "skip_space cs \<equiv> dropWhile (\<lambda>c. char_code c \<le> 32) cs"

definition token_error_rest :: "string \<Rightarrow> string" where
  "token_error_rest cs =
    (case skip_space cs of [] \<Rightarrow> [] | c # r \<Rightarrow> if c = SQUOTE \<or> c = DQUOTE then quoted_error_rest r else c # r)"

definition utils_parseNextToken :: "(char \<Rightarrow> bool) \<Rightarrow> (char \<Rightarrow> bool) \<Rightarrow> (char \<times> string) parse" where
  "utils_parseNextToken opt alph si =
    (case parseNextToken opt alph si of
       Inl e \<Rightarrow> (Inl e, token_error_rest si)
     | Inr None \<Rightarrow> (Inr (NUL, []), [])
     | Inr (Some tk) \<Rightarrow> (Inr (tk_char tk, tk_text tk), tk_rest tk))"

definition utils_gotoNextToken :: "char parse" where
  "utils_gotoNextToken si = (let r = skip_space si in (Inr (case r of [] \<Rightarrow> NUL | c # _ \<Rightarrow> c), r))"

abbreviation empty_table :: "char \<Rightarrow> bool" where "empty_table \<equiv> \<lambda>_. False"
abbreviation any_table :: "char \<Rightarrow> bool" where "any_table \<equiv> \<lambda>c. char_code c > 32"

text \<open>An identifier table is the list of its names; the index of a name starts with 1.\<close>

fun id_index :: "string list \<Rightarrow> string \<Rightarrow> nat" where
  "id_index [] tok = 0"
| "id_index (x # xs) tok = (if iequals tok x then 1 else case id_index xs tok of 0 \<Rightarrow> 0 | Suc n \<Rightarrow> Suc (Suc n))"

definition idtab_tostring :: "string list \<Rightarrow> string" where
  "idtab_tostring ids = (case sort ids of [] \<Rightarrow> [] | x # xs \<Rightarrow> x @ concat (map (\<lambda>y. '', '' @ y) xs))"

definition parseNextIdentifier :: "string list \<Rightarrow> nat parse" where
  "parseNextIdentifier ids =
    p_bind utils_gotoNextToken (\<lambda>ch. if is_identifier_char ch then
        (\<lambda>start. case utils_parseNextToken empty_table is_identifier_char start of
           (Inl e, r) \<Rightarrow> (Inl e, r)
         | (Inr (_, tok), r) \<Rightarrow> let idx = id_index ids tok in (Inr idx, if idx \<noteq> 0 then r else start))
      else p_return 0)"

section \<open>The embedded language\<close>

record language_description =
  ld_eoln_commentopr :: string
  ld_stm_argument_reference :: "nat \<Rightarrow> string"
  ld_isEmbeddedStatement :: "string \<Rightarrow> bool"
  ld_parseEmbeddedStatement :: "string parse"

abbreviation sql_space :: "char \<Rightarrow> bool" where
  "sql_space c \<equiv> 0 < char_code c \<and> char_code c \<le> 32"

definition sql_isEmbeddedStatement :: "string \<Rightarrow> bool" where
  "sql_isEmbeddedStatement si =
    (let start = dropWhile sql_space si; word = takeWhile is_alpha start; r = dropWhile is_alpha start in
     case r of [] \<Rightarrow> False
     | c # _ \<Rightarrow> sql_space c \<and>
         map to_lower word \<in> {''select'', ''update'', ''insert'', ''delete'', ''create'', ''drop''} \<and>
         (case dropWhile sql_space r of [] \<Rightarrow> False
          | d # _ \<Rightarrow> d = DQUOTE \<or> d = SQUOTE \<or> is_alpha d \<or> d = CHR ''_'' \<or> d = DOLLAR \<or> d = CHR ''*'' \<or> is_digit d))"

definition starts_with :: "string \<Rightarrow> string \<Rightarrow> bool" where
  "starts_with p s = (take (length p) s = p)"

text \<open>\<open>rt\<close> is the text before \<^verbatim>\<open>start\<close> without the comments and \<open>pend\<close> the text from \<^verbatim>\<open>start\<close> to \<^verbatim>\<open>si\<close>.\<close>

function sql_statement_loop :: "string \<Rightarrow> string \<Rightarrow> string parse" where
  "sql_statement_loop rt pend si =
    (case parseNextToken sub_optab is_identifier_char si of
       Inl e \<Rightarrow> (Inl e, token_error_rest si)
     | Inr None \<Rightarrow> (Inl (RuntimeError ''embedded statement not terminated''), [])
     | Inr (Some tk) \<Rightarrow>
         if tk_char tk = CHR '';'' then (Inr (rt @ pend @ butlast (tk_consumed tk)), CHR '';'' # tk_rest tk)
         else if tk_char tk = CHR ''-'' \<and> starts_with ''-'' (tk_rest tk) then
           sql_statement_loop (rt @ pend @ butlast (tk_consumed tk)) []
             (dropWhile (\<lambda>c. c \<noteq> CHR 0x0A) (drop 1 (tk_rest tk)))
         else sql_statement_loop rt (pend @ tk_consumed tk) (tk_rest tk))"
  by pat_completeness auto

lemma comment_shorter:
  assumes "parseNextToken opt alph si = Inr (Some tk)"
  shows "length (dropWhile P (drop n (tk_rest tk))) < length si"
proof -
  have "length (dropWhile P (drop n (tk_rest tk))) \<le> length (drop n (tk_rest tk))" by (rule length_dropWhile_le)
  also have "\<dots> \<le> length (tk_rest tk)" by simp
  also have "\<dots> < length si" by (rule parseNextToken_length [OF assms])
  finally show ?thesis .
qed

termination sql_statement_loop
  by (relation "measure (\<lambda>(rt, pend, si). length si)")
     (simp_all add: parseNextToken_length comment_shorter del: drop_Suc_Cons One_nat_def)

declare sql_statement_loop.simps [simp del]

definition sql_language :: language_description where
  "sql_language =
    \<lparr>ld_eoln_commentopr = ''--'', ld_stm_argument_reference = (\<lambda>i. DOLLAR # print_unsigned i),
     ld_isEmbeddedStatement = sql_isEmbeddedStatement, ld_parseEmbeddedStatement = sql_statement_loop [] []\<rparr>"

section \<open>Tokens of the definition language\<close>

definition isAlpha :: "char \<Rightarrow> bool" where
  "isAlpha ch = (is_alpha ch \<or> ch = CHR ''_'')"

definition isAlphaNumeric :: "char \<Rightarrow> bool" where
  "isAlphaNumeric ch = (is_digit ch \<or> isAlpha ch)"

definition isStringQuote :: "char \<Rightarrow> bool" where
  "isStringQuote ch = (ch = SQUOTE \<or> ch = DQUOTE)"

definition isIdentifier :: "string \<Rightarrow> bool" where
  "isIdentifier str = (case str of [] \<Rightarrow> False | c # cs \<Rightarrow> isAlpha c \<and> list_all isAlphaNumeric cs)"

definition extractImplicitNameFromSelector :: "string \<Rightarrow> string" where
  "extractImplicitNameFromSelector selector =
    (if selector = ''.'' then [] else rev (takeWhile (\<lambda>c. c \<noteq> CHR ''/'') (rev selector)))"

definition errorTokenString :: "char \<Rightarrow> string \<Rightarrow> string" where
  "errorTokenString ch tok =
    (if sub_optab ch then [ch]
     else if isStringQuote ch then ''string '' @ [ch] @ tok @ [ch]
     else if ch = NUL then ''end of file'' else tok)"

text \<open>Comments up to the end of the line are skipped with the white space.\<close>

function tdl_skip :: "string \<Rightarrow> string \<Rightarrow> string" where
  "tdl_skip opr si =
    (let r = skip_space si in
     if opr \<noteq> [] \<and> starts_with opr r
     then tdl_skip opr (dropWhile (\<lambda>c. c \<noteq> CHR 0x0A) (drop (length opr) r)) else r)"
  by pat_completeness auto

termination tdl_skip
proof (relation "measure (\<lambda>(opr, si). length si)")
  fix opr si r :: string
  assume r: "r = skip_space si" and o: "opr \<noteq> [] \<and> starts_with opr r"
  have "r \<noteq> []" "0 < length opr" using o by (auto simp: starts_with_def)
  have "length (dropWhile (\<lambda>c. c \<noteq> CHR 0x0A) (drop (length opr) r)) \<le> length (drop (length opr) r)"
    by (rule length_dropWhile_le)
  also have "\<dots> < length r" using \<open>r \<noteq> []\<close> \<open>0 < length opr\<close> by simp
  also have "\<dots> \<le> length si" unfolding r by (rule length_dropWhile_le)
  finally show "((opr, dropWhile (\<lambda>c. c \<noteq> CHR 0x0A) (drop (length opr) r)), opr, si) \<in> measure (\<lambda>(opr, si). length si)"
    by simp
qed simp

declare tdl_skip.simps [simp del]

definition gotoNextToken :: "language_description \<Rightarrow> char parse" where
  "gotoNextToken ld si =
    (let r = tdl_skip (ld_eoln_commentopr ld) si in (Inr (case r of [] \<Rightarrow> NUL | c # _ \<Rightarrow> c), r))"

definition tdl_parseNextToken :: "language_description \<Rightarrow> (char \<times> string) parse" where
  "tdl_parseNextToken ld =
    p_bind (gotoNextToken ld) (\<lambda>ch. if ch = NUL then p_return (NUL, []) else utils_parseNextToken sub_optab is_identifier_char)"

definition parseKeyword :: "language_description \<Rightarrow> string \<Rightarrow> bool parse" where
  "parseKeyword ld keyword start =
    (case tdl_parseNextToken ld start of
       (Inl e, r) \<Rightarrow> (Inl e, r)
     | (Inr (ch, tok), r) \<Rightarrow> if isAlpha ch \<and> iequals tok keyword then (Inr True, r) else (Inr False, start))"

section \<open>Names and lists\<close>

text \<open>Every turn of a loop over the source reads at least one character; \<open>n\<close> bounds the number of turns
  by the length of the source.\<close>

definition into_element :: "language_description \<Rightarrow> string list \<Rightarrow> string list parse" where
  "into_element ld rt =
    p_bind (tdl_parseNextToken ld) (\<lambda>(ch, output).
      if ch = NUL then p_throw ''unexpected end of description. result tag path expected after INTO''
      else let output = (if ch = DOT \<and> output = [] then [ch] else output) in
        if output = [] then p_throw (''identifier or '' @ [SQUOTE] @ ''.'' @ [SQUOTE] @ '' expected after INTO'')
        else p_return ((if rt \<noteq> [] \<and> last rt = ''.'' then butlast rt else rt) @ [output]))"

fun into_loop :: "language_description \<Rightarrow> nat \<Rightarrow> string list \<Rightarrow> string list parse" where
  "into_loop ld 0 rt si = (Inl (Undefined ''endless loop''), si)"
| "into_loop ld (Suc n) rt si =
    p_bind (into_element ld rt) (\<lambda>rt. p_bind (gotoNextToken ld) (\<lambda>ch.
      if ch = DOT then p_throw (''unexpected dot '' @ [SQUOTE] @ ''.'' @ [SQUOTE] @ '' in INPUT PATH only single dot allowed'')
      else if ch \<noteq> CHR ''/'' then p_return rt else p_bind p_skip (\<lambda>_. into_loop ld n rt))) si"

definition parse_INTO_path :: "language_description \<Rightarrow> string list parse" where
  "parse_INTO_path ld si = into_loop ld (Suc (length si)) [] si"

text \<open>The missing comma is not reported: the exception is constructed but not thrown.\<close>

fun arguments_loop :: "language_description \<Rightarrow> string \<Rightarrow> char \<Rightarrow> nat \<Rightarrow> string list \<Rightarrow> string list parse" where
  "arguments_loop ld stmname eb 0 rt si = (Inl (Undefined ''endless loop''), si)"
| "arguments_loop ld stmname eb (Suc n) rt si =
    p_bind (tdl_parseNextToken ld) (\<lambda>(ch, tok).
      if ch = NUL then p_throw (''unexpected end of '' @ stmname @ '' argument list'')
      else if ch = eb then p_return rt
      else if \<not> isAlpha ch then p_throw (''argument is not an identifier: '' @ [SQUOTE] @ errorTokenString ch tok @ [SQUOTE])
      else p_bind (tdl_parseNextToken ld) (\<lambda>(ch, _).
        if ch = eb then p_return (rt @ [tok]) else arguments_loop ld stmname eb n (rt @ [tok]))) si"

definition parseArguments :: "language_description \<Rightarrow> string \<Rightarrow> char \<Rightarrow> char \<Rightarrow> string list parse" where
  "parseArguments ld stmname sb eb =
    p_bind (gotoNextToken ld) (\<lambda>ch.
      if ch = sb then p_bind p_skip (\<lambda>_ si. arguments_loop ld stmname eb (Suc (length si)) [] si) else p_return [])"

definition parseTemplateArguments :: "language_description \<Rightarrow> string list parse" where
  "parseTemplateArguments ld = parseArguments ld ''template'' (CHR ''<'') (CHR ''>'')"

definition parseCallArguments :: "language_description \<Rightarrow> string list parse" where
  "parseCallArguments ld = parseArguments ld ''call'' (CHR ''('') (CHR '')'')"

text \<open>The mask of the keywords that have occurred, and the table of their names: the index of a name in the
  table starts with 0.\<close>

definition checkUniqOccurrence :: "string list \<Rightarrow> nat \<Rightarrow> nat set \<Rightarrow> nat set parse" where
  "checkUniqOccurrence ids i used =
    (if i \<in> used then
       if i < length ids then p_throw (ids ! i @ '' specified twice in a command'')
       else p_lift (Inl (Undefined ''string of a null pointer''))
     else p_return (insert i used))"

definition parseFunctionName :: "language_description \<Rightarrow> string parse" where
  "parseFunctionName ld =
    p_bind (gotoNextToken ld) (\<lambda>ch.
      if ch = NUL then p_throw ''unexpected end of transaction (function name expected)''
      else if \<not> isAlphaNumeric ch then p_throw ''unexpected token (function name expected)''
      else p_bind (utils_parseNextToken (\<lambda>c. c \<in> set '',)('') (\<lambda>c. is_identifier_char c \<or> c = DOT))
        (\<lambda>(_, tok). p_return tok))"

definition path_operator :: "char \<Rightarrow> bool" where
  "path_operator c = (c \<in> set '';,)('')"

definition parseResourceName :: "language_description \<Rightarrow> string parse" where
  "parseResourceName ld = parseFunctionName ld"

definition parseSelectorPath :: "language_description \<Rightarrow> string parse" where
  "parseSelectorPath ld =
    p_bind (gotoNextToken ld) (\<lambda>_.
    p_bind (utils_parseNextToken path_operator (\<lambda>c. char_code c > 32 \<and> \<not> path_operator c)) (\<lambda>(ch, tok).
      if ch = NUL then p_throw ''unexpected end of file (selector path expression expected)''
      else if isStringQuote ch then p_throw ''unexpected string token (selector path expression expected)''
      else p_return tok))"

definition parseFilename :: "language_description \<Rightarrow> string parse" where
  "parseFilename ld =
    p_bind (gotoNextToken ld) (\<lambda>_. p_bind (utils_parseNextToken empty_table any_table) (\<lambda>(ch, tok).
      if ch = NUL then p_throw ''unexpected end of file (filename expected)'' else p_return tok))"

definition parseSubroutineName :: "language_description \<Rightarrow> string parse" where
  "parseSubroutineName ld =
    p_bind (parseFunctionName ld) (\<lambda>rt.
      if \<not> isIdentifier rt then p_throw ''identifier expected for transaction function or subroutine name'' else p_return rt)"

definition parseResultName :: "language_description \<Rightarrow> string parse" where
  "parseResultName ld = parseSubroutineName ld"

text \<open>The result: whether there is an assignment, and the name in front of it.\<close>

definition parseNameAssignment :: "language_description \<Rightarrow> (bool \<times> string) parse" where
  "parseNameAssignment ld start =
    (p_bind (gotoNextToken ld) (\<lambda>ch.
      if isAlphaNumeric ch \<or> ch = DOT then
        p_bind (tdl_parseNextToken ld) (\<lambda>(_, tok). p_bind (gotoNextToken ld) (\<lambda>ch.
          if ch = CHR ''='' then p_bind p_skip (\<lambda>_. p_bind (gotoNextToken ld) (\<lambda>_.
            p_return (True, if tok \<noteq> ''.'' then tok else [])))
          else (\<lambda>_. (Inr (False, []), start))))
      else p_return (False, [])) start)"

end
