(* ===== verification/Tdl_Parser.thy ===== *)
theory Tdl_Parser
  imports Tdl_Lexer
begin

text \<open>
  Parsers of the parts of a transaction program, \<^verbatim>\<open>src/modules/cmdbind/tdl/tdl/*.cpp\<close>: references to
  elements, embedded statements, subroutine calls, commands with their error hints, preprocessing blocks
  and audit calls. Loops over the source are bounded by its length.
\<close>

section \<open>References\<close>

text \<open>\<^verbatim>\<open>boost::algorithm::trim_copy\<close> in the C locale.\<close>

definition trim_space :: "char \<Rightarrow> bool" where
  "trim_space c = (char_code c = 32 \<or> 9 \<le> char_code c \<and> char_code c \<le> 13)"

definition trim_copy :: "string \<Rightarrow> string" where
  "trim_copy s = rev (dropWhile trim_space (rev (dropWhile trim_space s)))"

text \<open>The text from one iterator to another.\<close>

definition between :: "string \<Rightarrow> string \<Rightarrow> string" where
  "between start si = take (length start - length si) start"

fun bracket_loop :: "language_description \<Rightarrow> char \<Rightarrow> char \<Rightarrow> nat \<Rightarrow> char parse" where
  "bracket_loop ld sb eb 0 si = (Inl (Undefined ''endless loop''), si)"
| "bracket_loop ld sb eb (Suc n) si =
    p_bind (tdl_parseNextToken ld) (\<lambda>(ch, _).
      if ch \<noteq> NUL \<and> ch \<noteq> sb \<and> ch \<noteq> eb then bracket_loop ld sb eb n else p_return ch) si"

definition bracket_reference :: "language_description \<Rightarrow> char \<Rightarrow> char \<Rightarrow> element_reference parse" where
  "bracket_reference ld sb eb =
    p_bind p_skip (\<lambda>_ argstart.
      p_bind (bracket_loop ld sb eb (Suc (length argstart))) (\<lambda>ch si.
        if ch = eb then (Inr (Ref_SelectorPath (trim_copy (butlast (between argstart si)))), si)
        else p_throw (''missing close bracket for expression'' @ [SQUOTE, if eb = CHR '')'' then CHR '')'' else CHR '']'', SQUOTE]) si)
      argstart)"

definition reference_error :: string where
  "reference_error = ''expected open bracket '' @ [SQUOTE] @ ''('' @ [SQUOTE] @ '' or alphanumeric result reference''"

definition set_reference :: "string \<Rightarrow> char \<Rightarrow> element_reference parse" where
  "set_reference namspace ch argstart =
    (if is_digit ch then
       let ds = takeWhile is_digit argstart; r = dropWhile is_digit argstart in
       if r \<noteq> [] \<and> isAlphaNumeric (hd r) then p_throw ''operator or space expected after numeric reference'' r
       else (if digits_value (map digit_val ds) < 2 ^ 64
             then Inr (Ref_IndexSetElement namspace (digits_value (map digit_val ds))) else Inl BadCast, r)
     else if isAlpha ch then
       (Inr (Ref_NamedSetElement namspace (takeWhile isAlphaNumeric argstart)), dropWhile isAlphaNumeric argstart)
     else p_throw reference_error argstart)"

definition name_reference :: "char \<Rightarrow> element_reference parse" where
  "name_reference ch argstart =
    (if isAlpha ch then
       case dropWhile isAlphaNumeric argstart of
         [] \<Rightarrow> (Inl (Undefined ''iterator behind the end''), [])
       | c # r \<Rightarrow>
           if c = DOT then set_reference (takeWhile isAlphaNumeric argstart) (case r of [] \<Rightarrow> NUL | d # _ \<Rightarrow> d) r
           else set_reference [] ch argstart
     else set_reference [] ch argstart)"

definition parseEmbeddedReference :: "language_description \<Rightarrow> element_reference parse" where
  "parseEmbeddedReference ld =
    p_bind utils_gotoNextToken (\<lambda>ch.
      if ch = CHR ''('' then bracket_reference ld ch (CHR '')'')
      else if ch = CHR ''{'' then bracket_reference ld ch (CHR ''}'')
      else if ch = CHR ''#'' then p_bind p_skip (\<lambda>_. p_return (Ref_LoopCounter []))
      else if isAlphaNumeric ch then name_reference ch
      else p_throw reference_error)"

definition parsePlainReference :: "language_description \<Rightarrow> element_reference parse" where
  "parsePlainReference ld =
    p_bind (gotoNextToken ld) (\<lambda>ch.
      if isStringQuote ch \<or> is_digit ch then
        p_bind (tdl_parseNextToken ld) (\<lambda>(_, tok). p_return (Ref_Constant tok))
      else if ch = DOLLAR then p_bind p_skip (\<lambda>_. parseEmbeddedReference ld)
      else p_bind (parseSelectorPath ld) (\<lambda>tok. p_return (Ref_SelectorPath tok)))"

section \<open>Statements\<close>

text \<open>The loop over the tokens of the embedded statement: \<open>rt\<close> is the statement built, \<open>start\<close> the iterator
  behind the part that is in it.\<close>

fun embedded_loop ::
  "language_description \<Rightarrow> nat \<Rightarrow> embedded_statement \<Rightarrow> string \<Rightarrow> embedded_statement parse" where
  "embedded_loop ld 0 rt start ci = (Inl (Undefined ''endless loop''), ci)"
| "embedded_loop ld (Suc n) rt start ci =
    p_bind (tdl_parseNextToken ld) (\<lambda>(ch, _) ci.
      if ci = [] \<or> ch = NUL then (Inr (rt\<lparr>es_stmstring := es_stmstring rt @ between start ci\<rparr>), ci)
      else if ch = DOLLAR \<and> (hd ci = CHR ''('' \<or> isAlphaNumeric (hd ci) \<or> hd ci = CHR ''#'') then
        let stm = es_stmstring rt @ butlast (between start ci) in
        p_bind (parseEmbeddedReference ld) (\<lambda>ref ci.
          let params = es_params rt @ [ref] in
          embedded_loop ld n
            (rt\<lparr>es_params := params, es_stmstring := stm @ ld_stm_argument_reference ld (length params)\<rparr>) ci ci) ci
      else embedded_loop ld n rt start ci) ci"

text \<open>The statement is parsed in a copy of its text, so an exception leaves \<^verbatim>\<open>si\<close> behind the statement.\<close>

definition parseEmbedded :: "language_description \<Rightarrow> embedded_statement parse" where
  "parseEmbedded ld =
    p_bind (ld_parseEmbeddedStatement ld) (\<lambda>dbstm.
      p_lift (fst (embedded_loop ld (Suc (length dbstm)) \<lparr>es_stmstring = [], es_params = []\<rparr> dbstm dbstm)))"

text \<open>A list of parameters in brackets, each read by \<open>elem\<close>.\<close>

fun params_loop :: "'a parse \<Rightarrow> nat \<Rightarrow> 'a list \<Rightarrow> 'a list parse" where
  "params_loop elem 0 rt si = (Inl (Undefined ''endless loop''), si)"
| "params_loop elem (Suc n) rt si =
    p_bind elem (\<lambda>x. p_bind utils_gotoNextToken (\<lambda>ch.
      if ch = CHR '','' then
        p_bind p_skip (\<lambda>_. p_bind utils_gotoNextToken (\<lambda>ch.
          if ch = CHR '')'' then p_throw (''unexpected token '' @ [SQUOTE] @ '')'' @ [SQUOTE] @
              '' immediately after comma '' @ [SQUOTE] @ '','' @ [SQUOTE] @ '' in parameter list'')
          else params_loop elem n (rt @ [x])))
      else if ch = CHR '')'' then p_return (rt @ [x])
      else p_throw ''unexpected token (comma or close bracket excepted as separator in parameter list)'')) si"

definition params_list :: "string \<Rightarrow> 'a parse \<Rightarrow> 'a list parse" where
  "params_list what elem =
    p_bind p_skip (\<lambda>_. p_bind utils_gotoNextToken (\<lambda>ch.
      if ch = NUL then p_throw (''unexpected end of transaction description. '' @ what @ '' parameter list expected'')
      else p_bind (if ch \<noteq> CHR '')'' then (\<lambda>si. params_loop elem (Suc (length si)) [] si) else p_return [])
        (\<lambda>ps. p_bind p_skip (\<lambda>_. p_return ps))))"

definition parseSubroutineCall :: "language_description \<Rightarrow> subroutine_call parse" where
  "parseSubroutineCall ld =
    p_bind utils_gotoNextToken (\<lambda>ch.
      if ch = NUL then p_throw ''unexpected end of transaction description. Subroutine call expected''
      else if \<not> isAlphaNumeric ch then p_throw ''unexpected token (subroutine name expected)''
      else p_bind (utils_parseNextToken (\<lambda>c. c \<in> set '',)('') is_identifier_char) (\<lambda>(_, name).
        p_bind utils_gotoNextToken (\<lambda>ch.
        p_bind (if ch = CHR ''<'' then parseTemplateArguments ld else p_return []) (\<lambda>templateparams.
        p_bind utils_gotoNextToken (\<lambda>ch.
          if ch \<noteq> CHR ''('' then p_throw ([SQUOTE] @ ''('' @ [SQUOTE] @ '' expected after subroutine name'')
          else p_bind (params_list ''Subroutine'' (parsePlainReference ld)) (\<lambda>params.
            p_return \<lparr>sc_name = name, sc_templateparams = templateparams, sc_params = params\<rparr>))))))"

section \<open>Commands\<close>

definition commanddef_ids :: "string list" where
  "commanddef_ids = [''ON'', ''END'', ''FOREACH'', ''INTO'', ''DO'']"

definition command_new :: command_definition where
  "command_new =
    \<lparr>cd_selector = [], cd_statement = \<lparr>es_stmstring = [], es_params = []\<rparr>,
     cd_call = \<lparr>sc_name = [], sc_templateparams = [], sc_params = []\<rparr>, cd_resultpath = [], cd_nonempty = False,
     cd_unique = False, cd_embedded = False, cd_hints = []\<rparr>"

definition parseHint :: "language_description \<Rightarrow> (string \<times> string) parse" where
  "parseHint ld =
    p_bind (tdl_parseNextToken ld) (\<lambda>(ch, errorclass).
      if \<not> isStringQuote ch \<and> \<not> isAlphaNumeric ch then p_throw ''error class expected after ON ERROR''
      else p_bind (parseKeyword ld ''HINT'') (\<lambda>k.
        if \<not> k then p_throw ''keyword HINT expected after ON ERROR <errorclass>''
        else p_bind (tdl_parseNextToken ld) (\<lambda>(ch, message).
          if \<not> isStringQuote ch then p_throw ''hint message string expected after ON ERROR <errorclass> HINT''
          else p_bind (gotoNextToken ld) (\<lambda>ch.
            if ch \<noteq> CHR '';'' then
              p_throw ([SQUOTE] @ '';'' @ [SQUOTE] @ '' expected after ON ERROR <class> HINT <message> declaration'')
            else p_bind p_skip (\<lambda>_. p_return (errorclass, message))))))"

fun hints_loop :: "language_description \<Rightarrow> bool \<Rightarrow> nat \<Rightarrow> (string \<times> string) list \<Rightarrow> (string \<times> string) list parse" where
  "hints_loop ld embedded 0 hints si = (Inl (Undefined ''endless loop''), si)"
| "hints_loop ld embedded (Suc n) hints si =
    p_bind (parseKeyword ld ''ON'') (\<lambda>k.
      if \<not> k then p_return hints
      else if \<not> embedded then p_throw ''hints only allowed after commands with embedded database statements''
      else p_bind (parseKeyword ld ''ERROR'') (\<lambda>k.
        if \<not> k then p_throw ''keyword (ERROR) expected after ON (database error hint)''
        else p_bind (parseHint ld) (\<lambda>h. hints_loop ld embedded n (hints @ [h])))) si"

fun constraints_loop :: "language_description \<Rightarrow> nat \<Rightarrow> command_definition \<Rightarrow> command_definition parse" where
  "constraints_loop ld 0 rt si = (Inl (Undefined ''endless loop''), si)"
| "constraints_loop ld (Suc n) rt si =
    p_bind (parseKeyword ld ''NONEMPTY'') (\<lambda>k.
      if k then constraints_loop ld n (rt\<lparr>cd_nonempty := True\<rparr>)
      else p_bind (parseKeyword ld ''UNIQUE'') (\<lambda>k.
        if k then constraints_loop ld n (rt\<lparr>cd_unique := True\<rparr>) else p_return rt)) si"

definition parseDo :: "language_description \<Rightarrow> command_definition \<Rightarrow> command_definition parse" where
  "parseDo ld rt =
    p_bind (\<lambda>si. constraints_loop ld (Suc (length si)) rt si) (\<lambda>rt.
    p_bind (gotoNextToken ld) (\<lambda>ch.
      if ch = NUL then p_throw ''unexpected end of transaction description after DO''
      else (\<lambda>si. (if ld_isEmbeddedStatement ld si
        then p_bind (parseEmbedded ld) (\<lambda>stm. p_return (rt\<lparr>cd_embedded := True, cd_statement := stm\<rparr>))
        else p_bind (parseSubroutineCall ld) (\<lambda>call. p_return (rt\<lparr>cd_embedded := False, cd_call := call\<rparr>))) si)))"

text \<open>A semicolon, or the error about something that is no keyword.\<close>

definition command_end :: "language_description \<Rightarrow> nat set \<Rightarrow> command_definition \<Rightarrow> command_definition parse" where
  "command_end ld used rt =
    p_bind (tdl_parseNextToken ld) (\<lambda>(ch, tok).
      if ch = CHR '';'' then
        if used \<noteq> {} then
          p_bind (\<lambda>si. hints_loop ld (cd_embedded rt) (Suc (length si)) (cd_hints rt) si)
            (\<lambda>hints. p_return (rt\<lparr>cd_hints := hints\<rparr>))
        else p_throw (''superfluous semicolon '' @ [SQUOTE] @ '';'' @ [SQUOTE] @ '' (empty statement)'')
      else p_throw (''keyword ('' @ idtab_tostring commanddef_ids @ '') or semicolon '' @ [SQUOTE] @ '';'' @ [SQUOTE] @
        '' expected instead of '' @ errorTokenString ch tok))"

fun command_loop :: "language_description \<Rightarrow> nat \<Rightarrow> nat set \<Rightarrow> command_definition \<Rightarrow> command_definition parse" where
  "command_loop ld 0 used rt si = (Inl (Undefined ''endless loop''), si)"
| "command_loop ld (Suc n) used rt si =
    p_bind (gotoNextToken ld) (\<lambda>ch.
      if ch = NUL then p_throw ''unexpected end of source in command definition''
      else p_bind (parseNextIdentifier commanddef_ids) (\<lambda>k.
        if k = 0 then command_end ld used rt
        else if k = 2 then p_throw (''command not terminated with semicolon '' @ [SQUOTE] @ '';'' @ [SQUOTE] @
          '' before closing the block with END'')
        else if k = 1 then p_throw (''command not terminated with semicolon '' @ [SQUOTE] @ '';'' @ [SQUOTE] @
          '' before specifying error hints with ON'')
        else p_bind (checkUniqOccurrence commanddef_ids k used) (\<lambda>used.
          if k = 3 then p_bind (parseSelectorPath ld) (\<lambda>s. command_loop ld n used (rt\<lparr>cd_selector := s\<rparr>))
          else if k = 4 then p_bind (parse_INTO_path ld) (\<lambda>p. command_loop ld n used (rt\<lparr>cd_resultpath := p\<rparr>))
          else p_bind (parseDo ld rt) (command_loop ld n used)))) si"

definition parseCommandDefinition :: "language_description \<Rightarrow> command_definition parse" where
  "parseCommandDefinition ld si = command_loop ld (Suc (length si)) {} command_new si"

section \<open>Preprocessing and audit\<close>

datatype preproc_reference =
    Pre_SelectorPath string string | Pre_LoopCounter string | Pre_Constant string string

text \<open>The name is the first argument, the value the second.\<close>

definition parsePreprocElement :: "language_description \<Rightarrow> preproc_reference parse" where
  "parsePreprocElement ld =
    p_bind (parseNameAssignment ld) (\<lambda>(nameDefined, name).
    p_bind (parsePlainReference ld) (\<lambda>elem.
      case elem of
        Ref_SelectorPath s \<Rightarrow>
          p_return (Pre_SelectorPath (if nameDefined then name else extractImplicitNameFromSelector s) s)
      | Ref_LoopCounter _ \<Rightarrow> p_return (Pre_LoopCounter name)
      | Ref_Constant s \<Rightarrow> p_return (Pre_Constant name s)
      | _ \<Rightarrow> p_throw ''illegal element reference in preprocessing statement''))"

record 'e function_call =
  fc_name :: string
  fc_params :: "'e list"

text \<open>Calls of preprocessing and of audit functions differ in their parameters only.\<close>

definition parseFunctionCall :: "language_description \<Rightarrow> 'e parse \<Rightarrow> 'e function_call parse" where
  "parseFunctionCall ld elem =
    p_bind (parseFunctionName ld) (\<lambda>name. p_bind (gotoNextToken ld) (\<lambda>ch.
      if ch \<noteq> CHR ''('' then p_throw ([SQUOTE] @ ''('' @ [SQUOTE] @ '' expected after function name'')
      else p_bind (params_list ''Function'' elem) (\<lambda>ps. p_return \<lparr>fc_name = name, fc_params = ps\<rparr>)))"

record preproc_step =
  ps_selector :: string
  ps_resultpath :: "string list"
  ps_statement :: "preproc_reference function_call"

definition preproc_step_new :: preproc_step where
  "preproc_step_new = \<lparr>ps_selector = [], ps_resultpath = [], ps_statement = \<lparr>fc_name = [], fc_params = []\<rparr>\<rparr>"

definition preproc_ids :: "string list" where
  "preproc_ids = [''ENDPROC'', ''FOREACH'', ''INTO'', ''DO'']"

fun preproc_loop ::
  "language_description \<Rightarrow> nat \<Rightarrow> nat set \<Rightarrow> preproc_step \<Rightarrow> preproc_step list \<Rightarrow> preproc_step list parse" where
  "preproc_loop ld 0 used cur steps si = (Inl (Undefined ''endless loop''), si)"
| "preproc_loop ld (Suc n) used cur steps si =
    p_bind (gotoNextToken ld) (\<lambda>ch.
      if ch = NUL then p_throw (''preprocessing block not terminated with '' @ [SQUOTE] @ ''ENDPROC'' @ [SQUOTE])
      else p_bind (parseNextIdentifier preproc_ids) (\<lambda>k.
        if k = 0 then p_bind (tdl_parseNextToken ld) (\<lambda>(ch, tok).
          if ch = CHR '';'' then
            if used \<noteq> {} then preproc_loop ld n {} preproc_step_new (steps @ [cur]) else preproc_loop ld n used cur steps
          else p_throw (''keyword ('' @ idtab_tostring preproc_ids @ '') expected instead of '' @ errorTokenString ch tok))
        else if k = 1 then
          if used \<noteq> {} then p_throw (''preprocessing command not terminated with '' @ [SQUOTE] @ '';'' @ [SQUOTE]) else p_return steps
        else p_bind (checkUniqOccurrence preproc_ids k used) (\<lambda>used.
          if k = 2 then p_bind (parseSelectorPath ld) (\<lambda>s. preproc_loop ld n used (cur\<lparr>ps_selector := s\<rparr>) steps)
          else if k = 3 then p_bind (parse_INTO_path ld) (\<lambda>p. preproc_loop ld n used (cur\<lparr>ps_resultpath := p\<rparr>) steps)
          else p_bind (parseFunctionCall ld (parsePreprocElement ld)) (\<lambda>c.
            preproc_loop ld n used (cur\<lparr>ps_statement := c\<rparr>) steps)))) si"

definition parsePreProcBlock :: "language_description \<Rightarrow> preproc_step list parse" where
  "parsePreProcBlock ld si = preproc_loop ld (Suc (length si)) {} preproc_step_new [] si"

text \<open>A named reference of an audit call: the name given to it, and the reference.\<close>

definition parseAuditElement :: "language_description \<Rightarrow> (string \<times> element_reference) parse" where
  "parseAuditElement ld =
    p_bind (parseNameAssignment ld) (\<lambda>(nameDefined, name).
    p_bind (parsePlainReference ld) (\<lambda>elem.
      p_return (if nameDefined then name
                else case elem of Ref_SelectorPath s \<Rightarrow> extractImplicitNameFromSelector s
                  | Ref_NamedSetElement _ n \<Rightarrow> n | _ \<Rightarrow> [], elem)))"

end
