(* ===== verification/Tdl_Source.thy ===== *)
theory Tdl_Source
  imports Tdl_Parser
begin

text \<open>
  Loading of transaction definition files, \<^verbatim>\<open>src/modules/cmdbind/tdl/loadTransactionProgram.cpp\<close>: program
  blocks, subroutines, audit calls and transactions, and the files with their includes. The state of the
  source parsers is the current line information \<^verbatim>\<open>posinfo\<close> with the rest of the source; the translator is
  passed and returned. Reading of files and the parts of file names are parameters.
\<close>

section \<open>Source positions\<close>

text \<open>\<^verbatim>\<open>SourceLineInfo::update\<close>\<close>

definition pos_char :: "char \<Rightarrow> source_pos \<Rightarrow> source_pos" where
  "pos_char c p = (case p of (file, line, column) \<Rightarrow>
    if c = CHR 0x0A then (file, line + 1, 1) else if c \<noteq> CHR 0x0D then (file, line, column + 1) else p)"

definition pos_update :: "string \<Rightarrow> source_pos \<Rightarrow> source_pos" where
  "pos_update text p = fold pos_char text p"

definition pos_logtext :: "source_pos \<Rightarrow> string" where
  "pos_logtext p = (case p of (file, line, column) \<Rightarrow>
    ''in file '' @ [SQUOTE] @ file @ [SQUOTE] @ '' at line '' @ print_unsigned line @ '' column '' @ print_unsigned column)"

type_synonym 'a source_parse = "(source_pos \<times> string, 'a) parser"

definition s_parse :: "'a parse \<Rightarrow> 'a source_parse" where
  "s_parse p s = (case s of (pos, si) \<Rightarrow> case p si of (r, si') \<Rightarrow> (r, pos, si'))"

definition s_goto :: "string \<Rightarrow> unit source_parse" where
  "s_goto start s = (Inr (), fst s, start)"

definition s_source :: "string source_parse" where
  "s_source s = (Inr (snd s), s)"

text \<open>\<^verbatim>\<open>posinfo.update( posinfo_si, si)\<close>; the result is the new value of \<^verbatim>\<open>posinfo_si\<close>.\<close>

definition s_update :: "string \<Rightarrow> string source_parse" where
  "s_update posinfo_si s =
    (case s of (pos, si) \<Rightarrow> (Inr si, pos_update (between posinfo_si si) pos, si))"

definition set_reference_here :: "translator \<Rightarrow> translator source_parse" where
  "set_reference_here t s = (Inr (tr_setCurrentSourceReference (fst s) t), s)"

section \<open>Program blocks\<close>

definition has_into :: "string list \<Rightarrow> bool" where
  "has_into path = (path \<noteq> [] \<and> path \<noteq> [''.''])"

text \<open>The case of the loop counter has no \<^verbatim>\<open>break\<close> and goes on with the constant.\<close>

definition output_reference :: "element_reference \<Rightarrow> translator \<Rightarrow> translator result" where
  "output_reference elem t =
    (case elem of
       Ref_SelectorPath s \<Rightarrow> output_ARGUMENT_PATH s t
     | Ref_LoopCounter s \<Rightarrow> rbind (output_ARGUMENT_LOOPCNT t) (output_ARGUMENT_CONST (V_String s))
     | Ref_Constant s \<Rightarrow> output_ARGUMENT_CONST (V_String s) t
     | Ref_NamedSetElement s n \<Rightarrow> output_ARGUMENT_TUPLESET_name s n t
     | Ref_IndexSetElement s i \<Rightarrow> output_ARGUMENT_TUPLESET_idx s i t)"

definition print_into :: "string list \<Rightarrow> element_reference \<Rightarrow> translator \<Rightarrow> translator result" where
  "print_into path elem t =
    rbind (tr_when (has_into path) (begin_INTO_block path) t) (\<lambda>t.
    rbind (output_reference elem t) (\<lambda>t. tr_when (has_into path) end_INTO_block t))"

definition print_end :: "language_description \<Rightarrow> translator \<Rightarrow> translator source_parse" where
  "print_end ld t =
    p_bind (s_parse (tdl_parseNextToken ld)) (\<lambda>(ch, _).
      if ch \<noteq> CHR '';'' then p_throw (''expected '' @ [SQUOTE] @ '';'' @ [SQUOTE] @ '' terminating PRINT instruction'')
      else p_return t)"

definition prgblock_ids :: "string list" where
  "prgblock_ids = [''END'', ''FOREACH'', ''INTO'', ''DO'', ''ON'', ''KEEP'', ''PRINT'']"

text \<open>A command at \<open>start\<close> with the source reference of its first token.\<close>

definition block_command ::
  "language_description \<Rightarrow> string \<Rightarrow> string \<Rightarrow> translator \<Rightarrow> (translator \<times> string) source_parse" where
  "block_command ld posinfo_si start t =
    p_bind (s_goto start) (\<lambda>_. p_bind (s_update posinfo_si) (\<lambda>psi.
    p_bind (set_reference_here t) (\<lambda>t.
    p_bind (s_parse (parseCommandDefinition ld)) (\<lambda>cmd.
    p_bind (p_lift (programAddCommandDefinition cmd t)) (\<lambda>t. p_return (t, psi))))))"

definition block_KEEP ::
  "language_description \<Rightarrow> string \<Rightarrow> translator \<Rightarrow> (translator \<times> string) source_parse" where
  "block_KEEP ld posinfo_si t =
    p_bind (s_update posinfo_si) (\<lambda>psi. p_bind (set_reference_here t) (\<lambda>t.
    p_bind (s_parse (parseKeyword ld ''AS'')) (\<lambda>k.
      if \<not> k then p_return (t, psi)
      else p_bind (s_parse (parseResultName ld)) (\<lambda>resultname.
        p_bind (s_parse (gotoNextToken ld)) (\<lambda>ch.
          if ch \<noteq> CHR '';'' then p_throw (''semicolon '' @ [SQUOTE] @ '';'' @ [SQUOTE] @ '' expected after KEEP AS <identifier>'')
          else p_bind (s_parse p_skip) (\<lambda>_.
            p_bind (p_lift (result_KEEP resultname t)) (\<lambda>t. p_return (t, psi))))))))"

definition block_PRINT ::
  "language_description \<Rightarrow> string \<Rightarrow> translator \<Rightarrow> (translator \<times> string) source_parse" where
  "block_PRINT ld posinfo_si t =
    p_bind (s_update posinfo_si) (\<lambda>psi. p_bind (set_reference_here t) (\<lambda>t.
    p_bind (s_parse (parsePlainReference ld)) (\<lambda>elem.
    p_bind (s_parse (parseKeyword ld ''INTO'')) (\<lambda>k.
    p_bind (if k then s_parse (parse_INTO_path ld) else p_return []) (\<lambda>pt.
    p_bind (p_lift (print_into pt elem t)) (\<lambda>t.
    p_bind (print_end ld t) (\<lambda>t. p_return (t, psi))))))))"

definition block_INTO_PRINT :: "language_description \<Rightarrow> string list \<Rightarrow> translator \<Rightarrow> translator source_parse" where
  "block_INTO_PRINT ld path t =
    p_bind (s_parse (parsePlainReference ld)) (\<lambda>elem.
    p_bind (p_lift (print_into path elem t)) (print_end ld))"

definition block_unexpected :: "language_description \<Rightarrow> 'a source_parse" where
  "block_unexpected ld =
    p_bind (s_parse (tdl_parseNextToken ld)) (\<lambda>(ch, tok).
      if ch = CHR '';'' then p_throw ''unexpected semicolon without statement''
      else p_throw (''unexpected token in TDL program block. keyword ('' @ idtab_tostring prgblock_ids @
        '') expected instead of '' @ errorTokenString ch tok))"

fun prg_block :: "language_description \<Rightarrow> nat \<Rightarrow> string \<Rightarrow> translator \<Rightarrow> translator source_parse" where
  "prg_block ld 0 psi t s = (Inl (Undefined ''endless loop''), s)"
| "prg_block ld (Suc n) psi t s =
    p_bind (s_parse (gotoNextToken ld)) (\<lambda>ch.
      if ch = NUL then p_throw ''unexpected end of file (missing END of block)''
      else p_bind s_source (\<lambda>start. p_bind (s_parse (parseNextIdentifier prgblock_ids)) (\<lambda>k.
        if k = 0 then block_unexpected ld
        else if k = 5 then p_throw ''unexpected keyword ON (for error hint), only valid after database command''
        else if k = 6 then p_bind (block_KEEP ld psi t) (\<lambda>(t, psi). prg_block ld n psi t)
        else if k = 1 then p_bind (s_update psi) (\<lambda>_. set_reference_here t)
        else if k = 7 then p_bind (block_PRINT ld psi t) (\<lambda>(t, psi). prg_block ld n psi t)
        else if k = 3 then
          p_bind (s_parse (parse_INTO_path ld)) (\<lambda>resultpath.
          p_bind (s_parse (parseKeyword ld ''PRINT'')) (\<lambda>k.
            if k then p_bind (block_INTO_PRINT ld resultpath t) (prg_block ld n psi)
            else p_bind (s_parse (parseKeyword ld ''BEGIN'')) (\<lambda>k.
              if k then
                p_bind (s_update psi) (\<lambda>psi.
                p_bind (p_lift (tr_when (has_into resultpath) (begin_INTO_block resultpath) t)) (\<lambda>t.
                p_bind (prg_block ld n psi t) (\<lambda>t. p_bind s_source (\<lambda>psi.
                p_bind (p_lift (tr_when (has_into resultpath) end_INTO_block t)) (prg_block ld n psi)))))
              else p_bind (block_command ld psi start t) (\<lambda>(t, psi). prg_block ld n psi t))))
        else p_bind (block_command ld psi start t) (\<lambda>(t, psi). prg_block ld n psi t)))) s"

definition parsePrgBlock :: "language_description \<Rightarrow> translator \<Rightarrow> translator source_parse" where
  "parsePrgBlock ld t s = prg_block ld (Suc (length (snd s))) (snd s) t s"

section \<open>Databases\<close>

fun database_list_loop :: "language_description \<Rightarrow> nat \<Rightarrow> string list \<Rightarrow> string list parse" where
  "database_list_loop ld 0 rt si = (Inl (Undefined ''endless loop''), si)"
| "database_list_loop ld (Suc n) rt si =
    p_bind (tdl_parseNextToken ld) (\<lambda>(ch, dbName).
      if ch = NUL then p_throw ''unexpected end of file in DATABASE declaration''
      else if isAlpha ch then
        p_bind (gotoNextToken ld) (\<lambda>ch.
          if ch = CHR '','' then p_bind p_skip (\<lambda>_. database_list_loop ld n (rt @ [dbName]))
          else p_return (rt @ [dbName]))
      else p_throw ''unexpected token in DATABASE declaration'') si"

definition parseDatabaseList :: "language_description \<Rightarrow> string list parse" where
  "parseDatabaseList ld si = database_list_loop ld (Suc (length si)) [] si"

record target_database =
  td_id :: string
  td_className :: string

definition checkDatabaseList :: "target_database \<Rightarrow> language_description \<Rightarrow> bool parse" where
  "checkDatabaseList db ld =
    p_bind (parseDatabaseList ld) (\<lambda>dblist.
      p_return (list_ex (\<lambda>d. iequals d (td_id db) \<or> iequals d (td_className db)) dblist))"

section \<open>Subroutines\<close>

definition subroutine_ids :: "string list" where
  "subroutine_ids = [''DATABASE'', ''BEGIN'']"

text \<open>The error of a header; the token is read with the default tables of the scanner.\<close>

definition header_unexpected :: "string \<Rightarrow> string list \<Rightarrow> 'a source_parse" where
  "header_unexpected what ids =
    p_bind (s_parse (utils_parseNextToken empty_table is_identifier_char)) (\<lambda>(ch, tok).
      p_throw (''unexpected token in TDL '' @ what @ ''. keyword ('' @ idtab_tostring ids @ '') expected instead of '' @
        errorTokenString ch tok))"

fun subroutine_body ::
  "target_database \<Rightarrow> language_description \<Rightarrow> nat \<Rightarrow> string \<Rightarrow> nat set \<Rightarrow> bool \<Rightarrow> translator \<Rightarrow> (bool \<times> translator) source_parse" where
  "subroutine_body db ld 0 psi used valid t s = (Inl (Undefined ''endless loop''), s)"
| "subroutine_body db ld (Suc n) psi used valid t s =
    p_bind (s_parse (gotoNextToken ld)) (\<lambda>ch.
      if ch = NUL then p_throw ''unexpected end of file in subroutine declaration''
      else p_bind (s_parse (parseNextIdentifier subroutine_ids)) (\<lambda>k.
        if k = 0 then header_unexpected ''subroutine header'' subroutine_ids
        else if k = 1 then
          p_bind (s_parse (checkUniqOccurrence subroutine_ids k used)) (\<lambda>used.
          p_bind (s_parse (checkDatabaseList db ld)) (\<lambda>valid. subroutine_body db ld n psi used valid t))
        else
          p_bind (s_update psi) (\<lambda>psi. p_bind (set_reference_here t) (\<lambda>t.
          p_bind (s_parse (checkUniqOccurrence subroutine_ids k used)) (\<lambda>_.
          p_bind (parsePrgBlock ld t) (\<lambda>t. p_return (valid, t))))))) s"

definition parseSubroutineBody ::
  "target_database \<Rightarrow> language_description \<Rightarrow> translator \<Rightarrow> (bool \<times> translator) source_parse" where
  "parseSubroutineBody db ld t s = subroutine_body db ld (Suc (length (snd s))) (snd s) {} True t s"

section \<open>Audit calls\<close>

datatype audit_level = Audit_Informal | Audit_Critical

text \<open>The name that is given to an argument hides the name of a set element, which is not accessible in the
  loop over the arguments.\<close>

definition audit_argument :: "string \<times> element_reference \<Rightarrow> translator \<Rightarrow> translator result" where
  "audit_argument p t =
    (case p of (name, elem) \<Rightarrow>
     let into = (name \<noteq> [] \<and> name \<noteq> ''.'') in
     rbind (tr_when into (begin_INTO_block_name name) t) (\<lambda>t.
     rbind (output_reference (case elem of Ref_NamedSetElement s _ \<Rightarrow> Ref_NamedSetElement s name | _ \<Rightarrow> elem) t) (\<lambda>t.
       tr_when into end_INTO_block t)))"

fun audit_arguments :: "(string \<times> element_reference) list \<Rightarrow> translator \<Rightarrow> translator result" where
  "audit_arguments [] t = Inr t"
| "audit_arguments (p # ps) t = rbind (audit_argument p t) (audit_arguments ps)"

definition parseAuditCallDef ::
  "language_description \<Rightarrow> subroutine keymap \<Rightarrow> (audit_level \<times> string \<times> vm_program) source_parse" where
  "parseAuditCallDef ld subs =
    p_bind (p_lift (translator_new subs False)) (\<lambda>t.
    p_bind (s_parse (parseKeyword ld ''CRITICAL'')) (\<lambda>critical.
    p_bind s_source (\<lambda>si_prev.
    p_bind (s_parse (parseFunctionName ld)) (\<lambda>auditfunction.
    p_bind (s_parse (gotoNextToken ld)) (\<lambda>ch.
    p_bind (if ch = CHR ''('' then
        p_bind (s_goto si_prev) (\<lambda>_. p_bind (s_parse (parseFunctionCall ld (parseAuditElement ld))) (\<lambda>stm.
        p_bind (p_lift (audit_arguments (fc_params stm) t)) (\<lambda>t. p_bind (s_update si_prev) (\<lambda>_. p_return t))))
      else p_bind (s_parse (parseKeyword ld ''WITH'')) (\<lambda>k.
        if \<not> k then p_throw ''WITH or open bracket expected after AUDIT <function> or AUDIT CRITICAL <function>''
        else p_bind (s_parse (parseKeyword ld ''BEGIN'')) (\<lambda>k.
          if \<not> k then p_throw ''BEGIN expected after AUDIT <function> WITH or AUDIT CRITICAL <function> WITH''
          else p_bind (s_update si_prev) (\<lambda>_. parsePrgBlock ld t)))) (\<lambda>t.
    p_bind (p_lift (createProgram False t)) (\<lambda>prg.
      p_return (if critical then Audit_Critical else Audit_Informal, auditfunction, prg))))))))"

section \<open>Transactions\<close>

datatype preproc_argument_type = Pa_SelectorPath | Pa_LoopCounter | Pa_Constant

record preproc_program_step =
  pp_selectors :: "selector_path list"
  pp_function :: string
  pp_arguments :: "(preproc_argument_type \<times> nat \<times> nat) list"
  pp_strings :: string
  pp_resultpath :: "string list"

definition getStringIdx :: "string \<Rightarrow> preproc_program_step \<Rightarrow> nat \<times> preproc_program_step" where
  "getStringIdx v p = (if v = [] then (0, p) else (length (pp_strings p), p\<lparr>pp_strings := pp_strings p @ v @ [NUL]\<rparr>))"

text \<open>The order in which the two strings of a constant are stored is up to the compiler.\<close>

definition add_preproc_argument ::
  "preproc_reference \<Rightarrow> tag_table \<Rightarrow> preproc_program_step \<Rightarrow> (tag_table \<times> preproc_program_step) result" where
  "add_preproc_argument e tags p =
    (case e of
       Pre_SelectorPath name v \<Rightarrow>
         rbind (selectorPath v tags) (\<lambda>(path, tags).
           let (i, p) = getStringIdx name p in
           Inr (tags, p\<lparr>pp_arguments := pp_arguments p @ [(Pa_SelectorPath, i, length (pp_selectors p))],
             pp_selectors := pp_selectors p @ [path]\<rparr>))
     | Pre_LoopCounter name \<Rightarrow>
         let (i, p) = getStringIdx name p in Inr (tags, p\<lparr>pp_arguments := pp_arguments p @ [(Pa_LoopCounter, i, 0)]\<rparr>)
     | Pre_Constant name v \<Rightarrow>
         let (i, p) = getStringIdx name p; (j, p) = getStringIdx v p in
         Inr (tags, p\<lparr>pp_arguments := pp_arguments p @ [(Pa_Constant, i, j)]\<rparr>))"

fun add_preproc_arguments ::
  "preproc_reference list \<Rightarrow> tag_table \<Rightarrow> preproc_program_step \<Rightarrow> (tag_table \<times> preproc_program_step) result" where
  "add_preproc_arguments [] tags p = Inr (tags, p)"
| "add_preproc_arguments (e # es) tags p =
    rbind (add_preproc_argument e tags p) (\<lambda>(tags, p). add_preproc_arguments es tags p)"

fun preproc_build :: "preproc_step list \<Rightarrow> tag_table \<Rightarrow> (tag_table \<times> preproc_program_step list) result" where
  "preproc_build [] tags = Inr (tags, [])"
| "preproc_build (r # rs) tags =
    rbind (selectorPath (ps_selector r) tags) (\<lambda>(path, tags).
    rbind (add_preproc_arguments (fc_params (ps_statement r)) tags
      \<lparr>pp_selectors = [path], pp_function = fc_name (ps_statement r), pp_arguments = [], pp_strings = [NUL],
       pp_resultpath = ps_resultpath r\<rparr>) (\<lambda>(tags, p).
    rbind (preproc_build rs tags) (\<lambda>(tags, ps). Inr (tags, p # ps))))"

record transaction_function =
  tf_name :: string
  tf_resultfilter :: string
  tf_authorizations :: "(string \<times> string) list"
  tf_preproc :: "preproc_program_step list"
  tf_audit :: "(audit_level \<times> string) list"
  tf_program :: vm_program

definition transaction_ids :: "string list" where
  "transaction_ids = [''TRANSACTION'', ''SUBROUTINE'', ''TEMPLATE'', ''INCLUDE'', ''DATABASE'', ''AUTHORIZE'', ''RESULT'',
    ''PREPROC'', ''BEGIN'', ''AUDIT'']"

text \<open>The local variables of \<^verbatim>\<open>parseTransactionBody\<close>\<close>

record transaction_body =
  tb_valid :: bool
  tb_used :: "nat set"
  tb_resultfilter :: string
  tb_authorizations :: "(string \<times> string) list"
  tb_preproc :: "preproc_step list"
  tb_auditcalls :: "(audit_level \<times> string \<times> vm_program) list"
  tb_prg :: translator

definition body_once :: "nat \<Rightarrow> transaction_body \<Rightarrow> transaction_body source_parse" where
  "body_once k b =
    p_bind (s_parse (checkUniqOccurrence transaction_ids k (tb_used b))) (\<lambda>used. p_return (b\<lparr>tb_used := used\<rparr>))"

definition body_DATABASE :: "target_database \<Rightarrow> language_description \<Rightarrow> transaction_body \<Rightarrow> transaction_body source_parse" where
  "body_DATABASE db ld b =
    p_bind (body_once 5 b) (\<lambda>b.
    p_bind (s_parse (checkDatabaseList db ld)) (\<lambda>valid. p_return (b\<lparr>tb_valid := valid\<rparr>)))"

definition body_RESULT :: "language_description \<Rightarrow> transaction_body \<Rightarrow> transaction_body source_parse" where
  "body_RESULT ld b =
    p_bind (body_once 7 b) (\<lambda>b.
    p_bind (s_parse (parseKeyword ld ''FILTER'')) (\<lambda>k.
      if k then p_bind (s_parse (parseFunctionName ld)) (\<lambda>f. p_return (b\<lparr>tb_resultfilter := f\<rparr>))
      else p_throw ''FILTER expected after RESULT''))"

definition body_AUTHORIZE :: "language_description \<Rightarrow> transaction_body \<Rightarrow> transaction_body source_parse" where
  "body_AUTHORIZE ld b =
    p_bind (s_parse (gotoNextToken ld)) (\<lambda>ch.
      if ch \<noteq> CHR ''('' then p_throw (''Open bracket '' @ [SQUOTE] @ ''('' @ [SQUOTE] @ '' expected after AUTHORIZE function call'')
      else p_bind (s_parse p_skip) (\<lambda>_. p_bind (s_parse (parseFunctionName ld)) (\<lambda>authfunction.
        p_bind (s_parse (gotoNextToken ld)) (\<lambda>ch.
        p_bind (if ch = CHR '','' then
            p_bind (s_parse p_skip) (\<lambda>_. p_bind (s_parse (parseResourceName ld)) (\<lambda>authresource.
              p_return (b\<lparr>tb_authorizations := tb_authorizations b @ [(authfunction, authresource)]\<rparr>)))
          else p_return b) (\<lambda>b.
        p_bind (s_parse (gotoNextToken ld)) (\<lambda>ch.
          if ch \<noteq> CHR '')'' then
            p_throw (''Close bracket '' @ [SQUOTE] @ '')'' @ [SQUOTE] @ '' expected after AUTHORIZE function defintion'')
          else p_bind (s_parse p_skip) (\<lambda>_. p_return b)))))))"

definition body_PREPROC :: "language_description \<Rightarrow> transaction_body \<Rightarrow> transaction_body source_parse" where
  "body_PREPROC ld b =
    p_bind (body_once 8 b) (\<lambda>b.
    p_bind (s_parse (parsePreProcBlock ld)) (\<lambda>pre. p_return (b\<lparr>tb_preproc := pre\<rparr>)))"

definition body_BEGIN ::
  "language_description \<Rightarrow> string \<Rightarrow> transaction_body \<Rightarrow> (transaction_body \<times> string) source_parse" where
  "body_BEGIN ld psi b =
    p_bind (body_once 9 b) (\<lambda>b. p_bind (s_update psi) (\<lambda>_.
    p_bind (parsePrgBlock ld (tb_prg b)) (\<lambda>t. p_bind s_source (\<lambda>psi. p_return (b\<lparr>tb_prg := t\<rparr>, psi)))))"

definition body_AUDIT ::
  "language_description \<Rightarrow> subroutine keymap \<Rightarrow> string \<Rightarrow> transaction_body \<Rightarrow> (transaction_body \<times> string) source_parse" where
  "body_AUDIT ld subs psi b =
    p_bind (s_update psi) (\<lambda>_. p_bind (parseAuditCallDef ld subs) (\<lambda>call. p_bind s_source (\<lambda>psi.
      p_return (b\<lparr>tb_auditcalls := tb_auditcalls b @ [call]\<rparr>, psi))))"

text \<open>The loop over the declarations; the result is its local state and \<^verbatim>\<open>posinfo_si\<close>.\<close>

fun transaction_loop ::
  "target_database \<Rightarrow> language_description \<Rightarrow> subroutine keymap \<Rightarrow> nat \<Rightarrow> string \<Rightarrow> transaction_body \<Rightarrow>
   (transaction_body \<times> string) source_parse" where
  "transaction_loop db ld subs 0 psi b s = (Inl (Undefined ''endless loop''), s)"
| "transaction_loop db ld subs (Suc n) psi b s =
    p_bind (s_parse (gotoNextToken ld)) (\<lambda>ch.
      if ch = NUL then p_return (b, psi)
      else p_bind s_source (\<lambda>si_prev. p_bind (s_parse (parseNextIdentifier transaction_ids)) (\<lambda>k.
        if k = 0 then header_unexpected ''subroutine header'' transaction_ids
        else if k \<le> 4 then p_bind (s_goto si_prev) (\<lambda>_. p_return (b, psi))
        else if k = 9 then p_bind (body_BEGIN ld psi b) (\<lambda>(b, psi). transaction_loop db ld subs n psi b)
        else if k = 10 then p_bind (body_AUDIT ld subs psi b) (\<lambda>(b, psi). transaction_loop db ld subs n psi b)
        else p_bind
          (if k = 5 then body_DATABASE db ld b
           else if k = 6 then body_AUTHORIZE ld b
           else if k = 7 then body_RESULT ld b
           else body_PREPROC ld b) (transaction_loop db ld subs n psi)))) s"

fun add_auditcalls :: "(audit_level \<times> string \<times> vm_program) list \<Rightarrow> translator \<Rightarrow> translator result" where
  "add_auditcalls [] t = Inr t"
| "add_auditcalls ((_, _, prg) # as) t = rbind (add_auditcall prg t) (add_auditcalls as)"

definition build_transaction :: "string \<Rightarrow> transaction_body \<Rightarrow> transaction_function result" where
  "build_transaction name b =
    rbind (add_auditcalls (tb_auditcalls b) (tb_prg b)) (\<lambda>t.
    rbind (createProgram True t) (\<lambda>program.
    rbind (preproc_build (tb_preproc b) (ps_tagtab (p_pathset program))) (\<lambda>(tags, preproc).
      Inr \<lparr>tf_name = name, tf_resultfilter = tb_resultfilter b, tf_authorizations = tb_authorizations b,
        tf_preproc = preproc, tf_audit = map (\<lambda>(level, f, _). (level, f)) (tb_auditcalls b),
        tf_program = program\<lparr>p_pathset := (p_pathset program)\<lparr>ps_tagtab := tags\<rparr>\<rparr>\<rparr>)))"

definition transaction_body_new :: "translator \<Rightarrow> transaction_body" where
  "transaction_body_new t =
    \<lparr>tb_valid = True, tb_used = {}, tb_resultfilter = [], tb_authorizations = [], tb_preproc = [], tb_auditcalls = [],
     tb_prg = t\<rparr>"

text \<open>The result is \<^verbatim>\<open>tfunc\<close>, which is not set when the transaction is excluded for the database.\<close>

definition parseTransactionBody ::
  "string \<Rightarrow> target_database \<Rightarrow> language_description \<Rightarrow> subroutine keymap \<Rightarrow> transaction_function option source_parse" where
  "parseTransactionBody name db ld subs =
    p_bind (p_lift (translator_new subs False)) (\<lambda>t. p_bind s_source (\<lambda>si.
    p_bind (transaction_loop db ld subs (Suc (length si)) si (transaction_body_new t)) (\<lambda>(b, psi).
    p_bind (if tb_valid b then p_bind (p_lift (build_transaction name b)) (\<lambda>f. p_return (Some f)) else p_return None) (\<lambda>f.
    p_bind (s_update psi) (\<lambda>_. p_return f)))))"

section \<open>Files\<close>

text \<open>The functions on files and their names (\<^verbatim>\<open>utils/fileUtils.cpp\<close> calls the file system library for them)
  and the database the programs are loaded for.\<close>

record source_files =
  sf_extension :: "string \<Rightarrow> string"
  sf_stem :: "string \<Rightarrow> string"
  sf_parent :: "string \<Rightarrow> string"
  sf_join :: "string \<Rightarrow> string \<Rightarrow> string"
  sf_read :: "string \<Rightarrow> string result"

text \<open>What is loaded: the subroutines and the list of transaction functions.\<close>

record loaded =
  lo_subroutines :: "subroutine keymap"
  lo_functions :: "(string \<times> transaction_function) list"

text \<open>The state of \<^verbatim>\<open>load\<close>: its variable \<^verbatim>\<open>posinfo_si\<close> in front of the state of the source parsers.\<close>

type_synonym 'a load_parse = "(string \<times> source_pos \<times> string, 'a) parser"

definition l_source :: "'a source_parse \<Rightarrow> 'a load_parse" where
  "l_source p s = (case s of (psi, st) \<Rightarrow> case p st of (r, st') \<Rightarrow> (r, psi, st'))"

text \<open>\<^verbatim>\<open>posinfo.update( posinfo_si, at); posinfo_si = at\<close>\<close>

definition l_update :: "string \<Rightarrow> unit load_parse" where
  "l_update at s = (case s of (psi, pos, si) \<Rightarrow> (Inr (), at, pos_update (between psi at) pos, si))"

definition l_here :: "string load_parse" where
  "l_here s = (Inr (snd (snd s)), s)"

definition l_mark :: "unit load_parse" where
  "l_mark s = (case s of (_, pos, si) \<Rightarrow> (Inr (), si, pos, si))"

definition toplevel_ids :: "string list" where
  "toplevel_ids = [''DATABASE'', ''TRANSACTION'', ''SUBROUTINE'', ''TEMPLATE'', ''INCLUDE'']"

definition load_TRANSACTION ::
  "target_database \<Rightarrow> language_description \<Rightarrow> string \<Rightarrow> loaded \<Rightarrow> loaded load_parse" where
  "load_TRANSACTION db ld start lo =
    p_bind (l_update start) (\<lambda>_.
    p_bind (l_source (s_parse (parseSubroutineName ld))) (\<lambda>name.
    p_bind l_here (\<lambda>si. p_bind (l_update si) (\<lambda>_.
    p_bind (l_source (parseTransactionBody name db ld (lo_subroutines lo))) (\<lambda>tfunc.
    p_bind l_mark (\<lambda>_.
      p_return (case tfunc of None \<Rightarrow> lo | Some f \<Rightarrow> lo\<lparr>lo_functions := lo_functions lo @ [(name, f)]\<rparr>)))))))"

text \<open>The declaration of a subroutine behind its keyword and the template arguments\<close>

definition load_subroutine ::
  "target_database \<Rightarrow> language_description \<Rightarrow> string list \<Rightarrow> loaded \<Rightarrow> loaded load_parse" where
  "load_subroutine db ld targs lo =
    p_bind (l_source (s_parse (parseSubroutineName ld))) (\<lambda>name.
    p_bind (l_source (s_parse (parseCallArguments ld))) (\<lambda>args.
    p_bind l_here (\<lambda>si. p_bind (l_update si) (\<lambda>_.
    p_bind (p_lift (translator_new (lo_subroutines lo) True)) (\<lambda>t.
    p_bind (l_source (parseSubroutineBody db ld t)) (\<lambda>(valid, t).
    p_bind (p_lift
      (if valid then rbind (createProgram True t) (\<lambda>prg.
         rbind (keymap_insert name \<lparr>sr_name = name, sr_templateParams = targs, sr_params = args, sr_program = prg\<rparr>
           (lo_subroutines lo)) (\<lambda>m. Inr (lo\<lparr>lo_subroutines := m\<rparr>)))
       else Inr lo)) (\<lambda>lo.
    p_bind l_mark (\<lambda>_. p_return lo))))))))"

definition load_SUBROUTINE ::
  "target_database \<Rightarrow> language_description \<Rightarrow> string \<Rightarrow> loaded \<Rightarrow> loaded load_parse" where
  "load_SUBROUTINE db ld start lo = p_bind (l_update start) (\<lambda>_. load_subroutine db ld [] lo)"

definition load_TEMPLATE ::
  "target_database \<Rightarrow> language_description \<Rightarrow> string \<Rightarrow> loaded \<Rightarrow> loaded load_parse" where
  "load_TEMPLATE db ld start lo =
    p_bind (l_update start) (\<lambda>_.
    p_bind (l_source (s_parse (gotoNextToken ld))) (\<lambda>_.
    p_bind (l_source (s_parse (parseTemplateArguments ld))) (\<lambda>targs.
    p_bind (l_source (s_parse (parseKeyword ld ''SUBROUTINE''))) (\<lambda>k.
      if \<not> k then p_throw ''SUBROUTINE declaration expected after TEMPLATE declaration''
      else load_subroutine db ld targs lo))))"

definition load_INCLUDE ::
  "language_description \<Rightarrow> (string \<Rightarrow> loaded \<Rightarrow> loaded result) \<Rightarrow> loaded \<Rightarrow> loaded load_parse" where
  "load_INCLUDE ld inc lo =
    p_bind (l_source (s_parse (parseFilename ld))) (\<lambda>incfile. p_lift (inc incfile lo))"

text \<open>The loop over the declarations of a file; \<open>inc\<close> includes another file.\<close>

fun load_loop ::
  "target_database \<Rightarrow> language_description \<Rightarrow> (string \<Rightarrow> loaded \<Rightarrow> loaded result) \<Rightarrow> nat \<Rightarrow> loaded \<Rightarrow> loaded load_parse" where
  "load_loop db ld inc 0 lo s = (Inl (Undefined ''endless loop''), s)"
| "load_loop db ld inc (Suc n) lo s =
    p_bind (l_source (s_parse (gotoNextToken ld))) (\<lambda>ch.
      if ch = NUL then p_return lo
      else p_bind l_here (\<lambda>start. p_bind (l_source (s_parse (parseNextIdentifier toplevel_ids))) (\<lambda>k.
        if k = 0 then l_source (header_unexpected ''file'' toplevel_ids)
        else if k = 1 then p_throw (''unexpected top level DATABASE definition (the top level database definition '' @
          ''must be unique and is only allowed as the first declaration in the TDL source'')
        else p_bind
          (if k = 2 then load_TRANSACTION db ld start lo
           else if k = 3 then load_SUBROUTINE db ld start lo
           else if k = 4 then load_TEMPLATE db ld start lo
           else load_INCLUDE ld inc lo) (load_loop db ld inc n)))) s"

text \<open>The file is read also when it excludes the database.\<close>

definition load_source ::
  "target_database \<Rightarrow> language_description \<Rightarrow> (string \<Rightarrow> loaded \<Rightarrow> loaded result) \<Rightarrow> loaded \<Rightarrow> loaded load_parse" where
  "load_source db ld inc lo =
    p_bind (l_source (s_parse (parseKeyword ld ''DATABASE''))) (\<lambda>k.
    p_bind (if k then l_source (s_parse (checkDatabaseList db ld)) else p_return True) (\<lambda>_.
    p_bind l_here (\<lambda>si. load_loop db ld inc (Suc (length si)) lo)))"

definition load ::
  "source_files \<Rightarrow> target_database \<Rightarrow> language_description \<Rightarrow> (string \<Rightarrow> loaded \<Rightarrow> loaded result) \<Rightarrow>
   string \<Rightarrow> string \<Rightarrow> loaded \<Rightarrow> loaded result" where
  "load fs db ld inc filename source lo =
    (case load_source db ld inc lo (source, (sf_stem fs filename @ sf_extension fs filename, 1, 1), source) of
       (Inr lo', _) \<Rightarrow> Inr lo'
     | (Inl (RuntimeError msg), psi, pos, si) \<Rightarrow>
         Inl (RuntimeError (msg @ '' '' @ pos_logtext (pos_update (between psi si) pos)))
     | (Inl e, _) \<Rightarrow> Inl e)"

text \<open>Files may include each other without end, which exhausts the stack: \<open>depth\<close> is the number of nested
  includes it has room for.\<close>

fun includeFile ::
  "source_files \<Rightarrow> target_database \<Rightarrow> language_description \<Rightarrow> nat \<Rightarrow> string \<Rightarrow> string \<Rightarrow> loaded \<Rightarrow> loaded result" where
  "includeFile fs db ld 0 mainfilename incfilename lo = Inl (Undefined ''stack overflow'')"
| "includeFile fs db ld (Suc depth) mainfilename incfilename lo =
    (let path = sf_join fs (sf_parent fs mainfilename) incfilename in
     rbind (sf_read fs (if sf_extension fs incfilename = [] then path @ sf_extension fs mainfilename else path)) (\<lambda>src.
       load fs db ld (includeFile fs db ld depth incfilename) incfilename src lo))"

text \<open>An exception that is not a \<^verbatim>\<open>std::runtime_error\<close> is thrown again as a copy of its base class.\<close>

definition rethrown :: "'a result \<Rightarrow> 'a result" where
  "rethrown r = (case r of Inr x \<Rightarrow> Inr x | Inl (RuntimeError msg) \<Rightarrow> Inl (RuntimeError msg)
    | Inl (Undefined msg) \<Rightarrow> Inl (Undefined msg) | Inl _ \<Rightarrow> Inl StdException)"

definition loadTransactionProgramFile ::
  "source_files \<Rightarrow> target_database \<Rightarrow> language_description \<Rightarrow> nat \<Rightarrow> string \<Rightarrow> (string \<times> transaction_function) list result" where
  "loadTransactionProgramFile fs db ld depth filename =
    rethrown (rbind (sf_read fs filename) (\<lambda>source.
    rbind (load fs db ld (includeFile fs db ld depth filename) filename source \<lparr>lo_subroutines = [], lo_functions = []\<rparr>) (\<lambda>lo.
      Inr (lo_functions lo))))"

end
