(* ===== verification/Tdl_Properties.thy ===== *)
theory Tdl_Properties
  imports Tdl_Source Compiler_Properties
begin

text \<open>
  Properties of the source parser of transaction programs: the code generated for a program block stays
  inside of its limits, and what the declarations of a transaction mean.
\<close>

section \<open>Sequences of parsers\<close>

lemma p_bind_Inr: "p_bind m f s = (Inr y, s') \<longleftrightarrow> (\<exists>x s1. m s = (Inr x, s1) \<and> f x s1 = (Inr y, s'))"
  by (auto simp: p_bind_def split: prod.splits sum.splits)

lemma p_simps [simp]:
  "p_return x s = (Inr x, s)" "p_throw msg s = (Inl (RuntimeError msg), s)" "p_lift r s = (r, s)"
  by (simp_all add: p_return_def p_throw_def p_lift_def)

lemma s_parse_Inr: "s_parse p s = (Inr x, s') \<longleftrightarrow> fst s' = fst s \<and> p (snd s) = (Inr x, snd s')"
  by (cases s; cases s') (auto simp: s_parse_def split: prod.splits)

lemma s_simps [simp]:
  "s_source s = (Inr (snd s), s)" "s_goto si s = (Inr (), fst s, si)"
  "set_reference_here t s = (Inr (tr_setCurrentSourceReference (fst s) t), s)"
  by (simp_all add: s_source_def s_goto_def set_reference_here_def)

lemma s_update_Inr: "s_update psi s = (Inr x, s') \<longleftrightarrow> x = snd s \<and> s' = (pos_update (between psi (snd s)) (fst s), snd s)"
  by (cases s) (auto simp: s_update_def)

section \<open>Code of program blocks\<close>

text \<open>\<open>t'\<close> has the code of \<open>t\<close> and behind it code without a jump to the outside, in the same state.\<close>

definition extends :: "translator \<Rightarrow> translator \<Rightarrow> bool" where
  "extends t t' \<longleftrightarrow> appends t t' \<and> tr_stateStack t' = tr_stateStack t"

lemma extends_refl [simp]: "extends t t"
  by (simp add: extends_def)

lemma extends_trans [trans]: "extends t t' \<Longrightarrow> extends t' t'' \<Longrightarrow> extends t t''"
  by (auto simp: extends_def intro: appends_trans)

lemma source_reference_extends [simp]: "extends (tr_setCurrentSourceReference p t) t' \<longleftrightarrow> extends t t'"
  "extends t (tr_setCurrentSourceReference p t')  \<longleftrightarrow> extends t t'"
  by (simp_all add: extends_def appends_def tr_setCurrentSourceReference_def setCurrentSourceReference_def Let_def)

lemma emit_extends: "tr_emit is t = Inr t' \<Longrightarrow> plain is \<Longrightarrow> extends t t'"
  by (simp add: extends_def tr_emit_effect)

lemma names_extends:
  "tr_tagname n t = Inr (i, t') \<Longrightarrow> extends t t'" "tr_colname n t = Inr (i, t') \<Longrightarrow> extends t t'"
  "tr_path n t = Inr (i, t') \<Longrightarrow> extends t t'"
  by (simp_all add: extends_def appends_def tr_names_effect)

lemma constant_extends: "tr_constant v t = (i, t') \<Longrightarrow> extends t t'"
  by (auto simp: tr_constant_def extends_def appends_def Let_def split: prod.splits)

lemma select_plain: "select_instruction n t = Inr sel \<Longrightarrow> plain [sel]"
  using select_instruction_Inr by fastforce

lemma emit_extends_trans: "extends t u \<Longrightarrow> tr_emit is u = Inr t' \<Longrightarrow> plain is \<Longrightarrow> extends t t'"
  by (rule extends_trans [OF _ emit_extends])

lemma output_extends:
  "output_ARGUMENT_PATH s t = Inr t' \<Longrightarrow> extends t t'"
  "output_ARGUMENT_LOOPCNT t = Inr t' \<Longrightarrow> extends t t'"
  "output_ARGUMENT_CONST v t = Inr t' \<Longrightarrow> extends t t'"
  "output_ARGUMENT_TUPLESET_idx s i t = Inr t' \<Longrightarrow> extends t t'"
  "output_ARGUMENT_TUPLESET_name s n t = Inr t' \<Longrightarrow> extends t t'"
  unfolding output_ARGUMENT_PATH_def output_ARGUMENT_LOOPCNT_def output_ARGUMENT_CONST_def
    output_ARGUMENT_TUPLESET_idx_def output_ARGUMENT_TUPLESET_name_def rbind_eq_Inr_iff
  by (auto simp: rbind_eq_Inr_iff split: prod.splits dest: constant_extends names_extends dest!: select_plain
      elim!: emit_extends_trans emit_extends)

lemma output_reference_extends: "output_reference e t = Inr t' \<Longrightarrow> extends t t'"
  by (auto simp: output_reference_def rbind_eq_Inr_iff split: element_reference.splits
      dest!: output_extends intro: extends_trans)

lemma into_extends:
  assumes "tr_when b (begin_INTO_block path) t = Inr t1" and "extends t1 t2" and "tr_when b end_INTO_block t2 = Inr t3"
  shows "extends t t3"
  using into_block_effect [of b False path t t1 t2 t3] assms by (simp add: extends_def)

lemma print_into_extends:
  assumes "print_into path e t = Inr t'"
  shows "extends t t'"
proof -
  obtain t1 t2 where "tr_when (has_into path) (begin_INTO_block path) t = Inr t1" "output_reference e t1 = Inr t2"
    "tr_when (has_into path) end_INTO_block t2 = Inr t'"
    using assms by (auto simp: print_into_def rbind_eq_Inr_iff)
  then show ?thesis using into_extends output_reference_extends by blast
qed

lemma result_KEEP_extends: "result_KEEP n t = Inr t' \<Longrightarrow> extends t t'"
  by (auto simp: result_KEEP_def rbind_eq_Inr_iff extends_def appends_def dest!: tr_emit_effect)

lemma command_extends: "programAddCommandDefinition cmd t = Inr t' \<Longrightarrow> extends t t'"
  by (simp add: extends_def command_effect)

text \<open>The parts of a block\<close>

lemma block_parts_extend:
  "block_command ld psi start t s = (Inr (t', psi'), s') \<Longrightarrow> extends t t'"
  "block_KEEP ld psi t s = (Inr (t', psi'), s') \<Longrightarrow> extends t t'"
  "block_PRINT ld psi t s = (Inr (t', psi'), s') \<Longrightarrow> extends t t'"
  "block_INTO_PRINT ld path t s = (Inr t', s') \<Longrightarrow> extends t t'"
  unfolding block_command_def block_KEEP_def block_PRINT_def block_INTO_PRINT_def print_end_def
  by (auto simp: p_bind_Inr s_update_Inr split: if_splits
      dest: command_extends result_KEEP_extends print_into_extends)

lemma prg_block_extends: "prg_block ld n psi t s = (Inr t', s') \<Longrightarrow> extends t t'"
proof (induction n arbitrary: psi t s t' s')
  case (Suc n)
  show ?case
    using Suc.prems
    apply (auto simp: p_bind_Inr s_update_Inr block_unexpected_def split: if_splits
        dest!: Suc.IH block_parts_extend intro: extends_trans extends_trans [OF into_extends])
    done
qed simp

text \<open>The code of a program block is self-contained: parsing and translating a block, with its commands, outputs
  and nested INTO blocks, appends code that has no jump out of it but the calls of subroutines, and leaves the
  state stack of the translator as it was.\<close>
theorem block_code_self_contained:
  assumes "parsePrgBlock ld t s = (Inr t', s')"
  shows "\<exists>ws. p_code (tr_main t') = p_code (tr_main t) @ ws
    \<and> local_jumps (length (p_code (tr_main t))) (length (p_code (tr_main t'))) Op_NOP (map decode ws)
    \<and> tr_stateStack t' = tr_stateStack t"
proof -
  have "extends t t'" using assms unfolding parsePrgBlock_def by (rule prg_block_extends)
  then show ?thesis by (auto simp: extends_def appends_def jumps_ok_def)
qed

lemma print_block_tokens:
  "gotoNextToken sql_language ''PRINT 1; END'' = (Inr (CHR ''P''), ''PRINT 1; END'')"
  "parseNextIdentifier prgblock_ids ''PRINT 1; END'' = (Inr 7, '' 1; END'')"
  "parsePlainReference sql_language '' 1; END'' = (Inr (Ref_Constant ''1''), ''; END'')"
  "parseKeyword sql_language ''INTO'' ''; END'' = (Inr False, ''; END'')"
  "tdl_parseNextToken sql_language ''; END'' = (Inr (CHR '';'', []), '' END'')"
  "gotoNextToken sql_language '' END'' = (Inr (CHR ''E''), ''END'')"
  "parseNextIdentifier prgblock_ids ''END'' = (Inr 1, [])"
  by code_simp+

theorem block_code_self_contained_witness:
  "\<exists>t' s'. parsePrgBlock sql_language empty_translator ((''f'', 1, 1), ''PRINT 1; END'') = (Inr t', s')
    \<and> p_code (tr_main t') = [0x0C000000]
    \<and> local_jumps 0 (length (p_code (tr_main t'))) Op_NOP (map decode (p_code (tr_main t')))"
proof -
  let ?s = "((''f'', 1, 1), ''PRINT 1; END'')"
  have "\<exists>t' s'. parsePrgBlock sql_language empty_translator ?s = (Inr t', s') \<and> p_code (tr_main t') = [0x0C000000]"
    by (simp add: parsePrgBlock_def p_bind_def s_parse_def s_update_def print_block_tokens block_PRINT_def print_end_def
        print_into_def has_into_def tr_when_def output_reference_def output_ARGUMENT_CONST_def tr_constant_def
        tr_setCurrentSourceReference_def setCurrentSourceReference_def emit_eval example_eval)
      (metis prod_cases3)
  then obtain t' s' where 1: "parsePrgBlock sql_language empty_translator ?s = (Inr t', s')" "p_code (tr_main t') = [0x0C000000]"
    by blast
  have "p_code (tr_main empty_translator) = []" by (simp add: empty_translator_def vm_program_new_def)
  with block_code_self_contained [OF 1(1)] have "local_jumps 0 (length (p_code (tr_main t'))) Op_NOP (map decode (p_code (tr_main t')))"
    by auto
  with 1 show ?thesis by blast
qed

end
