(* ===== verification/Program_Validity.thy ===== *)
theory Program_Validity
  imports Program_Layout
begin

text \<open>
  The programs that the translator builds are well-formed: every argument refers to an entry of its table
  and every jump to an address of the program. The tables of a program never have more entries than its code
  has instructions, so an index of them fits into an instruction when the code does.
\<close>

section \<open>Arguments that refer to something\<close>

definition resolved :: "vm_program \<Rightarrow> opcode \<Rightarrow> nat \<Rightarrow> bool" where
  "resolved p opc arg \<longleftrightarrow> opc \<in> set opcodes \<and>
    (case argumentType opc of Inl _ \<Rightarrow> False | Inr at \<Rightarrow> argument_reference p at arg \<noteq> None)"

lemma resolved_word:
  "resolved p (opCode w) (argumentIndex w) \<longleftrightarrow> opCode w \<in> set opcodes \<and> instruction_reference p w \<noteq> None"
  by (auto simp: resolved_def instruction_reference_def split: sum.splits)

definition table_sizes :: "vm_program \<Rightarrow> nat list" where
  "table_sizes p =
    [length (p_constants p), length (nt_namear (p_tagnametab p)), length (nt_namear (p_resultnametab p)),
     length (nt_namear (p_colnametab p)), length (p_statements p), length (p_hinttab p), length (p_signatures p),
     length (p_tuplesets p), length (ps_pathar (p_pathset p))]"

definition bounded :: "nat \<Rightarrow> vm_program \<Rightarrow> bool" where
  "bounded n p \<longleftrightarrow> (\<forall>x \<in> set (table_sizes p). x \<le> n)"

lemma bounded_mono: "bounded n p \<Longrightarrow> n \<le> m \<Longrightarrow> bounded m p"
  by (auto simp: bounded_def)

lemma bounded_code [simp]: "bounded n (p\<lparr>p_code := c\<rparr>) = bounded n p"
  by (simp add: bounded_def table_sizes_def)

lemma bounded_fits:
  "bounded (length (p_code oth)) oth \<Longrightarrow> bounded (length (p_code p)) p \<Longrightarrow>
    length (p_code oth) + length (p_code p) \<le> Max_ArgumentIndex \<Longrightarrow> program_fits oth p"
  by (auto simp: bounded_def table_sizes_def program_fits_def)

lemma reference_bounded:
  assumes "argument_reference p at i \<noteq> None" and "bounded n p" and "n < i"
  shows "argument_reference p at j \<noteq> None"
proof (cases at)
  case At_Hint
  with assms show ?thesis by (simp add: argument_reference_def bounded_def table_sizes_def nth_opt_def split: if_splits)
next
  case At_Path
  with assms show ?thesis by (simp add: argument_reference_def bounded_def table_sizes_def nth_opt_def split: if_splits)
qed (use assms in \<open>auto simp: argument_reference_def bounded_def table_sizes_def nth_opt_def nt_name_def nt_getName_def
      split: if_splits\<close>)

lemma resolved_modulo:
  assumes "resolved p opc arg" and "bounded n p" and "n < 2 ^ 32"
  shows "resolved p opc (arg mod 2 ^ 32)"
proof (cases "arg < 2 ^ 32")
  case False
  then have "n < arg" using assms(3) by simp
  with assms(1,2) reference_bounded [of p _ arg n] show ?thesis by (auto simp: resolved_def split: sum.splits)
qed (use assms in simp)

text \<open>The tables of \<open>p'\<close> have the entries of the tables of \<open>p\<close>.\<close>

definition keeps_tables :: "vm_program \<Rightarrow> vm_program \<Rightarrow> bool" where
  "keeps_tables p p' \<longleftrightarrow> (\<forall>at i. argument_reference p at i \<noteq> None \<longrightarrow> argument_reference p' at i \<noteq> None)"

lemma keeps_resolved: "keeps_tables p p' \<Longrightarrow> resolved p opc arg \<Longrightarrow> resolved p' opc arg"
  by (auto simp: keeps_tables_def resolved_def split: sum.splits)

section \<open>The invariant of the translator\<close>

definition gotos :: "nat \<Rightarrow> program_code \<Rightarrow> bool" where
  "gotos n ws \<longleftrightarrow> (\<forall>w \<in> set ws. opCode w = Op_GOTO \<longrightarrow> argumentIndex w \<le> n)"

lemma gotos_mono: "gotos n ws \<Longrightarrow> n \<le> m \<Longrightarrow> gotos m ws"
  by (auto simp: gotos_def)

definition tables_ok :: "vm_program \<Rightarrow> bool" where
  "tables_ok p \<longleftrightarrow> nt_wf (p_colnametab p) \<and> nt_wf (p_tagnametab p) \<and> nt_wf (p_resultnametab p) \<and> ps_wf (p_pathset p)"

lemma refs_ok_resolved:
  "refs_ok p \<longleftrightarrow> (\<forall>w \<in> set (p_code p). resolved p (opCode w) (argumentIndex w)) \<and> tables_ok p"
  by (auto simp: refs_ok_def resolved_word tables_ok_def)

definition valid_program :: "vm_program \<Rightarrow> bool" where
  "valid_program p \<longleftrightarrow> program_wf p \<and> bounded (length (p_code p)) p"

text \<open>The subroutines that may be called, and the ones that were.\<close>

definition calls_ok :: "translator \<Rightarrow> bool" where
  "calls_ok t \<longleftrightarrow> starts_with_jump (tr_sub_program t) \<and>
    (length (p_code (tr_sub_program t)) \<le> Max_ArgumentIndex \<longrightarrow> valid_program (tr_sub_program t)) \<and>
    (\<forall>c \<in> set (tr_calledSubroutines t). cs_address c \<le> length (p_code (tr_sub_program t))) \<and>
    (\<forall>(n, sr) \<in> set (tr_subroutinemap t). valid_program (sr_program sr))"

text \<open>\<open>k\<close> entries of tables have no instruction yet.\<close>

definition tr_inv :: "nat \<Rightarrow> translator \<Rightarrow> bool" where
  "tr_inv k t \<longleftrightarrow> refs_ok (tr_main t) \<and> bounded (length (p_code (tr_main t)) + k) (tr_main t) \<and>
    gotos (max (length (p_code (tr_sub_program t))) (length (p_code (tr_main t)))) (p_code (tr_main t)) \<and> calls_ok t"

lemma tr_inv_mono: "tr_inv k t \<Longrightarrow> k \<le> m \<Longrightarrow> tr_inv m t"
  unfolding tr_inv_def using bounded_mono add_left_mono by blast

lemma tr_inv_stack [simp]:
  "tr_inv k (t\<lparr>tr_stateStack := st\<rparr>) = tr_inv k t" "tr_inv k (tr_push i v t) = tr_inv k t"
  "tr_inv k (tr_pop t) = tr_inv k t" "tr_inv k (count_command t) = tr_inv k t"
  by (simp_all add: tr_inv_def calls_ok_def tr_push_def tr_pop_def count_command_def)

lemma encodes_in:
  assumes "encodes is ws" and "w \<in> set ws"
  obtains cc opc arg where "(cc, opc, arg) \<in> set is" and "instruction cc opc (of_nat arg) = Inr w"
proof -
  obtain i where i: "i < length ws" "w = ws ! i" using assms(2) by (auto simp: in_set_conv_nth)
  moreover obtain cc opc arg where "is ! i = (cc, opc, arg)" by (cases "is ! i")
  moreover have "i < length is" using i(1) encodes_length [OF assms(1)] by simp
  ultimately show ?thesis
    using that [of cc opc arg] nth_mem [of i "is"] list_all2_nthD2 [OF assms(1) [unfolded encodes_def] i(1)] by simp
qed

text \<open>Emitted instructions: their arguments are resolved, and there are enough of them for the new entries.\<close>

definition emits_ok :: "translator \<Rightarrow> decoded list \<Rightarrow> bool" where
  "emits_ok t is \<longleftrightarrow> (\<forall>(cc, opc, arg) \<in> set is. resolved (tr_main t) opc arg \<and>
    (opc = Op_GOTO \<longrightarrow> arg \<le> max (length (p_code (tr_sub_program t))) (length (p_code (tr_main t)) + length is)))"

lemma emit_inv:
  assumes "tr_emit is t = Inr t'" and "tr_inv k t" and "k \<le> length is" and "emits_ok t is"
  shows "tr_inv 0 t'"
proof (cases "is = []")
  case True
  with assms show ?thesis by (auto simp: tr_inv_def)
next
  case False
  obtain ws where ws: "encodes is ws" and t': "t' = t\<lparr>tr_main := (tr_main t)\<lparr>p_code := p_code (tr_main t) @ ws\<rparr>\<rparr>"
    using assms(1) by (rule tr_emit_encodes)
  have len: "length ws = length is" by (rule encodes_length [OF ws])
  have small: "length (p_code (tr_main t)) + k < 2 ^ 32"
    using tr_emit_bound [OF assms(1) False] t' len assms(3) by simp
  have new: "resolved (tr_main t) (opCode w) (argumentIndex w) \<and> (opCode w = Op_GOTO \<longrightarrow>
      argumentIndex w \<le> max (length (p_code (tr_sub_program t))) (length (p_code (tr_main t)) + length is))" if w: "w \<in> set ws" for w
  proof -
    obtain cc opc arg where i: "(cc, opc, arg) \<in> set is" "instruction cc opc (of_nat arg) = Inr w"
      using encodes_in [OF ws w] by blast
    with assms(4) have r: "resolved (tr_main t) opc arg" and g: "opc = Op_GOTO \<longrightarrow>
        arg \<le> max (length (p_code (tr_sub_program t))) (length (p_code (tr_main t)) + length is)"
      by (auto simp: emits_ok_def)
    then have "decode w = (cc, opc, arg mod 2 ^ 32)"
      using instruction_decode [OF i(2)] by (simp add: resolved_def unat_of_nat)
    moreover have "resolved (tr_main t) opc (arg mod 2 ^ 32)"
      using resolved_modulo [OF r _ small] assms(2) by (simp add: tr_inv_def)
    moreover have "arg mod 2 ^ 32 \<le> arg" by simp
    ultimately show ?thesis using g by (auto simp: decode_def)
  qed
  have same: "resolved (tr_main t') opc arg = resolved (tr_main t) opc arg" for opc arg
    by (cases "argumentType opc") (auto simp: resolved_def t' argument_reference_def split: argument_type.splits)
  have "refs_ok (tr_main t')"
    using assms(2) new unfolding refs_ok_resolved same tr_inv_def by (auto simp: t' tables_ok_def)
  moreover have "gotos (max (length (p_code (tr_sub_program t'))) (length (p_code (tr_main t')))) (p_code (tr_main t'))"
    using assms(2) new len by (fastforce simp: tr_inv_def gotos_def t')
  ultimately show ?thesis
    using assms(2,3) len by (auto simp: tr_inv_def t' calls_ok_def intro: bounded_mono)
qed

section \<open>New entries of the tables\<close>

lemma nt_get_inv:
  assumes "nt_get n tab = Inr (i, tab')" and "nt_wf tab"
  shows "nt_wf tab'" and "nt_name i tab' \<noteq> None" and "nt_name j tab \<noteq> None \<Longrightarrow> nt_name j tab' \<noteq> None"
    and "length (nt_namear tab') \<le> Suc (length (nt_namear tab))"
proof -
  show "nt_wf tab'" "nt_name i tab' \<noteq> None" using names.get_total [OF assms(2), of n] assms(1) by auto
  show "nt_name j tab \<noteq> None \<Longrightarrow> nt_name j tab' \<noteq> None"
    using names.get_keeps [OF assms(2) _ assms(1), of j] by auto
  show "length (nt_namear tab') \<le> Suc (length (nt_namear tab))"
    using get_all_nt_length [of "[n]" tab "[i]" tab'] assms(1) by simp
qed

lemma table_inv:
  assumes "tr_inv 0 t" and "keeps_tables (tr_main t) p" and "p_code p = p_code (tr_main t)" and "tables_ok p"
    and "bounded (Suc (length (p_code p))) p"
  shows "tr_inv 1 (t\<lparr>tr_main := p\<rparr>)"
  using assms keeps_resolved [OF assms(2)] by (simp add: tr_inv_def refs_ok_resolved calls_ok_def)

lemma tr_inv_tables: "tr_inv k t \<Longrightarrow> tables_ok (tr_main t) \<and> bounded (length (p_code (tr_main t)) + k) (tr_main t)"
  by (simp add: tr_inv_def refs_ok_resolved)

lemma tr_colname_inv:
  assumes "tr_colname n t = Inr (i, t')" and "tr_inv 0 t"
  shows "tr_inv 1 t'" and "argument_reference (tr_main t') At_ColumnName i \<noteq> None"
proof -
  obtain tab where g: "nt_get n (p_colnametab (tr_main t)) = Inr (i, tab)"
    and t': "t' = t\<lparr>tr_main := (tr_main t)\<lparr>p_colnametab := tab\<rparr>\<rparr>"
    using assms(1) by (auto simp: tr_colname_def rbind_eq_Inr_iff)
  note tabs = tr_inv_tables [OF assms(2)]
  note nt = nt_get_inv [OF g] tabs [unfolded tables_ok_def]
  have "keeps_tables (tr_main t) ((tr_main t)\<lparr>p_colnametab := tab\<rparr>)"
    unfolding keeps_tables_def using nt by (auto simp: argument_reference_def split: argument_type.splits)
  then show "tr_inv 1 t'"
    unfolding t' by (rule table_inv [OF assms(2)]) (use tabs nt in \<open>auto simp: tables_ok_def bounded_def table_sizes_def\<close>)
  show "argument_reference (tr_main t') At_ColumnName i \<noteq> None" using nt by (auto simp: argument_reference_def t')
qed

lemma tr_tagname_inv:
  assumes "tr_tagname n t = Inr (i, t')" and "tr_inv 0 t"
  shows "tr_inv 1 t'" and "argument_reference (tr_main t') At_TagName i \<noteq> None"
proof -
  obtain tab where g: "nt_get n (p_tagnametab (tr_main t)) = Inr (i, tab)"
    and t': "t' = t\<lparr>tr_main := (tr_main t)\<lparr>p_tagnametab := tab\<rparr>\<rparr>"
    using assms(1) by (auto simp: tr_tagname_def rbind_eq_Inr_iff)
  note tabs = tr_inv_tables [OF assms(2)]
  note nt = nt_get_inv [OF g] tabs [unfolded tables_ok_def]
  have "keeps_tables (tr_main t) ((tr_main t)\<lparr>p_tagnametab := tab\<rparr>)"
    unfolding keeps_tables_def using nt by (auto simp: argument_reference_def split: argument_type.splits)
  then show "tr_inv 1 t'"
    unfolding t' by (rule table_inv [OF assms(2)]) (use tabs nt in \<open>auto simp: tables_ok_def bounded_def table_sizes_def\<close>)
  show "argument_reference (tr_main t') At_TagName i \<noteq> None" using nt by (auto simp: argument_reference_def t')
qed

lemma tr_constant_inv:
  assumes "tr_constant v t = (i, t')" and "tr_inv 0 t"
  shows "tr_inv 1 t'" and "argument_reference (tr_main t') At_Constant i \<noteq> None"
proof -
  let ?p = "(tr_main t)\<lparr>p_constants := p_constants (tr_main t) @ [v]\<rparr>"
  have t': "t' = t\<lparr>tr_main := ?p\<rparr>" and i: "i = length (p_constants (tr_main t))"
    using assms(1) by (auto simp: tr_constant_def)
  note tabs = tr_inv_tables [OF assms(2)]
  have "keeps_tables (tr_main t) ?p"
    unfolding keeps_tables_def by (auto simp: argument_reference_def nth_opt_def split: argument_type.splits if_splits)
  then show "tr_inv 1 t'"
    unfolding t' by (rule table_inv [OF assms(2)]) (use tabs in \<open>auto simp: tables_ok_def bounded_def table_sizes_def\<close>)
  show "argument_reference (tr_main t') At_Constant i \<noteq> None" by (simp add: argument_reference_def t' i nth_opt_def)
qed

text \<open>A selector that prints as itself has no terminating zero in it.\<close>

lemma to_upper_NUL: "to_upper c = NUL \<longleftrightarrow> c = NUL"
proof -
  have "(char_of n :: char) \<noteq> NUL" if "0 < n" "n < 256" for n :: nat
  proof
    assume "(char_of n :: char) = NUL"
    then have "of_char (char_of n :: char) = (of_char NUL :: nat)" by (rule arg_cong)
    then have "n mod 256 = 0" by (simp only: of_char_of) simp
    with that show False by simp
  qed
  then show ?thesis by (auto simp: to_upper_def)
qed

lemma keystring_no_nul:
  assumes "keystring a = keystring b" and "no_nul a"
  shows "no_nul b"
proof (rule ccontr)
  assume "\<not> no_nul b"
  then have "to_upper NUL \<in> set (keystring a)" unfolding assms(1) by (force simp: no_nul_def keystring_def)
  then obtain c where "c \<in> set a" "to_upper c = to_upper NUL" by (auto simp: keystring_def)
  then have "c = NUL" using to_upper_NUL [of c] to_upper_NUL [of NUL] by simp
  with \<open>c \<in> set a\<close> assms(2) show False by (simp add: no_nul_def)
qed

lemma no_nul_simps [simp]:
  "no_nul []" "no_nul (c # cs) \<longleftrightarrow> c \<noteq> NUL \<and> no_nul cs" "no_nul (as @ bs) \<longleftrightarrow> no_nul as \<and> no_nul bs"
  by (auto simp: no_nul_def)

lemma print_tag_no_nul: "no_nul (print_tag tag t)"
  by (auto simp: print_tag_def tt_getstr_def no_nul_def dest: set_takeWhileD split: option.splits)

lemma path_print_no_nul: "path_print_loop t first prev path = Inr s \<Longrightarrow> no_nul s"
  by (induction t first prev path arbitrary: s rule: path_print_loop.induct)
     (auto simp: rbind_eq_Inr_iff print_tag_no_nul split: selector_type.splits if_splits)

lemma path_element_inv:
  assumes "path_element selector ty n path t = Inr (path', t')" and "no_nul n" and "tt_wf t" and "path_wf t path"
  shows "tt_wf t' \<and> tags_kept t t' \<and> path_wf t' path'"
proof -
  consider "t' = t" "path' = path \<or> path' = path @ [(Sel_Up, 0)] \<or> path' = path @ [(ty, 0)]"
    | tag where "tt_get n t = (tag, t')" "path' = path @ [(ty, tag)]"
    using assms(1) by (fastforce simp: path_element_def split: if_splits prod.splits)
  then show ?thesis
  proof cases
    case 1
    with assms(3,4) show ?thesis by (auto simp: tags_kept_def path_wf_def)
  next
    case (2 tag)
    obtain m where m: "tt_wf t'" "tt_name tag t' = Some m" using tags.get_total [OF assms(3,2)] 2(1) by auto
    have k: "tags_kept t t'" using tags.get_keeps [OF assms(3,2)] 2(1) by (auto simp: tags_kept_def)
    with m 2(2) path_names_kept [OF k assms(4)] show ?thesis by (auto simp: path_wf_def)
  qed
qed

lemma path_loop_inv:
  "path_loop selector cs path t = Inr (path', t') \<Longrightarrow> no_nul cs \<Longrightarrow> tt_wf t \<Longrightarrow> path_wf t path \<Longrightarrow>
    tt_wf t' \<and> tags_kept t t' \<and> path_wf t' path'"
proof (induction selector cs path t arbitrary: path' t' rule: path_loop.induct)
  case (1 selector cs path t)
  show ?case
  proof (cases "path_separator cs")
    case None
    with "1.prems" show ?thesis by (simp add: path_loop.simps tags_kept_def)
  next
    case (Some tr)
    obtain ty r where tr: "tr = (ty, r)" by (cases tr)
    have r: "set r \<subseteq> set cs" using Some tr by (auto simp: path_separator_def split: list.splits if_splits)
    then have n: "no_nul (takeWhile (\<lambda>c. c \<noteq> SLASH) r)" "no_nul (dropWhile (\<lambda>c. c \<noteq> SLASH) r)"
      using "1.prems"(2) by (auto simp: no_nul_def dest: set_takeWhileD set_dropWhileD)
    obtain p1 t1 where e: "path_element selector ty (takeWhile (\<lambda>c. c \<noteq> SLASH) r) path t = Inr (p1, t1)"
      "path_loop selector (dropWhile (\<lambda>c. c \<noteq> SLASH) r) p1 t1 = Inr (path', t')"
      using "1.prems"(1) Some tr by (subst (asm) path_loop.simps) (auto split: sum.splits)
    have i: "tt_wf t1" "tags_kept t t1" "path_wf t1 p1" using path_element_inv [OF e(1) n(1) "1.prems"(3,4)] by simp_all
    have "tt_wf t' \<and> tags_kept t1 t' \<and> path_wf t' path'"
      by (rule "1.IH" [OF Some tr [symmetric] e(1) refl e(2) n(2) i(1,3)])
    with i(2) show ?thesis by (auto simp: tags_kept_def)
  qed
qed

lemma selectorPath_inv:
  assumes "selectorPath selector t = Inr (path, t')" and "tt_wf t"
  shows "tt_wf t' \<and> tags_kept t t' \<and> path_wf t' path"
proof (cases "dropWhile (\<lambda>c. char_code c \<le> 32) selector")
  case Nil
  with assms show ?thesis by (auto simp: selectorPath_def tags_kept_def path_wf_def)
next
  case (Cons c r)
  obtain redu where p: "path_loop selector (c # r) [(if c = SLASH then Sel_Root else Sel_Current, 0)] t = Inr (path, t')"
    "path_print path t' = Inr redu" "iequals redu selector \<or> iequals (''./'' @ redu) selector"
    using assms(1) Cons by (auto simp: selectorPath_def rbind_eq_Inr_iff split: if_splits)
  have "no_nul redu" using p(2) path_print_no_nul by (simp add: path_print_def)
  then have "no_nul selector"
    using p(3) keystring_no_nul [of redu selector] keystring_no_nul [of "''./'' @ redu" selector] by auto
  then have "no_nul (c # r)" unfolding Cons [symmetric] by (auto simp: no_nul_def dest: set_dropWhileD)
  then show ?thesis by (rule path_loop_inv [OF p(1) _ assms(2)]) (simp add: path_wf_def)
qed

lemma ps_add_inv:
  assumes "ps_add sel s = Inr (i, s')" and "ps_wf s"
  shows "ps_wf s'" and "tags_kept (ps_tagtab s) (ps_tagtab s')" and "i = Suc (length (ps_pathar s))"
    and "\<exists>path. ps_pathar s' = ps_pathar s @ [path]"
proof -
  obtain path t where p: "selectorPath sel (ps_tagtab s) = Inr (path, t)" "i = Suc (length (ps_pathar s))"
    "s' = \<lparr>ps_tagtab = t, ps_pathar = ps_pathar s @ [path]\<rparr>"
    using assms(1) by (auto simp: ps_add_def rbind_eq_Inr_iff)
  have inv: "tt_wf t \<and> tags_kept (ps_tagtab s) t \<and> path_wf t path"
    using selectorPath_inv [OF p(1)] assms(2) by (simp add: ps_wf_def)
  with p assms(2) path_names_kept [of "ps_tagtab s" t] show "ps_wf s'" by (auto simp: ps_wf_def)
  show "tags_kept (ps_tagtab s) (ps_tagtab s')" "i = Suc (length (ps_pathar s))" "\<exists>path. ps_pathar s' = ps_pathar s @ [path]"
    using inv p by simp_all
qed

lemma tr_path_inv:
  assumes "tr_path sel t = Inr (i, t')" and "tr_inv 0 t"
  shows "tr_inv 1 t'" and "argument_reference (tr_main t') At_Path i \<noteq> None"
proof -
  obtain ps where g: "ps_add sel (p_pathset (tr_main t)) = Inr (i, ps)"
    and t': "t' = t\<lparr>tr_main := (tr_main t)\<lparr>p_pathset := ps\<rparr>\<rparr>"
    using assms(1) by (auto simp: tr_path_def rbind_eq_Inr_iff)
  note tabs = tr_inv_tables [OF assms(2)]
  note ps = ps_add_inv [OF g] tabs [unfolded tables_ok_def]
  then obtain path where path: "ps_pathar ps = ps_pathar (p_pathset (tr_main t)) @ [path]" by blast
  have "keeps_tables (tr_main t) ((tr_main t)\<lparr>p_pathset := ps\<rparr>)"
    unfolding keeps_tables_def
    by (auto simp: argument_reference_def nth_opt_def path split: argument_type.splits if_splits)
  then show "tr_inv 1 t'"
    unfolding t' by (rule table_inv [OF assms(2)]) (use tabs ps path in \<open>auto simp: tables_ok_def bounded_def table_sizes_def\<close>)
  show "argument_reference (tr_main t') At_Path i \<noteq> None" using ps path by (auto simp: argument_reference_def nth_opt_def t')
qed

section \<open>Operations of the translator\<close>

lemma argument_types [simp]:
  "argumentType Op_GOTO = Inr At_Address" "argumentType Op_OUTPUT_CONST = Inr At_Constant"
  "argumentType Op_OUTPUT_PATH = Inr At_Path" "argumentType Op_OUTPUT_LOOPCNT = Inr At_None"
  "argumentType Op_OUTPUT_SEL_IDX = Inr At_SelectedColumnIdx" "argumentType Op_OUTPUT_SEL_NAM = Inr At_ColumnName"
  "argumentType Op_OUTPUT_ITR_COLUMN = Inr At_None" "argumentType Op_OUTPUT_OPEN_ARRAY = Inr At_TagName"
  "argumentType Op_OUTPUT_OPEN_ELEM = Inr At_None" "argumentType Op_OUTPUT_OPEN = Inr At_TagName"
  "argumentType Op_OUTPUT_CLOSE_ARRAY = Inr At_None" "argumentType Op_OUTPUT_CLOSE_ELEM = Inr At_None"
  "argumentType Op_OUTPUT_CLOSE = Inr At_None" "argumentType Op_OUTPUT_ADD_SINK = Inr At_None"
  "argumentType Op_KEEP_RESULT = Inr At_ResultName" "argumentType Op_SELECT_PARAMETER = Inr At_None"
  "argumentType Op_SELECT_LAST_RESULT = Inr At_None" "argumentType Op_SELECT_KEPT_RESULT = Inr At_ResultName"
  "argumentType Op_OPEN_ITER_LAST_RESULT = Inr At_None" "argumentType Op_OPEN_ITER_KEPT_RESULT = Inr At_ResultName"
  "argumentType Op_OPEN_ITER_PATH = Inr At_Path" "argumentType Op_NEXT = Inr At_None"
  "argumentType Op_SUB_FRAME_OPEN = Inr At_SubroutineSignature" "argumentType Op_SUB_ARG_CONST = Inr At_Constant"
  "argumentType Op_SUB_ARG_PATH = Inr At_Path" "argumentType Op_SUB_ARG_LOOPCNT = Inr At_None"
  "argumentType Op_SUB_ARG_SEL_IDX = Inr At_SelectedColumnIdx" "argumentType Op_SUB_ARG_SEL_NAM = Inr At_ColumnName"
  "argumentType Op_SUB_ARG_ITR_IDX = Inr At_IteratorColumnIdx" "argumentType Op_SUB_ARG_ITR_NAM = Inr At_ColumnName"
  "argumentType Op_SUB_FRAME_CLOSE = Inr At_None" "argumentType Op_SCOPE_OPEN = Inr At_None"
  "argumentType Op_SCOPE_CLOSE = Inr At_None" "argumentType Op_DBSTM_START = Inr At_Statement"
  "argumentType Op_DBSTM_BIND_CONST = Inr At_Constant" "argumentType Op_DBSTM_BIND_PATH = Inr At_Path"
  "argumentType Op_DBSTM_BIND_LOOPCNT = Inr At_None" "argumentType Op_DBSTM_BIND_SEL_IDX = Inr At_SelectedColumnIdx"
  "argumentType Op_DBSTM_BIND_SEL_NAM = Inr At_ColumnName" "argumentType Op_DBSTM_BIND_ITR_IDX = Inr At_IteratorColumnIdx"
  "argumentType Op_DBSTM_BIND_ITR_NAM = Inr At_ColumnName" "argumentType Op_DBSTM_HINT = Inr At_Hint"
  "argumentType Op_DBSTM_EXEC = Inr At_None" "argumentType Op_RESULT_SET_INIT = Inr At_None"
  "argumentType Op_RESULT_CONSTRAINT_UNIQUE = Inr At_None" "argumentType Op_RETURN = Inr At_None"
  by (simp_all add: argumentType_def argumentType_table_def array_read_def at_or_def)

lemma plain_reference [simp]:
  "argument_reference p At_None i \<noteq> None" "argument_reference p At_Address i \<noteq> None"
  "argument_reference p At_SelectedColumnIdx i \<noteq> None" "argument_reference p At_IteratorColumnIdx i \<noteq> None"
  by (simp_all add: argument_reference_def)

lemmas emits = emits_ok_def resolved_def

text \<open>Operations that emit instructions behind a change of a table\<close>

lemma result_KEEP_inv:
  assumes "result_KEEP n t = Inr t'" and "tr_inv 0 t"
  shows "tr_inv 0 t'"
proof -
  obtain i tab where g: "nt_get n (p_resultnametab (tr_main t)) = Inr (i, tab)"
    and e: "tr_emit [(Co_ALWAYS, Op_KEEP_RESULT, i)] (t\<lparr>tr_main := (tr_main t)\<lparr>p_resultnametab := tab\<rparr>\<rparr>) = Inr t'"
    using assms(1) by (auto simp: result_KEEP_def rbind_eq_Inr_iff)
  note tabs = tr_inv_tables [OF assms(2)]
  note nt = nt_get_inv [OF g] tabs [unfolded tables_ok_def]
  have "keeps_tables (tr_main t) ((tr_main t)\<lparr>p_resultnametab := tab\<rparr>)"
    unfolding keeps_tables_def using nt by (auto simp: argument_reference_def split: argument_type.splits)
  then have "tr_inv 1 (t\<lparr>tr_main := (tr_main t)\<lparr>p_resultnametab := tab\<rparr>\<rparr>)"
    by (rule table_inv [OF assms(2)]) (use tabs nt in \<open>auto simp: tables_ok_def bounded_def table_sizes_def\<close>)
  then show ?thesis by (rule emit_inv [OF e]) (use nt in \<open>auto simp: emits argument_reference_def\<close>)
qed

lemma resultset_inv:
  "init_resultset t = Inr t' \<Longrightarrow> tr_inv 0 t \<Longrightarrow> tr_inv 0 t'"
  "define_resultset_unique t = Inr t' \<Longrightarrow> tr_inv 0 t \<Longrightarrow> tr_inv 0 t'"
  "define_resultset_nonempty t = Inr t' \<Longrightarrow> tr_inv 0 t \<Longrightarrow> tr_inv 0 t'"
  by (auto simp: init_resultset_def define_resultset_unique_def define_resultset_nonempty_def emits elim!: emit_inv)

lemma nt_getIndex_name: "nt_wf tab \<Longrightarrow> nt_getIndex n tab \<noteq> 0 \<Longrightarrow> nt_name (nt_getIndex n tab) tab \<noteq> None"
  by (auto simp: nt_getIndex_def keymap_find_def nt_name_def nt_getName_def dest: nt_wf_find split: option.splits)

lemma kept_result_reference:
  assumes "tr_inv k t" and "nt_getIndex n (p_resultnametab (tr_main t)) \<noteq> 0"
  shows "argument_reference (tr_main t) At_ResultName (nt_getIndex n (p_resultnametab (tr_main t))) \<noteq> None"
  using nt_getIndex_name [OF _ assms(2)] tr_inv_tables [OF assms(1)] by (auto simp: tables_ok_def argument_reference_def)

lemma select_instruction_ok:
  assumes "select_instruction n t = Inr sel" and "tr_inv k t"
  shows "emits_ok t [sel]"
  using assms(1) kept_result_reference [OF assms(2), of n]
  by (auto simp: select_instruction_def Let_def emits split: if_splits)

lemma begin_FOREACH_inv:
  assumes "begin_FOREACH sel t = Inr t'" and "tr_inv 0 t"
  shows "tr_inv 0 t'"
proof -
  let ?i = "nt_getIndex sel (p_resultnametab (tr_main t))"
  obtain u where t': "t' = tr_push OpenForeach (length (p_code (tr_main u))) u"
    and u: "?i \<noteq> 0 \<and> tr_emit [(Co_ALWAYS, Op_OPEN_ITER_KEPT_RESULT, ?i), (Co_NOT_IF_COND, Op_GOTO, 0)] t = Inr u
      \<or> tr_emit [(Co_ALWAYS, Op_OPEN_ITER_LAST_RESULT, 0), (Co_NOT_IF_COND, Op_GOTO, 0)] t = Inr u
      \<or> (\<exists>i v. tr_path sel t = Inr (i, v) \<and> tr_emit [(Co_ALWAYS, Op_OPEN_ITER_PATH, i), (Co_NOT_IF_COND, Op_GOTO, 0)] v = Inr u)"
    using assms(1) by (auto simp: begin_FOREACH_def rbind_eq_Inr_iff Let_def split: if_splits)
  from u have "tr_inv 0 u"
  proof (elim disjE exE conjE)
    assume "?i \<noteq> 0" and e: "tr_emit [(Co_ALWAYS, Op_OPEN_ITER_KEPT_RESULT, ?i), (Co_NOT_IF_COND, Op_GOTO, 0)] t = Inr u"
    then show ?thesis
      using emit_inv [OF e assms(2)] kept_result_reference [OF assms(2), of sel] by (simp add: emits)
  next
    assume e: "tr_emit [(Co_ALWAYS, Op_OPEN_ITER_LAST_RESULT, 0), (Co_NOT_IF_COND, Op_GOTO, 0)] t = Inr u"
    then show ?thesis using emit_inv [OF e assms(2)] by (simp add: emits)
  next
    fix i v
    assume p: "tr_path sel t = Inr (i, v)"
      and e: "tr_emit [(Co_ALWAYS, Op_OPEN_ITER_PATH, i), (Co_NOT_IF_COND, Op_GOTO, 0)] v = Inr u"
    show ?thesis using emit_inv [OF e tr_path_inv(1) [OF p assms(2)]] tr_path_inv(2) [OF p assms(2)] by (simp add: emits)
  qed
  then show ?thesis by (simp add: t')
qed

lemma resolved_code [simp]: "resolved (p\<lparr>p_code := c\<rparr>) opc arg = resolved p opc arg"
  by (cases "argumentType opc") (auto simp: resolved_def argument_reference_def split: argument_type.splits)

lemma patch_jump_inv:
  assumes "tr_inv 0 t" and "instruction cc Op_GOTO (of_nat (length (p_code (tr_main t)))) = Inr jump"
  shows "tr_inv 0 (t\<lparr>tr_main := (tr_main t)\<lparr>p_code := (p_code (tr_main t))[adr := jump]\<rparr>\<rparr>)"
proof -
  let ?n = "length (p_code (tr_main t))"
  have d: "opCode jump = Op_GOTO" "argumentIndex jump \<le> ?n"
    using instruction_decode [OF assms(2)] by (auto simp: decode_def unat_of_nat)
  have sub: "set ((p_code (tr_main t))[adr := jump]) \<subseteq> insert jump (set (p_code (tr_main t)))"
    by (rule set_update_subset_insert)
  have "resolved (tr_main t) Op_GOTO (argumentIndex jump)" by (simp add: resolved_def)
  with assms(1) d sub show ?thesis
    by (auto simp: tr_inv_def refs_ok_resolved calls_ok_def tables_ok_def gotos_def dest!: subsetD [OF sub])
qed

lemma end_FOREACH_inv:
  assumes "end_FOREACH t = Inr t'" and "tr_inv 0 t"
  shows "tr_inv 0 t'"
proof -
  obtain s u jump where e: "tr_emit [(Co_ALWAYS, Op_NEXT, 0), (Co_IF_COND, Op_GOTO, ts_value (s :: tdl_state))] t = Inr u"
    and v: "ts_value s - 1 < length (p_code (tr_main u))" "ts_value s \<noteq> 0"
    and j: "instruction Co_NOT_IF_COND Op_GOTO (of_nat (length (p_code (tr_main u)))) = Inr jump"
    and t': "t' = tr_pop (u\<lparr>tr_main := (tr_main u)\<lparr>p_code := (p_code (tr_main u))[ts_value s - 1 := jump]\<rparr>\<rparr>)"
    using assms(1) by (auto simp: end_FOREACH_def rbind_eq_Inr_iff Let_def not_le split: if_splits)
  have "length (p_code (tr_main u)) = length (p_code (tr_main t)) + 2"
    using e by (auto elim!: tr_emit_encodes dest!: encodes_length)
  then have "tr_inv 0 u" by (intro emit_inv [OF e assms(2)]) (use v in \<open>auto simp: emits\<close>)
  from patch_jump_inv [OF this j] show ?thesis by (simp add: t')
qed

text \<open>The instruction that starts a statement is emitted before the statement is in the table.\<close>

lemma begin_DO_statement_eq:
  "begin_DO_statement stm t = rbind (tr_emit [(Co_ALWAYS, Op_DBSTM_START, length (p_statements (tr_main t)))]
      (t\<lparr>tr_main := (tr_main t)\<lparr>p_statements := p_statements (tr_main t) @ [stm]\<rparr>\<rparr>))
    (\<lambda>u. Inr (tr_push OpenStatementCall (length (p_statements (tr_main t))) u))"
  by (auto simp: begin_DO_statement_def tr_emit_def tr_push_def rbind_def Let_def split: sum.splits)

lemma begin_DO_statement_inv:
  assumes "begin_DO_statement stm t = Inr t'" and "tr_inv 0 t"
  shows "tr_inv 0 t'"
proof -
  let ?p = "(tr_main t)\<lparr>p_statements := p_statements (tr_main t) @ [stm]\<rparr>"
  obtain u where e: "tr_emit [(Co_ALWAYS, Op_DBSTM_START, length (p_statements (tr_main t)))] (t\<lparr>tr_main := ?p\<rparr>) = Inr u"
    and t': "t' = tr_push OpenStatementCall (length (p_statements (tr_main t))) u"
    using assms(1) by (auto simp: begin_DO_statement_eq rbind_eq_Inr_iff)
  note tabs = tr_inv_tables [OF assms(2)]
  have "keeps_tables (tr_main t) ?p"
    unfolding keeps_tables_def by (auto simp: argument_reference_def nth_opt_def split: argument_type.splits if_splits)
  then have "tr_inv 1 (t\<lparr>tr_main := ?p\<rparr>)"
    by (rule table_inv [OF assms(2)]) (use tabs in \<open>auto simp: tables_ok_def bounded_def table_sizes_def\<close>)
  from emit_inv [OF e this] show ?thesis by (simp add: t' emits argument_reference_def nth_opt_def)
qed

lemma hint_define_length: "hint_define c m tab = Inr tab' \<Longrightarrow> length tab' = length tab"
  by (auto simp: hint_define_def rbind_eq_Inr_iff split: if_splits)

lemma hint_table_inv:
  assumes "tr_inv k t" and "length tab = length (p_hinttab (tr_main t))"
  shows "tr_inv k (t\<lparr>tr_main := (tr_main t)\<lparr>p_hinttab := tab\<rparr>\<rparr>)"
proof -
  have "keeps_tables (tr_main t) ((tr_main t)\<lparr>p_hinttab := tab\<rparr>)"
    unfolding keeps_tables_def using assms(2)
    by (auto simp: argument_reference_def nth_opt_def split: argument_type.splits if_splits)
  from keeps_resolved [OF this] assms show ?thesis
    by (auto simp: tr_inv_def refs_ok_resolved calls_ok_def tables_ok_def bounded_def table_sizes_def)
qed

lemma statement_HINT_inv:
  assumes "statement_HINT c m t = Inr t'" and "tr_inv 0 t"
  shows "tr_inv 0 t'"
proof -
  obtain u tab where t': "t' = u\<lparr>tr_main := (tr_main u)\<lparr>p_hinttab := tab\<rparr>\<rparr>"
    and d: "hint_define c m (p_hinttab (tr_main u)) = Inr tab"
    and u: "u = t \<or> (\<exists>i tab. hint_startdef (p_hinttab (tr_main t)) = Inr (i, tab) \<and>
      tr_emit [(Co_ALWAYS, Op_DBSTM_HINT, i)] (tr_push StatementHint i (t\<lparr>tr_main := (tr_main t)\<lparr>p_hinttab := tab\<rparr>\<rparr>)) = Inr u)"
    using assms(1) by (fastforce simp: statement_HINT_def rbind_eq_Inr_iff split: list.splits if_splits)
  from u have "tr_inv 0 u"
  proof (elim disjE exE conjE)
    fix i tab
    assume h: "hint_startdef (p_hinttab (tr_main t)) = Inr (i, tab)"
      and e: "tr_emit [(Co_ALWAYS, Op_DBSTM_HINT, i)] (tr_push StatementHint i (t\<lparr>tr_main := (tr_main t)\<lparr>p_hinttab := tab\<rparr>\<rparr>)) = Inr u"
    have i: "i = Suc (length (p_hinttab (tr_main t)))" "tab = p_hinttab (tr_main t) @ [[]]"
      using h by (auto simp: hint_startdef_def split: if_splits)
    note tabs = tr_inv_tables [OF assms(2)]
    have "keeps_tables (tr_main t) ((tr_main t)\<lparr>p_hinttab := tab\<rparr>)"
      unfolding keeps_tables_def by (auto simp: i argument_reference_def nth_opt_def split: argument_type.splits if_splits)
    then have "tr_inv 1 (t\<lparr>tr_main := (tr_main t)\<lparr>p_hinttab := tab\<rparr>\<rparr>)"
      by (rule table_inv [OF assms(2)]) (use tabs i in \<open>auto simp: tables_ok_def bounded_def table_sizes_def\<close>)
    then show ?thesis
      using emit_inv [OF e, of 1] by (simp add: emits argument_reference_def nth_opt_def i tr_push_def)
  qed (use assms in simp)
  from hint_table_inv [OF this hint_define_length [OF d]] show ?thesis by (simp add: t')
qed

lemma end_DO_statement_inv:
  assumes "end_DO_statement t = Inr t'" and "tr_inv 0 t"
  shows "tr_inv 0 t'"
  using assms(1) emit_inv [OF _ assms(2)] by (auto simp: end_DO_statement_def rbind_eq_Inr_iff emits)

lemma output_statement_result_inv:
  assumes "output_statement_result isLoop t = Inr t'" and "tr_inv 0 t"
  shows "tr_inv 0 t'"
  using assms(1) unfolding output_result_code
  by (rule emit_inv [OF _ assms(2)]) (auto simp: emits result_code_def)

text \<open>Output blocks\<close>

lemma open_tag_inv:
  assumes "tr_tagname n t = Inr (i, u)" and "tr_emit [(Co_ALWAYS, opc, i)] u = Inr t'" and "tr_inv 0 t"
    and "opc = Op_OUTPUT_OPEN \<or> opc = Op_OUTPUT_OPEN_ARRAY"
  shows "tr_inv 0 t'"
  by (rule emit_inv [OF assms(2) tr_tagname_inv(1) [OF assms(1,3)]])
     (use tr_tagname_inv(2) [OF assms(1,3)] assms(4) in \<open>auto simp: emits\<close>)

lemma open_tags_inv: "open_tags ps t = Inr t' \<Longrightarrow> tr_inv 0 t \<Longrightarrow> tr_inv 0 t'"
proof (induction ps t rule: open_tags.induct)
  case (2 p ps t)
  then obtain i u v where s: "tr_tagname p t = Inr (i, u)" "tr_emit [(Co_ALWAYS, Op_OUTPUT_OPEN, i)] u = Inr v"
    "open_tags ps v = Inr t'" by (auto simp: rbind_eq_Inr_iff)
  with 2 open_tag_inv [OF s(1,2)] show ?case by simp
qed simp

lemma into_inv:
  assumes "tr_inv 0 t"
  shows "begin_INTO_block_name n t = Inr t' \<Longrightarrow> tr_inv 0 t'" "begin_INTO_block path t = Inr t' \<Longrightarrow> tr_inv 0 t'"
    "end_INTO_block t = Inr t' \<Longrightarrow> tr_inv 0 t'" "begin_loop_INTO_block path t = Inr t' \<Longrightarrow> tr_inv 0 t'"
    "end_loop_INTO_block t = Inr t' \<Longrightarrow> tr_inv 0 t'" "begin_loop_element t = Inr t' \<Longrightarrow> tr_inv 0 t'"
    "end_loop_element t = Inr t' \<Longrightarrow> tr_inv 0 t'"
  using assms open_tags_inv open_tag_inv emit_inv [OF _ assms]
  by (auto simp: begin_INTO_block_name_def begin_INTO_block_def end_INTO_block_def begin_loop_INTO_block_def
      end_loop_INTO_block_def begin_loop_element_def end_loop_element_def rbind_eq_Inr_iff emits split: if_splits)

text \<open>Arguments\<close>

lemma argument_context_inv: "argument_context pop t = Inr t' \<Longrightarrow> tr_inv k t \<Longrightarrow> tr_inv k t'"
  by (auto simp: argument_context_def Let_def split: list.splits)

text \<open>Instructions with an argument that was just put into its table, behind one that selects a set.\<close>

lemma emit_argument:
  assumes "tr_emit (sel @ [(cc, opc, i)]) t = Inr t'" and "tr_inv 1 t" and "argument_reference (tr_main t) at i \<noteq> None"
    and "argumentType opc = Inr at" and "opc \<in> set opcodes" and "opc \<noteq> Op_GOTO"
    and "sel = [] \<or> (\<exists>n x. select_instruction n t = Inr x \<and> sel = [x])"
  shows "tr_inv 0 t'"
proof (rule emit_inv [OF assms(1,2)])
  have "emits_ok t sel" using assms(7) select_instruction_ok [OF _ assms(2)] by (auto simp: emits_ok_def)
  then show "emits_ok t (sel @ [(cc, opc, i)])"
    using assms(3-6) by (fastforce simp: emits)
qed simp

lemma emit_path:
  assumes "tr_path s t = Inr (i, u)" and "tr_emit [(cc, opc, i)] u = Inr t'" and "tr_inv 0 t"
    and "argumentType opc = Inr At_Path" and "opc \<in> set opcodes" and "opc \<noteq> Op_GOTO"
  shows "tr_inv 0 t'"
  using emit_argument [of "[]" cc opc i u t'] tr_path_inv [OF assms(1,3)] assms by simp

lemma emit_constant:
  assumes "tr_constant v t = (i, u)" and "tr_emit [(cc, opc, i)] u = Inr t'" and "tr_inv 0 t"
    and "argumentType opc = Inr At_Constant" and "opc \<in> set opcodes" and "opc \<noteq> Op_GOTO"
  shows "tr_inv 0 t'"
  using emit_argument [of "[]" cc opc i u t'] tr_constant_inv [OF assms(1,3)] assms by simp

lemma emit_column:
  assumes "tr_colname n t = Inr (i, u)" and "tr_emit (sel @ [(cc, opc, i)]) u = Inr t'" and "tr_inv 0 t"
    and "argumentType opc = Inr At_ColumnName" and "opc \<in> set opcodes" and "opc \<noteq> Op_GOTO"
    and "sel = [] \<or> (\<exists>n x. select_instruction n u = Inr x \<and> sel = [x])"
  shows "tr_inv 0 t'"
  using emit_argument [OF assms(2) tr_colname_inv [OF assms(1,3)] assms(4-7)] .

lemma emit_selected_column:
  assumes "tr_colname n t = Inr (i, u)" and "select_instruction s u = Inr sel" and "tr_emit [sel, (cc, opc, i)] u = Inr t'"
    and "tr_inv 0 t" and "argumentType opc = Inr At_ColumnName" and "opc \<in> set opcodes" and "opc \<noteq> Op_GOTO"
  shows "tr_inv 0 t'"
  by (rule emit_column [OF assms(1) _ assms(4-7), of "[sel]"]) (use assms(2,3) in \<open>auto simp del: split_paired_Ex\<close>)

lemma emit_selected:
  assumes "select_instruction n t = Inr sel" and "tr_emit [sel, (cc, opc, i)] t = Inr t'" and "tr_inv 0 t"
    and "argumentType opc = Inr At_SelectedColumnIdx" and "opc \<in> set opcodes" and "opc \<noteq> Op_GOTO"
  shows "tr_inv 0 t'"
  by (rule emit_argument [of "[sel]" cc opc i t t' At_SelectedColumnIdx])
     (use tr_inv_mono [OF assms(3), of 1] assms in \<open>auto simp del: split_paired_Ex\<close>)

lemma push_inv:
  assumes "tr_inv 0 t"
  shows "push_ARGUMENT_LOOPCNT t = Inr t' \<Longrightarrow> tr_inv 0 t'" "push_ARGUMENT_PATH s t = Inr t' \<Longrightarrow> tr_inv 0 t'"
    "push_ARGUMENT_CONST v t = Inr t' \<Longrightarrow> tr_inv 0 t'" "push_ARGUMENT_TUPLESET_idx s i t = Inr t' \<Longrightarrow> tr_inv 0 t'"
    "push_ARGUMENT_TUPLESET_name s n t = Inr t' \<Longrightarrow> tr_inv 0 t'" "push_ARGUMENT_ITER_idx i t = Inr t' \<Longrightarrow> tr_inv 0 t'"
    "push_ARGUMENT_ITER_name n t = Inr t' \<Longrightarrow> tr_inv 0 t'"
proof -
  note inv = argument_context_inv [OF _ assms]
  show "push_ARGUMENT_LOOPCNT t = Inr t' \<Longrightarrow> tr_inv 0 t'"
    by (auto simp: push_ARGUMENT_LOOPCNT_def rbind_eq_Inr_iff emits dest!: inv context_call_Inr elim!: emit_inv)
  show "push_ARGUMENT_PATH s t = Inr t' \<Longrightarrow> tr_inv 0 t'"
    by (auto simp: push_ARGUMENT_PATH_def rbind_eq_Inr_iff dest!: inv context_call_Inr elim!: emit_path)
  show "push_ARGUMENT_CONST v t = Inr t' \<Longrightarrow> tr_inv 0 t'"
    by (auto simp: push_ARGUMENT_CONST_def rbind_eq_Inr_iff case_prod_beta dest!: inv context_call_Inr
        intro: emit_constant [OF prod.collapse [symmetric]])
  show "push_ARGUMENT_TUPLESET_idx s i t = Inr t' \<Longrightarrow> tr_inv 0 t'"
    by (auto simp: push_ARGUMENT_TUPLESET_idx_def rbind_eq_Inr_iff dest!: inv context_call_Inr elim: emit_selected)
  show "push_ARGUMENT_ITER_idx i t = Inr t' \<Longrightarrow> tr_inv 0 t'"
    by (auto simp: push_ARGUMENT_ITER_idx_def rbind_eq_Inr_iff emits dest!: inv context_call_Inr elim!: emit_inv)
  show "push_ARGUMENT_ITER_name n t = Inr t' \<Longrightarrow> tr_inv 0 t'"
    by (auto simp: push_ARGUMENT_ITER_name_def rbind_eq_Inr_iff dest!: inv context_call_Inr elim!: emit_column [where sel = "[]", simplified])
  show "push_ARGUMENT_TUPLESET_name s n t = Inr t' \<Longrightarrow> tr_inv 0 t'"
    by (auto simp: push_ARGUMENT_TUPLESET_name_def rbind_eq_Inr_iff dest!: inv context_call_Inr
        elim!: emit_selected_column)
qed

lemma addArgument_inv: "addArgument sel r t = Inr t' \<Longrightarrow> tr_inv 0 t \<Longrightarrow> tr_inv 0 t'"
  by (auto simp: addArgument_def Let_def rbind_eq_Inr_iff split: element_reference.splits if_splits dest: push_inv)

lemma addArguments_inv: "addArguments sel rs t = Inr t' \<Longrightarrow> tr_inv 0 t \<Longrightarrow> tr_inv 0 t'"
  by (induction sel rs t rule: addArguments.induct) (auto simp: rbind_eq_Inr_iff dest: addArgument_inv)

lemma addHints_inv: "addHints hs t = Inr t' \<Longrightarrow> tr_inv 0 t \<Longrightarrow> tr_inv 0 t'"
  by (induction hs t rule: addHints.induct) (auto simp: rbind_eq_Inr_iff dest: statement_HINT_inv)

section \<open>Subroutine calls\<close>

lemma substitute_all_length: "substitute_all ns vs ss = Inr ss' \<Longrightarrow> length ss' = length ss"
  by (induction ns vs ss arbitrary: ss' rule: substitute_all.induct) (auto simp: rbind_eq_Inr_iff)

lemma valid_statements:
  assumes "valid_program p" and "length ss = length (p_statements p)"
  shows "valid_program (p\<lparr>p_statements := ss\<rparr>)"
proof -
  have "keeps_tables p (p\<lparr>p_statements := ss\<rparr>)"
    unfolding keeps_tables_def using assms(2)
    by (auto simp: argument_reference_def nth_opt_def split: argument_type.splits if_splits)
  from keeps_resolved [OF this] assms show ?thesis
    by (auto simp: valid_program_def program_wf_def refs_ok_resolved jumps_inside_def tables_ok_def bounded_def table_sizes_def)
qed

lemma substituteStatementTemplates_valid:
  assumes "substituteStatementTemplates vs sr = Inr sr'" and "valid_program (sr_program sr)"
  shows "valid_program (sr_program sr')"
  using assms
  by (auto simp: substituteStatementTemplates_def rbind_eq_Inr_iff dest!: substitute_all_length
      intro!: valid_statements split: if_splits)

text \<open>Linking: a program that is short enough after linking is valid.\<close>

lemma patchCode_length: "patchCode at n pm c = Inr c' \<Longrightarrow> length c' = length c"
proof -
  have "patch_instructions at pm ws = Inr ws' \<Longrightarrow> length ws' = length ws" for ws ws'
    by (induction at pm ws arbitrary: ws' rule: patch_instructions.induct) (auto simp: rbind_eq_Inr_iff)
  then show "patchCode at n pm c = Inr c' \<Longrightarrow> length c' = length c"
    by (auto simp: patchCode_def rbind_eq_Inr_iff split: if_splits)
qed

lemma program_add_length: "program_add oth d p = Inr q \<Longrightarrow> length (p_code q) = length (p_code p) + length (p_code oth)"
  by (auto simp: program_add_def Let_def joinVectors_def hint_join_def program_code_append_def rbind_eq_Inr_iff
      dest!: patchCode_length split: if_splits)

lemma joined_bounded:
  assumes "joined_program oth p tagpm respm colpm q" and "bounded n oth" and "bounded m p"
  shows "bounded (n + m) q"
proof -
  obtain qs where "ps_pathar (p_pathset q) = ps_pathar (p_pathset p) @ qs" "length qs = length (ps_pathar (p_pathset oth))"
    using assms(1) by (auto simp: joined_program_def joined_pathes_def dest: list_all2_lengthD)
  with assms show ?thesis
    by (auto simp: joined_program_def joined_names_def bounded_def table_sizes_def)
qed

text \<open>A program whose jumps may lead out of it, before it is finished.\<close>

definition fitting :: "vm_program \<Rightarrow> bool" where
  "fitting p \<longleftrightarrow> refs_ok p \<and> bounded (length (p_code p)) p"

lemma valid_fitting: "valid_program p \<longleftrightarrow> fitting p \<and> gotos (length (p_code p)) (p_code p)"
  using address_opcode by (auto simp: valid_program_def fitting_def program_wf_def jumps_inside_def gotos_def refs_ok_def)

lemma program_add_bounded:
  assumes add: "program_add oth d p = Inr q" and "fitting oth" "fitting p" "d \<Longrightarrow> jumps_inside oth"
    and small: "length (p_code q) \<le> Max_ArgumentIndex"
  shows "program_fits oth p" and "bounded (length (p_code q)) q"
proof -
  have len: "length (p_code q) = length (p_code p) + length (p_code oth)" by (rule program_add_length [OF add])
  show fits: "program_fits oth p"
    using bounded_fits [of oth p] assms small len by (simp add: fitting_def add.commute)
  obtain tagpm respm colpm where "joined_program oth p tagpm respm colpm q"
    using program_add_joined [of oth p d] fits assms by (auto simp: fitting_def)
  then show "bounded (length (p_code q)) q"
    using joined_bounded [of oth p _ _ _ q "length (p_code oth)" "length (p_code p)"] assms(2,3)
    unfolding fitting_def len by (simp add: add.commute)
qed

text \<open>The instruction \<open>w'\<close> is \<open>w\<close> in code that was moved by \<open>k\<close>, as far as jumps are concerned.\<close>

definition moved :: "nat \<Rightarrow> 32 word \<Rightarrow> 32 word \<Rightarrow> bool" where
  "moved k w w' \<longleftrightarrow> opCode w' = opCode w \<and> (opCode w = Op_GOTO \<longrightarrow> argumentIndex w' = k + argumentIndex w)"

lemma moved_gotos:
  assumes "list_all2 (moved k) us ws" and "gotos n us" and "w \<in> set ws" and "opCode w = Op_GOTO"
  shows "k \<le> argumentIndex w \<and> argumentIndex w \<le> k + n"
  using assms by (induction arbitrary: w rule: list_all2_induct) (auto simp: moved_def gotos_def)

lemma program_add_fitting:
  assumes add: "program_add oth True p = Inr q" and oth: "valid_program oth" and p: "fitting p"
    and small: "length (p_code q) \<le> Max_ArgumentIndex"
  obtains ws where "fitting q" and "p_code q = p_code p @ ws" and "list_all2 (moved (length (p_code p))) (p_code oth) ws"
proof -
  have wf: "refs_ok oth" "refs_ok p" "jumps_inside oth" "fitting oth"
    using oth p by (simp_all add: valid_program_def program_wf_def fitting_def)
  note fits = program_add_bounded [OF add wf(4) p wf(3) small]
  obtain ws where q: "refs_ok q" "p_code q = p_code p @ ws"
    "list_all2 (\<lambda>w w'. condCode w' = condCode w \<and> opCode w' = opCode w \<and> instruction_reference q w' =
        map_option (relocate (length (p_code p))) (instruction_reference oth w)) (p_code oth) ws"
    using program_add_links [OF wf(1,2) fits(1), of True] wf(3) add by auto
  have "list_all2 (moved (length (p_code p))) (p_code oth) ws"
    using q(3) by (rule list_all2_mono) (auto simp: moved_def goto_address)
  with q fits(2) that show ?thesis by (simp add: fitting_def)
qed

lemma program_add_valid:
  assumes "program_add oth True p = Inr q" and "valid_program oth" and "valid_program p"
    and "length (p_code q) \<le> Max_ArgumentIndex"
  shows "valid_program q"
proof -
  have p: "fitting p" "gotos (length (p_code p)) (p_code p)" "gotos (length (p_code oth)) (p_code oth)"
    using assms(2,3) by (simp_all add: valid_fitting)
  obtain ws where ws: "fitting q" "p_code q = p_code p @ ws" "list_all2 (moved (length (p_code p))) (p_code oth) ws"
    using program_add_fitting [OF assms(1,2) p(1) assms(4)] by blast
  then show ?thesis
    using p(2) moved_gotos [OF ws(3) p(3)] list_all2_lengthD [OF ws(3)] by (fastforce simp: valid_fitting gotos_def)
qed

lemma patchCode_prefix:
  assumes "patchCode at n pm c = Inr c'" and "i < n"
  shows "c' ! i = c ! i"
  using assms by (auto simp: patchCode_def rbind_eq_Inr_iff nth_append split: if_splits)

lemma program_add_prefix:
  assumes "program_add oth d p = Inr q" and "i < length (p_code p)"
  shows "p_code q ! i = p_code p ! i"
  using assms(1) patchCode_prefix [OF _ assms(2)] assms(2)
  by (auto simp: program_add_def Let_def joinVectors_def hint_join_def program_code_append_def rbind_eq_Inr_iff nth_append
      split: if_splits)

lemma starts_with_jump_add:
  assumes "program_add oth d p = Inr q" and "starts_with_jump p"
  shows "starts_with_jump q"
proof -
  have "p_code p \<noteq> []" using assms(2) by (simp add: starts_with_jump_def)
  moreover then have "p_code q \<noteq> []" using program_add_length [OF assms(1)] by auto
  ultimately have "hd (p_code q) = hd (p_code p)" using program_add_prefix [OF assms(1), of 0] by (simp add: hd_conv_nth)
  with assms(2) \<open>p_code q \<noteq> []\<close> show ?thesis by (simp add: starts_with_jump_def)
qed

lemma instantiate_subroutine_inv:
  assumes "instantiate_subroutine name vals mangled sr t = Inr (i, t')" and "tr_inv 0 t" and "valid_program (sr_program sr)"
  shows "tr_inv 0 t'"
proof -
  obtain sr' sub where add: "program_add (sr_program sr') True (tr_sub_program t) = Inr sub"
    and sr': "valid_program (sr_program sr')"
    and t': "t' = t\<lparr>tr_calledSubroutines := tr_calledSubroutines t @
        [\<lparr>cs_address = length (p_code (tr_sub_program t)), cs_subroutine = sr', cs_mangledName = mangled\<rparr>],
      tr_sub_program := sub\<rparr>"
    using assms(1,3) substituteStatementTemplates_valid [OF _ assms(3)]
    by (auto simp: instantiate_subroutine_def rbind_eq_Inr_iff Let_def split: if_splits)
  note len = program_add_length [OF add]
  have c: "calls_ok t" using assms(2) by (simp add: tr_inv_def)
  have "valid_program sub" if "length (p_code sub) \<le> Max_ArgumentIndex"
    using program_add_valid [OF add sr' _ that] c that len by (simp add: calls_ok_def)
  then have "calls_ok t'"
    using c starts_with_jump_add [OF add] len by (fastforce simp: calls_ok_def t')
  with assms(2) len show ?thesis by (auto simp: tr_inv_def t' intro: gotos_mono)
qed

lemma begin_DO_subroutine_inv:
  assumes "begin_DO_subroutine name vals sel t = Inr t'" and "tr_inv 0 t"
  shows "tr_inv 0 t'"
proof -
  obtain sr where sr: "keymap_find name (tr_subroutinemap t) = Some sr"
    using assms(1) by (auto simp: begin_DO_subroutine_def split: option.splits)
  obtain i u called v where u: "(i, u) = (i, t) \<or> instantiate_subroutine name vals (mangledSubroutineName name vals sel) sr t = Inr (i, u)"
    and e: "tr_emit [(Co_ALWAYS, Op_SUB_FRAME_OPEN, length (p_signatures (tr_main u)))]
        (u\<lparr>tr_main := (tr_main u)\<lparr>p_signatures := p_signatures (tr_main u) @ [sr_params (cs_subroutine (called :: called_subroutine))]\<rparr>\<rparr>) = Inr v"
    and t': "t' = tr_push OpenSubroutineCall i v"
    using assms(1) sr by (auto simp: begin_DO_subroutine_def Let_def rbind_eq_Inr_iff split: option.splits)
  have "valid_program (sr_program sr)"
    using sr assms(2) by (auto simp: keymap_find_def tr_inv_def calls_ok_def dest!: map_of_SomeD)
  then have u: "tr_inv 0 u" using u instantiate_subroutine_inv [OF _ assms(2)] assms(2) by auto
  let ?p = "(tr_main u)\<lparr>p_signatures := p_signatures (tr_main u) @ [sr_params (cs_subroutine called)]\<rparr>"
  note tabs = tr_inv_tables [OF u]
  have "keeps_tables (tr_main u) ?p"
    unfolding keeps_tables_def by (auto simp: argument_reference_def nth_opt_def split: argument_type.splits if_splits)
  then have "tr_inv 1 (u\<lparr>tr_main := ?p\<rparr>)"
    by (rule table_inv [OF u]) (use tabs in \<open>auto simp: tables_ok_def bounded_def table_sizes_def\<close>)
  from emit_inv [OF e this] show ?thesis by (simp add: t' emits argument_reference_def nth_opt_def)
qed

lemma end_DO_subroutine_inv:
  assumes "end_DO_subroutine t = Inr t'" and "tr_inv 0 t"
  shows "tr_inv 0 t'"
proof -
  obtain i u where c: "i < length (tr_calledSubroutines t)"
    and e: "tr_emit [(Co_ALWAYS, Op_SUB_FRAME_CLOSE, 0), (Co_ALWAYS, Op_GOTO, cs_address (tr_calledSubroutines t ! i))] t = Inr u"
    and t': "t' = count_command (tr_pop u)"
    using assms(1) by (auto simp: end_DO_subroutine_def rbind_eq_Inr_iff at_or_Inr_iff split: if_splits)
  have "cs_address (tr_calledSubroutines t ! i) \<le> length (p_code (tr_sub_program t))"
    using c assms(2) by (auto simp: tr_inv_def calls_ok_def)
  with emit_inv [OF e assms(2)] show ?thesis by (simp add: t' emits)
qed

section \<open>Commands\<close>

lemma tr_when_inv: "tr_when b f t = Inr t' \<Longrightarrow> tr_inv 0 t \<Longrightarrow> (f t = Inr t' \<Longrightarrow> tr_inv 0 t') \<Longrightarrow> tr_inv 0 t'"
  by (auto simp: tr_when_def split: if_splits)

lemma addResultOutput_inv: "addResultOutput cmd t = Inr t' \<Longrightarrow> tr_inv 0 t \<Longrightarrow> tr_inv 0 t'"
  by (auto simp: addResultOutput_def Let_def rbind_eq_Inr_iff split: if_splits dest: into_inv output_statement_result_inv)

lemma addEmbedded_inv:
  assumes "addEmbedded cmd t = Inr t'" and "tr_inv 0 t"
  shows "tr_inv 0 t'"
proof -
  obtain t1 t2 t3 t4 t5 t6 where s: "tr_when (cd_selector cmd \<noteq> []) (begin_FOREACH (cd_selector cmd)) t = Inr t1"
    "begin_DO_statement (es_stmstring (cd_statement cmd)) t1 = Inr t2" "addHints (cd_hints cmd) t2 = Inr t3"
    "addArguments (cd_selector cmd) (es_params (cd_statement cmd)) t3 = Inr t4" "end_DO_statement t4 = Inr t5"
    "tr_when (cd_selector cmd \<noteq> []) end_FOREACH t5 = Inr t6" "addResultOutput cmd t6 = Inr t'"
    using assms(1) by (auto simp: addEmbedded_def Let_def rbind_eq_Inr_iff)
  have "tr_inv 0 t1" using tr_when_inv [OF s(1) assms(2)] begin_FOREACH_inv assms(2) by blast
  then have "tr_inv 0 t2" using begin_DO_statement_inv [OF s(2)] by blast
  then have "tr_inv 0 t4" using addArguments_inv [OF s(4)] addHints_inv [OF s(3)] by blast
  then have "tr_inv 0 t5" using end_DO_statement_inv [OF s(5)] by blast
  then have "tr_inv 0 t6" using tr_when_inv [OF s(6)] end_FOREACH_inv by blast
  then show ?thesis by (rule addResultOutput_inv [OF s(7)])
qed

lemma addCall_inv:
  assumes "addCall cmd t = Inr t'" and "tr_inv 0 t"
  shows "tr_inv 0 t'"
proof -
  let ?loop = "cd_selector cmd \<noteq> []" and ?path = "cd_resultpath cmd"
  let ?into = "?path \<noteq> [] \<and> ?path \<noteq> [''.'']"
  obtain t1 t2 t3 t4 t5 t6 t7 t8 sel where s:
    "tr_when ?into (if ?loop then begin_loop_INTO_block ?path else begin_INTO_block ?path) t = Inr t1"
    "tr_when ?loop (begin_FOREACH (cd_selector cmd)) t1 = Inr t2" "tr_when (?into \<and> ?loop) begin_loop_element t2 = Inr t3"
    "begin_DO_subroutine (sc_name (cd_call cmd)) (sc_templateparams (cd_call cmd)) sel t3 = Inr t4"
    "addArguments (cd_selector cmd) (sc_params (cd_call cmd)) t4 = Inr t5" "end_DO_subroutine t5 = Inr t6"
    "tr_when (?into \<and> ?loop) end_loop_element t6 = Inr t7" "tr_when ?loop end_FOREACH t7 = Inr t8"
    "tr_when ?into (if ?loop then end_loop_INTO_block else end_INTO_block) t8 = Inr t'"
    using assms(1) unfolding addCall_def Let_def rbind_eq_Inr_iff by metis
  have "tr_inv 0 t1" by (rule tr_when_inv [OF s(1) assms(2)]) (use assms(2) in \<open>auto split: if_splits dest: into_inv\<close>)
  then have t2: "tr_inv 0 t2" using tr_when_inv [OF s(2)] begin_FOREACH_inv by blast
  have "tr_inv 0 t3" by (rule tr_when_inv [OF s(3) t2]) (use t2 in \<open>auto dest: into_inv\<close>)
  then have "tr_inv 0 t4" by (rule begin_DO_subroutine_inv [OF s(4)])
  then have t6: "tr_inv 0 t6" using end_DO_subroutine_inv [OF s(6)] addArguments_inv [OF s(5)] by blast
  have "tr_inv 0 t7" by (rule tr_when_inv [OF s(7) t6]) (use t6 in \<open>auto dest: into_inv\<close>)
  then have t8: "tr_inv 0 t8" using tr_when_inv [OF s(8)] end_FOREACH_inv by blast
  show ?thesis by (rule tr_when_inv [OF s(9) t8]) (use t8 in \<open>auto split: if_splits dest: into_inv\<close>)
qed

lemma command_inv:
  assumes "programAddCommandDefinition cmd t = Inr t'" and "tr_inv 0 t"
  shows "tr_inv 0 t'"
proof -
  obtain t1 t2 t3 where s: "init_resultset t = Inr t1" "tr_when (cd_nonempty cmd) define_resultset_nonempty t1 = Inr t2"
    "tr_when (cd_unique cmd) define_resultset_unique t2 = Inr t3"
    "(if cd_embedded cmd then addEmbedded cmd t3 else addCall cmd t3) = Inr t'"
    using assms(1) by (auto simp: programAddCommandDefinition_def rbind_eq_Inr_iff)
  have t1: "tr_inv 0 t1" using s(1) assms(2) by (auto dest: resultset_inv)
  have t2: "tr_inv 0 t2" by (rule tr_when_inv [OF s(2) t1]) (use t1 in \<open>auto dest: resultset_inv\<close>)
  have "tr_inv 0 t3" by (rule tr_when_inv [OF s(3) t2]) (use t2 in \<open>auto dest: resultset_inv\<close>)
  with s(4) show ?thesis by (auto split: if_splits dest: addEmbedded_inv addCall_inv)
qed

section \<open>Finished programs\<close>

lemma relocate_main_length: "relocate_main n prev ws = Inr ws' \<Longrightarrow> length ws' = length ws"
  by (induction n prev ws arbitrary: ws' rule: relocate_main.induct) (auto simp: rbind_eq_Inr_iff)

text \<open>The program that the main program is added to, with its length.\<close>

definition segment :: "translator \<Rightarrow> (nat \<times> vm_program) result" where
  "segment t = (if length (p_code (tr_sub_program t)) > 1
     then rbind (instruction Co_ALWAYS Op_GOTO (of_nat (length (p_code (tr_sub_program t))))) (\<lambda>jump.
       Inr (length (p_code (tr_sub_program t)), (tr_sub_program t)\<lparr>p_code := (p_code (tr_sub_program t))[0 := jump]\<rparr>))
     else Inr (0, vm_program_new))"

text \<open>The steps of \<^verbatim>\<open>createProgram\<close> when it returns.\<close>

lemma createProgram_steps:
  assumes "createProgram r t = Inr prg"
  obtains start seg q ws c where "segment t = Inr (start, seg)"
    and "program_add (tr_main t) False seg = Inr q" and "relocate_main start Op_NOP (drop start (p_code q)) = Inr ws"
    and "emit_all (if r then [(Co_ALWAYS, Op_RETURN, 0)] else []) (take start (p_code q) @ ws) = Inr c"
    and "prg = q\<lparr>p_code := c\<rparr>"
proof -
  have "rbind (segment t) (\<lambda>(start, rt).
     rbind (program_add (tr_main t) False rt) (\<lambda>rt.
     rbind (relocate_main start Op_NOP (drop start (p_code rt))) (\<lambda>ws.
     rbind (emit_all (if r then [(Co_ALWAYS, Op_RETURN, 0)] else []) (take start (p_code rt) @ ws)) (\<lambda>c.
       Inr (rt\<lparr>p_code := c\<rparr>))))) = Inr prg"
    using assms unfolding createProgram_def Let_def segment_def [symmetric]
    by (cases r) (auto simp: rbind_eq_Inr_iff split: if_splits simp del: emit_all.simps(2))
  then show ?thesis by (auto simp: rbind_eq_Inr_iff simp del: emit_all.simps(2) intro!: that)
qed

lemma segment_length: "segment t = Inr (start, seg) \<Longrightarrow> start = main_start t \<and> length (p_code seg) = start"
  by (auto simp: segment_def main_start_def Let_def rbind_eq_Inr_iff vm_program_new_def split: if_splits)

lemma createProgram_length:
  assumes "createProgram r t = Inr prg"
  shows "length (p_code prg) = main_start t + length (p_code (tr_main t)) + (if r then 1 else 0)"
    and "r \<Longrightarrow> length (p_code prg) \<le> Max_ArgumentIndex"
proof -
  obtain start seg q ws c where s: "segment t = Inr (start, seg)"
    "program_add (tr_main t) False seg = Inr q" "relocate_main start Op_NOP (drop start (p_code q)) = Inr ws"
    "emit_all (if r then [(Co_ALWAYS, Op_RETURN, 0)] else []) (take start (p_code q) @ ws) = Inr c"
    "prg = q\<lparr>p_code := c\<rparr>"
    by (rule createProgram_steps [OF assms])
  then show "length (p_code prg) = main_start t + length (p_code (tr_main t)) + (if r then 1 else 0)"
    using segment_length [OF s(1)] program_add_length [OF s(2)] relocate_main_length [OF s(3)] emit_all_length [OF s(4)]
    by simp
  show "r \<Longrightarrow> length (p_code prg) \<le> Max_ArgumentIndex"
    using s(4,5) by (auto simp: rbind_eq_Inr_iff program_code_emit_def program_code_add_def Let_def split: if_splits)
qed

text \<open>The segment of the subroutines in front of the main program.\<close>

lemma segment_fitting:
  assumes "segment t = Inr (start, seg)" and "calls_ok t" and "length (p_code (tr_sub_program t)) \<le> Max_ArgumentIndex"
  shows "fitting seg" and "gotos start (p_code seg)"
proof -
  let ?sub = "tr_sub_program t"
  have c: "starts_with_jump ?sub" "refs_ok ?sub" "valid_program ?sub"
    using assms(2,3) by (simp_all add: calls_ok_def valid_program_def program_wf_def)
  obtain seg' where seg: "segment t = Inr (main_start t, seg')" "refs_ok seg'" "length (p_code seg') = main_start t"
    "main_start t > 0 \<longrightarrow> (\<exists>jump. seg' = ?sub\<lparr>p_code := jump # tl (p_code ?sub)\<rparr>
       \<and> decode jump = (Co_ALWAYS, Op_GOTO, main_start t))"
    "main_start t = 0 \<longrightarrow> seg' = vm_program_new"
    by (rule segment_ok [OF c(1,2) assms(3), folded segment_def])
  then have e: "seg' = seg" "start = main_start t" using assms(1) by simp_all
  show "fitting seg"
  proof (cases "main_start t = 0")
    case True
    with seg e show ?thesis by (simp add: fitting_def bounded_def table_sizes_def vm_program_new_def nt_new_def ps_new_def)
  next
    case False
    then have "length (p_code ?sub) = main_start t" by (auto simp: main_start_def Let_def split: if_splits)
    with False seg e c(3) show ?thesis by (auto simp: fitting_def valid_program_def)
  qed
  show "gotos start (p_code seg)"
  proof (cases "main_start t = 0")
    case False
    then have "length (p_code ?sub) = main_start t" by (auto simp: main_start_def Let_def split: if_splits)
    moreover have "set (tl (p_code ?sub)) \<subseteq> set (p_code ?sub)" by (cases "p_code ?sub") auto
    ultimately show ?thesis using False seg(4) e c(3) by (auto simp: gotos_def valid_fitting decode_def dest!: subsetD)
  qed (use seg e in \<open>simp add: gotos_def\<close>)
qed

lemma move_jumps_targets:
  "local_jumps n m prev is \<Longrightarrow> (cc, Op_GOTO, a) \<in> set (move_jumps k prev is) \<Longrightarrow> (cc, Op_GOTO, a) \<in> set is \<or> a \<le> m + k"
  by (induction k prev "is" rule: move_jumps.induct) (auto split: if_splits)

lemma relocated_fitting:
  assumes "relocate_main start Op_NOP ws = Inr ws'" and "local_jumps 0 m Op_NOP (map decode ws)" and "gotos n ws"
    and "\<forall>w \<in> set ws. opCode w \<in> set opcodes \<and> instruction_reference q w \<noteq> None" and "m + start \<le> Max_ArgumentIndex"
  shows "\<forall>w \<in> set ws'. opCode w \<in> set opcodes \<and> instruction_reference q w \<noteq> None" and "gotos (max n (m + start)) ws'"
proof -
  have r: "map decode ws' = move_jumps start Op_NOP (map decode ws)"
    "list_all2 (\<lambda>w w'. opCode w \<noteq> Op_GOTO \<longrightarrow> w' = w) ws ws'"
    using relocate_main_ok [OF _ assms(2,5)] assms(1,4) by auto
  have l: "length ws' = length ws" using r(2) by (simp add: list_all2_lengthD)
  show "\<forall>w \<in> set ws'. opCode w \<in> set opcodes \<and> instruction_reference q w \<noteq> None"
  proof
    fix w assume "w \<in> set ws'"
    then obtain i where i: "i < length ws" "w = ws' ! i" using l by (auto simp: in_set_conv_nth)
    have "opCode (ws' ! i) = opCode (ws ! i)"
      using arg_cong [OF r(1), of "\<lambda>xs. fst (snd (xs ! i))"] i(1) l
      by (simp add: move_jumps_nth Let_def decode_def)
    then show "opCode w \<in> set opcodes \<and> instruction_reference q w \<noteq> None"
      using r(2) i l assms(4) goto_reference [of w q] by (cases "opCode w = Op_GOTO") (auto simp: list_all2_conv_all_nth)
  qed
  show "gotos (max n (m + start)) ws'"
    unfolding gotos_def
  proof (intro ballI impI)
    fix w assume w: "w \<in> set ws'" "opCode w = Op_GOTO"
    then have "(condCode w, Op_GOTO, argumentIndex w) \<in> set (move_jumps start Op_NOP (map decode ws))"
      unfolding r(1) [symmetric] by (force simp: decode_def)
    from move_jumps_targets [OF assms(2) this] show "argumentIndex w \<le> max n (m + start)"
      using assms(3) by (auto simp: gotos_def decode_def)
  qed
qed

lemma same_jumps_gotos: "list_all2 same_jumps ws ws' \<Longrightarrow> gotos n ws \<Longrightarrow> gotos n ws'"
  by (induction rule: list_all2_induct) (auto simp: same_jumps_def gotos_def)

lemma return_code:
  assumes "emit_all (if r then [(Co_ALWAYS, Op_RETURN, 0)] else []) c = Inr cs"
  shows "\<exists>rs. cs = c @ rs \<and> (\<forall>w \<in> set rs. opCode w = Op_RETURN)"
proof -
  obtain rs where "cs = c @ rs" "encodes (if r then [(Co_ALWAYS, Op_RETURN, 0)] else []) rs"
    using emit_all_encodes [OF assms] by blast
  moreover then have "\<forall>w \<in> set rs. opCode w = Op_RETURN"
    by (auto simp: decode_def dest!: instruction_decode split: if_splits)
  ultimately show ?thesis by blast
qed

lemma return_reference: "opCode w = Op_RETURN \<Longrightarrow> instruction_reference p w \<noteq> None"
  by (simp add: instruction_reference_def argument_reference_def argumentType_def argumentType_table_def
      array_read_def at_or_def)

text \<open>The parts of a finished program: the segment of the subroutines, the main program with its jumps moved, and the
  RETURN.\<close>

lemma createProgram_parts:
  assumes c: "createProgram r t = Inr prg" and t: "tr_inv 0 t" and small: "length (p_code prg) \<le> Max_ArgumentIndex"
  obtains seg q ms ws rs where "fitting seg" and "gotos (main_start t) (p_code seg)" and "length (p_code seg) = main_start t"
    and "bounded (length (p_code q)) q" and "refs_ok q" and "p_code q = p_code seg @ ms"
    and "list_all2 same_jumps (p_code (tr_main t)) ms" and "relocate_main (main_start t) Op_NOP ms = Inr ws"
    and "prg = q\<lparr>p_code := p_code seg @ ws @ rs\<rparr>" and "\<forall>w \<in> set rs. opCode w = Op_RETURN"
proof -
  let ?sub = "tr_sub_program t" and ?main = "tr_main t"
  obtain start seg q ws cs where s: "segment t = Inr (start, seg)"
    "program_add ?main False seg = Inr q" "relocate_main start Op_NOP (drop start (p_code q)) = Inr ws"
    "emit_all (if r then [(Co_ALWAYS, Op_RETURN, 0)] else []) (take start (p_code q) @ ws) = Inr cs"
    "prg = q\<lparr>p_code := cs\<rparr>"
    by (rule createProgram_steps [OF c])
  have len: "length (p_code prg) = start + length (p_code ?main) + (if r then 1 else 0)" "length (p_code seg) = start"
    "length (p_code q) = start + length (p_code ?main)" and start: "start = main_start t"
    using createProgram_length(1) [OF c] segment_length [OF s(1)] program_add_length [OF s(2)] by simp_all
  have "length (p_code ?sub) \<le> Max_ArgumentIndex"
    using small len start by (auto simp: main_start_def Let_def Max_ArgumentIndex_def BitCnt_ArgumentIndex_def split: if_splits)
  then have seg: "fitting seg" "gotos start (p_code seg)"
    using segment_fitting [OF s(1)] t by (auto simp: tr_inv_def)
  have main: "fitting ?main" using t by (simp add: tr_inv_def fitting_def)
  have q: "program_fits ?main seg" "bounded (length (p_code q)) q"
    using program_add_bounded [OF s(2) main seg(1)] small len by auto
  obtain ms where ms: "refs_ok q" "p_code q = p_code seg @ ms"
    "list_all2 (\<lambda>w w'. same_jumps w w' \<and> instruction_reference q w' = instruction_reference ?main w) (p_code ?main) ms"
    using add_main [OF _ _ q(1)] s(2) main seg(1) by (auto simp: fitting_def)
  have sj: "list_all2 same_jumps (p_code ?main) ms" using ms(3) by (rule list_all2_mono) simp
  have r: "relocate_main start Op_NOP ms = Inr ws" "take start (p_code q) = p_code seg" using s(3) ms(2) len by simp_all
  obtain rs where "cs = p_code seg @ ws @ rs" "\<forall>w \<in> set rs. opCode w = Op_RETURN"
    using return_code [OF s(4)] r(2) by auto
  with that [OF seg(1) _ _ q(2) ms(1,2) sj] seg(2) len(2) r(1) s(5) show ?thesis unfolding start by blast
qed

text \<open>\<^verbatim>\<open>createProgram\<close> makes a valid program of what the translator holds, when its code is not too long. With the final
  RETURN it always is short enough.\<close>

lemma createProgram_valid:
  assumes c: "createProgram r t = Inr prg" and t: "tr_inv 0 t" and jumps: "local_jumps 0 (length (p_code (tr_main t))) Op_NOP
      (map decode (p_code (tr_main t)))" and small: "length (p_code prg) \<le> Max_ArgumentIndex"
  shows "valid_program prg"
proof -
  let ?n = "length (p_code (tr_main t))" and ?start = "main_start t"
  let ?max = "max (length (p_code (tr_sub_program t))) ?n"
  obtain seg q ms ws rs where p: "fitting seg" "gotos ?start (p_code seg)" "length (p_code seg) = ?start"
    "bounded (length (p_code q)) q" "refs_ok q" "p_code q = p_code seg @ ms" "list_all2 same_jumps (p_code (tr_main t)) ms"
    "relocate_main ?start Op_NOP ms = Inr ws" "prg = q\<lparr>p_code := p_code seg @ ws @ rs\<rparr>" "\<forall>w \<in> set rs. opCode w = Op_RETURN"
    by (rule createProgram_parts [OF c t small])
  have len: "length ms = ?n" "length ws = ?n" "length (p_code prg) = ?start + ?n + length rs"
    using p(7) relocate_main_length [OF p(8)] p(3,9) by (auto dest: list_all2_lengthD)
  have g: "gotos ?max ms" using same_jumps_gotos [OF p(7)] t by (simp add: tr_inv_def)
  have j: "local_jumps 0 ?n Op_NOP (map decode ms)" using same_jumps_local [OF p(7)] jumps by simp
  have n: "\<forall>w \<in> set ms. opCode w \<in> set opcodes \<and> instruction_reference q w \<noteq> None"
    using p(5,6) by (simp add: refs_ok_def)
  have ws: "\<forall>w \<in> set ws. opCode w \<in> set opcodes \<and> instruction_reference q w \<noteq> None" "gotos (max ?max (?n + ?start)) ws"
    using relocated_fitting [OF p(8) j g n] small len(3) by simp_all
  have "max ?max (?n + ?start) \<le> length (p_code prg)" if "ws \<noteq> []"
  proof -
    have "Suc 0 \<le> ?n" using that len(2) by (cases ws) simp_all
    then show ?thesis using len(3) unfolding main_start_def Let_def by (simp split: if_splits)
  qed
  then have "gotos (length (p_code prg)) ws"
    using ws(2) by (cases "ws = []") (auto simp: gotos_def intro: order_trans)
  with p(2,9,10) len have "gotos (length (p_code prg)) (p_code prg)" by (auto simp: gotos_def)
  moreover have "\<forall>w \<in> set (p_code prg). opCode w \<in> set opcodes \<and> instruction_reference q w \<noteq> None"
    using p(5,6,9,10) ws(1) return_reference by (auto simp: refs_ok_def)
  moreover have "length (p_code q) \<le> length (p_code prg)" using len p(3,6) by simp
  ultimately show ?thesis
    using p(4,5,9) by (auto simp: valid_fitting fitting_def refs_ok_def intro: bounded_mono)
qed

text \<open>The jumps of the main program in the finished one.\<close>

lemma createProgram_jump:
  assumes c: "createProgram r t = Inr prg" and t: "tr_inv 0 t" and jumps: "local_jumps 0 (length (p_code (tr_main t))) Op_NOP
      (map decode (p_code (tr_main t)))" and small: "length (p_code prg) \<le> Max_ArgumentIndex"
    and i: "i < length (p_code (tr_main t))"
  shows "opCode (p_code prg ! (main_start t + i)) = opCode (p_code (tr_main t) ! i)"
    and "opCode (p_code (tr_main t) ! i) = Op_GOTO \<Longrightarrow> argumentIndex (p_code prg ! (main_start t + i)) =
      argumentIndex (p_code (tr_main t) ! i) +
      (if 0 < i \<and> opCode (p_code (tr_main t) ! (i - 1)) = Op_SUB_FRAME_CLOSE then 0 else main_start t)"
proof -
  let ?main = "p_code (tr_main t)" and ?start = "main_start t"
  obtain seg q ms ws rs where p: "length (p_code (seg :: vm_program)) = ?start" "refs_ok q" "p_code q = p_code seg @ ms"
    "list_all2 same_jumps ?main ms" "relocate_main ?start Op_NOP ms = Inr ws" "prg = q\<lparr>p_code := p_code seg @ ws @ rs\<rparr>"
    by (rule createProgram_parts [OF c t small])
  have len: "length ms = length ?main" "length ws = length ?main"
    using p(4) relocate_main_length [OF p(5)] by (auto dest: list_all2_lengthD)
  have j: "local_jumps 0 (length ?main) Op_NOP (map decode ms)" using same_jumps_local [OF p(4)] jumps by simp
  have "length ?main + ?start \<le> Max_ArgumentIndex" using small p(1,6) len by simp
  from relocate_main_ok [OF _ j this] have "map decode ws = move_jumps ?start Op_NOP (map decode ms)"
    using p(2,3,5) by (auto simp: refs_ok_def)
  then have "decode (ws ! i) = move_jumps ?start Op_NOP (map decode ms) ! i" using i len by (metis nth_map)
  moreover have "p_code prg ! (?start + i) = ws ! i" using p(1,6) i len by (simp add: nth_append)
  moreover have "same_jumps (?main ! i) (ms ! i)" "same_jumps (?main ! (i - 1)) (ms ! (i - 1))"
    using p(4) i len by (auto simp: list_all2_conv_all_nth)
  ultimately show "opCode (p_code prg ! (?start + i)) = opCode (?main ! i)"
    and "opCode (?main ! i) = Op_GOTO \<Longrightarrow> argumentIndex (p_code prg ! (?start + i)) = argumentIndex (?main ! i) +
      (if 0 < i \<and> opCode (?main ! (i - 1)) = Op_SUB_FRAME_CLOSE then 0 else ?start)"
    using i len by (auto simp: move_jumps_nth Let_def decode_def same_jumps_def split: if_splits)
qed

text \<open>A translator between two commands: nothing is open, and the jumps of its code stay inside.\<close>

definition main_jumps :: "translator \<Rightarrow> bool" where
  "main_jumps t \<longleftrightarrow> jumps_ok 0 (p_code (tr_main t))"

lemma main_jumps_appends: "appends t t' \<Longrightarrow> main_jumps t \<Longrightarrow> main_jumps t'"
  using jumps_ok_append [of 0 "p_code (tr_main t)"] by (auto simp: main_jumps_def appends_def)

lemma finished_program:
  assumes "createProgram r t = Inr prg" and "tr_inv 0 t" and "main_jumps t" and "length (p_code prg) \<le> Max_ArgumentIndex"
  shows "valid_program prg"
  using createProgram_valid [OF assms(1,2) _ assms(4)] assms(3) by (simp add: main_jumps_def jumps_ok_def)

lemma translator_new_inv:
  assumes "translator_new subs isSub = Inr t" and "\<forall>(n, sr) \<in> set subs. valid_program (sr_program sr)"
  shows "tr_inv 0 t" and "main_jumps t"
proof -
  obtain w where w: "instruction Co_ALWAYS Op_GOTO 0 = Inr w" "decode w = (Co_ALWAYS, Op_GOTO, 0)"
    using emit_instruction [of Op_GOTO 0 Co_ALWAYS] by auto
  then have t: "t = \<lparr>tr_stateStack = [], tr_subroutinemap = subs, tr_calledSubroutines = [],
      tr_sub_program = vm_program_new\<lparr>p_code := [w]\<rparr>, tr_main = vm_program_new, tr_isSubroutine = isSub, tr_nofCommands = 0\<rparr>"
    using assms(1)
    by (auto simp: translator_new_def rbind_eq_Inr_iff program_code_emit_def program_code_add_def Let_def split: if_splits)
  have new: "tables_ok vm_program_new" "p_code vm_program_new = []" "bounded n vm_program_new" for n
    by (simp_all add: tables_ok_def vm_program_new_def ps_wf_def ps_new_def)
       (simp add: bounded_def table_sizes_def nt_new_def)
  have "valid_program (vm_program_new\<lparr>p_code := [w]\<rparr>)"
    using new w(2) goto_reference [of w] by (auto simp: valid_fitting fitting_def refs_ok_code tables_ok_def gotos_def decode_def)
  with w assms(2) new show "tr_inv 0 t"
    by (simp add: tr_inv_def calls_ok_def t starts_with_jump_def refs_ok_resolved gotos_def)
  show "main_jumps t" by (simp add: t main_jumps_def new)
qed

section \<open>Audit calls\<close>

lemma inside_jumps: "\<forall>w \<in> set ws. opCode w = Op_GOTO \<longrightarrow> n \<le> argumentIndex w \<and> argumentIndex w \<le> n + length ws \<Longrightarrow> jumps_ok n ws"
proof -
  have "local_jumps n m prev (map decode ws)"
    if "\<forall>w \<in> set ws. opCode w = Op_GOTO \<longrightarrow> n \<le> argumentIndex w \<and> argumentIndex w \<le> m" for m prev
    using that by (induction ws arbitrary: prev) (auto simp: decode_def)
  then show "\<forall>w \<in> set ws. opCode w = Op_GOTO \<longrightarrow> n \<le> argumentIndex w \<and> argumentIndex w \<le> n + length ws \<Longrightarrow> jumps_ok n ws"
    by (simp add: jumps_ok_def)
qed

text \<open>The audit program stands behind two instructions, with all its jumps moved.\<close>

lemma add_auditcall_code:
  assumes "add_auditcall prg t = Inr t'" and "tr_inv 0 t" and "main_jumps t"
    and "length (p_code prg) \<le> Max_ArgumentIndex \<longrightarrow> valid_program prg"
  obtains us ws vs where "p_code (tr_main t') = p_code (tr_main t) @ us @ ws @ vs" and "length us = 2"
    and "list_all2 (moved (length (p_code (tr_main t)) + 2)) (p_code prg) ws" and "tr_inv 0 t'" and "main_jumps t'"
    and "tr_sub_program t' = tr_sub_program t"
proof -
  obtain u m where s: "tr_emit [(Co_ALWAYS, Op_OUTPUT_ADD_SINK, 0), (Co_ALWAYS, Op_SCOPE_OPEN, 0)] t = Inr u"
    "program_add prg True (tr_main u) = Inr m" "tr_emit [(Co_ALWAYS, Op_SCOPE_CLOSE, 0)] (u\<lparr>tr_main := m\<rparr>) = Inr t'"
    using assms(1) by (auto simp: add_auditcall_def rbind_eq_Inr_iff split: if_splits)
  obtain us where us: "encodes [(Co_ALWAYS, Op_OUTPUT_ADD_SINK, 0), (Co_ALWAYS, Op_SCOPE_OPEN, 0)] us"
    "u = t\<lparr>tr_main := (tr_main t)\<lparr>p_code := p_code (tr_main t) @ us\<rparr>\<rparr>"
    by (rule tr_emit_encodes [OF s(1)])
  obtain vs where vs: "encodes [(Co_ALWAYS, Op_SCOPE_CLOSE, 0)] vs"
    "t' = u\<lparr>tr_main := m, tr_main := m\<lparr>p_code := p_code m @ vs\<rparr>\<rparr>"
    by (rule tr_emit_encodes [OF s(3)]) simp
  have len: "length us = 2" "length vs = 1" using encodes_length [OF us(1)] encodes_length [OF vs(1)] by simp_all
  have "appends t u" using tr_emit_effect [OF s(1)] by simp
  then have u: "tr_inv 0 u" "main_jumps u" "fitting (tr_main u)"
    using emit_inv [OF s(1) assms(2)] main_jumps_appends assms(3) by (auto simp: emits tr_inv_def fitting_def)
  have small: "length (p_code m) \<le> Max_ArgumentIndex" using tr_emit_bound [OF s(3)] vs(2) len by (simp add: instruction_layout)
  then have prg: "valid_program prg" using assms(4) program_add_length [OF s(2)] by simp
  then obtain ws where m: "fitting m" "p_code m = p_code (tr_main u) @ ws"
    "list_all2 (moved (length (p_code (tr_main u)))) (p_code prg) ws"
    using program_add_fitting [OF s(2) _ u(3) small] by blast
  note ws = moved_gotos [OF m(3), of "length (p_code prg)"] list_all2_lengthD [OF m(3)] prg [unfolded valid_fitting]
  have "tr_inv 0 (u\<lparr>tr_main := m\<rparr>)"
    using u(1) m(1,2) ws by (auto simp: tr_inv_def fitting_def calls_ok_def gotos_def le_max_iff_disj)
  moreover have "appends u (u\<lparr>tr_main := m\<rparr>)" using m(2) ws inside_jumps by (simp add: appends_def)
  ultimately have "tr_inv 0 t' \<and> appends u t'"
    using emit_inv [OF s(3)] tr_emit_effect [OF s(3)] by (auto simp: emits intro: appends_trans)
  then have "tr_inv 0 t'" "main_jumps t'" using u(2) main_jumps_appends by blast+
  with us(2) vs(2) len m(2,3) that [of us ws vs] show ?thesis by simp
qed

lemma add_auditcall_inv:
  assumes "add_auditcall prg t = Inr t'" and "tr_inv 0 t" and "main_jumps t"
    and "length (p_code prg) \<le> Max_ArgumentIndex \<longrightarrow> valid_program prg"
  shows "tr_inv 0 t' \<and> main_jumps t'"
  using add_auditcall_code [OF assms] by blast

text \<open>C36: an audit call that calls a subroutine goes wrong when the transaction calls a subroutine as well. The audit program
  is added to the main program with its jumps moved, and in the finished program it stands behind the code of the
  subroutines. But a jump behind \<^verbatim>\<open>SUB_FRAME_CLOSE\<close> counts as a call of one of these and keeps its address: the call of a
  subroutine of the audit program, at the address \<open>a\<close> of it, leads to an address that is too small by the length of
  that code.\<close>
theorem audit_subroutine_call_misplaced:
  assumes "add_auditcall prg t = Inr t'" and "createProgram True t' = Inr p"
    and "tr_inv 0 t" and "main_jumps t" and "valid_program prg"
    and "Suc i < length (p_code prg)" and "opCode (p_code prg ! i) = Op_SUB_FRAME_CLOSE"
    and "opCode (p_code prg ! Suc i) = Op_GOTO" and "argumentIndex (p_code prg ! Suc i) = a"
  shows "(\<forall>j < length (p_code prg). opCode (p_code p ! (main_start t + (length (p_code (tr_main t)) + 2) + j)) = opCode (p_code prg ! j))
    \<and> argumentIndex (p_code p ! (main_start t + (length (p_code (tr_main t)) + 2) + Suc i)) = length (p_code (tr_main t)) + 2 + a"
proof -
  obtain us ws vs where u: "p_code (tr_main t') = p_code (tr_main t) @ us @ ws @ vs" "length us = 2"
    "list_all2 (moved (length (p_code (tr_main t)) + 2)) (p_code prg) ws" "tr_inv 0 t'" "main_jumps t'"
    "tr_sub_program t' = tr_sub_program t"
    using add_auditcall_code [OF assms(1,3,4)] assms(5) by blast
  let ?m = "length (p_code (tr_main t)) + 2"
  have nth: "p_code (tr_main t') ! (?m + j) = ws ! j" "?m + j < length (p_code (tr_main t'))" if "j < length ws" for j
    using u(1,2) that by (simp_all add: nth_append)
  have ws: "length ws = length (p_code prg)" "moved ?m (p_code prg ! j) (ws ! j)" if "j < length (p_code prg)" for j
    using u(3) that by (auto simp: list_all2_conv_all_nth)
  have start: "main_start t' = main_start t" using u(6) by (simp add: main_start_def)
  note jump = createProgram_jump [OF assms(2) u(4) _ createProgram_length(2) [OF assms(2)], unfolded start]
  have j: "local_jumps 0 (length (p_code (tr_main t'))) Op_NOP (map decode (p_code (tr_main t')))"
    using u(5) by (simp add: main_jumps_def jumps_ok_def)
  have op: "opCode (p_code p ! (main_start t + ?m + j)) = opCode (p_code prg ! j)" if "j < length (p_code prg)" for j
    using jump(1) [OF j, of "?m + j"] nth [of j] ws [OF that] that by (simp add: moved_def add.assoc)
  have "p_code (tr_main t') ! (?m + Suc i - 1) = ws ! i" using nth(1) [of i] ws assms(6) by simp
  moreover have "moved ?m (p_code prg ! i) (ws ! i)" "moved ?m (p_code prg ! Suc i) (ws ! Suc i)"
    using ws(2) assms(6) by simp_all
  ultimately have "argumentIndex (p_code p ! (main_start t + ?m + Suc i)) = ?m + a"
    using jump(2) [OF j, of "?m + Suc i"] nth [of "Suc i"] ws(1) assms(6-9) by (simp add: moved_def add.assoc)
  with op show ?thesis by blast
qed

text \<open>A transaction that calls a subroutine, and an audit call with a subroutine at its address 1.\<close>

definition audit_program :: vm_program where
  "audit_program = vm_program_new\<lparr>p_code := [0x08000002, 0x04000000, 0x8C000000, 0x08000001]\<rparr>"

definition call_translator :: translator where
  "call_translator = \<lparr>tr_stateStack = [], tr_subroutinemap = [], tr_calledSubroutines = [],
     tr_sub_program = vm_program_new\<lparr>p_code := [0x08000000, 0x04000000]\<rparr>, tr_main = vm_program_new,
     tr_isSubroutine = False, tr_nofCommands = 0\<rparr>"

lemma decoded_words:
  "decode 0x08000000 = (Co_ALWAYS, Op_GOTO, 0)" "decode 0x08000001 = (Co_ALWAYS, Op_GOTO, 1)"
  "decode 0x08000002 = (Co_ALWAYS, Op_GOTO, 2)" "decode 0x08000003 = (Co_ALWAYS, Op_GOTO, 3)"
  "decode 0x08000004 = (Co_ALWAYS, Op_GOTO, 4)" "decode 0x04000000 = (Co_ALWAYS, Op_RETURN, 0)"
  "decode 0x0C000000 = (Co_ALWAYS, Op_OUTPUT_CONST, 0)" "decode 0x8C000000 = (Co_ALWAYS, Op_SUB_FRAME_CLOSE, 0)"
  "decode 0x44000000 = (Co_ALWAYS, Op_OUTPUT_ADD_SINK, 0)" "decode 0x90000000 = (Co_ALWAYS, Op_SCOPE_OPEN, 0)"
  "decode 0x94000000 = (Co_ALWAYS, Op_SCOPE_CLOSE, 0)"
  by code_simp+

lemma word_types:
  "argumentType Op_GOTO = Inr At_Address" "argumentType Op_RETURN = Inr At_None" "argumentType Op_SUB_FRAME_CLOSE = Inr At_None"
  "argumentType Op_SCOPE_OPEN = Inr At_None" "argumentType Op_SCOPE_CLOSE = Inr At_None"
  "argumentType Op_OUTPUT_ADD_SINK = Inr At_None" "argumentType Op_OUTPUT_CONST = Inr At_Constant"
  by code_simp+

lemmas link_eval = createProgram_def program_add_def patchCode_def patch_instruction_def joinVectors_def hint_join_def
  nt_join_def ps_join_def patch_index_def program_code_append_def tr_emit_def program_code_emit_def program_code_add_def
  instruction_def instruction_layout opcode_value.simps condcode_value.simps vm_program_new_def nt_new_def ps_new_def
  decoded_words [unfolded decode_def prod.inject] word_types

lemma audit_program_added: "add_auditcall audit_program call_translator = Inr (call_translator\<lparr>tr_main := vm_program_new\<lparr>p_code :=
    [0x44000000, 0x90000000, 0x08000004, 0x04000000, 0x8C000000, 0x08000003, 0x94000000]\<rparr>\<rparr>)"
  by (simp add: add_auditcall_def audit_program_def call_translator_def link_eval)

lemma audit_program_linked: "createProgram True (call_translator\<lparr>tr_main := vm_program_new\<lparr>p_code :=
    [0x44000000, 0x90000000, 0x08000004, 0x04000000, 0x8C000000, 0x08000003, 0x94000000]\<rparr>\<rparr>) =
  Inr (vm_program_new\<lparr>p_code := [0x08000002, 0x04000000, 0x44000000, 0x90000000, 0x08000006, 0x04000000, 0x8C000000, 0x08000003,
    0x94000000, 0x04000000]\<rparr>)"
  by (simp add: call_translator_def link_eval)

lemma new_program_valid:
  assumes "\<forall>w \<in> set ws. opCode w \<in> {Op_GOTO, Op_RETURN, Op_SUB_FRAME_CLOSE}" and "gotos (length ws) ws"
  shows "valid_program (vm_program_new\<lparr>p_code := ws\<rparr>)"
proof -
  have "bounded n vm_program_new" for n by (simp add: bounded_def table_sizes_def vm_program_new_def nt_new_def ps_new_def)
  moreover have "tables_ok vm_program_new" by (simp add: tables_ok_def vm_program_new_def ps_wf_def ps_new_def)
  moreover have "resolved p opc arg" if "opc \<in> {Op_GOTO, Op_RETURN, Op_SUB_FRAME_CLOSE}" for p opc arg
    using that word_types by (auto simp: resolved_def argument_reference_def)
  ultimately show ?thesis
    using assms by (simp add: valid_fitting fitting_def refs_ok_resolved tables_ok_def)
qed

theorem audit_subroutine_call_misplaced_witness:
  "\<exists>t' p. add_auditcall audit_program call_translator = Inr t' \<and> createProgram True t' = Inr p
    \<and> opCode (p_code p ! 5) = Op_RETURN \<and> opCode (p_code p ! 7) = Op_GOTO \<and> argumentIndex (p_code p ! 7) = 3"
proof -
  note words = decoded_words [unfolded decode_def prod.inject]
  have prg: "valid_program audit_program"
    unfolding audit_program_def by (rule new_program_valid) (simp_all add: words gotos_def)
  have "valid_program (tr_sub_program call_translator)"
    unfolding call_translator_def translator.simps by (rule new_program_valid) (simp_all add: words gotos_def)
  moreover have "starts_with_jump (tr_sub_program call_translator)"
    by (simp add: starts_with_jump_def call_translator_def link_eval)
  moreover have main: "tr_main call_translator = vm_program_new\<lparr>p_code := []\<rparr>" "main_start call_translator = 2"
    by (simp_all add: call_translator_def main_start_def vm_program_new_def)
  moreover have "valid_program (vm_program_new\<lparr>p_code := []\<rparr>)" by (rule new_program_valid) (simp_all add: gotos_def)
  ultimately have "tr_inv 0 call_translator"
    by (simp add: tr_inv_def calls_ok_def valid_fitting fitting_def gotos_def) (simp add: call_translator_def)
  moreover have "main_jumps call_translator" using main(1) by (simp add: main_jumps_def)
  ultimately have inv: "tr_inv 0 call_translator" "main_jumps call_translator" by blast+
  obtain t' p where p: "add_auditcall audit_program call_translator = Inr t'" "createProgram True t' = Inr p"
    using audit_program_added audit_program_linked by blast
  have code: "length (p_code audit_program) = 4" "p_code audit_program ! 1 = 0x04000000"
    "p_code audit_program ! 2 = 0x8C000000" "p_code audit_program ! 3 = 0x08000001"
    by (simp_all add: audit_program_def)
  have "(\<forall>j < 4. opCode (p_code p ! (4 + j)) = opCode (p_code audit_program ! j)) \<and> argumentIndex (p_code p ! 7) = 3"
    using audit_subroutine_call_misplaced [OF p inv prg, of 2 1] main code words by (simp add: numeral_3_eq_3 [symmetric])
  then have "opCode (p_code p ! (4 + 1)) = Op_RETURN" "opCode (p_code p ! (4 + 3)) = Op_GOTO" "argumentIndex (p_code p ! 7) = 3"
    using code words by (metis numeral_less_iff one_less_numeral_iff semiring_norm(76,78,80,81))+
  with p show ?thesis by auto
qed

section \<open>Tags of the preprocessing program\<close>

lemma valid_tags:
  assumes "valid_program p" and "tt_wf tags" and "tags_kept (ps_tagtab (p_pathset p)) tags"
  shows "valid_program (p\<lparr>p_pathset := (p_pathset p)\<lparr>ps_tagtab := tags\<rparr>\<rparr>)" (is "valid_program ?q")
proof -
  have keeps: "keeps_tables p ?q"
    unfolding keeps_tables_def by (auto simp: argument_reference_def split: argument_type.splits if_splits)
  have "ps_wf (p_pathset p)" using assms(1) by (simp add: valid_program_def program_wf_def refs_ok_def)
  then have "ps_wf (p_pathset ?q)" using assms(2,3) path_names_kept by (auto simp: ps_wf_def)
  with keeps_resolved [OF keeps] assms(1) show ?thesis
    by (simp add: valid_fitting fitting_def refs_ok_resolved tables_ok_def bounded_def table_sizes_def)
qed

end
