(* ===== verification/Tdl_Validity.thy ===== *)
theory Tdl_Validity
  imports Tdl_Properties Program_Validity
begin

text \<open>
  What the loader of transaction definition files makes of a source is well-formed: the invariant of the
  translator is kept by the parsers of program blocks, subroutines, audit calls and transactions, and so
  every program of a loaded transaction function is one that the virtual machine can run.
\<close>

section \<open>Program blocks\<close>

lemma source_reference_inv [simp]: "tr_inv k (tr_setCurrentSourceReference p t) = tr_inv k t"
proof -
  have "resolved (setCurrentSourceReference p q) opc arg = resolved q opc arg" for q opc arg
    by (cases "argumentType opc")
       (auto simp: resolved_def setCurrentSourceReference_def argument_reference_def split: argument_type.splits)
  then show ?thesis
    by (simp add: tr_inv_def refs_ok_resolved tr_setCurrentSourceReference_def calls_ok_def)
       (simp add: setCurrentSourceReference_def bounded_def table_sizes_def tables_ok_def)
qed

lemma output_inv:
  assumes "tr_inv 0 t"
  shows "output_ARGUMENT_PATH s t = Inr t' \<Longrightarrow> tr_inv 0 t'" "output_ARGUMENT_LOOPCNT t = Inr t' \<Longrightarrow> tr_inv 0 t'"
    "output_ARGUMENT_CONST v t = Inr t' \<Longrightarrow> tr_inv 0 t'" "output_ARGUMENT_TUPLESET_idx s i t = Inr t' \<Longrightarrow> tr_inv 0 t'"
    "output_ARGUMENT_TUPLESET_name s n t = Inr t' \<Longrightarrow> tr_inv 0 t'"
proof -
  show "output_ARGUMENT_PATH s t = Inr t' \<Longrightarrow> tr_inv 0 t'"
    using assms by (auto simp: output_ARGUMENT_PATH_def rbind_eq_Inr_iff elim!: emit_path)
  show "output_ARGUMENT_LOOPCNT t = Inr t' \<Longrightarrow> tr_inv 0 t'"
    using emit_inv [OF _ assms] by (auto simp: output_ARGUMENT_LOOPCNT_def emits)
  show "output_ARGUMENT_CONST v t = Inr t' \<Longrightarrow> tr_inv 0 t'"
    using assms by (auto simp: output_ARGUMENT_CONST_def split: prod.splits elim: emit_constant)
  show "output_ARGUMENT_TUPLESET_idx s i t = Inr t' \<Longrightarrow> tr_inv 0 t'"
    using assms by (auto simp: output_ARGUMENT_TUPLESET_idx_def rbind_eq_Inr_iff elim: emit_selected)
  show "output_ARGUMENT_TUPLESET_name s n t = Inr t' \<Longrightarrow> tr_inv 0 t'"
    using assms by (auto simp: output_ARGUMENT_TUPLESET_name_def rbind_eq_Inr_iff elim!: emit_selected_column)
qed

lemma output_reference_inv: "output_reference e t = Inr t' \<Longrightarrow> tr_inv 0 t \<Longrightarrow> tr_inv 0 t'"
  by (auto simp: output_reference_def rbind_eq_Inr_iff split: element_reference.splits dest: output_inv)

lemma into_when_inv:
  "tr_when b (begin_INTO_block path) t = Inr t' \<Longrightarrow> tr_inv 0 t \<Longrightarrow> tr_inv 0 t'"
  "tr_when b end_INTO_block t = Inr t' \<Longrightarrow> tr_inv 0 t \<Longrightarrow> tr_inv 0 t'"
  "tr_when b (begin_INTO_block_name n) t = Inr t' \<Longrightarrow> tr_inv 0 t \<Longrightarrow> tr_inv 0 t'"
  by (auto simp: tr_when_def split: if_splits dest: into_inv)

lemma print_into_inv: "print_into path e t = Inr t' \<Longrightarrow> tr_inv 0 t \<Longrightarrow> tr_inv 0 t'"
  by (auto simp: print_into_def rbind_eq_Inr_iff dest!: into_when_inv output_reference_inv)

lemma block_parts_inv:
  "block_command ld psi start t s = (Inr (t', psi'), s') \<Longrightarrow> tr_inv 0 t \<Longrightarrow> tr_inv 0 t'"
  "block_KEEP ld psi t s = (Inr (t', psi'), s') \<Longrightarrow> tr_inv 0 t \<Longrightarrow> tr_inv 0 t'"
  "block_PRINT ld psi t s = (Inr (t', psi'), s') \<Longrightarrow> tr_inv 0 t \<Longrightarrow> tr_inv 0 t'"
  "block_INTO_PRINT ld path t s = (Inr t', s') \<Longrightarrow> tr_inv 0 t \<Longrightarrow> tr_inv 0 t'"
  unfolding block_command_def block_KEEP_def block_PRINT_def block_INTO_PRINT_def print_end_def
  by (auto simp: p_bind_Inr s_update_Inr split: if_splits
      dest: command_inv result_KEEP_inv print_into_inv)

lemma prg_block_inv: "prg_block ld n psi t s = (Inr t', s') \<Longrightarrow> tr_inv 0 t \<Longrightarrow> tr_inv 0 t'"
proof (induction n arbitrary: psi t s t' s')
  case (Suc n)
  then show ?case
    by (auto simp: p_bind_Inr s_update_Inr block_unexpected_def split: if_splits
        dest!: block_parts_inv into_when_inv dest: Suc.IH)
qed simp

text \<open>A translator whose code makes a valid program.\<close>

definition translates :: "translator \<Rightarrow> bool" where
  "translates t \<longleftrightarrow> tr_inv 0 t \<and> main_jumps t"

lemma extends_translates: "extends t t' \<Longrightarrow> main_jumps t \<Longrightarrow> main_jumps t'"
  by (auto simp: extends_def intro: main_jumps_appends)

lemma parsePrgBlock_translates: "parsePrgBlock ld t s = (Inr t', s') \<Longrightarrow> translates t \<Longrightarrow> translates t'"
  unfolding parsePrgBlock_def translates_def by (blast dest: prg_block_inv prg_block_extends extends_translates)

lemma reference_translates [simp]: "translates (tr_setCurrentSourceReference p t) = translates t"
  by (simp add: translates_def main_jumps_def) (simp add: tr_setCurrentSourceReference_def setCurrentSourceReference_def)

section \<open>Subroutines and audit calls\<close>

definition subroutines_ok :: "subroutine keymap \<Rightarrow> bool" where
  "subroutines_ok m \<longleftrightarrow> (\<forall>(n, sr) \<in> set m. valid_program (sr_program sr))"

lemma translator_new_translates: "translator_new subs b = Inr t \<Longrightarrow> subroutines_ok subs \<Longrightarrow> translates t"
  using translator_new_inv by (simp add: translates_def subroutines_ok_def)

lemma subroutine_body_translates:
  "subroutine_body db ld n psi used valid t s = (Inr (v, t'), s') \<Longrightarrow> translates t \<Longrightarrow> translates t'"
proof (induction n arbitrary: psi used valid t s s')
  case (Suc n)
  then show ?case
    by (auto simp: p_bind_Inr s_update_Inr header_unexpected_def split: if_splits dest: Suc.IH parsePrgBlock_translates)
qed simp

lemma parseSubroutineBody_translates:
  "parseSubroutineBody db ld t s = (Inr (v, t'), s') \<Longrightarrow> translates t \<Longrightarrow> translates t'"
  unfolding parseSubroutineBody_def by (rule subroutine_body_translates)

lemma keymap_insert_ok:
  "keymap_insert k sr m = Inr m' \<Longrightarrow> subroutines_ok m \<Longrightarrow> valid_program (sr_program sr) \<Longrightarrow> subroutines_ok m'"
  by (auto simp: keymap_insert_def subroutines_ok_def set_insort_key split: if_splits)

lemma finished_translates:
  "createProgram r t = Inr prg \<Longrightarrow> translates t \<Longrightarrow> length (p_code prg) \<le> Max_ArgumentIndex \<Longrightarrow> valid_program prg"
  using finished_program by (simp add: translates_def)

lemma translates_program: "createProgram True t = Inr prg \<Longrightarrow> translates t \<Longrightarrow> valid_program prg"
  using finished_translates createProgram_length(2) by blast

text \<open>Audit calls: their arguments are printed into the block of a name.\<close>

lemma begin_INTO_block_single: "begin_INTO_block_name n = begin_INTO_block [n]"
  by (auto simp: fun_eq_iff begin_INTO_block_name_def begin_INTO_block_def rbind_def split: sum.splits prod.splits)

lemma audit_argument_translates:
  assumes "audit_argument p t = Inr t'" and "translates t"
  shows "translates t'"
proof -
  obtain b n e t1 t2 where s: "tr_when b (begin_INTO_block_name n) t = Inr t1" "output_reference e t1 = Inr t2"
    "tr_when b end_INTO_block t2 = Inr t'"
    using assms(1) by (auto simp: audit_argument_def Let_def rbind_eq_Inr_iff split: prod.splits)
  have "extends t t'"
    using into_extends [OF s(1) [unfolded begin_INTO_block_single] output_reference_extends [OF s(2)] s(3)] .
  moreover have "tr_inv 0 t'"
    using into_when_inv(2) [OF s(3)] output_reference_inv [OF s(2)] into_when_inv(3) [OF s(1)] assms(2)
    by (simp add: translates_def)
  ultimately show ?thesis using assms(2) extends_translates by (simp add: translates_def)
qed

lemma audit_arguments_translates: "audit_arguments ps t = Inr t' \<Longrightarrow> translates t \<Longrightarrow> translates t'"
  by (induction ps t rule: audit_arguments.induct) (auto simp: rbind_eq_Inr_iff dest: audit_argument_translates)

definition audit_ok :: "vm_program \<Rightarrow> bool" where
  "audit_ok prg \<longleftrightarrow> (length (p_code prg) \<le> Max_ArgumentIndex \<longrightarrow> valid_program prg)"

lemma parseAuditCallDef_ok:
  assumes "parseAuditCallDef ld subs s = (Inr (level, f, prg), s')" and "subroutines_ok subs"
  shows "audit_ok prg"
proof -
  obtain t t' where t: "translator_new subs False = Inr t" "createProgram False t' = Inr prg" "translates t \<Longrightarrow> translates t'"
    using assms(1) unfolding parseAuditCallDef_def
    by (auto simp: p_bind_Inr s_update_Inr split: if_splits
        dest!: audit_arguments_translates parsePrgBlock_translates)
  with translator_new_translates [OF t(1) assms(2)] finished_translates [OF t(2)] show ?thesis by (simp add: audit_ok_def)
qed

lemma add_auditcalls_translates:
  "add_auditcalls as t = Inr t' \<Longrightarrow> translates t \<Longrightarrow> \<forall>(l, f, prg) \<in> set as. audit_ok prg \<Longrightarrow> translates t'"
  by (induction as t rule: add_auditcalls.induct)
     (auto simp: rbind_eq_Inr_iff translates_def audit_ok_def dest: add_auditcall_inv)

section \<open>Transactions\<close>

definition body_ok :: "transaction_body \<Rightarrow> bool" where
  "body_ok b \<longleftrightarrow> translates (tb_prg b) \<and> (\<forall>(l, f, prg) \<in> set (tb_auditcalls b). audit_ok prg)"

lemma body_parts_ok:
  "body_DATABASE db ld b s = (Inr b', s') \<Longrightarrow> body_ok b \<Longrightarrow> body_ok b'"
  "body_RESULT ld b s = (Inr b', s') \<Longrightarrow> body_ok b \<Longrightarrow> body_ok b'"
  "body_AUTHORIZE ld b s = (Inr b', s') \<Longrightarrow> body_ok b \<Longrightarrow> body_ok b'"
  "body_PREPROC ld b s = (Inr b', s') \<Longrightarrow> body_ok b \<Longrightarrow> body_ok b'"
  "body_BEGIN ld psi b s = (Inr (b', psi'), s') \<Longrightarrow> body_ok b \<Longrightarrow> body_ok b'"
  "body_AUDIT ld subs psi b s = (Inr (b', psi'), s') \<Longrightarrow> subroutines_ok subs \<Longrightarrow> body_ok b \<Longrightarrow> body_ok b'"
  unfolding body_DATABASE_def body_RESULT_def body_AUTHORIZE_def body_PREPROC_def body_BEGIN_def body_AUDIT_def
    body_once_def body_ok_def
  by (auto simp: p_bind_Inr s_update_Inr split: if_splits dest: parsePrgBlock_translates parseAuditCallDef_ok)

lemma transaction_loop_ok:
  "transaction_loop db ld subs n psi b s = (Inr (b', psi'), s') \<Longrightarrow> subroutines_ok subs \<Longrightarrow> body_ok b \<Longrightarrow> body_ok b'"
proof (induction n arbitrary: psi b s)
  case (Suc n)
  then show ?case
    by (auto simp: p_bind_Inr header_unexpected_def split: if_splits dest: Suc.IH body_parts_ok)
qed simp

lemma add_preproc_argument_tags:
  "add_preproc_argument e tags p = Inr (tags', p') \<Longrightarrow> tt_wf tags \<Longrightarrow> tt_wf tags' \<and> tags_kept tags tags'"
  by (auto simp: add_preproc_argument_def rbind_eq_Inr_iff Let_def case_prod_beta tags_kept_def
      split: preproc_reference.splits dest!: selectorPath_inv)

lemma tags_kept_trans: "tags_kept a b \<Longrightarrow> tags_kept b c \<Longrightarrow> tags_kept a c"
  by (simp add: tags_kept_def)

lemma add_preproc_arguments_tags:
  "add_preproc_arguments es tags p = Inr (tags', p') \<Longrightarrow> tt_wf tags \<Longrightarrow> tt_wf tags' \<and> tags_kept tags tags'"
  by (induction es tags p rule: add_preproc_arguments.induct)
     (auto simp: rbind_eq_Inr_iff tags_kept_def dest!: add_preproc_argument_tags)

lemma preproc_build_tags:
  "preproc_build rs tags = Inr (tags', ps) \<Longrightarrow> tt_wf tags \<Longrightarrow> tt_wf tags' \<and> tags_kept tags tags'"
  by (induction rs tags arbitrary: ps rule: preproc_build.induct)
     (fastforce simp: rbind_eq_Inr_iff tags_kept_def dest!: selectorPath_inv add_preproc_arguments_tags)+

lemma build_transaction_valid:
  assumes "build_transaction name b = Inr f" and "body_ok b"
  shows "valid_program (tf_program f)"
proof -
  obtain t prg tags pre where s: "add_auditcalls (tb_auditcalls b) (tb_prg b) = Inr t" "createProgram True t = Inr prg"
    "preproc_build (tb_preproc b) (ps_tagtab (p_pathset prg)) = Inr (tags, pre)"
    and f: "tf_program f = prg\<lparr>p_pathset := (p_pathset prg)\<lparr>ps_tagtab := tags\<rparr>\<rparr>"
    using assms(1) by (auto simp: build_transaction_def rbind_eq_Inr_iff)
  have prg: "valid_program prg"
    using translates_program [OF s(2)] add_auditcalls_translates [OF s(1)] assms(2) by (simp add: body_ok_def)
  then have "tt_wf (ps_tagtab (p_pathset prg))"
    by (simp add: valid_program_def program_wf_def refs_ok_def ps_wf_def)
  with preproc_build_tags [OF s(3)] valid_tags [OF prg, of tags] show ?thesis by (simp add: f)
qed

lemma parseTransactionBody_valid:
  assumes "parseTransactionBody name db ld subs s = (Inr (Some f), s')" and "subroutines_ok subs"
  shows "valid_program (tf_program f)"
proof -
  obtain t n psi s1 b s2 where "translator_new subs False = Inr t"
    and l: "transaction_loop db ld subs n psi (transaction_body_new t) s = (Inr (b, s1), s2)"
    and f: "build_transaction name b = Inr f"
    using assms(1) unfolding parseTransactionBody_def
    by (auto simp: p_bind_Inr s_update_Inr split: if_splits simp del: transaction_loop.simps(2))
  then have "body_ok (transaction_body_new t)"
    using translator_new_translates assms(2) by (simp add: body_ok_def transaction_body_new_def)
  with transaction_loop_ok [OF l assms(2)] build_transaction_valid [OF f] show ?thesis by blast
qed

section \<open>Files\<close>

definition loaded_ok :: "loaded \<Rightarrow> bool" where
  "loaded_ok lo \<longleftrightarrow> subroutines_ok (lo_subroutines lo) \<and> (\<forall>(n, f) \<in> set (lo_functions lo). valid_program (tf_program f))"

lemma l_Inr:
  "l_source p st = (Inr x, st') \<longleftrightarrow> fst st' = fst st \<and> p (snd st) = (Inr x, snd st')"
  "l_update at st = (Inr u, st') \<longleftrightarrow> st' = (at, pos_update (between (fst st) at) (fst (snd st)), snd (snd st))"
  "l_here st = (Inr si, st') \<longleftrightarrow> si = snd (snd st) \<and> st' = st"
  "l_mark st = (Inr u, st') \<longleftrightarrow> st' = (snd (snd st), snd st)"
  by (auto simp: l_source_def l_update_def l_here_def l_mark_def split: prod.splits)

lemma load_TRANSACTION_ok:
  assumes "load_TRANSACTION db ld start lo s = (Inr lo', s')" and "loaded_ok lo"
  shows "loaded_ok lo'"
proof -
  obtain name tfunc s1 s2 where t: "parseTransactionBody name db ld (lo_subroutines lo) s1 = (Inr tfunc, s2)"
    and lo': "lo' = (case tfunc of None \<Rightarrow> lo | Some f \<Rightarrow> lo\<lparr>lo_functions := lo_functions lo @ [(name, f)]\<rparr>)"
    using assms(1) unfolding load_TRANSACTION_def p_bind_Inr l_Inr p_simps by blast
  show ?thesis
  proof (cases tfunc)
    case (Some f)
    then have "valid_program (tf_program f)" using parseTransactionBody_valid t assms(2) by (simp add: loaded_ok_def)
    with assms(2) lo' Some show ?thesis by (simp add: loaded_ok_def)
  qed (use assms lo' in simp)
qed

lemma load_subroutine_ok:
  assumes "load_subroutine db ld targs lo s = (Inr lo', s')" and "loaded_ok lo"
  shows "loaded_ok lo'"
proof (cases "lo' = lo")
  case False
  then obtain t t' s1 v s2 prg name args m where s: "translator_new (lo_subroutines lo) True = Inr t"
    "parseSubroutineBody db ld t s1 = (Inr (v, t'), s2)" "createProgram True t' = Inr prg"
    "keymap_insert name \<lparr>sr_name = name, sr_templateParams = targs, sr_params = args, sr_program = prg\<rparr>
       (lo_subroutines lo) = Inr m" "lo' = lo\<lparr>lo_subroutines := m\<rparr>"
    using assms(1) unfolding load_subroutine_def
    by (auto simp: p_bind_Inr l_Inr rbind_eq_Inr_iff split: if_splits) (metis prod_cases3)
  have "translates t'"
    using parseSubroutineBody_translates [OF s(2)] translator_new_translates [OF s(1)] assms(2) by (simp add: loaded_ok_def)
  then show ?thesis
    using keymap_insert_ok [OF s(4)] translates_program [OF s(3)] assms(2) by (simp add: loaded_ok_def s(5))
qed (use assms in simp)

lemma load_loop_ok:
  assumes "\<And>f lo lo'. inc f lo = Inr lo' \<Longrightarrow> loaded_ok lo \<Longrightarrow> loaded_ok lo'"
  shows "load_loop db ld inc n lo s = (Inr lo', s') \<Longrightarrow> loaded_ok lo \<Longrightarrow> loaded_ok lo'"
proof (induction n arbitrary: lo s)
  case (Suc n)
  then show ?case
    by (auto simp: p_bind_Inr l_Inr header_unexpected_def load_SUBROUTINE_def load_TEMPLATE_def load_INCLUDE_def
        split: if_splits dest: Suc.IH load_TRANSACTION_ok load_subroutine_ok assms)
qed simp

lemma load_Inr:
  assumes "load fs db ld inc name src lo = Inr lo'"
  obtains n s1 s2 where "load_loop db ld inc n lo s1 = (Inr lo', s2)"
proof -
  obtain s s2 where "load_source db ld inc lo s = (Inr lo', s2)"
    using assms unfolding load_def by (auto split: prod.splits sum.splits cpp_error.splits)
  then show ?thesis
    using that unfolding load_source_def p_bind_Inr by blast
qed

lemma load_ok:
  assumes "\<And>f lo lo'. inc f lo = Inr lo' \<Longrightarrow> loaded_ok lo \<Longrightarrow> loaded_ok lo'"
    and "load fs db ld inc name src lo = Inr lo'" and "loaded_ok lo"
  shows "loaded_ok lo'"
proof -
  obtain n s1 s2 where "load_loop db ld inc n lo s1 = (Inr lo', s2)" by (rule load_Inr [OF assms(2)])
  from load_loop_ok [OF _ this assms(3)] show ?thesis using assms(1) by blast
qed

lemma includeFile_ok: "includeFile fs db ld depth m f lo = Inr lo' \<Longrightarrow> loaded_ok lo \<Longrightarrow> loaded_ok lo'"
proof (induction depth arbitrary: m f lo lo')
  case (Suc depth)
  then obtain src where "load fs db ld (includeFile fs db ld depth f) f src lo = Inr lo'"
    by (auto simp: Let_def rbind_eq_Inr_iff)
  from load_ok [OF _ this] Suc.IH Suc.prems(2) show ?case by blast
qed simp

text \<open>C16: what is loaded can be run: in the program of every transaction function that is loaded from a file and the files
  it includes, every instruction is one of the virtual machine, its argument refers to an entry of the table it indexes,
  every jump leads to an address of the program or its end, and the tables of names and paths are consistent. This holds
  for every source text, with subroutines, templates, audit calls and preprocessing.\<close>
theorem loaded_programs_well_formed:
  assumes "loadTransactionProgramFile fs db ld depth filename = Inr fns" and "(name, f) \<in> set fns"
  shows "program_wf (tf_program f)"
proof -
  obtain src lo where l: "load fs db ld (includeFile fs db ld depth filename) filename src
      \<lparr>lo_subroutines = [], lo_functions = []\<rparr> = Inr lo" and fns: "fns = lo_functions lo"
    using assms(1)
    by (auto simp: loadTransactionProgramFile_def rethrown_def rbind_eq_Inr_iff split: sum.splits cpp_error.splits)
  have "loaded_ok \<lparr>lo_subroutines = [], lo_functions = []\<rparr>" by (simp add: loaded_ok_def subroutines_ok_def)
  from load_ok [OF _ l this] includeFile_ok have "loaded_ok lo" by blast
  with assms(2) fns show ?thesis by (auto simp: loaded_ok_def valid_program_def)
qed

text \<open>A file with one transaction, which prints a constant.\<close>

definition example_source :: string where
  "example_source = ''TRANSACTION t BEGIN PRINT 1; END''"

definition example_files :: source_files where
  "example_files = \<lparr>sf_extension = (\<lambda>_. ''.tdl''), sf_stem = (\<lambda>f. f), sf_parent = (\<lambda>_. []), sf_join = (@),
     sf_read = (\<lambda>_. Inr example_source)\<rparr>"

definition print_translator :: "(nat \<times> source_pos) list \<Rightarrow> translator" where
  "print_translator d = \<lparr>tr_stateStack = [], tr_subroutinemap = [], tr_calledSubroutines = [],
     tr_sub_program = vm_program_new\<lparr>p_code := [0x08000000]\<rparr>,
     tr_main = vm_program_new\<lparr>p_code := [0x0C000000], p_constants := [V_String ''1''], p_tdlpositions := d\<rparr>,
     tr_isSubroutine = False, tr_nofCommands = 0\<rparr>"

lemmas parse_eval = p_bind_def s_parse_def s_update_def l_source_def l_update_def l_here_def l_mark_def

lemma print_program: "\<exists>d'. createProgram True (print_translator d) =
    Inr (vm_program_new\<lparr>p_code := [0x0C000000, 0x04000000], p_constants := [V_String ''1''], p_tdlpositions := d'\<rparr>)"
  by (simp add: link_eval print_translator_def)

lemma example_source_tokens:
  "gotoNextToken sql_language example_source = (Inr (CHR ''T''), example_source)"
  "parseKeyword sql_language ''DATABASE'' example_source = (Inr False, example_source)"
  "parseNextIdentifier toplevel_ids example_source = (Inr 2, '' t BEGIN PRINT 1; END'')"
  "parseSubroutineName sql_language '' t BEGIN PRINT 1; END'' = (Inr ''t'', '' BEGIN PRINT 1; END'')"
  "gotoNextToken sql_language '' BEGIN PRINT 1; END'' = (Inr (CHR ''B''), ''BEGIN PRINT 1; END'')"
  "parseNextIdentifier transaction_ids ''BEGIN PRINT 1; END'' = (Inr 9, '' PRINT 1; END'')"
  "checkUniqOccurrence transaction_ids 9 {} '' PRINT 1; END'' = (Inr {9}, '' PRINT 1; END'')"
  "gotoNextToken sql_language '' PRINT 1; END'' = (Inr (CHR ''P''), ''PRINT 1; END'')"
  "gotoNextToken sql_language [] = (Inr NUL, [])"
  by code_simp+

abbreviation start_translator :: translator where
  "start_translator \<equiv> empty_translator\<lparr>tr_sub_program := vm_program_new\<lparr>p_code := [0x08000000]\<rparr>\<rparr>"

lemma start_translator: "translator_new [] False = Inr start_translator"
  by (simp add: translator_new_def emit_eval empty_translator_def)

lemma print_block: "\<exists>d pos'. parsePrgBlock sql_language start_translator (pos, '' PRINT 1; END'') = (Inr (print_translator d), pos', [])"
  by (simp add: parsePrgBlock_def parse_eval print_block_tokens example_source_tokens block_PRINT_def print_end_def
      print_into_def has_into_def tr_when_def output_reference_def output_ARGUMENT_CONST_def tr_constant_def
      tr_setCurrentSourceReference_def setCurrentSourceReference_def emit_eval example_eval print_translator_def
      del: split_paired_Ex)

lemma print_transaction:
  "\<exists>f pos'. parseTransactionBody ''t'' db sql_language [] (pos, '' BEGIN PRINT 1; END'') = (Inr (Some f), pos', [])
    \<and> p_code (tf_program f) = [0x0C000000, 0x04000000]"
proof -
  obtain d pos' where b: "parsePrgBlock sql_language start_translator
      (pos_update (between '' BEGIN PRINT 1; END'' '' PRINT 1; END'') pos, '' PRINT 1; END'') = (Inr (print_translator d), pos', [])"
    using print_block by blast
  obtain d' where "createProgram True (print_translator d) =
      Inr (vm_program_new\<lparr>p_code := [0x0C000000, 0x04000000], p_constants := [V_String ''1''], p_tdlpositions := d'\<rparr>)"
    using print_program by blast
  with b show ?thesis
    by (simp add: parseTransactionBody_def parse_eval example_source_tokens body_BEGIN_def body_once_def build_transaction_def
        start_translator transaction_body_new_def del: split_paired_Ex)
qed

lemma print_file:
  "\<exists>f. loadTransactionProgramFile example_files db sql_language 1 ''f'' = Inr [(''t'', f)]
    \<and> p_code (tf_program f) = [0x0C000000, 0x04000000]"
proof -
  let ?pos = "pos_update (between example_source '' BEGIN PRINT 1; END'')
    (pos_update (between example_source example_source) (''f.tdl'', 1, 1))"
  obtain f pos' where "parseTransactionBody ''t'' db sql_language [] (?pos, '' BEGIN PRINT 1; END'') = (Inr (Some f), pos', [])"
    "p_code (tf_program f) = [0x0C000000, 0x04000000]"
    using print_transaction by blast
  moreover obtain n where "length example_source = Suc n" by (simp add: example_source_def)
  ultimately show ?thesis
    by (simp add: loadTransactionProgramFile_def load_def load_source_def parse_eval example_source_tokens load_TRANSACTION_def
        example_files_def rethrown_def)
qed

theorem loaded_programs_well_formed_witness:
  "\<exists>f. loadTransactionProgramFile example_files \<lparr>td_id = ''db'', td_className = ''SQLite''\<rparr> sql_language 1 ''f'' = Inr [(''t'', f)]
    \<and> p_code (tf_program f) = [0x0C000000, 0x04000000] \<and> program_wf (tf_program f)"
proof -
  obtain f where f: "loadTransactionProgramFile example_files \<lparr>td_id = ''db'', td_className = ''SQLite''\<rparr> sql_language 1 ''f'' = Inr [(''t'', f)]"
    "p_code (tf_program f) = [0x0C000000, 0x04000000]"
    using print_file by blast
  with loaded_programs_well_formed [OF f(1), of "''t''" f] show ?thesis by simp
qed

end
