(* ===== verification/Preproc_Filters.thy ===== *)
theory Preproc_Filters
  imports Input_Refinement Transaction_Execution
begin

text \<open>
  The filters between the input structure and the functions that preprocess it, at the end of
  \<^verbatim>\<open>src/modules/cmdbind/tdl/vm/inputStructure.cpp\<close>: \<^verbatim>\<open>InputFilter\<close> reads subtrees as a sequence of
  elements, \<^verbatim>\<open>OutputFilter\<close> adds elements to a node. The argument of a function is read as it was when the
  function was called.
\<close>

section \<open>Reading subtrees\<close>

type_synonym filter_element = "element_type \<times> variant"

record visited_node =
  vn_node :: int
  vn_childrenvisited :: bool
  vn_valuevisited :: bool
  vn_visitnext :: bool
  vn_closetagcnt :: int

definition visited_node_new :: "int \<Rightarrow> bool \<Rightarrow> visited_node" where
  "visited_node_new i visitnext = \<lparr>vn_node = i, vn_childrenvisited = False, vn_valuevisited = False,
    vn_visitnext = visitnext, vn_closetagcnt = 0\<rparr>"

text \<open>\<open>pf_nodes\<close> is what lies behind \<^verbatim>\<open>m_nodeitr\<close>, \<open>pf_buffer\<close> what lies behind \<^verbatim>\<open>m_elementitr\<close>; the stack has its top
  at the head; \<open>pf_indices\<close> is the flag \<^verbatim>\<open>SerializeWithIndices\<close>.\<close>

record preproc_filter =
  pf_structure :: "input_structure option"
  pf_nodes :: "(string \<times> int) list"
  pf_stack :: "visited_node list"
  pf_buffer :: "filter_element list"
  pf_indices :: bool
  pf_error :: "string option"

definition createInputFilter :: "(string \<times> int) list \<Rightarrow> input_structure \<Rightarrow> preproc_filter" where
  "createInputFilter nodes st = \<lparr>pf_structure = Some st, pf_nodes = nodes, pf_stack = [], pf_buffer = [],
    pf_indices = False, pf_error = None\<rparr>"

text \<open>A tag name as a value; the name of a node without one is a null pointer.\<close>

definition tag_element :: "input_node \<Rightarrow> input_structure \<Rightarrow> filter_element result" where
  "tag_element nd st =
    (case tagname nd st of None \<Rightarrow> Inl (Undefined ''length of a null string'') | Some n \<Rightarrow> Inr (OpenTag, V_String n))"

definition index_element :: "input_node \<Rightarrow> filter_element" where
  "index_element nd = (OpenTag, V_Int (of_int (in_arrayindex nd)))"

abbreviation close_element :: filter_element where
  "close_element \<equiv> (CloseTag, V_Null)"

text \<open>The elements between a node \<open>t\<close> and its next sibling \<open>s\<close>, and the change of the number of tags to close.\<close>

definition sibling_elements ::
  "bool \<Rightarrow> input_node \<Rightarrow> input_node \<Rightarrow> input_structure \<Rightarrow> (filter_element list \<times> int) result" where
  "sibling_elements indices t s st =
    (if indices then
       if in_arrayindex s \<ge> 0 then
         (if in_arrayindex s > in_arrayindex t \<and> in_tag s = in_tag t \<and> in_tagstr s = in_tagstr t
          then Inr ([close_element, index_element s], 0)
          else if in_arrayindex t = -1
          then rbind (tag_element s st) (\<lambda>tag. Inr ([close_element, tag, index_element s], 1))
          else rbind (tag_element s st) (\<lambda>tag. Inr ([close_element, close_element, tag, index_element s], 0)))
       else if in_arrayindex t \<ge> 0
       then rbind (tag_element s st) (\<lambda>tag. Inr ([close_element, close_element, tag], -1))
       else rbind (tag_element s st) (\<lambda>tag. Inr ([close_element, tag], 0))
     else rbind (tag_element s st) (\<lambda>tag. Inr ([close_element, tag], 0)))"

text \<open>Part [3] of \<^verbatim>\<open>getNext\<close>: the elements for the node on top of the stack with the new stack, or \<open>None\<close> when the node
  is finished.\<close>

definition visit_siblings ::
  "bool \<Rightarrow> visited_node \<Rightarrow> visited_node list \<Rightarrow> input_node \<Rightarrow> input_structure \<Rightarrow>
   (filter_element list \<times> visited_node list) option result" where
  "visit_siblings indices v vs nd st =
    (if in_next nd \<noteq> 0 \<and> vn_visitnext v then
       rbind (node (in_next nd) st) (\<lambda>sd.
       rbind (sibling_elements indices nd sd st) (\<lambda>(es, d).
         Inr (Some (es, v\<lparr>vn_node := in_next nd, vn_childrenvisited := False, vn_valuevisited := False,
           vn_closetagcnt := vn_closetagcnt v + d\<rparr> # vs))))
     else Inr None)"

definition visit_value ::
  "bool \<Rightarrow> visited_node \<Rightarrow> visited_node list \<Rightarrow> input_node \<Rightarrow> input_structure \<Rightarrow>
   (filter_element list \<times> visited_node list) option result" where
  "visit_value indices v vs nd st =
    (if vn_valuevisited v then visit_siblings indices v vs nd st
     else rbind (contentvalue nd st) (\<lambda>val. case val of
       Some x \<Rightarrow> Inr (Some ([(ContentValue, x)], v\<lparr>vn_valuevisited := True\<rparr> # vs))
     | None \<Rightarrow> visit_siblings indices (v\<lparr>vn_valuevisited := True\<rparr>) vs nd st))"

definition visit_node ::
  "bool \<Rightarrow> visited_node \<Rightarrow> visited_node list \<Rightarrow> input_structure \<Rightarrow>
   (filter_element list \<times> visited_node list) option result" where
  "visit_node indices v vs st =
    rbind (node (vn_node v) st) (\<lambda>nd.
      if \<not> vn_childrenvisited v \<and> in_firstchild nd \<noteq> 0 then
        rbind (node (in_firstchild nd) st) (\<lambda>cd.
        rbind (tag_element cd st) (\<lambda>tag.
          let arr = in_arrayindex cd \<ge> 0 in
          Inr (Some (tag # (if arr then [index_element cd] else []),
            (visited_node_new (in_firstchild nd) True)\<lparr>vn_closetagcnt := (if arr then 2 else 1)\<rparr>
              # v\<lparr>vn_childrenvisited := True\<rparr> # vs))))
      else visit_value indices v vs nd st)"

text \<open>\<^verbatim>\<open>InputFilter::getNext\<close>; the result \<open>None\<close> is \<^verbatim>\<open>return false\<close>. An exception abandons the filter.\<close>

function pf_getNext :: "preproc_filter \<Rightarrow> (filter_element option \<times> preproc_filter) result" where
  "pf_getNext f =
    (case pf_buffer f of
       e # es \<Rightarrow> Inr (Some e, f\<lparr>pf_buffer := es\<rparr>)
     | [] \<Rightarrow> (case pf_structure f of
         None \<Rightarrow> Inr (None, f\<lparr>pf_error := Some ''internal: illegal call of input filter''\<rparr>)
       | Some st \<Rightarrow> (case pf_stack f of
           [] \<Rightarrow> (case dropWhile (\<lambda>(_, i). i < 0) (pf_nodes f) of
               [] \<Rightarrow> Inr (Some close_element, f\<lparr>pf_nodes := [], pf_structure := None\<rparr>)
             | (name, i) # ns \<Rightarrow> (case node i st of
                 Inl e \<Rightarrow> Inl e
               | Inr _ \<Rightarrow>
                   if name \<noteq> [] then Inr (Some (OpenTag, V_String name),
                     f\<lparr>pf_nodes := ns, pf_stack := [(visited_node_new i False)\<lparr>vn_closetagcnt := 1\<rparr>]\<rparr>)
                   else pf_getNext (f\<lparr>pf_nodes := ns, pf_stack := [visited_node_new i False]\<rparr>)))
         | v # vs \<Rightarrow> (case visit_node (pf_indices f) v vs st of
             Inl e \<Rightarrow> Inl e
           | Inr (Some (es, stk)) \<Rightarrow> Inr (Some (hd es), f\<lparr>pf_stack := stk, pf_buffer := tl es\<rparr>)
           | Inr None \<Rightarrow> pf_getNext (f\<lparr>pf_stack := vs, pf_buffer := replicate (nat (vn_closetagcnt v)) close_element\<rparr>)))))"
  by pat_completeness auto
termination
proof (relation "measures [\<lambda>f. length (pf_nodes f), \<lambda>f. length (pf_stack f)]", simp, goal_cases)
  case (1 f st p ns name i)
  then have "length (p # ns) \<le> length (pf_nodes f)"
    by (metis length_dropWhile_le)
  then show ?case by simp
qed auto

declare pf_getNext.simps [simp del]

section \<open>Writing results\<close>

text \<open>\<^verbatim>\<open>OutputFilter\<close>, with the tags that a result must not have on its top level.\<close>

record preproc_output =
  po_structure :: input_structure
  po_visitor :: int
  po_lasttype :: element_type
  po_taglevel :: int
  po_sourcetags :: "int set"

definition createOutputFilter :: "int \<Rightarrow> int set \<Rightarrow> input_structure \<Rightarrow> preproc_output" where
  "createOutputFilter nv tags st = \<lparr>po_structure = st, po_visitor = nv, po_lasttype = ContentValue, po_taglevel = 0,
    po_sourcetags = tags\<rparr>"

definition po_open :: "(variant \<Rightarrow> 64 word result) \<Rightarrow> int \<Rightarrow> variant \<Rightarrow> preproc_output \<Rightarrow> preproc_output run" where
  "po_open conv level v p =
    run_bind (openTag conv (po_visitor p) v (po_structure p)) (\<lambda>(nv, st).
    run_bind (Some (node nv st)) (\<lambda>nd.
      if po_taglevel p = level \<and> in_tagstr nd \<in> po_sourcetags p
      then Some (Inl (RuntimeError ''forbidden assignment ot result to tag that already exists in input''))
      else Some (Inr (p\<lparr>po_structure := st, po_visitor := nv\<rparr>))))"

definition po_close :: "preproc_output \<Rightarrow> preproc_output run" where
  "po_close p =
    run_bind (closeTag (po_visitor p) (po_structure p)) (\<lambda>(nv, st). Some (Inr (p\<lparr>po_structure := st, po_visitor := nv\<rparr>)))"

definition po_print :: "(variant \<Rightarrow> 64 word result) \<Rightarrow> element_type \<Rightarrow> variant \<Rightarrow> preproc_output \<Rightarrow> preproc_output run" where
  "po_print conv type v p =
    run_bind
      (case type of
         OpenTag \<Rightarrow> po_open conv 1 v (p\<lparr>po_taglevel := po_taglevel p + 1\<rparr>)
       | CloseTag \<Rightarrow> po_close (p\<lparr>po_taglevel := po_taglevel p - 1\<rparr>)
       | Attribute \<Rightarrow> po_open conv 0 v p
       | ContentValue \<Rightarrow>
           run_bind (pushValue (po_visitor p) v (po_structure p)) (\<lambda>st.
             let p = p\<lparr>po_structure := st\<rparr> in if po_lasttype p = Attribute then po_close p else Some (Inr p)))
      (\<lambda>p. Some (Inr (p\<lparr>po_lasttype := type\<rparr>)))"

section \<open>What is read\<close>

text \<open>The elements of a node inside of its tag: its children in their tags, then its value.\<close>

definition tree_name :: "tag_table \<Rightarrow> input_tree \<Rightarrow> string option" where
  "tree_name names t = tt_getstr (nat (il_tagstr (t_lab t))) names"

definition tagged :: "string \<Rightarrow> filter_element list \<Rightarrow> filter_element list" where
  "tagged n es = (OpenTag, V_String n) # es @ [close_element]"

fun serialize :: "tag_table \<Rightarrow> input_tree \<Rightarrow> filter_element list" where
  "serialize names (ITree i l ks) =
    concat (map (\<lambda>k. tagged (the (tree_name names k)) (serialize names k)) ks)
    @ (case il_value l of None \<Rightarrow> [] | Some v \<Rightarrow> [(ContentValue, v)])"

text \<open>A tree without array elements, in which all nodes below the root have a name.\<close>

fun plain_tree :: "tag_table \<Rightarrow> input_tree \<Rightarrow> bool" where
  "plain_tree names (ITree i l ks) =
    list_all (\<lambda>k. il_arrayindex (t_lab k) = -1 \<and> tree_name names k \<noteq> None \<and> plain_tree names k) ks"

text \<open>The calls of \<^verbatim>\<open>getNext\<close> on \<open>f\<close> give the elements and then what the calls on \<open>g\<close> give.\<close>

fun reads :: "preproc_filter \<Rightarrow> filter_element list \<Rightarrow> preproc_filter \<Rightarrow> bool" where
  "reads f [] g = (pf_getNext f = pf_getNext g)"
| "reads f (e # es) g = (\<exists>h. pf_getNext f = Inr (Some e, h) \<and> reads h es g)"

lemma reads_append:
  assumes "reads f es g" and "reads g fs h"
  shows "reads f (es @ fs) h"
  using assms(1)
proof (induction es arbitrary: f)
  case Nil
  with assms(2) show ?case by (cases fs) auto
qed auto

abbreviation at_stack :: "preproc_filter \<Rightarrow> visited_node list \<Rightarrow> preproc_filter" where
  "at_stack f vs \<equiv> f\<lparr>pf_stack := vs, pf_buffer := []\<rparr>"

definition finished :: "visited_node \<Rightarrow> visited_node" where
  "finished v = v\<lparr>vn_childrenvisited := True, vn_valuevisited := True\<rparr>"

lemma getNext_buffer: "reads (f\<lparr>pf_buffer := es\<rparr>) es (f\<lparr>pf_buffer := []\<rparr>)"
proof (induction es)
  case (Cons e es)
  moreover have "pf_getNext (f\<lparr>pf_buffer := e # es\<rparr>) = Inr (Some e, f\<lparr>pf_buffer := es\<rparr>)" by (simp add: pf_getNext.simps)
  ultimately show ?case by auto
qed simp

text \<open>The value of a node whose children are done.\<close>

lemma reads_value:
  assumes "pf_structure f = Some st" and "mem st (vn_node v) = Some nd" and "label_rep (is_content st) nd l"
    and "vn_childrenvisited v \<or> in_firstchild nd = 0" and "\<not> vn_valuevisited v"
  shows "reads (at_stack f (v # vs)) (case il_value l of None \<Rightarrow> [] | Some x \<Rightarrow> [(ContentValue, x)]) (at_stack f (finished v # vs))"
proof -
  have c: "contentvalue nd st = Inr (il_value l)"
    using assms(3) by (cases "il_value l") (auto simp: label_rep_def value_rep_def contentvalue_def at_or_def)
  have skip: "visit_node (pf_indices f) w vs st = visit_siblings (pf_indices f) (finished v) vs nd st"
    if "w = finished v \<or> w = v\<lparr>vn_valuevisited := True\<rparr> \<or> w = v \<and> il_value l = None" for w
    using that assms(2,4,5) c
    by (auto simp: visit_node_def visit_value_def visit_siblings_def finished_def)
  have same: "pf_getNext (at_stack f (w # vs)) = pf_getNext (at_stack f (finished v # vs))"
    if "w = v\<lparr>vn_valuevisited := True\<rparr> \<or> w = v \<and> il_value l = None" for w
  proof -
    have "vn_closetagcnt w = vn_closetagcnt (finished v)" using that by (auto simp: finished_def)
    with that skip [of w] skip [of "finished v"] assms(1) show ?thesis
      by (simp add: pf_getNext.simps [of "f\<lparr>pf_stack := _, pf_buffer := _\<rparr>"] split: sum.split option.split)
  qed
  show ?thesis
  proof (cases "il_value l")
    case (Some x)
    have "pf_getNext (at_stack f (v # vs)) = Inr (Some (ContentValue, x), at_stack f (v\<lparr>vn_valuevisited := True\<rparr> # vs))"
      using assms c Some by (subst pf_getNext.simps) (auto simp: visit_node_def visit_value_def)
    with same [of "v\<lparr>vn_valuevisited := True\<rparr>"] show ?thesis using Some by simp
  qed (use same in simp)
qed

lemma zero_ids: "0 \<notin> set (ids t) \<Longrightarrow> t_id t \<noteq> 0 \<and> 0 \<notin> set (idss (t_kids t))"
  by (cases t) auto

definition child_visit :: "int \<Rightarrow> visited_node" where
  "child_visit i = (visited_node_new i True)\<lparr>vn_closetagcnt := 1\<rparr>"

definition single :: "tag_table \<Rightarrow> input_tree \<Rightarrow> bool" where
  "single names k \<longleftrightarrow> il_arrayindex (t_lab k) = -1 \<and> tree_name names k \<noteq> None"

lemma tag_element_tree:
  "label_rep c nd (t_lab k) \<Longrightarrow> single (is_privatetagmap st) k \<Longrightarrow>
    tag_element nd st = Inr (OpenTag, V_String (the (tree_name (is_privatetagmap st) k)))"
  by (auto simp: tag_element_def tagname_def label_rep_def single_def tree_name_def)

text \<open>From a finished child to its next sibling, or back to the parent.\<close>

lemma reads_sibling:
  assumes "pf_structure f = Some st" and "mem st (t_id k) = Some nd" and "label_rep c nd (t_lab k)" and "in_next nd = t_id k1"
    and "mem st (t_id k1) = Some nd1" and "label_rep c nd1 (t_lab k1)" and "t_id k1 \<noteq> 0"
    and "single (is_privatetagmap st) k" and "single (is_privatetagmap st) k1"
  shows "reads (at_stack f (finished (child_visit (t_id k)) # vs))
    [close_element, (OpenTag, V_String (the (tree_name (is_privatetagmap st) k1)))] (at_stack f (child_visit (t_id k1) # vs))"
proof -
  let ?tag = "(OpenTag, V_String (the (tree_name (is_privatetagmap st) k1)))"
  have "in_arrayindex nd = -1" "in_arrayindex nd1 = -1" using assms(3,6,8,9) by (simp_all add: label_rep_def single_def)
  then have "sibling_elements (pf_indices f) nd nd1 st = Inr ([close_element, ?tag], 0)"
    using tag_element_tree [OF assms(6,9)] by (simp add: sibling_elements_def)
  then have "visit_node (pf_indices f) (finished (child_visit (t_id k))) vs st =
      Inr (Some ([close_element, ?tag], child_visit (t_id k1) # vs))"
    using assms(2,4,5,7)
    by (simp add: visit_node_def visit_value_def visit_siblings_def finished_def child_visit_def visited_node_new_def)
  then have "pf_getNext (at_stack f (finished (child_visit (t_id k)) # vs)) =
      Inr (Some close_element, f\<lparr>pf_stack := child_visit (t_id k1) # vs, pf_buffer := [?tag]\<rparr>)"
    using assms(1) by (subst pf_getNext.simps) simp
  with getNext_buffer [where f = "f\<lparr>pf_stack := child_visit (t_id k1) # vs\<rparr>" and es = "[?tag]"] show ?thesis by simp
qed

lemma reads_parent:
  assumes "pf_structure f = Some st" and "mem st (vn_node v) = Some nd" and "in_next nd = 0 \<or> \<not> vn_visitnext v"
  shows "reads (at_stack f (finished v # vs)) (replicate (nat (vn_closetagcnt v)) close_element) (at_stack f vs)"
proof -
  have "visit_node (pf_indices f) (finished v) vs st = Inr None"
    using assms(2,3) by (auto simp: visit_node_def visit_value_def visit_siblings_def finished_def)
  then have "pf_getNext (at_stack f (finished v # vs)) =
      pf_getNext (f\<lparr>pf_stack := vs, pf_buffer := replicate (nat (vn_closetagcnt v)) close_element\<rparr>)"
    using assms(1) by (subst pf_getNext.simps) (simp add: finished_def)
  then have "reads (at_stack f (finished v # vs)) [] (f\<lparr>pf_stack := vs, pf_buffer := replicate (nat (vn_closetagcnt v)) close_element\<rparr>)"
    by simp
  from reads_append [OF this, of "replicate (nat (vn_closetagcnt v)) close_element"]
  show ?thesis using getNext_buffer [where f = "f\<lparr>pf_stack := vs\<rparr>"] by simp
qed

definition serialized :: "preproc_filter \<Rightarrow> input_structure \<Rightarrow> input_tree \<Rightarrow> bool" where
  "serialized f st t \<longleftrightarrow> (\<forall>v vs nxt. rep (mem st) (is_content st) nxt t \<longrightarrow> vn_node v = t_id t \<longrightarrow>
    \<not> vn_childrenvisited v \<longrightarrow> \<not> vn_valuevisited v \<longrightarrow>
    reads (at_stack f (v # vs)) (serialize (is_privatetagmap st) t) (at_stack f (finished v # vs)))"

abbreviation tagged_tree :: "tag_table \<Rightarrow> input_tree \<Rightarrow> filter_element list" where
  "tagged_tree names k \<equiv> tagged (the (tree_name names k)) (serialize names k)"

lemma reads_children:
  assumes "pf_structure f = Some st" and "reps (mem st) (is_content st) 0 (k # ks)" and "0 \<notin> set (idss (k # ks))"
    and "\<forall>u \<in> set (k # ks). serialized f st u \<and> single (is_privatetagmap st) u"
  shows "reads (at_stack f (child_visit (t_id k) # vs))
    (tl (concat (map (tagged_tree (is_privatetagmap st)) (k # ks)))) (at_stack f vs)"
  using assms(2-)
proof (induction ks arbitrary: k)
  case Nil
  have "reads (at_stack f (child_visit (t_id k) # vs)) (serialize (is_privatetagmap st) k)
      (at_stack f (finished (child_visit (t_id k)) # vs))"
    using Nil.prems(1,3) by (auto simp: serialized_def child_visit_def visited_node_new_def)
  moreover obtain nd where "mem st (t_id k) = Some nd" "in_next nd = 0"
    using Nil.prems(1) by (cases k) (auto simp: node_rep_def)
  then have "reads (at_stack f (finished (child_visit (t_id k)) # vs)) [close_element] (at_stack f vs)"
    using reads_parent [OF assms(1), of "child_visit (t_id k)" nd vs] by (simp add: child_visit_def visited_node_new_def)
  ultimately show ?case using reads_append by (simp add: tagged_def)
next
  case (Cons k1 ks)
  have "reads (at_stack f (child_visit (t_id k) # vs)) (serialize (is_privatetagmap st) k)
      (at_stack f (finished (child_visit (t_id k)) # vs))"
    using Cons.prems(1,3) by (auto simp: serialized_def child_visit_def visited_node_new_def)
  moreover obtain nd where "mem st (t_id k) = Some nd" "label_rep (is_content st) nd (t_lab k)" "in_next nd = t_id k1"
    using Cons.prems(1) by (cases k) (auto simp: node_rep_def)
  moreover obtain nd1 where "mem st (t_id k1) = Some nd1" "label_rep (is_content st) nd1 (t_lab k1)"
    using Cons.prems(1) by (cases k1) (auto simp: node_rep_def)
  moreover have "t_id k1 \<noteq> 0" using Cons.prems(2) zero_ids [of k1] by simp
  ultimately have "reads (at_stack f (child_visit (t_id k) # vs)) (serialize (is_privatetagmap st) k @
      [close_element, (OpenTag, V_String (the (tree_name (is_privatetagmap st) k1)))]) (at_stack f (child_visit (t_id k1) # vs))"
    using reads_sibling [OF assms(1)] reads_append Cons.prems(3) by simp
  from reads_append [OF this Cons.IH] Cons.prems show ?case by (simp add: tagged_def)
qed

lemma plain_serialized:
  assumes "pf_structure f = Some st"
  shows "plain_tree (is_privatetagmap st) t \<Longrightarrow> 0 \<notin> set (idss (t_kids t)) \<Longrightarrow> serialized f st t"
proof (induction t)
  case (ITree i l ks)
  let ?names = "is_privatetagmap st"
  have kids: "\<forall>u \<in> set ks. serialized f st u \<and> single ?names u"
  proof
    fix u assume u: "u \<in> set ks"
    then have "0 \<notin> set (idss (t_kids u))" using ITree.prems(2) zero_ids [of u] by simp
    with ITree u show "serialized f st u \<and> single ?names u" by (simp add: list_all_iff single_def)
  qed
  show ?case
    unfolding serialized_def
  proof (intro allI impI)
    fix v :: visited_node and vs nxt
    assume r: "rep (mem st) (is_content st) nxt (ITree i l ks)" and v: "vn_node v = t_id (ITree i l ks)"
      "\<not> vn_childrenvisited v" "\<not> vn_valuevisited v"
    then obtain nd where nd: "mem st (vn_node v) = Some nd" "label_rep (is_content st) nd l" "in_firstchild nd = first_or 0 ks"
      and rk: "reps (mem st) (is_content st) 0 ks" by (auto simp: node_rep_def)
    let ?val = "case il_value l of None \<Rightarrow> [] | Some x \<Rightarrow> [(ContentValue, x)]"
    show "reads (at_stack f (v # vs)) (serialize ?names (ITree i l ks)) (at_stack f (finished v # vs))"
    proof (cases ks)
      case Nil
      with reads_value [OF assms nd(1,2) _ v(3), of vs] nd(3) show ?thesis by simp
    next
      case (Cons k ks')
      let ?w = "v\<lparr>vn_childrenvisited := True\<rparr>"
      obtain cd where cd: "mem st (t_id k) = Some cd" "label_rep (is_content st) cd (t_lab k)"
        using rk Cons by (cases k) (auto simp: node_rep_def)
      have k: "single ?names k" "t_id k \<noteq> 0" using kids Cons ITree.prems(2) zero_ids [of k] by auto
      then have "in_arrayindex cd = -1" using cd(2) by (simp add: label_rep_def single_def)
      then have "visit_node (pf_indices f) v vs st =
          Inr (Some ([(OpenTag, V_String (the (tree_name ?names k)))], child_visit (t_id k) # ?w # vs))"
        using nd cd v(2) k Cons tag_element_tree [OF cd(2) k(1)] by (simp add: visit_node_def child_visit_def)
      then have "pf_getNext (at_stack f (v # vs)) =
          Inr (Some (OpenTag, V_String (the (tree_name ?names k))), at_stack f (child_visit (t_id k) # ?w # vs))"
        using assms by (subst pf_getNext.simps) simp
      moreover have "reads (at_stack f (child_visit (t_id k) # ?w # vs))
          (tl (concat (map (tagged_tree ?names) (k # ks')))) (at_stack f (?w # vs))"
        by (rule reads_children [OF assms]) (use rk kids ITree.prems(2) Cons in auto)
      moreover have "reads (at_stack f (?w # vs)) ?val (at_stack f (finished v # vs))"
        using reads_value [OF assms, of ?w nd l vs] nd v by (simp add: finished_def)
      ultimately have "reads (at_stack f (v # vs)) ((OpenTag, V_String (the (tree_name ?names k))) #
          tl (concat (map (tagged_tree ?names) (k # ks'))) @ ?val) (at_stack f (finished v # vs))"
        using reads_append by (simp only: reads.simps) blast
      then show ?thesis using Cons by (simp add: tagged_def)
    qed
  qed
qed

text \<open>An argument: the subtree under the name that is given to it, or without a tag for an empty name.\<close>

definition argument_elements :: "tag_table \<Rightarrow> string \<times> input_tree \<Rightarrow> filter_element list" where
  "argument_elements names a = (case a of (n, t) \<Rightarrow> if n = [] then serialize names t else tagged n (serialize names t))"

lemma reads_argument:
  assumes st: "pf_structure f = Some st" and t: "serialized (f\<lparr>pf_nodes := ns\<rparr>) st t" "rep (mem st) (is_content st) nxt t" "0 \<le> t_id t"
  shows "reads (at_stack (f\<lparr>pf_nodes := (n, t_id t) # ns\<rparr>) []) (argument_elements (is_privatetagmap st) (n, t))
    (at_stack (f\<lparr>pf_nodes := ns\<rparr>) [])"
proof -
  let ?f = "f\<lparr>pf_nodes := ns\<rparr>" and ?v = "visited_node_new (t_id t) False"
  let ?w = "if n = [] then ?v else ?v\<lparr>vn_closetagcnt := 1\<rparr>"
  obtain nd where nd: "mem st (t_id t) = Some nd" using t(2) by (cases t) auto
  have "reads (at_stack (f\<lparr>pf_nodes := (n, t_id t) # ns\<rparr>) []) (if n = [] then [] else [(OpenTag, V_String n)])
      (at_stack ?f [?w])"
    using st nd t(3)
    by (cases f) (auto simp: pf_getNext.simps [of "\<lparr>pf_structure = _, pf_nodes = _ # _, pf_stack = [], pf_buffer = [], pf_indices = _, pf_error = _\<rparr>"])
  moreover have "reads (at_stack ?f [?w]) (serialize (is_privatetagmap st) t) (at_stack ?f [finished ?w])"
    by (rule t(1) [unfolded serialized_def, rule_format, OF t(2)]) (simp_all add: visited_node_new_def)
  moreover have "reads (at_stack ?f [finished ?w]) (if n = [] then [] else [close_element]) (at_stack ?f [])"
    using reads_parent [of ?f st ?w nd "[]"] st nd by (cases "n = []") (simp_all add: visited_node_new_def)
  ultimately have "reads (at_stack (f\<lparr>pf_nodes := (n, t_id t) # ns\<rparr>) [])
      ((if n = [] then [] else [(OpenTag, V_String n)]) @ serialize (is_privatetagmap st) t
        @ (if n = [] then [] else [close_element])) (at_stack ?f [])"
    using reads_append by blast
  then show ?thesis by (simp add: argument_elements_def tagged_def split: if_splits)
qed

lemma reads_arguments:
  assumes "pf_structure f = Some st" and "tree_in st root"
    and "\<forall>(n, t) \<in> set as. t \<in> set (descendants root) \<and> plain_tree (is_privatetagmap st) t"
  shows "reads (at_stack (f\<lparr>pf_nodes := map (\<lambda>(n, t). (n, t_id t)) as\<rparr>) [])
    (concat (map (argument_elements (is_privatetagmap st)) as)) (at_stack (f\<lparr>pf_nodes := []\<rparr>) [])"
  using assms(3)
proof (induction as)
  case (Cons a as)
  obtain n t where a: "a = (n, t)" by (cases a)
  let ?ns = "map (\<lambda>(n, t). (n, t_id t)) as"
  have t: "t \<in> set (descendants root)" "plain_tree (is_privatetagmap st) t" using Cons.prems a by auto
  obtain nxt where r: "rep (mem st) (is_content st) nxt t" using tree_in_rep [OF assms(2) t(1)] by blast
  then have "0 \<le> t_id t" by (cases t) (auto dest: mem_less)
  moreover have "serialized (f\<lparr>pf_nodes := ?ns\<rparr>) st t"
    using plain_serialized [of "f\<lparr>pf_nodes := ?ns\<rparr>" st t] assms(1) t tree_in_kids [OF assms(2) t(1)] by simp
  ultimately have "reads (at_stack (f\<lparr>pf_nodes := (n, t_id t) # ?ns\<rparr>) []) (argument_elements (is_privatetagmap st) (n, t))
      (at_stack (f\<lparr>pf_nodes := ?ns\<rparr>) [])"
    using reads_argument [OF assms(1) _ r] by blast
  from reads_append [OF this Cons.IH] Cons.prems a show ?case by simp
qed simp


text \<open>An example: the value of \<^verbatim>\<open>a\<close> in the document \<^verbatim>\<open>a: 7\<close> as the argument \<^verbatim>\<open>x\<close>, and the whole document.\<close>

definition single_events :: "input_event list" where
  "single_events = [Ev_Open (V_String ''a''), Ev_Value (V_Int 7), Ev_Close]"

definition single_kid :: input_tree where
  "single_kid = ITree 1 \<lparr>il_tag = 1, il_tagstr = 2, il_arrayindex = -1, il_value = Some (V_Int 7)\<rparr> []"

definition single_document :: input_document where
  "single_document = \<lparr>idoc_count = 2, idoc_names = snd (tt_get ''a'' (tt_new False)),
    idoc_open = [OElem 0 \<lparr>il_tag = 0, il_tagstr = 0, il_arrayindex = -1, il_value = None\<rparr> [single_kid]], idoc_done = False\<rparr>"

lemma single_build: "doc_build example_conv (tt_new False) single_events (doc_new (tt_new False)) = Inr single_document"
  by code_simp


end
