(* ===== verification/Transaction_Function.thy ===== *)
theory Transaction_Function
  imports Preproc_Filters Path_Rewriter Tdl_Source
begin

text \<open>
  The call of a transaction function, \<^verbatim>\<open>src/modules/cmdbind/tdl/tdlTransactionFunction.cpp\<close>: authorization, reading of
  the input, the preprocessing steps (\<^verbatim>\<open>tdlTransactionPreprocStep.cpp\<close>), the database transaction with the
  audit functions, and the result filter. The functions that are called by name, and what they do to the
  rest of the server, the world \<open>'w\<close>, are parameters. An exception abandons the input structure.
\<close>

section \<open>Reading of the input\<close>

text \<open>The input filter, and the loop of \<^verbatim>\<open>RedirectFilterClosure::call\<close> (\<^verbatim>\<open>include/filter/redirectFilterClosure.hpp\<close>)
  without a final closing tag. The filter of the input structure never returns false from \<^verbatim>\<open>print\<close>.\<close>

datatype filter_state = Filter_Start | Filter_Open | Filter_EndOfMessage | Filter_Error

record 's input_ops =
  io_getNext :: "'s \<Rightarrow> filter_element option result \<times> 's"
  io_state :: "'s \<Rightarrow> filter_state"
  io_getError :: "'s \<Rightarrow> string"

record function_input =
  fi_structure :: input_structure
  fi_lasttype :: element_type

definition function_input_new :: "transaction_function \<Rightarrow> function_input" where
  "function_input_new f = \<lparr>fi_structure = inputStructure (ps_tagtab (p_pathset (tf_program f))), fi_lasttype = CloseTag\<rparr>"

definition fi_print ::
  "(variant \<Rightarrow> 64 word result) \<Rightarrow> element_type \<Rightarrow> variant \<Rightarrow> function_input \<Rightarrow> function_input run" where
  "fi_print conv type v fi =
    run_bind
      (case type of
         OpenTag \<Rightarrow> openTag_here conv v (fi_structure fi)
       | CloseTag \<Rightarrow> closeTag_here (fi_structure fi)
       | Attribute \<Rightarrow> openTag_here conv v (fi_structure fi)
       | ContentValue \<Rightarrow> run_bind (pushValue_here v (fi_structure fi)) (\<lambda>st.
           if fi_lasttype fi = Attribute then closeTag_here st else Some (Inr st)))
      (\<lambda>st. Some (Inr \<lparr>fi_structure = st, fi_lasttype = type\<rparr>))"

definition tag_depth :: "element_type \<Rightarrow> int \<Rightarrow> int" where
  "tag_depth type level = (case type of OpenTag \<Rightarrow> level + 1 | CloseTag \<Rightarrow> level - 1 | _ \<Rightarrow> level)"

partial_function (option) redirect_call ::
  "(variant \<Rightarrow> 64 word result) \<Rightarrow> 's input_ops \<Rightarrow> int \<Rightarrow> 's \<Rightarrow> function_input \<Rightarrow> (bool \<times> int \<times> 's \<times> function_input) run" where
  "redirect_call conv io level src fi =
    (case io_getNext io src of
       (Inl e, _) \<Rightarrow> Some (Inl e)
     | (Inr None, src) \<Rightarrow> (case io_state io src of
         Filter_EndOfMessage \<Rightarrow> Some (Inr (False, level, src, fi))
       | Filter_Error \<Rightarrow> Some (Inl (RuntimeError (io_getError io src)))
       | _ \<Rightarrow> Some (Inr (True, level, src, fi)))
     | (Inr (Some (type, v)), src) \<Rightarrow>
         let level = tag_depth type level in
         if type = CloseTag \<and> level < 0 then Some (Inr (True, level, src, fi))
         else run_bind (fi_print conv type v fi) (redirect_call conv io level src))"

declare redirect_call.simps [code]

section \<open>Functions called by name\<close>

text \<open>The argument of a form function, for a preprocessing step with the flag for the comparison of tags; the result is
  the sequence of elements it gives and the error it ends with, if any.\<close>

datatype form_argument = Arg_Preproc preproc_filter bool | Arg_Output vm_filter

datatype form_outcome = Form_Incomplete "string option" | Form_Result "filter_element list" "string option"

type_synonym 'w form_function = "form_argument \<Rightarrow> 'w \<Rightarrow> form_outcome result \<times> 'w"

record ('db, 'w) exec_context =
  xc_authorizationFunction :: "string \<Rightarrow> (string \<Rightarrow> 'w \<Rightarrow> bool result \<times> 'w) option"
  xc_normalizeFunction :: "string \<Rightarrow> (variant \<Rightarrow> variant result) option"
  xc_formFunction :: "string \<Rightarrow> 'w form_function option"
  xc_auditFunction :: "string \<Rightarrow> 'w form_function option"
  xc_transaction :: "string \<Rightarrow> 'w \<Rightarrow> 'db transaction option result \<times> 'w"
  xc_release :: "'db transaction \<Rightarrow> 'w \<Rightarrow> 'w"
  xc_ops :: "'db transaction_ops"

text \<open>\<^verbatim>\<open>ExecContext::checkAuthorization\<close> (\<^verbatim>\<open>libwolframe/execContext.cpp\<close>); the result is the error message of a
  refusal.\<close>

definition checkAuthorization :: "('db, 'w) exec_context \<Rightarrow> string \<Rightarrow> string \<Rightarrow> 'w \<Rightarrow> string option result \<times> 'w" where
  "checkAuthorization xc funcname resource w =
    (if funcname = [] then (Inr None, w)
     else case xc_authorizationFunction xc funcname of
       None \<Rightarrow> (Inr (Some (''authorization function '' @ quoted funcname @ '' is not defined'')), w)
     | Some func \<Rightarrow> (case func resource w of
         (Inr True, w) \<Rightarrow> (Inr None, w)
       | (Inr False, w) \<Rightarrow> (Inr (Some []), w)
       | (Inl (RuntimeError e), w) \<Rightarrow> (Inr (Some (''authorization function '' @ quoted funcname @ '' failed: '' @ e)), w)
       | (Inl e, w) \<Rightarrow> (Inl e, w)))"

fun check_authorizations :: "('db, 'w) exec_context \<Rightarrow> string \<Rightarrow> (string \<times> string) list \<Rightarrow> 'w \<Rightarrow> unit result \<times> 'w" where
  "check_authorizations xc name [] w = (Inr (), w)"
| "check_authorizations xc name ((f, r) # zs) w =
    (case checkAuthorization xc f r w of
       (Inl e, w) \<Rightarrow> (Inl e, w)
     | (Inr None, w) \<Rightarrow> check_authorizations xc name zs w
     | (Inr (Some msg), w) \<Rightarrow> (Inl (RuntimeError (''execution of transaction function '' @ quoted name @
         '' denied in this authorization context: '' @ msg)), w))"

section \<open>Preprocessing\<close>

definition cstring_at :: "string \<Rightarrow> nat \<Rightarrow> string" where
  "cstring_at s i = takeWhile (\<lambda>c. c \<noteq> NUL) (drop i s)"

text \<open>Part [1A]: the node for the result.\<close>

fun visit_tags :: "int \<Rightarrow> string list \<Rightarrow> input_structure \<Rightarrow> int run" where
  "visit_tags nv [] st = Some (Inr nv)"
| "visit_tags nv (t # ts) st = run_bind (visitTag nv t st) (\<lambda>nv. visit_tags nv ts st)"

definition result_node :: "int \<Rightarrow> string list \<Rightarrow> input_structure \<Rightarrow> (int \<times> input_structure) run" where
  "result_node ni path st =
    (if path = [] then Some (Inr (ni, st))
     else run_bind (visit_tags ni (butlast path) st) (\<lambda>nv.
       if last path \<noteq> ''.'' then visitOrOpenUniqTag nv (last path) st else Some (Inr (nv, st))))"

text \<open>Part [1B]: the tags that the result must not have. The set is kept for the following nodes.\<close>

partial_function (option) source_tags_loop :: "int \<Rightarrow> int set \<Rightarrow> input_structure \<Rightarrow> int set run" where
  "source_tags_loop ci tags st =
    run_bind (Some (node ci st)) (\<lambda>nd.
      if in_next nd = 0 then Some (Inr (insert (in_tagstr nd) tags))
      else source_tags_loop (in_next nd) (insert (in_tagstr nd) tags) st)"

declare source_tags_loop.simps [code]

definition source_tags :: "int \<Rightarrow> int set \<Rightarrow> input_structure \<Rightarrow> int set run" where
  "source_tags nv tags st =
    run_bind (Some (node nv st)) (\<lambda>nd.
      if in_firstchild nd = 0 then Some (Inr tags) else source_tags_loop (in_firstchild nd) tags st)"

text \<open>Part [2]: the parameters. \<open>sel\<close> is \<^verbatim>\<open>parameter\<close>, a node for every argument, 0 for one that selects nothing.\<close>

fun preproc_parameters ::
  "preproc_program_step \<Rightarrow> (preproc_argument_type \<times> nat \<times> nat) list \<Rightarrow> int \<Rightarrow> int list \<Rightarrow> (string \<times> int) list \<Rightarrow>
   input_structure \<Rightarrow> (string \<times> int) list run" where
  "preproc_parameters p [] ni sel assigns st = Some (Inr assigns)"
| "preproc_parameters p ((type, name, val) # args) ni sel assigns st =
    (case type of
       Pa_SelectorPath \<Rightarrow>
         run_bind (Some (at_or (LogicError ''vector::_M_range_check'') (pp_selectors p) val)) (\<lambda>path.
         run_bind (selectNodes path ni sel st) (\<lambda>sel'.
           if length sel' = length sel + 1
           then preproc_parameters p args ni sel' (assigns @ [(cstring_at (pp_strings p) name, last sel')]) st
           else if length sel' < length sel + 1 then preproc_parameters p args ni (sel' @ [0]) assigns st
           else Some (Inl (RuntimeError (''referenced parameter '' @ quoted (cstring_at (pp_strings p) name) @ '' is not unique'')))))
     | Pa_LoopCounter \<Rightarrow>
         Some (Inl (RuntimeError ''not implemented yet: Loop counter as parameter of TDL preprocessing step''))
     | Pa_Constant \<Rightarrow>
         Some (Inl (RuntimeError ''not implemented yet: Constant as parameter of TDL preprocessing step'')))"

text \<open>Part [3]: the call.\<close>

definition expectArg :: "preproc_filter \<Rightarrow> element_type \<Rightarrow> string \<Rightarrow> (variant \<times> preproc_filter) result" where
  "expectArg f et errmsg =
    rbind (pf_getNext f) (\<lambda>(r, f). case r of
      Some (it, iv) \<Rightarrow> if it \<noteq> et then Inl (RuntimeError errmsg) else Inr (iv, f)
    | None \<Rightarrow> Inl (RuntimeError (case pf_error f of Some e \<Rightarrow> e | None \<Rightarrow> ''unexpected end of input'')))"

definition structure_error :: string where
  "structure_error = ''atomic value (pure or with single tag) expected as input of normalization function (got structure instead)''"

text \<open>The argument of a normalize function, \<open>None\<close> for no input.\<close>

definition normalize_argument :: "preproc_filter \<Rightarrow> variant option result" where
  "normalize_argument f =
    rbind (pf_getNext f) (\<lambda>(r, f).
    rbind (case r of
        None \<Rightarrow> Inr (Some (V_Null, f))
      | Some (et, ev) \<Rightarrow> (case et of
          OpenTag \<Rightarrow> rbind (expectArg f ContentValue structure_error) (\<lambda>(ev, f).
            rbind (expectArg f CloseTag structure_error) (\<lambda>(_, f). Inr (Some (ev, f))))
        | Attribute \<Rightarrow> rbind (expectArg f ContentValue structure_error) (\<lambda>(ev, f). Inr (Some (ev, f)))
        | ContentValue \<Rightarrow> Inr (Some (ev, f))
        | CloseTag \<Rightarrow> Inr None)) (\<lambda>inp. case inp of
      None \<Rightarrow> Inr None
    | Some (ev, f) \<Rightarrow> rbind (expectArg f CloseTag structure_error) (\<lambda>_. Inr (Some ev))))"

definition call_normalizer ::
  "(variant \<Rightarrow> variant result) \<Rightarrow> string list \<Rightarrow> int \<Rightarrow> preproc_filter \<Rightarrow> input_structure \<Rightarrow> input_structure run" where
  "call_normalizer nf path nv f st =
    run_bind (Some (normalize_argument f)) (\<lambda>arg. case arg of
      None \<Rightarrow> Some (Inr st)
    | Some ev \<Rightarrow> run_bind (Some (nf ev)) (\<lambda>res. if path = [] then Some (Inr st) else pushValue nv res st))"

fun mapResult ::
  "(variant \<Rightarrow> 64 word result) \<Rightarrow> filter_element list \<Rightarrow> string option \<Rightarrow> int \<Rightarrow> preproc_output \<Rightarrow> preproc_output run" where
  "mapResult conv [] err level p =
    Some (Inl (RuntimeError (case err of Some e \<Rightarrow> e | None \<Rightarrow> ''unexpected end of message in result'')))"
| "mapResult conv ((et, ev) # es) err level p =
    (let level = tag_depth et level in
     if et = CloseTag \<and> level < 0 then Some (Inr p)
     else run_bind (po_print conv et ev p) (mapResult conv es err level))"

definition form_result ::
  "(variant \<Rightarrow> 64 word result) \<Rightarrow> string list \<Rightarrow> int \<Rightarrow> int set \<Rightarrow> form_outcome result \<Rightarrow> input_structure \<Rightarrow> input_structure run" where
  "form_result conv path nv tags outcome st =
    (case outcome of
       Inl e \<Rightarrow> Some (Inl e)
     | Inr (Form_Incomplete None) \<Rightarrow> Some (Inl (LogicError ''internal: incomplete input''))
     | Inr (Form_Incomplete (Some err)) \<Rightarrow> Some (Inl (RuntimeError err))
     | Inr (Form_Result es err) \<Rightarrow>
         if path = [] then Some (Inr st)
         else run_bind (mapResult conv es err 0 (createOutputFilter nv tags st)) (\<lambda>p. Some (Inr (po_structure p))))"

text \<open>A computation on the structure that may call functions with an effect on the world.\<close>

definition in_world :: "'a run \<Rightarrow> 'w \<Rightarrow> ('a \<Rightarrow> ('b result \<times> 'w) option) \<Rightarrow> ('b result \<times> 'w) option" where
  "in_world r w f = (case r of None \<Rightarrow> None | Some (Inl e) \<Rightarrow> Some (Inl e, w) | Some (Inr x) \<Rightarrow> f x)"

definition preproc_node ::
  "(variant \<Rightarrow> 64 word result) \<Rightarrow> ('db, 'w) exec_context \<Rightarrow> preproc_program_step \<Rightarrow> int \<Rightarrow> int set \<Rightarrow> input_structure \<Rightarrow> 'w \<Rightarrow>
   ((int set \<times> input_structure) result \<times> 'w) option" where
  "preproc_node conv xc p ni tags st w =
    in_world (result_node ni (pp_resultpath p) st) w (\<lambda>(nv, st).
    in_world (source_tags nv tags st) w (\<lambda>tags.
    in_world (preproc_parameters p (pp_arguments p) ni [] [] st) w (\<lambda>assigns.
    let f = createInputFilter assigns st in
    case xc_formFunction xc (pp_function p) of
      Some ff \<Rightarrow> (case ff (Arg_Preproc f (\<not> tt_case_sensitive (is_tagmap st))) w of
        (outcome, w) \<Rightarrow> in_world (form_result conv (pp_resultpath p) nv tags outcome st) w (\<lambda>st. Some (Inr (tags, st), w)))
    | None \<Rightarrow> (case xc_normalizeFunction xc (pp_function p) of
        Some nf \<Rightarrow> in_world (call_normalizer nf (pp_resultpath p) nv f st) w (\<lambda>st. Some (Inr (tags, st), w))
      | None \<Rightarrow> Some (Inl (RuntimeError ''function not defined''), w)))))"

text \<open>The loop over the selected nodes; a node that was selected before is skipped.\<close>

fun preproc_nodes ::
  "(variant \<Rightarrow> 64 word result) \<Rightarrow> ('db, 'w) exec_context \<Rightarrow> preproc_program_step \<Rightarrow> int list \<Rightarrow> int set \<Rightarrow> int set \<Rightarrow>
   input_structure \<Rightarrow> 'w \<Rightarrow> (input_structure result \<times> 'w) option" where
  "preproc_nodes conv xc p [] visited tags st w = Some (Inr st, w)"
| "preproc_nodes conv xc p (ni # nis) visited tags st w =
    (if ni \<in> visited then preproc_nodes conv xc p nis visited tags st w
     else case preproc_node conv xc p ni tags st w of
       None \<Rightarrow> None
     | Some (Inl e, w) \<Rightarrow> Some (Inl e, w)
     | Some (Inr (tags, st), w) \<Rightarrow> preproc_nodes conv xc p nis (insert ni visited) tags st w)"

definition preproc_call ::
  "(variant \<Rightarrow> 64 word result) \<Rightarrow> ('db, 'w) exec_context \<Rightarrow> preproc_program_step \<Rightarrow> input_structure \<Rightarrow> 'w \<Rightarrow>
   (input_structure result \<times> 'w) option" where
  "preproc_call conv xc p st w =
    map_option (map_prod (\<lambda>r. case r of
        Inl (RuntimeError e) \<Rightarrow> Inl (RuntimeError (''failed to call TDL preprocessing function '' @ quoted (pp_function p) @ '': '' @ e))
      | _ \<Rightarrow> r) id)
    (in_world
      (run_bind (Some (at_or (LogicError ''vector::_M_range_check'') (pp_selectors p) 0)) (\<lambda>sel. selectNodes sel 0 [] st)) w
      (\<lambda>nodes. preproc_nodes conv xc p nodes {} {} st w))"

fun finalize ::
  "(variant \<Rightarrow> 64 word result) \<Rightarrow> ('db, 'w) exec_context \<Rightarrow> preproc_program_step list \<Rightarrow> input_structure \<Rightarrow> 'w \<Rightarrow>
   (input_structure result \<times> 'w) option" where
  "finalize conv xc [] st w = Some (Inr st, w)"
| "finalize conv xc (p # ps) st w =
    (case preproc_call conv xc p st w of
       None \<Rightarrow> None
     | Some (Inl e, w) \<Rightarrow> Some (Inl e, w)
     | Some (Inr st, w) \<Rightarrow> finalize conv xc ps st w)"

section \<open>The transaction\<close>

definition databaseError_throwtext :: "database_error \<Rightarrow> string \<Rightarrow> string" where
  "databaseError_throwtext err name =
    ''error in transaction '' @ quoted name @ '':''
    @ (if de_errordetail err \<noteq> [] then '' '' @ removeCRLF (de_errordetail err)
       else if de_errormsg err \<noteq> [] then '' '' @ removeCRLF (de_errormsg err) else [])
    @ (if de_errorhint err \<noteq> [] then '' '' @ de_errorhint err else [])"

text \<open>The body of the loop over the audit steps; \<open>i\<close> is \<^verbatim>\<open>auditFunctionIdx\<close>.\<close>

definition audit_call :: "('db, 'w) exec_context \<Rightarrow> vm_output \<Rightarrow> nat \<Rightarrow> string \<Rightarrow> 'w \<Rightarrow> unit result \<times> 'w" where
  "audit_call xc out i name w =
    (case vmTransactionInputFilter False out i of
       Inl e \<Rightarrow> (Inl e, w)
     | Inr f \<Rightarrow> (case (case xc_auditFunction xc name of Some g \<Rightarrow> Some g | None \<Rightarrow> xc_formFunction xc name) of
         None \<Rightarrow> (Inl (RuntimeError (''transaction audit function '' @ quoted name @
           '' not found (must be defined as audit or form function)'')), w)
       | Some g \<Rightarrow> (case g (Arg_Output f) w of
           (Inl e, w) \<Rightarrow> (Inl e, w)
         | (Inr (Form_Incomplete _), w) \<Rightarrow>
             (Inl (RuntimeError (''failed to call audit function '' @ quoted name @ '' (input not complete)'')), w)
         | (Inr (Form_Result _ _), w) \<Rightarrow> (Inr (), w))))"

fun audit_calls ::
  "('db, 'w) exec_context \<Rightarrow> string \<Rightarrow> vm_output \<Rightarrow> nat \<Rightarrow> (audit_level \<times> string) list \<Rightarrow> 'db transaction \<Rightarrow> 'w \<Rightarrow>
   unit result \<times> 'db transaction \<times> 'w" where
  "audit_calls xc name out i [] t w = (Inr (), t, w)"
| "audit_calls xc name out i ((level, f) # as) t w =
    (case audit_call xc out i f w of
       (Inr _, w) \<Rightarrow> audit_calls xc name out (Suc i) as t w
     | (Inl (RuntimeError e), w) \<Rightarrow>
         if level = Audit_Critical then
           (case transaction_rollback (xc_ops xc) t of
              (Inl e', t) \<Rightarrow> (Inl e', t, w)
            | (Inr _, t) \<Rightarrow> (Inl (RuntimeError (''critical audit function '' @ quoted f @
                '' failed and so the transaction function '' @ quoted name @ '' (rollback): '' @ [CHR 0x27] @ e)), t, w))
         else audit_calls xc name out (Suc i) as t w
     | (Inl e, w) \<Rightarrow> (Inl e, t, w))"

text \<open>From \<^verbatim>\<open>begin\<close> to \<^verbatim>\<open>commit\<close>. \<^verbatim>\<open>getLastError\<close> of the transaction is never null.\<close>

definition run_transaction ::
  "('db, 'w) exec_context \<Rightarrow> transaction_function \<Rightarrow> program_image \<Rightarrow> value_tuple_set list \<Rightarrow> 'db transaction \<Rightarrow> 'w \<Rightarrow>
   (vm_output result \<times> 'db transaction \<times> 'w) option" where
  "run_transaction xc f prg tuples t w =
    (case transaction_begin (xc_ops xc) t of
       (Inl e, t) \<Rightarrow> Some (Inl e, t, w)
     | (Inr _, t) \<Rightarrow> (case transaction_execute (xc_ops xc) prg tuples t of
         None \<Rightarrow> None
       | Some (Inl e, t) \<Rightarrow> Some (Inl e, t, w)
       | Some (Inr None, t) \<Rightarrow> Some (Inl (RuntimeError (databaseError_throwtext (t_lastError t) (tf_name f))), t, w)
       | Some (Inr (Some out), t) \<Rightarrow> (case audit_calls xc (tf_name f) out 1 (tf_audit f) t w of
           (Inl e, t, w) \<Rightarrow> Some (Inl e, t, w)
         | (Inr _, t, w) \<Rightarrow> (case transaction_commit (xc_ops xc) t of
             (Inl e, t) \<Rightarrow> Some (Inl e, t, w)
           | (Inr _, t) \<Rightarrow> Some (Inr out, t, w)))))"

text \<open>The scope of the transaction object, which is released on every way out.\<close>

definition transaction_scope ::
  "('db, 'w) exec_context \<Rightarrow> transaction_function \<Rightarrow> program_image \<Rightarrow> value_tuple_set list \<Rightarrow> 'w \<Rightarrow> (vm_output result \<times> 'w) option" where
  "transaction_scope xc f prg tuples w =
    (case xc_transaction xc (tf_name f) w of
       (Inl e, w) \<Rightarrow> Some (Inl e, w)
     | (Inr None, w) \<Rightarrow> Some (Inl (RuntimeError ''failed to allocate transaction object''), w)
     | (Inr (Some t), w) \<Rightarrow> (case run_transaction xc f prg tuples t w of
         None \<Rightarrow> None
       | Some (r, t, w) \<Rightarrow> Some (r, xc_release xc t w)))"

section \<open>The call\<close>

datatype function_result = Result_Output vm_filter | Result_Filtered "filter_element list" "string option"

definition build_result ::
  "('db, 'w) exec_context \<Rightarrow> transaction_function \<Rightarrow> vm_output \<Rightarrow> 'w \<Rightarrow> function_result result \<times> 'w" where
  "build_result xc f out w =
    (case vmTransactionInputFilter False out 0 of
       Inl e \<Rightarrow> (Inl e, w)
     | Inr flt \<Rightarrow>
         if tf_resultfilter f = [] then (Inr (Result_Output flt), w)
         else case xc_formFunction xc (tf_resultfilter f) of
           None \<Rightarrow> (Inl (RuntimeError (''transaction result filter function '' @ quoted (tf_resultfilter f) @
             '' not found (must be defined as form function)'')), w)
         | Some g \<Rightarrow> (case g (Arg_Output flt) w of
             (Inl e, w) \<Rightarrow> (Inl e, w)
           | (Inr (Form_Incomplete _), w) \<Rightarrow>
               (Inl (RuntimeError (''failed to call filter function '' @ quoted (tf_resultfilter f) @
                 '' with result of transaction (input not complete)'')), w)
           | (Inr (Form_Result es err), w) \<Rightarrow> (Inr (Result_Filtered es err), w)))"

text \<open>State 3 of the call.\<close>

definition execute_function ::
  "(variant \<Rightarrow> 64 word result) \<Rightarrow> ('db, 'w) exec_context \<Rightarrow> transaction_function \<Rightarrow> input_structure \<Rightarrow> 'w \<Rightarrow>
   ((input_structure \<times> function_result) result \<times> 'w) option" where
  "execute_function conv xc f st w =
    (case finalize conv xc (tf_preproc f) st w of
       None \<Rightarrow> None
     | Some (Inl e, w) \<Rightarrow> Some (Inl e, w)
     | Some (Inr st, w) \<Rightarrow> in_world (tdlTransactionInput (tf_program f) [] st) w (\<lambda>inp.
         case transaction_scope xc f (rw_prg inp) (rw_heap inp) w of
           None \<Rightarrow> None
         | Some (Inl e, w) \<Rightarrow> Some (Inl e, w)
         | Some (Inr out, w) \<Rightarrow> Some (map_prod (map_sum id (Pair st)) id (build_result xc f out w))))"

text \<open>\<^verbatim>\<open>TdlTransactionFunctionClosure\<close>; \<open>cl_source\<close> and \<open>cl_taglevel\<close> are members of \<^verbatim>\<open>m_input\<close>, and \<open>cl_input\<close> is
  what \<^verbatim>\<open>m_inputstructptr\<close> points to.\<close>

record 's closure =
  cl_state :: nat
  cl_taglevel :: int
  cl_source :: "'s option"
  cl_input :: "function_input option"
  cl_result :: "function_result option"

definition createClosure :: "'s closure" where
  "createClosure = \<lparr>cl_state = 0, cl_taglevel = 0, cl_source = None, cl_input = None, cl_result = None\<rparr>"

text \<open>\<^verbatim>\<open>RedirectFilterClosure::init\<close> sets \<^verbatim>\<open>m_state\<close> and \<^verbatim>\<open>m_taglevel\<close> to zero again.\<close>

definition closure_init :: "transaction_function \<Rightarrow> 's \<Rightarrow> 's closure \<Rightarrow> 's closure" where
  "closure_init f src c = c\<lparr>cl_state := 1, cl_taglevel := 0, cl_source := Some src, cl_input := Some (function_input_new f)\<rparr>"

definition call_execute ::
  "(variant \<Rightarrow> 64 word result) \<Rightarrow> ('db, 'w) exec_context \<Rightarrow> transaction_function \<Rightarrow> 's closure \<Rightarrow> 'w \<Rightarrow>
   ((bool \<times> 's closure) result \<times> 'w) option" where
  "call_execute conv xc f c w =
    (case cl_input c of
       None \<Rightarrow> Some (Inl (Undefined ''null pointer''), w)
     | Some fi \<Rightarrow> (case execute_function conv xc f (fi_structure fi) w of
         None \<Rightarrow> None
       | Some (Inl e, w) \<Rightarrow> Some (Inl e, w)
       | Some (Inr (st, r), w) \<Rightarrow>
           Some (Inr (True, c\<lparr>cl_state := 4, cl_input := Some (fi\<lparr>fi_structure := st\<rparr>), cl_result := Some r\<rparr>), w)))"

definition call_input ::
  "(variant \<Rightarrow> 64 word result) \<Rightarrow> 's input_ops \<Rightarrow> ('db, 'w) exec_context \<Rightarrow> transaction_function \<Rightarrow> 's closure \<Rightarrow> 'w \<Rightarrow>
   ((bool \<times> 's closure) result \<times> 'w) option" where
  "call_input conv io xc f c w =
    (case (cl_source c, cl_input c) of
       (None, _) \<Rightarrow> Some (Inl (RuntimeError ''no input defined for redirecting filter''), w)
     | (_, None) \<Rightarrow> Some (Inl (RuntimeError ''no output defined for redirecting filter''), w)
     | (Some src, Some fi) \<Rightarrow> in_world (redirect_call conv io (cl_taglevel c) src fi) w (\<lambda>(ready, level, src, fi).
         let c = c\<lparr>cl_state := (if ready then 3 else 2), cl_taglevel := level, cl_source := Some src, cl_input := Some fi\<rparr> in
         if ready then call_execute conv xc f c w else Some (Inr (False, c), w)))"

definition tdl_call ::
  "(variant \<Rightarrow> 64 word result) \<Rightarrow> 's input_ops \<Rightarrow> ('db, 'w) exec_context \<Rightarrow> transaction_function \<Rightarrow> 's closure \<Rightarrow> 'w \<Rightarrow>
   ((bool \<times> 's closure) result \<times> 'w) option" where
  "tdl_call conv io xc f c w =
    (if cl_state c = 0 then Some (Inl (RuntimeError ''input not initialized''), w)
     else if cl_state c = 1 then
       (case check_authorizations xc (tf_name f) (tf_authorizations f) w of
          (Inl e, w) \<Rightarrow> Some (Inl e, w)
        | (Inr _, w) \<Rightarrow> call_input conv io xc f c w)
     else if cl_state c = 2 then call_input conv io xc f c w
     else if cl_state c = 3 then call_execute conv xc f c w
     else Some (Inr (True, c), w))"

end
