(* ===== verification/Transaction_Safety.thy ===== *)
theory Transaction_Safety
  imports Transaction_Function
begin

text \<open>
  Properties of the call of a transaction function: what a failed call leaves in the database, the order of
  authorization, audit and commit, and the reading of an input that arrives in parts.
\<close>

section \<open>The input of the machine\<close>

lemma run_bind_cases:
  assumes "run_bind r g = Some (Inr y)"
  obtains x where "r = Some (Inr x)" and "g x = Some (Inr y)"
  using assms by (cases r rule: option.exhaust) (auto simp: run_bind_def split: sum.splits)

lemma null_tuples_wf: "null_tuples nis vts = Inr u \<Longrightarrow> vts_wf vts \<Longrightarrow> vts_wf u"
  by (induction nis vts rule: null_tuples.induct) (auto simp: rbind_eq_Inr_iff dest: vts_push_wf)

lemma loop_tuples_wf: "loop_tuples ps input pt nis vts = Some (Inr u) \<Longrightarrow> vts_wf vts \<Longrightarrow> vts_wf u"
  by (induction ps input pt nis vts rule: loop_tuples.induct) (auto elim!: run_bind_cases dest: vts_push_wf)

lemma loop_tupleset_wf: "loop_tupleset ps input pt sel = Some (Inr u) \<Longrightarrow> vts_wf u"
  by (auto simp: loop_tupleset_def split: if_splits elim!: run_bind_cases dest: null_tuples_wf loop_tuples_wf)

definition rewrite_ok :: "rewrite_state \<Rightarrow> bool" where
  "rewrite_ok s = vm_input_ok (rw_prg s) (rw_heap s)"

lemma add_tupleset_ok: "rewrite_ok s \<Longrightarrow> vts_wf u \<Longrightarrow> rewrite_ok (add_tupleset u s)"
  by (auto simp: rewrite_ok_def vm_input_ok_def add_tupleset_def ref_ok_def split: option.splits)

lemma rw_set_code_ok [simp]: "rewrite_ok (rw_set_code c s) = rewrite_ok s"
  by (simp add: rewrite_ok_def vm_input_ok_def rw_set_code_def)

lemma rewrite_open_iter_ok: "rewrite_open_iter ps input e instr s = Some (Inr s') \<Longrightarrow> rewrite_ok s \<Longrightarrow> rewrite_ok s'"
  by (auto simp: rewrite_open_iter_def elim!: run_bind_cases intro!: add_tupleset_ok dest: loop_tupleset_wf)

lemma rewrite_single_ok: "rewrite_single ps input e instr s = Some (Inr s') \<Longrightarrow> rewrite_ok s \<Longrightarrow> rewrite_ok s'"
  by (auto simp: rewrite_single_def rewrite_ok_def vm_input_ok_def rw_set_code_def rbind_eq_Inr_iff elim!: run_bind_cases)

lemma rewrite_turn_ok:
  "rewrite_turn ps input visited e es s = Some (Inr (visited', stk', s')) \<Longrightarrow> rewrite_ok s \<Longrightarrow> rewrite_ok s'"
  by (auto simp: rewrite_turn_def Let_def split: if_splits elim!: run_bind_cases)
     (erule (1) rewrite_open_iter_ok rewrite_single_ok)+

lemma rewrite_loop_ok: "rewrite_loop ps input visited stk s = Some (Inr s') \<Longrightarrow> rewrite_ok s \<Longrightarrow> rewrite_ok s'"
proof (induction "Inr s' :: rewrite_state result" rule: rewrite_loop.raw_induct [rotated, consumes 1, case_names turn])
  case (turn rec ps input visited stk s)
  then show ?case
    by (auto split: list.splits prod.splits elim!: run_bind_cases dest: rewrite_turn_ok)
qed

lemma tdlTransactionInput_ok:
  "tdlTransactionInput p [] input = Some (Inr s) \<Longrightarrow> p_tuplesets p = [] \<Longrightarrow> vm_input_ok (rw_prg s) (rw_heap s)"
  using rewrite_loop_ok [of "p_pathset p" input "[]" "[\<lparr>re_ip = 0, re_selected = [0]\<rparr>]" "\<lparr>rw_prg = program_to_image p, rw_heap = []\<rparr>" s]
  by (auto simp: tdlTransactionInput_def rewriteInputPathReferences_def rewrite_ok_def vm_input_ok_def program_to_image_def
      split: if_splits)

section \<open>What a transaction keeps\<close>

text \<open>\<open>I\<close> is kept by everything but a commit that succeeds.\<close>

definition tx_keeps :: "'db transaction_ops \<Rightarrow> ('db \<Rightarrow> bool) \<Rightarrow> bool" where
  "tx_keeps ops I \<longleftrightarrow> db_closed (tx_exec ops) I \<and>
    (\<forall>db. I db \<longrightarrow> I (snd (tx_begin ops db)) \<and> I (snd (tx_rollback ops db)) \<and>
      (fst (tx_commit ops db) \<noteq> Inr True \<longrightarrow> I (snd (tx_commit ops db))))"

definition t_ok :: "('db \<Rightarrow> bool) \<Rightarrow> 'db transaction \<Rightarrow> bool" where
  "t_ok I t = (\<exists>db. t_stm t = Some db \<and> I db)"

lemma t_ok_error [simp]: "t_ok I (t\<lparr>t_lastError := err\<rparr>) = t_ok I t"
  by (simp add: t_ok_def)

lemma t_call_ok: "t_call f t = (r, t') \<Longrightarrow> t_ok I t \<Longrightarrow> (\<And>db. I db \<Longrightarrow> I (snd (f db))) \<Longrightarrow> t_ok I t'"
  by (fastforce simp: t_call_def t_ok_def split: prod.splits)

lemma getLastError_keeps: "tx_keeps ops I \<Longrightarrow> I db \<Longrightarrow> I (snd (db_getLastError (tx_exec ops) db))"
  by (simp add: tx_keeps_def db_closed_def db_res_ok_def)

lemma t_reported_ok:
  assumes "tx_keeps ops I" and "t_ok I t" and "t_reported ops f t = (r, t')"
    and "\<And>db. I db \<Longrightarrow> fst (f db) \<noteq> Inr True \<Longrightarrow> I (snd (f db))"
  shows "t_ok I t' \<or> r = Inr () \<and> (\<exists>db. I db \<and> t_stm t' = Some (snd (f db)))"
proof -
  obtain db where db: "t_stm t = Some db" "I db" using assms(2) by (auto simp: t_ok_def)
  obtain r1 db1 where f: "f db = (r1, db1)" by fastforce
  obtain r2 db2 where e: "db_getLastError (tx_exec ops) db1 = (r2, db2)" by fastforce
  have "I db1 \<Longrightarrow> I db2" using getLastError_keeps [OF assms(1), of db1] e by simp
  moreover have "r1 \<noteq> Inr True \<Longrightarrow> I db1" using assms(4) [OF db(2)] f by simp
  moreover have "\<exists>d. I d \<and> db1 = snd (f d)" using db(2) f by (intro exI [of _ db]) simp
  ultimately show ?thesis
    using assms(3) db f e
    by (auto simp: t_reported_def t_call_def t_ok_def split: sum.splits bool.splits option.splits)
qed

lemma tx_keepsD:
  assumes "tx_keeps ops I" and "I db"
  shows "I (snd (tx_begin ops db))" "I (snd (tx_rollback ops db))"
    "fst (tx_commit ops db) \<noteq> Inr True \<Longrightarrow> I (snd (tx_commit ops db))"
  using assms by (simp_all add: tx_keeps_def)

lemma begin_ok: "tx_keeps ops I \<Longrightarrow> t_ok I t \<Longrightarrow> transaction_begin ops t = (r, t') \<Longrightarrow> t_ok I t'"
  using t_reported_ok [of ops I t "tx_begin ops" r t'] tx_keepsD(1) [of ops I]
  unfolding transaction_begin_def t_ok_def by blast

lemma rollback_ok: "tx_keeps ops I \<Longrightarrow> t_ok I t \<Longrightarrow> transaction_rollback ops t = (r, t') \<Longrightarrow> t_ok I t'"
  using t_reported_ok [of ops I t "tx_rollback ops" r t'] tx_keepsD(2) [of ops I]
  unfolding transaction_rollback_def t_ok_def by blast

lemma commit_ok: "tx_keeps ops I \<Longrightarrow> t_ok I t \<Longrightarrow> transaction_commit ops t = (Inl e, t') \<Longrightarrow> t_ok I t'"
  using t_reported_ok [of ops I t "tx_commit ops" "Inl e" t'] tx_keepsD(3) [of ops I]
  unfolding transaction_commit_def by blast

lemma t_fail_ok: "tx_keeps ops I \<Longrightarrow> t_ok I t \<Longrightarrow> t_fail ops r t = (r', t') \<Longrightarrow> t_ok I t' \<and> (r = Inr None \<longrightarrow> (\<forall>out. r' \<noteq> Inr (Some out)))"
  using tx_keepsD(2) [of ops I]
  by (auto simp: t_fail_def split: prod.splits sum.splits dest: t_call_ok [where I = I])

lemma execute_ok:
  assumes "tx_keeps ops I" and "t_ok I t" and "vm_input_ok prg tuples"
    and "transaction_execute ops prg tuples t = Some (r, t')"
  shows "t_ok I t' \<and> (\<forall>out. r = Inr (Some out) \<longrightarrow> out \<noteq> [])"
proof -
  obtain db where db: "t_stm t = Some db" "I db" using assms(2) by (auto simp: t_ok_def)
  let ?p = "program_instance_new prg tuples (Some db)"
  obtain x where x: "execute (tx_exec ops) ?p = Some x" using assms(4) db by (auto simp: transaction_execute_def split: option.splits)
  then have "execute_loop (tx_exec ops) ?p = Some x" by (simp add: execute_def program_instance_new_def)
  from execute_loop_post [OF this _ vm_inv_new [of I db, OF db(2) assms(3)]] assms(1)
  have post: "vm_post (\<lambda>_. False) (vm_done I ?p) (vm_raised I) x" by (simp add: tx_keeps_def)
  show ?thesis
  proof (cases x)
    case (Done ok q)
    then have q: "t_ok I (t\<lparr>t_stm := m_db_stm q\<rparr>)" "m_output q \<noteq> []" using post by (simp_all add: vm_done_def vm_core_def t_ok_def)
    then show ?thesis using assms(4) x Done db t_fail_ok [OF assms(1), of "t\<lparr>t_stm := m_db_stm q, t_lastError := m_lastError q\<rparr>" "Inr None"]
      by (auto simp: transaction_execute_def Let_def t_ok_def split: if_splits)
  next
    case (Raise e q)
    then have q: "t_ok I (t\<lparr>t_stm := m_db_stm q\<rparr>)" using post by (simp add: vm_raised_def t_ok_def)
    then have q': "t_ok I (t\<lparr>t_stm := m_db_stm q, t_lastError := err\<rparr>)" for err by (simp add: t_ok_def)
    show ?thesis
      using assms(4) x Raise db q t_fail_ok [OF assms(1) q'] t_fail_ok [OF assms(1) q]
      by (cases e) (fastforce simp: transaction_execute_def Let_def t_fail_def split: prod.splits sum.splits)+
  qed (use post in simp)
qed

section \<open>What a call keeps\<close>

text \<open>The functions that are called by name keep \<open>J\<close>, which stands for the content of the database as it is seen from
  outside of a transaction; a transaction starts with \<open>I\<close>, and \<open>J\<close> holds behind it if \<open>I\<close> does.\<close>

definition calls_keep :: "('w \<Rightarrow> bool) \<Rightarrow> ('a \<Rightarrow> 'w \<Rightarrow> 'b \<times> 'w) option \<Rightarrow> bool" where
  "calls_keep J f = (\<forall>g a w. f = Some g \<longrightarrow> J w \<longrightarrow> J (snd (g a w)))"

lemma calls_keepD: "calls_keep J f \<Longrightarrow> f = Some g \<Longrightarrow> J w \<Longrightarrow> g a w = (r, w') \<Longrightarrow> J w'"
  by (metis calls_keep_def snd_conv)

definition context_keeps :: "('db, 'w) exec_context \<Rightarrow> ('db \<Rightarrow> bool) \<Rightarrow> ('w \<Rightarrow> bool) \<Rightarrow> bool" where
  "context_keeps xc I J \<longleftrightarrow> tx_keeps (xc_ops xc) I \<and>
    (\<forall>n. calls_keep J (xc_authorizationFunction xc n) \<and> calls_keep J (xc_formFunction xc n)
      \<and> calls_keep J (xc_auditFunction xc n)) \<and>
    (\<forall>n w r w'. J w \<longrightarrow> xc_transaction xc n w = (r, w') \<longrightarrow> J w' \<and> (\<forall>t. r = Inr (Some t) \<longrightarrow> t_ok I t)) \<and>
    (\<forall>t w. t_ok I t \<longrightarrow> J w \<longrightarrow> J (xc_release xc t w))"

lemma context_calls:
  assumes "context_keeps xc I J" and "J w"
  shows "xc_authorizationFunction xc n = Some f \<Longrightarrow> f a w = (r, w') \<Longrightarrow> J w'"
    "xc_formFunction xc n = Some g \<Longrightarrow> g b w = (s, w') \<Longrightarrow> J w'"
    "xc_auditFunction xc n = Some g \<Longrightarrow> g b w = (s, w') \<Longrightarrow> J w'"
  using assms unfolding context_keeps_def by (blast dest: calls_keepD)+

lemma in_world_cases:
  assumes "in_world r w f = Some (x, w')"
  obtains (Err) e where "r = Some (Inl e)" "x = Inl e" "w' = w" | (Ok) y where "r = Some (Inr y)" "f y = Some (x, w')"
  using assms by (auto simp: in_world_def split: option.splits sum.splits)

lemma checkAuthorization_keeps:
  "context_keeps xc I J \<Longrightarrow> J w \<Longrightarrow> checkAuthorization xc n s w = (r, w') \<Longrightarrow> J w'"
  by (auto simp: checkAuthorization_def split: if_splits option.splits prod.splits sum.splits bool.splits cpp_error.splits
      dest: context_calls)

lemma check_authorizations_keeps:
  "context_keeps xc I J \<Longrightarrow> J w \<Longrightarrow> check_authorizations xc n zs w = (r, w') \<Longrightarrow> J w'"
  by (induction xc n zs w rule: check_authorizations.induct)
     (auto split: prod.splits sum.splits option.splits dest: checkAuthorization_keeps)

lemma preproc_node_keeps:
  "context_keeps xc I J \<Longrightarrow> J w \<Longrightarrow> preproc_node conv xc p ni tags st w = Some (r, w') \<Longrightarrow> J w'"
  by (auto simp: preproc_node_def Let_def elim!: in_world_cases split: option.splits prod.splits dest: context_calls)

lemma preproc_nodes_keeps:
  "context_keeps xc I J \<Longrightarrow> J w \<Longrightarrow> preproc_nodes conv xc p nis visited tags st w = Some (r, w') \<Longrightarrow> J w'"
  by (induction conv xc p nis visited tags st w rule: preproc_nodes.induct)
     (auto split: option.splits prod.splits sum.splits if_splits dest: preproc_node_keeps)

lemma finalize_keeps:
  "context_keeps xc I J \<Longrightarrow> J w \<Longrightarrow> finalize conv xc ps st w = Some (r, w') \<Longrightarrow> J w'"
  by (induction conv xc ps st w rule: finalize.induct)
     (auto simp: preproc_call_def elim!: in_world_cases split: option.splits prod.splits sum.splits dest: preproc_nodes_keeps)

lemma audit_call_keeps: "context_keeps xc I J \<Longrightarrow> J w \<Longrightarrow> audit_call xc out i n w = (r, w') \<Longrightarrow> J w'"
  by (auto simp: audit_call_def split: option.splits prod.splits sum.splits form_outcome.splits dest: context_calls)

lemma audit_calls_keeps:
  assumes "context_keeps xc I J"
  shows "J w \<Longrightarrow> t_ok I t \<Longrightarrow> audit_calls xc n out i as t w = (r, t', w') \<Longrightarrow> J w' \<and> t_ok I t'"
proof (induction as arbitrary: i w)
  case (Cons a as)
  obtain level f where a: "a = (level, f)" by (cases a)
  obtain r1 w1 where c: "audit_call xc out i f w = (r1, w1)" by fastforce
  have J: "J w1" by (rule audit_call_keeps [OF assms Cons.prems(1) c])
  have k: "tx_keeps (xc_ops xc) I" using assms by (simp add: context_keeps_def)
  note IH = Cons.IH [OF J Cons.prems(2)]
  consider "r1 = Inr ()" | e where "r1 = Inl (RuntimeError e)" | e where "r1 = Inl e" "\<forall>m. e \<noteq> RuntimeError m"
    by (cases r1) auto
  then show ?case
  proof cases
    case 2
    obtain x t1 where b: "transaction_rollback (xc_ops xc) t = (x, t1)" by fastforce
    have "t_ok I t1" by (rule rollback_ok [OF k Cons.prems(2) b])
    with 2 a b c J IH Cons.prems(3) show ?thesis
      by (cases "level = Audit_Critical"; cases x) simp_all
  next
    case 3
    with a c J Cons.prems(2,3) show ?thesis by (cases e) auto
  qed (use a c IH Cons.prems(3) in auto)
qed auto

lemma run_transaction_keeps:
  assumes "context_keeps xc I J" and "J w" and "t_ok I t" and "vm_input_ok prg tuples"
    and "run_transaction xc f prg tuples t w = Some (r, t', w')"
  shows "J w' \<and> (case r of Inl e \<Rightarrow> t_ok I t' | Inr out \<Rightarrow> out \<noteq> [])"
proof -
  have k: "tx_keeps (xc_ops xc) I" using assms(1) by (simp add: context_keeps_def)
  obtain r1 t1 where b: "transaction_begin (xc_ops xc) t = (r1, t1)" by fastforce
  have t1: "t_ok I t1" by (rule begin_ok [OF k assms(3) b])
  show ?thesis
  proof (cases r1)
    case (Inr u)
    then obtain r2 t2 where x: "transaction_execute (xc_ops xc) prg tuples t1 = Some (r2, t2)"
      using assms(5) b by (cases "transaction_execute (xc_ops xc) prg tuples t1") (auto simp: run_transaction_def)
    note t2 = execute_ok [OF k t1 assms(4) x]
    show ?thesis
    proof (cases "\<exists>out. r2 = Inr (Some out)")
      case True
      then obtain out where r2: "r2 = Inr (Some out)" by blast
      obtain r3 t3 w3 where a: "audit_calls xc (tf_name f) out 1 (tf_audit f) t2 w = (r3, t3, w3)" by (metis surj_pair)
      have t3: "J w3" "t_ok I t3" using audit_calls_keeps [OF assms(1,2) conjunct1 [OF t2] a] by simp_all
      obtain r4 t4 where m: "transaction_commit (xc_ops xc) t3 = (r4, t4)" by fastforce
      then have "\<forall>e. r4 = Inl e \<longrightarrow> t_ok I t4" using commit_ok [OF k t3(2)] by blast
      with assms(5) b Inr x r2 a m t2 t3 show ?thesis
        by (cases r3; cases r4) (auto simp: run_transaction_def)
    next
      case False
      with assms(2,5) b Inr x t2 show ?thesis by (auto simp: run_transaction_def split: sum.splits option.splits)
    qed
  qed (use assms(2,5) b t1 in \<open>auto simp: run_transaction_def\<close>)
qed

lemma transaction_scope_keeps:
  assumes "context_keeps xc I J" and "J w" and "vm_input_ok prg tuples" and "transaction_scope xc f prg tuples w = Some (r, w')"
  shows "case r of Inl e \<Rightarrow> J w' | Inr out \<Rightarrow> out \<noteq> []"
proof -
  obtain r1 w1 where x: "xc_transaction xc (tf_name f) w = (r1, w1)" by fastforce
  have J: "J w1" "\<And>t. r1 = Inr (Some t) \<Longrightarrow> t_ok I t" using assms(1,2) x unfolding context_keeps_def by blast+
  have rel: "\<And>t w. t_ok I t \<Longrightarrow> J w \<Longrightarrow> J (xc_release xc t w)" using assms(1) by (simp add: context_keeps_def)
  show ?thesis
  proof (cases "\<exists>t. r1 = Inr (Some t)")
    case True
    then obtain t where t: "r1 = Inr (Some t)" by blast
    then obtain r2 t2 w2 where "run_transaction xc f prg tuples t w1 = Some (r2, t2, w2)"
      using assms(4) x by (auto simp: transaction_scope_def split: option.splits)
    with run_transaction_keeps [OF assms(1) J(1) J(2) [OF t] assms(3) this] assms(4) x t show ?thesis
      by (auto simp: transaction_scope_def rel split: sum.splits)
  next
    case False
    with assms(4) x J show ?thesis by (auto simp: transaction_scope_def split: sum.splits option.splits)
  qed
qed

lemma execute_function_keeps:
  assumes "context_keeps xc I J" and "J w" and "p_tuplesets (tf_program f) = []" and "tf_resultfilter f = []"
    and "execute_function conv xc f st w = Some (Inl e, w')"
  shows "J w'"
proof -
  obtain r1 w1 where fin: "finalize conv xc (tf_preproc f) st w = Some (r1, w1)"
    using assms(5) by (auto simp: execute_function_def split: option.splits)
  have J: "J w1" by (rule finalize_keeps [OF assms(1,2) fin])
  show ?thesis
  proof (cases r1)
    case (Inr st1)
    then have "in_world (tdlTransactionInput (tf_program f) [] st1) w1 (\<lambda>inp.
         case transaction_scope xc f (rw_prg inp) (rw_heap inp) w1 of
           None \<Rightarrow> None
         | Some (Inl e, w) \<Rightarrow> Some (Inl e, w)
         | Some (Inr out, w) \<Rightarrow> Some (map_prod (map_sum id (Pair st1)) id (build_result xc f out w))) = Some (Inl e, w')"
      using assms(5) fin by (simp add: execute_function_def)
    then show ?thesis
    proof (cases rule: in_world_cases)
      case (Ok inp)
      then obtain r2 w2 where s: "transaction_scope xc f (rw_prg inp) (rw_heap inp) w1 = Some (r2, w2)" by (auto split: option.splits)
      note k = transaction_scope_keeps [OF assms(1) J tdlTransactionInput_ok [OF Ok(1) assms(3)] s]
      show ?thesis
      proof (cases r2)
        case (Inr out)
        then obtain o1 outs where "out = o1 # outs" using k by (cases out) auto
        then show ?thesis
          using Ok(2) s Inr assms(4) by (simp add: build_result_def vmTransactionInputFilter_def output_elements_def at_or_def)
      qed (use k s Ok(2) in auto)
    qed (use J in simp)
  qed (use assms(5) fin J in \<open>auto simp: execute_function_def\<close>)
qed

text \<open>C4: a call that fails leaves the database as it was. If nothing but a successful commit changes what is seen of the
  database from outside of a transaction, then every call of a transaction function without a result filter that ends with
  an exception, in whatever phase, has not changed it: the authorization, the reading of the input, a preprocessing
  function, the allocation or the begin of the transaction, the program, a critical audit function, or the commit itself.\<close>
theorem failed_call_keeps_database:
  assumes "context_keeps xc I J" and "J w" and "p_tuplesets (tf_program f) = []" and "tf_resultfilter f = []"
    and "tdl_call conv io xc f c w = Some (Inl e, w')"
  shows "J w'"
proof -
  have execute: "J w'" if "J v" "call_execute conv xc f d v = Some (Inl e, w')" for v and d :: "'s closure"
    using that execute_function_keeps [OF assms(1) that(1) assms(3,4)]
    by (auto simp: call_execute_def split: option.splits prod.splits sum.splits)
  have input: "J w'" if "J v" "call_input conv io xc f c v = Some (Inl e, w')" for v
    using that execute [OF that(1)]
    by (auto simp: call_input_def Let_def split: option.splits if_splits elim!: in_world_cases)
  obtain r v where a: "check_authorizations xc (tf_name f) (tf_authorizations f) w = (r, v)" by fastforce
  have "J v" by (rule check_authorizations_keeps [OF assms(1,2) a])
  with assms(2,5) a input execute show ?thesis by (auto simp: tdl_call_def split: if_splits sum.splits)
qed

text \<open>An example: a database with its content and the content inside of a transaction, a program that starts a statement and
  aborts, and a source with an empty document.\<close>

definition pair_ops :: "(nat \<times> nat) transaction_ops" where
  "pair_ops = \<lparr>tx_exec = \<lparr>db_databaseID = (\<lambda>_. ''pair''), db_start = (\<lambda>_ (d, v). (Inr True, (d, Suc v))),
      db_bind = (\<lambda>_ _ db. (Inr True, db)), db_execute = (\<lambda>db. (Inr True, db)), db_nofColumns = (\<lambda>db. (Inr 0, db)),
      db_columnName = (\<lambda>_ db. (Inr None, db)), db_get = (\<lambda>_ db. (Inr V_Null, db)), db_next = (\<lambda>db. (Inr False, db)),
      db_hasResult = (\<lambda>db. (Inr False, db)), db_getLastError = (\<lambda>db. (Inr None, db))\<rparr>,
    tx_begin = (\<lambda>(d, v). (Inr True, (d, d))), tx_commit = (\<lambda>(d, v). (Inr True, (v, v))),
    tx_rollback = (\<lambda>(d, v). (Inr True, (d, d)))\<rparr>"

definition pair_context :: "(nat \<times> nat, nat) exec_context" where
  "pair_context = \<lparr>xc_authorizationFunction = Map.empty, xc_normalizeFunction = Map.empty, xc_formFunction = Map.empty,
    xc_auditFunction = Map.empty,
    xc_transaction = (\<lambda>_ w. (Inr (Some \<lparr>t_stm = Some (w, w), t_lastError = database_error0\<rparr>), w)),
    xc_release = (\<lambda>t w. case t_stm t of None \<Rightarrow> w | Some (d, _) \<Rightarrow> d), xc_ops = pair_ops\<rparr>"

definition empty_source :: "unit input_ops" where
  "empty_source = \<lparr>io_getNext = (\<lambda>_. (Inr (Some (CloseTag, V_Null)), ())), io_state = (\<lambda>_. Filter_Open), io_getError = (\<lambda>_. [])\<rparr>"

definition pair_program :: "program_code \<Rightarrow> vm_program" where
  "pair_program c = vm_program_new\<lparr>p_code := c, p_statements := [''INSERT'']\<rparr>"

definition pair_function :: "program_code \<Rightarrow> string \<Rightarrow> transaction_function" where
  "pair_function c rf = \<lparr>tf_name = ''f'', tf_resultfilter = rf, tf_authorizations = [], tf_preproc = [], tf_audit = [],
    tf_program = pair_program c\<rparr>"

definition pair_image :: "program_code \<Rightarrow> program_image" where
  "pair_image c = \<lparr>code = c, constants = [], colnames = [], tagnames = [], resultnames = [],
    statements = [''INSERT''], errorhints = [], signatures = [], tuplesets = []\<rparr>"

lemma pair_context_keeps: "context_keeps pair_context (\<lambda>db. fst db = n) (\<lambda>w. w = n)"
  by (auto simp: context_keeps_def tx_keeps_def calls_keep_def t_ok_def pair_context_def pair_ops_def db_closed_def db_res_ok_def)

lemma pair_input:
  "tdlTransactionInput (pair_program [0x98000000]) [] (inputStructure (ps_tagtab ps_new)) =
    Some (Inr \<lparr>rw_prg = pair_image [0x98000000], rw_heap = []\<rparr>)"
  "tdlTransactionInput (pair_program [0x98000000, 0x04000000]) [] (inputStructure (ps_tagtab ps_new)) =
    Some (Inr \<lparr>rw_prg = pair_image [0x98000000, 0x04000000], rw_heap = []\<rparr>)"
  by code_simp+

lemma pair_decoded: "opCode (0x04000000 :: 32 word) = Op_RETURN" "condCode (0x04000000 :: 32 word) = Co_ALWAYS"
  "opCode (0x98000000 :: 32 word) = Op_DBSTM_START" "condCode (0x98000000 :: 32 word) = Co_ALWAYS"
  "argumentIndex (0x98000000 :: 32 word) = 0"
  by code_simp+

lemma pair_started:
  "step (tx_exec pair_ops) (program_instance_new (pair_image (0x98000000 # c)) [] (Some (n, n))) =
    Some (Next ((program_instance_new (pair_image (0x98000000 # c)) [] (Some (n, Suc n)))\<lparr>m_ip := 1\<rparr>))"
  by (simp add: program_instance_new_def step_def pair_image_def program_code_get_Inr pair_decoded exec_groups vm_eval
       statementArgument_def vm_db_def pair_ops_def Let_def stack_element_new_def next_ip_def)

lemma pair_ended:
  "step (tx_exec pair_ops) ((program_instance_new (pair_image [0x98000000]) [] db)\<lparr>m_ip := 1\<rparr>) =
    Some (Done False ((program_instance_new (pair_image [0x98000000]) [] db)\<lparr>m_ip := 1,
      m_lastError := databaseError ''VM'' 0 ''aborted program execution''\<rparr>))"
  "step (tx_exec pair_ops) ((program_instance_new (pair_image [0x98000000, 0x04000000]) [] db)\<lparr>m_ip := 1\<rparr>) =
    Some (Done True ((program_instance_new (pair_image [0x98000000, 0x04000000]) [] db)\<lparr>m_ip := 0, m_stack := []\<rparr>))"
  by (simp_all add: program_instance_new_def step_def pair_image_def program_code_get_Inr pair_decoded exec_groups vm_eval
       cond_holds_def exec_return_def Let_def stack_element_new_def)

lemma pair_execute:
  "execute (tx_exec pair_ops) (program_instance_new (pair_image (0x98000000 # c)) [] (Some (n, n))) =
    execute_loop (tx_exec pair_ops) ((program_instance_new (pair_image (0x98000000 # c)) [] (Some (n, Suc n)))\<lparr>m_ip := 1\<rparr>)"
  using vm_reach_execute [OF vm_reach.turn [OF vm_reach.start pair_started]]
  by (simp add: execute_def) (simp add: program_instance_new_def)

lemma pair_transaction:
  "transaction_execute pair_ops (pair_image [0x98000000]) [] \<lparr>t_stm = Some (n, n), t_lastError = e\<rparr> =
    Some (Inr None, \<lparr>t_stm = Some (n, n), t_lastError = databaseError ''VM'' 0 ''aborted program execution''\<rparr>)"
  "transaction_execute pair_ops (pair_image [0x98000000, 0x04000000]) [] \<lparr>t_stm = Some (n, n), t_lastError = e\<rparr> =
    Some (Inr (Some [[]]), \<lparr>t_stm = Some (n, Suc n), t_lastError = e\<rparr>)"
proof -
  have d: "m_db_stm (program_instance_new prg tuples db) = db" "m_output (program_instance_new prg tuples db) = [[]]"
    for prg tuples and db :: "(nat \<times> nat) option"
    by (simp_all add: program_instance_new_def output_new_def output_addOutputSink_def)
  have r: "tx_rollback pair_ops (n, Suc n) = (Inr True, (n, n))" by (simp add: pair_ops_def)
  note run = pair_execute [of "[]" n] pair_execute [of "[0x04000000]" n]
  show "transaction_execute pair_ops (pair_image [0x98000000]) [] \<lparr>t_stm = Some (n, n), t_lastError = e\<rparr> =
    Some (Inr None, \<lparr>t_stm = Some (n, n), t_lastError = databaseError ''VM'' 0 ''aborted program execution''\<rparr>)"
    using run(1) execute_loop_Done [OF pair_ended(1)] r by (simp add: transaction_execute_def Let_def t_fail_def t_call_def d del: One_nat_def)
  show "transaction_execute pair_ops (pair_image [0x98000000, 0x04000000]) [] \<lparr>t_stm = Some (n, n), t_lastError = e\<rparr> =
    Some (Inr (Some [[]]), \<lparr>t_stm = Some (n, Suc n), t_lastError = e\<rparr>)"
    using run(2) execute_loop_Done [OF pair_ended(2)] by (simp add: transaction_execute_def Let_def d del: One_nat_def)
qed

lemma pair_begin: "transaction_begin pair_ops \<lparr>t_stm = Some (n, v), t_lastError = e\<rparr> = (Inr (), \<lparr>t_stm = Some (n, n), t_lastError = e\<rparr>)"
  by (simp add: transaction_begin_def t_reported_def t_call_def pair_ops_def)

lemma pair_commit: "transaction_commit pair_ops \<lparr>t_stm = Some (n, v), t_lastError = e\<rparr> = (Inr (), \<lparr>t_stm = Some (v, v), t_lastError = e\<rparr>)"
  by (simp add: transaction_commit_def t_reported_def t_call_def pair_ops_def)

lemma empty_redirect: "redirect_call conv empty_source 0 () fi = Some (Inr (True, -1, (), fi))"
  by (subst redirect_call.simps) (simp add: empty_source_def tag_depth_def)

lemma pair_tags: "ps_tagtab (p_pathset (pair_program c)) = ps_tagtab ps_new"
  by (simp add: pair_program_def vm_program_new_def)

abbreviation pair_closure :: "program_code \<Rightarrow> unit closure" where
  "pair_closure c \<equiv> closure_init (pair_function c []) () createClosure"

lemma pair_scope:
  "transaction_scope pair_context (pair_function [0x98000000] rf) (pair_image [0x98000000]) [] n =
    Some (Inl (RuntimeError ''error in transaction 'f': aborted program execution''), n)"
  "transaction_scope pair_context (pair_function [0x98000000, 0x04000000] rf) (pair_image [0x98000000, 0x04000000]) [] n =
    Some (Inr [[]], Suc n)"
  by (simp_all add: transaction_scope_def run_transaction_def pair_context_def pair_function_def pair_begin pair_commit
      pair_transaction)
     (simp add: databaseError_throwtext_def databaseError_def database_error0_def quoted_def removeCRLF_def)

lemma pair_call:
  "tdl_call conv empty_source pair_context (pair_function [0x98000000] rf) (pair_closure [0x98000000]) n =
    Some (Inl (RuntimeError ''error in transaction 'f': aborted program execution''), n)"
  "\<exists>d. tdl_call conv empty_source pair_context (pair_function [0x98000000, 0x04000000] []) (pair_closure [0x98000000, 0x04000000]) n =
    Some (Inr (True, d), Suc n)"
  by (simp_all add: tdl_call_def closure_init_def createClosure_def call_input_def empty_redirect in_world_def call_execute_def
      execute_function_def function_input_new_def pair_function_def pair_tags pair_input
      pair_scope [unfolded pair_function_def] build_result_def vmTransactionInputFilter_def output_elements_def at_or_def)

theorem failed_call_keeps_database_witness:
  "\<exists>w'. tdl_call example_conv empty_source pair_context (pair_function [0x98000000] []) (pair_closure [0x98000000]) 7
    = Some (Inl (RuntimeError ''error in transaction 'f': aborted program execution''), w') \<and> w' = 7"
  using failed_call_keeps_database [OF pair_context_keeps refl _ _ pair_call(1) [of example_conv "[]" 7]] pair_call(1) [of example_conv "[]" 7]
  by (simp add: pair_function_def pair_program_def vm_program_new_def)

section \<open>Errors behind the commit\<close>

text \<open>C35: the result filter is looked up when the transaction is committed. If the result filter of a function is not defined as a
  form function, then a call that would succeed without the filter ends with an exception, but with the same effect on
  the server, the committed changes of the database included.\<close>
theorem missing_result_filter_after_commit:
  assumes "tf_resultfilter f \<noteq> []" and "xc_formFunction xc (tf_resultfilter f) = None" and "cl_state c < 4"
    and "tdl_call conv io xc (f\<lparr>tf_resultfilter := []\<rparr>) c w = Some (Inr (True, d), w')"
  shows "tdl_call conv io xc f c w = Some (Inl (RuntimeError (''transaction result filter function '' @
    quoted (tf_resultfilter f) @ '' not found (must be defined as form function)'')), w')"
proof -
  let ?g = "f\<lparr>tf_resultfilter := []\<rparr>"
  define err where "err = RuntimeError (''transaction result filter function '' @
    quoted (tf_resultfilter f) @ '' not found (must be defined as form function)'')"
  have b: "map_prod (map_sum id h) id (build_result xc f out v) = (Inl err, v')"
    if "map_prod (map_sum id h) id (build_result xc ?g out v) = (Inr r, v')"
    for out v v' and h :: "function_result \<Rightarrow> input_structure \<times> function_result" and r
    using that assms(1,2) by (auto simp: build_result_def err_def split: sum.splits)
  have n: "tf_name ?g = tf_name f" "tf_audit ?g = tf_audit f" by simp_all
  have s: "transaction_scope xc ?g prg tuples v = transaction_scope xc f prg tuples v" for prg tuples v
    unfolding transaction_scope_def run_transaction_def n ..
  have e: "execute_function conv xc f st v = Some (Inl err, v')" if "execute_function conv xc ?g st v = Some (Inr r, v')" for st v r v'
    using that
    by (auto simp: execute_function_def s in_world_def split: option.splits prod.splits sum.splits dest!: b)
  have x: "call_execute conv xc f d' v = Some (Inl err, w')" if "call_execute conv xc ?g d' v = Some (Inr (True, d), w')" for d' v
    using that by (auto simp: call_execute_def split: option.splits prod.splits sum.splits dest!: e)
  have i: "call_input conv io xc f c v = Some (Inl err, w')" if "call_input conv io xc ?g c v = Some (Inr (True, d), w')" for v
    using that by (auto simp: call_input_def in_world_def Let_def split: option.splits prod.splits sum.splits if_splits dest!: x)
  show ?thesis
    unfolding err_def [symmetric]
    using assms(3,4) by (auto simp: tdl_call_def split: if_splits prod.splits sum.splits dest!: x i)
qed

theorem missing_result_filter_after_commit_witness:
  "tdl_call example_conv empty_source pair_context (pair_function [0x98000000, 0x04000000] ''flt'') (pair_closure [0x98000000, 0x04000000]) 7
    = Some (Inl (RuntimeError ''transaction result filter function 'flt' not found (must be defined as form function)''), 8)"
proof -
  let ?f = "pair_function [0x98000000, 0x04000000] ''flt''"
  have f: "?f\<lparr>tf_resultfilter := []\<rparr> = pair_function [0x98000000, 0x04000000] []" by (simp add: pair_function_def)
  obtain d where "tdl_call example_conv empty_source pair_context (?f\<lparr>tf_resultfilter := []\<rparr>) (pair_closure [0x98000000, 0x04000000]) 7
      = Some (Inr (True, d), 8)"
    using pair_call(2) [of example_conv 7] unfolding f by auto
  from missing_result_filter_after_commit [OF _ _ _ this] show ?thesis
    by (simp add: pair_context_def closure_init_def pair_function_def quoted_def)
qed

section \<open>Authorization\<close>

text \<open>C20: nothing is done without authorization. If one of the authorization functions of a transaction function is not defined,
  or never grants the resource, then a first call ends with an exception before anything is read or executed: when
  authorization functions have no effect on the server, the call has none.\<close>
theorem unauthorized_call_has_no_effect:
  assumes "cl_state c = 1" and "(n, r) \<in> set (tf_authorizations f)" and "n \<noteq> []"
    and "\<forall>g v. xc_authorizationFunction xc n = Some g \<longrightarrow> fst (g r v) \<noteq> Inr True"
    and "\<forall>m g s v. xc_authorizationFunction xc m = Some g \<longrightarrow> snd (g s v) = v"
  shows "\<exists>e. tdl_call conv io xc f c w = Some (Inl e, w)"
proof -
  have one: "snd (checkAuthorization xc m s w) = w" for m s
    using assms(5) by (auto simp: checkAuthorization_def split: option.splits prod.splits sum.splits bool.splits cpp_error.splits) (metis snd_conv)+
  have refused: "fst (checkAuthorization xc n r w) \<noteq> Inr None"
    using assms(3,4) by (auto simp: checkAuthorization_def split: option.splits prod.splits sum.splits bool.splits cpp_error.splits) (metis fst_conv)+
  have "(n, r) \<in> set zs \<Longrightarrow> \<exists>e. check_authorizations xc name zs w = (Inl e, w)" for name zs
  proof (induction zs)
    case (Cons z zs)
    obtain m s where z: "z = (m, s)" by (cases z)
    obtain x where x: "checkAuthorization xc m s w = (x, w)" using one [of m s] by (metis prod.collapse)
    with z Cons refused show ?case by (auto split: sum.splits option.splits)
  qed simp
  from this [OF assms(2), of "tf_name f"] assms(1) show ?thesis by (auto simp: tdl_call_def)
qed

theorem unauthorized_call_has_no_effect_witness:
  "\<exists>e. tdl_call example_conv empty_source pair_context ((pair_function [0x98000000, 0x04000000] [])\<lparr>tf_authorizations := [(''admin'', [])]\<rparr>)
    (pair_closure [0x98000000, 0x04000000]) 7 = Some (Inl e, 7)"
  by (rule unauthorized_call_has_no_effect [of _ "''admin''" "[]"]) (simp_all add: closure_init_def pair_context_def)

section \<open>Audit\<close>

lemma audit_calls_success:
  "audit_calls xc n out i as t w = (Inr x, t', w') \<Longrightarrow> t' = t \<and>
   (\<forall>k < length as. fst (as ! k) = Audit_Critical \<longrightarrow> (\<exists>v v'. audit_call xc out (i + k) (snd (as ! k)) v = (Inr (), v')))"
proof (induction as arbitrary: i w)
  case (Cons a as)
  obtain level f where a: "a = (level, f)" by (cases a)
  obtain r1 w1 where c: "audit_call xc out i f w = (r1, w1)" by fastforce
  have rest: "audit_calls xc n out (Suc i) as t w1 = (Inr x, t', w')" and ok: "level = Audit_Critical \<Longrightarrow> r1 = Inr ()"
    using Cons.prems a c by (auto split: sum.splits if_splits cpp_error.splits prod.splits)
  have "\<exists>v v'. audit_call xc out (i + k) (snd ((a # as) ! k)) v = (Inr (), v')"
    if "k < length (a # as)" "fst ((a # as) ! k) = Audit_Critical" for k
  proof (cases k)
    case 0
    with that a c ok show ?thesis by auto
  next
    case (Suc j)
    with that Cons.IH [OF rest] show ?thesis by auto
  qed
  with Cons.IH [OF rest] show ?case by blast
qed simp


text \<open>An example with a critical audit function, and a program that opens the block of the output for it and returns.\<close>

definition audit_context :: "(nat \<times> nat, nat) exec_context" where
  "audit_context = pair_context\<lparr>xc_auditFunction := [''log'' \<mapsto> \<lambda>_ w. (Inr (Form_Result [close_element] None), w)]\<rparr>"

abbreviation audit_image :: program_image where
  "audit_image \<equiv> pair_image [0x44000000, 0x04000000]"

lemma audit_execute:
  "transaction_execute pair_ops audit_image [] \<lparr>t_stm = Some (n, n), t_lastError = e\<rparr> =
    Some (Inr (Some [[], []]), \<lparr>t_stm = Some (n, n), t_lastError = e\<rparr>)"
proof -
  let ?p = "program_instance_new audit_image [] (Some (n, n))"
  have d: "opCode (0x44000000 :: 32 word) = Op_OUTPUT_ADD_SINK" "condCode (0x44000000 :: 32 word) = Co_ALWAYS" by code_simp+
  have 1: "step (tx_exec pair_ops) ?p = Some (Next (?p\<lparr>m_ip := 1, m_output := [[], []]\<rparr>))"
    by (simp add: program_instance_new_def step_def pair_image_def program_code_get_Inr d exec_groups vm_eval
       output_new_def output_addOutputSink_def next_ip_def)
  have 2: "step (tx_exec pair_ops) (?p\<lparr>m_ip := 1, m_output := [[], []]\<rparr>) =
      Some (Done True (?p\<lparr>m_ip := 0, m_stack := [], m_output := [[], []]\<rparr>))"
    by (simp add: program_instance_new_def step_def pair_image_def program_code_get_Inr pair_decoded exec_groups vm_eval
       exec_return_def Let_def stack_element_new_def)
  have "execute (tx_exec pair_ops) ?p = execute_loop (tx_exec pair_ops) ?p" by (simp add: execute_def program_instance_new_def)
  with vm_reach_execute [OF vm_reach.turn [OF vm_reach.start 1]] execute_loop_Done [OF 2]
  have x: "execute (tx_exec pair_ops) ?p = Some (Done True (?p\<lparr>m_ip := 0, m_stack := [], m_output := [[], []]\<rparr>))" by simp
  have "m_db_stm ?p = Some (n, n)" by (simp add: program_instance_new_def)
  with x show ?thesis by (simp add: transaction_execute_def Let_def)
qed


section \<open>Input in parts\<close>

text \<open>The source gives the elements and is then in the state \<open>src'\<close>.\<close>

fun delivers :: "'s input_ops \<Rightarrow> 's \<Rightarrow> filter_element list \<Rightarrow> 's \<Rightarrow> bool" where
  "delivers io src [] src' = (src' = src)"
| "delivers io src (e # es) src' = (\<exists>s. io_getNext io src = (Inr (Some e), s) \<and> delivers io s es src')"

text \<open>The operations of the input structure for a sequence of elements behind one of type \<open>lt\<close>: a value closes an attribute.\<close>

fun element_events :: "element_type \<Rightarrow> filter_element list \<Rightarrow> input_event list" where
  "element_events lt [] = []"
| "element_events lt ((type, v) # es) =
    (case type of OpenTag \<Rightarrow> [Ev_Open v] | CloseTag \<Rightarrow> [Ev_Close] | Attribute \<Rightarrow> [Ev_Open v]
     | ContentValue \<Rightarrow> Ev_Value v # (if lt = Attribute then [Ev_Close] else [])) @ element_events type es"

text \<open>The tag level behind the elements, and that no tag is closed that was not opened.\<close>

fun level_after :: "int \<Rightarrow> filter_element list \<Rightarrow> int" where
  "level_after l [] = l"
| "level_after l ((type, _) # es) = level_after (tag_depth type l) es"

fun nested :: "int \<Rightarrow> filter_element list \<Rightarrow> bool" where
  "nested l [] = True"
| "nested l ((type, _) # es) = (\<not> (type = CloseTag \<and> tag_depth type l < 0) \<and> nested (tag_depth type l) es)"

fun last_type :: "element_type \<Rightarrow> filter_element list \<Rightarrow> element_type" where
  "last_type lt [] = lt"
| "last_type lt ((type, _) # es) = last_type type es"

lemma nested_append: "nested l (es @ fs) \<longleftrightarrow> nested l es \<and> nested (level_after l es) fs"
  by (induction l es rule: nested.induct) auto

lemma level_after_append: "level_after l (es @ fs) = level_after (level_after l es) fs"
  by (induction l es rule: level_after.induct) auto

lemma element_events_append: "element_events lt (es @ fs) = element_events lt es @ element_events (last_type lt es) fs"
  by (induction lt es rule: element_events.induct) auto

lemma build_append: "build conv (es @ fs) st = run_bind (build conv es st) (build conv fs)"
proof (induction es arbitrary: st)
  case (Cons e es)
  then show ?case by (cases "input_event conv e st" rule: option.exhaust) (auto simp: run_bind_def split: sum.splits)
qed simp

lemma fi_print_build:
  "fi_print conv type v fi = run_bind (build conv (element_events (fi_lasttype fi) [(type, v)]) (fi_structure fi))
    (\<lambda>st. Some (Inr \<lparr>fi_structure = st, fi_lasttype = type\<rparr>))"
proof -
  have "run_bind r (\<lambda>x. Some (Inr x)) = r" for r :: "input_structure run" by (auto simp: run_bind_def split: sum.splits bind_splits)
  then show ?thesis
    by (cases type) (simp_all add: fi_print_def input_event_def run_bind_def split: sum.splits bind_splits)
qed

lemma redirect_delivered:
  assumes "delivers io src es src'" and "nested l es"
    and "build conv (element_events (fi_lasttype fi) es) (fi_structure fi) = Some (Inr st)"
  shows "redirect_call conv io l src fi =
    redirect_call conv io (level_after l es) src' \<lparr>fi_structure = st, fi_lasttype = last_type (fi_lasttype fi) es\<rparr>"
  using assms
proof (induction es arbitrary: src l fi)
  case Nil
  then show ?case by (cases fi) simp
next
  case (Cons e es)
  obtain type v where e: "e = (type, v)" by (cases e)
  obtain s where s: "io_getNext io src = (Inr (Some (type, v)), s)" "delivers io s es src'" using Cons.prems(1) e by auto
  have "element_events (fi_lasttype fi) (e # es) = element_events (fi_lasttype fi) [(type, v)] @ element_events type es"
    using e by simp
  then obtain st1 where st1: "build conv (element_events (fi_lasttype fi) [(type, v)]) (fi_structure fi) = Some (Inr st1)"
    "build conv (element_events type es) st1 = Some (Inr st)"
    using Cons.prems(3) by (metis build_append run_bind_cases)
  let ?fi = "\<lparr>fi_structure = st1, fi_lasttype = type\<rparr> :: function_input"
  have "fi_print conv type v fi = Some (Inr ?fi)" unfolding fi_print_build st1(1) by simp
  then have "redirect_call conv io l src fi = redirect_call conv io (tag_depth type l) s ?fi"
    using Cons.prems(2) e s(1) by (subst redirect_call.simps) (auto simp: Let_def)
  also have "\<dots> = redirect_call conv io (level_after (tag_depth type l) es) src' \<lparr>fi_structure = st, fi_lasttype = last_type type es\<rparr>"
    using Cons.IH [OF s(2), of "tag_depth type l" ?fi] Cons.prems(2) st1(2) e by simp
  finally show ?case using e by simp
qed

text \<open>C18: an input may arrive in parts. When the source runs out of elements in between, the call returns false and keeps what it
  read; when the source was given the rest, the next call continues, without authorization being checked again, and
  executes the function on the input structure that the whole sequence of elements builds.\<close>
theorem interrupted_input_resumed:
  assumes "check_authorizations xc (tf_name f) (tf_authorizations f) w = (Inr (), w1)"
    and "delivers io src es src1" and "io_getNext io src1 = (Inr None, src2)" and "io_state io src2 = Filter_EndOfMessage"
    and "delivers io src3 fs src4" and "io_getNext io src4 = (Inr (Some (CloseTag, v)), src5)"
    and "nested 0 (es @ fs)" and "level_after 0 (es @ fs) = 0"
    and "build conv (element_events CloseTag (es @ fs)) (inputStructure (ps_tagtab (p_pathset (tf_program f)))) = Some (Inr st)"
  shows "\<exists>c1 c2 fi. tdl_call conv io xc f (closure_init f src createClosure) w = Some (Inr (False, c1), w1)
    \<and> (\<forall>w2. tdl_call conv io xc f (c1\<lparr>cl_source := Some src3\<rparr>) w2 = call_execute conv xc f c2 w2)
    \<and> cl_state c2 = 3 \<and> cl_input c2 = Some fi \<and> fi_structure fi = st"
proof -
  let ?fi0 = "function_input_new f"
  have ev: "element_events CloseTag (es @ fs) = element_events CloseTag es @ element_events (last_type CloseTag es) fs"
    by (rule element_events_append)
  then obtain st1 where st1: "build conv (element_events (fi_lasttype ?fi0) es) (fi_structure ?fi0) = Some (Inr st1)"
    "build conv (element_events (last_type CloseTag es) fs) st1 = Some (Inr st)"
    using assms(9) by (auto simp: function_input_new_def build_append elim: run_bind_cases)
  let ?fi1 = "\<lparr>fi_structure = st1, fi_lasttype = last_type CloseTag es\<rparr> :: function_input"
  let ?fi2 = "\<lparr>fi_structure = st, fi_lasttype = last_type (last_type CloseTag es) fs\<rparr> :: function_input"
  have n: "nested 0 es" "nested (level_after 0 es) fs" using assms(7) by (simp_all add: nested_append)
  have "redirect_call conv io 0 src ?fi0 = redirect_call conv io (level_after 0 es) src1 ?fi1"
    using redirect_delivered [OF assms(2) n(1) st1(1)] by (simp add: function_input_new_def)
  also have "\<dots> = Some (Inr (False, level_after 0 es, src2, ?fi1))"
    using assms(3,4) by (subst redirect_call.simps) simp
  finally have r1: "redirect_call conv io 0 src ?fi0 = Some (Inr (False, level_after 0 es, src2, ?fi1))" .
  have "redirect_call conv io (level_after 0 es) src3 ?fi1 = redirect_call conv io 0 src4 ?fi2"
    using redirect_delivered [OF assms(5) n(2), of conv ?fi1 st] st1(2) assms(8) by (simp add: level_after_append)
  also have "\<dots> = Some (Inr (True, -1, src5, ?fi2))"
    using assms(6) by (subst redirect_call.simps) (simp add: tag_depth_def)
  finally have r2: "redirect_call conv io (level_after 0 es) src3 ?fi1 = Some (Inr (True, -1, src5, ?fi2))" .
  let ?c1 = "\<lparr>cl_state = 2, cl_taglevel = level_after 0 es, cl_source = Some src2, cl_input = Some ?fi1, cl_result = None\<rparr>"
  let ?c2 = "\<lparr>cl_state = 3, cl_taglevel = -1, cl_source = Some src5, cl_input = Some ?fi2, cl_result = None\<rparr>"
  have "tdl_call conv io xc f (closure_init f src createClosure) w = Some (Inr (False, ?c1), w1)"
    using assms(1) r1 by (simp add: tdl_call_def closure_init_def createClosure_def call_input_def in_world_def)
  moreover have "tdl_call conv io xc f (?c1\<lparr>cl_source := Some src3\<rparr>) w2 = call_execute conv xc f ?c2 w2" for w2
    using r2 by (simp add: tdl_call_def call_input_def in_world_def)
  ultimately show ?thesis by (intro exI [of _ ?c1] exI [of _ ?c2] exI [of _ ?fi2]) simp
qed

text \<open>An example: the document \<^verbatim>\<open>a: 7\<close>, whose value arrives with the second part.\<close>

definition list_source :: "filter_element list input_ops" where
  "list_source = \<lparr>io_getNext = (\<lambda>s. case s of [] \<Rightarrow> (Inr None, []) | e # es \<Rightarrow> (Inr (Some e), es)),
    io_state = (\<lambda>_. Filter_EndOfMessage), io_getError = (\<lambda>_. [])\<rparr>"

theorem interrupted_input_resumed_witness:
  "\<exists>c1 c2 fi st. tdl_call example_conv list_source pair_context (pair_function [0x98000000] [])
      (closure_init (pair_function [0x98000000] []) [(OpenTag, V_String ''a'')] createClosure) 7 = Some (Inr (False, c1), 7)
    \<and> (\<forall>w2. tdl_call example_conv list_source pair_context (pair_function [0x98000000] [])
        (c1\<lparr>cl_source := Some [(ContentValue, V_Int 7), close_element, close_element]\<rparr>) w2
      = call_execute example_conv pair_context (pair_function [0x98000000] []) c2 w2)
    \<and> cl_state c2 = 3 \<and> cl_input c2 = Some fi \<and> fi_structure fi = st
    \<and> build example_conv single_events (inputStructure (ps_tagtab ps_new)) = Some (Inr st)"
proof -
  let ?f = "pair_function [0x98000000] []" and ?es = "[(OpenTag, V_String ''a'')]"
  let ?fs = "[(ContentValue, V_Int 7), close_element]"
  have "case build example_conv single_events (inputStructure (ps_tagtab ps_new)) of Some (Inr _) \<Rightarrow> True | _ \<Rightarrow> False" by code_simp
  then obtain st where st: "build example_conv single_events (inputStructure (ps_tagtab ps_new)) = Some (Inr st)"
    by (auto split: option.splits sum.splits)
  have ev: "element_events CloseTag (?es @ ?fs) = single_events" by (simp add: single_events_def)
  have a: "check_authorizations pair_context (tf_name ?f) (tf_authorizations ?f) 7 = (Inr (), 7)" by (simp add: pair_function_def)
  have b: "build example_conv (element_events CloseTag (?es @ ?fs)) (inputStructure (ps_tagtab (p_pathset (tf_program ?f)))) = Some (Inr st)"
    unfolding ev using st by (simp add: pair_function_def pair_tags)
  have d: "delivers list_source ?es ?es []" "delivers list_source (?fs @ [close_element]) ?fs [close_element]"
    by (simp_all add: list_source_def)
  have g: "io_getNext list_source [] = (Inr None, [])" "io_state list_source [] = Filter_EndOfMessage"
    "io_getNext list_source [close_element] = (Inr (Some close_element), [])" by (simp_all add: list_source_def)
  have n: "nested 0 (?es @ ?fs)" "level_after 0 (?es @ ?fs) = 0" by (simp_all add: tag_depth_def)
  from interrupted_input_resumed [OF a d(1) g(1,2) d(2) g(3) n b] st show ?thesis by auto
qed

end
