(* ===== verification/Spec2Isabelle.thy ===== *)
theory Spec2Isabelle
  imports VM_Properties SQLite_Statemachine Program_Layout Path_Execution PostgreSQL_Execution PostgreSQL_Database
    Tdl_Validity Transaction_Safety
begin

text \<open>
  A verification development for Wolframe, a middleware server that executes transactions,
  defined in a small language, on relational databases.

  \<^bold>\<open>The program.\<close> A client request names a transaction. The transaction was written in the
  transaction definition language TDL; at start-up its commands are compiled to code of a virtual
  machine, the programs of all files are joined, and templates of subroutines are instantiated
  (\<^verbatim>\<open>src/modules/cmdbind/tdl\<close>). A request fills a tree with its input document
  (\<^verbatim>\<open>vm/inputStructure.cpp\<close>), builds the image of its program, resolves the selector paths in it
  to constants and tuple sets of the input (\<^verbatim>\<open>tdlTransactionInput.cpp\<close>) and hands it to the
  transaction object (\<^verbatim>\<open>src/libwolframe_database/transaction.cpp\<close>), which begins a database
  transaction, runs the virtual machine (\<^verbatim>\<open>vm/programInstance.cpp\<close>), commits or rolls back, and
  reports the error. The machine calls the database through the interface
  \<^verbatim>\<open>TransactionExecStatemachine\<close>; an implementation of it parses the statement text
  (\<^verbatim>\<open>baseStatement.cpp\<close>), binds the arguments and steps through the rows of the database library.
  The output of the machine is read back through a filter (\<^verbatim>\<open>vmTransactionOutput.cpp\<close>).

  \<^bold>\<open>Conventions.\<close> An operation that can raise an exception returns \<open>cpp_error + 'a\<close>; what the
  C++ standard leaves undefined is the error \<open>Undefined\<close> with a reason, never a normal value.
  State is passed explicitly as a record with the members of the class. Instructions are 32 bit
  words with a 6 bit operation, a 2 bit condition and a 20 bit argument; addresses and indices
  are natural numbers that are checked against these bounds where the code checks them. Shared
  pointers to tuple sets are addresses in an explicit store. Loops are structurally recursive or
  have a termination proof; the loop of the virtual machine, its result fetch, the loops over the
  links of the input nodes, the work list of the path rewriter and the reading of the input of a call may run forever and are
  \<open>partial_function (option)\<close>, \<open>None\<close> being a run that does not end, and the theorems about
  complete runs prove the \<open>Some\<close>. The loops of the TDL parsers are bounded by the length of the
  source, of which every turn reads at least one character; the depth of nested includes, which the
  stack limits, is a parameter of the loader.

  \<^bold>\<open>The theories.\<close>
  \<^item> \<open>Wolframe_Prelude\<close>: errors, results, variants (\<^verbatim>\<open>include/types/variant.hpp\<close>), characters.
  \<^item> \<open>Instruction_Set\<close>: \<^verbatim>\<open>include/database/vm/instructionSet.hpp\<close>. Encoding and decoding are
    inverse; printing reads past a table for the last argument type.
  \<^item> \<open>Value_Tuple_Set\<close>: tuple sets, iterators, subroutine frames, output sinks. The flat arrays
    implement lists of rows (locale \<open>row_container\<close> and its interpretation).
  \<^item> \<open>Program_Instance\<close>: the virtual machine, one definition per group of cases of the switch.
  \<^item> \<open>VM_Safety\<close>: an invariant of all reachable states; no run uses a dangling pointer, an empty
    stack or changes its input.
  \<^item> \<open>VM_Run\<close>, \<open>VM_Properties\<close>: symbolic execution of code, name addressing, result constraints,
    result fetch, subroutine calls, error hints, loop counters.
  \<^item> \<open>Transaction_Execution\<close>: the output filter, the transaction object and the program made of a
    single statement; a statement returns exactly the rows of the database.
  \<^item> \<open>Error_Reporting\<close>: the locale \<open>reporting_database\<close> states what a database has to record for
    failures to be reported, and derives that every failed run ends with the recorded error.
  \<^item> \<open>Statement_Parser\<close>: statements with placeholders; the parsed elements tile the text.
  \<^item> \<open>Number_Strings\<close>: \<^verbatim>\<open>types/conversions.cpp\<close>; integers survive printing and parsing.
  \<^item> \<open>Date_Time\<close>: \<^verbatim>\<open>types/datetime.cpp\<close>; dates survive their time stamps and their texts, and are
    ordered by the fields both formats have.
  \<^item> \<open>Big_Number\<close>: \<^verbatim>\<open>types/bignumber.cpp\<close>; decimal numbers are read to their value, printed numbers
    are read back, the comparison is the order of the values where its digit loop is defined, and
    the conversion to integers works for zero only.
  \<^item> \<open>Variant_Conversion\<close>: the casts, conversions and comparisons of \<^verbatim>\<open>types/variant.cpp\<close>. A
    conversion that returns gives the type asked for; integers of different type are ordered the
    wrong way round.
  \<^item> \<open>Database_Binding\<close>: what the implementations of the database interface share.
  \<^item> \<open>SQLite_Statemachine\<close>: the SQLite implementation of the database interface, over a record
    of the library calls. It is an instance of \<open>reporting_database\<close>; its reachable states are
    consistent; the end to end theorem for a statement holds on it.
  \<^item> \<open>PostgreSQL_Statement\<close>, \<open>PostgreSQL_Statemachine\<close>, \<open>PostgreSQL_Execution\<close>: the PostgreSQL
    implementation (\<^verbatim>\<open>src/modules/database/postgresql\<close>) with its parameter arrays, its pool of
    connections and its operations over a record of the calls of \<^verbatim>\<open>libpq\<close>. It is the second
    instance of \<open>reporting_database\<close>; the parameter arrays carry the values bound, no connection
    is lost, and the end to end theorem for a statement holds on it; failures leave connections
    with open transactions in the pool.
  \<^item> \<open>PostgreSQL_Database\<close>: the connection string, the server settings, the opening and closing of
    the connections and the substituting statement.
  \<^item> \<open>Program_Tables\<close>: symbol tables, selector paths and hint tables of programs under
    construction (\<^verbatim>\<open>tdl/vm/*.hpp\<close>); the locale \<open>symbol_table\<close> is the contract of name and tag
    tables that the linker relies on.
  \<^item> \<open>Program_Linker\<close>: \<^verbatim>\<open>Program::add\<close>. After joining, every instruction refers to the
    same object as before.
  \<^item> \<open>Subroutine_Templates\<close>: subroutine declarations and template substitution, which is the
    token-wise replacement of the parameters, except for quoted tokens.
  \<^item> \<open>Tdl_Translator\<close>: every operation of \<^verbatim>\<open>Tdl2vmTranslator\<close>.
  \<^item> \<open>Command_Compiler\<close>, \<open>Compiler_Properties\<close>: \<^verbatim>\<open>programAddCommandDefinition\<close>. A compiled
    command is self-contained: it is appended, restores the translator's stack and jumps only
    inside itself or to subroutines.
  \<^item> \<open>Tdl_Lexer\<close>, \<open>Tdl_Parser\<close>, \<open>Tdl_Source\<close>: the source parser, from the scanner over references,
    embedded statements, commands, blocks, subroutines, audit calls, preprocessing and transactions
    to files with includes (\<^verbatim>\<open>tdl/*.cpp\<close>, \<^verbatim>\<open>loadTransactionProgram.cpp\<close>,
    \<^verbatim>\<open>databaseLanguage.cpp\<close>). A parser returns the rest of the source, with an exception too.
  \<^item> \<open>Tdl_Properties\<close>: the code of a parsed block is self-contained.
  \<^item> \<open>Program_Validity\<close>, \<open>Tdl_Validity\<close>: an invariant of the translator under all its operations, and
    from it that every program of a loaded file is well-formed; the calls of subroutines in audit
    programs are valid jumps, but lead to the wrong address.
  \<^item> \<open>Loop_Execution\<close>: the generated loops run their body once per row and end.
  \<^item> \<open>Program_Layout\<close>: \<^verbatim>\<open>createProgram\<close> places subroutines before the main program and
    relocates it; jumps and calls keep their targets.
  \<^item> \<open>Input_Structure\<close>, \<open>Input_Refinement\<close>: the linked nodes of the input document refine trees: every
    sequence of calls does on the nodes what it does on the abstract document, and selector
    paths select subtrees.
  \<^item> \<open>Path_Rewriter\<close>, \<open>Path_Execution\<close>: \<^verbatim>\<open>rewriteInputPathReferences\<close>. A loop over a path outputs
    the values of the selected nodes; references behind a subroutine call stay unresolved.

  \<^item> \<open>Preproc_Filters\<close>: the filters between the input structure and the functions that preprocess it; the
    arguments of such a function are the subtrees it selects.
  \<^item> \<open>Transaction_Function\<close>, \<open>Transaction_Safety\<close>: the call of a transaction function
    (\<^verbatim>\<open>tdlTransactionFunction.cpp\<close>, \<^verbatim>\<open>tdlTransactionPreprocStep.cpp\<close>, \<^verbatim>\<open>redirectFilterClosure.hpp\<close>), which
    composes the parts: authorization, input, preprocessing, path rewriter, transaction, audit, result. A failed
    call without a result filter leaves the database as it was, commits follow all critical audit functions,
    input may arrive in parts; a result filter that is missing is noticed behind the commit.

  \<^bold>\<open>Parameters.\<close> The database behind the virtual machine (\<open>exec_ops\<close>), the SQLite library
  (\<open>sqlite_api\<close>), the PostgreSQL library (\<open>pq_api\<close> and \<open>pk_api\<close>), floating point and custom types
  (\<open>value_ops\<close>), the language of embedded statements (\<open>language_description\<close>, with the instance
  \<open>sql_language\<close>), the file system (\<open>source_files\<close>), the text of the values that have no own binding
  (\<open>variant_ops\<close>), the conversion of array indices (\<open>conv\<close>), the source of the input of a call (\<open>input_ops\<close>) and
  the provider of transactions and of functions called by name (\<open>exec_context\<close>) are arguments of the definitions; hypotheses on them are named and have concrete instances in the witnesses.

  \<^bold>\<open>Not modelled.\<close> The printing of programs, transaction functions and input structures is not modelled. The Oracle state machine is a third implementation of the interface
  that is modelled for SQLite and PostgreSQL. Pools of connections are modelled without the other
  threads that could return a connection while one waits. Log and trace output has no effect on the state. The lifetime of
  texts bound without a copy is not visible to the model. Filters, document types, protocol handler,
  network server, language bindings, configuration, authentication, printing and the cryptographic
  helpers are glue over third-party libraries or input and output around the transaction core.
\<close>

end
